(* ===== verification/Prelude.thy ===== *)
theory Prelude
  imports Main "HOL-Library.Sublist" "HOL-Library.Multiset"
    "HOL-Library.Char_ord" "HOL-Library.List_Lexorder" "HOL-Library.AList"
begin

text \<open>
  Shared ground of the development: the Go values and library functions the order management
  system uses, as HOL functions, with the lemmas the component theories rest on.

  \<^item> \<open>int64\<close> and \<open>int32\<close> wrap an unbounded integer into the two's complement range, the way Go's
    fixed-width arithmetic does; the model's amounts, prices and durations are \<open>int\<close>s on which
    these functions are written out wherever the code computes.
  \<^item> \<open>gotime\<close> is a \<open>time.Time\<close>: nanoseconds since the zero instant (1 January of year 1, UTC), so
    that \<open>IsZero\<close> is equality with 0; a \<open>time.Duration\<close> is an \<open>int\<close> number of nanoseconds.
  \<^item> A Go \<open>map\<close> is a partial function. The order in which a \<open>range\<close> loop visits its keys is not
    specified by the language: every model of such a loop takes the visited keys \<open>ks\<close> as an argument,
    and \<open>range_order m ks\<close> says that \<open>ks\<close> is a possible order.
  \<^item> \<open>sort.Slice\<close> is the locale \<open>slice_sort\<close> (any function that permutes its input into an order that
    the comparison allows); \<open>sort_slice\<close>, the insertion sort that Go runs on short slices, is an
    interpretation. Where the comparison is total the locale shows that every implementation returns
    the same list.
  \<^item> \<open>TrimSpace\<close> works on the UTF-8 bytes of a string and knows every rune for which
    \<open>unicode.IsSpace\<close> holds.
  \<^item> \<open>ToLower\<close> maps the ASCII letters and the two other runes whose lower case is an ASCII letter
    (U+212A and U+0130). Every other rune outside ASCII lower-cases to a rune outside ASCII, which the
    model leaves as it is; the code only compares lower-cased strings with ASCII identifiers, so the
    outcome of each comparison is the same.
\<close>

named_theorems repo_simps \<open>equations of the repository operations\<close>
named_theorems frame_simps \<open>what an operation leaves unchanged\<close>

section \<open>Integers\<close>

definition int64 :: "int \<Rightarrow> int" where
  "int64 x = (x + 2 ^ 63) mod 2 ^ 64 - 2 ^ 63"

definition int32 :: "int \<Rightarrow> int" where
  "int32 x = (x + 2 ^ 31) mod 2 ^ 32 - 2 ^ 31"

definition in_int64 :: "int \<Rightarrow> bool" where
  "in_int64 x \<longleftrightarrow> - (2 ^ 63) \<le> x \<and> x < 2 ^ 63"

abbreviation max_int64 :: int where
  "max_int64 \<equiv> 2 ^ 63 - 1"

section \<open>Time\<close>

type_synonym gotime = int
type_synonym duration = int

definition IsZero :: "gotime \<Rightarrow> bool" where
  "IsZero t \<longleftrightarrow> t = 0"

abbreviation second :: duration where "second \<equiv> 1000000000"
abbreviation millisecond :: duration where "millisecond \<equiv> 1000000"
abbreviation minute :: duration where "minute \<equiv> 60 * second"
abbreviation hour :: duration where "hour \<equiv> 3600 * second"

definition Sub :: "gotime \<Rightarrow> gotime \<Rightarrow> duration" where
  "Sub t u = (if t - u > max_int64 then max_int64
              else if t - u < - (2 ^ 63) then - (2 ^ 63) else t - u)"

definition unix_to_internal :: int where
  "unix_to_internal = 62135596800"

definition time_Unix :: "int \<Rightarrow> gotime" where
  "time_Unix sec = int64 (sec + unix_to_internal) * second"

definition Unix :: "gotime \<Rightarrow> int" where
  "Unix t = t div second - unix_to_internal"

section \<open>Maps and range loops\<close>

definition range_order :: "('k \<rightharpoonup> 'v) \<Rightarrow> 'k list \<Rightarrow> bool" where
  "range_order m ks \<longleftrightarrow> distinct ks \<and> set ks = dom m"

fun range_vals :: "('k \<rightharpoonup> 'v) \<Rightarrow> 'k list \<Rightarrow> 'v list" where
  "range_vals m [] = []"
| "range_vals m (k # ks) =
     (case m k of None \<Rightarrow> range_vals m ks | Some v \<Rightarrow> v # range_vals m ks)"

section \<open>sort.Slice\<close>

fun insert_by :: "('a \<Rightarrow> 'a \<Rightarrow> bool) \<Rightarrow> 'a \<Rightarrow> 'a list \<Rightarrow> 'a list" where
  "insert_by lt x [] = [x]"
| "insert_by lt x (y # ys) = (if lt x y then x # y # ys else y # insert_by lt x ys)"

definition sort_slice :: "('a \<Rightarrow> 'a \<Rightarrow> bool) \<Rightarrow> 'a list \<Rightarrow> 'a list" where
  "sort_slice lt xs = fold (insert_by lt) xs []"

definition weak_order :: "('a \<Rightarrow> 'a \<Rightarrow> bool) \<Rightarrow> bool" where
  "weak_order lt \<longleftrightarrow> (\<forall>x. \<not> lt x x) \<and> (\<forall>x y z. lt x y \<longrightarrow> lt y z \<longrightarrow> lt x z)
     \<and> (\<forall>x y z. \<not> lt x y \<longrightarrow> \<not> lt y z \<longrightarrow> \<not> lt x z)"

definition sorted_less :: "('a \<Rightarrow> 'a \<Rightarrow> bool) \<Rightarrow> 'a list \<Rightarrow> bool" where
  "sorted_less lt xs \<longleftrightarrow> sorted_wrt (\<lambda>x y. \<not> lt y x) xs"

section \<open>Strings\<close>

function strip :: "string list \<Rightarrow> string \<Rightarrow> string" where
  "strip ps s =
     (case find (\<lambda>p. p \<noteq> [] \<and> prefix p s) ps of
        None \<Rightarrow> s
      | Some p \<Rightarrow> strip ps (drop (length p) s))"
  by pat_completeness auto
termination
  by (relation "measure (\<lambda>(ps, s). length s)") (auto simp: find_Some_iff prefix_def)

declare strip.simps [simp del]

definition space_runes :: "string list" where
  "space_runes =
     [[CHR 0x09], [CHR 0x0A], [CHR 0x0B], [CHR 0x0C], [CHR 0x0D], [CHR 0x20],
      [CHR 0xC2, CHR 0x85], [CHR 0xC2, CHR 0xA0], [CHR 0xE1, CHR 0x9A, CHR 0x80],
      [CHR 0xE2, CHR 0x80, CHR 0x80], [CHR 0xE2, CHR 0x80, CHR 0x81], [CHR 0xE2, CHR 0x80, CHR 0x82],
      [CHR 0xE2, CHR 0x80, CHR 0x83], [CHR 0xE2, CHR 0x80, CHR 0x84], [CHR 0xE2, CHR 0x80, CHR 0x85],
      [CHR 0xE2, CHR 0x80, CHR 0x86], [CHR 0xE2, CHR 0x80, CHR 0x87], [CHR 0xE2, CHR 0x80, CHR 0x88],
      [CHR 0xE2, CHR 0x80, CHR 0x89], [CHR 0xE2, CHR 0x80, CHR 0x8A], [CHR 0xE2, CHR 0x80, CHR 0xA8],
      [CHR 0xE2, CHR 0x80, CHR 0xA9], [CHR 0xE2, CHR 0x80, CHR 0xAF], [CHR 0xE2, CHR 0x81, CHR 0x9F],
      [CHR 0xE3, CHR 0x80, CHR 0x80]]"

definition TrimSpace :: "string \<Rightarrow> string" where
  "TrimSpace s = rev (strip (map rev space_runes) (rev (strip space_runes s)))"

definition lower_char :: "char \<Rightarrow> char" where
  "lower_char c = (if CHR ''A'' \<le> c \<and> c \<le> CHR ''Z'' then char_of (of_char c + 32 :: nat) else c)"

fun ToLower :: "string \<Rightarrow> string" where
  "ToLower [] = []"
| "ToLower (c # cs) =
     (if take 3 (c # cs) = [CHR 0xE2, CHR 0x84, CHR 0xAA] then CHR ''k'' # ToLower (drop 2 cs)
      else if take 2 (c # cs) = [CHR 0xC4, CHR 0xB0] then CHR ''i'' # ToLower (drop 1 cs)
      else lower_char c # ToLower cs)"

text \<open>Decimal digits, as \<open>fmt\<close> prints an integer with \<open>%d\<close>.\<close>

fun digits :: "nat \<Rightarrow> string" where
  "digits n = (if n < 10 then [char_of (48 + n)] else digits (n div 10) @ [char_of (48 + n mod 10)])"

declare digits.simps [simp del]

definition int_string :: "int \<Rightarrow> string" where
  "int_string x = (if x < 0 then CHR ''-'' # digits (nat (- x)) else digits (nat x))"

section \<open>Lemmas on integers and time\<close>

lemma int64_id [simp]: "in_int64 x \<Longrightarrow> int64 x = x"
  by (simp add: int64_def in_int64_def)

lemma int64_range: "in_int64 (int64 x)"
proof -
  have "0 \<le> (x + 2 ^ 63) mod 2 ^ 64" and "(x + 2 ^ 63) mod 2 ^ 64 < (2 :: int) ^ 64"
    by simp_all
  then show ?thesis by (simp add: int64_def in_int64_def)
qed

lemma int64_mod_eq: "int64 x mod 2 ^ 64 = x mod 2 ^ 64"
  unfolding int64_def by (metis add_diff_cancel_right' mod_diff_left_eq)

lemma int64_cong: "x mod 2 ^ 64 = y mod 2 ^ 64 \<Longrightarrow> int64 x = int64 y"
  unfolding int64_def by (metis mod_add_left_eq)

lemma int64_add_left: "int64 (int64 x + y) = int64 (x + y)"
  by (rule int64_cong) (metis int64_mod_eq mod_add_left_eq)

lemma int64_add_right: "int64 (x + int64 y) = int64 (x + y)"
  by (metis int64_add_left add.commute)

lemma Sub_small: "in_int64 (t - u) \<Longrightarrow> Sub t u = t - u"
  by (auto simp: Sub_def in_int64_def)

lemma Unix_time_Unix:
  "in_int64 (sec + unix_to_internal) \<Longrightarrow> Unix (time_Unix sec) = sec"
  by (simp add: Unix_def time_Unix_def)

section \<open>Lemmas on range loops\<close>

lemma set_range_vals: "set (range_vals m ks) = {v. \<exists>k \<in> set ks. m k = Some v}"
  by (induction ks) (auto split: option.splits)

lemma range_vals_cong: "(\<And>k. k \<in> set ks \<Longrightarrow> m k = m' k) \<Longrightarrow> range_vals m ks = range_vals m' ks"
  by (induction ks) (auto split: option.splits)

lemma set_range_vals_ran: "range_order m ks \<Longrightarrow> set (range_vals m ks) = ran m"
  by (auto simp: set_range_vals range_order_def ran_def)

lemma mset_range_vals: "mset ks = mset ks' \<Longrightarrow> mset (range_vals m ks) = mset (range_vals m ks')"
proof (induction ks arbitrary: ks')
  case Nil
  then show ?case by simp
next
  case (Cons k ks)
  then obtain xs ys where ks': "ks' = xs @ k # ys"
    by (metis list.set_intros(1) mset_eq_setD split_list)
  have app: "range_vals m (as @ bs) = range_vals m as @ range_vals m bs" for as bs
    by (induction as) (auto split: option.splits)
  from Cons.prems ks' have "mset ks = mset (xs @ ys)" by simp
  then have "mset (range_vals m ks) = mset (range_vals m (xs @ ys))" by (rule Cons.IH)
  then show ?case by (auto simp: ks' app split: option.splits)
qed

lemma range_order_perm: "range_order m ks \<Longrightarrow> range_order m ks' \<Longrightarrow> mset ks = mset ks'"
  by (metis range_order_def set_eq_iff_mset_eq_distinct)

lemma distinct_range_vals:
  assumes "distinct ks" and "\<And>k v. m k = Some v \<Longrightarrow> f v = k"
  shows "distinct (map f (range_vals m ks))"
  using assms by (induction ks) (auto simp: set_range_vals split: option.splits)

section \<open>Sorting\<close>

text \<open>The contract of \<open>sort.Slice(xs, lt)\<close>: it permutes the slice into an order the comparison allows.\<close>

locale slice_sort =
  fixes srt :: "('a \<Rightarrow> 'a \<Rightarrow> bool) \<Rightarrow> 'a list \<Rightarrow> 'a list"
  assumes srt_perm: "mset (srt lt xs) = mset xs"
    and srt_sorted: "weak_order lt \<Longrightarrow> sorted_less lt (srt lt xs)"
begin

lemma srt_set: "set (srt lt xs) = set xs"
  by (metis srt_perm set_mset_mset)

lemma srt_length: "length (srt lt xs) = length xs"
  by (metis srt_perm size_mset)

text \<open>With a comparison that separates the elements, the sorted permutation is unique.\<close>

lemma srt_unique:
  assumes "weak_order lt" and "sorted_less lt ys" and "mset ys = mset xs"
    and "\<And>x y. x \<in> set xs \<Longrightarrow> y \<in> set xs \<Longrightarrow> x \<noteq> y \<Longrightarrow> lt x y \<or> lt y x"
  shows "srt lt xs = ys"
proof -
  have "as = bs" if "sorted_less lt as" "sorted_less lt bs" "mset as = mset bs"
    "set as \<subseteq> set xs" for as bs
    using that
  proof (induction as arbitrary: bs)
    case Nil
    then show ?case by simp
  next
    case (Cons a as)
    then obtain b bs' where bs: "bs = b # bs'" by (cases bs) auto
    have "a \<in> set bs" and "b \<in> set (a # as)"
      using Cons.prems(3) bs by (metis list.set_intros(1) mset_eq_setD)+
    then have "a = b \<or> (\<not> lt a b \<and> \<not> lt b a)"
      using Cons.prems(1,2) bs by (auto simp: sorted_less_def)
    moreover have "b \<in> set xs" "a \<in> set xs"
      using \<open>b \<in> set (a # as)\<close> Cons.prems(4) by auto
    ultimately have "a = b" using assms(4) by metis
    moreover from this have "as = bs'"
      using Cons.prems bs by (intro Cons.IH) (auto simp: sorted_less_def)
    ultimately show ?case by (simp add: bs)
  qed
  then show ?thesis
    using assms srt_perm srt_sorted srt_set by (metis order_refl)
qed

end

lemma mset_insert_by: "mset (insert_by lt x ys) = add_mset x (mset ys)"
  by (induction ys) auto

lemma set_insert_by: "set (insert_by lt x ys) = insert x (set ys)"
  by (induction ys) auto

lemma sorted_insert_by:
  assumes "weak_order lt" and "sorted_less lt ys"
  shows "sorted_less lt (insert_by lt x ys)"
  using assms(2)
proof (induction ys)
  case Nil
  then show ?case by (simp add: sorted_less_def)
next
  case (Cons y ys)
  have asym: "lt x y \<Longrightarrow> \<not> lt y x" for x y
    using assms(1) unfolding weak_order_def by blast
  have neg_trans: "lt x y \<Longrightarrow> lt x z \<or> lt z y" for x y z
    using assms(1) unfolding weak_order_def by blast
  show ?case
    using Cons asym neg_trans
    by (auto simp: sorted_less_def set_insert_by; metis)
qed

lemma mset_fold_insert_by: "mset (fold (insert_by lt) xs acc) = mset xs + mset acc"
  by (induction xs arbitrary: acc) (auto simp: mset_insert_by)

lemma sorted_fold_insert_by:
  "weak_order lt \<Longrightarrow> sorted_less lt acc \<Longrightarrow> sorted_less lt (fold (insert_by lt) xs acc)"
  by (induction xs arbitrary: acc) (auto simp: sorted_insert_by)

lemma sorted_less_Nil [simp]: "sorted_less lt []"
  by (simp add: sorted_less_def)

interpretation insertion: slice_sort sort_slice
  by unfold_locales (simp_all add: sort_slice_def mset_fold_insert_by sorted_fold_insert_by)

section \<open>Lemmas on strings\<close>

lemma strip_suffix: "suffix (strip ps s) s"
proof (induction ps s rule: strip.induct)
  case (1 ps s)
  show ?case
  proof (cases "find (\<lambda>p. p \<noteq> [] \<and> prefix p s) ps")
    case None
    then show ?thesis by (simp add: strip.simps [of ps s])
  next
    case (Some p)
    then have "suffix (strip ps s) (drop (length p) s)"
      using "1.IH" by (simp add: strip.simps [of ps s])
    then show ?thesis using suffix_drop suffix_order.trans by blast
  qed
qed

lemma strip_none: "p \<in> set ps \<Longrightarrow> p \<noteq> [] \<Longrightarrow> \<not> prefix p (strip ps s)"
proof (induction ps s rule: strip.induct)
  case (1 ps s)
  show ?case
  proof (cases "find (\<lambda>p. p \<noteq> [] \<and> prefix p s) ps")
    case None
    then have "strip ps s = s" by (simp add: strip.simps [of ps s])
    with None "1.prems" show ?thesis by (auto simp: find_None_iff)
  next
    case (Some q)
    with "1.IH" [OF Some "1.prems"] show ?thesis by (simp add: strip.simps [of ps s])
  qed
qed

lemma strip_fixed: "(\<And>p. p \<in> set ps \<Longrightarrow> p \<noteq> [] \<Longrightarrow> \<not> prefix p s) \<Longrightarrow> strip ps s = s"
proof -
  assume "\<And>p. p \<in> set ps \<Longrightarrow> p \<noteq> [] \<Longrightarrow> \<not> prefix p s"
  then have "find (\<lambda>p. p \<noteq> [] \<and> prefix p s) ps = None" by (auto simp: find_None_iff)
  then show ?thesis by (simp add: strip.simps [of ps s])
qed

lemma TrimSpace_idem [simp]: "TrimSpace (TrimSpace s) = TrimSpace s"
proof -
  let ?l = "strip space_runes s"
  let ?r = "strip (map rev space_runes) (rev ?l)"
  have "prefix (rev ?r) ?l"
    using strip_suffix [of "map rev space_runes" "rev ?l"] by (simp add: suffix_to_prefix)
  then have "\<not> prefix p (rev ?r)" if "p \<in> set space_runes" "p \<noteq> []" for p
    using that strip_none [of p space_runes s] prefix_order.trans by blast
  then have left: "strip space_runes (rev ?r) = rev ?r" by (intro strip_fixed)
  have right: "strip (map rev space_runes) ?r = ?r"
    by (intro strip_fixed strip_none)
  show ?thesis by (simp add: TrimSpace_def left right)
qed

lemma TrimSpace_Nil [simp]: "TrimSpace [] = []"
proof -
  have "strip ps [] = []" for ps
    by (rule strip_fixed) (simp add: prefix_def)
  then show ?thesis by (simp add: TrimSpace_def)
qed

end
