(* ===== verification/Domain.thy ===== *)
theory Domain
  imports Prelude
begin

text \<open>
  The order side of \<open>internal/domain\<close>: the sentinel errors, orders, payments, reservations, timeline
  events, outbox messages and idempotency records, with their validation methods.

  A Go \<open>error\<close> is a value of type \<open>error\<close>: a sentinel (those of
  errors.go, \<open>errSagaTerminated\<close> of the saga package and the two errors of a context), an opaque error of another
  component, or an error wrapped with \<open>fmt.Errorf("...: %w", err)\<close>; \<open>errors_Is\<close> follows the chain of
  wrapped errors. A nil error is \<open>None\<close>. The named string types become datatypes with one
  constructor per declared constant and one for any other string. A \<open>Version\<close> counts the saves of an
  order from 0 and is an unbounded \<open>int\<close>; amounts and prices are \<open>int\<close>s in the \<open>int64\<close> range,
  quantities in the \<open>int32\<close> range, and the sums over them wrap as in Go.
\<close>

section \<open>Errors\<close>

datatype sentinel =
    ErrCustomerRequired | ErrCurrencyRequired | ErrItemsRequired | ErrAmountNegative
    | ErrItemQtyInvalid | ErrItemPriceInvalid | ErrAmountMismatch | ErrPaymentAmountNegative
    | ErrPaymentProviderRequired | ErrOrderIDRequired | ErrReservationSKURequired
    | ErrReservationQtyInvalid | ErrOrderNotFound | ErrOrderVersionConflict
    | ErrInventoryUnavailable | ErrInventoryTemporary | ErrPaymentDeclined
    | ErrPaymentIndeterminate | ErrPaymentTemporary | ErrOutboxPublish
    | ErrIdempotencyKeyRequired | ErrIdempotencyRequestHashRequired | ErrIdempotencyKeyNotFound
    | ErrIdempotencyKeyAlreadyExists | ErrIdempotencyHashMismatch | ErrCourierIDRequired
    | ErrCourierPhoneRequired | ErrCourierPhoneFormatInvalid | ErrCourierFirstNameRequired
    | ErrCourierLastNameRequired | ErrCourierVehicleTypeInvalid
    | ErrCourierVehicleCapabilityInvalid | ErrCourierVehicleCapabilityNotFound
    | ErrCourierNotFound | ErrCourierAlreadyExists | ErrCourierPhoneAlreadyExists
    | ErrCourierZoneRequired | ErrCourierZoneUnknown | ErrCourierZoneLimitExceeded
    | ErrCourierZonesRequired | ErrCourierZoneDuplicate | ErrCourierPrimaryZoneConflict
    | ErrCourierZoneCapacityExceeded | ErrCourierSlotIDRequired | ErrCourierSlotDurationInvalid
    | ErrCourierSlotDurationMismatch | ErrCourierSlotRangeInvalid | ErrCourierSlotStatusInvalid
    | ErrCourierSlotConflict | ErrCourierNightSlotCarOnly | ErrCourierRatingIDRequired
    | ErrCourierRatingScoreInvalid | ErrCourierRatingTagInvalid | ErrCourierRatingTagDuplicate
    | ErrCourierRatingReasonsRequired | ErrCourierRatingPositiveTagsOnly
    | ErrCourierRatingAlreadyExists
    | errSagaTerminated | ContextCanceled | ContextDeadlineExceeded

datatype error = E sentinel | Opaque string | Wrapped string error

primrec sentinel_message :: "sentinel \<Rightarrow> string" where
  "sentinel_message ErrCustomerRequired = ''customer_id is required''"
| "sentinel_message ErrCurrencyRequired = ''currency is required''"
| "sentinel_message ErrItemsRequired = ''order must contain at least one item''"
| "sentinel_message ErrAmountNegative = ''amount_minor must be non-negative''"
| "sentinel_message ErrItemQtyInvalid = ''item qty must be greater than zero''"
| "sentinel_message ErrItemPriceInvalid = ''item price must be non-negative''"
| "sentinel_message ErrAmountMismatch = ''order amount does not match items sum''"
| "sentinel_message ErrPaymentAmountNegative = ''payment amount must be non-negative''"
| "sentinel_message ErrPaymentProviderRequired = ''payment provider is required''"
| "sentinel_message ErrOrderIDRequired = ''order_id is required''"
| "sentinel_message ErrReservationSKURequired = ''reservation sku is required''"
| "sentinel_message ErrReservationQtyInvalid = ''reservation qty must be greater than zero''"
| "sentinel_message ErrOrderNotFound = ''order not found''"
| "sentinel_message ErrOrderVersionConflict = ''order version conflict''"
| "sentinel_message ErrInventoryUnavailable = ''inventory unavailable''"
| "sentinel_message ErrInventoryTemporary = ''inventory temporary error''"
| "sentinel_message ErrPaymentDeclined = ''payment declined''"
| "sentinel_message ErrPaymentIndeterminate = ''payment indeterminate state''"
| "sentinel_message ErrPaymentTemporary = ''payment temporary error''"
| "sentinel_message ErrOutboxPublish = ''outbox publish failed''"
| "sentinel_message ErrIdempotencyKeyRequired = ''idempotency key is required''"
| "sentinel_message ErrIdempotencyRequestHashRequired = ''idempotency request hash is required''"
| "sentinel_message ErrIdempotencyKeyNotFound = ''idempotency key not found''"
| "sentinel_message ErrIdempotencyKeyAlreadyExists = ''idempotency key already exists''"
| "sentinel_message ErrIdempotencyHashMismatch = ''idempotency request hash mismatch''"
| "sentinel_message ErrCourierIDRequired = ''courier id is required''"
| "sentinel_message ErrCourierPhoneRequired = ''courier phone is required''"
| "sentinel_message ErrCourierPhoneFormatInvalid = ''courier phone format is invalid''"
| "sentinel_message ErrCourierFirstNameRequired = ''courier first name is required''"
| "sentinel_message ErrCourierLastNameRequired = ''courier last name is required''"
| "sentinel_message ErrCourierVehicleTypeInvalid = ''courier vehicle type is invalid''"
| "sentinel_message ErrCourierVehicleCapabilityInvalid = ''courier vehicle capability is invalid''"
| "sentinel_message ErrCourierVehicleCapabilityNotFound = ''courier vehicle capability not found''"
| "sentinel_message ErrCourierNotFound = ''courier not found''"
| "sentinel_message ErrCourierAlreadyExists = ''courier already exists''"
| "sentinel_message ErrCourierPhoneAlreadyExists = ''courier phone already exists''"
| "sentinel_message ErrCourierZoneRequired = ''courier zone is required''"
| "sentinel_message ErrCourierZoneUnknown = ''courier zone is unknown''"
| "sentinel_message ErrCourierZoneLimitExceeded = ''courier zone limit exceeded''"
| "sentinel_message ErrCourierZonesRequired = ''courier zones are required''"
| "sentinel_message ErrCourierZoneDuplicate = ''courier zone duplicate''"
| "sentinel_message ErrCourierPrimaryZoneConflict = ''courier primary zone conflict''"
| "sentinel_message ErrCourierZoneCapacityExceeded = ''courier zone capacity exceeded''"
| "sentinel_message ErrCourierSlotIDRequired = ''courier slot id is required''"
| "sentinel_message ErrCourierSlotDurationInvalid = ''courier slot duration is invalid''"
| "sentinel_message ErrCourierSlotDurationMismatch = ''courier slot duration mismatch''"
| "sentinel_message ErrCourierSlotRangeInvalid = ''courier slot range is invalid''"
| "sentinel_message ErrCourierSlotStatusInvalid = ''courier slot status is invalid''"
| "sentinel_message ErrCourierSlotConflict = ''courier slot conflict''"
| "sentinel_message ErrCourierNightSlotCarOnly = ''courier night slot is allowed only for car''"
| "sentinel_message ErrCourierRatingIDRequired = ''courier rating id is required''"
| "sentinel_message ErrCourierRatingScoreInvalid = ''courier rating score is invalid''"
| "sentinel_message ErrCourierRatingTagInvalid = ''courier rating tag is invalid''"
| "sentinel_message ErrCourierRatingTagDuplicate = ''courier rating tag duplicate''"
| "sentinel_message ErrCourierRatingReasonsRequired = ''courier rating reasons are required''"
| "sentinel_message ErrCourierRatingPositiveTagsOnly = ''courier rating positive tags only''"
| "sentinel_message ErrCourierRatingAlreadyExists = ''courier rating already exists''"
| "sentinel_message errSagaTerminated = ''saga terminated due to terminal order status''"
| "sentinel_message ContextCanceled = ''context canceled''"
| "sentinel_message ContextDeadlineExceeded = ''context deadline exceeded''"

fun Error :: "error \<Rightarrow> string" where
  "Error (E s) = sentinel_message s"
| "Error (Opaque m) = m"
| "Error (Wrapped m e) = m @ '': '' @ Error e"

fun errors_Is :: "error \<Rightarrow> sentinel \<Rightarrow> bool" where
  "errors_Is (E s) t = (s = t)"
| "errors_Is (Opaque m) t = False"
| "errors_Is (Wrapped m e) t = errors_Is e t"

definition IsVersionConflict :: "error \<Rightarrow> bool" where
  "IsVersionConflict e = errors_Is e ErrOrderVersionConflict"

definition IsIdempotencyConflict :: "error \<Rightarrow> bool" where
  "IsIdempotencyConflict e =
     (errors_Is e ErrIdempotencyKeyAlreadyExists \<or> errors_Is e ErrIdempotencyHashMismatch)"

section \<open>Orders\<close>

datatype OrderStatus =
    OrderStatusPending | OrderStatusReserved | OrderStatusPaid | OrderStatusConfirmed
  | OrderStatusCanceled | OrderStatusRefunded | OrderStatusOther string

fun OrderStatus_string :: "OrderStatus \<Rightarrow> string" where
  "OrderStatus_string OrderStatusPending = ''pending''"
| "OrderStatus_string OrderStatusReserved = ''reserved''"
| "OrderStatus_string OrderStatusPaid = ''paid''"
| "OrderStatus_string OrderStatusConfirmed = ''confirmed''"
| "OrderStatus_string OrderStatusCanceled = ''canceled''"
| "OrderStatus_string OrderStatusRefunded = ''refunded''"
| "OrderStatus_string (OrderStatusOther s) = s"

record OrderItem =
  item_ID :: string
  SKU :: string
  Qty :: int
  PriceMinor :: int
  item_CreatedAt :: gotime

record Order =
  ID :: string
  CustomerID :: string
  Status :: OrderStatus
  Currency :: string
  AmountMinor :: int
  Items :: "OrderItem list"
  Version :: int
  CreatedAt :: gotime
  UpdatedAt :: gotime

text \<open>The loop of \<open>Order.ValidateInvariants\<close> over the items: the errors so far and the running sum.\<close>

fun validate_items :: "OrderItem list \<Rightarrow> error list \<Rightarrow> int \<Rightarrow> error list \<times> int" where
  "validate_items [] errs calc = (errs, calc)"
| "validate_items (item # items) errs calc =
     validate_items items
       (errs @ (if Qty item \<le> 0 then [E ErrItemQtyInvalid] else [])
             @ (if PriceMinor item < 0 then [E ErrItemPriceInvalid] else []))
       (int64 (calc + int64 (Qty item * PriceMinor item)))"

definition Order_ValidateInvariants :: "Order \<Rightarrow> error list" where
  "Order_ValidateInvariants o1 =
     (let errs = (if CustomerID o1 = [] then [E ErrCustomerRequired] else [])
               @ (if Currency o1 = [] then [E ErrCurrencyRequired] else [])
               @ (if Items o1 = [] then [E ErrItemsRequired] else [])
               @ (if AmountMinor o1 < 0 then [E ErrAmountNegative] else []);
          (errs', calc) = validate_items (Items o1) errs 0
      in errs' @ (if calc \<noteq> AmountMinor o1 then [E ErrAmountMismatch] else []))"

section \<open>Payments and reservations\<close>

datatype PaymentStatus =
    PaymentStatusPending | PaymentStatusAuthorized | PaymentStatusCaptured
  | PaymentStatusRefunded | PaymentStatusFailed | PaymentStatusOther string

fun PaymentStatus_string :: "PaymentStatus \<Rightarrow> string" where
  "PaymentStatus_string PaymentStatusPending = ''pending''"
| "PaymentStatus_string PaymentStatusAuthorized = ''authorized''"
| "PaymentStatus_string PaymentStatusCaptured = ''captured''"
| "PaymentStatus_string PaymentStatusRefunded = ''refunded''"
| "PaymentStatus_string PaymentStatusFailed = ''failed''"
| "PaymentStatus_string (PaymentStatusOther s) = s"

record Payment =
  pay_ID :: string
  pay_OrderID :: string
  Provider :: string
  ExternalID :: string
  pay_Status :: PaymentStatus
  pay_AmountMinor :: int
  pay_CreatedAt :: gotime
  pay_UpdatedAt :: gotime

definition Payment_Validate :: "Payment \<Rightarrow> error list" where
  "Payment_Validate p =
     (if pay_OrderID p = [] then [E ErrOrderIDRequired]
      else if Provider p = [] then [E ErrPaymentProviderRequired]
      else if pay_AmountMinor p < 0 then [E ErrPaymentAmountNegative]
      else [])"

datatype ReservationStatus =
    ReservationStatusPending | ReservationStatusReserved | ReservationStatusReleased
  | ReservationStatusFailed | ReservationStatusOther string

record Reservation =
  res_ID :: string
  res_OrderID :: string
  res_SKU :: string
  res_Qty :: int
  res_Status :: ReservationStatus
  res_CreatedAt :: gotime
  res_UpdatedAt :: gotime

definition Reservation_Validate :: "Reservation \<Rightarrow> error list" where
  "Reservation_Validate r =
     (if res_OrderID r = [] then [E ErrOrderIDRequired] else [])
     @ (if res_SKU r = [] then [E ErrReservationSKURequired] else [])
     @ (if res_Qty r \<le> 0 then [E ErrReservationQtyInvalid] else [])"

section \<open>Timeline, outbox and idempotency records\<close>

type_synonym bytes = string

record TimelineEvent =
  tl_OrderID :: string
  Type :: string
  Reason :: string
  Occurred :: gotime

record OutboxMessage =
  msg_ID :: string
  AggregateType :: string
  AggregateID :: string
  EventType :: string
  Payload :: bytes

record OutboxStats =
  PendingCount :: int
  OldestPendingAt :: gotime

datatype IdempotencyStatus =
    IdempotencyStatusProcessing | IdempotencyStatusDone | IdempotencyStatusFailed
  | IdempotencyStatusOther string

record IdempotencyRecord =
  Key :: string
  RequestHash :: string
  ResponseBody :: bytes
  HTTPStatus :: int
  idem_Status :: IdempotencyStatus
  TTLAt :: gotime
  idem_CreatedAt :: gotime
  idem_UpdatedAt :: gotime

fun IdempotencyStatus_Valid :: "IdempotencyStatus \<Rightarrow> bool" where
  "IdempotencyStatus_Valid (IdempotencyStatusOther s) = False"
| "IdempotencyStatus_Valid s = True"

text \<open>
  Values of the \<open>map[string]interface{}\<close> payloads: a \<open>string\<close>, a value of a named string type (which
  a type assertion to \<open>string\<close> rejects), an integer and raw JSON.
\<close>

datatype jval = JStr string | JNamed string | JInt int | JRaw bytes

type_synonym jobject = "(string \<times> jval) list"

section \<open>Validation of orders\<close>

text \<open>The exact sum of the positions, without wrap-around.\<close>

definition items_total :: "OrderItem list \<Rightarrow> int" where
  "items_total items = (\<Sum>item \<leftarrow> items. Qty item * PriceMinor item)"

definition item_ok :: "OrderItem \<Rightarrow> bool" where
  "item_ok item \<longleftrightarrow> 0 < Qty item \<and> 0 \<le> PriceMinor item"

lemma validate_items_sum:
  "snd (validate_items items errs calc) = int64 (calc + items_total items) \<or> items = []"
proof (induction items errs calc rule: validate_items.induct)
  case (1 errs calc)
  then show ?case by simp
next
  case (2 item items errs calc)
  then show ?case
    by (cases "items = []")
      (auto simp: items_total_def int64_add_left int64_add_right add.assoc)
qed

lemma validate_items_errors:
  "fst (validate_items items errs calc) = [] \<longleftrightarrow> errs = [] \<and> list_all item_ok items"
  by (induction items errs calc rule: validate_items.induct) (auto simp: item_ok_def)

text \<open>An order passes validation exactly when its header fields are set, every position is sane and
  its amount is the 64-bit wrap of the sum of the positions.\<close>

lemma Order_ValidateInvariants_iff:
  "Order_ValidateInvariants o1 = [] \<longleftrightarrow>
     CustomerID o1 \<noteq> [] \<and> Currency o1 \<noteq> [] \<and> Items o1 \<noteq> [] \<and> 0 \<le> AmountMinor o1
     \<and> list_all item_ok (Items o1) \<and> AmountMinor o1 = int64 (items_total (Items o1))"
proof (cases "Items o1 = []")
  case True
  then show ?thesis by (simp add: Order_ValidateInvariants_def)
next
  case False
  then have "snd (validate_items (Items o1) errs 0) = int64 (items_total (Items o1))" for errs
    using validate_items_sum [of "Items o1" errs 0] by simp
  then show ?thesis
    using False validate_items_errors [of "Items o1" _ 0]
    by (auto simp: Order_ValidateInvariants_def case_prod_beta)
qed

text \<open>Inversion and evaluation of the error chain.\<close>

lemma IsVersionConflict_E [simp]: "IsVersionConflict (E s) \<longleftrightarrow> s = ErrOrderVersionConflict"
  by (simp add: IsVersionConflict_def)

fun_cases errors_Is_OpaqueE [elim!]: "errors_Is (Opaque m) t"
fun_cases errors_Is_WrappedE [elim]: "errors_Is (Wrapped m e) t"

end
