(* ===== verification/Idempotency_Repository.thy ===== *)
theory Idempotency_Repository
  imports Domain
begin

text \<open>
  \<open>internal/storage/memory/idempotency_repository.go\<close>: the records that make mutating requests
  idempotent. A Go method returning \<open>(record, error)\<close> returns the pair here; \<open>now\<close> is what
  \<open>time.Now\<close> yields in the call and \<open>ks\<close> the order in which \<open>DeleteExpired\<close> visits the map.
  \<open>cloneIdempotencyRecord\<close> copies the response body, which is the identity on values.
\<close>

type_synonym idem_repo = "string \<rightharpoonup> IdempotencyRecord"

definition NewIdempotencyRepository :: idem_repo where
  "NewIdempotencyRepository = Map.empty"

definition zero_IdempotencyRecord :: IdempotencyRecord where
  "zero_IdempotencyRecord =
     \<lparr>Key = [], RequestHash = [], ResponseBody = [], HTTPStatus = 0,
      idem_Status = IdempotencyStatusOther [], TTLAt = 0, idem_CreatedAt = 0, idem_UpdatedAt = 0\<rparr>"

definition cloneIdempotencyRecord :: "IdempotencyRecord \<Rightarrow> IdempotencyRecord" where
  "cloneIdempotencyRecord src = src\<lparr>ResponseBody := [] @ ResponseBody src\<rparr>"

definition idem_CreateProcessing ::
  "gotime \<Rightarrow> string \<Rightarrow> string \<Rightarrow> gotime \<Rightarrow> idem_repo \<Rightarrow> (IdempotencyRecord \<times> error option) \<times> idem_repo"
where
  "idem_CreateProcessing now key0 hash0 ttlAt r =
     (let key = TrimSpace key0; requestHash = TrimSpace hash0 in
      if key = [] then ((zero_IdempotencyRecord, Some (E ErrIdempotencyKeyRequired)), r)
      else if requestHash = [] then
        ((zero_IdempotencyRecord, Some (E ErrIdempotencyRequestHashRequired)), r)
      else
        let ttl = (if IsZero ttlAt then now + 24 * hour else ttlAt) in
        case r key of
          Some existing \<Rightarrow>
            if RequestHash existing \<noteq> requestHash
            then ((existing, Some (E ErrIdempotencyHashMismatch)), r)
            else ((existing, Some (E ErrIdempotencyKeyAlreadyExists)), r)
        | None \<Rightarrow>
            let rec = \<lparr>Key = key, RequestHash = requestHash, ResponseBody = [], HTTPStatus = 0,
                       idem_Status = IdempotencyStatusProcessing, TTLAt = ttl,
                       idem_CreatedAt = now, idem_UpdatedAt = now\<rparr>
            in ((cloneIdempotencyRecord rec, None), r(key \<mapsto> cloneIdempotencyRecord rec)))"

definition idem_Get :: "string \<Rightarrow> idem_repo \<Rightarrow> IdempotencyRecord \<times> error option" where
  "idem_Get key0 r =
     (let key = TrimSpace key0 in
      if key = [] then (zero_IdempotencyRecord, Some (E ErrIdempotencyKeyRequired))
      else case r key of
             None \<Rightarrow> (zero_IdempotencyRecord, Some (E ErrIdempotencyKeyNotFound))
           | Some rec \<Rightarrow> (cloneIdempotencyRecord rec, None))"

definition idem_markStatus ::
  "gotime \<Rightarrow> string \<Rightarrow> IdempotencyStatus \<Rightarrow> bytes \<Rightarrow> int \<Rightarrow> idem_repo \<Rightarrow> error option \<times> idem_repo" where
  "idem_markStatus now key0 st body httpStatus r =
     (let key = TrimSpace key0 in
      if key = [] then (Some (E ErrIdempotencyKeyRequired), r)
      else case r key of
             None \<Rightarrow> (Some (E ErrIdempotencyKeyNotFound), r)
           | Some rec \<Rightarrow>
               (None, r(key \<mapsto> rec\<lparr>idem_Status := st, ResponseBody := body,
                                    HTTPStatus := httpStatus, idem_UpdatedAt := now\<rparr>)))"

definition idem_MarkDone ::
  "gotime \<Rightarrow> string \<Rightarrow> bytes \<Rightarrow> int \<Rightarrow> idem_repo \<Rightarrow> error option \<times> idem_repo" where
  "idem_MarkDone now key body httpStatus r =
     idem_markStatus now key IdempotencyStatusDone body httpStatus r"

definition idem_MarkFailed ::
  "gotime \<Rightarrow> string \<Rightarrow> bytes \<Rightarrow> int \<Rightarrow> idem_repo \<Rightarrow> error option \<times> idem_repo" where
  "idem_MarkFailed now key body httpStatus r =
     idem_markStatus now key IdempotencyStatusFailed body httpStatus r"

fun delete_loop :: "gotime \<Rightarrow> int \<Rightarrow> string list \<Rightarrow> int \<Rightarrow> idem_repo \<Rightarrow> int \<times> idem_repo" where
  "delete_loop before limit [] removed r = (removed, r)"
| "delete_loop before limit (k # ks) removed r =
     (case r k of
        None \<Rightarrow> delete_loop before limit ks removed r
      | Some rec \<Rightarrow>
          if TTLAt rec > before then delete_loop before limit ks removed r
          else let r' = r(k := None); removed' = removed + 1
               in if limit > 0 \<and> removed' \<ge> limit then (removed', r')
                  else delete_loop before limit ks removed' r')"

definition idem_DeleteExpired ::
  "gotime \<Rightarrow> string list \<Rightarrow> gotime \<Rightarrow> int \<Rightarrow> idem_repo \<Rightarrow> (int \<times> error option) \<times> idem_repo" where
  "idem_DeleteExpired now ks before0 limit r =
     (let before = (if IsZero before0 then now else before0);
          (removed, r') = delete_loop before limit ks 0 r
      in ((removed, None), r'))"

definition wf_idem :: "idem_repo \<Rightarrow> bool" where
  "wf_idem r \<longleftrightarrow> (\<forall>k rec. r k = Some rec \<longrightarrow> Key rec = k \<and> TrimSpace k = k \<and> k \<noteq> [])"

definition expired_keys :: "gotime \<Rightarrow> idem_repo \<Rightarrow> string set" where
  "expired_keys before r = {k. \<exists>rec. r k = Some rec \<and> TTLAt rec \<le> before}"

section \<open>Creation and completion\<close>

lemma cloneIdempotencyRecord_id [simp]: "cloneIdempotencyRecord rec = rec"
  by (simp add: cloneIdempotencyRecord_def)

lemma wf_idem_create:
  "wf_idem r \<Longrightarrow> wf_idem (snd (idem_CreateProcessing now key hash ttl r))"
  by (auto simp: wf_idem_def idem_CreateProcessing_def Let_def split: option.splits)

lemma wf_idem_mark: "wf_idem r \<Longrightarrow> wf_idem (snd (idem_markStatus now key st body code r))"
  by (auto simp: wf_idem_def idem_markStatus_def Let_def split: option.splits)

lemma create_new:
  assumes "TrimSpace key \<noteq> []" and "TrimSpace hash \<noteq> []" and "r (TrimSpace key) = None"
  shows "\<exists>rec. idem_CreateProcessing now key hash ttl r = ((rec, None), r(TrimSpace key \<mapsto> rec))
           \<and> idem_Status rec = IdempotencyStatusProcessing \<and> RequestHash rec = TrimSpace hash"
  using assms by (simp add: idem_CreateProcessing_def Let_def)

lemma create_existing:
  assumes "TrimSpace key \<noteq> []" and "TrimSpace hash \<noteq> []" and "r (TrimSpace key) = Some rec"
  shows "idem_CreateProcessing now key hash ttl r =
     ((rec, Some (E (if RequestHash rec = TrimSpace hash then ErrIdempotencyKeyAlreadyExists
                     else ErrIdempotencyHashMismatch))), r)"
  using assms by (simp add: idem_CreateProcessing_def Let_def)

lemma mark_existing:
  assumes "TrimSpace key \<noteq> []" and "r (TrimSpace key) = Some rec"
  shows "idem_markStatus now key st body code r =
     (None, r(TrimSpace key \<mapsto> rec\<lparr>idem_Status := st, ResponseBody := body,
                                     HTTPStatus := code, idem_UpdatedAt := now\<rparr>))"
  using assms by (simp add: idem_markStatus_def Let_def)

section \<open>Expiry\<close>

lemma finite_expired: "finite (dom r) \<Longrightarrow> finite (expired_keys before r)"
  by (rule finite_subset [of _ "dom r"]) (auto simp: expired_keys_def)

text \<open>The loop removes the first expired keys it meets, as many as the limit allows.\<close>

lemma delete_loop_eq:
  assumes "distinct ks" and "limit \<le> 0 \<or> removed < limit"
  shows "delete_loop before limit ks removed r =
     (let gone = (let es = filter (\<lambda>k. k \<in> expired_keys before r) ks
                  in if limit \<le> 0 then es else take (nat (limit - removed)) es)
      in (removed + int (length gone), r |` (- set gone)))"
  using assms
proof (induction before limit ks removed r rule: delete_loop.induct)
  case (1 before limit removed r)
  have "r = r |` UNIV" by (auto simp: restrict_map_def)
  then show ?case by simp
next
  case (2 before limit k ks removed r)
  show ?case
  proof (cases "k \<in> expired_keys before r")
    case False
    with 2 show ?thesis by (auto simp: expired_keys_def not_le split: option.splits)
  next
    case True
    then obtain rec where rec: "r k = Some rec" "TTLAt rec \<le> before"
      by (auto simp: expired_keys_def)
    let ?r' = "r(k := None)"
    have f: "filter (\<lambda>j. j \<in> expired_keys before ?r') ks = filter (\<lambda>j. j \<in> expired_keys before r) ks"
      using "2.prems"(1) by (intro filter_cong) (auto simp: expired_keys_def)
    have restr: "?r' |` (- A) = r |` (- insert k A)" for A
      by (auto simp: restrict_map_def)
    have n: "nat (limit - removed) = Suc (nat (limit - (removed + 1)))" if "0 < limit"
      using "2.prems"(2) that by linarith
    show ?thesis
    proof (cases "limit > 0 \<and> removed + 1 \<ge> limit")
      case stop: True
      have "?r' = r |` (- {k})" by (auto simp: restrict_map_def)
      with stop rec True n show ?thesis by simp
    next
      case False
      have "delete_loop before limit ks (removed + 1) ?r' =
        (let gone = (let es = filter (\<lambda>j. j \<in> expired_keys before ?r') ks
                     in if limit \<le> 0 then es else take (nat (limit - (removed + 1))) es)
         in (removed + 1 + int (length gone), ?r' |` (- set gone)))"
        using False rec "2.prems"(1) by (intro "2.IH"(3)) auto
      then have "delete_loop before limit ks (removed + 1) ?r' =
        (let gone = (let es = filter (\<lambda>j. j \<in> expired_keys before r) ks
                     in if limit \<le> 0 then es else take (nat (limit - (removed + 1))) es)
         in (removed + 1 + int (length gone), r |` (- insert k (set gone))))"
        unfolding f restr .
      with False rec True n show ?thesis by (simp add: Let_def)
    qed
  qed
qed

text \<open>What the loop removes, independent of the order in which it meets the keys.\<close>

lemma delete_loop_removes:
  assumes "range_order r ks" and "delete_loop before limit ks 0 r = (removed, r')"
  shows "\<exists>gone. gone \<subseteq> expired_keys before r \<and> finite gone \<and> removed = int (card gone)
           \<and> r' = r |` (- gone) \<and> expired_keys before r' = expired_keys before r - gone
           \<and> card gone = (if limit \<le> 0 then card (expired_keys before r)
                          else min (nat limit) (card (expired_keys before r)))"
proof -
  let ?es = "filter (\<lambda>k. k \<in> expired_keys before r) ks"
  let ?gone = "if limit \<le> 0 then ?es else take (nat limit) ?es"
  have es: "set ?es = expired_keys before r" and d: "distinct ?es"
    using assms(1) by (auto simp: range_order_def expired_keys_def)
  then have n: "card (expired_keys before r) = length ?es" by (metis distinct_card)
  have "distinct ?gone" using d by simp
  then have "card (set ?gone) = length ?gone" by (rule distinct_card)
  moreover have "delete_loop before limit ks 0 r = (int (length ?gone), r |` (- set ?gone))"
    using assms(1) by (simp add: delete_loop_eq range_order_def Let_def)
  moreover have "set ?gone \<subseteq> expired_keys before r"
    using es set_take_subset [of "nat limit" ?es] by auto
  moreover have "expired_keys before (r |` (- set ?gone)) = expired_keys before r - set ?gone"
    by (auto simp: expired_keys_def restrict_map_def)
  ultimately show ?thesis
    using assms(2) n by (intro exI [of _ "set ?gone"]) (auto simp: min_def)
qed

section \<open>The contract of a store with expiring records\<close>

text \<open>\<open>del\<close> is \<open>DeleteExpired\<close>, with an input \<open>i\<close> that stands for what the call reads of the machine
  (the clock and the order of the map): it removes up to \<open>n\<close> expired records and nothing else.\<close>

locale expiring_store =
  fixes del :: "'i \<Rightarrow> gotime \<Rightarrow> int \<Rightarrow> 's \<Rightarrow> (int \<times> error option) \<times> 's"
    and possible :: "'i \<Rightarrow> 's \<Rightarrow> bool"
    and expired :: "gotime \<Rightarrow> 's \<Rightarrow> 'k set"
    and live :: "gotime \<Rightarrow> 's \<Rightarrow> 'm"
    and invar :: "'s \<Rightarrow> bool"
  assumes del_step: "invar s \<Longrightarrow> possible i s \<Longrightarrow> before \<noteq> 0 \<Longrightarrow> 0 < n \<Longrightarrow>
      \<exists>s'. del i before n s = ((int (min (nat n) (card (expired before s))), None), s')
      \<and> invar s' \<and> live before s' = live before s \<and> expired before s' \<subseteq> expired before s
      \<and> card (expired before s') = card (expired before s) - nat n"
    and expired_finite: "invar s \<Longrightarrow> finite (expired before s)"

definition live_records :: "gotime \<Rightarrow> idem_repo \<Rightarrow> idem_repo" where
  "live_records before r = r |` (- expired_keys before r)"

lemma live_records_restrict:
  "gone \<subseteq> expired_keys before r \<Longrightarrow> live_records before (r |` (- gone)) = live_records before r"
  by (auto simp: live_records_def restrict_map_def expired_keys_def fun_eq_iff)

lemma live_records_all: "expired_keys before r = {} \<Longrightarrow> live_records before r = r"
  by (simp add: live_records_def restrict_map_def)

text \<open>The memory store fulfils it.\<close>

interpretation mem_idem: expiring_store "\<lambda>(now, ks). idem_DeleteExpired now ks"
  "\<lambda>(now, ks) r. range_order r ks" expired_keys live_records "\<lambda>r. finite (dom r)"
proof unfold_locales
  fix n :: int and r :: idem_repo and i :: "gotime \<times> string list" and before :: gotime
  assume fin: "finite (dom r)" and "0 < n" and "before \<noteq> 0"
    and "(case i of (now, ks) \<Rightarrow> \<lambda>r. range_order r ks) r"
  then obtain now ks where i: "i = (now, ks)" and ord: "range_order r ks" by (cases i) auto
  obtain removed r' where d: "delete_loop before n ks 0 r = (removed, r')" by fastforce
  obtain gone where g: "gone \<subseteq> expired_keys before r" "finite gone" "removed = int (card gone)"
      "r' = r |` (- gone)" "expired_keys before r' = expired_keys before r - gone"
      "card gone = min (nat n) (card (expired_keys before r))"
    using delete_loop_removes [OF ord d] \<open>0 < n\<close> by auto
  have "card (expired_keys before r - gone) = card (expired_keys before r) - nat n"
    using g by (simp add: card_Diff_subset min_def)
  moreover have "finite (dom r')" using fin g(4) by simp
  ultimately show "\<exists>r'. (case i of (now, ks) \<Rightarrow> idem_DeleteExpired now ks) before n r =
        ((int (min (nat n) (card (expired_keys before r))), None), r')
      \<and> finite (dom r') \<and> live_records before r' = live_records before r
      \<and> expired_keys before r' \<subseteq> expired_keys before r
      \<and> card (expired_keys before r') = card (expired_keys before r) - nat n"
    using d g live_records_restrict [OF g(1)] \<open>before \<noteq> 0\<close> i
    by (simp add: idem_DeleteExpired_def IsZero_def)
qed (rule finite_expired)

end
