(* ===== verification/Cleanup_Worker.thy ===== *)
theory Cleanup_Worker
  imports Idempotency_Repository
begin

text \<open>
  \<open>internal/service/idempotency/cleanup_worker.go\<close>: the worker that deletes expired idempotency
  records in batches. The repository it calls and the context it polls are functions on a world
  \<open>'w\<close>; \<open>time_Now\<close> reads the clock. The loop of \<open>DeleteExpired\<close> has no bound of its own, so it is a
  partial function whose value is \<open>None\<close> when it does not return. The worker's counters are the record
  \<open>CleanupMetrics\<close>. Logging is left out.
\<close>

record CleanupMetrics =
  runs_error :: int
  runs_ok :: int
  deleted_total :: int
  last_deleted :: int

record 'w cleanup_env =
  env_DeleteExpired :: "gotime \<Rightarrow> int \<Rightarrow> 'w \<Rightarrow> (int \<times> error option) \<times> 'w"
  env_Err :: "'w \<Rightarrow> error option \<times> 'w"
  env_Now :: "'w \<Rightarrow> gotime \<times> 'w"

record CleanupOptions =
  opt_Interval :: duration
  opt_BatchSize :: int

record CleanupWorker =
  has_repo :: bool
  interval :: duration
  batchSize :: int

definition defaultCleanupInterval :: duration where
  "defaultCleanupInterval = 10 * minute"

definition defaultCleanupBatchSize :: int where
  "defaultCleanupBatchSize = 500"

definition WithInterval :: "duration \<Rightarrow> CleanupOptions \<Rightarrow> CleanupOptions" where
  "WithInterval i opts = opts\<lparr>opt_Interval := i\<rparr>"

definition WithBatchSize :: "int \<Rightarrow> CleanupOptions \<Rightarrow> CleanupOptions" where
  "WithBatchSize n opts = opts\<lparr>opt_BatchSize := n\<rparr>"

definition NewCleanupWorker :: "bool \<Rightarrow> (CleanupOptions \<Rightarrow> CleanupOptions) list \<Rightarrow> CleanupWorker" where
  "NewCleanupWorker repo options =
     (let opts = fold (\<lambda>option. option) options
                   \<lparr>opt_Interval = defaultCleanupInterval, opt_BatchSize = defaultCleanupBatchSize\<rparr>;
          i = (if opt_Interval opts \<le> 0 then defaultCleanupInterval else opt_Interval opts);
          n = (if opt_BatchSize opts \<le> 0 then defaultCleanupBatchSize else opt_BatchSize opts)
      in \<lparr>has_repo = repo, interval = i, batchSize = n\<rparr>)"

partial_function (option) cleanup_loop ::
  "'w cleanup_env \<Rightarrow> CleanupWorker \<Rightarrow> gotime \<Rightarrow> int \<Rightarrow> 'w \<Rightarrow> CleanupMetrics
     \<Rightarrow> ((int \<times> error option) \<times> 'w \<times> CleanupMetrics) option" where
  "cleanup_loop env w before totalDeleted s m =
     (case env_Err env s of (ctxErr, s1) \<Rightarrow>
        if ctxErr \<noteq> None then Some ((totalDeleted, ctxErr), s1, m)
        else (case env_DeleteExpired env before (batchSize w) s1 of ((deleted, err), s2) \<Rightarrow>
          if err \<noteq> None then Some ((totalDeleted, err), s2, m)
          else if deleted < batchSize w
            then Some ((totalDeleted + deleted, None), s2,
                   if deleted > 0 then m\<lparr>deleted_total := deleted_total m + deleted\<rparr> else m)
            else cleanup_loop env w before (totalDeleted + deleted) s2
                   (if deleted > 0 then m\<lparr>deleted_total := deleted_total m + deleted\<rparr> else m)))"

definition worker_DeleteExpired ::
  "'w cleanup_env \<Rightarrow> CleanupWorker \<Rightarrow> gotime \<Rightarrow> 'w \<Rightarrow> CleanupMetrics
     \<Rightarrow> ((int \<times> error option) \<times> 'w \<times> CleanupMetrics) option" where
  "worker_DeleteExpired env w before s m =
     (let (before', s') = (if IsZero before then env_Now env s else (before, s))
      in cleanup_loop env w before' 0 s' m)"

definition worker_cleanup ::
  "'w cleanup_env \<Rightarrow> CleanupWorker \<Rightarrow> gotime \<Rightarrow> 'w \<Rightarrow> CleanupMetrics \<Rightarrow> ('w \<times> CleanupMetrics) option" where
  "worker_cleanup env w before s m =
     (case worker_DeleteExpired env w before s m of
        None \<Rightarrow> None
      | Some ((deleted, Some err), s', m') \<Rightarrow>
          if errors_Is err ContextCanceled then Some (s', m')
          else Some (s', m'\<lparr>runs_error := runs_error m' + 1\<rparr>)
      | Some ((deleted, None), s', m') \<Rightarrow>
          Some (s', m'\<lparr>runs_ok := runs_ok m' + 1, last_deleted := deleted\<rparr>))"

text \<open>\<open>Run\<close> over the events that its \<open>select\<close> receives, up to the cancellation of the context.\<close>

datatype cleanup_event = CtxDone | Tick

fun run_events ::
  "'w cleanup_env \<Rightarrow> CleanupWorker \<Rightarrow> cleanup_event list \<Rightarrow> 'w \<Rightarrow> CleanupMetrics \<Rightarrow> ('w \<times> CleanupMetrics) option"
where
  "run_events env w [] s m = Some (s, m)"
| "run_events env w (CtxDone # es) s m = Some (s, m)"
| "run_events env w (Tick # es) s m =
     (let (now, s1) = env_Now env s in
      case worker_cleanup env w now s1 m of
        None \<Rightarrow> None
      | Some (s2, m2) \<Rightarrow> run_events env w es s2 m2)"

definition worker_Run ::
  "'w cleanup_env \<Rightarrow> CleanupWorker \<Rightarrow> cleanup_event list \<Rightarrow> 'w \<Rightarrow> CleanupMetrics \<Rightarrow> ('w \<times> CleanupMetrics) option"
where
  "worker_Run env w es s m =
     (if \<not> has_repo w then Some (s, m) else run_events env w (Tick # es) s m)"

section \<open>Options\<close>

lemma NewCleanupWorker_positive:
  "0 < batchSize (NewCleanupWorker repo options)" "0 < interval (NewCleanupWorker repo options)"
  by (simp_all add: NewCleanupWorker_def Let_def defaultCleanupBatchSize_def
      defaultCleanupInterval_def)

section \<open>The loop over any expiring store\<close>

context expiring_store
begin

text \<open>A store of the contract, next to a context that is polled with \<open>err\<close>: the loop returns, and what
  it reports is what it removed. With \<open>0 < card (expired \<dots>)\<close> as the measure, every batch but the
  last removes at least one record.\<close>

lemma cleanup_loop_total:
  assumes "\<And>n s c. env_DeleteExpired env before n (s, c) =
                      (case del (inp s c) before n s of (res, s') \<Rightarrow> (res, (s', c)))"
    and "\<And>s c. env_Err env (s, c) = (case err c of (e, c') \<Rightarrow> (e, (s, c')))"
    and "\<And>s c. invar s \<Longrightarrow> possible (inp s c) s"
    and "0 < batchSize w" and "before \<noteq> 0" and "invar s"
  shows "\<exists>n e s' c' m'. cleanup_loop env w before acc (s, c) m = Some ((acc + n, e), (s', c'), m')
      \<and> n = int (card (expired before s)) - int (card (expired before s'))
      \<and> invar s' \<and> live before s' = live before s
      \<and> expired before s' \<subseteq> expired before s \<and> (e = None \<longrightarrow> expired before s' = {})
      \<and> (e = None \<or> (\<exists>d. e = fst (err d)))
      \<and> m' = m\<lparr>deleted_total := deleted_total m + n\<rparr>"
  using assms(6)
proof (induction "card (expired before s)" arbitrary: s c acc m rule: less_induct)
  case less
  let ?n = "batchSize w" and ?ex = "expired before"
  obtain e c1 where c1: "err c = (e, c1)" by fastforce
  obtain s1 where s1: "del (inp s c1) before ?n s = ((int (min (nat ?n) (card (?ex s))), None), s1)"
      "invar s1" "live before s1 = live before s" "?ex s1 \<subseteq> ?ex s"
      "card (?ex s1) = card (?ex s) - nat ?n"
    using del_step [OF less.prems assms(3) [OF less.prems] assms(5,4)] by blast
  have fin: "finite (?ex s1)" by (rule expired_finite [OF s1(2)])
  note step = cleanup_loop.simps [of env w before acc "(s, c)" m]
  show ?case
  proof (cases "e = None \<and> nat ?n \<le> card (?ex s)")
    case True
    then have "card (?ex s1) < card (?ex s)" using s1(5) assms(4) by linarith
    then obtain n e' s' c' m' where r: "cleanup_loop env w before (acc + ?n) (s1, c1)
        (m\<lparr>deleted_total := deleted_total m + ?n\<rparr>) = Some ((acc + ?n + n, e'), (s', c'), m')"
      "n = int (card (?ex s1)) - int (card (?ex s'))" "invar s'" "live before s' = live before s1"
      "?ex s' \<subseteq> ?ex s1" "e' = None \<longrightarrow> ?ex s' = {}" "e' = None \<or> (\<exists>d. e' = fst (err d))"
      "m' = m\<lparr>deleted_total := deleted_total m + ?n\<rparr>\<lparr>deleted_total :=
         deleted_total (m\<lparr>deleted_total := deleted_total m + ?n\<rparr>) + n\<rparr>"
      using less.hyps [OF _ s1(2), of "acc + ?n" c1 "m\<lparr>deleted_total := deleted_total m + ?n\<rparr>"]
      by (elim exE conjE meta_impE) (assumption, rule that)
    have "cleanup_loop env w before acc (s, c) m = Some ((acc + (?n + n), e'), (s', c'), m')"
      using True c1 s1(1) r(1) assms(1,2,4) by (subst step) (simp add: add.assoc)
    moreover have "?n + n = int (card (?ex s)) - int (card (?ex s'))"
      using True r(2) s1(5) assms(4) by simp
    moreover have "live before s' = live before s" and "?ex s' \<subseteq> ?ex s"
      using r(4,5) s1(3,4) by auto
    moreover have "m' = m\<lparr>deleted_total := deleted_total m + (?n + n)\<rparr>"
      using r(8) by simp
    ultimately show ?thesis using r(3,6,7) by blast
  next
    case False
    show ?thesis
    proof (cases "e = None")
      case True
      then have "card (?ex s1) = 0" and "int (min (nat ?n) (card (?ex s))) < ?n"
        using False s1(5) assms(4) by auto
      then show ?thesis
        using True c1 s1 fin assms(1,2,4) False by (subst step) (auto intro!: exI [of _ s1])
    next
      case False
      then have "cleanup_loop env w before acc (s, c) m =
          Some ((acc + 0, e), (s, c1), m\<lparr>deleted_total := deleted_total m + 0\<rparr>)"
        using c1 assms(2) by (subst step) simp
      moreover have "e = fst (err c)" using c1 by simp
      ultimately show ?thesis using False less.prems by (metis diff_self subset_refl)
    qed
  qed
qed

end

section \<open>The worker on the memory store\<close>

text \<open>The worker's environment over the memory store and some context of type \<open>'c\<close>: \<open>ord\<close> chooses the
  order of the map, \<open>clk\<close> is the clock and \<open>err\<close> is \<open>ctx.Err\<close>.\<close>

definition memory_cleanup_env ::
  "(idem_repo \<Rightarrow> string list) \<Rightarrow> ('c \<Rightarrow> gotime) \<Rightarrow> ('c \<Rightarrow> error option \<times> 'c) \<Rightarrow> (idem_repo \<times> 'c) cleanup_env"
where
  "memory_cleanup_env ord clk err =
     \<lparr>env_DeleteExpired = (\<lambda>before n (r, c).
        case idem_DeleteExpired (clk c) (ord r) before n r of (res, r') \<Rightarrow> (res, (r', c))),
      env_Err = (\<lambda>(r, c). case err c of (e, c') \<Rightarrow> (e, (r, c'))),
      env_Now = (\<lambda>(r, c). (clk c, (r, c)))\<rparr>"

text \<open>C7. A cleanup run of a worker built with any options always returns, whatever the context does
  in the meantime (an error it reports is the context's): it deletes only records that expired by \<open>before\<close>, reports exactly how many it
  deleted (the counter grows by the same number), and when it reports no error no expired record is
  left and exactly the unexpired ones remain.\<close>

theorem worker_DeleteExpired_total:
  assumes "\<And>r. finite (dom r) \<Longrightarrow> range_order r (ord r)" and "finite (dom r)" and "before \<noteq> 0"
  shows "\<exists>n e r' c' m'. worker_DeleteExpired (memory_cleanup_env ord clk err)
        (NewCleanupWorker True options) before (r, c) m = Some ((n, e), (r', c'), m')
      \<and> n = int (card (expired_keys before r)) - int (card (expired_keys before r'))
      \<and> live_records before r' = live_records before r
      \<and> expired_keys before r' \<subseteq> expired_keys before r
      \<and> (e = None \<longrightarrow> r' = live_records before r) \<and> (e = None \<or> (\<exists>d. e = fst (err d)))
      \<and> m' = m\<lparr>deleted_total := deleted_total m + n\<rparr>"
proof -
  let ?env = "memory_cleanup_env ord clk err" and ?w = "NewCleanupWorker True options"
  have "\<exists>n e r' c' m'. cleanup_loop ?env ?w before 0 (r, c) m = Some ((0 + n, e), (r', c'), m')
      \<and> n = int (card (expired_keys before r)) - int (card (expired_keys before r'))
      \<and> finite (dom r') \<and> live_records before r' = live_records before r
      \<and> expired_keys before r' \<subseteq> expired_keys before r
      \<and> (e = None \<longrightarrow> expired_keys before r' = {}) \<and> (e = None \<or> (\<exists>d. e = fst (err d)))
      \<and> m' = m\<lparr>deleted_total := deleted_total m + n\<rparr>"
    by (rule mem_idem.cleanup_loop_total [where inp = "\<lambda>r c. (clk c, ord r)"])
      (simp_all add: memory_cleanup_env_def assms NewCleanupWorker_positive)
  then obtain n e r' c' m' where
    "cleanup_loop ?env ?w before 0 (r, c) m = Some ((n, e), (r', c'), m')"
    and rest: "n = int (card (expired_keys before r)) - int (card (expired_keys before r'))"
    "live_records before r' = live_records before r" "expired_keys before r' \<subseteq> expired_keys before r"
    "e = None \<longrightarrow> expired_keys before r' = {}" "e = None \<or> (\<exists>d. e = fst (err d))"
    "m' = m\<lparr>deleted_total := deleted_total m + n\<rparr>"
    by (simp only: add_0) blast
  then have "worker_DeleteExpired ?env ?w before (r, c) m = Some ((n, e), (r', c'), m')"
    using assms(3) by (simp add: worker_DeleteExpired_def IsZero_def)
  moreover have "e = None \<longrightarrow> r' = live_records before r"
    using rest(2,4) live_records_all [of before r'] by metis
  ultimately show ?thesis using rest by blast
qed

definition example_record :: "string \<Rightarrow> gotime \<Rightarrow> IdempotencyRecord" where
  "example_record k t = zero_IdempotencyRecord\<lparr>Key := k, TTLAt := t\<rparr>"

definition example_idem :: idem_repo where
  "example_idem = [''a'' \<mapsto> example_record ''a'' 5, ''b'' \<mapsto> example_record ''b'' 9]"

lemma expired_keys_example: "expired_keys 7 example_idem = {''a''}"
  by (auto simp: expired_keys_def example_idem_def example_record_def)

theorem worker_DeleteExpired_total_witness:
  "\<exists>ord. worker_DeleteExpired (memory_cleanup_env ord (\<lambda>_. 7) (\<lambda>c. (None, c)))
        (NewCleanupWorker True [WithBatchSize 1]) 7 (example_idem, ())
        \<lparr>runs_error = 0, runs_ok = 0, deleted_total = 0, last_deleted = 0\<rparr> =
      Some ((1, None), ([''b'' \<mapsto> example_record ''b'' 9], ()),
        \<lparr>runs_error = 0, runs_ok = 0, deleted_total = 1, last_deleted = 0\<rparr>)"
proof -
  have "\<exists>ks. range_order r ks" if "finite (dom r)" for r :: idem_repo
    using finite_distinct_list [OF that] by (auto simp: range_order_def)
  then have ord: "finite (dom r) \<Longrightarrow> range_order r (SOME ks. range_order r ks)" for r :: idem_repo
    by (rule someI_ex)
  have fin: "finite (dom example_idem)" by (simp add: example_idem_def)
  have live: "live_records 7 example_idem = [''b'' \<mapsto> example_record ''b'' 9]"
    unfolding live_records_def expired_keys_example
    by (auto simp: restrict_map_def example_idem_def)
  then have "expired_keys 7 (live_records 7 example_idem) = {}"
    by (auto simp: expired_keys_def example_record_def)
  with worker_DeleteExpired_total [of "\<lambda>r. SOME ks. range_order r ks" example_idem 7
        "\<lambda>_. 7" "\<lambda>c. (None, c)" "[WithBatchSize 1]" "()"
        "\<lparr>runs_error = 0, runs_ok = 0, deleted_total = 0, last_deleted = 0\<rparr>", OF ord fin]
  show ?thesis
    by (intro exI [of _ "\<lambda>r. SOME ks. range_order r ks"]) (auto simp: expired_keys_example live)
qed

end
