(* ===== verification/Programs.thy ===== *)
theory Programs
  imports Prelude "HOL-Library.State_Monad"
begin

text \<open>
  Stateful Go code as programs of the state monad of HOL-Library over a world \<open>'w\<close>, and a small
  Hoare logic for them. \<open>ensures P m Q\<close> says that the program \<open>m\<close>, started in a world where \<open>P\<close>
  holds, yields a result \<open>a\<close> and a world \<open>w\<close> with \<open>Q a w\<close>; programs of the state monad always return, so
  this is total correctness. The rules in \<open>hoare\<close> follow the structure of a program; a precondition
  is propagated forwards through \<open>bind\<close>. \<open>keeps I m\<close> is the special case of an invariant.
\<close>

type_synonym ('w, 'a) prog = "('w, 'a) state"

abbreviation return :: "'a \<Rightarrow> ('w, 'a) prog" where
  "return \<equiv> State_Monad.return"

abbreviation skip :: "('w, unit) prog" where
  "skip \<equiv> return ()"

definition ensures :: "('w \<Rightarrow> bool) \<Rightarrow> ('w, 'a) prog \<Rightarrow> ('a \<Rightarrow> 'w \<Rightarrow> bool) \<Rightarrow> bool" where
  "ensures P m Q \<longleftrightarrow> (\<forall>w. P w \<longrightarrow> (case run_state m w of (a, w') \<Rightarrow> Q a w'))"

definition keeps :: "('w \<Rightarrow> bool) \<Rightarrow> ('w, 'a) prog \<Rightarrow> bool" where
  "keeps I m \<longleftrightarrow> ensures I m (\<lambda>_. I)"

named_theorems hoare \<open>rules that follow the structure of a program\<close>

lemma ensuresI: "(\<And>w a w'. P w \<Longrightarrow> run_state m w = (a, w') \<Longrightarrow> Q a w') \<Longrightarrow> ensures P m Q"
  by (auto simp: ensures_def split: prod.splits)

lemma ensuresD: "ensures P m Q \<Longrightarrow> P w \<Longrightarrow> run_state m w = (a, w') \<Longrightarrow> Q a w'"
  by (auto simp: ensures_def)

lemma ensures_post: "ensures P m Q \<Longrightarrow> (\<And>a w. Q a w \<Longrightarrow> Q' a w) \<Longrightarrow> ensures P m Q'"
  by (auto simp: ensures_def split: prod.splits)

lemma ensures_pre: "ensures P m Q \<Longrightarrow> (\<And>w. P' w \<Longrightarrow> P w) \<Longrightarrow> ensures P' m Q"
  by (auto simp: ensures_def)

lemma ensures_conj: "ensures P m Q \<Longrightarrow> ensures P m R \<Longrightarrow> ensures P m (\<lambda>a w. Q a w \<and> R a w)"
  by (auto simp: ensures_def split: prod.splits)

lemma ensures_ex: "(\<And>x. ensures (P x) m Q) \<Longrightarrow> ensures (\<lambda>w. \<exists>x. P x w) m Q"
  by (fastforce simp: ensures_def)

lemma ensures_pure: "(b \<Longrightarrow> ensures P m Q) \<Longrightarrow> ensures (\<lambda>w. b \<and> P w) m Q"
  by (auto simp: ensures_def)

lemma ensures_return [hoare]: "(\<And>w. P w \<Longrightarrow> Q a w) \<Longrightarrow> ensures P (return a) Q"
  by (simp add: ensures_def)

lemma ensures_bind [hoare]:
  "ensures P m R \<Longrightarrow> (\<And>a. ensures (R a) (f a) Q) \<Longrightarrow> ensures P (State_Monad.bind m f) Q"
  by (force simp: ensures_def split: prod.splits)

lemma ensures_if [hoare]:
  "(b \<Longrightarrow> ensures P m Q) \<Longrightarrow> (\<not> b \<Longrightarrow> ensures P n Q) \<Longrightarrow> ensures P (if b then m else n) Q"
  by simp

lemma ensures_option [hoare]:
  "(x = None \<Longrightarrow> ensures P m Q) \<Longrightarrow> (\<And>y. x = Some y \<Longrightarrow> ensures P (n y) Q)
    \<Longrightarrow> ensures P (case x of None \<Rightarrow> m | Some y \<Rightarrow> n y) Q"
  by (cases x) auto

lemma ensures_sum [hoare]:
  "(\<And>e. x = Inl e \<Longrightarrow> ensures P (m e) Q) \<Longrightarrow> (\<And>y. x = Inr y \<Longrightarrow> ensures P (n y) Q)
    \<Longrightarrow> ensures P (case x of Inl e \<Rightarrow> m e | Inr y \<Rightarrow> n y) Q"
  by (cases x) auto

lemma ensures_prod [hoare]:
  "(\<And>a b. x = (a, b) \<Longrightarrow> ensures P (m a b) Q) \<Longrightarrow> ensures P (case x of (a, b) \<Rightarrow> m a b) Q"
  by (cases x) auto

lemma ensures_let [hoare]: "ensures P (f x) Q \<Longrightarrow> ensures P (let y = x in f y) Q"
  by simp

lemma keeps_return [simp, intro]: "keeps I (return a)"
  by (simp add: keeps_def ensures_def)

lemma keeps_bind [intro!]: "keeps I m \<Longrightarrow> (\<And>a. keeps I (f a)) \<Longrightarrow> keeps I (State_Monad.bind m f)"
  unfolding keeps_def by (rule ensures_bind)

lemma keeps_if [intro!]: "keeps I m \<Longrightarrow> keeps I n \<Longrightarrow> keeps I (if b then m else n)"
  by simp

lemma keeps_option [intro!]:
  "keeps I m \<Longrightarrow> (\<And>y. keeps I (n y)) \<Longrightarrow> keeps I (case x of None \<Rightarrow> m | Some y \<Rightarrow> n y)"
  by (cases x) auto

lemma keeps_sum [intro!]:
  "(\<And>e. keeps I (m e)) \<Longrightarrow> (\<And>y. keeps I (n y)) \<Longrightarrow> keeps I (case x of Inl e \<Rightarrow> m e | Inr y \<Rightarrow> n y)"
  by (cases x) auto

lemma keeps_prod [intro!]: "(\<And>a b. keeps I (m a b)) \<Longrightarrow> keeps I (case x of (a, b) \<Rightarrow> m a b)"
  by (cases x) auto

lemma keeps_ensures: "keeps I m \<Longrightarrow> ensures I m (\<lambda>_. I)"
  by (simp add: keeps_def)

end
