(* ===== verification/Saga.thy ===== *)
theory Saga
  imports Domain Programs
begin

text \<open>
  \<open>internal/service/saga/orchestrator.go\<close>, with the counters of
  \<open>internal/metrics/saga_metrics.go\<close> and the events of \<open>internal/messaging/kafka/events.go\<close>.

  The struct \<open>orchestrator\<close> holds interfaces; here it is a record of the operations the code calls on
  them, each a program over a world \<open>'w\<close>. A nil \<open>timeline\<close>, \<open>metrics\<close> or \<open>kafkaProducer\<close> is \<open>None\<close>. The
  functions of the standard library that read or wait for the clock are programs too;
  \<open>json_Marshal\<close> (which may fail) and \<open>time_Format\<close> are functions of the record, since the code only
  stores the bytes they return. An \<open>*domain.Order\<close> that a function mutates is a further result of the
  function. Logging is left out.
\<close>

section \<open>Metrics and events\<close>

record SagaMetrics =
  sagaStarted :: int
  sagaCanceled :: int
  sagaRefunded :: int
  sagaCompleted :: int
  sagaFailed :: int
  sagaDuration :: "duration list"
  stepDuration :: "(string \<times> duration) list"
  timelineEvents :: int
  outboxEvents :: int
  activeSagas :: int

definition NewSagaMetrics :: SagaMetrics where
  "NewSagaMetrics = \<lparr>sagaStarted = 0, sagaCanceled = 0, sagaRefunded = 0, sagaCompleted = 0,
     sagaFailed = 0, sagaDuration = [], stepDuration = [], timelineEvents = 0, outboxEvents = 0,
     activeSagas = 0\<rparr>"

definition RecordSagaInFlightStarted :: "SagaMetrics \<Rightarrow> SagaMetrics" where
  "RecordSagaInFlightStarted m = m\<lparr>activeSagas := activeSagas m + 1\<rparr>"

definition RecordSagaStarted :: "SagaMetrics \<Rightarrow> SagaMetrics" where
  "RecordSagaStarted m = RecordSagaInFlightStarted (m\<lparr>sagaStarted := sagaStarted m + 1\<rparr>)"

definition RecordSagaCanceled :: "SagaMetrics \<Rightarrow> SagaMetrics" where
  "RecordSagaCanceled m = m\<lparr>sagaCanceled := sagaCanceled m + 1\<rparr>"

definition RecordSagaRefunded :: "SagaMetrics \<Rightarrow> SagaMetrics" where
  "RecordSagaRefunded m = m\<lparr>sagaRefunded := sagaRefunded m + 1\<rparr>"

definition RecordSagaCompleted :: "SagaMetrics \<Rightarrow> SagaMetrics" where
  "RecordSagaCompleted m = m\<lparr>sagaCompleted := sagaCompleted m + 1\<rparr>"

definition RecordSagaFailed :: "SagaMetrics \<Rightarrow> SagaMetrics" where
  "RecordSagaFailed m = m\<lparr>sagaFailed := sagaFailed m + 1\<rparr>"

definition RecordSagaInFlightFinished :: "SagaMetrics \<Rightarrow> SagaMetrics" where
  "RecordSagaInFlightFinished m = m\<lparr>activeSagas := activeSagas m - 1\<rparr>"

definition RecordSagaDuration :: "duration \<Rightarrow> SagaMetrics \<Rightarrow> SagaMetrics" where
  "RecordSagaDuration d m = m\<lparr>sagaDuration := sagaDuration m @ [d]\<rparr>"

definition RecordStepDuration :: "string \<Rightarrow> duration \<Rightarrow> SagaMetrics \<Rightarrow> SagaMetrics" where
  "RecordStepDuration s d m = m\<lparr>stepDuration := stepDuration m @ [(s, d)]\<rparr>"

definition RecordTimelineEvent :: "SagaMetrics \<Rightarrow> SagaMetrics" where
  "RecordTimelineEvent m = m\<lparr>timelineEvents := timelineEvents m + 1\<rparr>"

definition RecordOutboxEvent :: "SagaMetrics \<Rightarrow> SagaMetrics" where
  "RecordOutboxEvent m = m\<lparr>outboxEvents := outboxEvents m + 1\<rparr>"

lemmas metric_defs = RecordSagaInFlightStarted_def RecordSagaStarted_def RecordSagaCanceled_def
  RecordSagaRefunded_def RecordSagaCompleted_def RecordSagaFailed_def RecordSagaInFlightFinished_def
  RecordSagaDuration_def RecordTimelineEvent_def RecordOutboxEvent_def

datatype kafka_EventType =
    EventTypeSagaStarted | EventTypeSagaCompleted | EventTypeSagaFailed | EventTypeSagaCanceled
  | EventTypeSagaRefunded | EventTypeOrderCreated | EventTypeOrderConfirmed
  | EventTypeOrderCanceled | EventTypeOrderRefunded | EventTypeStepReserved | EventTypeStepPaid

primrec kafka_EventType_string :: "kafka_EventType \<Rightarrow> string" where
  "kafka_EventType_string EventTypeSagaStarted = ''saga.started''"
| "kafka_EventType_string EventTypeSagaCompleted = ''saga.completed''"
| "kafka_EventType_string EventTypeSagaFailed = ''saga.failed''"
| "kafka_EventType_string EventTypeSagaCanceled = ''saga.canceled''"
| "kafka_EventType_string EventTypeSagaRefunded = ''saga.refunded''"
| "kafka_EventType_string EventTypeOrderCreated = ''order.created''"
| "kafka_EventType_string EventTypeOrderConfirmed = ''order.confirmed''"
| "kafka_EventType_string EventTypeOrderCanceled = ''order.canceled''"
| "kafka_EventType_string EventTypeOrderRefunded = ''order.refunded''"
| "kafka_EventType_string EventTypeStepReserved = ''step.reserved''"
| "kafka_EventType_string EventTypeStepPaid = ''step.paid''"

definition TopicSagaEvents :: string where "TopicSagaEvents = ''oms.saga.events''"
definition TopicOrderEvents :: string where "TopicOrderEvents = ''oms.order.events''"
definition TopicDeadLetterQueue :: string where "TopicDeadLetterQueue = ''oms.dlq''"

record SagaEvent =
  ev_EventType :: kafka_EventType
  ev_OrderID :: string
  ev_Timestamp :: gotime
  ev_Metadata :: jobject

section \<open>The orchestrator\<close>

record 'w orchestrator =
  orders_Get :: "string \<Rightarrow> ('w, error + Order) prog"
  orders_Save :: "Order \<Rightarrow> ('w, error option) prog"
  outbox_op :: "OutboxMessage \<Rightarrow> ('w, error + OutboxMessage) prog"
  timeline_op :: "(TimelineEvent \<Rightarrow> ('w, error option) prog) option"
  inventory_Reserve :: "string \<Rightarrow> OrderItem list \<Rightarrow> ('w, error option) prog"
  inventory_Release :: "string \<Rightarrow> OrderItem list \<Rightarrow> ('w, error option) prog"
  payments_Pay :: "string \<Rightarrow> int \<Rightarrow> string \<Rightarrow> ('w, PaymentStatus \<times> error option) prog"
  payments_Refund :: "string \<Rightarrow> int \<Rightarrow> string \<Rightarrow> ('w, PaymentStatus \<times> error option) prog"
  metrics :: "((SagaMetrics \<Rightarrow> SagaMetrics) \<Rightarrow> ('w, unit) prog) option"
  kafkaProducer :: "(string \<Rightarrow> string \<Rightarrow> SagaEvent \<Rightarrow> ('w, error option) prog) option"
  time_Now :: "('w, gotime) prog"
  time_Sleep :: "duration \<Rightarrow> ('w, unit) prog"
  json_Marshal :: "jobject \<Rightarrow> bytes option"
  time_Format :: "gotime \<Rightarrow> string"

definition record_metric :: "'w orchestrator \<Rightarrow> (SagaMetrics \<Rightarrow> SagaMetrics) \<Rightarrow> ('w, unit) prog" where
  "record_metric orc f = (case metrics orc of None \<Rightarrow> skip | Some m \<Rightarrow> m f)"

definition NewSagaEvent ::
  "'w orchestrator \<Rightarrow> kafka_EventType \<Rightarrow> string \<Rightarrow> jobject \<Rightarrow> ('w, SagaEvent) prog" where
  "NewSagaEvent orc eventType orderID metadata = do {
     now \<leftarrow> time_Now orc;
     return \<lparr>ev_EventType = eventType, ev_OrderID = orderID, ev_Timestamp = now,
             ev_Metadata = metadata\<rparr>
   }"

definition publishSagaEvent ::
  "'w orchestrator \<Rightarrow> kafka_EventType \<Rightarrow> string \<Rightarrow> jobject \<Rightarrow> ('w, unit) prog" where
  "publishSagaEvent orc eventType orderID metadata =
     (case kafkaProducer orc of
        None \<Rightarrow> skip
      | Some publish \<Rightarrow> do {
          event \<leftarrow> NewSagaEvent orc eventType orderID metadata;
          _ \<leftarrow> publish TopicSagaEvents orderID event;
          skip
        })"

definition emitEvent ::
  "'w orchestrator \<Rightarrow> Order \<Rightarrow> string \<Rightarrow> jobject \<Rightarrow> gotime \<Rightarrow> ('w, unit) prog" where
  "emitEvent orc order eventType payload0 occurredAt0 = do {
     occurredAt \<leftarrow> (if IsZero occurredAt0 then time_Now orc else return occurredAt0);
     let payload = AList.update ''order_id'' (JStr (ID order)) payload0;
     case json_Marshal orc payload of
       None \<Rightarrow> skip
     | Some data \<Rightarrow> do {
         res \<leftarrow> outbox_op orc \<lparr>msg_ID = [], AggregateType = ''order'', AggregateID = ID order,
                              EventType = eventType, Payload = data\<rparr>;
         (case res of Inl _ \<Rightarrow> skip | Inr _ \<Rightarrow> record_metric orc RecordOutboxEvent);
         (case timeline_op orc of
            None \<Rightarrow> skip
          | Some appendEvent \<Rightarrow> do {
              let reason = (case map_of payload ''reason'' of Some (JStr r) \<Rightarrow> r | _ \<Rightarrow> []);
              err \<leftarrow> appendEvent \<lparr>tl_OrderID = ID order, Type = eventType, Reason = reason,
                             Occurred = occurredAt\<rparr>;
              (case err of Some _ \<Rightarrow> skip | None \<Rightarrow> record_metric orc RecordTimelineEvent)
            })
       }
   }"

definition emitStatusEvent :: "'w orchestrator \<Rightarrow> Order \<Rightarrow> ('w, unit) prog" where
  "emitStatusEvent orc order =
     emitEvent orc order ''OrderStatusChanged''
       [(''status'', JNamed (OrderStatus_string (Status order))),
        (''updated_at'', JStr (time_Format orc (UpdatedAt order))),
        (''ts'', JStr (time_Format orc (UpdatedAt order)))]
       (UpdatedAt order)"

text \<open>The retry loop of \<open>updateStatus\<close>; \<open>left\<close> counts the attempts that remain after this one, so that
  the Go variable \<open>attempt\<close> is \<open>maxRetries - 1 - left\<close>.\<close>

definition maxRetries :: nat where "maxRetries = 3"
definition baseDelay :: duration where "baseDelay = 10 * millisecond"

definition terminal_status :: "OrderStatus \<Rightarrow> bool" where
  "terminal_status s \<longleftrightarrow> s = OrderStatusCanceled \<or> s = OrderStatusRefunded"

fun update_attempts ::
  "'w orchestrator \<Rightarrow> OrderStatus \<Rightarrow> nat \<Rightarrow> Order \<Rightarrow> ('w, error option \<times> Order) prog" where
  "update_attempts orc newStatus 0 order = return (Some (E ErrOrderVersionConflict), order)"
| "update_attempts orc newStatus (Suc left) order =
     (if terminal_status (Status order) \<and> newStatus \<noteq> Status order
      then return (Some (E errSagaTerminated), order)
      else do {
        now \<leftarrow> time_Now orc;
        let changed = order\<lparr>Status := newStatus, UpdatedAt := now\<rparr>;
        res \<leftarrow> orders_Save orc changed;
        (case res of
           Some err \<Rightarrow>
             if IsVersionConflict err \<and> left > 0 then do {
               loaded \<leftarrow> orders_Get orc (ID changed);
               (case loaded of
                  Inl loadErr \<Rightarrow> return (Some loadErr, changed)
                | Inr fresh \<Rightarrow> do {
                    time_Sleep orc (baseDelay * 2 ^ (maxRetries - 1 - left));
                    update_attempts orc newStatus left fresh
                  })
             }
             else return (Some err, changed\<lparr>Status := Status order\<rparr>)
         | None \<Rightarrow> do {
             let saved = changed\<lparr>Version := Version order + 1\<rparr>;
             emitStatusEvent orc saved;
             return (None, saved)
           })
      })"

definition updateStatus ::
  "'w orchestrator \<Rightarrow> Order \<Rightarrow> OrderStatus \<Rightarrow> ('w, error option \<times> Order) prog" where
  "updateStatus orc order newStatus =
     (if Status order = newStatus then return (None, order)
      else update_attempts orc newStatus maxRetries order)"

definition releaseInventory :: "'w orchestrator \<Rightarrow> Order \<Rightarrow> ('w, unit) prog" where
  "releaseInventory orc order = do { _ \<leftarrow> inventory_Release orc (ID order) (Items order); skip }"

definition failOrder :: "'w orchestrator \<Rightarrow> Order \<Rightarrow> OrderStatus \<Rightarrow> error \<Rightarrow> ('w, Order) prog" where
  "failOrder orc order status rootErr = do {
     record_metric orc RecordSagaFailed;
     (err, order1) \<leftarrow> updateStatus orc order status;
     (case err of
        Some _ \<Rightarrow> return order1
      | None \<Rightarrow> do {
          occurredAt \<leftarrow> time_Now orc;
          emitEvent orc order1 ''OrderSagaFailed''
            [(''reason'', JStr (Error rootErr)), (''ts'', JStr (time_Format orc occurredAt))]
            occurredAt;
          publishSagaEvent orc EventTypeSagaFailed (ID order1)
            [(''reason'', JStr (Error rootErr)), (''customer_id'', JStr (CustomerID order1)),
             (''status'', JStr (OrderStatus_string status))];
          return order1
        })
   }"

definition handleReserve :: "'w orchestrator \<Rightarrow> Order \<Rightarrow> ('w, error option \<times> Order) prog" where
  "handleReserve orc order = do {
     res \<leftarrow> inventory_Reserve orc (ID order) (Items order);
     (case res of
        Some err \<Rightarrow> do {
          order1 \<leftarrow> failOrder orc order OrderStatusCanceled err;
          return (Some err, order1)
        }
      | None \<Rightarrow> do {
          (upd, order1) \<leftarrow> updateStatus orc order OrderStatusReserved;
          (case upd of
             Some err \<Rightarrow> return (Some err, order1)
           | None \<Rightarrow> do {
               publishSagaEvent orc EventTypeStepReserved (ID order1)
                 [(''customer_id'', JStr (CustomerID order1)),
                  (''items_count'', JInt (int (length (Items order1))))];
               return (None, order1)
             })
        })
   }"

definition handlePayment :: "'w orchestrator \<Rightarrow> Order \<Rightarrow> ('w, error option \<times> Order) prog" where
  "handlePayment orc order = do {
     (status, res) \<leftarrow> payments_Pay orc (ID order) (AmountMinor order) (Currency order);
     (case res of
        Some err \<Rightarrow> do {
          releaseInventory orc order;
          order1 \<leftarrow> failOrder orc order OrderStatusCanceled err;
          return (Some err, order1)
        }
      | None \<Rightarrow>
          if status \<noteq> PaymentStatusCaptured \<and> status \<noteq> PaymentStatusAuthorized then do {
            releaseInventory orc order;
            order1 \<leftarrow> failOrder orc order OrderStatusCanceled (E ErrPaymentIndeterminate);
            return (Some (E ErrPaymentIndeterminate), order1)
          }
          else do {
            (upd, order1) \<leftarrow> updateStatus orc order OrderStatusPaid;
            (case upd of
               Some err \<Rightarrow> return (Some err, order1)
             | None \<Rightarrow> do {
                 publishSagaEvent orc EventTypeStepPaid (ID order1)
                   [(''amount'', JInt (AmountMinor order1)), (''currency'', JStr (Currency order1)),
                    (''status'', JStr (PaymentStatus_string status))];
                 return (None, order1)
               })
          })
   }"

definition handleConfirm :: "'w orchestrator \<Rightarrow> Order \<Rightarrow> ('w, unit) prog" where
  "handleConfirm orc order = do {
     (upd, order1) \<leftarrow> updateStatus orc order OrderStatusConfirmed;
     (case upd of
        Some err \<Rightarrow>
          if errors_Is err errSagaTerminated then skip else record_metric orc RecordSagaFailed
      | None \<Rightarrow> do {
          record_metric orc RecordSagaCompleted;
          publishSagaEvent orc EventTypeSagaCompleted (ID order1)
            [(''customer_id'', JStr (CustomerID order1)), (''amount'', JInt (AmountMinor order1))]
        })
   }"

text \<open>The cases of the \<open>switch\<close> in \<open>Start\<close>, each falling through to the next.\<close>

definition start_paid :: "'w orchestrator \<Rightarrow> Order \<Rightarrow> ('w, unit) prog" where
  "start_paid orc order = handleConfirm orc order"

definition start_reserved :: "'w orchestrator \<Rightarrow> Order \<Rightarrow> ('w, unit) prog" where
  "start_reserved orc order = do {
     (err, order1) \<leftarrow> handlePayment orc order;
     (case err of Some _ \<Rightarrow> skip | None \<Rightarrow> start_paid orc order1)
   }"

definition start_pending :: "'w orchestrator \<Rightarrow> Order \<Rightarrow> ('w, unit) prog" where
  "start_pending orc order = do {
     (err, order1) \<leftarrow> handleReserve orc order;
     (case err of Some _ \<Rightarrow> skip | None \<Rightarrow> start_reserved orc order1)
   }"

definition start_body :: "'w orchestrator \<Rightarrow> string \<Rightarrow> ('w, unit) prog" where
  "start_body orc orderID = do {
     loaded \<leftarrow> orders_Get orc orderID;
     (case loaded of
        Inl _ \<Rightarrow> record_metric orc RecordSagaFailed
      | Inr order \<Rightarrow> do {
          publishSagaEvent orc EventTypeSagaStarted orderID
            [(''customer_id'', JStr (CustomerID order)),
             (''status'', JStr (OrderStatus_string (Status order)))];
          (case Status order of
             OrderStatusPending \<Rightarrow> start_pending orc order
           | OrderStatusReserved \<Rightarrow> start_reserved orc order
           | OrderStatusPaid \<Rightarrow> start_paid orc order
           | _ \<Rightarrow> skip)
        })
   }"

definition Start :: "'w orchestrator \<Rightarrow> string \<Rightarrow> ('w, unit) prog" where
  "Start orc orderID = do {
     start \<leftarrow> time_Now orc;
     record_metric orc RecordSagaStarted;
     start_body orc orderID;
     (case metrics orc of
        None \<Rightarrow> skip
      | Some m \<Rightarrow> do { now \<leftarrow> time_Now orc; m (RecordSagaDuration (Sub now start)) });
     record_metric orc RecordSagaInFlightFinished
   }"

definition cancel_commit :: "'w orchestrator \<Rightarrow> Order \<Rightarrow> string \<Rightarrow> ('w, unit) prog" where
  "cancel_commit orc order reason = do {
     (upd, order1) \<leftarrow> updateStatus orc order OrderStatusCanceled;
     (case upd of
        Some _ \<Rightarrow> skip
      | None \<Rightarrow> do {
          occurredAt \<leftarrow> time_Now orc;
          let payload = [(''reason'', JStr reason), (''ts'', JStr (time_Format orc occurredAt))];
          emitEvent orc order1 ''OrderCanceled''
            (if reason = [] then AList.delete ''reason'' payload else payload) occurredAt;
          publishSagaEvent orc EventTypeSagaCanceled (ID order1)
            [(''reason'', JStr reason), (''customer_id'', JStr (CustomerID order1))];
          record_metric orc RecordSagaCanceled
        })
   }"

definition cancel_body :: "'w orchestrator \<Rightarrow> string \<Rightarrow> string \<Rightarrow> ('w, unit) prog" where
  "cancel_body orc orderID reason = do {
     loaded \<leftarrow> orders_Get orc orderID;
     (case loaded of
        Inl _ \<Rightarrow> record_metric orc RecordSagaFailed
      | Inr order \<Rightarrow>
          if Status order = OrderStatusCanceled \<or> Status order = OrderStatusRefunded then skip
          else do {
            (if Status order = OrderStatusReserved \<or> Status order = OrderStatusPaid
                \<or> Status order = OrderStatusConfirmed
             then releaseInventory orc order else skip);
            (if Status order = OrderStatusPaid \<or> Status order = OrderStatusConfirmed then do {
               (_, err) \<leftarrow> payments_Refund orc (ID order) (AmountMinor order) (Currency order);
               (case err of
                  Some _ \<Rightarrow> record_metric orc RecordSagaFailed
                | None \<Rightarrow> cancel_commit orc order reason)
             }
             else cancel_commit orc order reason)
          })
   }"

definition Cancel :: "'w orchestrator \<Rightarrow> string \<Rightarrow> string \<Rightarrow> ('w, unit) prog" where
  "Cancel orc orderID reason = do {
     record_metric orc RecordSagaInFlightStarted;
     cancel_body orc orderID reason;
     record_metric orc RecordSagaInFlightFinished
   }"

definition refund_commit :: "'w orchestrator \<Rightarrow> Order \<Rightarrow> int \<Rightarrow> string \<Rightarrow> ('w, unit) prog" where
  "refund_commit orc order amountMinor reason = do {
     releaseInventory orc order;
     (upd, order1) \<leftarrow> updateStatus orc order OrderStatusRefunded;
     (case upd of
        Some _ \<Rightarrow> skip
      | None \<Rightarrow> do {
          occurredAt \<leftarrow> time_Now orc;
          let payload = [(''amount_minor'', JInt amountMinor), (''reason'', JStr reason),
                         (''ts'', JStr (time_Format orc occurredAt))];
          emitEvent orc order1 ''OrderRefunded''
            (if reason = [] then AList.delete ''reason'' payload else payload) occurredAt;
          publishSagaEvent orc EventTypeSagaRefunded (ID order1)
            [(''amount'', JInt amountMinor), (''reason'', JStr reason),
             (''customer_id'', JStr (CustomerID order1))];
          record_metric orc RecordSagaRefunded
        })
   }"

definition refund_body :: "'w orchestrator \<Rightarrow> string \<Rightarrow> int \<Rightarrow> string \<Rightarrow> ('w, unit) prog" where
  "refund_body orc orderID amount0 reason = do {
     loaded \<leftarrow> orders_Get orc orderID;
     (case loaded of
        Inl _ \<Rightarrow> record_metric orc RecordSagaFailed
      | Inr order \<Rightarrow>
          if Status order = OrderStatusRefunded then skip
          else if Status order \<noteq> OrderStatusPaid \<and> Status order \<noteq> OrderStatusConfirmed then skip
          else do {
            let amountMinor = (if amount0 \<le> 0 \<or> amount0 > AmountMinor order
                               then AmountMinor order else amount0);
            (status, payErr) \<leftarrow> payments_Refund orc (ID order) amountMinor (Currency order);
            (case payErr of
               Some _ \<Rightarrow> record_metric orc RecordSagaFailed
             | None \<Rightarrow>
                 if status \<noteq> PaymentStatusRefunded then record_metric orc RecordSagaFailed
                 else refund_commit orc order amountMinor reason)
          })
   }"

definition Refund :: "'w orchestrator \<Rightarrow> string \<Rightarrow> int \<Rightarrow> string \<Rightarrow> ('w, unit) prog" where
  "Refund orc orderID amountMinor reason = do {
     record_metric orc RecordSagaInFlightStarted;
     refund_body orc orderID amountMinor reason;
     record_metric orc RecordSagaInFlightFinished
   }"

text \<open>The calls of the \<open>Orchestrator\<close> interface, as values.\<close>

datatype saga_call = CallStart string | CallCancel string string | CallRefund string int string

fun saga_run :: "'w orchestrator \<Rightarrow> saga_call \<Rightarrow> ('w, unit) prog" where
  "saga_run orc (CallStart i) = Start orc i"
| "saga_run orc (CallCancel i reason) = Cancel orc i reason"
| "saga_run orc (CallRefund i amount reason) = Refund orc i amount reason"

text \<open>\<open>noopOrchestrator\<close>: its methods only log.\<close>

fun noop_run :: "saga_call \<Rightarrow> ('w, unit) prog" where
  "noop_run c = skip"

end
