(* ===== verification/Order_Repository.thy ===== *)
theory Order_Repository
  imports Domain
begin

text \<open>
  \<open>internal/storage/memory/order_repository.go\<close>: the in-memory order store with optimistic locking.
  The mutex makes every method atomic, so a method is a function on the stored map. \<open>Version\<close> is unbounded; the
  \<open>int64\<close> of the code would wrap after \<open>2 ^ 63\<close> saves of one order. The locale
  \<open>order_store\<close> is the contract of \<open>domain.OrderRepository\<close> that the services rely on; its client
  lemmas (no lost update, versions count saves) are proved once, and the memory store is an
  interpretation.
\<close>

type_synonym order_repo = "string \<rightharpoonup> Order"

definition NewOrderRepository :: order_repo where
  "NewOrderRepository = Map.empty"

definition order_Create :: "Order \<Rightarrow> order_repo \<Rightarrow> error option \<times> order_repo" where
  "order_Create o1 r =
     (case r (ID o1) of
        Some _ \<Rightarrow> (Some (E ErrOrderVersionConflict), r)
      | None \<Rightarrow> (None, r(ID o1 \<mapsto> o1)))"

definition order_Get :: "string \<Rightarrow> order_repo \<Rightarrow> error + Order" where
  "order_Get i r = (case r i of None \<Rightarrow> Inl (E ErrOrderNotFound) | Some o1 \<Rightarrow> Inr o1)"

definition order_newer :: "Order \<Rightarrow> Order \<Rightarrow> bool" where
  "order_newer a b =
     (if CreatedAt a \<noteq> CreatedAt b then CreatedAt a > CreatedAt b else ID a > ID b)"

definition order_ListByCustomer ::
  "string list \<Rightarrow> string \<Rightarrow> int \<Rightarrow> order_repo \<Rightarrow> error + Order list" where
  "order_ListByCustomer ks customerID limit r =
     (let found = filter (\<lambda>o1. CustomerID o1 = customerID) (range_vals r ks);
          result = sort_slice order_newer found
      in Inr (if limit > 0 \<and> int (length result) > limit then take (nat limit) result else result))"

definition order_Save :: "Order \<Rightarrow> order_repo \<Rightarrow> error option \<times> order_repo" where
  "order_Save o1 r =
     (case r (ID o1) of
        None \<Rightarrow> (Some (E ErrOrderNotFound), r)
      | Some current \<Rightarrow>
          if Version current \<noteq> Version o1 then (Some (E ErrOrderVersionConflict), r)
          else (None, r(ID o1 \<mapsto> o1\<lparr>Version := Version o1 + 1\<rparr>)))"

text \<open>Every order is stored under its own identifier.\<close>

definition wf_orders :: "order_repo \<Rightarrow> bool" where
  "wf_orders r \<longleftrightarrow> (\<forall>i o1. r i = Some o1 \<longrightarrow> ID o1 = i)"

text \<open>Saving the results of several clients one after the other, in the order they arrive.\<close>

fun save_all :: "('s \<Rightarrow> Order \<Rightarrow> error option \<times> 's) \<Rightarrow> Order list \<Rightarrow> 's \<Rightarrow> error option list \<times> 's" where
  "save_all sv [] s = ([], s)"
| "save_all sv (o1 # os) s =
     (let (e, s1) = sv s o1; (es, s2) = save_all sv os s1 in (e # es, s2))"

section \<open>The contract of an order store\<close>

locale order_store =
  fixes create :: "Order \<Rightarrow> 's \<Rightarrow> error option \<times> 's"
    and get :: "string \<Rightarrow> 's \<Rightarrow> error + Order"
    and save :: "Order \<Rightarrow> 's \<Rightarrow> error option \<times> 's"
    and invar :: "'s \<Rightarrow> bool"
  assumes get_ident: "invar s \<Longrightarrow> get i s = Inr o1 \<Longrightarrow> ID o1 = i"
    and create_ok: "invar s \<Longrightarrow> create o1 s = (None, s') \<Longrightarrow>
      invar s' \<and> (\<exists>e. get (ID o1) s = Inl e) \<and> get (ID o1) s' = Inr o1"
    and create_rejects: "get (ID o1) s = Inr c \<Longrightarrow>
      create o1 s = (Some (E ErrOrderVersionConflict), s)"
    and save_fresh: "invar s \<Longrightarrow> get (ID o1) s = Inr c \<Longrightarrow> Version c = Version o1 \<Longrightarrow>
      \<exists>s'. save o1 s = (None, s') \<and> invar s' \<and> get (ID o1) s' = Inr (o1\<lparr>Version := Version o1 + 1\<rparr>)"
    and save_stale: "get (ID o1) s = Inr c \<Longrightarrow> Version c \<noteq> Version o1 \<Longrightarrow>
      save o1 s = (Some (E ErrOrderVersionConflict), s)"
    and save_missing: "get (ID o1) s = Inl e \<Longrightarrow> save o1 s = (Some (E ErrOrderNotFound), s)"
    and save_frame: "save o1 s = (res, s') \<Longrightarrow> i \<noteq> ID o1 \<Longrightarrow> get i s' = get i s"
begin

lemma save_okD:
  assumes "invar s" and "save o1 s = (None, s')"
  obtains c where "get (ID o1) s = Inr c" and "Version c = Version o1" and "invar s'"
    and "get (ID o1) s' = Inr (o1\<lparr>Version := Version o1 + 1\<rparr>)"
proof (cases "get (ID o1) s")
  case (Inl e)
  with save_missing [OF Inl] assms that show ?thesis by simp
next
  case (Inr c)
  with save_stale [OF Inr] save_fresh [OF assms(1) Inr] assms(2) that show ?thesis
    by (cases "Version c = Version o1") auto
qed

text \<open>Two clients that started from the same version: the second save is refused and changes nothing.\<close>

lemma no_lost_update:
  assumes "invar s" and "save a s = (None, s1)" and "ID b = ID a" and "Version b = Version a"
  shows "save b s1 = (Some (E ErrOrderVersionConflict), s1)"
proof -
  from assms(1,2) have "get (ID a) s1 = Inr (a\<lparr>Version := Version a + 1\<rparr>)"
    by (rule save_okD) simp
  then show ?thesis using assms(3,4) by (intro save_stale) auto
qed

text \<open>Of any number of writers that started from one version, exactly one wins.\<close>

lemma losers_refused:
  assumes "invar s" and "get i s = Inr c" and "v < Version c"
    and "\<forall>o1 \<in> set os. ID o1 = i \<and> Version o1 = v"
  shows "save_all (\<lambda>s o1. save o1 s) os s = (map (\<lambda>_. Some (E ErrOrderVersionConflict)) os, s)"
  using assms(4)
proof (induction os)
  case Nil
  then show ?case by simp
next
  case (Cons o1 os)
  then have "get (ID o1) s = Inr c" and "Version c \<noteq> Version o1"
    using assms(2,3) by simp_all
  then have "save o1 s = (Some (E ErrOrderVersionConflict), s)" by (rule save_stale)
  with Cons show ?case by simp
qed

lemma one_writer_wins:
  assumes "invar s" and "get i s = Inr c"
    and "\<forall>o1 \<in> set (w # os). ID o1 = i \<and> Version o1 = Version c"
  shows "\<exists>s'. save_all (\<lambda>s o1. save o1 s) (w # os) s
           = (None # map (\<lambda>_. Some (E ErrOrderVersionConflict)) os, s')
         \<and> get i s' = Inr (w\<lparr>Version := Version c + 1\<rparr>)"
proof -
  from assms have w: "get (ID w) s = Inr c" "Version c = Version w" "ID w = i" by simp_all
  then obtain s' where s': "save w s = (None, s')" "invar s'"
      "get i s' = Inr (w\<lparr>Version := Version c + 1\<rparr>)"
    using save_fresh [OF assms(1) w(1,2)] by auto
  have "save_all (\<lambda>s o1. save o1 s) os s' = (map (\<lambda>_. Some (E ErrOrderVersionConflict)) os, s')"
    using assms(3) by (intro losers_refused [OF s'(2,3), of "Version c"]) simp_all
  with s' show ?thesis by simp
qed

end

lemma wf_orders_upd [simp]: "wf_orders r \<Longrightarrow> ID o1 = i \<Longrightarrow> wf_orders (r(i \<mapsto> o1))"
  by (auto simp: wf_orders_def)

lemma wf_orders_empty [simp]: "wf_orders NewOrderRepository"
  by (simp add: wf_orders_def NewOrderRepository_def)

interpretation mem_orders: order_store order_Create order_Get order_Save wf_orders
  by unfold_locales
    (auto simp: order_Create_def order_Get_def order_Save_def wf_orders_def
      split: option.splits if_splits)

section \<open>Listing\<close>

lemma order_newer_weak: "weak_order order_newer"
  by (auto simp: weak_order_def order_newer_def split: if_splits)

lemma order_newer_total: "ID a \<noteq> ID b \<Longrightarrow> order_newer a b \<or> order_newer b a"
  by (auto simp: order_newer_def)

lemma distinct_orders:
  assumes "wf_orders r" and "range_order r ks"
    and "a \<in> set (range_vals r ks)" and "b \<in> set (range_vals r ks)" and "a \<noteq> b"
  shows "ID a \<noteq> ID b"
  using assms by (auto simp: set_range_vals wf_orders_def)

text \<open>All orders of a customer, newest first, as \<open>ListByCustomer\<close> computes them before the limit.\<close>

definition customer_orders :: "string list \<Rightarrow> string \<Rightarrow> order_repo \<Rightarrow> Order list" where
  "customer_orders ks customerID r =
     sort_slice order_newer (filter (\<lambda>o1. CustomerID o1 = customerID) (range_vals r ks))"

lemma set_customer_orders:
  "range_order r ks \<Longrightarrow> set (customer_orders ks c r) = {o1 \<in> ran r. CustomerID o1 = c}"
  by (auto simp: customer_orders_def insertion.srt_set set_range_vals_ran)

lemma sorted_customer_orders: "sorted_less order_newer (customer_orders ks c r)"
  unfolding customer_orders_def by (rule insertion.srt_sorted [OF order_newer_weak])

lemma distinct_customer_orders:
  assumes "wf_orders r" and "range_order r ks"
  shows "distinct (map ID (customer_orders ks c r))"
proof -
  have "distinct (map ID (range_vals r ks))"
    using assms by (intro distinct_range_vals) (auto simp: range_order_def wf_orders_def)
  then have "distinct (map ID (filter (\<lambda>o1. CustomerID o1 = c) (range_vals r ks)))"
    by (rule distinct_map_filter)
  moreover have "mset (map ID (customer_orders ks c r))
      = mset (map ID (filter (\<lambda>o1. CustomerID o1 = c) (range_vals r ks)))"
    by (simp add: customer_orders_def insertion.srt_perm)
  ultimately show ?thesis by (metis mset_eq_imp_distinct_iff)
qed

text \<open>The comparison is total on stored orders, so neither the iteration order of the map nor the
  sorting algorithm shows in the result.\<close>

lemma customer_orders_unique:
  assumes "wf_orders r" and "range_order r ks" and "range_order r ks'"
  shows "customer_orders ks' c r = customer_orders ks c r"
  unfolding customer_orders_def [of ks']
proof (rule insertion.srt_unique [OF order_newer_weak sorted_customer_orders])
  show "mset (customer_orders ks c r) = mset (filter (\<lambda>o1. CustomerID o1 = c) (range_vals r ks'))"
    using mset_range_vals [OF range_order_perm [OF assms(2,3)], of r]
    by (simp add: customer_orders_def insertion.srt_perm)
  show "order_newer x y \<or> order_newer y x"
    if "x \<in> set (filter (\<lambda>o1. CustomerID o1 = c) (range_vals r ks'))"
      and "y \<in> set (filter (\<lambda>o1. CustomerID o1 = c) (range_vals r ks'))" and "x \<noteq> y" for x y
    using that distinct_orders [OF assms(1,3)] order_newer_total by auto
qed

lemma order_ListByCustomer_eq:
  "order_ListByCustomer ks c limit r =
     Inr (if limit > 0 then take (nat limit) (customer_orders ks c r) else customer_orders ks c r)"
  by (auto simp: order_ListByCustomer_def customer_orders_def Let_def)

section \<open>Properties\<close>

text \<open>C4. Optimistic locking: when any number of clients read an order at the same version and
  save their changes one after the other, the first save is accepted and stored with the next version,
  and every other save is refused with a version conflict; no update is lost.\<close>

theorem concurrent_saves_one_wins:
  assumes "wf_orders r" and "r i = Some c"
    and "\<forall>o1 \<in> set (w # os). ID o1 = i \<and> Version o1 = Version c"
  shows "\<exists>r'. save_all (\<lambda>r o1. order_Save o1 r) (w # os) r
           = (None # map (\<lambda>_. Some (E ErrOrderVersionConflict)) os, r')
         \<and> order_Get i r' = Inr (w\<lparr>Version := Version c + 1\<rparr>)"
  using assms by (intro mem_orders.one_writer_wins) (simp_all add: order_Get_def)

definition example_order :: "string \<Rightarrow> OrderStatus \<Rightarrow> int \<Rightarrow> gotime \<Rightarrow> Order" where
  "example_order i st v t =
     \<lparr>ID = i, CustomerID = ''customer-1'', Status = st, Currency = ''USD'', AmountMinor = 250,
      Items = [\<lparr>item_ID = ''item-1'', SKU = ''sku-1'', Qty = 1, PriceMinor = 250, item_CreatedAt = t\<rparr>],
      Version = v, CreatedAt = t, UpdatedAt = t\<rparr>"

theorem concurrent_saves_one_wins_witness:
  "\<exists>r'. save_all (\<lambda>r o1. order_Save o1 r)
       [example_order ''o1'' OrderStatusReserved 0 5, example_order ''o1'' OrderStatusCanceled 0 5]
       [''o1'' \<mapsto> example_order ''o1'' OrderStatusPending 0 5]
     = ([None, Some (E ErrOrderVersionConflict)], r')
     \<and> order_Get ''o1'' r' = Inr (example_order ''o1'' OrderStatusReserved 1 5)"
proof -
  let ?c = "example_order ''o1'' OrderStatusPending 0 5"
  let ?w = "example_order ''o1'' OrderStatusReserved 0 5"
  let ?l = "example_order ''o1'' OrderStatusCanceled 0 5"
  have wf: "wf_orders [''o1'' \<mapsto> ?c]" by (simp add: wf_orders_def example_order_def)
  have r: "[''o1'' \<mapsto> ?c] ''o1'' = Some ?c" by simp
  have os: "\<forall>o1 \<in> set [?w, ?l]. ID o1 = ''o1'' \<and> Version o1 = Version ?c"
    by (simp add: example_order_def)
  have "?w\<lparr>Version := Version ?c + 1\<rparr> = example_order ''o1'' OrderStatusReserved 1 5"
    by (simp add: example_order_def)
  then show ?thesis using concurrent_saves_one_wins [OF wf r os] by (simp only: list.map)
qed

text \<open>\<open>ListByCustomer\<close> returns stored orders of that customer only, without duplicates, newest
  first; without a limit all of them, with a limit at most that many and never an older order in
  place of a newer one; the answer does not depend on the iteration order of the Go map.\<close>

theorem ListByCustomer_correct:
  assumes "wf_orders r" and "range_order r ks"
  shows "\<exists>os. order_ListByCustomer ks c limit r = Inr os
     \<and> sorted_less order_newer os \<and> distinct (map ID os)
     \<and> (\<forall>o1 \<in> set os. CustomerID o1 = c \<and> o1 \<in> ran r)
     \<and> (limit \<le> 0 \<longrightarrow> {o1 \<in> ran r. CustomerID o1 = c} \<subseteq> set os)
     \<and> (limit > 0 \<longrightarrow> int (length os) \<le> limit
          \<and> (\<forall>o1 \<in> ran r. CustomerID o1 = c \<and> o1 \<notin> set os \<longrightarrow>
                int (length os) = limit \<and> (\<forall>o2 \<in> set os. \<not> order_newer o1 o2)))
     \<and> (\<forall>ks'. range_order r ks' \<longrightarrow> order_ListByCustomer ks' c limit r = Inr os)"
proof -
  let ?all = "customer_orders ks c r"
  let ?os = "if limit > 0 then take (nat limit) ?all else ?all"
  have split: "?all = take (nat limit) ?all @ drop (nat limit) ?all" by simp
  have omitted: "int (length ?os) = limit \<and> (\<forall>o2 \<in> set ?os. \<not> order_newer o1 o2)"
    if "limit > 0" "o1 \<in> ran r" "CustomerID o1 = c" "o1 \<notin> set ?os" for o1
  proof -
    have "o1 \<in> set ?all" using that assms(2) by (simp add: set_customer_orders)
    with that(1,4) split have dr: "o1 \<in> set (drop (nat limit) ?all)" by (metis Un_iff set_append)
    then have "length ?all > nat limit" by (metis drop_all empty_iff list.set(1) not_le)
    moreover have "sorted_wrt (\<lambda>x y. \<not> order_newer y x) (take (nat limit) ?all @ drop (nat limit) ?all)"
      using sorted_customer_orders [of ks c r] by (simp add: sorted_less_def)
    ultimately show ?thesis using that(1) dr unfolding sorted_wrt_append by auto
  qed
  have "sorted_less order_newer ?os"
    using sorted_customer_orders [of ks c r] by (simp add: sorted_less_def sorted_wrt_take)
  moreover have "distinct (map ID ?os)"
    using distinct_customer_orders [OF assms] by (simp add: take_map [symmetric])
  moreover have "\<forall>o1 \<in> set ?os. CustomerID o1 = c \<and> o1 \<in> ran r"
    using set_customer_orders [OF assms(2), of c] by (auto dest: in_set_takeD)
  moreover have "limit \<le> 0 \<longrightarrow> {o1 \<in> ran r. CustomerID o1 = c} \<subseteq> set ?os"
    using set_customer_orders [OF assms(2), of c] by simp
  moreover have "limit > 0 \<longrightarrow> int (length ?os) \<le> limit" by auto
  moreover have "\<forall>ks'. range_order r ks' \<longrightarrow> order_ListByCustomer ks' c limit r = Inr ?os"
    using customer_orders_unique [OF assms] by (simp add: order_ListByCustomer_eq)
  ultimately show ?thesis using omitted order_ListByCustomer_eq [of ks c limit r] by blast
qed

theorem ListByCustomer_correct_witness:
  "\<exists>os. order_ListByCustomer [''o1''] ''customer-1'' 10
       [''o1'' \<mapsto> example_order ''o1'' OrderStatusPending 0 5] = Inr os
     \<and> (\<forall>o1 \<in> set os. CustomerID o1 = ''customer-1'')"
proof -
  have wf: "wf_orders [''o1'' \<mapsto> example_order ''o1'' OrderStatusPending 0 5]"
    by (simp add: wf_orders_def example_order_def)
  have ks: "range_order [''o1'' \<mapsto> example_order ''o1'' OrderStatusPending 0 5] [''o1'']"
    by (simp add: range_order_def)
  show ?thesis using ListByCustomer_correct [OF wf ks, of "''customer-1''" 10] by blast
qed

end
