(* ===== verification/Saga_Safety.thy ===== *)
theory Saga_Safety
  imports Saga Order_Repository
begin

text \<open>
  What the saga may do to stored orders while other goroutines and other processes use the same store.

  \<open>order_advance\<close> is the relation every writer must respect: a version counts up, the fields set at
  creation never change, and the statuses \<open>canceled\<close> and \<open>refunded\<close> are final. The locale
  \<open>saga_backend\<close> states what the saga relies on: each call of a dependency may be accompanied by any
  number of advances made by others, \<open>Get\<close> returns the stored order, and \<open>Save\<close> compares and increments
  the version. In it, \<open>Start\<close>, \<open>Cancel\<close> and \<open>Refund\<close> are shown to make only advances (rely and
  guarantee are the same relation, so any interleaving of sagas is covered).
\<close>

section \<open>Advancing orders\<close>

definition order_advance :: "Order \<Rightarrow> Order \<Rightarrow> bool" where
  "order_advance a b \<longleftrightarrow> b = a \<or>
     (Version a < Version b \<and> ID b = ID a \<and> CustomerID b = CustomerID a \<and> Currency b = Currency a
      \<and> AmountMinor b = AmountMinor a \<and> Items b = Items a \<and> CreatedAt b = CreatedAt a
      \<and> (terminal_status (Status a) \<longrightarrow> Status b = Status a))"

definition advances :: "order_repo \<Rightarrow> order_repo \<Rightarrow> bool" where
  "advances v v' \<longleftrightarrow> (\<forall>i a. v i = Some a \<longrightarrow> (\<exists>b. v' i = Some b \<and> order_advance a b))"

lemma order_advance_refl [simp]: "order_advance a a"
  by (simp add: order_advance_def)

lemma order_advance_trans: "order_advance a b \<Longrightarrow> order_advance b c \<Longrightarrow> order_advance a c"
  by (auto simp: order_advance_def)

lemma order_advance_version: "order_advance a b \<Longrightarrow> Version b = Version a \<Longrightarrow> b = a"
  by (auto simp: order_advance_def)

lemma advances_refl [simp]: "advances v v"
  by (simp add: advances_def)

lemma advances_trans [trans]: "advances u v \<Longrightarrow> advances v w \<Longrightarrow> advances u w"
  unfolding advances_def by (metis order_advance_trans)

lemma advances_upd:
  "v i = Some a \<Longrightarrow> order_advance a b \<Longrightarrow> advances v (v(i \<mapsto> b))"
  by (auto simp: advances_def)

section \<open>What the saga relies on\<close>

locale saga_backend =
  fixes orc :: "'w orchestrator"
    and view :: "'w \<Rightarrow> order_repo"
    and invar :: "'w \<Rightarrow> bool"
  assumes view_wf: "invar w \<Longrightarrow> wf_orders (view w)"
    and get_law: "invar w \<Longrightarrow> run_state (orders_Get orc i) w = (got, w') \<Longrightarrow>
      invar w' \<and> advances (view w) (view w') \<and> (\<forall>a. got = Inr a \<longrightarrow> view w' i = Some a)"
    and save_ok: "invar w \<Longrightarrow> run_state (orders_Save orc a) w = (None, w') \<Longrightarrow>
      invar w' \<and> (\<exists>v c. advances (view w) v \<and> v (ID a) = Some c \<and> Version c = Version a
        \<and> view w' = v(ID a \<mapsto> a\<lparr>Version := Version a + 1\<rparr>))"
    and save_err: "invar w \<Longrightarrow> run_state (orders_Save orc a) w = (Some e, w') \<Longrightarrow>
      invar w' \<and> advances (view w) (view w')"
    and outbox_law: "invar w \<Longrightarrow> run_state (outbox_op orc m) w = (sent, w') \<Longrightarrow>
      invar w' \<and> advances (view w) (view w')"
    and timeline_law: "timeline_op orc = Some append_op \<Longrightarrow> invar w \<Longrightarrow>
      run_state (append_op ev) w = (err, w') \<Longrightarrow> invar w' \<and> advances (view w) (view w')"
    and reserve_law: "invar w \<Longrightarrow> run_state (inventory_Reserve orc i items) w = (err, w') \<Longrightarrow>
      invar w' \<and> advances (view w) (view w')"
    and release_law: "invar w \<Longrightarrow> run_state (inventory_Release orc i items) w = (err, w') \<Longrightarrow>
      invar w' \<and> advances (view w) (view w')"
    and pay_law: "invar w \<Longrightarrow> run_state (payments_Pay orc i amount cur) w = (paid, w') \<Longrightarrow>
      invar w' \<and> advances (view w) (view w')"
    and refund_law: "invar w \<Longrightarrow> run_state (payments_Refund orc i amount cur) w = (paid, w') \<Longrightarrow>
      invar w' \<and> advances (view w) (view w')"
    and metrics_law: "metrics orc = Some record_op \<Longrightarrow> invar w \<Longrightarrow>
      run_state (record_op f) w = (u, w') \<Longrightarrow> invar w' \<and> advances (view w) (view w')"
    and kafka_law: "kafkaProducer orc = Some publish \<Longrightarrow> invar w \<Longrightarrow>
      run_state (publish topic k event) w = (err, w') \<Longrightarrow> invar w' \<and> advances (view w) (view w')"
    and now_law: "invar w \<Longrightarrow> run_state (time_Now orc) w = (t, w') \<Longrightarrow>
      invar w' \<and> advances (view w) (view w')"
    and sleep_law: "invar w \<Longrightarrow> run_state (time_Sleep orc d) w = (u, w') \<Longrightarrow>
      invar w' \<and> advances (view w) (view w')"
begin

text \<open>\<open>J v S\<close> holds of a world that has advanced from the store \<open>v\<close> and in which every order of \<open>S\<close> was
  stored at some earlier moment.\<close>

definition J :: "order_repo \<Rightarrow> Order set \<Rightarrow> 'w \<Rightarrow> bool" where
  "J v S w \<longleftrightarrow> invar w \<and> advances v (view w)
     \<and> (\<forall>a \<in> S. \<exists>c. view w (ID a) = Some c \<and> order_advance a c)"

definition harmless :: "('w, 'a) prog \<Rightarrow> bool" where
  "harmless m \<longleftrightarrow> (\<forall>v S. ensures (J v S) m (\<lambda>_. J v S))"

lemma J_step: "J v S w \<Longrightarrow> invar w' \<Longrightarrow> advances (view w) (view w') \<Longrightarrow> J v S w'"
  unfolding J_def using advances_trans order_advance_trans
  by (meson advances_def)

lemma J_subset: "J v S w \<Longrightarrow> T \<subseteq> S \<Longrightarrow> J v T w"
  by (auto simp: J_def)

lemma harmlessI:
  assumes "\<And>w a w'. invar w \<Longrightarrow> run_state m w = (a, w') \<Longrightarrow> invar w' \<and> advances (view w) (view w')"
  shows "harmless m"
  unfolding harmless_def
proof (intro allI ensuresI)
  fix v S w a w'
  assume j: "J v S w" and "run_state m w = (a, w')"
  then have "invar w' \<and> advances (view w) (view w')" by (intro assms) (simp_all add: J_def)
  then show "J v S w'" using J_step [OF j] by blast
qed

lemma harmless_return [intro!, simp]: "harmless (return a)"
  by (auto simp: harmless_def intro: hoare)

lemma harmless_bind [intro!]: "harmless m \<Longrightarrow> (\<And>a. harmless (f a)) \<Longrightarrow> harmless (State_Monad.bind m f)"
  unfolding harmless_def by (blast intro: ensures_bind)

lemma harmless_deps [intro!, simp]:
  "harmless (outbox_op orc m)" "harmless (inventory_Reserve orc i items)"
  "harmless (inventory_Release orc i items)" "harmless (payments_Pay orc i amount cur)"
  "harmless (payments_Refund orc i amount cur)" "harmless (time_Now orc)" "harmless (time_Sleep orc d)"
  by (blast intro: harmlessI dest: outbox_law reserve_law release_law pay_law refund_law now_law
      sleep_law)+

lemma harmless_optional [intro]:
  "timeline_op orc = Some append_op \<Longrightarrow> harmless (append_op ev)"
  "metrics orc = Some record_op \<Longrightarrow> harmless (record_op f)"
  "kafkaProducer orc = Some publish \<Longrightarrow> harmless (publish topic k event)"
  by (blast intro: harmlessI dest: timeline_law metrics_law kafka_law)+

lemma harmless_record [intro!, simp]: "harmless (record_metric orc f)"
  by (auto simp: record_metric_def split: option.split)

lemma harmless_publish [intro!, simp]: "harmless (publishSagaEvent orc ty i meta)"
  by (auto simp: publishSagaEvent_def NewSagaEvent_def split: option.split)

lemma harmless_emit [intro!, simp]: "harmless (emitEvent orc a ty payload t)"
  by (auto simp: emitEvent_def Let_def split: option.split sum.split)

lemma harmless_status [intro!, simp]: "harmless (emitStatusEvent orc a)"
  by (simp add: emitStatusEvent_def)

lemma harmless_release [intro!, simp]: "harmless (releaseInventory orc a)"
  by (auto simp: releaseInventory_def)

lemma harmless_ensures [hoare]: "harmless m \<Longrightarrow> ensures (J v S) m (\<lambda>_. J v S)"
  by (simp add: harmless_def)

section \<open>The store operations\<close>

lemma get_ensures:
  "ensures (J v S) (orders_Get orc i)
     (\<lambda>got w. case got of Inl e \<Rightarrow> J v S w | Inr a \<Rightarrow> ID a = i \<and> J v (insert a S) w)"
proof (rule ensuresI)
  fix w got w'
  assume j: "J v S w" and run: "run_state (orders_Get orc i) w = (got, w')"
  then have l: "invar w'" "advances (view w) (view w')" "\<forall>a. got = Inr a \<longrightarrow> view w' i = Some a"
    using get_law by (auto simp: J_def)
  have "J v S w'" by (rule J_step [OF j l(1,2)])
  moreover have "wf_orders (view w')" by (rule view_wf [OF l(1)])
  ultimately show "case got of Inl e \<Rightarrow> J v S w' | Inr a \<Rightarrow> ID a = i \<and> J v (insert a S) w'"
    using l(3) by (auto simp: J_def wf_orders_def split: sum.split)
qed

text \<open>The heart of optimistic locking: an order that was stored before and is accepted by \<open>Save\<close> is
  still the stored one, so the save is an advance unless it leaves a final status.\<close>

lemma save_ensures:
  assumes "a \<in> S" and "terminal_status (Status a) \<longrightarrow> st = Status a"
  shows "ensures (J v S) (orders_Save orc (a\<lparr>Status := st, UpdatedAt := t\<rparr>))
     (\<lambda>err w. J v S w \<and>
        (err = None \<longrightarrow> J v (insert (a\<lparr>Status := st, UpdatedAt := t, Version := Version a + 1\<rparr>) S) w))"
proof (rule ensuresI)
  fix w err w'
  let ?n = "a\<lparr>Status := st, UpdatedAt := t, Version := Version a + 1\<rparr>"
  assume j: "J v S w" and run: "run_state (orders_Save orc (a\<lparr>Status := st, UpdatedAt := t\<rparr>)) w = (err, w')"
  have inv: "invar w" using j by (simp add: J_def)
  show "J v S w' \<and> (err = None \<longrightarrow> J v (insert ?n S) w')"
  proof (cases err)
    case (Some e)
    then show ?thesis using save_err [OF inv] run J_step [OF j] by auto
  next
    case None
    then obtain u c where u: "invar w'" "advances (view w) u" "u (ID a) = Some c"
        "Version c = Version a" "view w' = u(ID a \<mapsto> ?n)"
      using save_ok [OF inv run [unfolded None]] by auto
    obtain c0 where "view w (ID a) = Some c0" "order_advance a c0"
      using j assms(1) by (auto simp: J_def)
    then have "order_advance a c" using u(2,3) order_advance_trans unfolding advances_def by fastforce
    then have "c = a" using u(4) by (rule order_advance_version)
    then have "advances u (view w')"
      using u(3,5) assms(2) by (auto intro!: advances_upd simp: order_advance_def)
    then have "J v S w'" using J_step [OF j u(1)] advances_trans [OF u(2)] by blast
    then show ?thesis using u(5) by (auto simp: J_def)
  qed
qed

section \<open>Status changes and the saga\<close>

lemma weaken_known: "J v (insert b S) w \<Longrightarrow> J v S w"
  by (auto intro: J_subset)

lemma known_old: "ensures (J v S) m Q \<Longrightarrow> ensures (J v (insert b S)) m Q"
  by (blast intro: ensures_pre weaken_known)

lemma update_attempts_ensures:
  assumes "a \<in> S"
  shows "ensures (J v S) (update_attempts orc st left a)
           (\<lambda>(err, b) w. J v S w \<and> (err = None \<longrightarrow> J v (insert b S) w))"
  using assms
proof (induction left arbitrary: a S)
  case 0
  then show ?case by (auto intro!: ensures_return)
next
  case (Suc left)
  let ?Q = "\<lambda>(err, b) w. J v S w \<and> (err = None \<longrightarrow> J v (insert b S) w)"
  show ?case
  proof (cases "terminal_status (Status a) \<and> st \<noteq> Status a")
    case True
    then show ?thesis by (auto intro!: ensures_return)
  next
    case False
    have reload: "ensures (J v S) (State_Monad.bind (orders_Get orc i) (\<lambda>loaded. case loaded of
         Inl loadErr \<Rightarrow> return (Some loadErr, c)
       | Inr fresh \<Rightarrow> State_Monad.bind (time_Sleep orc d) (\<lambda>_. update_attempts orc st left fresh))) ?Q"
      for i c d
    proof (intro ensures_bind [OF get_ensures] ensures_sum)
      fix got :: "error + Order" and fresh assume got: "got = Inr fresh"
      have "ensures (J v (insert fresh S)) (update_attempts orc st left fresh) ?Q"
        by (rule ensures_post [OF Suc.IH]) (auto intro: J_subset)
      then have "ensures (J v (insert fresh S))
          (State_Monad.bind (time_Sleep orc d) (\<lambda>_. update_attempts orc st left fresh)) ?Q"
        by (blast intro: ensures_bind harmless_ensures harmless_deps)
      then show "ensures (\<lambda>w. case got of Inl e \<Rightarrow> J v S w | Inr a \<Rightarrow> ID a = i \<and> J v (insert a S) w)
          (State_Monad.bind (time_Sleep orc d) (\<lambda>_. update_attempts orc st left fresh)) ?Q"
        by (rule ensures_pre) (simp add: got)
    qed (auto intro!: ensures_return)
    have emit: "ensures (J v T) (State_Monad.bind (emitStatusEvent orc b) (\<lambda>_. return (None, b))) ?Q"
      if "T = insert b S" for b T
      using that by (auto intro!: ensures_bind [OF harmless_ensures] ensures_return intro: weaken_known)
    have "ensures (J v S) (State_Monad.bind (orders_Save orc (a\<lparr>Status := st, UpdatedAt := now\<rparr>)) (\<lambda>res.
        case res of
          None \<Rightarrow> State_Monad.bind
            (emitStatusEvent orc (a\<lparr>Status := st, UpdatedAt := now, Version := Version a + 1\<rparr>))
            (\<lambda>_. return (None, a\<lparr>Status := st, UpdatedAt := now, Version := Version a + 1\<rparr>))
        | Some err \<Rightarrow>
            if IsVersionConflict err \<and> left > 0 then State_Monad.bind (orders_Get orc i) (\<lambda>loaded.
                case loaded of
                  Inl loadErr \<Rightarrow> return (Some loadErr, c)
                | Inr fresh \<Rightarrow> State_Monad.bind (time_Sleep orc d) (\<lambda>_. update_attempts orc st left fresh))
            else return (Some err, c'))) ?Q" (is "ensures _ (State_Monad.bind _ ?k) _")
      for now i c d c'
    proof (rule ensures_bind [OF save_ensures])
      fix res :: "error option"
      let ?R = "\<lambda>w. J v S w \<and> (res = None \<longrightarrow>
        J v (insert (a\<lparr>Status := st, UpdatedAt := now, Version := Version a + 1\<rparr>) S) w)"
      show "ensures ?R (?k res) ?Q"
      proof (cases res)
        case None
        then show ?thesis by (auto intro: ensures_pre [OF emit [OF refl]])
      next
        case (Some err)
        then show ?thesis by (auto intro: ensures_pre [OF reload] intro!: ensures_return)
      qed
    qed (use Suc.prems False in auto)
    then show ?thesis
      unfolding update_attempts.simps Let_def if_not_P [OF False]
      by (intro ensures_bind [OF harmless_ensures [OF harmless_deps(6)]])
  qed
qed

lemma updateStatus_ensures:
  "a \<in> S \<Longrightarrow> ensures (J v S) (updateStatus orc a st)
     (\<lambda>(err, b) w. J v S w \<and> (err = None \<longrightarrow> J v (insert b S) w))"
  unfolding updateStatus_def
  by (auto intro!: ensures_if ensures_return update_attempts_ensures simp: insert_absorb)

text \<open>Proof rules for the code after a status change and after a harmless call.\<close>

lemma update_then:
  assumes "a \<in> S" and "\<And>e b. ensures (J v S) (k (Some e) b) Q"
    and "\<And>b. ensures (J v (insert b S)) (k None b) Q"
  shows "ensures (J v S) (State_Monad.bind (updateStatus orc a st) (\<lambda>(err, b). k err b)) Q"
proof (rule ensures_bind [OF updateStatus_ensures [OF assms(1)]], rule ensures_prod)
  fix x :: "error option \<times> Order" and err b
  assume "x = (err, b)"
  then show "ensures ((\<lambda>(err, b) w. J v S w \<and> (err = None \<longrightarrow> J v (insert b S) w)) x) (k err b) Q"
    using assms(2,3) by (cases err) (auto intro: ensures_pre)
qed

lemma then_harmless:
  "harmless m \<Longrightarrow> (\<And>a. ensures (J v S) (f a) Q) \<Longrightarrow> ensures (J v S) (State_Monad.bind m f) Q"
  by (blast intro: ensures_bind harmless_ensures)

lemmas then_dep = harmless_deps [THEN then_harmless] harmless_record [THEN then_harmless]
  harmless_publish [THEN then_harmless] harmless_emit [THEN then_harmless]
  harmless_release [THEN then_harmless]

lemma harmless_weak: "harmless m \<Longrightarrow> ensures (J v (insert b S)) m (\<lambda>_. J v S)"
  by (blast intro: known_old harmless_ensures)

lemma failOrder_ensures: "a \<in> S \<Longrightarrow> ensures (J v S) (failOrder orc a st e) (\<lambda>_. J v S)"
  unfolding failOrder_def
  by (auto intro!: then_dep update_then ensures_return intro: weaken_known)

lemma fail_then_return:
  "a \<in> S \<Longrightarrow> ensures (J v S) (State_Monad.bind (failOrder orc a st e) (\<lambda>b. return (Some e', b)))
     (\<lambda>(err, b) w. J v S w \<and> (err = None \<longrightarrow> J v (insert b S) w))"
  by (auto intro!: ensures_bind [OF failOrder_ensures] ensures_return)

lemma handleReserve_ensures:
  assumes "a \<in> S"
  shows "ensures (J v S) (handleReserve orc a)
           (\<lambda>(err, b) w. J v S w \<and> (err = None \<longrightarrow> J v (insert b S) w))"
  unfolding handleReserve_def using assms
  by (auto intro!: then_dep update_then ensures_return ensures_option fail_then_return
      intro: weaken_known)

lemma handlePayment_ensures:
  assumes "a \<in> S"
  shows "ensures (J v S) (handlePayment orc a)
           (\<lambda>(err, b) w. J v S w \<and> (err = None \<longrightarrow> J v (insert b S) w))"
  unfolding handlePayment_def using assms
  by (auto intro!: then_dep update_then ensures_return ensures_option fail_then_return
      ensures_prod ensures_if intro: weaken_known)

lemma handleConfirm_ensures:
  assumes "a \<in> S" shows "ensures (J v S) (handleConfirm orc a) (\<lambda>_. J v S)"
  unfolding handleConfirm_def using assms
  by (rule update_then) (auto intro!: harmless_weak intro: harmless_ensures)

lemma step_then:
  assumes "ensures (J v S) m (\<lambda>(err, b) w. J v S w \<and> (err = None \<longrightarrow> J v (insert b S) w))"
    and "\<And>b. ensures (J v (insert b S)) (k b) (\<lambda>_. J v (insert b S))"
  shows "ensures (J v S) (State_Monad.bind m (\<lambda>(err, b). case err of Some _ \<Rightarrow> skip | None \<Rightarrow> k b)) (\<lambda>_. J v S)"
proof (rule ensures_bind [OF assms(1)], rule ensures_prod)
  fix x :: "'e option \<times> Order" and err b
  assume "x = (err, b)"
  moreover have "ensures (J v (insert b S)) (k b) (\<lambda>_. J v S)"
    by (rule ensures_post [OF assms(2)]) (rule weaken_known)
  ultimately show "ensures ((\<lambda>(err, b) w. J v S w \<and> (err = None \<longrightarrow> J v (insert b S) w)) x)
      (case err of None \<Rightarrow> k b | Some _ \<Rightarrow> skip) (\<lambda>_. J v S)"
    by (cases err) (auto intro: ensures_pre intro!: ensures_return)
qed

lemma start_paid_ensures: "a \<in> S \<Longrightarrow> ensures (J v S) (start_paid orc a) (\<lambda>_. J v S)"
  unfolding start_paid_def by (rule handleConfirm_ensures)

lemma start_reserved_ensures: "a \<in> S \<Longrightarrow> ensures (J v S) (start_reserved orc a) (\<lambda>_. J v S)"
  unfolding start_reserved_def
  by (rule step_then [OF handlePayment_ensures]) (simp_all add: start_paid_ensures)

lemma start_pending_ensures: "a \<in> S \<Longrightarrow> ensures (J v S) (start_pending orc a) (\<lambda>_. J v S)"
  unfolding start_pending_def
  by (rule step_then [OF handleReserve_ensures]) (simp_all add: start_reserved_ensures)

lemmas start_steps = start_paid_ensures start_reserved_ensures start_pending_ensures

text \<open>Every operation starts by loading the order.\<close>

lemma load_then:
  assumes "\<And>e. ensures (J v S) (k (Inl e)) (\<lambda>_. J v S)"
    and "\<And>a. ensures (J v (insert a S)) (k (Inr a)) (\<lambda>_. J v (insert a S))"
  shows "ensures (J v S) (State_Monad.bind (orders_Get orc i) k) (\<lambda>_. J v S)"
proof (rule ensures_bind [OF get_ensures])
  fix got :: "error + Order"
  show "ensures (\<lambda>w. case got of Inl e \<Rightarrow> J v S w | Inr a \<Rightarrow> ID a = i \<and> J v (insert a S) w)
      (k got) (\<lambda>_. J v S)"
  proof (cases got)
    case (Inl e)
    then show ?thesis using assms(1) by simp
  next
    case (Inr a)
    then show ?thesis
      by (auto intro: ensures_pre [OF ensures_post [OF assms(2)]] weaken_known)
  qed
qed

lemma start_body_ensures: "ensures (J v S) (start_body orc i) (\<lambda>_. J v S)"
  unfolding start_body_def
proof (rule load_then)
  fix a
  show "ensures (J v (insert a S)) (case Inr a of Inl _ \<Rightarrow> record_metric orc RecordSagaFailed
      | Inr order \<Rightarrow> State_Monad.bind (publishSagaEvent orc EventTypeSagaStarted i
            [(''customer_id'', JStr (CustomerID order)),
             (''status'', JStr (OrderStatus_string (Status order)))])
          (\<lambda>_. case Status order of OrderStatusPending \<Rightarrow> start_pending orc order
           | OrderStatusReserved \<Rightarrow> start_reserved orc order
           | OrderStatusPaid \<Rightarrow> start_paid orc order | _ \<Rightarrow> skip)) (\<lambda>_. J v (insert a S))"
    by (cases "Status a") (auto intro!: then_dep start_steps intro: harmless_ensures)
qed (auto intro: harmless_ensures)

lemma cancel_commit_ensures: "a \<in> S \<Longrightarrow> ensures (J v S) (cancel_commit orc a reason) (\<lambda>_. J v S)"
  unfolding cancel_commit_def Let_def
  by (auto intro!: update_then then_dep harmless_weak ensures_return)

lemma cancel_body_ensures: "ensures (J v S) (cancel_body orc i reason) (\<lambda>_. J v S)"
  unfolding cancel_body_def
  by (rule load_then)
    (auto intro!: then_dep cancel_commit_ensures ensures_return ensures_if ensures_prod ensures_option
      intro: harmless_ensures)

lemma refund_commit_ensures: "a \<in> S \<Longrightarrow> ensures (J v S) (refund_commit orc a n reason) (\<lambda>_. J v S)"
  unfolding refund_commit_def Let_def
  by (auto intro!: update_then then_dep harmless_weak ensures_return)

lemma refund_body_ensures: "ensures (J v S) (refund_body orc i n reason) (\<lambda>_. J v S)"
  unfolding refund_body_def Let_def
  by (rule load_then)
    (auto intro!: then_dep refund_commit_ensures ensures_return ensures_if ensures_prod ensures_option
      intro: harmless_ensures)

text \<open>Each call of the interface is itself harmless, so it can in turn stand for a step of the others.\<close>

lemma saga_run_harmless: "harmless (saga_run orc c)"
proof -
  have "harmless (start_body orc i)" "harmless (cancel_body orc i r)" "harmless (refund_body orc i n r)" for i n r
    by (simp_all add: harmless_def start_body_ensures cancel_body_ensures refund_body_ensures)
  then show ?thesis
    by (cases c) (auto simp: Start_def Cancel_def Refund_def split: option.split)
qed

lemma saga_run_advances:
  assumes "invar w" and "run_state (saga_run orc c) w = (u, w')"
  shows "invar w' \<and> advances (view w) (view w')"
proof -
  have "J (view w) {} w" using assms(1) by (simp add: J_def)
  then have "J (view w) {} w'"
    using ensuresD [OF harmless_ensures [OF saga_run_harmless] _ assms(2)] by blast
  then show ?thesis by (simp add: J_def)
qed

end

end
