(* ===== verification/Timeline_Repository.thy ===== *)
theory Timeline_Repository
  imports Domain
begin

text \<open>
  \<open>internal/storage/memory/timeline_repository.go\<close>: the per-order event log. \<open>Append\<close> re-sorts the
  events of the order with \<open>sort.Slice\<close>, which is not stable, so the sorting function is a parameter
  and its contract is the locale \<open>slice_sort\<close>.
\<close>

type_synonym timeline_repo = "string \<rightharpoonup> TimelineEvent list"

definition NewTimelineRepository :: timeline_repo where
  "NewTimelineRepository = Map.empty"

definition timeline_events :: "timeline_repo \<Rightarrow> string \<Rightarrow> TimelineEvent list" where
  "timeline_events r i = (case r i of None \<Rightarrow> [] | Some es \<Rightarrow> es)"

definition occurred_before :: "TimelineEvent \<Rightarrow> TimelineEvent \<Rightarrow> bool" where
  "occurred_before a b \<longleftrightarrow> Occurred a < Occurred b"

definition timeline_Append ::
  "((TimelineEvent \<Rightarrow> TimelineEvent \<Rightarrow> bool) \<Rightarrow> TimelineEvent list \<Rightarrow> TimelineEvent list)
   \<Rightarrow> TimelineEvent \<Rightarrow> timeline_repo \<Rightarrow> error option \<times> timeline_repo" where
  "timeline_Append srt ev r =
     (None, r(tl_OrderID ev \<mapsto> srt occurred_before (timeline_events r (tl_OrderID ev) @ [ev])))"

definition timeline_List :: "string \<Rightarrow> timeline_repo \<Rightarrow> error + TimelineEvent list" where
  "timeline_List i r = Inr (timeline_events r i)"

text \<open>Each order's events belong to it and are in chronological order.\<close>

definition wf_timeline :: "timeline_repo \<Rightarrow> bool" where
  "wf_timeline r \<longleftrightarrow> (\<forall>i. sorted_less occurred_before (timeline_events r i)
                    \<and> (\<forall>ev \<in> set (timeline_events r i). tl_OrderID ev = i))"

lemma occurred_before_weak: "weak_order occurred_before"
  by (auto simp: weak_order_def occurred_before_def)

lemma timeline_events_upd [simp]:
  "timeline_events (r(i \<mapsto> es)) j = (if i = j then es else timeline_events r j)"
  by (simp add: timeline_events_def)

lemma sorted_less_occurred:
  "sorted_less occurred_before es \<longleftrightarrow> sorted_wrt (\<lambda>x y. Occurred x \<le> Occurred y) es"
  by (simp add: sorted_less_def occurred_before_def not_less)

section \<open>The contract of a timeline store\<close>

locale timeline_store =
  fixes append :: "TimelineEvent \<Rightarrow> 's \<Rightarrow> error option \<times> 's"
    and events :: "string \<Rightarrow> 's \<Rightarrow> error + TimelineEvent list"
    and invar :: "'s \<Rightarrow> bool"
  assumes events_total: "\<exists>es. events i s = Inr es"
    and events_sorted: "invar s \<Longrightarrow> events i s = Inr es \<Longrightarrow> sorted_less occurred_before es"
    and append_ok: "fst (append ev s) = None"
    and append_invar: "invar s \<Longrightarrow> invar (snd (append ev s))"
    and append_adds: "events (tl_OrderID ev) s = Inr es \<Longrightarrow>
      events (tl_OrderID ev) (snd (append ev s)) = Inr es' \<Longrightarrow> mset es' = add_mset ev (mset es)"
    and append_frame: "i \<noteq> tl_OrderID ev \<Longrightarrow> events i (snd (append ev s)) = events i s"
begin

text \<open>Any sequence of appends: every event of the order is listed once more than before, in
  chronological order.\<close>

lemma appends_listed:
  assumes "invar s" and "events i s = Inr es"
  shows "\<exists>es'. events i (fold (\<lambda>ev s. snd (append ev s)) evs s) = Inr es'
           \<and> mset es' = mset es + mset (filter (\<lambda>ev. tl_OrderID ev = i) evs)
           \<and> sorted_less occurred_before es'"
  using assms
proof (induction evs arbitrary: s es)
  case Nil
  then show ?case using events_sorted by simp
next
  case (Cons ev evs)
  let ?s = "snd (append ev s)"
  obtain es1 where es1: "events i ?s = Inr es1" using events_total by blast
  have "mset es1 = mset es + mset (filter (\<lambda>ev. tl_OrderID ev = i) [ev])"
    using append_adds [of ev s es es1] append_frame [of i ev s] Cons.prems(2) es1 by auto
  then show ?case
    using Cons.IH [OF append_invar [OF Cons.prems(1)] es1] by (auto simp: ac_simps)
qed

end

lemma timeline_store_memory:
  assumes "slice_sort srt"
  shows "timeline_store (timeline_Append srt) timeline_List wf_timeline"
proof -
  note facts = slice_sort.srt_perm [OF assms] slice_sort.srt_sorted [OF assms occurred_before_weak]
    slice_sort.srt_set [OF assms]
  show ?thesis
    by unfold_locales
      (auto simp: timeline_Append_def timeline_List_def wf_timeline_def facts)
qed

text \<open>With the insertion sort that Go runs on slices of up to twelve elements.\<close>

interpretation mem_timeline: timeline_store "timeline_Append sort_slice" timeline_List wf_timeline
  by (rule timeline_store_memory) (rule insertion.slice_sort_axioms)

section \<open>Properties\<close>

text \<open>Whatever correct sorting \<open>sort.Slice\<close> performs, after any sequence of appends
  \<open>List\<close> returns exactly the events appended for that order, none lost and none duplicated, in
  chronological order.\<close>

theorem timeline_List_after_appends:
  assumes "slice_sort srt"
  shows "\<exists>es. timeline_List i (fold (\<lambda>ev r. snd (timeline_Append srt ev r)) evs NewTimelineRepository)
              = Inr es
           \<and> mset es = mset (filter (\<lambda>ev. tl_OrderID ev = i) evs)
           \<and> sorted_wrt (\<lambda>x y. Occurred x \<le> Occurred y) es"
proof -
  have "wf_timeline NewTimelineRepository"
    by (simp add: wf_timeline_def timeline_events_def NewTimelineRepository_def)
  moreover have "timeline_List i NewTimelineRepository = Inr []"
    by (simp add: timeline_List_def timeline_events_def NewTimelineRepository_def)
  ultimately show ?thesis
    using timeline_store.appends_listed [OF timeline_store_memory [OF assms], of _ i "[]" evs]
    by (simp add: sorted_less_occurred)
qed

theorem timeline_List_after_appends_witness:
  "\<exists>es. timeline_List ''o1'' (fold (\<lambda>ev r. snd (timeline_Append sort_slice ev r))
         [\<lparr>tl_OrderID = ''o1'', Type = ''OrderStatusChanged'', Reason = ''paid'', Occurred = 7\<rparr>,
          \<lparr>tl_OrderID = ''o1'', Type = ''OrderStatusChanged'', Reason = ''reserved'', Occurred = 3\<rparr>]
         NewTimelineRepository) = Inr es
       \<and> mset es =
         {#\<lparr>tl_OrderID = ''o1'', Type = ''OrderStatusChanged'', Reason = ''paid'', Occurred = 7\<rparr>,
           \<lparr>tl_OrderID = ''o1'', Type = ''OrderStatusChanged'', Reason = ''reserved'', Occurred = 3\<rparr>#}
       \<and> sorted_wrt (\<lambda>x y. Occurred x \<le> Occurred y) es"
  using timeline_List_after_appends [OF insertion.slice_sort_axioms, of "''o1''"
      "[\<lparr>tl_OrderID = ''o1'', Type = ''OrderStatusChanged'', Reason = ''paid'', Occurred = 7\<rparr>,
        \<lparr>tl_OrderID = ''o1'', Type = ''OrderStatusChanged'', Reason = ''reserved'', Occurred = 3\<rparr>]"]
  by (simp del: fold.simps)

end
