(* ===== verification/Outbox_Repository.thy ===== *)
theory Outbox_Repository
  imports Domain
begin

text \<open>
  \<open>internal/storage/memory/outbox_repository.go\<close>: the transactional outbox. A record is claimed by
  \<open>PullPending\<close> (status \<open>processing\<close>, with a lease of two minutes), then marked sent or failed. The
  arguments \<open>now\<close>, \<open>newid\<close> and \<open>ks\<close> are what \<open>time.Now\<close>, \<open>uuid.NewString\<close> and the iteration over
  the Go map yield in that call. \<open>PullPending\<close> allocates its result with the limit as capacity, which panics for a
  limit beyond what memory can hold; the model has no such bound.
\<close>

datatype OutboxStatus = OutboxPending | OutboxProcessing | OutboxSent | OutboxFailed

record outboxRecord =
  msg :: OutboxMessage
  status :: OutboxStatus
  attemptCnt :: int
  createdAt :: gotime
  updatedAt :: gotime

type_synonym outbox_repo = "string \<rightharpoonup> outboxRecord"

definition outboxProcessingLease :: duration where
  "outboxProcessingLease = 2 * minute"

definition NewOutboxRepository :: outbox_repo where
  "NewOutboxRepository = Map.empty"

definition outbox_Enqueue ::
  "string \<Rightarrow> gotime \<Rightarrow> OutboxMessage \<Rightarrow> outbox_repo \<Rightarrow> (error + OutboxMessage) \<times> outbox_repo" where
  "outbox_Enqueue newid now m r =
     (let m' = (if msg_ID m = [] then m\<lparr>msg_ID := newid\<rparr> else m)
      in (Inr m', r(msg_ID m' \<mapsto>
            \<lparr>msg = m', status = OutboxPending, attemptCnt = 0, createdAt = now, updatedAt = now\<rparr>)))"

definition created_of :: "outbox_repo \<Rightarrow> string \<Rightarrow> gotime" where
  "created_of r i = (case r i of None \<Rightarrow> 0 | Some rec \<Rightarrow> createdAt rec)"

definition outbox_before :: "outbox_repo \<Rightarrow> string \<Rightarrow> string \<Rightarrow> bool" where
  "outbox_before r a b =
     (if created_of r a \<noteq> created_of r b then created_of r a < created_of r b else a < b)"

definition claimable :: "gotime \<Rightarrow> outboxRecord \<Rightarrow> bool" where
  "claimable now rec \<longleftrightarrow>
     \<not> (status rec \<noteq> OutboxPending
        \<and> (status rec \<noteq> OutboxProcessing \<or> updatedAt rec > now - outboxProcessingLease))"

fun pull_loop ::
  "gotime \<Rightarrow> int \<Rightarrow> string list \<Rightarrow> OutboxMessage list \<Rightarrow> outbox_repo \<Rightarrow> OutboxMessage list \<times> outbox_repo"
where
  "pull_loop now limit [] result r = (result, r)"
| "pull_loop now limit (i # ids) result r =
     (case r i of
        None \<Rightarrow> pull_loop now limit ids result r
      | Some rec \<Rightarrow>
          if \<not> claimable now rec then pull_loop now limit ids result r
          else let r' = r(i \<mapsto> rec\<lparr>status := OutboxProcessing, updatedAt := now\<rparr>);
                   result' = result @ [msg rec]
               in if int (length result') \<ge> limit then (result', r')
                  else pull_loop now limit ids result' r')"

definition outbox_PullPending ::
  "gotime \<Rightarrow> string list \<Rightarrow> int \<Rightarrow> outbox_repo \<Rightarrow> (error + OutboxMessage list) \<times> outbox_repo" where
  "outbox_PullPending now ks limit r =
     (let limit' = (if limit \<le> 0 then 100 else limit);
          (result, r') = pull_loop now limit' (sort_slice (outbox_before r) ks) [] r
      in (Inr result, r'))"

fun stats_loop :: "outboxRecord list \<Rightarrow> OutboxStats \<Rightarrow> OutboxStats" where
  "stats_loop [] stats = stats"
| "stats_loop (rec # recs) stats =
     stats_loop recs
       (if status rec \<noteq> OutboxPending \<and> status rec \<noteq> OutboxProcessing then stats
        else stats\<lparr>PendingCount := PendingCount stats + 1,
                   OldestPendingAt := (if IsZero (OldestPendingAt stats)
                                          \<or> createdAt rec < OldestPendingAt stats
                                       then createdAt rec else OldestPendingAt stats)\<rparr>)"

definition outbox_Stats :: "string list \<Rightarrow> outbox_repo \<Rightarrow> error + OutboxStats" where
  "outbox_Stats ks r = Inr (stats_loop (range_vals r ks) \<lparr>PendingCount = 0, OldestPendingAt = 0\<rparr>)"

definition outbox_mark ::
  "OutboxStatus \<Rightarrow> gotime \<Rightarrow> string \<Rightarrow> outbox_repo \<Rightarrow> error option \<times> outbox_repo" where
  "outbox_mark st now i r =
     (case r i of
        None \<Rightarrow> (Some (E ErrOutboxPublish), r)
      | Some rec \<Rightarrow>
          (None, r(i \<mapsto> rec\<lparr>status := st, attemptCnt := attemptCnt rec + 1, updatedAt := now\<rparr>)))"

definition outbox_MarkSent :: "gotime \<Rightarrow> string \<Rightarrow> outbox_repo \<Rightarrow> error option \<times> outbox_repo" where
  "outbox_MarkSent = outbox_mark OutboxSent"

definition outbox_MarkFailed :: "gotime \<Rightarrow> string \<Rightarrow> outbox_repo \<Rightarrow> error option \<times> outbox_repo" where
  "outbox_MarkFailed = outbox_mark OutboxFailed"

definition outbox_AllPending :: "string list \<Rightarrow> outbox_repo \<Rightarrow> OutboxMessage list" where
  "outbox_AllPending ks r = map msg (filter (\<lambda>rec. status rec = OutboxPending) (range_vals r ks))"

text \<open>Every record is stored under the identifier of its message.\<close>

definition wf_outbox :: "outbox_repo \<Rightarrow> bool" where
  "wf_outbox r \<longleftrightarrow> (\<forall>i rec. r i = Some rec \<longrightarrow> msg_ID (msg rec) = i)"

definition outbox_status :: "outbox_repo \<Rightarrow> string \<Rightarrow> OutboxStatus option" where
  "outbox_status r i = map_option status (r i)"

section \<open>What PullPending selects\<close>

text \<open>Reference definition: the claimable identifiers in creation order, cut at the limit, and the
  store in which exactly those are claimed.\<close>

definition claim_ids :: "gotime \<Rightarrow> string list \<Rightarrow> outbox_repo \<Rightarrow> outbox_repo" where
  "claim_ids now sel r =
     (\<lambda>i. if i \<in> set sel
          then map_option (\<lambda>rec. rec\<lparr>status := OutboxProcessing, updatedAt := now\<rparr>) (r i) else r i)"

definition id_claimable :: "gotime \<Rightarrow> outbox_repo \<Rightarrow> string \<Rightarrow> bool" where
  "id_claimable now r i \<longleftrightarrow> (case r i of None \<Rightarrow> False | Some rec \<Rightarrow> claimable now rec)"

lemma claim_ids_Nil [simp]: "claim_ids now [] r = r"
  by (simp add: claim_ids_def)

lemma claim_ids_Cons:
  "i \<notin> set sel \<Longrightarrow> r i = Some rec \<Longrightarrow>
   claim_ids now sel (r(i \<mapsto> rec\<lparr>status := OutboxProcessing, updatedAt := now\<rparr>))
     = claim_ids now (i # sel) r"
  by (auto simp: claim_ids_def)

lemma pull_loop_eq:
  assumes "distinct ids" and "int (length acc) < limit"
  shows "pull_loop now limit ids acc r =
     (let sel = take (nat limit - length acc) (filter (id_claimable now r) ids)
      in (acc @ map msg (range_vals r sel), claim_ids now sel r))"
  using assms
proof (induction now limit ids acc r rule: pull_loop.induct)
  case (1 now limit result r)
  then show ?case by simp
next
  case (2 now limit i ids result r)
  show ?case
  proof (cases "r i")
    case None
    with 2 show ?thesis by (simp add: id_claimable_def)
  next
    case (Some rec)
    show ?thesis
    proof (cases "claimable now rec")
      case False
      with 2 Some show ?thesis by (simp add: id_claimable_def)
    next
      case True
      let ?r' = "r(i \<mapsto> rec\<lparr>status := OutboxProcessing, updatedAt := now\<rparr>)"
      have ic: "id_claimable now r i" using Some True by (simp add: id_claimable_def)
      have f: "filter (id_claimable now ?r') ids = filter (id_claimable now r) ids"
        using "2.prems"(1) by (intro filter_cong) (auto simp: id_claimable_def)
      have v: "range_vals ?r' (take k (filter (id_claimable now r) ids))
             = range_vals r (take k (filter (id_claimable now r) ids))" for k
        using "2.prems"(1) by (intro range_vals_cong) (auto dest!: in_set_takeD)
      have d: "nat limit - length result = Suc (nat limit - Suc (length result))"
        using "2.prems"(2) by linarith
      show ?thesis
      proof (cases "int (length result) + 1 \<ge> limit")
        case True
        then have "nat limit - Suc (length result) = 0" by linarith
        with True Some \<open>claimable now rec\<close> ic d show ?thesis
          by (simp add: claim_ids_Cons [where sel = "[]", symmetric])
      next
        case False
        have "i \<notin> set (take k (filter (id_claimable now r) ids))" for k
          using "2.prems"(1) by (auto dest: in_set_takeD)
        note cc = claim_ids_Cons [where r = r and i = i, OF this Some, symmetric]
        have "pull_loop now limit ids (result @ [msg rec]) ?r' =
          (let sel = take (nat limit - length (result @ [msg rec])) (filter (id_claimable now ?r') ids)
           in ((result @ [msg rec]) @ map msg (range_vals ?r' sel), claim_ids now sel ?r'))"
          using False True Some "2.prems" by (intro "2.IH"(3)) auto
        with False Some True ic d show ?thesis by (simp add: f v cc Let_def)
      qed
    qed
  qed
qed

text \<open>The identifiers a pull selects.\<close>

definition pull_selection :: "gotime \<Rightarrow> string list \<Rightarrow> int \<Rightarrow> outbox_repo \<Rightarrow> string list" where
  "pull_selection now ks limit r =
     take (nat (if limit \<le> 0 then 100 else limit))
       (filter (id_claimable now r) (sort_slice (outbox_before r) ks))"

lemma outbox_PullPending_eq:
  assumes "range_order r ks"
  shows "outbox_PullPending now ks limit r =
     (Inr (map msg (range_vals r (pull_selection now ks limit r))),
      claim_ids now (pull_selection now ks limit r) r)"
proof -
  have "distinct (sort_slice (outbox_before r) ks)"
    using assms by (metis range_order_def insertion.srt_perm mset_eq_imp_distinct_iff)
  then show ?thesis
    by (simp add: outbox_PullPending_def pull_loop_eq pull_selection_def Let_def)
qed

lemma outbox_before_weak: "weak_order (outbox_before r)"
  by (auto simp: weak_order_def outbox_before_def split: if_splits)

lemma outbox_before_total: "a \<noteq> b \<Longrightarrow> outbox_before r a b \<or> outbox_before r b a"
  by (auto simp: outbox_before_def)

lemma pull_selection_unique:
  assumes "range_order r ks" and "range_order r ks'"
  shows "pull_selection now ks' limit r = pull_selection now ks limit r"
proof -
  have "sort_slice (outbox_before r) ks' = sort_slice (outbox_before r) ks"
  proof (rule insertion.srt_unique [OF outbox_before_weak])
    show "sorted_less (outbox_before r) (sort_slice (outbox_before r) ks)"
      by (rule insertion.srt_sorted [OF outbox_before_weak])
    show "mset (sort_slice (outbox_before r) ks) = mset ks'"
      using range_order_perm [OF assms] by (simp add: insertion.srt_perm)
  qed (rule outbox_before_total)
  then show ?thesis by (simp add: pull_selection_def)
qed

lemma pull_selection_set:
  assumes "range_order r ks"
  shows "distinct (pull_selection now ks limit r)"
    and "i \<in> set (pull_selection now ks limit r) \<Longrightarrow> id_claimable now r i"
    and "sorted_less (outbox_before r) (pull_selection now ks limit r)"
    and "length (pull_selection now ks limit r) \<le> nat (if limit \<le> 0 then 100 else limit)"
proof -
  let ?s = "sort_slice (outbox_before r) ks"
  have "distinct ?s"
    using assms by (metis range_order_def insertion.srt_perm mset_eq_imp_distinct_iff)
  then show "distinct (pull_selection now ks limit r)" by (simp add: pull_selection_def)
  show "i \<in> set (pull_selection now ks limit r) \<Longrightarrow> id_claimable now r i"
    by (auto simp: pull_selection_def dest!: in_set_takeD)
  show "sorted_less (outbox_before r) (pull_selection now ks limit r)"
    using insertion.srt_sorted [OF outbox_before_weak, of r ks]
    by (simp add: pull_selection_def sorted_less_def sorted_wrt_take sorted_wrt_filter)
  show "length (pull_selection now ks limit r) \<le> nat (if limit \<le> 0 then 100 else limit)"
    by (simp add: pull_selection_def)
qed

lemma pull_selection_sorted:
  assumes "range_order r ks"
  shows "sorted_wrt (outbox_before r) (pull_selection now ks limit r)"
proof -
  have "sorted_wrt (outbox_before r) xs" if "sorted_less (outbox_before r) xs" "distinct xs" for xs
    using that by (induction xs) (auto simp: sorted_less_def, metis outbox_before_total)
  then show ?thesis using pull_selection_set(1,3) [OF assms] by blast
qed

lemma pull_selection_omits:
  assumes "range_order r ks" and "id_claimable now r i" and "i \<notin> set (pull_selection now ks limit r)"
  shows "length (pull_selection now ks limit r) = nat (if limit \<le> 0 then 100 else limit)"
    and "\<forall>j \<in> set (pull_selection now ks limit r). outbox_before r j i"
proof -
  let ?n = "nat (if limit \<le> 0 then 100 else limit)"
  let ?f = "filter (id_claimable now r) (sort_slice (outbox_before r) ks)"
  have "i \<in> set ?f"
    using assms(1,2) by (auto simp: insertion.srt_set range_order_def id_claimable_def split: option.splits)
  moreover have split: "?f = take ?n ?f @ drop ?n ?f" by simp
  ultimately have dr: "i \<in> set (drop ?n ?f)"
    using assms(3) unfolding pull_selection_def by (metis Un_iff set_append)
  then have "?n < length ?f" by (metis drop_all empty_iff list.set(1) not_le)
  then show "length (pull_selection now ks limit r) = ?n" by (simp add: pull_selection_def)
  have "sorted_wrt (\<lambda>x y. \<not> outbox_before r y x) (take ?n ?f @ drop ?n ?f)"
    using insertion.srt_sorted [OF outbox_before_weak, of r ks]
    by (simp add: sorted_less_def sorted_wrt_filter)
  with dr have "\<forall>j \<in> set (take ?n ?f). \<not> outbox_before r i j" unfolding sorted_wrt_append by blast
  then show "\<forall>j \<in> set (pull_selection now ks limit r). outbox_before r j i"
    using assms(3) outbox_before_total unfolding pull_selection_def by metis
qed

lemma range_vals_selection:
  assumes "range_order r ks"
  shows "map Some (range_vals r (pull_selection now ks limit r)) = map r (pull_selection now ks limit r)"
proof -
  have "map Some (range_vals r sel) = map r sel" if "\<forall>i \<in> set sel. id_claimable now r i" for sel
    using that by (induction sel) (auto simp: id_claimable_def split: option.splits)
  then show ?thesis using pull_selection_set(2) [OF assms] by blast
qed

lemma selection_ids:
  assumes "wf_outbox r" and "\<forall>i \<in> set sel. id_claimable now r i"
  shows "map msg_ID (map msg (range_vals r sel)) = sel"
  using assms(2)
proof (induction sel)
  case (Cons i sel)
  then obtain rec where "r i = Some rec" by (auto simp: id_claimable_def split: option.splits)
  with Cons assms(1) show ?case by (auto simp: wf_outbox_def)
qed simp

lemma pulled_ids:
  assumes "wf_outbox r" and "range_order r ks"
  shows "map msg_ID (map msg (range_vals r (pull_selection now ks limit r))) = pull_selection now ks limit r"
  using assms pull_selection_set(2) by (intro selection_ids) auto

lemma claim_ids_wf [simp]: "wf_outbox r \<Longrightarrow> wf_outbox (claim_ids now sel r)"
  by (auto simp: wf_outbox_def claim_ids_def split: if_splits)

lemma wf_outbox_ops:
  "wf_outbox NewOutboxRepository"
  "wf_outbox r \<Longrightarrow> wf_outbox (snd (outbox_Enqueue newid now m r))"
  "wf_outbox r \<Longrightarrow> wf_outbox (snd (outbox_mark st now i r))"
  by (auto simp: wf_outbox_def NewOutboxRepository_def outbox_Enqueue_def outbox_mark_def Let_def
      split: option.splits if_splits)

text \<open>Claiming writes a lease that ends after \<open>outboxProcessingLease\<close>.\<close>

lemma claimed_claimable:
  assumes "i \<in> set sel" and "r i = Some rec"
  shows "id_claimable now2 (claim_ids now1 sel r) i \<longleftrightarrow> now1 + outboxProcessingLease \<le> now2"
  using assms by (auto simp: id_claimable_def claim_ids_def claimable_def)

section \<open>Properties\<close>

text \<open>C5. \<open>PullPending\<close> hands out at most \<open>limit\<close> (100 when not positive) distinct messages
  that are pending or whose lease has run out, in the order of their creation (identifiers decide between
  equal times), claims exactly those (status processing, lease renewed), leaves every other record unchanged, omits a claimable record only when the limit is reached and all
  returned ones were created before it, and does not depend on the iteration order of the Go map.\<close>

theorem PullPending_correct:
  fixes limit :: int
  defines "n \<equiv> nat (if limit \<le> 0 then 100 else limit)"
  assumes "wf_outbox r" and "range_order r ks"
  shows "\<exists>ms r'. outbox_PullPending now ks limit r = (Inr ms, r')
     \<and> distinct (map msg_ID ms) \<and> length ms \<le> n
     \<and> sorted_wrt (\<lambda>a b. outbox_before r (msg_ID a) (msg_ID b)) ms
     \<and> (\<forall>m \<in> set ms. \<exists>rec. r (msg_ID m) = Some rec \<and> msg rec = m \<and> claimable now rec
           \<and> r' (msg_ID m) = Some (rec\<lparr>status := OutboxProcessing, updatedAt := now\<rparr>))
     \<and> (\<forall>i. i \<notin> msg_ID ` set ms \<longrightarrow> r' i = r i)
     \<and> (\<forall>i. id_claimable now r i \<and> i \<notin> msg_ID ` set ms \<longrightarrow>
           length ms = n \<and> (\<forall>m \<in> set ms. outbox_before r (msg_ID m) i))
     \<and> (\<forall>ks'. range_order r ks' \<longrightarrow> outbox_PullPending now ks' limit r = (Inr ms, r'))"
proof -
  let ?sel = "pull_selection now ks limit r"
  let ?ms = "map msg (range_vals r ?sel)"
  let ?r' = "claim_ids now ?sel r"
  have ids: "map msg_ID ?ms = ?sel" by (rule pulled_ids [OF assms(2,3)])
  then have sel: "msg_ID ` set ?ms = set ?sel" by (metis list.set_map)
  have len: "length ?ms = length ?sel" using ids by (metis length_map)
  have each: "\<exists>rec. r (msg_ID m) = Some rec \<and> msg rec = m \<and> claimable now rec
      \<and> ?r' (msg_ID m) = Some (rec\<lparr>status := OutboxProcessing, updatedAt := now\<rparr>)"
    if "m \<in> set ?ms" for m
  proof -
    from that obtain i rec where i: "i \<in> set ?sel" "r i = Some rec" "m = msg rec"
      by (auto simp: set_range_vals)
    moreover from this have "msg_ID m = i" using assms(2) by (simp add: wf_outbox_def)
    moreover have "claimable now rec"
      using pull_selection_set(2) [OF assms(3) i(1)] i(2) by (simp add: id_claimable_def)
    ultimately show ?thesis by (simp add: claim_ids_def)
  qed
  have "distinct (map msg_ID ?ms)" using ids pull_selection_set(1) [OF assms(3)] by simp
  moreover have "sorted_wrt (\<lambda>a b. outbox_before r (msg_ID a) (msg_ID b)) ?ms"
    using pull_selection_sorted [OF assms(3)] ids by (metis sorted_wrt_map)
  moreover have "length ?ms \<le> n" using len pull_selection_set(4) [OF assms(3)] by (simp add: n_def)
  moreover have "\<forall>i. i \<notin> msg_ID ` set ?ms \<longrightarrow> ?r' i = r i" unfolding sel by (simp add: claim_ids_def)
  moreover have "\<forall>i. id_claimable now r i \<and> i \<notin> msg_ID ` set ?ms \<longrightarrow>
      length ?ms = n \<and> (\<forall>m \<in> set ?ms. outbox_before r (msg_ID m) i)"
  proof (intro allI impI)
    fix i assume "id_claimable now r i \<and> i \<notin> msg_ID ` set ?ms"
    then have "id_claimable now r i" and "i \<notin> set ?sel" using sel by simp_all
    from pull_selection_omits [OF assms(3) this] show
      "length ?ms = n \<and> (\<forall>m \<in> set ?ms. outbox_before r (msg_ID m) i)"
      using len sel by (auto simp: n_def)
  qed
  moreover have "\<forall>ks'. range_order r ks' \<longrightarrow> outbox_PullPending now ks' limit r = (Inr ?ms, ?r')"
    using outbox_PullPending_eq pull_selection_unique [OF assms(3)] by metis
  ultimately show ?thesis
    using each outbox_PullPending_eq [OF assms(3), of now limit] by blast
qed

definition example_message :: "string \<Rightarrow> OutboxMessage" where
  "example_message i = \<lparr>msg_ID = i, AggregateType = ''order'', AggregateID = ''o1'',
     EventType = ''OrderStatusChanged'', Payload = ''{}''\<rparr>"

definition example_outbox :: outbox_repo where
  "example_outbox = snd (outbox_Enqueue ''u1'' 5 (example_message ''m1'') NewOutboxRepository)"

lemma example_outbox_facts:
  "wf_outbox example_outbox" "range_order example_outbox [''m1'']"
  by (simp_all add: example_outbox_def wf_outbox_def range_order_def outbox_Enqueue_def Let_def
      example_message_def NewOutboxRepository_def)

theorem PullPending_correct_witness:
  "\<exists>ms r'. outbox_PullPending 9 [''m1''] 10 example_outbox = (Inr ms, r') \<and> length ms \<le> 10"
proof -
  from PullPending_correct [OF example_outbox_facts, of 9 10]
  obtain ms r' where "outbox_PullPending 9 [''m1''] 10 example_outbox = (Inr ms, r')"
    and "length ms \<le> nat (if (10 :: int) \<le> 0 then 100 else 10)" by blast
  then show ?thesis by auto
qed

section \<open>Leases\<close>

text \<open>The calls that write the outbox, with what the clock, the generator of identifiers and the iteration over the
  map yield in them, and their effect. Any sequence of such calls may lie between two pulls.\<close>

datatype outbox_write =
    Enqueue_at string gotime OutboxMessage
  | Pull_at gotime "string list" int
  | Sent_at gotime string
  | Failed_at gotime string

fun outbox_effect :: "outbox_write \<Rightarrow> outbox_repo \<Rightarrow> outbox_repo" where
  "outbox_effect (Enqueue_at newid now m) r = snd (outbox_Enqueue newid now m r)"
| "outbox_effect (Pull_at now ks limit) r = snd (outbox_PullPending now ks limit r)"
| "outbox_effect (Sent_at now i) r = snd (outbox_MarkSent now i r)"
| "outbox_effect (Failed_at now i) r = snd (outbox_MarkFailed now i r)"

inductive outbox_writes :: "outbox_write list \<Rightarrow> outbox_repo \<Rightarrow> outbox_repo \<Rightarrow> bool" where
  none: "outbox_writes [] r r"
| one: "(case c of Pull_at now ks limit \<Rightarrow> range_order r ks | _ \<Rightarrow> True) \<Longrightarrow>
    outbox_writes cs (outbox_effect c r) r' \<Longrightarrow> outbox_writes (c # cs) r r'"

fun enqueues :: "string \<Rightarrow> outbox_write \<Rightarrow> bool" where
  "enqueues i (Enqueue_at newid now m) \<longleftrightarrow> i = (if msg_ID m = [] then newid else msg_ID m)"
| "enqueues i c \<longleftrightarrow> False"

fun marks :: "string \<Rightarrow> outbox_write \<Rightarrow> bool" where
  "marks i (Sent_at now j) \<longleftrightarrow> i = j"
| "marks i (Failed_at now j) \<longleftrightarrow> i = j"
| "marks i c \<longleftrightarrow> False"

text \<open>No pull takes a new lease on a message claimed at \<open>t\<close> that still runs at \<open>e\<close>.\<close>

fun lapsed :: "gotime \<Rightarrow> gotime \<Rightarrow> outbox_write \<Rightarrow> bool" where
  "lapsed t e (Pull_at now ks limit) \<longleftrightarrow>
     now < t + outboxProcessingLease \<or> now + outboxProcessingLease \<le> e"
| "lapsed t e c \<longleftrightarrow> True"

text \<open>A record under a lease taken at \<open>t\<close> or later, or settled.\<close>

definition leased_since :: "gotime \<Rightarrow> outboxRecord \<Rightarrow> bool" where
  "leased_since t rec \<longleftrightarrow>
     status rec \<noteq> OutboxPending \<and> (status rec = OutboxProcessing \<longrightarrow> t \<le> updatedAt rec)"

lemma claim_ids_at:
  "range_order r ks \<Longrightarrow> snd (outbox_PullPending now ks limit r) i
     = (if i \<in> set (pull_selection now ks limit r)
        then map_option (\<lambda>rec. rec\<lparr>status := OutboxProcessing, updatedAt := now\<rparr>) (r i) else r i)"
  by (simp add: outbox_PullPending_eq claim_ids_def)

lemma leased_not_claimable:
  "leased_since t rec \<Longrightarrow> now < t + outboxProcessingLease \<Longrightarrow> \<not> claimable now rec"
  by (auto simp: leased_since_def claimable_def)

lemma pulled_claimable:
  "range_order r ks \<Longrightarrow> r i = Some rec \<Longrightarrow> i \<in> set (pull_selection now ks limit r) \<Longrightarrow> claimable now rec"
  using pull_selection_set(2) by (fastforce simp: id_claimable_def)

lemma outboxProcessingLease_pos: "0 < outboxProcessingLease"
  by (simp add: outboxProcessingLease_def)

lemma outbox_effect_leased:
  assumes "r i = Some rec" and "leased_since t rec" and "\<not> enqueues i c"
    and "case c of Pull_at now ks limit \<Rightarrow> range_order r ks | _ \<Rightarrow> True"
  shows "\<exists>rec'. outbox_effect c r i = Some rec' \<and> leased_since t rec'"
proof (cases c)
  case (Pull_at now ks limit)
  then have ks: "range_order r ks" using assms(4) by simp
  have "t \<le> now" if "i \<in> set (pull_selection now ks limit r)"
    using pulled_claimable [OF ks assms(1) that] leased_not_claimable [OF assms(2)] outboxProcessingLease_pos
    by (meson add_increasing2 less_imp_le not_le order.trans)
  then show ?thesis using assms(1,2) Pull_at claim_ids_at [OF ks, of now limit i] by (auto simp: leased_since_def)
qed (use assms in \<open>auto simp: outbox_Enqueue_def outbox_MarkSent_def outbox_MarkFailed_def outbox_mark_def
      leased_since_def Let_def split: option.splits if_splits\<close>)

lemma outbox_writes_leased:
  assumes "outbox_writes cs r r'" and "r i = Some rec" and "leased_since t rec" and "\<forall>c \<in> set cs. \<not> enqueues i c"
  shows "\<exists>rec'. r' i = Some rec' \<and> leased_since t rec'"
  using assms
proof (induction arbitrary: rec rule: outbox_writes.induct)
  case (one c r cs r')
  from outbox_effect_leased [OF one.prems(1,2) _ one.hyps(1)] one.prems(3) obtain rec' where
    "outbox_effect c r i = Some rec'" "leased_since t rec'" by auto
  then show ?case using one.IH one.prems(3) by auto
qed auto

text \<open>A record in processing whose lease was taken at \<open>t\<close> or later and has run out at \<open>e\<close>.\<close>

definition lease_over :: "gotime \<Rightarrow> gotime \<Rightarrow> outboxRecord \<Rightarrow> bool" where
  "lease_over t e rec \<longleftrightarrow> status rec = OutboxProcessing \<and> t \<le> updatedAt rec
     \<and> updatedAt rec + outboxProcessingLease \<le> e"

lemma outbox_effect_lease_over:
  assumes "r i = Some rec" and "lease_over t e rec" and "\<not> enqueues i c" and "\<not> marks i c" and "lapsed t e c"
    and "case c of Pull_at now ks limit \<Rightarrow> range_order r ks | _ \<Rightarrow> True"
  shows "\<exists>rec'. outbox_effect c r i = Some rec' \<and> lease_over t e rec'"
proof (cases c)
  case (Pull_at now ks limit)
  then have ks: "range_order r ks" using assms(6) by simp
  have "t \<le> now \<and> now + outboxProcessingLease \<le> e" if "i \<in> set (pull_selection now ks limit r)"
    using pulled_claimable [OF ks assms(1) that] assms(2,5) Pull_at outboxProcessingLease_pos
    by (auto simp: lease_over_def claimable_def)
  then show ?thesis using assms(1,2) Pull_at claim_ids_at [OF ks, of now limit i] by (auto simp: lease_over_def)
qed (use assms in \<open>auto simp: outbox_Enqueue_def outbox_MarkSent_def outbox_MarkFailed_def outbox_mark_def
      lease_over_def Let_def split: option.splits if_splits\<close>)

lemma outbox_writes_lease_over:
  assumes "outbox_writes cs r r'" and "r i = Some rec" and "lease_over t e rec"
    and "\<forall>c \<in> set cs. \<not> enqueues i c" and "\<forall>c \<in> set cs. \<not> marks i c \<and> lapsed t e c"
  shows "\<exists>rec'. r' i = Some rec' \<and> lease_over t e rec'"
  using assms
proof (induction arbitrary: rec rule: outbox_writes.induct)
  case (one c r cs r')
  from outbox_effect_lease_over [OF one.prems(1,2) _ _ _ one.hyps(1)] one.prems(3,4) obtain rec' where
    "outbox_effect c r i = Some rec'" "lease_over t e rec'" by auto
  then show ?case using one.IH one.prems(3,4) by auto
qed auto

lemma outbox_writes_wf: "outbox_writes cs r r' \<Longrightarrow> wf_outbox r \<Longrightarrow> wf_outbox r'"
proof (induction rule: outbox_writes.induct)
  case (one c r cs r')
  have "wf_outbox (outbox_effect c r)"
    using one.hyps(1) one.prems wf_outbox_ops
    by (cases c) (auto simp: outbox_PullPending_eq outbox_MarkSent_def outbox_MarkFailed_def)
  then show ?case by (rule one.IH)
qed

lemma pulled_record:
  assumes "wf_outbox r" and "range_order r ks" and "outbox_PullPending now ks limit r = (Inr ms, r')" and "m \<in> set ms"
  shows "\<exists>rec. r (msg_ID m) = Some rec \<and> claimable now rec
    \<and> r' (msg_ID m) = Some (rec\<lparr>status := OutboxProcessing, updatedAt := now\<rparr>)"
proof -
  let ?sel = "pull_selection now ks limit r"
  have ms: "ms = map msg (range_vals r ?sel)" and r': "r' = claim_ids now ?sel r"
    using assms(2,3) outbox_PullPending_eq by simp_all
  have "msg_ID m \<in> set ?sel" using pulled_ids [OF assms(1,2)] assms(4) ms by (metis image_eqI list.set_map)
  with pull_selection_set(2) [OF assms(2) this] show ?thesis
    by (auto simp: r' claim_ids_def id_claimable_def split: option.splits)
qed

text \<open>C6. Exclusive lease: let a \<open>PullPending\<close> hand out a message, and let any calls of the repository follow (other
  pulls, marks, messages put in; only this identifier is not put in again, which would replace the record by a pending
  one). A later pull before the two-minute lease ends does not hand the message out again. Once the lease has run out
  and the message was not marked (and no pull has taken a new lease that still runs), it is claimable again, so that a
  crashed worker does not lose it.\<close>

theorem PullPending_lease:
  assumes "wf_outbox r" and "range_order r ks1"
    and "outbox_PullPending now1 ks1 limit1 r = (Inr ms1, r1)" and "m \<in> set ms1"
    and "outbox_writes cs r1 r2" and "\<forall>c \<in> set cs. \<not> enqueues (msg_ID m) c"
    and "range_order r2 ks2" and "outbox_PullPending now2 ks2 limit2 r2 = (Inr ms2, r3)"
  shows "(now2 < now1 + outboxProcessingLease \<longrightarrow> msg_ID m \<notin> msg_ID ` set ms2)
    \<and> (now1 + outboxProcessingLease \<le> now2 \<and> (\<forall>c \<in> set cs. \<not> marks (msg_ID m) c \<and> lapsed now1 now2 c)
        \<longrightarrow> id_claimable now2 r2 (msg_ID m))"
proof (intro conjI impI)
  from pulled_record [OF assms(1-4)] obtain rec where
    rec: "r1 (msg_ID m) = Some (rec\<lparr>status := OutboxProcessing, updatedAt := now1\<rparr>)" by blast
  have "wf_outbox r1" using assms(1,3) outbox_PullPending_eq [OF assms(2)] by auto
  then have wf2: "wf_outbox r2" using outbox_writes_wf [OF assms(5)] by blast
  show "msg_ID m \<notin> msg_ID ` set ms2" if early: "now2 < now1 + outboxProcessingLease"
  proof
    assume "msg_ID m \<in> msg_ID ` set ms2"
    then obtain m2 where "m2 \<in> set ms2" "msg_ID m2 = msg_ID m" by auto
    then obtain rec2 where "r2 (msg_ID m) = Some rec2" "claimable now2 rec2"
      using pulled_record [OF wf2 assms(7,8)] by metis
    moreover from outbox_writes_leased [OF assms(5) rec _ assms(6), of now1] obtain rec' where
      "r2 (msg_ID m) = Some rec'" "leased_since now1 rec'" by (auto simp: leased_since_def)
    ultimately show False using leased_not_claimable early by auto
  qed
  assume over: "now1 + outboxProcessingLease \<le> now2 \<and> (\<forall>c \<in> set cs. \<not> marks (msg_ID m) c \<and> lapsed now1 now2 c)"
  from outbox_writes_lease_over [OF assms(5) rec _ assms(6), of now1 now2] over
  obtain rec' where "r2 (msg_ID m) = Some rec'" "lease_over now1 now2 rec'" by (auto simp: lease_over_def)
  then show "id_claimable now2 r2 (msg_ID m)" by (auto simp: id_claimable_def claimable_def lease_over_def)
qed

text \<open>Two pulls with a new message and a mark of it in between.\<close>

definition between_pulls :: "outbox_write list" where
  "between_pulls = [Enqueue_at ''u2'' 10 (example_message ''m2''), Sent_at 11 ''m2'']"

theorem PullPending_lease_witness:
  "\<exists>r1 r2 ms2 r3. outbox_PullPending 9 [''m1''] 10 example_outbox = (Inr [example_message ''m1''], r1)
     \<and> outbox_writes between_pulls r1 r2 \<and> outbox_PullPending 12 [''m1'', ''m2''] 10 r2 = (Inr ms2, r3)
     \<and> ''m1'' \<notin> msg_ID ` set ms2"
proof -
  define r1 where "r1 = snd (outbox_PullPending 9 [''m1''] 10 example_outbox)"
  define r2 where "r2 = foldl (\<lambda>r c. outbox_effect c r) r1 between_pulls"
  have p1: "outbox_PullPending 9 [''m1''] 10 example_outbox = (Inr [example_message ''m1''], r1)"
    by (simp add: r1_def outbox_PullPending_def example_outbox_def outbox_Enqueue_def example_message_def
        NewOutboxRepository_def claimable_def Let_def sort_slice_def)
  have w: "outbox_writes between_pulls r1 r2"
    by (auto simp: r2_def between_pulls_def intro!: outbox_writes.intros)
  have "dom r1 = {''m1''}"
    by (auto simp: r1_def outbox_PullPending_def example_outbox_def outbox_Enqueue_def example_message_def
        NewOutboxRepository_def claimable_def Let_def sort_slice_def)
  then have ks: "range_order r2 [''m1'', ''m2'']"
    by (auto simp: r2_def between_pulls_def range_order_def outbox_Enqueue_def example_message_def Let_def
        outbox_MarkSent_def outbox_mark_def dom_def split: option.splits)
  obtain ms2 r3 where p2: "outbox_PullPending 12 [''m1'', ''m2''] 10 r2 = (Inr ms2, r3)"
    using outbox_PullPending_eq [OF ks] by blast
  have "\<forall>c \<in> set between_pulls. \<not> enqueues (msg_ID (example_message ''m1'')) c"
    by (simp add: between_pulls_def example_message_def)
  from PullPending_lease [OF example_outbox_facts p1 _ w this ks p2] show ?thesis
    using p1 w p2 by (auto simp: outboxProcessingLease_def example_message_def)
qed

end
