(* ===== verification/Saga_World.thy ===== *)
theory Saga_World
  imports Saga_Safety Timeline_Repository Outbox_Repository
begin

text \<open>
  The orchestrator wired to the memory repositories, the way \<open>internal/app\<close> wires it.

  A \<open>world\<close> holds the three repositories, the metrics, the clock, the log of the calls made to the
  inventory and payment services and a hidden state \<open>'s\<close> of everything outside the program. What lies
  outside is the record \<open>saga_env\<close>: how the services answer, which UUIDs are generated, and \<open>e_others\<close>,
  what other goroutines and processes do to the order store before each access of it. The mock
  services of \<open>internal/service/inventory\<close> and \<open>internal/service/payment\<close>, which the application wires
  in, are one instance of the answers.
\<close>

section \<open>The mock services\<close>

record inventory_MockService =
  ReserveErr :: "error option"
  ReleaseErr :: "error option"
  ReserveCalls :: int
  ReleaseCalls :: int

definition inventory_NewMockService :: inventory_MockService where
  "inventory_NewMockService =
     \<lparr>ReserveErr = None, ReleaseErr = None, ReserveCalls = 0, ReleaseCalls = 0\<rparr>"

definition mock_Reserve ::
  "string \<Rightarrow> OrderItem list \<Rightarrow> inventory_MockService \<Rightarrow> error option \<times> inventory_MockService" where
  "mock_Reserve orderID items m = (ReserveErr m, m\<lparr>ReserveCalls := ReserveCalls m + 1\<rparr>)"

definition mock_Release ::
  "string \<Rightarrow> OrderItem list \<Rightarrow> inventory_MockService \<Rightarrow> error option \<times> inventory_MockService" where
  "mock_Release orderID items m = (ReleaseErr m, m\<lparr>ReleaseCalls := ReleaseCalls m + 1\<rparr>)"

record payment_MockService =
  PayStatus :: PaymentStatus
  PayErr :: "error option"
  RefundStatus :: PaymentStatus
  RefundErr :: "error option"
  PayCalls :: int
  RefundCalls :: int

definition payment_NewMockService :: payment_MockService where
  "payment_NewMockService =
     \<lparr>PayStatus = PaymentStatusCaptured, PayErr = None, RefundStatus = PaymentStatusRefunded,
      RefundErr = None, PayCalls = 0, RefundCalls = 0\<rparr>"

definition mock_Pay :: "string \<Rightarrow> int \<Rightarrow> string \<Rightarrow> payment_MockService
    \<Rightarrow> (PaymentStatus \<times> error option) \<times> payment_MockService" where
  "mock_Pay orderID amountMinor currency m =
     ((PayStatus m, PayErr m), m\<lparr>PayCalls := PayCalls m + 1\<rparr>)"

definition mock_Refund :: "string \<Rightarrow> int \<Rightarrow> string \<Rightarrow> payment_MockService
    \<Rightarrow> (PaymentStatus \<times> error option) \<times> payment_MockService" where
  "mock_Refund orderID amountMinor currency m =
     ((RefundStatus m, RefundErr m), m\<lparr>RefundCalls := RefundCalls m + 1\<rparr>)"

section \<open>The world\<close>

datatype service_call =
    Reserve_called string "error option"
  | Release_called string "error option"
  | Pay_called string int string PaymentStatus "error option"
  | Refund_called string int string PaymentStatus "error option"
  | Event_published SagaEvent

record 's saga_env =
  e_Reserve :: "string \<Rightarrow> OrderItem list \<Rightarrow> 's \<Rightarrow> error option \<times> 's"
  e_Release :: "string \<Rightarrow> OrderItem list \<Rightarrow> 's \<Rightarrow> error option \<times> 's"
  e_Pay :: "string \<Rightarrow> int \<Rightarrow> string \<Rightarrow> 's \<Rightarrow> (PaymentStatus \<times> error option) \<times> 's"
  e_Refund :: "string \<Rightarrow> int \<Rightarrow> string \<Rightarrow> 's \<Rightarrow> (PaymentStatus \<times> error option) \<times> 's"
  e_Publish :: "SagaEvent \<Rightarrow> 's \<Rightarrow> error option \<times> 's"
  e_uuid :: "'s \<Rightarrow> string \<times> 's"
  e_others :: "order_repo \<Rightarrow> 's \<Rightarrow> order_repo \<times> 's"
  e_Marshal :: "jobject \<Rightarrow> bytes option"
  e_Format :: "gotime \<Rightarrow> string"

record 's world =
  w_orders :: order_repo
  w_timeline :: timeline_repo
  w_outbox :: outbox_repo
  w_metrics :: SagaMetrics
  w_clock :: gotime
  w_calls :: "service_call list"
  w_services :: 's

definition others :: "'s saga_env \<Rightarrow> ('s world, unit) prog" where
  "others env = State (\<lambda>w. case e_others env (w_orders w) (w_services w) of (r, s) \<Rightarrow>
     ((), w\<lparr>w_orders := r, w_services := s\<rparr>))"

definition on_orders :: "(order_repo \<Rightarrow> 'a \<times> order_repo) \<Rightarrow> ('s world, 'a) prog" where
  "on_orders f = State (\<lambda>w. case f (w_orders w) of (a, r) \<Rightarrow> (a, w\<lparr>w_orders := r\<rparr>))"

definition service :: "('s \<Rightarrow> 'a \<times> 's) \<Rightarrow> ('a \<Rightarrow> service_call) \<Rightarrow> ('s world, 'a) prog" where
  "service f logged = State (\<lambda>w. case f (w_services w) of (a, s) \<Rightarrow>
     (a, w\<lparr>w_services := s, w_calls := w_calls w @ [logged a]\<rparr>))"

definition now_op :: "('s world, gotime) prog" where
  "now_op = State (\<lambda>w. (w_clock w, w\<lparr>w_clock := w_clock w + 1\<rparr>))"

definition enqueue_op :: "'s saga_env \<Rightarrow> OutboxMessage \<Rightarrow> ('s world, error + OutboxMessage) prog" where
  "enqueue_op env m = State (\<lambda>w.
     case e_uuid env (w_services w) of (newid, s) \<Rightarrow>
     case outbox_Enqueue newid (w_clock w) m (w_outbox w) of (res, r) \<Rightarrow>
       (res, w\<lparr>w_outbox := r, w_services := s, w_clock := w_clock w + 1\<rparr>))"

definition append_op :: "TimelineEvent \<Rightarrow> ('s world, error option) prog" where
  "append_op ev = State (\<lambda>w. case timeline_Append sort_slice ev (w_timeline w) of (err, r) \<Rightarrow>
     (err, w\<lparr>w_timeline := r\<rparr>))"

definition metrics_op :: "(SagaMetrics \<Rightarrow> SagaMetrics) \<Rightarrow> ('s world, unit) prog" where
  "metrics_op f = State (\<lambda>w. ((), w\<lparr>w_metrics := f (w_metrics w)\<rparr>))"

definition NewOrchestratorWithoutMetrics :: "'s saga_env \<Rightarrow> 's world orchestrator" where
  "NewOrchestratorWithoutMetrics env =
     \<lparr>orders_Get = (\<lambda>i. do { others env; on_orders (\<lambda>r. (order_Get i r, r)) }),
      orders_Save = (\<lambda>a. do { others env; on_orders (order_Save a) }),
      outbox_op = enqueue_op env,
      timeline_op = Some append_op,
      inventory_Reserve = (\<lambda>i items. service (e_Reserve env i items) (Reserve_called i)),
      inventory_Release = (\<lambda>i items. service (e_Release env i items) (Release_called i)),
      payments_Pay = (\<lambda>i amount cur. service (e_Pay env i amount cur)
                        (\<lambda>(st, err). Pay_called i amount cur st err)),
      payments_Refund = (\<lambda>i amount cur. service (e_Refund env i amount cur)
                        (\<lambda>(st, err). Refund_called i amount cur st err)),
      metrics = None,
      kafkaProducer = None,
      time_Now = now_op,
      time_Sleep = (\<lambda>d. State (\<lambda>w. ((), w\<lparr>w_clock := w_clock w + d\<rparr>))),
      json_Marshal = e_Marshal env,
      time_Format = e_Format env\<rparr>"

definition NewOrchestrator :: "'s saga_env \<Rightarrow> 's world orchestrator" where
  "NewOrchestrator env = (NewOrchestratorWithoutMetrics env)\<lparr>metrics := Some metrics_op\<rparr>"

definition NewOrchestratorWithKafka :: "'s saga_env \<Rightarrow> 's world orchestrator" where
  "NewOrchestratorWithKafka env = (NewOrchestratorWithoutMetrics env)
     \<lparr>metrics := Some metrics_op,
      kafkaProducer := Some (\<lambda>topic key event. service (e_Publish env event) (\<lambda>_. Event_published event))\<rparr>"

text \<open>The environment of a single orchestrator that talks to the mock services.\<close>

record mock_state =
  mock_inventory :: inventory_MockService
  mock_payments :: payment_MockService
  uuids :: nat

definition uuid_of :: "nat \<Rightarrow> string" where
  "uuid_of n = replicate n (CHR ''u'')"

definition mock_env :: "mock_state saga_env" where
  "mock_env =
     \<lparr>e_Reserve = (\<lambda>i items s. case mock_Reserve i items (mock_inventory s) of (e, m) \<Rightarrow>
        (e, s\<lparr>mock_inventory := m\<rparr>)),
      e_Release = (\<lambda>i items s. case mock_Release i items (mock_inventory s) of (e, m) \<Rightarrow>
        (e, s\<lparr>mock_inventory := m\<rparr>)),
      e_Pay = (\<lambda>i amount cur s. case mock_Pay i amount cur (mock_payments s) of (e, m) \<Rightarrow>
        (e, s\<lparr>mock_payments := m\<rparr>)),
      e_Refund = (\<lambda>i amount cur s. case mock_Refund i amount cur (mock_payments s) of (e, m) \<Rightarrow>
        (e, s\<lparr>mock_payments := m\<rparr>)),
      e_Publish = (\<lambda>event s. (None, s)),
      e_uuid = (\<lambda>s. (uuid_of (uuids s), s\<lparr>uuids := uuids s + 1\<rparr>)),
      e_others = (\<lambda>r s. (r, s)),
      e_Marshal = (\<lambda>payload. Some (concat (map fst payload))),
      e_Format = (\<lambda>t. [])\<rparr>"

definition new_world :: "'s \<Rightarrow> order_repo \<Rightarrow> 's world" where
  "new_world s r = \<lparr>w_orders = r, w_timeline = NewTimelineRepository, w_outbox = NewOutboxRepository,
     w_metrics = NewSagaMetrics, w_clock = 1, w_calls = [], w_services = s\<rparr>"

definition new_mock_state :: mock_state where
  "new_mock_state = \<lparr>mock_inventory = inventory_NewMockService,
     mock_payments = payment_NewMockService, uuids = 1\<rparr>"

definition createOrchestrator :: "'s saga_env \<Rightarrow> bool \<Rightarrow> 's world orchestrator" where
  "createOrchestrator env kafka =
     (if kafka then NewOrchestratorWithKafka env else NewOrchestrator env)"

text \<open>Several calls one after the other.\<close>

primrec saga_calls :: "'w orchestrator \<Rightarrow> saga_call list \<Rightarrow> ('w, unit) prog" where
  "saga_calls orc [] = skip"
| "saga_calls orc (c # cs) = do { saga_run orc c; saga_calls orc cs }"

lemmas world_op_defs = others_def on_orders_def service_def now_op_def enqueue_op_def append_op_def
  metrics_op_def

lemmas orchestrator_defs = createOrchestrator_def NewOrchestrator_def NewOrchestratorWithKafka_def
  NewOrchestratorWithoutMetrics_def

section \<open>Only advances, under any interference\<close>

text \<open>What other users of the store may do: only advance orders (and create new ones).\<close>

definition env_advances :: "'s saga_env \<Rightarrow> bool" where
  "env_advances env \<longleftrightarrow> (\<forall>r s. wf_orders r \<longrightarrow>
     wf_orders (fst (e_others env r s)) \<and> advances r (fst (e_others env r s)))"

lemma env_advancesD:
  assumes "env_advances env" and "wf_orders r" and "e_others env r s = (r', s')"
  shows "wf_orders r' \<and> advances r r'"
  using assms unfolding env_advances_def by (metis fst_conv)

lemma order_Save_ok:
  "order_Save a r = (None, r') \<longleftrightarrow>
     (\<exists>c. r (ID a) = Some c \<and> Version c = Version a \<and> r' = r(ID a \<mapsto> a\<lparr>Version := Version a + 1\<rparr>))"
  by (auto simp: order_Save_def split: option.split)

lemma order_Save_err: "order_Save a r = (Some e, r') \<Longrightarrow> r' = r"
  by (auto simp: order_Save_def split: option.splits if_splits)

interpretation mem_saga: saga_backend "createOrchestrator env kafka" w_orders
  "\<lambda>w. env_advances env \<and> wf_orders (w_orders w)"
  for env kafka
proof (unfold_locales, goal_cases)
  case (2 w i got w')
  then obtain r s where "e_others env (w_orders w) (w_services w) = (r, s)" by fastforce
  with 2 env_advancesD [of env "w_orders w"] show ?case
    by (auto simp: orchestrator_defs world_op_defs order_Get_def split: option.splits if_splits)
next
  case (3 w a w')
  then obtain r s where e: "e_others env (w_orders w) (w_services w) = (r, s)" by fastforce
  then have r: "wf_orders r \<and> advances (w_orders w) r"
    using 3(1) env_advancesD [of env "w_orders w" "w_services w" r s] by simp
  have "order_Save a r = (None, w_orders w')"
    using 3(2) e by (auto simp: orchestrator_defs world_op_defs split: prod.splits if_splits)
  then obtain c where "r (ID a) = Some c" "Version c = Version a"
      "w_orders w' = r(ID a \<mapsto> a\<lparr>Version := Version a + 1\<rparr>)"
    by (auto simp: order_Save_ok)
  with r 3(1) show ?case by (auto intro!: wf_orders_upd)
next
  case (4 w a e w')
  then obtain r s where e: "e_others env (w_orders w) (w_services w) = (r, s)" by fastforce
  have "order_Save a r = (Some e, w_orders w')"
    using 4(2) e by (auto simp: orchestrator_defs world_op_defs split: prod.splits if_splits)
  then have "w_orders w' = r" by (rule order_Save_err)
  then show ?case using 4(1) env_advancesD [OF _ _ e] by simp
qed (auto simp: orchestrator_defs world_op_defs outbox_Enqueue_def timeline_Append_def
    split: prod.splits if_splits)

lemma saga_calls_advances:
  assumes "env_advances env" and "wf_orders (w_orders w)"
    and "run_state (saga_calls (createOrchestrator env kafka) cs) w = (u, w')"
  shows "wf_orders (w_orders w') \<and> advances (w_orders w) (w_orders w')"
  using assms(2,3)
proof (induction cs arbitrary: w)
  case Nil
  then show ?case by simp
next
  case (Cons c cs)
  obtain u1 w1 where w1: "run_state (saga_run (createOrchestrator env kafka) c) w = (u1, w1)"
    by (cases "run_state (saga_run (createOrchestrator env kafka) c) w")
  then have "wf_orders (w_orders w1)" "advances (w_orders w) (w_orders w1)"
    using mem_saga.saga_run_advances [OF _ w1] assms(1) Cons.prems(1) by auto
  with Cons w1 advances_trans show ?case by fastforce
qed

end
