(* ===== verification/Saga_Spec.thy ===== *)
theory Saga_Spec
  imports Saga_World
begin

text \<open>
  The abstract specification of the saga and the proof that the orchestrator refines it.

  \<open>saga_outcome call before calls after\<close> lists, one rule per outcome, what a call may do when nobody else
  touches the order: which calls it makes to the inventory and payment services, with which answers,
  and what becomes of the stored order. The orchestrator on the memory repositories is shown to refine
  it for arbitrary answers of the services. The bookkeeping of charges and refunds over any sequence of
  calls is then proved on the specification alone.
\<close>

section \<open>The specification\<close>

definition payment_accepted :: "PaymentStatus \<Rightarrow> error option \<Rightarrow> bool" where
  "payment_accepted st err \<longleftrightarrow>
     err = None \<and> (st = PaymentStatusCaptured \<or> st = PaymentStatusAuthorized)"

definition moved :: "Order \<Rightarrow> OrderStatus \<Rightarrow> int \<Rightarrow> Order \<Rightarrow> bool" where
  "moved a st n b \<longleftrightarrow> (\<exists>t. b = a\<lparr>Status := st, Version := Version a + n, UpdatedAt := t\<rparr>)"

definition refund_amount :: "int \<Rightarrow> Order \<Rightarrow> int" where
  "refund_amount n a = (if n \<le> 0 \<or> n > AmountMinor a then AmountMinor a else n)"

fun call_order :: "saga_call \<Rightarrow> string" where
  "call_order (CallStart i) = i"
| "call_order (CallCancel i reason) = i"
| "call_order (CallRefund i n reason) = i"

inductive saga_outcome :: "saga_call \<Rightarrow> Order option \<Rightarrow> service_call list \<Rightarrow> Order option \<Rightarrow> bool" where
  missing: "saga_outcome c None [] None"
| start_no_stock: "Status a = OrderStatusPending \<Longrightarrow> moved a OrderStatusCanceled 1 b \<Longrightarrow>
    saga_outcome (CallStart i) (Some a) [Reserve_called i (Some e)] (Some b)"
| start_declined: "Status a = OrderStatusPending \<Longrightarrow> \<not> payment_accepted st err \<Longrightarrow>
    moved a OrderStatusCanceled 2 b \<Longrightarrow>
    saga_outcome (CallStart i) (Some a)
      [Reserve_called i None, Pay_called i (AmountMinor a) (Currency a) st err, Release_called i rel] (Some b)"
| start_confirmed: "Status a = OrderStatusPending \<Longrightarrow> payment_accepted st None \<Longrightarrow>
    moved a OrderStatusConfirmed 3 b \<Longrightarrow>
    saga_outcome (CallStart i) (Some a)
      [Reserve_called i None, Pay_called i (AmountMinor a) (Currency a) st None] (Some b)"
| resume_declined: "Status a = OrderStatusReserved \<Longrightarrow> \<not> payment_accepted st err \<Longrightarrow>
    moved a OrderStatusCanceled 1 b \<Longrightarrow>
    saga_outcome (CallStart i) (Some a)
      [Pay_called i (AmountMinor a) (Currency a) st err, Release_called i rel] (Some b)"
| resume_confirmed: "Status a = OrderStatusReserved \<Longrightarrow> payment_accepted st None \<Longrightarrow>
    moved a OrderStatusConfirmed 2 b \<Longrightarrow>
    saga_outcome (CallStart i) (Some a) [Pay_called i (AmountMinor a) (Currency a) st None] (Some b)"
| confirm_paid: "Status a = OrderStatusPaid \<Longrightarrow> moved a OrderStatusConfirmed 1 b \<Longrightarrow>
    saga_outcome (CallStart i) (Some a) [] (Some b)"
| start_skipped: "Status a \<notin> {OrderStatusPending, OrderStatusReserved, OrderStatusPaid} \<Longrightarrow>
    saga_outcome (CallStart i) (Some a) [] (Some a)"
| cancel_skipped: "terminal_status (Status a) \<Longrightarrow>
    saga_outcome (CallCancel i reason) (Some a) [] (Some a)"
| cancel_reserved: "Status a = OrderStatusReserved \<Longrightarrow> moved a OrderStatusCanceled 1 b \<Longrightarrow>
    saga_outcome (CallCancel i reason) (Some a) [Release_called i rel] (Some b)"
| cancel_refund_failed: "Status a \<in> {OrderStatusPaid, OrderStatusConfirmed} \<Longrightarrow>
    saga_outcome (CallCancel i reason) (Some a)
      [Release_called i rel, Refund_called i (AmountMinor a) (Currency a) st (Some e)] (Some a)"
| cancel_refunded: "Status a \<in> {OrderStatusPaid, OrderStatusConfirmed} \<Longrightarrow>
    moved a OrderStatusCanceled 1 b \<Longrightarrow>
    saga_outcome (CallCancel i reason) (Some a)
      [Release_called i rel, Refund_called i (AmountMinor a) (Currency a) st None] (Some b)"
| cancel_unprocessed: "\<not> terminal_status (Status a) \<Longrightarrow>
    Status a \<notin> {OrderStatusReserved, OrderStatusPaid, OrderStatusConfirmed} \<Longrightarrow>
    moved a OrderStatusCanceled 1 b \<Longrightarrow>
    saga_outcome (CallCancel i reason) (Some a) [] (Some b)"
| refund_skipped: "Status a \<notin> {OrderStatusPaid, OrderStatusConfirmed} \<Longrightarrow>
    saga_outcome (CallRefund i n reason) (Some a) [] (Some a)"
| refund_failed: "Status a \<in> {OrderStatusPaid, OrderStatusConfirmed} \<Longrightarrow>
    err \<noteq> None \<or> st \<noteq> PaymentStatusRefunded \<Longrightarrow>
    saga_outcome (CallRefund i n reason) (Some a)
      [Refund_called i (refund_amount n a) (Currency a) st err] (Some a)"
| refund_done: "Status a \<in> {OrderStatusPaid, OrderStatusConfirmed} \<Longrightarrow>
    moved a OrderStatusRefunded 1 b \<Longrightarrow>
    saga_outcome (CallRefund i n reason) (Some a)
      [Refund_called i (refund_amount n a) (Currency a) PaymentStatusRefunded None,
       Release_called i rel] (Some b)"

inductive_cases saga_outcome_NoneE: "saga_outcome c None calls after"

section \<open>Programs that are silent for the store and the services\<close>

fun is_event :: "service_call \<Rightarrow> bool" where
  "is_event (Event_published ev) = True"
| "is_event c = False"

definition svc_calls :: "'s world \<Rightarrow> service_call list" where
  "svc_calls w = filter (\<lambda>c. \<not> is_event c) (w_calls w)"

text \<open>No other user touches the orders.\<close>

definition quiet :: "'s saga_env \<Rightarrow> bool" where
  "quiet env \<longleftrightarrow> (\<forall>r s. e_others env r s = (r, s))"

text \<open>Every answer of the services satisfies \<open>P\<close>.\<close>

definition answers :: "'s saga_env \<Rightarrow> (service_call \<Rightarrow> bool) \<Rightarrow> bool" where
  "answers env P \<longleftrightarrow> (\<forall>i items n cur s.
     P (Reserve_called i (fst (e_Reserve env i items s)))
     \<and> P (Release_called i (fst (e_Release env i items s)))
     \<and> P (Pay_called i n cur (fst (fst (e_Pay env i n cur s))) (snd (fst (e_Pay env i n cur s))))
     \<and> P (Refund_called i n cur (fst (fst (e_Refund env i n cur s))) (snd (fst (e_Refund env i n cur s)))))"

text \<open>\<open>at P r cs\<close>: the store is \<open>r\<close>, the calls so far are \<open>cs\<close>.\<close>

definition at :: "(service_call \<Rightarrow> bool) \<Rightarrow> order_repo \<Rightarrow> service_call list \<Rightarrow> 's world \<Rightarrow> bool" where
  "at P r cs w \<longleftrightarrow> w_orders w = r \<and> svc_calls w = cs \<and> list_all P cs"

definition silent :: "('s world, 'a) prog \<Rightarrow> bool" where
  "silent m \<longleftrightarrow> (\<forall>P r cs. ensures (at P r cs) m (\<lambda>_. at P r cs))"

lemma silentI:
  assumes "\<And>w. w_orders (snd (run_state m w)) = w_orders w \<and> svc_calls (snd (run_state m w)) = svc_calls w"
  shows "silent m"
proof (unfold silent_def, intro allI ensuresI)
  fix P r cs w a w'
  assume "at P r cs w" and "run_state m w = (a, w')"
  then show "at P r cs w'" using assms [of w] by (simp add: at_def)
qed

lemma silent_return [intro!, simp]: "silent (return a)"
  by (rule silentI) simp

lemma silent_bind [intro!]: "silent m \<Longrightarrow> (\<And>a. silent (f a)) \<Longrightarrow> silent (State_Monad.bind m f)"
  unfolding silent_def by (blast intro: ensures_bind)

lemma then_silent:
  "silent m \<Longrightarrow> (\<And>a. ensures (at P r cs) (f a) Q) \<Longrightarrow> ensures (at P r cs) (State_Monad.bind m f) Q"
  unfolding silent_def by (blast intro: ensures_bind)

lemma silent_then:
  "silent m \<Longrightarrow> (\<And>w. at P r cs w \<Longrightarrow> Q w) \<Longrightarrow> ensures (at P r cs) m (\<lambda>_. Q)"
  unfolding silent_def by (blast intro: ensures_post)

lemma silent_ops [intro!, simp]:
  "silent (enqueue_op env m)" "silent (append_op ev)" "silent now_op" "silent (metrics_op f)"
  "silent (State (\<lambda>w. ((), w\<lparr>w_clock := w_clock w + d\<rparr>)))"
  "silent (service g (\<lambda>_. Event_published event))"
  by (rule silentI; simp add: world_op_defs svc_calls_def split: prod.split)+

text \<open>The fields of the wired orchestrator.\<close>

lemma orchestrator_fields [simp]:
  fixes env :: "'s saga_env" and kafka :: bool
  defines "orc \<equiv> createOrchestrator env kafka"
  shows "orders_Get orc = (\<lambda>i. State_Monad.bind (others env) (\<lambda>_. on_orders (\<lambda>r. (order_Get i r, r))))"
    and "orders_Save orc = (\<lambda>a. State_Monad.bind (others env) (\<lambda>_. on_orders (order_Save a)))"
    and "outbox_op orc = enqueue_op env" and "timeline_op orc = Some append_op"
    and "inventory_Reserve orc = (\<lambda>i items. service (e_Reserve env i items) (Reserve_called i))"
    and "inventory_Release orc = (\<lambda>i items. service (e_Release env i items) (Release_called i))"
    and "payments_Pay orc = (\<lambda>i n cur. service (e_Pay env i n cur) (\<lambda>(st, err). Pay_called i n cur st err))"
    and "payments_Refund orc = (\<lambda>i n cur. service (e_Refund env i n cur) (\<lambda>(st, err). Refund_called i n cur st err))"
    and "metrics orc = Some metrics_op" and "time_Now orc = now_op"
    and "time_Sleep orc = (\<lambda>d. State (\<lambda>w. ((), w\<lparr>w_clock := w_clock w + d\<rparr>)))"
    and "json_Marshal orc = e_Marshal env" and "time_Format orc = e_Format env"
  by (simp_all add: orc_def orchestrator_defs)

lemma silent_record [intro!, simp]: "silent (record_metric (createOrchestrator env kafka) f)"
  by (simp add: record_metric_def)

lemma silent_publish [intro!, simp]: "silent (publishSagaEvent (createOrchestrator env kafka) ty i meta)"
  by (auto simp: publishSagaEvent_def NewSagaEvent_def orchestrator_defs split: option.split)

lemma silent_emit [intro!, simp]: "silent (emitEvent (createOrchestrator env kafka) a ty payload t)"
  by (auto simp: emitEvent_def Let_def split: option.split sum.split)

lemma silent_status [intro!, simp]: "silent (emitStatusEvent (createOrchestrator env kafka) a)"
  by (simp add: emitStatusEvent_def)

section \<open>The store and the services without interference\<close>

lemma others_quiet: "quiet env \<Longrightarrow> run_state (others env) w = ((), w)"
  by (simp add: others_def quiet_def)

lemma get_quiet:
  "quiet env \<Longrightarrow> ensures (at P r cs) (orders_Get (createOrchestrator env kafka) i)
     (\<lambda>got w. got = order_Get i r \<and> at P r cs w)"
  by (auto simp: ensures_def others_quiet on_orders_def at_def svc_calls_def)

lemma save_quiet:
  "quiet env \<Longrightarrow> r (ID a) = Some c \<Longrightarrow> Version c = Version a \<Longrightarrow>
   ensures (at P r cs) (orders_Save (createOrchestrator env kafka) a)
     (\<lambda>err w. err = None \<and> at P (r(ID a \<mapsto> a\<lparr>Version := Version a + 1\<rparr>)) cs w)"
  by (auto simp: ensures_def others_quiet on_orders_def at_def svc_calls_def order_Save_def)

lemma service_ensures:
  assumes "\<And>s. Q (logged (fst (f s)))" and "\<And>a. \<not> is_event (logged a)"
  shows "ensures (at Q r cs) (service f logged) (\<lambda>a. at Q r (cs @ [logged a]))"
proof (rule ensuresI)
  fix w a w'
  assume "at Q r cs w" and "run_state (service f logged) w = (a, w')"
  moreover then obtain s where "f (w_services w) = (a, s)"
    by (auto simp: service_def split: prod.splits)
  ultimately show "at Q r (cs @ [logged a]) w'"
    using assms(1) [of "w_services w"] assms(2) by (auto simp: service_def at_def svc_calls_def)
qed

lemma service_calls_ensures:
  assumes "answers env P"
  shows "ensures (at P r cs) (inventory_Reserve (createOrchestrator env kafka) i items)
           (\<lambda>err. at P r (cs @ [Reserve_called i err]))"
    and "ensures (at P r cs) (inventory_Release (createOrchestrator env kafka) i items)
           (\<lambda>err. at P r (cs @ [Release_called i err]))"
    and "ensures (at P r cs) (payments_Pay (createOrchestrator env kafka) i n cur)
           (\<lambda>(st, err). at P r (cs @ [Pay_called i n cur st err]))"
    and "ensures (at P r cs) (payments_Refund (createOrchestrator env kafka) i n cur)
           (\<lambda>(st, err). at P r (cs @ [Refund_called i n cur st err]))"
  using assms unfolding orchestrator_fields
  by (auto simp: answers_def case_prod_beta' intro!: service_ensures)

lemma moved_trans: "moved a s m b \<Longrightarrow> moved b t n c \<Longrightarrow> moved a t (m + n) c"
  by (auto simp: moved_def add.assoc)

lemma moved_simps [simp]:
  "moved a st n b \<Longrightarrow> ID b = ID a" "moved a st n b \<Longrightarrow> Status b = st"
  "moved a st n b \<Longrightarrow> AmountMinor b = AmountMinor a" "moved a st n b \<Longrightarrow> Currency b = Currency a"
  by (auto simp: moved_def)

definition stored :: "order_repo \<Rightarrow> Order \<Rightarrow> bool" where
  "stored r a \<longleftrightarrow> r (ID a) = Some a"

lemma stored_moved: "moved a st n b \<Longrightarrow> stored (r(ID a \<mapsto> b)) b"
  by (simp add: stored_def)

text \<open>Without interference a status change succeeds at the first attempt.\<close>

lemma update_quiet:
  assumes "quiet env" and "stored r a" and "Status a \<noteq> st" and "\<not> terminal_status (Status a)"
  shows "ensures (at P r cs) (updateStatus (createOrchestrator env kafka) a st)
           (\<lambda>(err, b) w. err = None \<and> moved a st 1 b \<and> at P (r(ID a \<mapsto> b)) cs w)"
proof -
  let ?orc = "createOrchestrator env kafka"
  have save: "ensures (at P r cs) (orders_Save ?orc (a\<lparr>Status := st, UpdatedAt := t\<rparr>))
      (\<lambda>err w. err = None
        \<and> at P (r(ID a \<mapsto> a\<lparr>Status := st, UpdatedAt := t, Version := Version a + 1\<rparr>)) cs w)" for t
    using save_quiet [OF assms(1), of r "a\<lparr>Status := st, UpdatedAt := t\<rparr>" a] assms(2)
    by (simp add: stored_def)
  have stored: "ensures (\<lambda>w. err = None \<and> at P (r(ID a \<mapsto> b)) cs w)
      (case err of
         None \<Rightarrow> State_Monad.bind (emitStatusEvent ?orc b) (\<lambda>_. return (None, b))
       | Some e \<Rightarrow> k e)
      (\<lambda>(err, b) w. err = None \<and> moved a st 1 b \<and> at P (r(ID a \<mapsto> b)) cs w)"
    if "b = a\<lparr>Status := st, UpdatedAt := t, Version := Version a + 1\<rparr>" for err b t k
  proof (cases err)
    case None
    have "moved a st 1 b" unfolding moved_def that by (rule exI [of _ t]) simp
    then have "ensures (at P (r(ID a \<mapsto> b)) cs)
        (State_Monad.bind (emitStatusEvent ?orc b) (\<lambda>_. return (None, b)))
        (\<lambda>(err, b) w. err = None \<and> moved a st 1 b \<and> at P (r(ID a \<mapsto> b)) cs w)"
      by (intro then_silent silent_status ensures_return) simp
    then show ?thesis by (simp add: None)
  qed (simp add: ensures_def)
  have guard: "\<not> (terminal_status (Status a) \<and> st \<noteq> Status a)" using assms(4) by simp
  show ?thesis
    unfolding updateStatus_def if_not_P [OF assms(3)] maxRetries_def numeral_3_eq_3
      update_attempts.simps(2) [of _ _ "Suc (Suc 0)"] Let_def if_not_P [OF guard]
    by (rule then_silent, simp, rule ensures_bind [OF save], rule stored, rule refl)
qed

lemma update_quiet_then:
  assumes "quiet env" and "stored r a" and "Status a \<noteq> st" and "\<not> terminal_status (Status a)"
    and "\<And>b. moved a st 1 b \<Longrightarrow> ensures (at P (r(ID a \<mapsto> b)) cs) (k None b) Q"
  shows "ensures (at P r cs)
     (State_Monad.bind (updateStatus (createOrchestrator env kafka) a st) (\<lambda>(err, b). k err b)) Q"
proof (rule ensures_bind [OF update_quiet [OF assms(1-4)]], rule ensures_prod)
  fix x :: "error option \<times> Order" and err b
  assume "x = (err, b)"
  then show "ensures ((\<lambda>(err, b) w. err = None \<and> moved a st 1 b \<and> at P (r(ID a \<mapsto> b)) cs w) x) (k err b) Q"
    using assms(5) [of b] by (auto simp: ensures_def)
qed

section \<open>The handlers without interference\<close>

lemma failOrder_quiet:
  assumes "quiet env" and "stored r a" and "\<not> terminal_status (Status a)"
  shows "ensures (at P r cs) (failOrder (createOrchestrator env kafka) a OrderStatusCanceled e)
           (\<lambda>_ w. \<exists>b. moved a OrderStatusCanceled 1 b \<and> at P (r(ID a \<mapsto> b)) cs w)"
  unfolding failOrder_def
proof (rule then_silent, simp, rule update_quiet_then [OF assms(1,2)], goal_cases)
  case (3 b)
  then show ?case by (auto intro!: then_silent ensures_return)
qed (use assms(3) in \<open>auto simp: terminal_status_def\<close>)

lemma fail_quiet_then:
  assumes "quiet env" and "stored r a" and "\<not> terminal_status (Status a)"
    and "\<And>b w. moved a OrderStatusCanceled 1 b \<Longrightarrow> at P (r(ID a \<mapsto> b)) cs w \<Longrightarrow> Q w"
  shows "ensures (at P r cs) (State_Monad.bind
      (failOrder (createOrchestrator env kafka) a OrderStatusCanceled e) (\<lambda>b. return (Some e', b)))
    (\<lambda>(err, b) w. err = Some e' \<and> Q w)"
  by (rule ensures_bind [OF failOrder_quiet [OF assms(1-3)]]) (auto intro!: ensures_return assms(4))

lemma release_quiet:
  "answers env P \<Longrightarrow> ensures (at P r cs) (releaseInventory (createOrchestrator env kafka) a)
     (\<lambda>_ w. \<exists>rel. at P r (cs @ [Release_called (ID a) rel]) w)"
  unfolding releaseInventory_def
  by (rule ensures_bind [OF service_calls_ensures(2)]) (auto intro!: ensures_return)

lemma release_quiet_then:
  assumes "answers env P" and "\<And>rel. ensures (at P r (cs @ [Release_called (ID a) rel])) (f ()) Q"
  shows "ensures (at P r cs)
     (State_Monad.bind (releaseInventory (createOrchestrator env kafka) a) f) Q"
proof (rule ensures_bind [OF release_quiet [OF assms(1)]])
  fix u :: unit
  show "ensures (\<lambda>w. \<exists>rel. at P r (cs @ [Release_called (ID a) rel]) w) (f u) Q"
    using assms(2) by (fastforce simp: ensures_def)
qed

lemma handleConfirm_quiet:
  assumes "quiet env" and "stored r a" and "Status a = OrderStatusPaid"
  shows "ensures (at P r cs) (handleConfirm (createOrchestrator env kafka) a)
           (\<lambda>_ w. \<exists>b. moved a OrderStatusConfirmed 1 b \<and> at P (r(ID a \<mapsto> b)) cs w)"
  unfolding handleConfirm_def
proof (rule update_quiet_then [OF assms(1,2)], goal_cases)
  case (3 b)
  then show ?case by (auto intro!: then_silent silent_then)
qed (use assms(3) in \<open>auto simp: terminal_status_def\<close>)

lemma handlePayment_quiet:
  assumes "quiet env" and "answers env P" and "stored r a" and "Status a = OrderStatusReserved"
  shows "ensures (at P r cs) (handlePayment (createOrchestrator env kafka) a)
     (\<lambda>(res, b) w. \<exists>st err. let pay = Pay_called (ID a) (AmountMinor a) (Currency a) st err in
        if payment_accepted st err
        then res = None \<and> moved a OrderStatusPaid 1 b \<and> at P (r(ID a \<mapsto> b)) (cs @ [pay]) w
        else res \<noteq> None \<and> (\<exists>b rel. moved a OrderStatusCanceled 1 b
               \<and> at P (r(ID a \<mapsto> b)) (cs @ [pay, Release_called (ID a) rel]) w))"
    (is "ensures _ _ ?Q")
  unfolding handlePayment_def
proof (rule ensures_bind [OF service_calls_ensures(3) [OF assms(2)]], rule ensures_prod)
  fix x :: "PaymentStatus \<times> error option" and st err
  assume x: "x = (st, err)"
  let ?orc = "createOrchestrator env kafka" and ?pay = "Pay_called (ID a) (AmountMinor a) (Currency a) st err"
  have live: "\<not> terminal_status (Status a)" using assms(4) by (simp add: terminal_status_def)
  have declined: "ensures (at P r (cs @ [?pay]))
      (State_Monad.bind (releaseInventory ?orc a) (\<lambda>_. State_Monad.bind
        (failOrder ?orc a OrderStatusCanceled e) (\<lambda>b. return (Some e, b)))) ?Q"
    if "\<not> payment_accepted st err" for e
  proof (rule release_quiet_then [OF assms(2)], rule ensures_post [OF fail_quiet_then [OF assms(1,3) live]])
    fix rel b w
    assume "moved a OrderStatusCanceled 1 b"
      and "at P (r(ID a \<mapsto> b)) ((cs @ [?pay]) @ [Release_called (ID a) rel]) w"
    then show "\<exists>b rel. moved a OrderStatusCanceled 1 b
        \<and> at P (r(ID a \<mapsto> b)) (cs @ [?pay, Release_called (ID a) rel]) w" by auto
  qed (use that in \<open>auto simp: Let_def\<close>)
  have accepted: "ensures (at P r (cs @ [?pay])) (State_Monad.bind (updateStatus ?orc a OrderStatusPaid)
      (\<lambda>(upd, b). case upd of
         None \<Rightarrow> State_Monad.bind (publishSagaEvent ?orc EventTypeStepPaid (ID b) (meta b)) (\<lambda>_. return (None, b))
       | Some err \<Rightarrow> return (Some err, b))) ?Q"
    if "payment_accepted st err" for meta
  proof (rule update_quiet_then [OF assms(1,3)], goal_cases)
    case (3 b)
    then show ?case using that by (auto simp: Let_def intro!: then_silent ensures_return exI [of _ st] exI [of _ err])
  qed (use assms(4) in \<open>auto simp: terminal_status_def\<close>)
  show "ensures ((\<lambda>(st, err). at P r (cs @ [Pay_called (ID a) (AmountMinor a) (Currency a) st err])) x) (case err of
      None \<Rightarrow> if st \<noteq> PaymentStatusCaptured \<and> st \<noteq> PaymentStatusAuthorized
        then State_Monad.bind (releaseInventory ?orc a) (\<lambda>_. State_Monad.bind
          (failOrder ?orc a OrderStatusCanceled (E ErrPaymentIndeterminate))
          (\<lambda>order1. return (Some (E ErrPaymentIndeterminate), order1)))
        else State_Monad.bind (updateStatus ?orc a OrderStatusPaid) (\<lambda>(upd, order1). case upd of
          None \<Rightarrow> State_Monad.bind (publishSagaEvent ?orc EventTypeStepPaid (ID order1)
              [(''amount'', JInt (AmountMinor order1)), (''currency'', JStr (Currency order1)),
               (''status'', JStr (PaymentStatus_string st))]) (\<lambda>_. return (None, order1))
        | Some err \<Rightarrow> return (Some err, order1))
    | Some err \<Rightarrow> State_Monad.bind (releaseInventory ?orc a) (\<lambda>_. State_Monad.bind
        (failOrder ?orc a OrderStatusCanceled err) (\<lambda>order1. return (Some err, order1)))) ?Q"
    unfolding x prod.case
    by (intro ensures_option ensures_if declined accepted) (auto simp: payment_accepted_def)
qed

lemma handleReserve_quiet:
  assumes "quiet env" and "answers env P" and "stored r a" and "Status a = OrderStatusPending"
  shows "ensures (at P r cs) (handleReserve (createOrchestrator env kafka) a)
     (\<lambda>(res, b) w. case res of
        None \<Rightarrow> moved a OrderStatusReserved 1 b \<and> at P (r(ID a \<mapsto> b)) (cs @ [Reserve_called (ID a) None]) w
      | Some e \<Rightarrow> \<exists>b. moved a OrderStatusCanceled 1 b
          \<and> at P (r(ID a \<mapsto> b)) (cs @ [Reserve_called (ID a) (Some e)]) w)"
  unfolding handleReserve_def
proof (rule ensures_bind [OF service_calls_ensures(1) [OF assms(2)]], rule ensures_option, goal_cases)
  case (1 err)
  show ?case
    unfolding 1
  proof (rule update_quiet_then [OF assms(1,3)], goal_cases)
    case (3 b)
    then show ?case by (auto intro!: then_silent ensures_return)
  qed (use assms(4) in \<open>auto simp: terminal_status_def\<close>)
next
  case (2 err e)
  show ?case
    unfolding 2
    by (rule ensures_post [OF fail_quiet_then [OF assms(1,3), where Q = "\<lambda>w. \<exists>b.
          moved a OrderStatusCanceled 1 b \<and> at P (r(ID a \<mapsto> b)) (cs @ [Reserve_called (ID a) (Some e)]) w"]])
      (use assms(4) in \<open>auto simp: terminal_status_def\<close>)
qed

section \<open>The operations refine the specification\<close>

text \<open>The post-state of a call.\<close>

definition finished ::
  "(service_call \<Rightarrow> bool) \<Rightarrow> saga_call \<Rightarrow> order_repo \<Rightarrow> service_call list \<Rightarrow> 's world \<Rightarrow> bool" where
  "finished P c r cs w \<longleftrightarrow> (\<exists>calls after. saga_outcome c (r (call_order c)) calls after
     \<and> at P (r(call_order c := after)) (cs @ calls) w)"

lemma finishedI:
  "saga_outcome c (r (call_order c)) calls (Some b) \<Longrightarrow> at P (r(call_order c \<mapsto> b)) (cs @ calls) w \<Longrightarrow>
   finished P c r cs w"
  unfolding finished_def by blast

lemma finished_unchanged:
  "saga_outcome c (r (call_order c)) [] (r (call_order c)) \<Longrightarrow> at P r cs w \<Longrightarrow> finished P c r cs w"
  unfolding finished_def by (rule exI [of _ "[]"], rule exI [of _ "r (call_order c)"]) simp

lemma step_quiet_then:
  fixes m :: "('s world, 'e option \<times> 'b) prog"
  assumes "ensures (at P r cs) m (\<lambda>(err, b) w. case err of None \<Rightarrow> R b w | Some e \<Rightarrow> Q w)"
    and "\<And>b. ensures (R b) (k b) (\<lambda>_. Q)"
  shows "ensures (at P r cs) (State_Monad.bind m
           (\<lambda>(err, b). case err of Some _ \<Rightarrow> skip | None \<Rightarrow> k b)) (\<lambda>_. Q)"
proof (rule ensures_bind [OF assms(1)], rule ensures_prod)
  fix x :: "'e option \<times> 'b" and err b
  assume "x = (err, b)"
  then show "ensures ((\<lambda>(err, b) w. case err of None \<Rightarrow> R b w | Some e \<Rightarrow> Q w) x)
      (case err of None \<Rightarrow> k b | Some _ \<Rightarrow> skip) (\<lambda>_. Q)"
    using assms(2) by (cases err) (auto intro: ensures_return)
qed

text \<open>From \<open>reserved\<close>: the payment step, then confirmation.\<close>

definition resumed :: "(service_call \<Rightarrow> bool) \<Rightarrow> order_repo \<Rightarrow> service_call list \<Rightarrow> Order \<Rightarrow> 's world \<Rightarrow> bool" where
  "resumed P r cs a w \<longleftrightarrow> (\<exists>st err. let pay = Pay_called (ID a) (AmountMinor a) (Currency a) st err in
     if payment_accepted st err
     then \<exists>b. moved a OrderStatusConfirmed 2 b \<and> at P (r(ID a \<mapsto> b)) (cs @ [pay]) w
     else \<exists>b rel. moved a OrderStatusCanceled 1 b
            \<and> at P (r(ID a \<mapsto> b)) (cs @ [pay, Release_called (ID a) rel]) w)"

lemma start_paid_quiet:
  assumes "quiet env" and "stored r a" and "Status a = OrderStatusPaid"
  shows "ensures (at P r cs) (start_paid (createOrchestrator env kafka) a)
           (\<lambda>_ w. \<exists>b. moved a OrderStatusConfirmed 1 b \<and> at P (r(ID a \<mapsto> b)) cs w)"
  unfolding start_paid_def by (rule handleConfirm_quiet [OF assms])

lemma start_reserved_quiet:
  assumes "quiet env" and "answers env P" and "stored r a" and "Status a = OrderStatusReserved"
  shows "ensures (at P r cs) (start_reserved (createOrchestrator env kafka) a)
           (\<lambda>_. resumed P r cs a)"
  unfolding start_reserved_def
proof (rule step_quiet_then)
  let ?pay = "\<lambda>st. Pay_called (ID a) (AmountMinor a) (Currency a) st None"
  let ?R = "\<lambda>b w. \<exists>st. payment_accepted st None \<and> moved a OrderStatusPaid 1 b
     \<and> at P (r(ID a \<mapsto> b)) (cs @ [?pay st]) w"
  show "ensures (at P r cs) (handlePayment (createOrchestrator env kafka) a)
      (\<lambda>(err, b) w. case err of None \<Rightarrow> ?R b w | Some e \<Rightarrow> resumed P r cs a w)"
    by (rule ensures_post [OF handlePayment_quiet [OF assms]])
      (auto simp: Let_def resumed_def payment_accepted_def split: option.split if_splits)
  fix b
  show "ensures (?R b) (start_paid (createOrchestrator env kafka) b) (\<lambda>_. resumed P r cs a)"
  proof (rule ensuresI)
    fix w u w'
    assume "?R b w" and run: "run_state (start_paid (createOrchestrator env kafka) b) w = (u, w')"
    then obtain st where st: "payment_accepted st None" and b: "moved a OrderStatusPaid 1 b"
      and w: "at P (r(ID a \<mapsto> b)) (cs @ [?pay st]) w" by blast
    obtain c where "moved b OrderStatusConfirmed 1 c" "at P (r(ID a \<mapsto> c)) (cs @ [?pay st]) w'"
      using ensuresD [OF start_paid_quiet [OF assms(1) stored_moved [OF b]] w run] b by auto
    with st moved_trans [OF b] show "resumed P r cs a w'" unfolding resumed_def Let_def by fastforce
  qed
qed

lemma resumed_finished:
  assumes "resumed P r cs a w" and "r (ID a) = Some a" and "Status a = OrderStatusReserved"
  shows "finished P (CallStart (ID a)) r cs w"
proof -
  obtain st err where res: "if payment_accepted st err
     then \<exists>b. moved a OrderStatusConfirmed 2 b
       \<and> at P (r(ID a \<mapsto> b)) (cs @ [Pay_called (ID a) (AmountMinor a) (Currency a) st err]) w
     else \<exists>b rel. moved a OrderStatusCanceled 1 b \<and> at P (r(ID a \<mapsto> b))
       (cs @ [Pay_called (ID a) (AmountMinor a) (Currency a) st err, Release_called (ID a) rel]) w"
    using assms(1) unfolding resumed_def Let_def by blast
  show ?thesis
  proof (cases "payment_accepted st err")
    case True
    then have "err = None" by (simp add: payment_accepted_def)
    with True res assms(2,3) show ?thesis
      by (auto intro!: finishedI resume_confirmed)
  next
    case False
    with res assms(2,3) show ?thesis by (auto intro!: finishedI resume_declined)
  qed
qed

lemma resumed_after_reserve:
  assumes "resumed P (r(ID a \<mapsto> b)) (cs @ [Reserve_called (ID a) None]) b w"
    and "r (ID a) = Some a" and "Status a = OrderStatusPending" and b: "moved a OrderStatusReserved 1 b"
  shows "finished P (CallStart (ID a)) r cs w"
proof -
  let ?pay = "\<lambda>st err. Pay_called (ID a) (AmountMinor a) (Currency a) st err"
  obtain st err where res: "if payment_accepted st err
     then \<exists>c. moved b OrderStatusConfirmed 2 c
       \<and> at P (r(ID a \<mapsto> c)) (cs @ [Reserve_called (ID a) None, ?pay st err]) w
     else \<exists>c rel. moved b OrderStatusCanceled 1 c \<and> at P (r(ID a \<mapsto> c))
       (cs @ [Reserve_called (ID a) None, ?pay st err, Release_called (ID a) rel]) w"
    using assms(1) [unfolded resumed_def Let_def moved_simps(1,3,4) [OF b] fun_upd_upd
        append_assoc append_Cons append_Nil] by blast
  show ?thesis
  proof (cases "payment_accepted st err")
    case True
    then have "err = None" by (simp add: payment_accepted_def)
    with True res assms(2,3) moved_trans [OF b, of OrderStatusConfirmed 2] show ?thesis
      by (auto intro!: finishedI start_confirmed)
  next
    case False
    with res assms(2,3) moved_trans [OF b, of OrderStatusCanceled 1] show ?thesis
      by (auto intro!: finishedI start_declined)
  qed
qed

lemma start_pending_quiet:
  assumes "quiet env" and "answers env P" and "stored r a" and "Status a = OrderStatusPending"
  shows "ensures (at P r cs) (start_pending (createOrchestrator env kafka) a)
           (\<lambda>_. finished P (CallStart (ID a)) r cs)"
  unfolding start_pending_def
proof (rule step_quiet_then)
  let ?R = "\<lambda>b w. moved a OrderStatusReserved 1 b
     \<and> at P (r(ID a \<mapsto> b)) (cs @ [Reserve_called (ID a) None]) w"
  have ra: "r (ID a) = Some a" using assms(3) by (simp add: stored_def)
  show "ensures (at P r cs) (handleReserve (createOrchestrator env kafka) a)
      (\<lambda>(err, b) w. case err of None \<Rightarrow> ?R b w | Some e \<Rightarrow> finished P (CallStart (ID a)) r cs w)"
  proof (rule ensures_post [OF handleReserve_quiet [OF assms]], goal_cases)
    case (1 x w)
    then show ?case
      using ra assms(4) by (cases x; cases "fst x") (auto intro!: finishedI intro: start_no_stock)
  qed
  fix b
  show "ensures (?R b) (start_reserved (createOrchestrator env kafka) b)
      (\<lambda>_. finished P (CallStart (ID a)) r cs)"
  proof (rule ensuresI)
    fix w u w'
    assume R: "?R b w" and run: "run_state (start_reserved (createOrchestrator env kafka) b) w = (u, w')"
    then have b: "moved a OrderStatusReserved 1 b" by simp
    have "resumed P (r(ID a \<mapsto> b)) (cs @ [Reserve_called (ID a) None]) b w'"
      using ensuresD [OF start_reserved_quiet [OF assms(1,2) stored_moved [OF b]] _ run] R b by auto
    then show "finished P (CallStart (ID a)) r cs w'"
      using ra assms(4) b by (rule resumed_after_reserve)
  qed
qed

text \<open>Loading the order; \<open>wf_orders\<close> makes its identifier the one asked for.\<close>

lemma load_quiet_then:
  assumes "quiet env" and "wf_orders r"
    and "\<And>e. r i = None \<Longrightarrow> ensures (at P r cs) (k (Inl e)) Q"
    and "\<And>a. r i = Some a \<Longrightarrow> stored r a \<Longrightarrow> ID a = i \<Longrightarrow> ensures (at P r cs) (k (Inr a)) Q"
  shows "ensures (at P r cs) (State_Monad.bind (orders_Get (createOrchestrator env kafka) i) k) Q"
proof (rule ensures_bind [OF get_quiet [OF assms(1)]])
  fix got :: "error + Order"
  show "ensures (\<lambda>w. got = order_Get i r \<and> at P r cs w) (k got) Q"
  proof (cases "r i")
    case None
    then show ?thesis using assms(3) by (auto simp: order_Get_def ensures_def)
  next
    case (Some a)
    then have "ID a = i" using assms(2) by (simp add: wf_orders_def)
    then show ?thesis using assms(4) [OF Some] Some by (auto simp: order_Get_def ensures_def stored_def)
  qed
qed

lemma start_body_quiet:
  assumes "quiet env" and "answers env P" and "wf_orders r"
  shows "ensures (at P r cs) (start_body (createOrchestrator env kafka) i)
           (\<lambda>_. finished P (CallStart i) r cs)"
  unfolding start_body_def
proof (rule load_quiet_then [OF assms(1,3)], goal_cases)
  case (1 e)
  then show ?case by (auto intro!: silent_then finished_unchanged missing)
next
  case (2 a)
  have reserved: "ensures (at P r cs) (start_reserved (createOrchestrator env kafka) a)
      (\<lambda>_. finished P (CallStart i) r cs)" if "Status a = OrderStatusReserved"
    by (rule ensures_post [OF start_reserved_quiet [OF assms(1,2) 2(2) that]])
      (use resumed_finished 2 that in blast)
  have paid: "ensures (at P r cs) (start_paid (createOrchestrator env kafka) a)
      (\<lambda>_. finished P (CallStart i) r cs)" if "Status a = OrderStatusPaid"
    by (rule ensures_post [OF start_paid_quiet [OF assms(1) 2(2) that]])
      (use 2 that in \<open>auto intro!: finishedI [where calls = "[]"] confirm_paid\<close>)
  have pending: "ensures (at P r cs) (start_pending (createOrchestrator env kafka) a)
      (\<lambda>_. finished P (CallStart i) r cs)" if "Status a = OrderStatusPending"
    using start_pending_quiet [OF assms(1,2) 2(2) that] 2(3) by simp
  have other: "ensures (at P r cs) skip (\<lambda>_. finished P (CallStart i) r cs)"
    if "Status a \<notin> {OrderStatusPending, OrderStatusReserved, OrderStatusPaid}"
    using that 2(1) by (auto intro!: ensures_return finished_unchanged start_skipped)
  show ?case
    unfolding sum.case
    by (rule then_silent, simp, cases "Status a")
      (simp_all only: OrderStatus.case pending reserved paid, (rule other, simp)+)
qed

lemma cancel_commit_quiet:
  assumes "quiet env" and "stored r a" and "\<not> terminal_status (Status a)"
  shows "ensures (at P r cs) (cancel_commit (createOrchestrator env kafka) a reason)
           (\<lambda>_ w. \<exists>b. moved a OrderStatusCanceled 1 b \<and> at P (r(ID a \<mapsto> b)) cs w)"
  unfolding cancel_commit_def Let_def
proof (rule update_quiet_then [OF assms(1,2)], goal_cases)
  case (3 b)
  then show ?case by (auto intro!: then_silent silent_then)
qed (use assms(3) in \<open>auto simp: terminal_status_def\<close>)

lemma refund_commit_quiet:
  assumes "quiet env" and "answers env P" and "stored r a"
    and "Status a \<in> {OrderStatusPaid, OrderStatusConfirmed}"
  shows "ensures (at P r cs) (refund_commit (createOrchestrator env kafka) a n reason)
           (\<lambda>_ w. \<exists>b rel. moved a OrderStatusRefunded 1 b
              \<and> at P (r(ID a \<mapsto> b)) (cs @ [Release_called (ID a) rel]) w)"
  unfolding refund_commit_def Let_def
proof (rule release_quiet_then [OF assms(2)], rule update_quiet_then [OF assms(1,3)], goal_cases)
  case (3 rel b)
  then show ?case by (auto intro!: then_silent silent_then)
qed (use assms(4) in \<open>auto simp: terminal_status_def\<close>)

lemma refund_call_then:
  assumes "answers env P"
    and "\<And>st e. ensures (at P r (cs @ [Refund_called i n cur st (Some e)])) (k st (Some e)) Q"
    and "\<And>st. ensures (at P r (cs @ [Refund_called i n cur st None])) (k st None) Q"
  shows "ensures (at P r cs) (State_Monad.bind (payments_Refund (createOrchestrator env kafka) i n cur)
           (\<lambda>(st, err). k st err)) Q"
proof (rule ensures_bind [OF service_calls_ensures(4) [OF assms(1)]], rule ensures_prod)
  fix x :: "PaymentStatus \<times> error option" and st err
  assume "x = (st, err)"
  then show "ensures ((\<lambda>(st, err). at P r (cs @ [Refund_called i n cur st err])) x) (k st err) Q"
    using assms(2,3) by (cases err) auto
qed

lemma finished_same:
  assumes "r (call_order c) = Some a" and "saga_outcome c (Some a) calls (Some a)"
    and "at P r (cs @ calls) w"
  shows "finished P c r cs w"
proof -
  have "r(call_order c \<mapsto> a) = r" using assms(1) by (rule fun_upd_idem)
  then show ?thesis using assms by (intro finishedI [of c r calls a]) simp_all
qed

lemma cancel_charged_quiet:
  assumes "quiet env" and "answers env P" and "stored r a" and "ID a = i" and "r i = Some a"
    and paid: "Status a \<in> {OrderStatusPaid, OrderStatusConfirmed}"
  shows "ensures (at P r (cs @ [Release_called (ID a) rel]))
     (State_Monad.bind (payments_Refund (createOrchestrator env kafka) (ID a) (AmountMinor a) (Currency a))
       (\<lambda>(_, err). case err of
          None \<Rightarrow> cancel_commit (createOrchestrator env kafka) a reason
        | Some _ \<Rightarrow> record_metric (createOrchestrator env kafka) RecordSagaFailed))
     (\<lambda>_. finished P (CallCancel i reason) r cs)"
proof (rule refund_call_then [OF assms(2)], goal_cases)
  case (1 st e)
  have "finished P (CallCancel i reason) r cs w"
    if "at P r ((cs @ [Release_called (ID a) rel]) @
          [Refund_called (ID a) (AmountMinor a) (Currency a) st (Some e)]) w" for w
    by (rule finished_same [OF _ cancel_refund_failed [OF paid]])
      (use that assms(4,5) in simp_all)
  then show ?case by (auto intro!: silent_then)
next
  case (2 st)
  have live: "\<not> terminal_status (Status a)" using paid by (auto simp: terminal_status_def)
  have "finished P (CallCancel i reason) r cs w"
    if "moved a OrderStatusCanceled 1 b" and "at P (r(ID a \<mapsto> b)) ((cs @ [Release_called (ID a) rel]) @
          [Refund_called (ID a) (AmountMinor a) (Currency a) st None]) w" for b w
    by (rule finishedI) (use that assms(4,5) cancel_refunded [OF paid that(1)] in auto)
  then show ?case
    unfolding option.case by (blast intro: ensures_post [OF cancel_commit_quiet [OF assms(1,3) live]])
qed

lemma cancel_body_quiet:
  assumes "quiet env" and "answers env P" and "wf_orders r"
  shows "ensures (at P r cs) (cancel_body (createOrchestrator env kafka) i reason)
           (\<lambda>_. finished P (CallCancel i reason) r cs)"
  unfolding cancel_body_def
proof (rule load_quiet_then [OF assms(1,3)], goal_cases)
  case (1 e)
  then show ?case by (auto intro!: silent_then finished_unchanged missing)
next
  case (2 a)
  have commit: "ensures (at P r (cs @ calls)) (cancel_commit (createOrchestrator env kafka) a reason)
      (\<lambda>_. finished P (CallCancel i reason) r cs)"
    if "\<not> terminal_status (Status a)" and "\<And>b. moved a OrderStatusCanceled 1 b \<Longrightarrow>
      saga_outcome (CallCancel i reason) (Some a) calls (Some b)" for calls
    by (rule ensures_post [OF cancel_commit_quiet [OF assms(1) 2(2) that(1)]])
      (use 2 that(2) in \<open>auto intro!: finishedI\<close>)
  consider (final) "terminal_status (Status a)" | (res) "Status a = OrderStatusReserved"
    | (paid) "Status a \<in> {OrderStatusPaid, OrderStatusConfirmed}"
    | (other) "\<not> terminal_status (Status a)"
        "Status a \<notin> {OrderStatusReserved, OrderStatusPaid, OrderStatusConfirmed}" by blast
  then show ?case
  proof cases
    case final
    then show ?thesis
      using 2(1) cancel_skipped [OF final]
      by (auto simp: terminal_status_def intro!: ensures_return finished_unchanged)
  next
    case res
    then have "ensures (at P r (cs @ [Release_called (ID a) rel]))
        (cancel_commit (createOrchestrator env kafka) a reason) (\<lambda>_. finished P (CallCancel i reason) r cs)" for rel
      using 2(3) by (intro commit) (auto simp: terminal_status_def intro: cancel_reserved)
    then show ?thesis using res by (auto intro!: release_quiet_then [OF assms(2)])
  next
    case paid
    note cancel_charged_quiet [OF assms(1,2) 2(2,3,1) paid]
    then show ?thesis using paid by (auto intro!: release_quiet_then [OF assms(2)])
  next
    case other
    then show ?thesis
      using commit [of "[]"] cancel_unprocessed [OF other] by (auto simp: terminal_status_def)
  qed
qed

lemma refund_body_quiet:
  assumes "quiet env" and "answers env P" and "wf_orders r"
  shows "ensures (at P r cs) (refund_body (createOrchestrator env kafka) i n reason)
           (\<lambda>_. finished P (CallRefund i n reason) r cs)"
  unfolding refund_body_def Let_def
proof (rule load_quiet_then [OF assms(1,3)], goal_cases)
  case (1 e)
  then show ?case by (auto intro!: silent_then finished_unchanged missing)
next
  case (2 a)
  let ?orc = "createOrchestrator env kafka"
  show ?case
  proof (cases "Status a \<in> {OrderStatusPaid, OrderStatusConfirmed}")
    case False
    then show ?thesis
      using 2(1) refund_skipped [OF False] by (auto intro!: ensures_return finished_unchanged)
  next
    case True
    have failed: "finished P (CallRefund i n reason) r cs w"
      if "at P r (cs @ [Refund_called (ID a) (refund_amount n a) (Currency a) st err]) w"
        and "err \<noteq> None \<or> st \<noteq> PaymentStatusRefunded" for w st err
      by (rule finished_same [OF _ refund_failed [OF True that(2)]]) (use that(1) 2 in simp_all)
    have ok: "finished P (CallRefund i n reason) r cs w"
      if "moved a OrderStatusRefunded 1 b" and "at P (r(ID a \<mapsto> b)) ((cs @
        [Refund_called (ID a) (refund_amount n a) (Currency a) PaymentStatusRefunded None])
        @ [Release_called (ID a) rel]) w" for w b rel
      by (rule finishedI) (use that 2 refund_done [OF True that(1)] in auto)
    have "ensures (at P r cs)
       (State_Monad.bind (payments_Refund ?orc (ID a) (refund_amount n a) (Currency a)) (\<lambda>(st, err).
          case err of None \<Rightarrow> if st \<noteq> PaymentStatusRefunded then record_metric ?orc RecordSagaFailed
                              else refund_commit ?orc a (refund_amount n a) reason
          | Some _ \<Rightarrow> record_metric ?orc RecordSagaFailed)) (\<lambda>_. finished P (CallRefund i n reason) r cs)"
    proof (rule refund_call_then [OF assms(2)], goal_cases)
      case (1 st e)
      then show ?case by (auto intro!: silent_then failed)
    next
      case (2 st)
      have "ensures (at P r (cs @ [Refund_called (ID a) (refund_amount n a) (Currency a) st None]))
          (refund_commit ?orc a (refund_amount n a) reason) (\<lambda>_. finished P (CallRefund i n reason) r cs)"
        if "st = PaymentStatusRefunded"
        unfolding that
        by (rule ensures_post [OF refund_commit_quiet [OF assms(1,2) \<open>stored r a\<close> True]]) (use ok in blast)
      then show ?case by (auto intro: silent_then failed)
    qed
    moreover have "Status a \<noteq> OrderStatusRefunded"
        "\<not> (Status a \<noteq> OrderStatusPaid \<and> Status a \<noteq> OrderStatusConfirmed)"
      using True by auto
    ultimately show ?thesis by (simp only: sum.case if_False refund_amount_def)
  qed
qed

lemma saga_run_quiet:
  assumes "quiet env" and "answers env P" and "wf_orders r"
  shows "ensures (at P r cs) (saga_run (createOrchestrator env kafka) c) (\<lambda>_. finished P c r cs)"
proof -
  let ?orc = "createOrchestrator env kafka"
  have after: "ensures (finished P c r cs) m (\<lambda>_. finished P c r cs)" if "silent m" for m c
    using that unfolding silent_def finished_def ensures_def by fastforce
  have wrap: "ensures (at P r cs) (State_Monad.bind m1 (\<lambda>_. State_Monad.bind m2 (\<lambda>_. m3)))
      (\<lambda>_. finished P c r cs)"
    if "silent m1" and "ensures (at P r cs) m2 (\<lambda>_. finished P c r cs)" and "silent m3" for m1 m2 m3 c
    by (rule then_silent [OF that(1)], rule ensures_bind [OF that(2)], rule after [OF that(3)])
  show ?thesis
  proof (cases c)
    case (CallStart i)
    have "ensures (at P r cs) (State_Monad.bind (record_metric ?orc RecordSagaStarted)
       (\<lambda>_. State_Monad.bind (start_body ?orc i) (\<lambda>_. State_Monad.bind
         (State_Monad.bind now_op (\<lambda>now. metrics_op (RecordSagaDuration (Sub now t))))
         (\<lambda>_. record_metric ?orc RecordSagaInFlightFinished)))) (\<lambda>_. finished P (CallStart i) r cs)" for t
      by (rule wrap) (auto intro: start_body_quiet [OF assms])
    then show ?thesis
      unfolding CallStart saga_run.simps Start_def orchestrator_fields option.case
      by (rule then_silent [OF silent_ops(3)])
  next
    case (CallCancel i reason)
    then show ?thesis
      unfolding CallCancel saga_run.simps Cancel_def
      by (intro wrap silent_record cancel_body_quiet assms)
  next
    case (CallRefund i n reason)
    then show ?thesis
      unfolding CallRefund saga_run.simps Refund_def
      by (intro wrap silent_record refund_body_quiet assms)
  qed
qed

end
