(* ===== verification/Saga_Properties.thy ===== *)
theory Saga_Properties
  imports Saga_Spec
begin

text \<open>
  The properties of the saga: no final status is ever left and no update is lost, whatever runs
  concurrently; a call that runs alone refines the specification; charges and refunds balance over
  any sequence of calls; the gauge of active sagas returns to its value. The last section evaluates
  interleavings in which the code does not keep the money and the status together.
\<close>

section \<open>Charges and refunds\<close>

fun is_charge :: "string \<Rightarrow> service_call \<Rightarrow> bool" where
  "is_charge i (Pay_called j n cur st err) = (i = j \<and> payment_accepted st err)"
| "is_charge i _ = False"

fun is_refund :: "string \<Rightarrow> service_call \<Rightarrow> bool" where
  "is_refund i (Refund_called j n cur st err) = (i = j \<and> err = None)"
| "is_refund i _ = False"

definition charges :: "string \<Rightarrow> service_call list \<Rightarrow> nat" where
  "charges i cs = length (filter (is_charge i) cs)"

definition refunds :: "string \<Rightarrow> service_call list \<Rightarrow> nat" where
  "refunds i cs = length (filter (is_refund i) cs)"

text \<open>The account of an order: the amounts of its accepted payments, and the answers without an error to its requests for
  a refund, each with amount and status. A refund is confirmed when the status is \<open>refunded\<close>.\<close>

fun charge_of :: "string \<Rightarrow> service_call \<Rightarrow> int option" where
  "charge_of i (Pay_called j n cur st err) = (if i = j \<and> payment_accepted st err then Some n else None)"
| "charge_of i _ = None"

fun refund_of :: "string \<Rightarrow> service_call \<Rightarrow> (int \<times> PaymentStatus) option" where
  "refund_of i (Refund_called j n cur st err) = (if i = j \<and> err = None then Some (n, st) else None)"
| "refund_of i _ = None"

definition charged :: "string \<Rightarrow> service_call list \<Rightarrow> int list" where
  "charged i cs = List.map_filter (charge_of i) cs"

definition refund_answers :: "string \<Rightarrow> service_call list \<Rightarrow> (int \<times> PaymentStatus) list" where
  "refund_answers i cs = List.map_filter (refund_of i) cs"

definition confirmed :: "(int \<times> PaymentStatus) list \<Rightarrow> int list" where
  "confirmed re = map fst (filter (\<lambda>(n, st). st = PaymentStatusRefunded) re)"

text \<open>What the status of an order says about the money. Before \<open>paid\<close> nothing was taken and no refund granted. A paid or
  confirmed order was charged its amount once and no refund was confirmed. A refunded order was charged its amount once
  and exactly one refund was confirmed, of the whole amount or a positive part of it. A canceled order was never charged,
  or charged its amount once, and the last answer of the provider granted the refund of the whole amount, with no refund
  confirmed before; that this answer has the status \<open>refunded\<close> is not checked by \<open>Cancel\<close>.\<close>

fun money_matches :: "OrderStatus \<Rightarrow> int \<Rightarrow> int list \<Rightarrow> (int \<times> PaymentStatus) list \<Rightarrow> bool" where
  "money_matches OrderStatusPaid n ch re = (ch = [n] \<and> confirmed re = [])"
| "money_matches OrderStatusConfirmed n ch re = (ch = [n] \<and> confirmed re = [])"
| "money_matches OrderStatusRefunded n ch re =
     (ch = [n] \<and> length (confirmed re) = 1 \<and> (hd (confirmed re) = n \<or> 0 < hd (confirmed re) \<and> hd (confirmed re) < n))"
| "money_matches OrderStatusCanceled n ch re =
     (ch = [] \<and> re = [] \<or> ch = [n] \<and> re \<noteq> [] \<and> fst (last re) = n \<and> confirmed (butlast re) = [])"
| "money_matches _ n ch re = (ch = [] \<and> re = [])"

definition ledger_ok :: "order_repo \<Rightarrow> service_call list \<Rightarrow> bool" where
  "ledger_ok r cs \<longleftrightarrow>
     (\<forall>i a. r i = Some a \<longrightarrow> money_matches (Status a) (AmountMinor a) (charged i cs) (refund_answers i cs))"

lemma account_append [simp]:
  "charged i (cs @ ds) = charged i cs @ charged i ds"
  "refund_answers i (cs @ ds) = refund_answers i cs @ refund_answers i ds"
  "confirmed (xs @ ys) = confirmed xs @ confirmed ys" "confirmed [] = []"
  by (simp_all add: charged_def refund_answers_def confirmed_def map_filter_def)

lemma account_calls [simp]:
  "charged i [] = []" "refund_answers i [] = []"
  "charged i (c # cs) = (case charge_of i c of None \<Rightarrow> charged i cs | Some n \<Rightarrow> n # charged i cs)"
  "refund_answers i (c # cs) = (case refund_of i c of None \<Rightarrow> refund_answers i cs | Some x \<Rightarrow> x # refund_answers i cs)"
  "confirmed ((n, st) # re) = (if st = PaymentStatusRefunded then n # confirmed re else confirmed re)"
  by (simp_all add: charged_def refund_answers_def confirmed_def map_filter_simps split: option.split)

text \<open>A call touches the account of its own order only.\<close>

lemma outcome_other:
  "saga_outcome c before calls after \<Longrightarrow> i \<noteq> call_order c \<Longrightarrow> charged i calls = [] \<and> refund_answers i calls = []"
  by (auto elim!: saga_outcome.cases)

lemma outcome_ledger:
  assumes "saga_outcome c (Some a) calls after"
    and "money_matches (Status a) (AmountMinor a) ch re"
  shows "\<exists>b. after = Some b \<and> money_matches (Status b) (AmountMinor b)
    (ch @ charged (call_order c) calls) (re @ refund_answers (call_order c) calls)"
  using assms
  by (cases rule: saga_outcome.cases)
    (auto simp: payment_accepted_def terminal_status_def refund_amount_def elim!: money_matches.elims)

lemma outcome_None: "saga_outcome c None calls after \<Longrightarrow> calls = [] \<and> after = None"
  by (auto elim: saga_outcome_NoneE)

lemma ledger_step:
  assumes "saga_outcome c (r (call_order c)) calls after" and "ledger_ok r cs"
  shows "ledger_ok (r(call_order c := after)) (cs @ calls)"
proof (cases "r (call_order c)")
  case None
  then show ?thesis using assms outcome_None [of c calls after] by (simp add: ledger_ok_def)
next
  case (Some a)
  let ?i = "call_order c"
  have "money_matches (Status a) (AmountMinor a) (charged ?i cs) (refund_answers ?i cs)"
    using assms(2) Some by (simp add: ledger_ok_def)
  then have "\<exists>b. after = Some b \<and>
      money_matches (Status b) (AmountMinor b) (charged ?i (cs @ calls)) (refund_answers ?i (cs @ calls))"
    using outcome_ledger assms(1) Some by simp
  moreover have "charged j calls = [] \<and> refund_answers j calls = []" if "j \<noteq> ?i" for j
    using outcome_other [OF assms(1) that] .
  ultimately show ?thesis using assms(2) by (auto simp: ledger_ok_def)
qed

lemma outcome_wf:
  "saga_outcome c (r (call_order c)) calls after \<Longrightarrow> wf_orders r \<Longrightarrow> wf_orders (r(call_order c := after))"
proof -
  assume out: "saga_outcome c (r (call_order c)) calls after" and wf: "wf_orders r"
  then have "after = Some b \<Longrightarrow> \<exists>a. r (call_order c) = Some a \<and> ID b = ID a" for b
    by (cases rule: saga_outcome.cases) auto
  then show ?thesis using wf by (fastforce simp: wf_orders_def)
qed

lemma saga_run_finished:
  assumes "quiet env" and "answers env P" and "wf_orders (w_orders w)" and "list_all P (svc_calls w)"
    and "run_state (saga_run (createOrchestrator env kafka) c) w = (u, w')"
  obtains calls after where "saga_outcome c (w_orders w (call_order c)) calls after"
    and "w_orders w' = (w_orders w)(call_order c := after)" and "svc_calls w' = svc_calls w @ calls"
    and "list_all P calls"
proof -
  have "at P (w_orders w) (svc_calls w) w" using assms(4) by (simp add: at_def)
  with ensuresD [OF saga_run_quiet [OF assms(1-3)] _ assms(5)]
  have "finished P c (w_orders w) (svc_calls w) w'" by blast
  then show ?thesis using that by (auto simp: finished_def at_def)
qed

lemma saga_calls_ledger:
  assumes "quiet env" and "wf_orders (w_orders w)" and "ledger_ok (w_orders w) (svc_calls w)"
    and "run_state (saga_calls (createOrchestrator env kafka) cs) w = (u, w')"
  shows "ledger_ok (w_orders w') (svc_calls w')"
  using assms(2-4)
proof (induction cs arbitrary: w)
  case Nil
  then show ?case by simp
next
  case (Cons c cs)
  obtain u1 w1 where w1: "run_state (saga_run (createOrchestrator env kafka) c) w = (u1, w1)"
    by (cases "run_state (saga_run (createOrchestrator env kafka) c) w")
  have any: "answers env (\<lambda>_. True)" by (simp add: answers_def)
  obtain calls after where out: "saga_outcome c (w_orders w (call_order c)) calls after"
    "w_orders w1 = (w_orders w)(call_order c := after)" "svc_calls w1 = svc_calls w @ calls"
    using saga_run_finished [OF assms(1) any Cons.prems(1) _ w1] by (auto simp: list_all_iff)
  have "ledger_ok (w_orders w1) (svc_calls w1)"
    unfolding out(2,3) by (rule ledger_step [OF out(1) Cons.prems(2)])
  moreover have "wf_orders (w_orders w1)" unfolding out(2) by (rule outcome_wf [OF out(1) Cons.prems(1)])
  moreover have "run_state (saga_calls (createOrchestrator env kafka) cs) w1 = (u, w')"
    using Cons.prems(3) w1 by simp
  ultimately show ?case using Cons.IH by blast
qed

section \<open>The gauge of active sagas\<close>

definition active :: "int \<Rightarrow> 's world \<Rightarrow> bool" where
  "active n w \<longleftrightarrow> activeSagas (w_metrics w) = n"

lemma active_ops [simp, intro]:
  "keeps (active n) (others env)" "keeps (active n) (on_orders f)" "keeps (active n) (service g logged)"
  "keeps (active n) now_op" "keeps (active n) (enqueue_op env m)" "keeps (active n) (append_op ev)"
  "keeps (active n) (State (\<lambda>w. ((), w\<lparr>w_clock := w_clock w + d\<rparr>)))"
  by (simp_all add: keeps_def ensures_def active_def world_op_defs split: prod.split)

lemma active_metric:
  "(\<And>m. activeSagas (f m) = activeSagas m) \<Longrightarrow>
   keeps (active n) (record_metric (createOrchestrator env kafka) f)"
  by (simp add: keeps_def ensures_def active_def record_metric_def metrics_op_def)

lemma active_metrics [simp, intro]:
  "keeps (active n) (record_metric (createOrchestrator env kafka) RecordSagaFailed)"
  "keeps (active n) (record_metric (createOrchestrator env kafka) RecordSagaCompleted)"
  "keeps (active n) (record_metric (createOrchestrator env kafka) RecordSagaCanceled)"
  "keeps (active n) (record_metric (createOrchestrator env kafka) RecordSagaRefunded)"
  "keeps (active n) (record_metric (createOrchestrator env kafka) RecordOutboxEvent)"
  "keeps (active n) (record_metric (createOrchestrator env kafka) RecordTimelineEvent)"
  by (rule active_metric; simp add: metric_defs)+

lemma active_publish [simp, intro]:
  "keeps (active n) (publishSagaEvent (createOrchestrator env kafka) ty i meta)"
  by (auto simp: publishSagaEvent_def NewSagaEvent_def orchestrator_defs)

lemma active_emit [simp, intro]:
  "keeps (active n) (emitEvent (createOrchestrator env kafka) a ty payload t)"
  unfolding emitEvent_def Let_def orchestrator_fields option.case by auto

lemma active_update [simp, intro]:
  "keeps (active n) (updateStatus (createOrchestrator env kafka) a st)"
proof -
  have "keeps (active n) (update_attempts (createOrchestrator env kafka) st left a)" for left a
    by (induction left arbitrary: a) (auto simp: Let_def emitStatusEvent_def)
  then show ?thesis by (auto simp: updateStatus_def)
qed

lemma active_handlers [simp, intro]:
  "keeps (active n) (releaseInventory (createOrchestrator env kafka) a)"
  "keeps (active n) (failOrder (createOrchestrator env kafka) a st e)"
  "keeps (active n) (handleConfirm (createOrchestrator env kafka) a)"
  "keeps (active n) (cancel_commit (createOrchestrator env kafka) a reason)"
  by (auto simp: releaseInventory_def failOrder_def handleConfirm_def cancel_commit_def Let_def)

lemma active_steps [simp, intro]:
  "keeps (active n) (handleReserve (createOrchestrator env kafka) a)"
  "keeps (active n) (handlePayment (createOrchestrator env kafka) a)"
  "keeps (active n) (refund_commit (createOrchestrator env kafka) a amount reason)"
  by (auto simp: handleReserve_def handlePayment_def refund_commit_def Let_def)

lemma active_bodies [simp, intro]:
  "keeps (active n) (start_body (createOrchestrator env kafka) i)"
  "keeps (active n) (cancel_body (createOrchestrator env kafka) i reason)"
  "keeps (active n) (refund_body (createOrchestrator env kafka) i amount reason)"
  by (auto simp: start_body_def start_pending_def start_reserved_def start_paid_def cancel_body_def
      refund_body_def Let_def split: OrderStatus.split)

lemma active_bracket:
  assumes "\<And>m. activeSagas (f m) = activeSagas m + 1" and "\<And>n. keeps (active n) body"
  shows "ensures (active n) (State_Monad.bind (metrics_op f) (\<lambda>_. State_Monad.bind body
           (\<lambda>_. metrics_op RecordSagaInFlightFinished))) (\<lambda>_. active n)"
proof (rule ensures_bind)
  show "ensures (active n) (metrics_op f) (\<lambda>_. active (n + 1))"
    by (simp add: ensures_def active_def metrics_op_def assms(1))
  show "ensures (active (n + 1)) (State_Monad.bind body (\<lambda>_. metrics_op RecordSagaInFlightFinished))
      (\<lambda>_. active n)" for u :: unit
    by (rule ensures_bind [OF keeps_ensures [OF assms(2)]])
      (simp add: ensures_def active_def metrics_op_def metric_defs)
qed

lemma saga_run_active: "ensures (active n) (saga_run (createOrchestrator env kafka) c) (\<lambda>_. active n)"
proof (cases c)
  case (CallStart i)
  have "keeps (active n) (metrics_op (RecordSagaDuration d))" for n d
    by (simp add: keeps_def ensures_def active_def metrics_op_def metric_defs)
  then have bracket: "ensures (active n) (State_Monad.bind (metrics_op RecordSagaStarted) (\<lambda>_. State_Monad.bind
      (State_Monad.bind (start_body (createOrchestrator env kafka) i)
        (\<lambda>_. State_Monad.bind now_op (\<lambda>now. metrics_op (RecordSagaDuration (Sub now t)))))
      (\<lambda>_. metrics_op RecordSagaInFlightFinished))) (\<lambda>_. active n)" for t
    by (intro active_bracket) (auto simp: metric_defs)
  show ?thesis
    unfolding CallStart saga_run.simps Start_def record_metric_def orchestrator_fields option.case
    by (rule ensures_bind [OF keeps_ensures [OF active_ops(4)]])
      (use bracket in simp)
next
  case (CallCancel i reason)
  then show ?thesis
    by (auto simp: Cancel_def record_metric_def metric_defs intro!: active_bracket)
next
  case (CallRefund i amount reason)
  then show ?thesis
    by (auto simp: Refund_def record_metric_def metric_defs intro!: active_bracket)
qed

section \<open>What the saga guarantees\<close>

text \<open>Other users that save every order once before each access of the store.\<close>

definition bumping_env :: "mock_state saga_env" where
  "bumping_env = mock_env\<lparr>e_others := (\<lambda>r s. (\<lambda>i. map_option (\<lambda>a. a\<lparr>Version := Version a + 1\<rparr>) (r i), s))\<rparr>"

lemma bumping_env_advances: "env_advances bumping_env"
  by (auto simp: env_advances_def bumping_env_def wf_orders_def advances_def order_advance_def)

text \<open>C1. Whatever other users of the order store do between the saga's accesses, as long as they
  themselves only advance orders, any sequence of \<open>Start\<close>, \<open>Cancel\<close> and \<open>Refund\<close> calls, with any answers
  of the services, only advances orders: no stored version is overwritten by an older one, the fields
  set at creation never change, and an order that was canceled or refunded keeps that status.\<close>

theorem saga_only_advances:
  assumes "env_advances env" and "wf_orders (w_orders w)"
    and "run_state (saga_calls (createOrchestrator env kafka) cs) w = (u, w')"
  shows "wf_orders (w_orders w') \<and> (\<forall>i a. w_orders w i = Some a \<longrightarrow> (\<exists>b. w_orders w' i = Some b
      \<and> ID b = ID a \<and> CustomerID b = CustomerID a \<and> Currency b = Currency a
      \<and> AmountMinor b = AmountMinor a \<and> Items b = Items a \<and> CreatedAt b = CreatedAt a
      \<and> (b = a \<or> Version a < Version b)
      \<and> (Status a \<in> {OrderStatusCanceled, OrderStatusRefunded} \<longrightarrow> Status b = Status a)))"
proof -
  have "wf_orders (w_orders w')" and adv: "advances (w_orders w) (w_orders w')"
    using saga_calls_advances [OF assms] by simp_all
  moreover have "\<exists>b. w_orders w' i = Some b \<and> order_advance a b" if "w_orders w i = Some a" for i a
    using adv that by (simp add: advances_def)
  ultimately show ?thesis
    by (fastforce simp: order_advance_def terminal_status_def)
qed

theorem saga_only_advances_witness:
  "\<exists>b. w_orders (snd (run_state (saga_calls (createOrchestrator bumping_env True)
        [CallStart ''o1'', CallRefund ''o1'' 0 []])
        (new_world new_mock_state [''o1'' \<mapsto> example_order ''o1'' OrderStatusCanceled 0 5]))) ''o1'' = Some b
      \<and> Status b = OrderStatusCanceled"
proof -
  let ?w = "new_world new_mock_state [''o1'' \<mapsto> example_order ''o1'' OrderStatusCanceled 0 5]"
    and ?m = "saga_calls (createOrchestrator bumping_env True) [CallStart ''o1'', CallRefund ''o1'' 0 []]"
  have wf: "wf_orders (w_orders ?w)" by (simp add: new_world_def wf_orders_def example_order_def)
  have w: "w_orders ?w ''o1'' = Some (example_order ''o1'' OrderStatusCanceled 0 5)"
    by (simp add: new_world_def)
  have run: "run_state ?m ?w = (fst (run_state ?m ?w), snd (run_state ?m ?w))"
    by (rule prod.collapse [symmetric])
  have st: "Status (example_order ''o1'' OrderStatusCanceled 0 5) = OrderStatusCanceled"
    by (simp add: example_order_def)
  show ?thesis
    using saga_only_advances [OF bumping_env_advances wf run] w st by (metis insertI1)
qed

text \<open>C2. Without interference a call refines the specification \<open>saga_outcome\<close>, whatever the inventory
  and payment services answer: the calls it makes to them and the order it leaves behind are those of
  one of the outcomes, and no other order is touched. In particular \<open>Start\<close> confirms a pending order
  after exactly one accepted payment, and releases the reservation and cancels the order when the
  payment is declined.\<close>

theorem saga_refines_outcome:
  assumes "quiet env" and "wf_orders (w_orders w)"
    and "run_state (saga_run (createOrchestrator env kafka) c) w = (u, w')"
  shows "\<exists>calls after. saga_outcome c (w_orders w (call_order c)) calls after
      \<and> w_orders w' = (w_orders w)(call_order c := after) \<and> svc_calls w' = svc_calls w @ calls"
proof -
  have "answers env (\<lambda>_. True)" by (simp add: answers_def)
  moreover have "list_all (\<lambda>_. True) (svc_calls w)" by (simp add: list_all_iff)
  ultimately obtain calls after where "saga_outcome c (w_orders w (call_order c)) calls after"
      "w_orders w' = (w_orders w)(call_order c := after)" "svc_calls w' = svc_calls w @ calls"
    using saga_run_finished [OF assms(1) _ assms(2) _ assms(3)] by blast
  then show ?thesis by blast
qed

lemma quiet_mock: "quiet mock_env"
  by (simp add: quiet_def mock_env_def)

theorem saga_refines_outcome_witness:
  "\<exists>calls after. saga_outcome (CallStart ''o1'') (Some (example_order ''o1'' OrderStatusPending 0 5)) calls after
      \<and> svc_calls (snd (run_state (Start (createOrchestrator mock_env True) ''o1'')
          (new_world new_mock_state [''o1'' \<mapsto> example_order ''o1'' OrderStatusPending 0 5]))) = calls"
proof -
  let ?w = "new_world new_mock_state [''o1'' \<mapsto> example_order ''o1'' OrderStatusPending 0 5]"
    and ?m = "saga_run (createOrchestrator mock_env True) (CallStart ''o1'')"
  have wf: "wf_orders (w_orders ?w)" by (simp add: new_world_def wf_orders_def example_order_def)
  have run: "run_state ?m ?w = (fst (run_state ?m ?w), snd (run_state ?m ?w))"
    by (rule prod.collapse [symmetric])
  have "svc_calls ?w = []" by (simp add: new_world_def svc_calls_def)
  then show ?thesis
    using saga_refines_outcome [OF quiet_mock wf run] by (auto simp: new_world_def)
qed

text \<open>C3. Over any sequence of saga calls that do not overlap, with any answers of the services, the money matches the
  status of every order if it did before (as for new pending orders without calls): nothing is charged before the order
  is paid; a paid or confirmed order was charged exactly its amount, once, and no refund was confirmed; a refunded order
  got exactly one confirmed refund, of the amount or a positive part of it; a canceled order was not charged at all, or
  the provider granted the refund of its whole amount, and nothing was confirmed before that (the status of that answer
  is ignored by \<open>Cancel\<close>; with the status \<open>refunded\<close> the refund is confirmed).\<close>

theorem saga_ledger:
  assumes "quiet env" and "wf_orders (w_orders w)"
    and "\<forall>i a. w_orders w i = Some a \<longrightarrow>
      money_matches (Status a) (AmountMinor a) (charged i (svc_calls w)) (refund_answers i (svc_calls w))"
    and "run_state (saga_calls (createOrchestrator env kafka) cs) w = (u, w')"
    and "w_orders w' i = Some b"
  shows "money_matches (Status b) (AmountMinor b) (charged i (svc_calls w')) (refund_answers i (svc_calls w'))"
  using saga_calls_ledger [OF assms(1,2) _ assms(4)] assms(3,5) by (simp add: ledger_ok_def)

text \<open>The gauge of active sagas is balanced: after any call it has the value it had before, whatever
  the services answer, other users do, or errors occur on the way.\<close>

theorem saga_gauge_balanced:
  "activeSagas (w_metrics (snd (run_state (saga_run (createOrchestrator env kafka) c) w))) =
     activeSagas (w_metrics w)"
proof -
  obtain u w' where run: "run_state (saga_run (createOrchestrator env kafka) c) w = (u, w')"
    by (cases "run_state (saga_run (createOrchestrator env kafka) c) w")
  have "active (activeSagas (w_metrics w)) w'"
    by (rule ensuresD [OF saga_run_active _ run]) (simp add: active_def)
  then show ?thesis using run by (simp add: active_def)
qed

section \<open>Interleavings\<close>

text \<open>An orchestrator whose call of the inventory or payment service takes so long that another
  goroutine completes \<open>other\<close> before the answer arrives.\<close>

definition during_Reserve :: "'w orchestrator \<Rightarrow> ('w, unit) prog \<Rightarrow> 'w orchestrator" where
  "during_Reserve orc other = orc\<lparr>inventory_Reserve := (\<lambda>i items. do {
     err \<leftarrow> inventory_Reserve orc i items; other; return err })\<rparr>"

definition during_Pay :: "'w orchestrator \<Rightarrow> ('w, unit) prog \<Rightarrow> 'w orchestrator" where
  "during_Pay orc other = orc\<lparr>payments_Pay := (\<lambda>i n cur. do {
     res \<leftarrow> payments_Pay orc i n cur; other; return res })\<rparr>"

definition during_Refund :: "'w orchestrator \<Rightarrow> ('w, unit) prog \<Rightarrow> 'w orchestrator" where
  "during_Refund orc other = orc\<lparr>payments_Refund := (\<lambda>i n cur. do {
     res \<leftarrow> payments_Refund orc i n cur; other; return res })\<rparr>"

definition mock_orchestrator :: "mock_state world orchestrator" where
  "mock_orchestrator = createOrchestrator mock_env True"

definition mock_world :: "OrderStatus \<Rightarrow> mock_state world" where
  "mock_world st = new_world new_mock_state [''o1'' \<mapsto> example_order ''o1'' st 0 5]"

text \<open>Evaluation of a program on a world: a definition is unfolded only when it runs.\<close>

lemmas run_defs = Start_def Cancel_def Refund_def start_body_def start_pending_def start_reserved_def
  start_paid_def cancel_body_def cancel_commit_def refund_body_def refund_commit_def handleReserve_def
  handlePayment_def handleConfirm_def failOrder_def releaseInventory_def updateStatus_def
  emitStatusEvent_def emitEvent_def publishSagaEvent_def NewSagaEvent_def record_metric_def

lemma kafka_field: "kafkaProducer (createOrchestrator env True) =
    Some (\<lambda>topic key event. service (e_Publish env event) (\<lambda>_. Event_published event))"
  by (simp add: orchestrator_defs)

lemmas run_eval = run_defs [THEN arg_cong, of run_state, THEN fun_cong]

lemmas mock_eval = during_Reserve_def during_Pay_def during_Refund_def mock_orchestrator_def kafka_field
  world_op_defs mock_env_def mock_world_def new_world_def new_mock_state_def example_order_def
  mock_Reserve_def mock_Release_def mock_Pay_def mock_Refund_def inventory_NewMockService_def
  payment_NewMockService_def order_Get_def order_Save_def outbox_Enqueue_def timeline_Append_def
  maxRetries_def numeral_3_eq_3 terminal_status_def IsZero_def IsVersionConflict_def

definition account_after :: "(mock_state world, unit) prog \<Rightarrow> mock_state world \<Rightarrow> OrderStatus option \<times> nat \<times> nat" where
  "account_after m w = (case run_state m w of (_, w') \<Rightarrow>
     (map_option Status (w_orders w' ''o1''), charges ''o1'' (svc_calls w'), refunds ''o1'' (svc_calls w')))"

text \<open>The mock services with a provider that answers a refund without an error and with a failed status, as
  \<open>RefundStatus\<close> of the mock lets it.\<close>

definition unrefunding_env :: "mock_state saga_env" where
  "unrefunding_env = mock_env\<lparr>e_Refund := (\<lambda>i n cur s. ((PaymentStatusFailed, None), s))\<rparr>"

theorem saga_ledger_witness:
  "\<exists>b w'. run_state (saga_calls (createOrchestrator unrefunding_env True)
         [CallStart ''o1'', CallRefund ''o1'' 0 [], CallCancel ''o1'' []])
       (new_world new_mock_state [''o1'' \<mapsto> example_order ''o1'' OrderStatusPending 0 5]) = ((), w')
     \<and> w_orders w' ''o1'' = Some b \<and> Status b = OrderStatusCanceled
     \<and> money_matches (Status b) (AmountMinor b) (charged ''o1'' (svc_calls w')) (refund_answers ''o1'' (svc_calls w'))"
proof -
  let ?w = "new_world new_mock_state [''o1'' \<mapsto> example_order ''o1'' OrderStatusPending 0 5]"
    and ?m = "saga_calls (createOrchestrator unrefunding_env True) [CallStart ''o1'', CallRefund ''o1'' 0 [], CallCancel ''o1'' []]"
  obtain w' where run: "run_state ?m ?w = ((), w')"
    by (cases "run_state ?m ?w") auto
  have quiet: "quiet unrefunding_env" and wf: "wf_orders (w_orders ?w)"
    and start: "\<forall>i a. w_orders ?w i = Some a \<longrightarrow>
      money_matches (Status a) (AmountMinor a) (charged i (svc_calls ?w)) (refund_answers i (svc_calls ?w))"
    by (auto simp: quiet_def unrefunding_env_def mock_env_def wf_orders_def new_world_def svc_calls_def
        example_order_def split: if_splits)
  have "map_option Status (w_orders (snd (run_state ?m ?w)) ''o1'') = Some OrderStatusCanceled"
    by (simp add: unrefunding_env_def run_eval mock_eval Let_def)
  then obtain b where b: "w_orders w' ''o1'' = Some b" "Status b = OrderStatusCanceled"
    using run by auto
  from saga_ledger [OF quiet wf start run b(1)] run b show ?thesis by blast
qed

text \<open>\<open>Cancel\<close> of a confirmed order whose refund is answered with a failed status: the order is canceled although the
  provider did not report it as refunded.\<close>

theorem cancel_ignores_refund_status:
  "map_option Status (w_orders (snd (run_state (Cancel (createOrchestrator unrefunding_env True) ''o1'' [])
     (mock_world OrderStatusConfirmed))) ''o1'') = Some OrderStatusCanceled"
  by (simp add: unrefunding_env_def run_eval mock_eval Let_def)

text \<open>C40. Two concurrent \<open>Start\<close> calls for one order: the one that loses the race for the first status
  change reloads the order, finds it confirmed (which is not a final status for \<open>updateStatus\<close>), moves
  it back to \<open>reserved\<close> and charges the customer a second time.\<close>

theorem concurrent_starts_charge_twice:
  "account_after (Start (during_Reserve mock_orchestrator (Start mock_orchestrator ''o1'')) ''o1'')
     (mock_world OrderStatusPending) = (Some OrderStatusConfirmed, 2, 0)"
  by (simp add: account_after_def run_eval mock_eval Let_def svc_calls_def charges_def refunds_def
      payment_accepted_def)

text \<open>A \<open>Cancel\<close> that completes while \<open>Start\<close> waits for the payment provider: the saga then finds
  the order canceled and stops, and the captured payment is never refunded.\<close>

theorem cancel_during_payment_keeps_charge:
  "account_after (Start (during_Pay mock_orchestrator (Cancel mock_orchestrator ''o1'' [])) ''o1'')
     (mock_world OrderStatusPending) = (Some OrderStatusCanceled, 1, 0)"
  by (simp add: account_after_def run_eval mock_eval Let_def svc_calls_def charges_def refunds_def
      payment_accepted_def)

text \<open>A \<open>Cancel\<close> that completes while \<open>Refund\<close> waits for the payment provider: both refund the
  confirmed order, since neither claims it with a status change before calling the provider.\<close>

theorem cancel_during_refund_refunds_twice:
  "account_after (Refund (during_Refund mock_orchestrator (Cancel mock_orchestrator ''o1'' [])) ''o1'' 0 [])
     (mock_world OrderStatusConfirmed) = (Some OrderStatusCanceled, 0, 2)"
  by (simp add: account_after_def run_eval mock_eval Let_def svc_calls_def charges_def refunds_def
      payment_accepted_def)

end
