(* ===== verification/Outbox_Worker.thy ===== *)
theory Outbox_Worker
  imports Outbox_Repository Programs
begin

text \<open>
  \<open>internal/service/outbox/worker.go\<close>: the worker that publishes outbox messages, with retries, backoff
  and a dead letter queue. Its dependencies are the record \<open>outbox_env\<close> of programs over a world. The
  \<open>select\<close> that waits for the backoff or the end of the context is \<open>ob_wait\<close>: \<open>None\<close> when the timer fired,
  the context's error otherwise. Ages are kept in nanoseconds (the gauge shows seconds).
\<close>

record OutboxMetrics =
  attempts_sent :: int
  attempts_retry_error :: int
  attempts_failed :: int
  attempts_dlq_failed :: int
  outboxPendingRecords :: int
  outboxOldestPendingAge :: duration

record WorkerOptions =
  opt_has_DLQ :: bool
  opt_PollInterval :: duration
  opt_WorkerBatchSize :: int
  opt_MaxAttempts :: int
  opt_RetryBaseDelay :: duration

record OutboxWorker =
  has_outbox_repo :: bool
  has_publisher :: bool
  has_dlqPublisher :: bool
  pollInterval :: duration
  worker_batchSize :: int
  maxAttempts :: int
  retryBaseDelay :: duration

record 'w outbox_env =
  ob_PullPending :: "int \<Rightarrow> ('w, error + OutboxMessage list) prog"
  ob_Stats :: "('w, error + OutboxStats) prog"
  ob_MarkSent :: "string \<Rightarrow> ('w, error option) prog"
  ob_MarkFailed :: "string \<Rightarrow> ('w, error option) prog"
  ob_Publish :: "OutboxMessage \<Rightarrow> ('w, error option) prog"
  ob_DLQPublish :: "OutboxMessage \<Rightarrow> ('w, error option) prog"
  ob_Err :: "('w, error option) prog"
  ob_wait :: "duration \<Rightarrow> ('w, error option) prog"
  ob_Now :: "('w, gotime) prog"
  ob_metric :: "(OutboxMetrics \<Rightarrow> OutboxMetrics) \<Rightarrow> ('w, unit) prog"
  ob_Marshal :: "jobject \<Rightarrow> error + bytes"
  ob_Format :: "gotime \<Rightarrow> string"

definition defaultPollInterval :: duration where "defaultPollInterval = 1 * second"
definition defaultBatchSize :: int where "defaultBatchSize = 100"
definition defaultMaxAttempts :: int where "defaultMaxAttempts = 3"
definition defaultRetryBaseDelay :: duration where "defaultRetryBaseDelay = 50 * millisecond"

definition WithDLQPublisher :: "bool \<Rightarrow> WorkerOptions \<Rightarrow> WorkerOptions" where
  "WithDLQPublisher b opts = opts\<lparr>opt_has_DLQ := b\<rparr>"

definition WithPollInterval :: "duration \<Rightarrow> WorkerOptions \<Rightarrow> WorkerOptions" where
  "WithPollInterval d opts = opts\<lparr>opt_PollInterval := d\<rparr>"

definition WithWorkerBatchSize :: "int \<Rightarrow> WorkerOptions \<Rightarrow> WorkerOptions" where
  "WithWorkerBatchSize n opts = opts\<lparr>opt_WorkerBatchSize := n\<rparr>"

definition WithMaxAttempts :: "int \<Rightarrow> WorkerOptions \<Rightarrow> WorkerOptions" where
  "WithMaxAttempts n opts = opts\<lparr>opt_MaxAttempts := n\<rparr>"

definition WithRetryBaseDelay :: "duration \<Rightarrow> WorkerOptions \<Rightarrow> WorkerOptions" where
  "WithRetryBaseDelay d opts = opts\<lparr>opt_RetryBaseDelay := d\<rparr>"

definition NewWorker :: "bool \<Rightarrow> bool \<Rightarrow> (WorkerOptions \<Rightarrow> WorkerOptions) list \<Rightarrow> OutboxWorker" where
  "NewWorker repo publisher options =
     (let opts = fold (\<lambda>option. option) options
                   \<lparr>opt_has_DLQ = False, opt_PollInterval = defaultPollInterval,
                    opt_WorkerBatchSize = defaultBatchSize, opt_MaxAttempts = defaultMaxAttempts,
                    opt_RetryBaseDelay = defaultRetryBaseDelay\<rparr>
      in \<lparr>has_outbox_repo = repo, has_publisher = publisher, has_dlqPublisher = opt_has_DLQ opts,
          pollInterval = (if opt_PollInterval opts \<le> 0 then defaultPollInterval else opt_PollInterval opts),
          worker_batchSize = (if opt_WorkerBatchSize opts \<le> 0 then defaultBatchSize
                              else opt_WorkerBatchSize opts),
          maxAttempts = (if opt_MaxAttempts opts \<le> 0 then defaultMaxAttempts else opt_MaxAttempts opts),
          retryBaseDelay = (if opt_RetryBaseDelay opts < 0 then 0 else opt_RetryBaseDelay opts)\<rparr>)"

definition maxDuration :: duration where
  "maxDuration = 2 ^ 63 - 1"

text \<open>The doubling loop of \<open>retryBackoff\<close>, run \<open>n\<close> times.\<close>

fun backoff_loop :: "nat \<Rightarrow> duration \<Rightarrow> duration" where
  "backoff_loop 0 delay = delay"
| "backoff_loop (Suc n) delay =
     (if delay > maxDuration div 2 then maxDuration else backoff_loop n (int64 (delay * 2)))"

definition retryBackoff :: "OutboxWorker \<Rightarrow> int \<Rightarrow> duration" where
  "retryBackoff wk attempt =
     (if retryBaseDelay wk \<le> 0 then 0
      else if attempt \<le> 1 then retryBaseDelay wk
      else backoff_loop (nat (attempt - 1)) (retryBaseDelay wk))"

text \<open>The loop of \<open>publishWithRetry\<close>; \<open>left\<close> counts the attempts still allowed, this one included.\<close>

fun publish_attempts ::
  "'w outbox_env \<Rightarrow> OutboxWorker \<Rightarrow> OutboxMessage \<Rightarrow> nat \<Rightarrow> error \<Rightarrow> ('w, error option) prog" where
  "publish_attempts env wk event 0 lastErr =
     return (Some (Wrapped (''publish failed after '' @ int_string (maxAttempts wk) @ '' attempts'') lastErr))"
| "publish_attempts env wk event (Suc left) lastErr = do {
     err \<leftarrow> ob_Publish env event;
     (case err of
        None \<Rightarrow> do {
          ob_metric env (\<lambda>m. m\<lparr>attempts_sent := attempts_sent m + 1\<rparr>);
          return None
        }
      | Some e \<Rightarrow> do {
          ob_metric env (\<lambda>m. m\<lparr>attempts_retry_error := attempts_retry_error m + 1\<rparr>);
          (let delay = retryBackoff wk (maxAttempts wk - int left) in
           if left = 0 \<or> delay \<le> 0 then publish_attempts env wk event left e
           else do {
             ctx \<leftarrow> ob_wait env delay;
             (case ctx of
                Some ctxErr \<Rightarrow> return (Some ctxErr)
              | None \<Rightarrow> publish_attempts env wk event left e)
           })
        })
   }"

definition publishWithRetry ::
  "'w outbox_env \<Rightarrow> OutboxWorker \<Rightarrow> OutboxMessage \<Rightarrow> ('w, error option) prog" where
  "publishWithRetry env wk event =
     publish_attempts env wk event (nat (maxAttempts wk)) (Opaque ''%!w(<nil>)'')"

definition refreshBacklogMetrics :: "'w outbox_env \<Rightarrow> ('w, unit) prog" where
  "refreshBacklogMetrics env = do {
     res \<leftarrow> ob_Stats env;
     (case res of
        Inl _ \<Rightarrow> skip
      | Inr stats \<Rightarrow> do {
          ob_metric env (\<lambda>m. m\<lparr>outboxPendingRecords := PendingCount stats\<rparr>);
          (if PendingCount stats = 0 \<or> IsZero (OldestPendingAt stats)
           then ob_metric env (\<lambda>m. m\<lparr>outboxOldestPendingAge := 0\<rparr>)
           else do {
             now \<leftarrow> ob_Now env;
             let age = Sub now (OldestPendingAt stats);
             ob_metric env (\<lambda>m. m\<lparr>outboxOldestPendingAge := (if age < 0 then 0 else age)\<rparr>)
           })
        })
   }"

definition publishToDLQ ::
  "'w outbox_env \<Rightarrow> OutboxWorker \<Rightarrow> OutboxMessage \<Rightarrow> error \<Rightarrow> ('w, error option) prog" where
  "publishToDLQ env wk event publishErr =
     (if \<not> has_dlqPublisher wk then return None
      else do {
        now \<leftarrow> ob_Now env;
        case ob_Marshal env
          [(''outbox_id'', JStr (msg_ID event)), (''aggregate_type'', JStr (AggregateType event)),
           (''aggregate_id'', JStr (AggregateID event)), (''event_type'', JStr (EventType event)),
           (''payload'', JRaw (Payload event)), (''publish_error'', JStr (Error publishErr)),
           (''dlq_published_at'', JStr (ob_Format env now))] of
          Inl err \<Rightarrow> return (Some (Wrapped ''marshal dlq payload'' err))
        | Inr payload \<Rightarrow> do {
            res \<leftarrow> ob_DLQPublish env (event\<lparr>Payload := payload\<rparr>);
            (case res of
               Some err \<Rightarrow> return (Some (Wrapped ''publish to dlq'' err))
             | None \<Rightarrow> return None)
          }
      })"

text \<open>The body of the loop over the events, and the loop; the result says whether the loop ran to its end
  (otherwise \<open>ProcessOnce\<close> returned early).\<close>

definition process_event :: "'w outbox_env \<Rightarrow> OutboxWorker \<Rightarrow> OutboxMessage \<Rightarrow> ('w, unit) prog" where
  "process_event env wk event = do {
     res \<leftarrow> publishWithRetry env wk event;
     (case res of
        Some err \<Rightarrow> do {
          ob_metric env (\<lambda>m. m\<lparr>attempts_failed := attempts_failed m + 1\<rparr>);
          dlq \<leftarrow> publishToDLQ env wk event err;
          (case dlq of
             Some _ \<Rightarrow> ob_metric env (\<lambda>m. m\<lparr>attempts_dlq_failed := attempts_dlq_failed m + 1\<rparr>)
           | None \<Rightarrow> skip);
          _ \<leftarrow> ob_MarkFailed env (msg_ID event);
          skip
        }
      | None \<Rightarrow> do { _ \<leftarrow> ob_MarkSent env (msg_ID event); skip })
   }"

fun process_events :: "'w outbox_env \<Rightarrow> OutboxWorker \<Rightarrow> OutboxMessage list \<Rightarrow> ('w, bool) prog" where
  "process_events env wk [] = return True"
| "process_events env wk (event # events) = do {
     ctx \<leftarrow> ob_Err env;
     (case ctx of
        Some _ \<Rightarrow> return False
      | None \<Rightarrow> do {
          process_event env wk event;
          process_events env wk events
        })
   }"

definition ProcessOnce :: "'w outbox_env \<Rightarrow> OutboxWorker \<Rightarrow> ('w, unit) prog" where
  "ProcessOnce env wk = do {
     ctx \<leftarrow> ob_Err env;
     (case ctx of
        Some _ \<Rightarrow> skip
      | None \<Rightarrow> do {
          refreshBacklogMetrics env;
          pulled \<leftarrow> ob_PullPending env (worker_batchSize wk);
          (case pulled of
             Inl _ \<Rightarrow> skip
           | Inr events \<Rightarrow>
               if events = [] then skip
               else do {
                 finished \<leftarrow> process_events env wk events;
                 (if finished then refreshBacklogMetrics env else skip)
               })
        })
   }"

text \<open>\<open>Run\<close> over the events of its \<open>select\<close>, up to the end of the context.\<close>

datatype worker_event = WorkerDone | WorkerTick

fun worker_events :: "'w outbox_env \<Rightarrow> OutboxWorker \<Rightarrow> worker_event list \<Rightarrow> ('w, unit) prog" where
  "worker_events env wk [] = skip"
| "worker_events env wk (WorkerDone # es) = skip"
| "worker_events env wk (WorkerTick # es) = do { ProcessOnce env wk; worker_events env wk es }"

definition outbox_Run :: "'w outbox_env \<Rightarrow> OutboxWorker \<Rightarrow> worker_event list \<Rightarrow> ('w, unit) prog" where
  "outbox_Run env wk es =
     (if \<not> has_outbox_repo wk \<or> \<not> has_publisher wk then skip
      else do { ProcessOnce env wk; worker_events env wk es })"

section \<open>Options and backoff\<close>

lemma NewWorker_positive:
  "0 < worker_batchSize (NewWorker repo publisher options)"
  "0 < maxAttempts (NewWorker repo publisher options)"
  "0 \<le> retryBaseDelay (NewWorker repo publisher options)"
  by (simp_all add: NewWorker_def Let_def defaultBatchSize_def defaultMaxAttempts_def)

lemma backoff_loop_eq:
  assumes "0 < d" and "d \<le> maxDuration"
  shows "backoff_loop n d = min (d * 2 ^ n) maxDuration"
  using assms
proof (induction n arbitrary: d)
  case 0
  then show ?case by simp
next
  case (Suc n)
  show ?case
  proof (cases "d > maxDuration div 2")
    case True
    then have "d * 2 > maxDuration" by (simp add: maxDuration_def)
    moreover have "d * 2 \<le> d * 2 ^ Suc n" using Suc.prems(1) by simp
    ultimately show ?thesis using True by simp
  next
    case False
    then have le: "d * 2 \<le> maxDuration" by (simp add: maxDuration_def)
    then have "int64 (d * 2) = d * 2"
      using Suc.prems(1) by (simp add: in_int64_def maxDuration_def)
    then show ?thesis using False le Suc by (simp add: mult.assoc mult.commute mult.left_commute)
  qed
qed

text \<open>C33. The delay before retry number \<open>attempt\<close> is the base delay doubled for every earlier attempt,
  saturated at the largest duration: it neither overflows nor becomes negative.\<close>

theorem retryBackoff_saturates:
  assumes "0 < retryBaseDelay wk" and "in_int64 (retryBaseDelay wk)" and "1 \<le> attempt"
  shows "retryBackoff wk attempt = min (retryBaseDelay wk * 2 ^ nat (attempt - 1)) maxDuration"
proof (cases "attempt = 1")
  case True
  then show ?thesis using assms by (simp add: retryBackoff_def in_int64_def maxDuration_def)
next
  case False
  then show ?thesis
    using assms backoff_loop_eq [of "retryBaseDelay wk" "nat (attempt - 1)"]
    by (simp add: retryBackoff_def in_int64_def maxDuration_def)
qed

theorem retryBackoff_saturates_witness:
  "retryBackoff (NewWorker True True [WithRetryBaseDelay (2 ^ 62)]) 3 = maxDuration
   \<and> retryBackoff (NewWorker True True []) 3 = 200 * millisecond"
proof -
  let ?a = "NewWorker True True [WithRetryBaseDelay (2 ^ 62)]" and ?b = "NewWorker True True []"
  have "retryBaseDelay ?a = 2 ^ 62" and "retryBaseDelay ?b = 50 * millisecond"
    by (simp_all add: NewWorker_def Let_def WithRetryBaseDelay_def defaultRetryBaseDelay_def)
  then show ?thesis
    using retryBackoff_saturates [of ?a 3] retryBackoff_saturates [of ?b 3]
    by (simp add: in_int64_def maxDuration_def)
qed

section \<open>Specification of one polling round\<close>

text \<open>What the worker sent, in order: attempts to publish a message and dead letters, each with the answer.\<close>

datatype attempt = Published OutboxMessage "error option" | Dead_letter OutboxMessage "error option"

type_synonym publish_log = "attempt list"
type_synonym statuses = "string \<rightharpoonup> OutboxStatus"

definition fails :: "OutboxMessage \<Rightarrow> error list \<Rightarrow> publish_log" where
  "fails ev es = map (\<lambda>e. Published ev (Some e)) es"

text \<open>What is sent to the dead letter queue for a message given up with the error \<open>e\<close>: one message with the fields below
  as its payload (nothing when they cannot be encoded), if there is a queue.\<close>

definition dlq_fields :: "(gotime \<Rightarrow> string) \<Rightarrow> OutboxMessage \<Rightarrow> error \<Rightarrow> gotime \<Rightarrow> jobject" where
  "dlq_fields fmt event e t =
     [(''outbox_id'', JStr (msg_ID event)), (''aggregate_type'', JStr (AggregateType event)),
      (''aggregate_id'', JStr (AggregateID event)), (''event_type'', JStr (EventType event)),
      (''payload'', JRaw (Payload event)), (''publish_error'', JStr (Error e)),
      (''dlq_published_at'', JStr (fmt t))]"

definition dlq_letter ::
  "(gotime \<Rightarrow> string) \<Rightarrow> (jobject \<Rightarrow> error + bytes) \<Rightarrow> bool \<Rightarrow> OutboxMessage \<Rightarrow> error \<Rightarrow> publish_log \<Rightarrow> bool" where
  "dlq_letter fmt marshal dlq event e dl \<longleftrightarrow> (\<exists>t answer. dl =
     (if \<not> dlq then [] else case marshal (dlq_fields fmt event e t) of
        Inl _ \<Rightarrow> []
      | Inr payload \<Rightarrow> [Dead_letter (event\<lparr>Payload := payload\<rparr>) answer]))"

text \<open>The error of a message that was refused \<open>m\<close> times.\<close>

definition exhausted :: "nat \<Rightarrow> error \<Rightarrow> error" where
  "exhausted m lastErr = Wrapped (''publish failed after '' @ int_string (int m) @ '' attempts'') lastErr"

text \<open>What happens to the events of a round: \<open>m\<close> is the number of attempts, \<open>live\<close> says that the context does not end, and
  \<open>dead\<close> what a dead letter looks like. The answers are logged in order. An event is marked sent after the first attempt
  without error; after \<open>m\<close> errors its dead letter is sent and it is marked failed. When the context ends the round may
  stop, or give up on an event early.\<close>

inductive processed :: "(OutboxMessage \<Rightarrow> error \<Rightarrow> publish_log \<Rightarrow> bool) \<Rightarrow> bool \<Rightarrow> nat \<Rightarrow> OutboxMessage list
    \<Rightarrow> statuses \<Rightarrow> publish_log \<Rightarrow> statuses \<Rightarrow> publish_log \<Rightarrow> bool"
  for dead :: "OutboxMessage \<Rightarrow> error \<Rightarrow> publish_log \<Rightarrow> bool" and live :: bool and m :: nat where
  all_done: "processed dead live m [] f l f l"
| stopped: "\<not> live \<Longrightarrow> processed dead live m evs f l f l"
| sent: "length es < m \<Longrightarrow>
    processed dead live m evs (f(msg_ID ev \<mapsto> OutboxSent)) (l @ fails ev es @ [Published ev None]) f' l' \<Longrightarrow>
    processed dead live m (ev # evs) f l f' l'"
| failed: "es \<noteq> [] \<Longrightarrow> length es \<le> m \<Longrightarrow> (live \<Longrightarrow> length es = m \<and> e = exhausted m (last es)) \<Longrightarrow> dead ev e dl \<Longrightarrow>
    processed dead live m evs (f(msg_ID ev \<mapsto> OutboxFailed)) (l @ fails ev es @ dl) f' l' \<Longrightarrow>
    processed dead live m (ev # evs) f l f' l'"

text \<open>The answers the broker gave for one message, and the dead letters sent for it.\<close>

fun answer_to :: "OutboxMessage \<Rightarrow> attempt \<Rightarrow> error option option" where
  "answer_to ev (Published m a) = (if m = ev then Some a else None)"
| "answer_to ev (Dead_letter m a) = None"

fun is_dead_letter :: "OutboxMessage \<Rightarrow> attempt \<Rightarrow> bool" where
  "is_dead_letter ev (Published m a) \<longleftrightarrow> False"
| "is_dead_letter ev (Dead_letter m a) \<longleftrightarrow> msg_ID m = msg_ID ev"

definition answers_for :: "OutboxMessage \<Rightarrow> publish_log \<Rightarrow> error option list" where
  "answers_for ev l = List.map_filter (answer_to ev) l"

definition dead_letters_for :: "OutboxMessage \<Rightarrow> publish_log \<Rightarrow> publish_log" where
  "dead_letters_for ev l = filter (is_dead_letter ev) l"

text \<open>The fate of one message in a round.\<close>

definition fate :: "(OutboxMessage \<Rightarrow> error \<Rightarrow> publish_log \<Rightarrow> bool) \<Rightarrow> bool \<Rightarrow> nat \<Rightarrow> OutboxMessage
    \<Rightarrow> OutboxStatus option \<Rightarrow> OutboxStatus option \<Rightarrow> publish_log \<Rightarrow> bool" where
  "fate dead live m ev before after new \<longleftrightarrow>
     (let tries = answers_for ev new; letters = dead_letters_for ev new in
      length tries \<le> m \<and>
      (if tries = [] then \<not> live \<and> after = before \<and> letters = []
       else if last tries = None then after = Some OutboxSent \<and> None \<notin> set (butlast tries) \<and> letters = []
       else after = Some OutboxFailed \<and> None \<notin> set tries
         \<and> (\<exists>e. dead ev e letters \<and> (live \<longrightarrow> length tries = m \<and> e = exhausted m (the (last tries))))))"

lemma log_append [simp]:
  "answers_for ev (l @ l') = answers_for ev l @ answers_for ev l'"
  "dead_letters_for ev (l @ l') = dead_letters_for ev l @ dead_letters_for ev l'"
  by (simp_all add: answers_for_def dead_letters_for_def map_filter_def)

lemma log_simps [simp]:
  "answers_for ev [] = []" "dead_letters_for ev [] = []"
  "answers_for ev (Published ev' a # l) = (if ev' = ev then a # answers_for ev l else answers_for ev l)"
  "dead_letters_for ev (Published ev' a # l) = dead_letters_for ev l"
  by (simp_all add: answers_for_def dead_letters_for_def map_filter_simps)

lemma fails_simps [simp]:
  "answers_for ev (fails ev' es) = (if ev' = ev then map Some es else [])" "dead_letters_for ev (fails ev' es) = []"
  by (induction es) (auto simp: fails_def)

lemma dead_letter_log:
  assumes "dlq_letter fmt marshal dlq ev' e dl"
  shows "answers_for ev dl = []" and "dead_letters_for ev dl = (if msg_ID ev' = msg_ID ev then dl else [])"
proof -
  have "dl = [] \<or> (\<exists>payload answer. dl = [Dead_letter (ev'\<lparr>Payload := payload\<rparr>) answer])"
    using assms unfolding dlq_letter_def by (auto split: if_splits sum.splits)
  then show "answers_for ev dl = []" and "dead_letters_for ev dl = (if msg_ID ev' = msg_ID ev then dl else [])"
    by (auto simp: answers_for_def dead_letters_for_def map_filter_simps)
qed

lemma fate_sent:
  "length es < m \<Longrightarrow> answers_for ev new = map Some es @ [None] \<Longrightarrow> dead_letters_for ev new = [] \<Longrightarrow>
   fate dead live m ev b (Some OutboxSent) new"
  by (cases es) (auto simp: fate_def Let_def)

lemma fate_failed:
  "es \<noteq> [] \<Longrightarrow> length es \<le> m \<Longrightarrow> (live \<Longrightarrow> length es = m \<and> e = exhausted m (last es)) \<Longrightarrow> dead ev e dl \<Longrightarrow>
   answers_for ev new = map Some es \<Longrightarrow> dead_letters_for ev new = dl \<Longrightarrow>
   fate dead live m ev b (Some OutboxFailed) new"
  by (cases es) (auto simp: fate_def Let_def last_map)

lemma fate_cong:
  "answers_for ev new = answers_for ev new' \<Longrightarrow> dead_letters_for ev new = dead_letters_for ev new' \<Longrightarrow>
   fate dead live m ev b a new = fate dead live m ev b a new'"
  by (simp add: fate_def)

lemma processed_fate:
  fixes fmt marshal dlq
  defines "dead \<equiv> dlq_letter fmt marshal dlq"
  assumes "processed dead live m evs f l f' l'" and "distinct (map msg_ID evs)"
  shows "\<exists>new. l' = l @ new \<and> (\<forall>i. i \<notin> msg_ID ` set evs \<longrightarrow> f' i = f i)
    \<and> (\<forall>ev. msg_ID ev \<notin> msg_ID ` set evs \<longrightarrow> answers_for ev new = [] \<and> dead_letters_for ev new = [])
    \<and> (\<forall>ev \<in> set evs. fate dead live m ev (f (msg_ID ev)) (f' (msg_ID ev)) new)"
  using assms(2,3)
proof (induction rule: processed.induct)
  case (all_done f l)
  then show ?case by simp
next
  case (stopped evs f l)
  then show ?case by (intro exI [of _ "[]"]) (simp add: fate_def Let_def)
next
  case (sent es evs f ev l f' l')
  let ?g = "f(msg_ID ev \<mapsto> OutboxSent)"
  from sent obtain new where new: "l' = (l @ fails ev es @ [Published ev None]) @ new"
    "\<forall>i. i \<notin> msg_ID ` set evs \<longrightarrow> f' i = ?g i"
    "\<forall>e. msg_ID e \<notin> msg_ID ` set evs \<longrightarrow> answers_for e new = [] \<and> dead_letters_for e new = []"
    "\<forall>e \<in> set evs. fate dead live m e (?g (msg_ID e)) (f' (msg_ID e)) new"
    by auto
  have out: "msg_ID ev \<notin> msg_ID ` set evs" using sent.prems by simp
  then have ids: "\<And>e. e \<in> set evs \<Longrightarrow> msg_ID e \<noteq> msg_ID ev" by (metis image_eqI)
  let ?n = "fails ev es @ [Published ev None] @ new"
  have "fate dead live m e (f (msg_ID e)) (f' (msg_ID e)) ?n" if "e \<in> set evs" for e
    using new(4) that ids [OF that] by (subst fate_cong [of _ _ new]) auto
  moreover have "fate dead live m ev (f (msg_ID ev)) (f' (msg_ID ev)) ?n"
    using new(2,3) out by (auto intro: fate_sent [OF sent.hyps(1)])
  ultimately show ?case using new(1-3) by (intro exI [of _ ?n]) auto
next
  case (failed es e ev dl evs f l f' l')
  let ?g = "f(msg_ID ev \<mapsto> OutboxFailed)"
  from failed obtain new where new: "l' = (l @ fails ev es @ dl) @ new"
    "\<forall>i. i \<notin> msg_ID ` set evs \<longrightarrow> f' i = ?g i"
    "\<forall>e. msg_ID e \<notin> msg_ID ` set evs \<longrightarrow> answers_for e new = [] \<and> dead_letters_for e new = []"
    "\<forall>e \<in> set evs. fate dead live m e (?g (msg_ID e)) (f' (msg_ID e)) new"
    by auto
  have out: "msg_ID ev \<notin> msg_ID ` set evs" using failed.prems by simp
  then have ids: "\<And>e. e \<in> set evs \<Longrightarrow> msg_ID e \<noteq> msg_ID ev" by (metis image_eqI)
  note dl = dead_letter_log [OF failed.hyps(4) [unfolded dead_def]]
  let ?n = "fails ev es @ dl @ new"
  have "fate dead live m e' (f (msg_ID e')) (f' (msg_ID e')) ?n" if "e' \<in> set evs" for e'
    using new(4) that ids [OF that] dl by (subst fate_cong [of _ _ new]) auto
  moreover have "fate dead live m ev (f (msg_ID ev)) (f' (msg_ID ev)) ?n"
    using new(2,3) out dl by (auto intro: fate_failed [where dead = dead, OF failed.hyps(1-4)])
  ultimately show ?case using new(1-3) dl by (intro exI [of _ ?n]) auto
qed

section \<open>What the worker relies on\<close>

text \<open>A context that does not end.\<close>

definition ctx_live :: "'w outbox_env \<Rightarrow> bool" where
  "ctx_live env \<longleftrightarrow> (\<forall>w d. fst (run_state (ob_Err env) w) = None \<and> fst (run_state (ob_wait env d) w) = None)"

text \<open>\<open>stat\<close> is the status of every stored message, \<open>sends\<close> what was sent so far, and \<open>may_pull w n evs\<close> says that a pull in
  \<open>w\<close> or later, with the messages as they are in \<open>w\<close>, may hand out \<open>evs\<close>.\<close>

locale outbox_backend =
  fixes env :: "'w outbox_env"
    and stat :: "'w \<Rightarrow> statuses"
    and sends :: "'w \<Rightarrow> publish_log"
    and invar :: "'w \<Rightarrow> bool"
    and may_pull :: "'w \<Rightarrow> int \<Rightarrow> OutboxMessage list \<Rightarrow> bool"
    and pull_may_fail :: bool
  assumes pull_law: "invar w \<Longrightarrow> run_state (ob_PullPending env n) w = (pulled, w') \<Longrightarrow>
      invar w' \<and> sends w' = sends w \<and> (case pulled of
          Inl e \<Rightarrow> pull_may_fail \<and> stat w' = stat w
        | Inr evs \<Rightarrow> may_pull w n evs \<and> distinct (map msg_ID evs)
            \<and> stat w' = (\<lambda>i. if i \<in> msg_ID ` set evs then Some OutboxProcessing else stat w i))"
    and sent_law: "invar w \<Longrightarrow> stat w i = Some st \<Longrightarrow> run_state (ob_MarkSent env i) w = (err, w') \<Longrightarrow>
      invar w' \<and> sends w' = sends w \<and> stat w' = (stat w)(i \<mapsto> OutboxSent)"
    and failed_law: "invar w \<Longrightarrow> stat w i = Some st \<Longrightarrow> run_state (ob_MarkFailed env i) w = (err, w') \<Longrightarrow>
      invar w' \<and> sends w' = sends w \<and> stat w' = (stat w)(i \<mapsto> OutboxFailed)"
    and publish_law: "invar w \<Longrightarrow> run_state (ob_Publish env m) w = (err, w') \<Longrightarrow>
      invar w' \<and> stat w' = stat w \<and> sends w' = sends w @ [Published m err]"
    and stats_frame: "invar w \<Longrightarrow> run_state (ob_Stats env) w = (stats, w') \<Longrightarrow>
      invar w' \<and> stat w' = stat w \<and> sends w' = sends w \<and> (\<forall>n evs. may_pull w' n evs \<longrightarrow> may_pull w n evs)"
    and dlq_law: "invar w \<Longrightarrow> run_state (ob_DLQPublish env m) w = (err, w') \<Longrightarrow>
      invar w' \<and> stat w' = stat w \<and> sends w' = sends w @ [Dead_letter m err]"
    and err_frame: "invar w \<Longrightarrow> run_state (ob_Err env) w = (err, w') \<Longrightarrow>
      invar w' \<and> stat w' = stat w \<and> sends w' = sends w \<and> (\<forall>n evs. may_pull w' n evs \<longrightarrow> may_pull w n evs)"
    and wait_frame: "invar w \<Longrightarrow> run_state (ob_wait env d) w = (err, w') \<Longrightarrow>
      invar w' \<and> stat w' = stat w \<and> sends w' = sends w"
    and now_frame: "invar w \<Longrightarrow> run_state (ob_Now env) w = (t, w') \<Longrightarrow>
      invar w' \<and> stat w' = stat w \<and> sends w' = sends w \<and> (\<forall>n evs. may_pull w' n evs \<longrightarrow> may_pull w n evs)"
    and metric_frame: "invar w \<Longrightarrow> run_state (ob_metric env f) w = (u, w') \<Longrightarrow>
      invar w' \<and> stat w' = stat w \<and> sends w' = sends w \<and> (\<forall>n evs. may_pull w' n evs \<longrightarrow> may_pull w n evs)"
begin

definition K :: "statuses \<Rightarrow> publish_log \<Rightarrow> 'w \<Rightarrow> bool" where
  "K f l w \<longleftrightarrow> invar w \<and> stat w = f \<and> sends w = l"

definition frame :: "('w, 'a) prog \<Rightarrow> bool" where
  "frame m \<longleftrightarrow> (\<forall>f l. ensures (K f l) m (\<lambda>_. K f l))"

lemma frameI:
  "(\<And>w a w'. invar w \<Longrightarrow> run_state m w = (a, w') \<Longrightarrow> invar w' \<and> stat w' = stat w \<and> sends w' = sends w)
    \<Longrightarrow> frame m"
  unfolding frame_def K_def by (blast intro: ensuresI)

lemma frame_return [intro!]: "frame (return a)"
  by (auto simp: frame_def intro: ensures_return)

lemma frame_bind [intro!]: "frame m \<Longrightarrow> (\<And>a. frame (f a)) \<Longrightarrow> frame (State_Monad.bind m f)"
  unfolding frame_def by (blast intro: ensures_bind)

lemma frame_deps [intro!]:
  "frame (ob_Stats env)" "frame (ob_Err env)" "frame (ob_wait env d)" "frame (ob_Now env)" "frame (ob_metric env g)"
  by (blast intro: frameI dest: stats_frame err_frame wait_frame now_frame metric_frame)+

lemma frame_refresh [intro!]: "frame (refreshBacklogMetrics env)"
  by (auto simp: refreshBacklogMetrics_def Let_def split: sum.split)

lemma then_frame:
  "frame m \<Longrightarrow> (\<And>a. ensures (K f l) (g a) Q) \<Longrightarrow> ensures (K f l) (State_Monad.bind m g) Q"
  unfolding frame_def by (blast intro: ensures_bind)

lemma frame_then: "frame m \<Longrightarrow> (\<And>w. K f l w \<Longrightarrow> Q w) \<Longrightarrow> ensures (K f l) m (\<lambda>_. Q)"
  unfolding frame_def by (blast intro: ensures_post)

lemma publish_ensures: "ensures (K f l) (ob_Publish env ev) (\<lambda>err. K f (l @ [Published ev err]))"
  by (rule ensuresI) (auto simp: K_def dest: publish_law)

definition dead :: "OutboxWorker \<Rightarrow> OutboxMessage \<Rightarrow> error \<Rightarrow> publish_log \<Rightarrow> bool" where
  "dead wk = dlq_letter (ob_Format env) (ob_Marshal env) (has_dlqPublisher wk)"

lemma dlq_ensures:
  "ensures (K f l) (publishToDLQ env wk ev e) (\<lambda>_ w. \<exists>dl. dead wk ev e dl \<and> K f (l @ dl) w)" (is "ensures _ _ ?Q")
proof (cases "has_dlqPublisher wk")
  case False
  then show ?thesis
    by (auto simp: publishToDLQ_def dead_def dlq_letter_def intro!: ensures_return exI [of _ "[]"])
next
  case True
  have sends: "ensures (K f l) (ob_DLQPublish env m) (\<lambda>err. K f (l @ [Dead_letter m err]))" for m
    by (rule ensuresI) (auto simp: K_def dest: dlq_law)
  have answered: "ensures (K f (l @ [Dead_letter (ev\<lparr>Payload := p\<rparr>) res]))
      (case res of None \<Rightarrow> return None | Some err \<Rightarrow> return (Some (g err))) ?Q"
    if "ob_Marshal env (dlq_fields (ob_Format env) ev e t) = Inr p" for t p res g
    using that True
    by (auto simp: dead_def dlq_letter_def split: option.split
        intro!: ensures_return exI [of _ "[Dead_letter (ev\<lparr>Payload := p\<rparr>) res]"] exI [of _ t] exI [of _ res])
  have unencoded: "ensures (K f l) (return (Some err)) ?Q"
    if "ob_Marshal env (dlq_fields (ob_Format env) ev e t) = Inl x" for t x err
    using that True by (auto simp: dead_def dlq_letter_def intro!: ensures_return exI [of _ "[]"] exI [of _ t])
  show ?thesis
    using True unfolding publishToDLQ_def dlq_fields_def [symmetric]
    by (auto intro!: then_frame ensures_sum ensures_bind [OF sends] intro: answered unencoded)
qed
lemma mark_ensures:
  assumes "f i = Some st"
  shows "ensures (K f l) (ob_MarkSent env i) (\<lambda>_. K (f(i \<mapsto> OutboxSent)) l)"
    and "ensures (K f l) (ob_MarkFailed env i) (\<lambda>_. K (f(i \<mapsto> OutboxFailed)) l)"
  using assms by (auto simp: K_def intro!: ensuresI dest: sent_law failed_law)

text \<open>What \<open>publishWithRetry\<close> logs, with \<open>left\<close> attempts allowed and \<open>e0\<close> the error of the attempt before; \<open>m\<close> is the
  number of attempts in its final error.\<close>

definition tried :: "nat \<Rightarrow> bool \<Rightarrow> OutboxMessage \<Rightarrow> nat \<Rightarrow> error \<Rightarrow> statuses \<Rightarrow> publish_log \<Rightarrow> error option \<Rightarrow> 'w \<Rightarrow> bool" where
  "tried m live ev left e0 f l err w \<longleftrightarrow> (\<exists>es. case err of
     None \<Rightarrow> length es < left \<and> K f (l @ fails ev es @ [Published ev None]) w
   | Some e \<Rightarrow> (length es \<le> left \<and> (live \<longrightarrow> length es = left \<and> e = exhausted m (last (e0 # es)))
        \<and> (0 < left \<longrightarrow> es \<noteq> [])) \<and> K f (l @ fails ev es) w)"

lemma tried_simps:
  "tried m live ev left e0 f l None = (\<lambda>w. \<exists>es. length es < left \<and> K f (l @ fails ev es @ [Published ev None]) w)"
  "tried m live ev left e0 f l (Some e) = (\<lambda>w. \<exists>es.
     (length es \<le> left \<and> (live \<longrightarrow> length es = left \<and> e = exhausted m (last (e0 # es)))
       \<and> (0 < left \<longrightarrow> es \<noteq> [])) \<and> K f (l @ fails ev es) w)"
  by (auto simp: tried_def fun_eq_iff)

lemma tried_step:
  assumes "tried m live ev left e f (l @ [Published ev (Some e)]) err w"
  shows "tried m live ev (Suc left) e0 f l err w"
proof -
  obtain es where "case err of
     None \<Rightarrow> length es < left \<and> K f ((l @ [Published ev (Some e)]) @ fails ev es @ [Published ev None]) w
   | Some x \<Rightarrow> (length es \<le> left \<and> (live \<longrightarrow> length es = left \<and> x = exhausted m (last (e # es)))
        \<and> (0 < left \<longrightarrow> es \<noteq> [])) \<and> K f ((l @ [Published ev (Some e)]) @ fails ev es) w"
    using assms unfolding tried_def by blast
  then show ?thesis
    unfolding tried_def by (intro exI [of _ "e # es"]) (auto simp: fails_def split: option.splits)
qed

lemma wait_ensures:
  "live \<longrightarrow> ctx_live env \<Longrightarrow> ensures (K f l) (ob_wait env d) (\<lambda>ctx w. (live \<longrightarrow> ctx = None) \<and> K f l w)"
  by (rule ensuresI) (auto simp: K_def ctx_live_def dest: wait_frame, metis fst_conv)

lemma publish_attempts_ensures:
  assumes "live \<longrightarrow> ctx_live env" and "m = nat (maxAttempts wk)" "0 < m"
  shows "ensures (K f l) (publish_attempts env wk ev left e0) (tried m live ev left e0 f l)"
proof (induction left arbitrary: l e0)
  case 0
  show ?case using assms(2,3) by (auto intro!: ensures_return exI [of _ "[]"] simp: tried_simps fails_def exhausted_def)
next
  case (Suc left)
  have again: "ensures (K f (l @ [Published ev (Some e)])) (publish_attempts env wk ev left e) (tried m live ev (Suc left) e0 f l)"
    for e
    by (rule ensures_post [OF Suc.IH]) (rule tried_step)
  have gave_up: "ensures (\<lambda>w. (live \<longrightarrow> Some c = None) \<and> K f (l @ [Published ev (Some e)]) w)
      (return (Some c)) (tried m live ev (Suc left) e0 f l)" for c e
    by (auto intro!: ensures_return exI [of _ "[e]"] simp: tried_simps fails_def)
  have ok: "ensures (K f (l @ [Published ev None])) (return None) (tried m live ev (Suc left) e0 f l)"
    by (auto intro!: ensures_return exI [of _ "[]"] simp: tried_simps fails_def)
  have waited: "ensures (K f (l @ [Published ev (Some e)])) (State_Monad.bind (ob_wait env d) (\<lambda>ctx. case ctx of
      None \<Rightarrow> publish_attempts env wk ev left e | Some c \<Rightarrow> return (Some c))) (tried m live ev (Suc left) e0 f l)"
    for e d
    by (rule ensures_bind [OF wait_ensures [OF assms(1)]], rule ensures_option)
      (use gave_up again in \<open>auto intro: ensures_pre\<close>)
  show ?case
    unfolding publish_attempts.simps Let_def
    by (rule ensures_bind [OF publish_ensures], rule ensures_option)
      (simp_all only:, (intro then_frame frame_deps ok ensures_if again waited)+)
qed

text \<open>The world after one event.\<close>

definition settled :: "OutboxWorker \<Rightarrow> bool \<Rightarrow> nat \<Rightarrow> OutboxMessage \<Rightarrow> statuses \<Rightarrow> publish_log \<Rightarrow> 'w \<Rightarrow> bool" where
  "settled wk live m ev f l w \<longleftrightarrow>
     (\<exists>es. length es < m \<and> K (f(msg_ID ev \<mapsto> OutboxSent)) (l @ fails ev es @ [Published ev None]) w)
   \<or> (\<exists>es e dl. es \<noteq> [] \<and> length es \<le> m \<and> (live \<longrightarrow> length es = m \<and> e = exhausted m (last es)) \<and> dead wk ev e dl
        \<and> K (f(msg_ID ev \<mapsto> OutboxFailed)) (l @ fails ev es @ dl) w)"

lemma process_event_ensures:
  assumes "live \<longrightarrow> ctx_live env" and "f (msg_ID ev) = Some st" and m: "m = nat (maxAttempts wk)" "0 < m"
  shows "ensures (K f l) (process_event env wk ev) (\<lambda>_. settled wk live m ev f l)" (is "ensures _ _ (\<lambda>_. ?Q)")
  unfolding process_event_def publishWithRetry_def m(1) [symmetric]
proof (rule ensures_bind [OF publish_attempts_ensures [OF assms(1) m]])
  fix res
  have sent: "ensures (K f l') (ob_MarkSent env (msg_ID ev)) (\<lambda>_. K (f(msg_ID ev \<mapsto> OutboxSent)) l')"
    and failed: "ensures (K f l') (ob_MarkFailed env (msg_ID ev)) (\<lambda>_. K (f(msg_ID ev \<mapsto> OutboxFailed)) l')" for l'
    by (rule mark_ensures, rule assms(2))+
  have ok: "ensures (K f (l @ fails ev es @ [Published ev None]))
      (State_Monad.bind (ob_MarkSent env (msg_ID ev)) (\<lambda>_. skip)) (\<lambda>_. ?Q)" if "length es < m" for es
    by (rule ensures_bind [OF sent]) (use that in \<open>auto intro!: ensures_return simp: settled_def\<close>)
  have marked: "ensures (K f (l @ fails ev es @ dl))
      (State_Monad.bind (ob_MarkFailed env (msg_ID ev)) (\<lambda>_. skip)) (\<lambda>_. ?Q)"
    if "es \<noteq> []" "length es \<le> m" "live \<longrightarrow> length es = m \<and> e = exhausted m (last es)" "dead wk ev e dl" for es e dl
    by (rule ensures_bind [OF failed], rule ensures_return) (use that in \<open>unfold settled_def, blast\<close>)
  have bad: "ensures (K f (l @ fails ev es)) (State_Monad.bind (ob_metric env g) (\<lambda>_.
      State_Monad.bind (publishToDLQ env wk ev e) (\<lambda>dlq. State_Monad.bind
        (case dlq of None \<Rightarrow> skip | Some _ \<Rightarrow> ob_metric env g')
        (\<lambda>_. State_Monad.bind (ob_MarkFailed env (msg_ID ev)) (\<lambda>_. skip))))) (\<lambda>_. ?Q)"
    if "es \<noteq> []" "length es \<le> m" "live \<longrightarrow> length es = m \<and> e = exhausted m (last es)" for es e g g'
  proof (rule then_frame, rule frame_deps, rule ensures_bind [OF dlq_ensures], intro ensures_ex ensures_pure, rule then_frame)
    fix dlq :: "error option"
    show "frame (case dlq of None \<Rightarrow> skip | Some _ \<Rightarrow> ob_metric env g')" by (auto split: option.split)
  next
    fix dl
    assume "dead wk ev e dl"
    then show "ensures (K f ((l @ fails ev es) @ dl))
        (State_Monad.bind (ob_MarkFailed env (msg_ID ev)) (\<lambda>_. skip)) (\<lambda>_. ?Q)"
      using marked [OF that] by simp
  qed
  show "ensures (tried m live ev m (Opaque ''%!w(<nil>)'') f l res) (case res of
      None \<Rightarrow> State_Monad.bind (ob_MarkSent env (msg_ID ev)) (\<lambda>_. skip)
    | Some err \<Rightarrow> State_Monad.bind (ob_metric env (\<lambda>m. m\<lparr>attempts_failed := attempts_failed m + 1\<rparr>)) (\<lambda>_.
        State_Monad.bind (publishToDLQ env wk ev err) (\<lambda>dlq. State_Monad.bind
          (case dlq of None \<Rightarrow> skip | Some _ \<Rightarrow>
             ob_metric env (\<lambda>m. m\<lparr>attempts_dlq_failed := attempts_dlq_failed m + 1\<rparr>))
          (\<lambda>_. State_Monad.bind (ob_MarkFailed env (msg_ID ev)) (\<lambda>_. skip))))) (\<lambda>_. ?Q)"
  proof (cases res)
    case None
    show ?thesis unfolding None tried_simps option.case by (intro ensures_ex ensures_pure ok)
  next
    case (Some err)
    show ?thesis
      unfolding Some tried_simps option.case
      by (intro ensures_ex ensures_pure bad) (use m(2) in auto)
  qed
qed

lemma err_ensures:
  "live \<longrightarrow> ctx_live env \<Longrightarrow> ensures (K f l) (ob_Err env) (\<lambda>ctx w. (live \<longrightarrow> ctx = None) \<and> K f l w)"
  by (rule ensuresI) (auto simp: K_def ctx_live_def dest: err_frame, metis fst_conv)

definition round :: "OutboxWorker \<Rightarrow> bool \<Rightarrow> nat \<Rightarrow> OutboxMessage list \<Rightarrow> statuses \<Rightarrow> publish_log \<Rightarrow> 'w \<Rightarrow> bool" where
  "round wk live m evs f l w \<longleftrightarrow> (\<exists>f' l'. processed (dead wk) live m evs f l f' l' \<and> K f' l' w)"

lemma frame_round: "frame p \<Longrightarrow> ensures (round wk live m evs f l) p (\<lambda>_. round wk live m evs f l)"
  unfolding round_def by (intro ensures_ex ensures_pure) (rule frame_then, assumption, blast)

lemma process_events_ensures:
  assumes "live \<longrightarrow> ctx_live env" and m: "m = nat (maxAttempts wk)" "0 < m"
    and "\<forall>ev \<in> set evs. f (msg_ID ev) \<noteq> None"
  shows "ensures (K f l) (process_events env wk evs) (\<lambda>_. round wk live m evs f l)"
  using assms(4)
proof (induction evs arbitrary: f l)
  case Nil
  then show ?case by (auto intro!: ensures_return processed.intros simp: round_def)
next
  case (Cons ev evs)
  then obtain st where st: "f (msg_ID ev) = Some st" by auto
  have known: "\<forall>e \<in> set evs. (f(msg_ID ev \<mapsto> x)) (msg_ID e) \<noteq> None" for x
    using Cons.prems by auto
  have stop: "ensures (\<lambda>w. (live \<longrightarrow> ctx = None) \<and> K f l w) (return False) (\<lambda>_. round wk live m (ev # evs) f l)"
    if "ctx = Some c" for ctx and c :: error
    using that by (auto intro!: ensures_return exI [of _ f] exI [of _ l] stopped simp: round_def)
  have "ensures (settled wk live m ev f l) (process_events env wk evs) (\<lambda>_. round wk live m (ev # evs) f l)"
  proof (rule ensuresI, unfold settled_def, elim disjE exE conjE)
    fix w b w' es
    assume run: "run_state (process_events env wk evs) w = (b, w')"
      and es: "length es < m" and k: "K (f(msg_ID ev \<mapsto> OutboxSent)) (l @ fails ev es @ [Published ev None]) w"
    have "round wk live m evs (f(msg_ID ev \<mapsto> OutboxSent)) (l @ fails ev es @ [Published ev None]) w'"
      by (rule ensuresD [OF Cons.IH [OF known] k run])
    then show "round wk live m (ev # evs) f l w'" using sent [OF es] unfolding round_def by blast
  next
    fix w b w' es e dl
    assume run: "run_state (process_events env wk evs) w = (b, w')"
      and es: "es \<noteq> []" "length es \<le> m" "live \<longrightarrow> length es = m \<and> e = exhausted m (last es)" "dead wk ev e dl"
      and k: "K (f(msg_ID ev \<mapsto> OutboxFailed)) (l @ fails ev es @ dl) w"
    have "round wk live m evs (f(msg_ID ev \<mapsto> OutboxFailed)) (l @ fails ev es @ dl) w'"
      by (rule ensuresD [OF Cons.IH [OF known] k run])
    then show "round wk live m (ev # evs) f l w'"
      using failed [where dead = "dead wk", OF es(1,2) _ es(4)] es(3) unfolding round_def by blast
  qed
  with process_event_ensures [OF assms(1) _ m, of f ev st l] st
  have go: "ensures (K f l) (State_Monad.bind (process_event env wk ev) (\<lambda>_. process_events env wk evs))
      (\<lambda>_. round wk live m (ev # evs) f l)"
    by (blast intro: ensures_bind)
  show ?case
    unfolding process_events.simps
    by (rule ensures_bind [OF err_ensures [OF assms(1)]], rule ensures_option)
      (rule ensures_pre [OF go], simp, rule stop)
qed

text \<open>Up to the pull the messages stay as they were in \<open>w0\<close>.\<close>

definition since :: "'w \<Rightarrow> 'w \<Rightarrow> bool" where
  "since w0 w \<longleftrightarrow> invar w \<and> (\<forall>n evs. may_pull w n evs \<longrightarrow> may_pull w0 n evs)"

lemma since_ops [intro!]:
  "keeps (since w0) (ob_Stats env)" "keeps (since w0) (ob_Err env)" "keeps (since w0) (ob_Now env)"
  "keeps (since w0) (ob_metric env g)"
  unfolding keeps_def since_def
  by (rule ensuresI; blast dest: stats_frame err_frame now_frame metric_frame)+

lemma since_refresh [intro!]: "keeps (since w0) (refreshBacklogMetrics env)"
  by (auto simp: refreshBacklogMetrics_def Let_def)

text \<open>Which messages a round works on: those of a pull, none if the context had ended (or the pull failed).\<close>

definition chosen :: "'w \<Rightarrow> int \<Rightarrow> OutboxMessage list \<Rightarrow> bool" where
  "chosen w0 n evs \<longleftrightarrow> distinct (map msg_ID evs)
     \<and> (if fst (run_state (ob_Err env) w0) = None then may_pull w0 n evs \<or> pull_may_fail \<and> evs = [] else evs = [])"

lemma ProcessOnce_ensures:
  assumes "live \<longrightarrow> ctx_live env" and m: "m = nat (maxAttempts wk)" "0 < m"
  shows "ensures (\<lambda>w. w = w0 \<and> K f l w) (ProcessOnce env wk) (\<lambda>_ w. \<exists>evs. chosen w0 (worker_batchSize wk) evs \<and>
     round wk live m evs (\<lambda>i. if i \<in> msg_ID ` set evs then Some OutboxProcessing else f i) l w)"
    (is "ensures _ _ (\<lambda>_. ?Q)")
proof -
  let ?n = "worker_batchSize wk"
  let ?ctx = "fst (run_state (ob_Err env) w0)"
  have no_event: "K f l w \<Longrightarrow> chosen w0 ?n [] \<Longrightarrow> ?Q w" for w
    by (rule exI [of _ "[]"]) (auto simp: round_def intro: all_done)
  have start: "ensures (\<lambda>w. w = w0 \<and> K f l w) (ob_Err env) (\<lambda>ctx w. ctx = ?ctx \<and> K f l w \<and> since w0 w)"
    by (rule ensuresI) (auto simp: K_def since_def dest: err_frame)
  have refresh: "ensures (\<lambda>w. K f l w \<and> since w0 w) (refreshBacklogMetrics env) (\<lambda>_ w. K f l w \<and> since w0 w)"
    by (rule ensures_conj; rule ensures_pre [OF frame_then [OF frame_refresh]] ensures_pre [OF keeps_ensures [OF since_refresh]])
      auto
  have pull: "ensures (\<lambda>w. K f l w \<and> since w0 w) (ob_PullPending env ?n) (\<lambda>pulled w. case pulled of
      Inl e \<Rightarrow> pull_may_fail \<and> K f l w
    | Inr evs \<Rightarrow> (may_pull w0 ?n evs \<and> distinct (map msg_ID evs))
        \<and> K (\<lambda>i. if i \<in> msg_ID ` set evs then Some OutboxProcessing else f i) l w)"
    by (rule ensuresI) (auto simp: K_def since_def dest: pull_law split: sum.split)
  have batch: "ensures (K (\<lambda>i. if i \<in> msg_ID ` set evs then Some OutboxProcessing else f i) l)
      (State_Monad.bind (process_events env wk evs)
        (\<lambda>finished. if finished then refreshBacklogMetrics env else skip)) (\<lambda>_. ?Q)"
    if "chosen w0 ?n evs" for evs
  proof (rule ensures_bind [OF process_events_ensures [OF assms]])
    fix finished :: bool
    have "ensures (round wk live m evs g l) (if finished then refreshBacklogMetrics env else skip)
        (\<lambda>_. round wk live m evs g l)" for g
      by (rule frame_round) auto
    then show "ensures (round wk live m evs (\<lambda>i. if i \<in> msg_ID ` set evs then Some OutboxProcessing else f i) l)
        (if finished then refreshBacklogMetrics env else skip) (\<lambda>_. ?Q)"
      using that by (blast intro: ensures_post)
  qed auto
  have go: "ensures (\<lambda>w. K f l w \<and> since w0 w) (State_Monad.bind (ob_PullPending env ?n) (\<lambda>pulled. case pulled of
      Inl _ \<Rightarrow> skip
    | Inr evs \<Rightarrow> if evs = [] then skip else State_Monad.bind (process_events env wk evs)
        (\<lambda>finished. if finished then refreshBacklogMetrics env else skip))) (\<lambda>_. ?Q)" if "?ctx = None"
  proof (rule ensures_bind [OF pull], rule ensures_sum, goal_cases)
    case (1 pulled e)
    have "chosen w0 ?n []" if "pull_may_fail" unfolding chosen_def using that \<open>?ctx = None\<close> by simp
    then show ?case using 1 no_event by (auto intro!: ensures_return simp del: One_nat_def)
  next
    case (2 pulled evs)
    have skipped: "ensures (K f l) skip (\<lambda>_. ?Q)" if "may_pull w0 ?n []"
      using that \<open>?ctx = None\<close> by (intro ensures_return no_event) (simp_all add: chosen_def)
    show ?case unfolding 2 sum.case
    proof (rule ensures_pure)
      assume "may_pull w0 ?n evs \<and> distinct (map msg_ID evs)"
      with that have "chosen w0 ?n evs" "may_pull w0 ?n evs" by (simp_all add: chosen_def)
      then show "ensures (K (\<lambda>i. if i \<in> msg_ID ` set evs then Some OutboxProcessing else f i) l)
        (if evs = [] then skip else State_Monad.bind (process_events env wk evs)
          (\<lambda>finished. if finished then refreshBacklogMetrics env else skip)) (\<lambda>_. ?Q)"
        using skipped batch [of evs] by (cases "evs = []") simp_all
    qed
  qed
  show ?thesis
    unfolding ProcessOnce_def
  proof (rule ensures_bind [OF start], rule ensures_option, goal_cases)
    case (1 ctx)
    show ?case
      by (rule ensures_pure, rule ensures_bind [OF refresh], rule go) (use 1 in simp)
  next
    case (2 ctx c)
    have "chosen w0 ?n []" if "?ctx \<noteq> None" using that unfolding chosen_def by auto
    with 2 no_event show ?case by (intro ensures_return) (metis option.distinct(1))
  qed
qed

text \<open>The fate of every message in one round.\<close>

lemma ProcessOnce_fate:
  assumes "live \<longrightarrow> ctx_live env" and "0 < maxAttempts wk" and "invar w"
    and "run_state (ProcessOnce env wk) w = (u, w')"
  shows "\<exists>evs new. chosen w (worker_batchSize wk) evs \<and> sends w' = sends w @ new
     \<and> (\<forall>i. i \<notin> msg_ID ` set evs \<longrightarrow> stat w' i = stat w i)
     \<and> (\<forall>ev. msg_ID ev \<notin> msg_ID ` set evs \<longrightarrow> answers_for ev new = [] \<and> dead_letters_for ev new = [])
     \<and> (\<forall>ev \<in> set evs. fate (dlq_letter (ob_Format env) (ob_Marshal env) (has_dlqPublisher wk)) live
           (nat (maxAttempts wk)) ev (Some OutboxProcessing) (stat w' (msg_ID ev)) new)"
proof -
  have "w = w \<and> K (stat w) (sends w) w" using assms(3) by (simp add: K_def)
  from ensuresD [OF ProcessOnce_ensures [OF assms(1) refl] this assms(4)] assms(2)
  obtain evs f' l' where evs: "chosen w (worker_batchSize wk) evs"
    "processed (dead wk) live (nat (maxAttempts wk)) evs
       (\<lambda>i. if i \<in> msg_ID ` set evs then Some OutboxProcessing else stat w i) (sends w) f' l'"
    "K f' l' w'"
    by (auto simp: round_def)
  then have "distinct (map msg_ID evs)" by (simp add: chosen_def)
  from processed_fate [OF evs(2) [unfolded dead_def] this] obtain new where "l' = sends w @ new"
    "\<forall>i. i \<notin> msg_ID ` set evs \<longrightarrow> f' i = (if i \<in> msg_ID ` set evs then Some OutboxProcessing else stat w i)"
    "\<forall>ev. msg_ID ev \<notin> msg_ID ` set evs \<longrightarrow> answers_for ev new = [] \<and> dead_letters_for ev new = []"
    "\<forall>ev \<in> set evs. fate (dlq_letter (ob_Format env) (ob_Marshal env) (has_dlqPublisher wk)) live (nat (maxAttempts wk)) ev
       (if msg_ID ev \<in> msg_ID ` set evs then Some OutboxProcessing else stat w (msg_ID ev)) (f' (msg_ID ev)) new"
    by auto
  then show ?thesis using evs(1,3) by (intro exI [of _ evs] exI [of _ new]) (auto simp: K_def)
qed

end

section \<open>The worker on the memory outbox\<close>

text \<open>The world of the worker: the outbox, the clock, the metrics, what was sent to the broker and to the
  dead letter queue so far, and a hidden state of everything outside, which \<open>broker_env\<close> describes.\<close>

record 's broker_env =
  x_publish :: "OutboxMessage \<Rightarrow> 's \<Rightarrow> error option \<times> 's"
  x_dlq :: "OutboxMessage \<Rightarrow> 's \<Rightarrow> error option \<times> 's"
  x_err :: "'s \<Rightarrow> error option \<times> 's"
  x_wait :: "duration \<Rightarrow> 's \<Rightarrow> error option \<times> 's"
  x_order :: "outbox_repo \<Rightarrow> string list"
  x_marshal :: "jobject \<Rightarrow> error + bytes"
  x_format :: "gotime \<Rightarrow> string"

record 's ob_world =
  o_repo :: outbox_repo
  o_clock :: gotime
  o_metrics :: OutboxMetrics
  o_log :: publish_log
  o_ext :: 's

definition outside :: "('s \<Rightarrow> 'a \<times> 's) \<Rightarrow> ('s ob_world, 'a) prog" where
  "outside f = State (\<lambda>w. case f (o_ext w) of (a, s) \<Rightarrow> (a, w\<lparr>o_ext := s\<rparr>))"

definition on_outbox :: "(gotime \<Rightarrow> outbox_repo \<Rightarrow> 'a \<times> outbox_repo) \<Rightarrow> ('s ob_world, 'a) prog" where
  "on_outbox f = State (\<lambda>w. case f (o_clock w) (o_repo w) of (a, r) \<Rightarrow>
     (a, w\<lparr>o_repo := r, o_clock := o_clock w + 1\<rparr>))"

definition memory_outbox_env :: "'s broker_env \<Rightarrow> 's ob_world outbox_env" where
  "memory_outbox_env x =
     \<lparr>ob_PullPending = (\<lambda>n. on_outbox (\<lambda>now r. outbox_PullPending now (x_order x r) n r)),
      ob_Stats = on_outbox (\<lambda>now r. (outbox_Stats (x_order x r) r, r)),
      ob_MarkSent = (\<lambda>i. on_outbox (\<lambda>now. outbox_MarkSent now i)),
      ob_MarkFailed = (\<lambda>i. on_outbox (\<lambda>now. outbox_MarkFailed now i)),
      ob_Publish = (\<lambda>m. do {
        err \<leftarrow> outside (x_publish x m);
        State (\<lambda>w. (err, w\<lparr>o_log := o_log w @ [Published m err]\<rparr>)) }),
      ob_DLQPublish = (\<lambda>m. do {
        err \<leftarrow> outside (x_dlq x m);
        State (\<lambda>w. (err, w\<lparr>o_log := o_log w @ [Dead_letter m err]\<rparr>)) }),
      ob_Err = outside (x_err x),
      ob_wait = (\<lambda>d. outside (x_wait x d)),
      ob_Now = State (\<lambda>w. (o_clock w, w\<lparr>o_clock := o_clock w + 1\<rparr>)),
      ob_metric = (\<lambda>f. State (\<lambda>w. ((), w\<lparr>o_metrics := f (o_metrics w)\<rparr>))),
      ob_Marshal = x_marshal x,
      ob_Format = x_format x\<rparr>"

definition map_order_ok :: "'s broker_env \<Rightarrow> bool" where
  "map_order_ok x \<longleftrightarrow> (\<forall>r. finite (dom r) \<longrightarrow> range_order r (x_order x r))"

definition outbox_ok :: "outbox_repo \<Rightarrow> bool" where
  "outbox_ok r \<longleftrightarrow> wf_outbox r \<and> finite (dom r)"

lemmas outbox_env_defs = memory_outbox_env_def on_outbox_def outside_def

lemma pull_statuses:
  assumes "outbox_ok r" and "range_order r ks"
  shows "\<exists>evs r'. outbox_PullPending now ks n r = (Inr evs, r') \<and> outbox_ok r' \<and> distinct (map msg_ID evs)
    \<and> outbox_status r' = (\<lambda>i. if i \<in> msg_ID ` set evs then Some OutboxProcessing else outbox_status r i)"
proof -
  let ?sel = "pull_selection now ks n r"
  have wf: "wf_outbox r" and fin: "finite (dom r)" using assms(1) by (simp_all add: outbox_ok_def)
  have ids: "map msg_ID (map msg (range_vals r ?sel)) = ?sel" by (rule pulled_ids [OF wf assms(2)])
  then have set: "msg_ID ` set (map msg (range_vals r ?sel)) = set ?sel" by (metis list.set_map)
  have stored: "i \<in> set ?sel \<Longrightarrow> r i \<noteq> None" for i
    using pull_selection_set(2) [OF assms(2), of i now n]
    by (auto simp: id_claimable_def split: option.splits)
  have "dom (claim_ids now ?sel r) = dom r" by (auto simp: claim_ids_def split: if_splits)
  then have "outbox_ok (claim_ids now ?sel r)" using wf fin by (simp add: outbox_ok_def)
  moreover have "distinct (map msg_ID (map msg (range_vals r ?sel)))"
    unfolding ids by (rule pull_selection_set(1) [OF assms(2)])
  moreover have "outbox_status (claim_ids now ?sel r) =
      (\<lambda>i. if i \<in> set ?sel then Some OutboxProcessing else outbox_status r i)"
  proof
    fix i
    show "outbox_status (claim_ids now ?sel r) i =
        (if i \<in> set ?sel then Some OutboxProcessing else outbox_status r i)"
      using stored [of i] by (cases "r i") (auto simp: outbox_status_def claim_ids_def)
  qed
  ultimately show ?thesis unfolding outbox_PullPending_eq [OF assms(2)] set [symmetric] by blast
qed

lemma mark_statuses:
  assumes "outbox_ok r" and "outbox_status r i = Some st0"
  shows "\<exists>r'. outbox_mark st now i r = (None, r') \<and> outbox_ok r'
    \<and> outbox_status r' = (outbox_status r)(i \<mapsto> st)"
proof -
  obtain rec where rec: "r i = Some rec" using assms(2) by (auto simp: outbox_status_def)
  let ?r = "r(i \<mapsto> rec\<lparr>status := st, attemptCnt := attemptCnt rec + 1, updatedAt := now\<rparr>)"
  have "outbox_mark st now i r = (None, ?r)" using rec by (simp add: outbox_mark_def)
  moreover have "outbox_ok ?r" using assms(1) rec by (auto simp: outbox_ok_def wf_outbox_def)
  moreover have "outbox_status ?r = (outbox_status r)(i \<mapsto> st)"
    by (simp add: outbox_status_def fun_eq_iff)
  ultimately show ?thesis by blast
qed

definition mem_may_pull :: "'s broker_env \<Rightarrow> 's ob_world \<Rightarrow> int \<Rightarrow> OutboxMessage list \<Rightarrow> bool" where
  "mem_may_pull x w n evs \<longleftrightarrow> (\<exists>now. o_clock w \<le> now
     \<and> fst (outbox_PullPending now (x_order x (o_repo w)) n (o_repo w)) = Inr evs)"

lemma mem_clock: "(t :: gotime) + 1 \<le> now \<Longrightarrow> t \<le> now"
  by simp

interpretation mem_outbox: outbox_backend "memory_outbox_env x" "\<lambda>w. outbox_status (o_repo w)" o_log
  "\<lambda>w. map_order_ok x \<and> outbox_ok (o_repo w)" "mem_may_pull x" False
  for x
proof (unfold_locales, goal_cases)
  case (1 w n pulled w')
  then have "range_order (o_repo w) (x_order x (o_repo w))"
    by (simp add: map_order_ok_def outbox_ok_def)
  then obtain evs r' where
    "outbox_PullPending (o_clock w) (x_order x (o_repo w)) n (o_repo w) = (Inr evs, r')"
    "outbox_ok r'" "distinct (map msg_ID evs)" "outbox_status r' =
      (\<lambda>i. if i \<in> msg_ID ` set evs then Some OutboxProcessing else outbox_status (o_repo w) i)"
    using pull_statuses 1(1) by blast
  with 1 show ?case by (auto simp: outbox_env_defs mem_may_pull_def intro!: exI [of _ "o_clock w"])
next
  case (2 w i st err w')
  then show ?case
    using mark_statuses [of "o_repo w" i st OutboxSent "o_clock w"]
    by (auto simp: outbox_env_defs outbox_MarkSent_def)
next
  case (3 w i st err w')
  then show ?case
    using mark_statuses [of "o_repo w" i st OutboxFailed "o_clock w"]
    by (auto simp: outbox_env_defs outbox_MarkFailed_def)
qed (auto simp: outbox_env_defs mem_may_pull_def split: prod.splits dest: mem_clock)

text \<open>C8. One polling round over the memory outbox, whatever the broker and the dead letter queue answer and however the
  context behaves: unless the context has ended at the start, the round works on exactly the messages that \<open>PullPending\<close>
  hands out at that time; all others keep their status and nothing is sent for them. Each of its messages was tried at most
  \<open>maxAttempts\<close> times. It is marked sent exactly when the broker accepted its last attempt, and then no dead letter was
  sent. Otherwise it is marked failed, and with a dead letter queue exactly one dead letter was sent for it, with the
  fields of the message and the error (none if they cannot be encoded). If the context does not end this happens after
  exactly \<open>maxAttempts\<close> refusals, with the last of them as the error, and no message of the round is left in processing.\<close>

theorem ProcessOnce_settles:
  assumes "0 < maxAttempts wk" and "map_order_ok x" and "outbox_ok (o_repo w)"
    and "live \<Longrightarrow> \<forall>s d. fst (x_err x s) = None \<and> fst (x_wait x d s) = None"
    and "run_state (ProcessOnce (memory_outbox_env x) wk) w = (u, w')"
  shows "\<exists>evs new. (if fst (x_err x (o_ext w)) = None
         then \<exists>now. o_clock w \<le> now
           \<and> fst (outbox_PullPending now (x_order x (o_repo w)) (worker_batchSize wk) (o_repo w)) = Inr evs
         else evs = [])
     \<and> distinct (map msg_ID evs) \<and> o_log w' = o_log w @ new
     \<and> (\<forall>i. i \<notin> msg_ID ` set evs \<longrightarrow> outbox_status (o_repo w') i = outbox_status (o_repo w) i)
     \<and> (\<forall>ev. msg_ID ev \<notin> msg_ID ` set evs \<longrightarrow> answers_for ev new = [] \<and> dead_letters_for ev new = [])
     \<and> (\<forall>ev \<in> set evs. let tries = answers_for ev new; letters = dead_letters_for ev new;
              after = outbox_status (o_repo w') (msg_ID ev) in
          length tries \<le> nat (maxAttempts wk)
          \<and> (if tries = [] then \<not> live \<and> after = Some OutboxProcessing \<and> letters = []
             else if last tries = None then after = Some OutboxSent \<and> None \<notin> set (butlast tries) \<and> letters = []
             else after = Some OutboxFailed \<and> None \<notin> set tries
                  \<and> (\<exists>e. dlq_letter (x_format x) (x_marshal x) (has_dlqPublisher wk) ev e letters
                       \<and> (live \<longrightarrow> length tries = nat (maxAttempts wk)
                            \<and> e = exhausted (nat (maxAttempts wk)) (the (last tries))))))"
proof -
  let ?env = "memory_outbox_env x"
  have "live \<longrightarrow> ctx_live ?env"
    using assms(4) by (auto simp: ctx_live_def outbox_env_defs split: prod.split)
      (metis fst_conv)+
  then obtain evs new where r: "mem_outbox.chosen x w (worker_batchSize wk) evs" "o_log w' = o_log w @ new"
      "\<forall>i. i \<notin> msg_ID ` set evs \<longrightarrow> outbox_status (o_repo w') i = outbox_status (o_repo w) i"
      "\<forall>ev. msg_ID ev \<notin> msg_ID ` set evs \<longrightarrow> answers_for ev new = [] \<and> dead_letters_for ev new = []"
      "\<forall>ev \<in> set evs. fate (dlq_letter (ob_Format ?env) (ob_Marshal ?env) (has_dlqPublisher wk)) live (nat (maxAttempts wk)) ev (Some OutboxProcessing)
         (outbox_status (o_repo w') (msg_ID ev)) new"
    using mem_outbox.ProcessOnce_fate [of live x wk w u w'] assms(1,2,3,5) by auto
  have "fst (run_state (ob_Err ?env) w) = fst (x_err x (o_ext w))"
    by (simp add: outbox_env_defs split: prod.split)
  with r(1) have "if fst (x_err x (o_ext w)) = None
         then \<exists>now. o_clock w \<le> now
           \<and> fst (outbox_PullPending now (x_order x (o_repo w)) (worker_batchSize wk) (o_repo w)) = Inr evs
         else evs = []" and "distinct (map msg_ID evs)"
    unfolding mem_outbox.chosen_def mem_may_pull_def by (auto split: if_splits)
  moreover have env: "ob_Format ?env = x_format x" "ob_Marshal ?env = x_marshal x"
    by (simp_all add: memory_outbox_env_def)
  ultimately show ?thesis using r(2-4) r(5) [unfolded fate_def Let_def env] unfolding Let_def by blast
qed

text \<open>A broker that always answers \<open>ans\<close>, with a context that answers \<open>ctx\<close> during every backoff.\<close>

definition const_broker :: "error option \<Rightarrow> error option \<Rightarrow> unit broker_env" where
  "const_broker ans ctx =
     \<lparr>x_publish = (\<lambda>m s. (ans, s)), x_dlq = (\<lambda>m s. (None, s)), x_err = (\<lambda>s. (None, s)),
      x_wait = (\<lambda>d s. (ctx, s)), x_order = (\<lambda>r. sorted_list_of_set (dom r)),
      x_marshal = (\<lambda>o1. Inr []), x_format = (\<lambda>t. [])\<rparr>"

definition one_message_world :: "unit ob_world" where
  "one_message_world =
     \<lparr>o_repo = [''m1'' \<mapsto> \<lparr>msg = example_message ''m1'', status = OutboxPending, attemptCnt = 0,
                             createdAt = 1, updatedAt = 1\<rparr>],
      o_clock = 5,
      o_metrics = \<lparr>attempts_sent = 0, attempts_retry_error = 0, attempts_failed = 0,
                    attempts_dlq_failed = 0, outboxPendingRecords = 0, outboxOldestPendingAge = 0\<rparr>,
      o_log = [], o_ext = ()\<rparr>"

lemma const_broker_order: "map_order_ok (const_broker ans ctx)"
  by (simp add: map_order_ok_def const_broker_def range_order_def)

lemma one_message_ok: "outbox_ok (o_repo one_message_world)"
  by (simp add: one_message_world_def outbox_ok_def wf_outbox_def example_message_def)

lemmas outbox_run_eval = outbox_env_defs const_broker_def one_message_world_def example_message_def
  ProcessOnce_def refreshBacklogMetrics_def process_event_def publishWithRetry_def publishToDLQ_def
  outbox_PullPending_def outbox_Stats_def outbox_MarkSent_def outbox_MarkFailed_def outbox_mark_def
  sort_slice_def claimable_def outbox_status_def retryBackoff_def Let_def

theorem ProcessOnce_settles_witness:
  "\<exists>new u w'. run_state (ProcessOnce (memory_outbox_env (const_broker (Some (Opaque ''down'')) None))
        (NewWorker True True [WithDLQPublisher True])) one_message_world = (u, w')
     \<and> o_log w' = new \<and> outbox_status (o_repo w') ''m1'' = Some OutboxFailed
     \<and> length (answers_for (example_message ''m1'') new) = 3
     \<and> length (dead_letters_for (example_message ''m1'') new) = 1"
proof -
  let ?x = "const_broker (Some (Opaque ''down'')) None" and ?wk = "NewWorker True True [WithDLQPublisher True]"
  let ?m = "example_message ''m1''"
  obtain u w' where run: "run_state (ProcessOnce (memory_outbox_env ?x) ?wk) one_message_world = (u, w')"
    by (cases "run_state (ProcessOnce (memory_outbox_env ?x) ?wk) one_message_world")
  have failed: "outbox_status (o_repo (snd (run_state (ProcessOnce (memory_outbox_env ?x) ?wk) one_message_world))) ''m1''
      = Some OutboxFailed"
    by (simp add: outbox_run_eval NewWorker_def WithDLQPublisher_def defaultMaxAttempts_def
        defaultRetryBaseDelay_def defaultBatchSize_def numeral_3_eq_3 IsZero_def)
  have live: "True \<Longrightarrow> \<forall>s d. fst (x_err ?x s) = None \<and> fst (x_wait ?x d s) = None"
    by (simp add: const_broker_def)
  have wk: "maxAttempts ?wk = 3" "worker_batchSize ?wk = 100" "has_dlqPublisher ?wk"
    by (simp_all add: NewWorker_def Let_def defaultMaxAttempts_def defaultBatchSize_def WithDLQPublisher_def)
  have pulled: "fst (outbox_PullPending now (x_order ?x (o_repo one_message_world)) 100 (o_repo one_message_world))
      = Inr [?m]" for now
    by (simp add: outbox_PullPending_def const_broker_def one_message_world_def sort_slice_def claimable_def)
  from ProcessOnce_settles [where live = True, OF NewWorker_positive(2) const_broker_order one_message_ok live run]
  obtain evs new where r: "if fst (x_err ?x (o_ext one_message_world)) = None
         then \<exists>now. o_clock one_message_world \<le> now
           \<and> fst (outbox_PullPending now (x_order ?x (o_repo one_message_world)) (worker_batchSize ?wk)
                (o_repo one_message_world)) = Inr evs
         else evs = []"
      "o_log w' = o_log one_message_world @ new"
    and each: "\<forall>ev \<in> set evs. let tries = answers_for ev new; letters = dead_letters_for ev new;
              after = outbox_status (o_repo w') (msg_ID ev) in
          length tries \<le> nat (maxAttempts ?wk)
          \<and> (if tries = [] then \<not> True \<and> after = Some OutboxProcessing \<and> letters = []
             else if last tries = None then after = Some OutboxSent \<and> None \<notin> set (butlast tries) \<and> letters = []
             else after = Some OutboxFailed \<and> None \<notin> set tries
                  \<and> (\<exists>e. dlq_letter (x_format ?x) (x_marshal ?x) (has_dlqPublisher ?wk) ev e letters
                       \<and> (True \<longrightarrow> length tries = nat (maxAttempts ?wk)
                            \<and> e = exhausted (nat (maxAttempts ?wk)) (the (last tries)))))"
    by blast
  have "fst (x_err ?x (o_ext one_message_world)) = None" by (simp add: const_broker_def)
  with r(1) have "evs = [?m]" unfolding wk pulled by auto
  with each have "let tries = answers_for ?m new; letters = dead_letters_for ?m new in
      tries \<noteq> [] \<and> (if last tries = None then outbox_status (o_repo w') ''m1'' = Some OutboxSent
        else \<exists>e. dlq_letter (x_format ?x) (x_marshal ?x) True ?m e letters \<and> length tries = nat 3)"
    unfolding wk(1) using wk(3) by (auto simp: Let_def example_message_def split: if_splits)
  then have "length (answers_for ?m new) = 3" "length (dead_letters_for ?m new) = 1"
    using failed run by (auto simp: Let_def dlq_letter_def const_broker_def split: if_splits)
  with run failed r(2) show ?thesis by (auto simp: one_message_world_def)
qed

text \<open>A context that ends during the backoff: the message is marked failed after a single attempt
  instead of staying available for the next run, although three attempts are configured.\<close>

theorem shutdown_fails_message:
  "(let w' = snd (run_state (ProcessOnce (memory_outbox_env
        (const_broker (Some (Opaque ''broker down'')) (Some (E ContextCanceled)))) (NewWorker True True []))
        one_message_world)
    in outbox_status (o_repo w') ''m1'' = Some OutboxFailed
       \<and> o_log w' = [Published (example_message ''m1'') (Some (Opaque ''broker down''))])"
  by (simp add: outbox_run_eval NewWorker_def defaultMaxAttempts_def defaultRetryBaseDelay_def
      defaultBatchSize_def numeral_3_eq_3 IsZero_def)

end
