(* ===== verification/Grpc_Order.thy ===== *)
theory Grpc_Order
  imports Saga
begin

text \<open>
  \<open>internal/service/grpc/order_service.go\<close>: the gRPC order service.

  \<^item> The struct \<open>OrderService\<close> is the record \<open>order_service\<close> of the operations the code calls, as programs
    over a world \<open>'w\<close>; a nil timeline, idempotency repository or orchestrator is \<open>None\<close>.
  \<^item> A pointer of the protobuf messages that may be nil is an option. An error returned by a handler is a
    gRPC \<open>rpc_status\<close>; a handler returns a sum of a status and a response.
  \<^item> Code outside the repository: \<open>proto.Marshal\<close>, \<open>protojson\<close>, SHA-256 and the JSON encoding of the error
    payload are functions of the record \<open>codec\<close>.
  \<^item> \<open>runSagaAsync\<close> checks the \<open>sagaClosed\<close> flag and starts a goroutine; the flag and the goroutine are
    programs of the record, so that a world can log which calls were started.
  Logging is left out, and with it \<open>warnIdempotencyDisabled\<close>, which only logs once.
\<close>

section \<open>gRPC status codes\<close>

datatype rpc_code =
    codes_OK | codes_Canceled | codes_Unknown | codes_InvalidArgument | codes_DeadlineExceeded
  | codes_NotFound | codes_AlreadyExists | codes_PermissionDenied | codes_ResourceExhausted
  | codes_FailedPrecondition | codes_Aborted | codes_OutOfRange | codes_Unimplemented
  | codes_Internal | codes_Unavailable | codes_DataLoss | codes_Unauthenticated | codes_Other nat

record rpc_status =
  Code :: rpc_code
  Message :: string

definition status_Error :: "rpc_code \<Rightarrow> string \<Rightarrow> rpc_status" where
  "status_Error c m = \<lparr>Code = c, Message = m\<rparr>"

fun grpcCodeToInt32 :: "rpc_code \<Rightarrow> int" where
  "grpcCodeToInt32 codes_OK = 0"
| "grpcCodeToInt32 codes_Canceled = 1"
| "grpcCodeToInt32 codes_Unknown = 2"
| "grpcCodeToInt32 codes_InvalidArgument = 3"
| "grpcCodeToInt32 codes_DeadlineExceeded = 4"
| "grpcCodeToInt32 codes_NotFound = 5"
| "grpcCodeToInt32 codes_AlreadyExists = 6"
| "grpcCodeToInt32 codes_PermissionDenied = 7"
| "grpcCodeToInt32 codes_ResourceExhausted = 8"
| "grpcCodeToInt32 codes_FailedPrecondition = 9"
| "grpcCodeToInt32 codes_Aborted = 10"
| "grpcCodeToInt32 codes_OutOfRange = 11"
| "grpcCodeToInt32 codes_Unimplemented = 12"
| "grpcCodeToInt32 codes_Internal = 13"
| "grpcCodeToInt32 codes_Unavailable = 14"
| "grpcCodeToInt32 codes_DataLoss = 15"
| "grpcCodeToInt32 codes_Unauthenticated = 16"
| "grpcCodeToInt32 (codes_Other n) = 13"

text \<open>\<open>int(code)\<close>: the number of a code.\<close>

fun code_int :: "rpc_code \<Rightarrow> int" where
  "code_int (codes_Other n) = int n"
| "code_int c = grpcCodeToInt32 c"

definition grpcCodeFromInt64 :: "int \<Rightarrow> rpc_code \<times> bool" where
  "grpcCodeFromInt64 v =
     (if v = 0 then (codes_OK, True) else if v = 1 then (codes_Canceled, True)
      else if v = 2 then (codes_Unknown, True) else if v = 3 then (codes_InvalidArgument, True)
      else if v = 4 then (codes_DeadlineExceeded, True) else if v = 5 then (codes_NotFound, True)
      else if v = 6 then (codes_AlreadyExists, True) else if v = 7 then (codes_PermissionDenied, True)
      else if v = 8 then (codes_ResourceExhausted, True)
      else if v = 9 then (codes_FailedPrecondition, True) else if v = 10 then (codes_Aborted, True)
      else if v = 11 then (codes_OutOfRange, True) else if v = 12 then (codes_Unimplemented, True)
      else if v = 13 then (codes_Internal, True) else if v = 14 then (codes_Unavailable, True)
      else if v = 15 then (codes_DataLoss, True) else if v = 16 then (codes_Unauthenticated, True)
      else (codes_Internal, False))"

definition grpcCodeFromInt32 :: "int \<Rightarrow> rpc_code \<times> bool" where
  "grpcCodeFromInt32 v = grpcCodeFromInt64 v"

definition grpcCodeFromInt :: "int \<Rightarrow> rpc_code \<times> bool" where
  "grpcCodeFromInt v = grpcCodeFromInt64 v"

section \<open>Messages\<close>

datatype pb_OrderStatus =
    ORDER_STATUS_UNSPECIFIED | ORDER_STATUS_PENDING | ORDER_STATUS_RESERVED | ORDER_STATUS_PAID
  | ORDER_STATUS_CONFIRMED | ORDER_STATUS_CANCELED | ORDER_STATUS_REFUNDED

record Money =
  pb_MoneyCurrency :: string
  pb_AmountMinor :: int

record pb_OrderItem =
  pb_Sku :: string
  pb_Qty :: int
  pb_Price :: "Money option"

record pb_Order =
  pb_Id :: string
  pb_OrderCustomerId :: string
  pb_Status :: pb_OrderStatus
  pb_Amount :: Money
  pb_OrderItems :: "pb_OrderItem list"
  pb_Version :: int
  pb_OrderCurrency :: string

record pb_TimelineEvent =
  pb_Type :: string
  pb_Reason :: string
  pb_UnixTime :: int

record CreateOrderRequest =
  req_CustomerId :: string
  req_Currency :: string
  req_Items :: "pb_OrderItem option list"

record PayOrderRequest =
  pay_OrderId :: string

record CancelOrderRequest =
  cancel_OrderId :: string
  cancel_Reason :: string

record RefundOrderRequest =
  refund_OrderId :: string
  refund_Amount :: "Money option"
  refund_Reason :: string

record ListOrdersRequest =
  list_CustomerId :: string
  list_PageSize :: int

record OrderStatusResponse =
  resp_OrderId :: string
  resp_Status :: pb_OrderStatus

record GetOrderResponse =
  resp_Order :: pb_Order
  resp_Timeline :: "pb_TimelineEvent list"

fun toProtoStatus :: "OrderStatus \<Rightarrow> pb_OrderStatus" where
  "toProtoStatus OrderStatusPending = ORDER_STATUS_PENDING"
| "toProtoStatus OrderStatusReserved = ORDER_STATUS_RESERVED"
| "toProtoStatus OrderStatusPaid = ORDER_STATUS_PAID"
| "toProtoStatus OrderStatusConfirmed = ORDER_STATUS_CONFIRMED"
| "toProtoStatus OrderStatusCanceled = ORDER_STATUS_CANCELED"
| "toProtoStatus OrderStatusRefunded = ORDER_STATUS_REFUNDED"
| "toProtoStatus (OrderStatusOther s) = ORDER_STATUS_UNSPECIFIED"

definition toProtoOrder :: "Order \<Rightarrow> pb_Order" where
  "toProtoOrder order =
     \<lparr>pb_Id = ID order, pb_OrderCustomerId = CustomerID order, pb_Status = toProtoStatus (Status order),
      pb_Amount = \<lparr>pb_MoneyCurrency = Currency order, pb_AmountMinor = AmountMinor order\<rparr>,
      pb_OrderItems = map (\<lambda>item. \<lparr>pb_Sku = SKU item, pb_Qty = Qty item,
         pb_Price = Some \<lparr>pb_MoneyCurrency = Currency order, pb_AmountMinor = PriceMinor item\<rparr>\<rparr>)
         (Items order),
      pb_Version = Version order, pb_OrderCurrency = Currency order\<rparr>"

fun joinErrors :: "error list \<Rightarrow> string" where
  "joinErrors [] = []"
| "joinErrors [e] = Error e"
| "joinErrors (e # es) = Error e @ ''; '' @ joinErrors es"

section \<open>The service\<close>

record 'w order_service =
  repo_Create :: "Order \<Rightarrow> ('w, error option) prog"
  repo_Get :: "string \<Rightarrow> ('w, error + Order) prog"
  repo_Save :: "Order \<Rightarrow> ('w, error option) prog"
  repo_ListByCustomer :: "string \<Rightarrow> int \<Rightarrow> ('w, error + Order list) prog"
  svc_timeline :: "((TimelineEvent \<Rightarrow> ('w, error option) prog)
                    \<times> (string \<Rightarrow> ('w, error + TimelineEvent list) prog)) option"
  has_idemRepo :: bool
  repo_CreateProcessing :: "string \<Rightarrow> string \<Rightarrow> gotime \<Rightarrow> ('w, IdempotencyRecord \<times> error option) prog"
  repo_MarkDone :: "string \<Rightarrow> bytes \<Rightarrow> int \<Rightarrow> ('w, error option) prog"
  repo_MarkFailed :: "string \<Rightarrow> bytes \<Rightarrow> int \<Rightarrow> ('w, error option) prog"
  has_saga :: bool
  saga_isClosed :: "('w, bool) prog"
  saga_go :: "saga_call \<Rightarrow> ('w, unit) prog"
  saga_close :: "('w, unit) prog"
  saga_wait :: "('w, error option) prog"
  svc_Now :: "('w, gotime) prog"
  svc_NewString :: "('w, string) prog"

record ('req, 'resp) codec =
  proto_Marshal :: "'req \<Rightarrow> error + bytes"
  sha256_Sum256 :: "bytes \<Rightarrow> bytes"
  protojson_Marshal :: "'resp \<Rightarrow> error + bytes"
  protojson_Unmarshal :: "bytes \<Rightarrow> error + 'resp"
  json_MarshalFailure :: "int \<Rightarrow> string \<Rightarrow> bytes option"
  json_UnmarshalFailure :: "bytes \<Rightarrow> (int \<times> string) option"

text \<open>The metadata of a call: the values of the idempotency header in the incoming and the outgoing
  metadata, when the context carries such metadata.\<close>

record call_ctx =
  md_incoming :: "string list option"
  md_outgoing :: "string list option"

definition defaultListOrdersLimit :: int where "defaultListOrdersLimit = 100"
definition idempotencyTTL :: duration where "idempotencyTTL = 24 * hour"

definition grpcMethodCreateOrder :: string where
  "grpcMethodCreateOrder = ''/oms.v1.OrderService/CreateOrder''"
definition grpcMethodPayOrder :: string where
  "grpcMethodPayOrder = ''/oms.v1.OrderService/PayOrder''"
definition grpcMethodCancelOrder :: string where
  "grpcMethodCancelOrder = ''/oms.v1.OrderService/CancelOrder''"
definition grpcMethodRefundOrder :: string where
  "grpcMethodRefundOrder = ''/oms.v1.OrderService/RefundOrder''"

definition header_value :: "string list option \<Rightarrow> string option" where
  "header_value md =
     (case md of
        Some (v # vs) \<Rightarrow> if TrimSpace v \<noteq> [] then Some (TrimSpace v) else None
      | _ \<Rightarrow> None)"

definition readIdempotencyKey :: "call_ctx \<Rightarrow> rpc_status + string" where
  "readIdempotencyKey ctx =
     (case header_value (md_incoming ctx) of
        Some k \<Rightarrow> Inr k
      | None \<Rightarrow>
          (case header_value (md_outgoing ctx) of
             Some k \<Rightarrow> Inr k
           | None \<Rightarrow> Inl (status_Error codes_InvalidArgument ''idempotency-key metadata is required'')))"

definition hex_digit :: "nat \<Rightarrow> char" where
  "hex_digit n = ''0123456789abcdef'' ! n"

definition hex_EncodeToString :: "bytes \<Rightarrow> string" where
  "hex_EncodeToString bs =
     concat (map (\<lambda>c. [hex_digit (of_char c div 16), hex_digit (of_char c mod 16)]) bs)"

definition buildIdempotencyRequestHash ::
  "('req, 'resp) codec \<Rightarrow> string \<Rightarrow> 'req \<Rightarrow> error + string" where
  "buildIdempotencyRequestHash cd method req =
     (case proto_Marshal cd req of
        Inl err \<Rightarrow> Inl err
      | Inr data \<Rightarrow> Inr (hex_EncodeToString (sha256_Sum256 cd (method @ '':'' @ data))))"

definition decodeIdempotencyFailure :: "('req, 'resp) codec \<Rightarrow> IdempotencyRecord \<Rightarrow> rpc_status" where
  "decodeIdempotencyFailure cd rec =
     (let previous = ''previous request with the same idempotency key failed'';
          fallback =
            (if HTTPStatus rec > 0 \<and> snd (grpcCodeFromInt (HTTPStatus rec))
                \<and> fst (grpcCodeFromInt (HTTPStatus rec)) \<noteq> codes_OK
             then status_Error (fst (grpcCodeFromInt (HTTPStatus rec))) previous
             else status_Error codes_Internal previous)
      in if ResponseBody rec \<noteq> [] then
           (case json_UnmarshalFailure cd (ResponseBody rec) of
              Some (c, m) \<Rightarrow>
                (case grpcCodeFromInt32 c of
                   (code, True) \<Rightarrow>
                     status_Error (if code = codes_OK then codes_Internal else code)
                       (if m = [] then previous else m)
                 | (code, False) \<Rightarrow> fallback)
            | None \<Rightarrow> fallback)
         else fallback)"

definition replayIdempotency ::
  "('req, 'resp) codec \<Rightarrow> error \<Rightarrow> IdempotencyRecord \<Rightarrow> rpc_status + 'resp" where
  "replayIdempotency cd createErr rec =
     (if errors_Is createErr ErrIdempotencyHashMismatch then
        Inl (status_Error codes_AlreadyExists ''idempotency key is already used with different request payload'')
      else if errors_Is createErr ErrIdempotencyKeyAlreadyExists then
        (case idem_Status rec of
           IdempotencyStatusDone \<Rightarrow>
             if ResponseBody rec = [] then Inl (status_Error codes_Internal ''idempotency cache is empty'')
             else (case protojson_Unmarshal cd (ResponseBody rec) of
                     Inl _ \<Rightarrow> Inl (status_Error codes_Internal ''failed to decode cached idempotency response'')
                   | Inr resp \<Rightarrow> Inr resp)
         | IdempotencyStatusProcessing \<Rightarrow>
             Inl (status_Error codes_Aborted ''request with the same idempotency key is already processing'')
         | IdempotencyStatusFailed \<Rightarrow> Inl (decodeIdempotencyFailure cd rec)
         | IdempotencyStatusOther _ \<Rightarrow>
             Inl (status_Error codes_Internal ''unknown idempotency record status''))
      else Inl (status_Error codes_Internal ''failed to initialize idempotency request''))"

definition cacheIdempotencySuccess ::
  "'w order_service \<Rightarrow> ('req, 'resp) codec \<Rightarrow> string \<Rightarrow> 'resp \<Rightarrow> ('w, error option) prog" where
  "cacheIdempotencySuccess s cd key resp =
     (case protojson_Marshal cd resp of
        Inl err \<Rightarrow> return (Some err)
      | Inr data \<Rightarrow> repo_MarkDone s key data (code_int codes_OK))"

definition cacheIdempotencyFailure ::
  "'w order_service \<Rightarrow> ('req, 'resp) codec \<Rightarrow> string \<Rightarrow> rpc_status \<Rightarrow> ('w, unit) prog" where
  "cacheIdempotencyFailure s cd key st = do {
     let code = (if Code st = codes_OK then codes_Internal else Code st);
     let payload = (case json_MarshalFailure cd (grpcCodeToInt32 code) (Message st) of
                      None \<Rightarrow> [] | Some p \<Rightarrow> p);
     _ \<leftarrow> repo_MarkFailed s key payload (code_int code);
     skip
   }"

definition withIdempotency ::
  "'w order_service \<Rightarrow> ('req, 'resp) codec \<Rightarrow> call_ctx \<Rightarrow> string \<Rightarrow> 'req
     \<Rightarrow> ('w, rpc_status + 'resp) prog \<Rightarrow> ('w, rpc_status + 'resp) prog" where
  "withIdempotency s cd ctx method req handler =
     (if \<not> has_idemRepo s then handler
      else case readIdempotencyKey ctx of
        Inl err \<Rightarrow> return (Inl err)
      | Inr idemKey \<Rightarrow>
          (case buildIdempotencyRequestHash cd method req of
             Inl _ \<Rightarrow> return (Inl (status_Error codes_Internal ''failed to initialize idempotency request''))
           | Inr reqHash \<Rightarrow> do {
               now \<leftarrow> svc_Now s;
               (rec, created) \<leftarrow> repo_CreateProcessing s idemKey reqHash (now + idempotencyTTL);
               (case created of
                  Some err \<Rightarrow> return (replayIdempotency cd err rec)
                | None \<Rightarrow> do {
                    res \<leftarrow> handler;
                    (case res of
                       Inl runErr \<Rightarrow> do {
                         cacheIdempotencyFailure s cd idemKey runErr;
                         return (Inl runErr)
                       }
                     | Inr resp \<Rightarrow> do {
                         _ \<leftarrow> cacheIdempotencySuccess s cd idemKey resp;
                         return (Inr resp)
                       })
                  })
             }))"

section \<open>Helpers of the handlers\<close>

definition loadOrder :: "'w order_service \<Rightarrow> string \<Rightarrow> ('w, rpc_status + Order) prog" where
  "loadOrder s orderID = do {
     loaded \<leftarrow> repo_Get s orderID;
     (case loaded of
        Inr order \<Rightarrow> return (Inr order)
      | Inl err \<Rightarrow>
          if errors_Is err ErrOrderNotFound
          then return (Inl (status_Error codes_NotFound (sentinel_message ErrOrderNotFound)))
          else return (Inl (status_Error codes_Internal ''failed to load order'')))
   }"

definition saveOrder :: "'w order_service \<Rightarrow> Order \<Rightarrow> string \<Rightarrow> ('w, rpc_status option) prog" where
  "saveOrder s order internalMsg = do {
     res \<leftarrow> repo_Save s order;
     (case res of
        None \<Rightarrow> return None
      | Some err \<Rightarrow>
          if errors_Is err ErrOrderNotFound
          then return (Some (status_Error codes_NotFound (sentinel_message ErrOrderNotFound)))
          else if errors_Is err ErrOrderVersionConflict
          then return (Some (status_Error codes_Aborted (sentinel_message ErrOrderVersionConflict)))
          else return (Some (status_Error codes_Internal internalMsg)))
   }"

definition appendTimelineEvent :: "'w order_service \<Rightarrow> string \<Rightarrow> string \<Rightarrow> string \<Rightarrow> ('w, unit) prog" where
  "appendTimelineEvent s orderID eventType reason =
     (case svc_timeline s of
        None \<Rightarrow> skip
      | Some (appendEvent, listEvents) \<Rightarrow> do {
          now \<leftarrow> svc_Now s;
          _ \<leftarrow> appendEvent \<lparr>tl_OrderID = orderID, Type = eventType, Reason = reason, Occurred = now\<rparr>;
          skip
        })"

definition appendStatusTimeline ::
  "'w order_service \<Rightarrow> string \<Rightarrow> OrderStatus \<Rightarrow> gotime \<Rightarrow> ('w, unit) prog" where
  "appendStatusTimeline s orderID st occurred0 =
     (case svc_timeline s of
        None \<Rightarrow> skip
      | Some (appendEvent, listEvents) \<Rightarrow> do {
          occurred \<leftarrow> (if IsZero occurred0 then svc_Now s else return occurred0);
          _ \<leftarrow> appendEvent \<lparr>tl_OrderID = orderID, Type = ''OrderStatusChanged'',
                             Reason = OrderStatus_string st, Occurred = occurred\<rparr>;
          skip
        })"

definition buildTimeline :: "'w order_service \<Rightarrow> string \<Rightarrow> ('w, pb_TimelineEvent list) prog" where
  "buildTimeline s orderID =
     (case svc_timeline s of
        None \<Rightarrow> return []
      | Some (appendEvent, listEvents) \<Rightarrow> do {
          res \<leftarrow> listEvents orderID;
          (case res of
             Inl _ \<Rightarrow> return []
           | Inr events \<Rightarrow> return (map (\<lambda>event. \<lparr>pb_Type = Type event, pb_Reason = Reason event,
                                              pb_UnixTime = Unix (Occurred event)\<rparr>) events))
        })"

definition runSagaAsync :: "'w order_service \<Rightarrow> saga_call \<Rightarrow> ('w, unit) prog" where
  "runSagaAsync s fn = do {
     sagaClosed \<leftarrow> saga_isClosed s;
     (if sagaClosed then skip else saga_go s fn)
   }"

definition Shutdown :: "'w order_service \<Rightarrow> ('w, error option) prog" where
  "Shutdown s = do { saga_close s; saga_wait s }"

section \<open>CreateOrder\<close>

definition item_error :: "int \<Rightarrow> string \<Rightarrow> rpc_status" where
  "item_error idx msg = status_Error codes_InvalidArgument (''item['' @ int_string idx @ '']'' @ msg)"

text \<open>The loop over the requested items.\<close>

fun create_items ::
  "'w order_service \<Rightarrow> string \<Rightarrow> gotime \<Rightarrow> int \<Rightarrow> pb_OrderItem option list \<Rightarrow> OrderItem list \<Rightarrow> int
     \<Rightarrow> ('w, rpc_status + OrderItem list \<times> int) prog" where
  "create_items s currency now idx [] items amountSum = return (Inr (items, amountSum))"
| "create_items s currency now idx (None # reqs) items amountSum =
     return (Inl (item_error idx '' is nil''))"
| "create_items s currency now idx (Some item # reqs) items amountSum =
     (case pb_Price item of
        None \<Rightarrow> return (Inl (item_error idx ''.price is required''))
      | Some price \<Rightarrow>
          if pb_MoneyCurrency price \<noteq> currency then return (Inl (item_error idx ''.price.currency mismatch''))
          else if pb_Qty item \<le> 0 then return (Inl (item_error idx ''.qty must be > 0''))
          else if pb_AmountMinor price < 0 then return (Inl (item_error idx ''.price.amount must be >= 0''))
          else do {
            newid \<leftarrow> svc_NewString s;
            create_items s currency now (idx + 1) reqs
              (items @ [\<lparr>item_ID = newid, SKU = pb_Sku item, Qty = pb_Qty item,
                         PriceMinor = pb_AmountMinor price, item_CreatedAt = now\<rparr>])
              (int64 (amountSum + int64 (pb_Qty item * pb_AmountMinor price)))
          })"

definition persist_order :: "'w order_service \<Rightarrow> Order \<Rightarrow> ('w, rpc_status + pb_Order) prog" where
  "persist_order s order = do {
     res \<leftarrow> repo_Create s order;
     (case res of
        Some err \<Rightarrow>
          if errors_Is err ErrOrderVersionConflict
          then return (Inl (status_Error codes_AlreadyExists (Error err)))
          else return (Inl (status_Error codes_Internal ''failed to persist order''))
      | None \<Rightarrow> do {
          appendStatusTimeline s (ID order) (Status order) (UpdatedAt order);
          return (Inr (toProtoOrder order))
        })
   }"

definition createOrderInternal ::
  "'w order_service \<Rightarrow> CreateOrderRequest option \<Rightarrow> ('w, rpc_status + pb_Order) prog" where
  "createOrderInternal s req0 =
     (case req0 of
        None \<Rightarrow> return (Inl (status_Error codes_InvalidArgument ''request is required''))
      | Some req \<Rightarrow>
          if req_CustomerId req = [] then
            return (Inl (status_Error codes_InvalidArgument ''customer_id is required''))
          else if req_Currency req = [] then
            return (Inl (status_Error codes_InvalidArgument ''currency is required''))
          else if req_Items req = [] then
            return (Inl (status_Error codes_InvalidArgument ''order must contain at least one item''))
          else do {
            now \<leftarrow> svc_Now s;
            checked \<leftarrow> create_items s (req_Currency req) now 0 (req_Items req) [] 0;
            (case checked of
               Inl st \<Rightarrow> return (Inl st)
             | Inr (items, amountSum) \<Rightarrow> do {
                 newid \<leftarrow> svc_NewString s;
                 let order = \<lparr>ID = newid, CustomerID = req_CustomerId req, Status = OrderStatusPending,
                              Currency = req_Currency req, AmountMinor = amountSum, Items = items,
                              Version = 0, CreatedAt = now, UpdatedAt = now\<rparr>;
                 (if Order_ValidateInvariants order \<noteq> [] then
                    return (Inl (status_Error codes_InvalidArgument
                                   (joinErrors (Order_ValidateInvariants order))))
                  else persist_order s order)
               })
          })"

definition CreateOrder ::
  "'w order_service \<Rightarrow> (CreateOrderRequest, pb_Order) codec \<Rightarrow> call_ctx \<Rightarrow> CreateOrderRequest option
     \<Rightarrow> ('w, rpc_status + pb_Order) prog" where
  "CreateOrder s cd ctx req0 =
     (case req0 of
        None \<Rightarrow> return (Inl (status_Error codes_InvalidArgument ''request is required''))
      | Some req \<Rightarrow> withIdempotency s cd ctx grpcMethodCreateOrder req (createOrderInternal s (Some req)))"

section \<open>PayOrder, CancelOrder and RefundOrder\<close>

definition order_id_required :: rpc_status where
  "order_id_required = status_Error codes_InvalidArgument ''order_id is required''"

definition payOrderInternal ::
  "'w order_service \<Rightarrow> PayOrderRequest option \<Rightarrow> ('w, rpc_status + OrderStatusResponse) prog" where
  "payOrderInternal s req0 =
     (case req0 of
        None \<Rightarrow> return (Inl order_id_required)
      | Some req \<Rightarrow>
          if pay_OrderId req = [] then return (Inl order_id_required)
          else do {
            loaded \<leftarrow> loadOrder s (pay_OrderId req);
            (case loaded of
               Inl st \<Rightarrow> return (Inl st)
             | Inr order \<Rightarrow>
                 if Status order \<noteq> OrderStatusPending then
                   return (Inl (status_Error codes_FailedPrecondition
                     (''order '' @ ID order @ '' status='' @ OrderStatus_string (Status order)
                        @ '', expected='' @ OrderStatus_string OrderStatusPending)))
                 else do {
                   (if has_saga s then runSagaAsync s (CallStart (ID order)) else skip);
                   return (Inr \<lparr>resp_OrderId = ID order, resp_Status = toProtoStatus (Status order)\<rparr>)
                 })
          })"

definition PayOrder ::
  "'w order_service \<Rightarrow> (PayOrderRequest, OrderStatusResponse) codec \<Rightarrow> call_ctx \<Rightarrow> PayOrderRequest option
     \<Rightarrow> ('w, rpc_status + OrderStatusResponse) prog" where
  "PayOrder s cd ctx req0 =
     (case req0 of
        None \<Rightarrow> return (Inl order_id_required)
      | Some req \<Rightarrow>
          if pay_OrderId req = [] then return (Inl order_id_required)
          else withIdempotency s cd ctx grpcMethodPayOrder req (payOrderInternal s (Some req)))"

text \<open>The reload at the end of \<open>CancelOrder\<close> and \<open>RefundOrder\<close>.\<close>

definition reload_status :: "'w order_service \<Rightarrow> string \<Rightarrow> ('w, rpc_status + OrderStatusResponse) prog" where
  "reload_status s orderID = do {
     updated \<leftarrow> loadOrder s orderID;
     (case updated of
        Inl st \<Rightarrow> return (Inl st)
      | Inr order \<Rightarrow> return (Inr \<lparr>resp_OrderId = ID order, resp_Status = toProtoStatus (Status order)\<rparr>))
   }"

text \<open>Without an orchestrator the handlers change the status themselves.\<close>

definition set_status ::
  "'w order_service \<Rightarrow> Order \<Rightarrow> OrderStatus \<Rightarrow> string \<Rightarrow> string \<Rightarrow> string \<Rightarrow> ('w, rpc_status option) prog" where
  "set_status s order st internalMsg eventType reason = do {
     now \<leftarrow> svc_Now s;
     let changed = order\<lparr>Status := st, UpdatedAt := now\<rparr>;
     res \<leftarrow> saveOrder s changed internalMsg;
     (case res of
        Some err \<Rightarrow> return (Some err)
      | None \<Rightarrow> do {
          appendStatusTimeline s (ID changed) st now;
          appendTimelineEvent s (ID changed) eventType reason;
          return None
        })
   }"

definition cancelOrderInternal ::
  "'w order_service \<Rightarrow> CancelOrderRequest option \<Rightarrow> ('w, rpc_status + OrderStatusResponse) prog" where
  "cancelOrderInternal s req0 =
     (case req0 of
        None \<Rightarrow> return (Inl order_id_required)
      | Some req \<Rightarrow>
          if cancel_OrderId req = [] then return (Inl order_id_required)
          else do {
            loaded \<leftarrow> loadOrder s (cancel_OrderId req);
            (case loaded of
               Inl st \<Rightarrow> return (Inl st)
             | Inr order \<Rightarrow> do {
                 err \<leftarrow> (if has_saga s then do {
                            runSagaAsync s (CallCancel (ID order) (cancel_Reason req)); return None }
                         else if Status order \<noteq> OrderStatusCanceled then
                           set_status s order OrderStatusCanceled ''failed to cancel order''
                             ''OrderCanceled'' (cancel_Reason req)
                         else return None);
                 (case err of Some st \<Rightarrow> return (Inl st) | None \<Rightarrow> reload_status s (ID order))
               })
          })"

definition CancelOrder ::
  "'w order_service \<Rightarrow> (CancelOrderRequest, OrderStatusResponse) codec \<Rightarrow> call_ctx \<Rightarrow> CancelOrderRequest option
     \<Rightarrow> ('w, rpc_status + OrderStatusResponse) prog" where
  "CancelOrder s cd ctx req0 =
     (case req0 of
        None \<Rightarrow> return (Inl order_id_required)
      | Some req \<Rightarrow>
          if cancel_OrderId req = [] then return (Inl order_id_required)
          else withIdempotency s cd ctx grpcMethodCancelOrder req (cancelOrderInternal s (Some req)))"

definition refund_request_amount :: "RefundOrderRequest \<Rightarrow> Order \<Rightarrow> rpc_status + int" where
  "refund_request_amount req order =
     (case refund_Amount req of
        None \<Rightarrow> Inr 0
      | Some amount \<Rightarrow>
          if pb_AmountMinor amount < 0 then
            Inl (status_Error codes_InvalidArgument ''amount.amount_minor must be >= 0'')
          else if pb_MoneyCurrency amount \<noteq> [] \<and> pb_MoneyCurrency amount \<noteq> Currency order then
            Inl (status_Error codes_InvalidArgument ''amount.currency must match order currency'')
          else Inr (pb_AmountMinor amount))"

definition refundOrderInternal ::
  "'w order_service \<Rightarrow> RefundOrderRequest option \<Rightarrow> ('w, rpc_status + OrderStatusResponse) prog" where
  "refundOrderInternal s req0 =
     (case req0 of
        None \<Rightarrow> return (Inl order_id_required)
      | Some req \<Rightarrow>
          if refund_OrderId req = [] then return (Inl order_id_required)
          else do {
            loaded \<leftarrow> loadOrder s (refund_OrderId req);
            (case loaded of
               Inl st \<Rightarrow> return (Inl st)
             | Inr order \<Rightarrow>
                 (case refund_request_amount req order of
                    Inl st \<Rightarrow> return (Inl st)
                  | Inr amountMinor \<Rightarrow>
                      if Status order \<noteq> OrderStatusPaid \<and> Status order \<noteq> OrderStatusConfirmed then
                        return (Inl (status_Error codes_FailedPrecondition ''order is not eligible for refund''))
                      else do {
                        err \<leftarrow> (if has_saga s then do {
                                   runSagaAsync s (CallRefund (ID order) amountMinor (refund_Reason req));
                                   return None }
                                else set_status s order OrderStatusRefunded ''failed to refund order''
                                       ''OrderRefunded'' (refund_Reason req));
                        (case err of Some st \<Rightarrow> return (Inl st) | None \<Rightarrow> reload_status s (ID order))
                      }))
          })"

definition RefundOrder ::
  "'w order_service \<Rightarrow> (RefundOrderRequest, OrderStatusResponse) codec \<Rightarrow> call_ctx \<Rightarrow> RefundOrderRequest option
     \<Rightarrow> ('w, rpc_status + OrderStatusResponse) prog" where
  "RefundOrder s cd ctx req0 =
     (case req0 of
        None \<Rightarrow> return (Inl order_id_required)
      | Some req \<Rightarrow>
          if refund_OrderId req = [] then return (Inl order_id_required)
          else withIdempotency s cd ctx grpcMethodRefundOrder req (refundOrderInternal s (Some req)))"

section \<open>GetOrder and ListOrders\<close>

definition GetOrder :: "'w order_service \<Rightarrow> string option \<Rightarrow> ('w, rpc_status + GetOrderResponse) prog" where
  "GetOrder s req0 =
     (case req0 of
        None \<Rightarrow> return (Inl order_id_required)
      | Some orderId \<Rightarrow>
          if orderId = [] then return (Inl order_id_required)
          else do {
            loaded \<leftarrow> loadOrder s orderId;
            (case loaded of
               Inl st \<Rightarrow> return (Inl st)
             | Inr order \<Rightarrow> do {
                 events \<leftarrow> buildTimeline s (ID order);
                 return (Inr \<lparr>resp_Order = toProtoOrder order, resp_Timeline = events\<rparr>)
               })
          })"

definition ListOrders ::
  "'w order_service \<Rightarrow> ListOrdersRequest option \<Rightarrow> ('w, rpc_status + pb_Order list) prog" where
  "ListOrders s req0 =
     (case req0 of
        None \<Rightarrow> return (Inl (status_Error codes_InvalidArgument ''customer_id is required''))
      | Some req \<Rightarrow>
          if list_CustomerId req = [] then
            return (Inl (status_Error codes_InvalidArgument ''customer_id is required''))
          else do {
            let limit = (if list_PageSize req \<le> 0 then defaultListOrdersLimit else list_PageSize req);
            res \<leftarrow> repo_ListByCustomer s (list_CustomerId req) limit;
            (case res of
               Inl _ \<Rightarrow> return (Inl (status_Error codes_Internal ''failed to list orders''))
             | Inr orders \<Rightarrow> return (Inr (map toProtoOrder orders)))
          })"

end
