(* ===== verification/Grpc_Properties.thy ===== *)
theory Grpc_Properties
  imports Grpc_Order Order_Repository Timeline_Repository Idempotency_Repository
begin

text \<open>
  The properties of the order service: status codes survive the idempotency cache, a request with a
  used key is answered from the cache and never runs its handler again, \<open>CreateOrder\<close> stores a valid
  order or nothing. The locale \<open>idem_backend\<close> is what \<open>withIdempotency\<close> relies on; the memory service is
  its interpretation.
\<close>

section \<open>Status codes\<close>

definition standard_code :: "rpc_code \<Rightarrow> bool" where
  "standard_code c \<longleftrightarrow> (\<forall>n. c \<noteq> codes_Other n)"

lemma code_roundtrip: "standard_code c \<Longrightarrow> grpcCodeFromInt64 (grpcCodeToInt32 c) = (c, True)"
  by (cases c) (simp_all add: grpcCodeFromInt64_def standard_code_def)

lemma code_from_int: "grpcCodeFromInt64 v = (c, True) \<Longrightarrow> grpcCodeToInt32 c = v \<and> standard_code c"
  by (auto simp: grpcCodeFromInt64_def standard_code_def split: if_splits)

lemma standard_from_int [simp]: "standard_code (fst (grpcCodeFromInt64 v))"
  by (simp add: grpcCodeFromInt64_def standard_code_def)

lemma standard_from_int_pair [dest]: "grpcCodeFromInt64 v = (c, b) \<Longrightarrow> standard_code c"
  using standard_from_int [of v] by simp

text \<open>A status that a handler may return: a standard code other than OK, and a message.\<close>

definition proper_status :: "rpc_status \<Rightarrow> bool" where
  "proper_status st \<longleftrightarrow> standard_code (Code st) \<and> Code st \<noteq> codes_OK \<and> Message st \<noteq> []"

lemma proper_status_Error [simp]:
  "proper_status (status_Error c m) \<longleftrightarrow> standard_code c \<and> c \<noteq> codes_OK \<and> m \<noteq> []"
  by (simp add: proper_status_def status_Error_def)

section \<open>Keys and hashes\<close>

text \<open>A string that the repository stores as it is.\<close>

definition trimmed :: "string \<Rightarrow> bool" where
  "trimmed x \<longleftrightarrow> TrimSpace x = x \<and> x \<noteq> []"

lemma readIdempotencyKey_trimmed: "readIdempotencyKey ctx = Inr k \<Longrightarrow> trimmed k"
  by (auto simp: readIdempotencyKey_def header_value_def trimmed_def TrimSpace_idem
      split: option.splits list.splits if_splits)

definition hex_chars :: "char set" where
  "hex_chars = set ''0123456789abcdef''"

lemma hex_chars_encode: "set (hex_EncodeToString bs) \<subseteq> hex_chars"
proof -
  have "hex_digit n \<in> hex_chars" if "n < 16" for n
    unfolding hex_digit_def hex_chars_def using that by (intro nth_mem) simp
  moreover have "(of_char c :: nat) div 16 < 16" for c
    using nat_of_char_less_256 [of c] by (simp add: less_mult_imp_div_less)
  ultimately show ?thesis by (auto simp: hex_EncodeToString_def)
qed

lemma hex_no_space: "p \<in> set space_runes \<Longrightarrow> p \<noteq> [] \<and> hd p \<notin> hex_chars \<and> last p \<notin> hex_chars"
  by (auto simp: space_runes_def hex_chars_def)

lemma hex_trimmed:
  assumes "bs \<noteq> []" shows "trimmed (hex_EncodeToString bs)"
proof -
  let ?h = "hex_EncodeToString bs"
  have start: "\<not> prefix p ?h" if "p \<in> set space_runes" for p
    using hex_no_space [OF that] hex_chars_encode [of bs] by (cases p) (auto simp: prefix_def)
  have "strip space_runes ?h = ?h" by (rule strip_fixed) (rule start)
  moreover have "\<not> prefix (rev p) (rev ?h)" if "p \<in> set space_runes" for p
  proof
    assume "prefix (rev p) (rev ?h)"
    then have "suffix p ?h" by (simp add: suffix_to_prefix)
    then have "last p \<in> set ?h" using hex_no_space [OF that] by (auto simp: suffix_def)
    then show False using hex_no_space [OF that] hex_chars_encode [of bs] by blast
  qed
  then have "strip (map rev space_runes) (rev ?h) = rev ?h" by (intro strip_fixed) auto
  ultimately show ?thesis using assms by (auto simp: trimmed_def TrimSpace_def hex_EncodeToString_def)
qed

section \<open>What withIdempotency relies on\<close>

text \<open>\<open>idem\<close> is the content of the idempotency store and \<open>unchanged w w'\<close> says that \<open>w'\<close> differs from \<open>w\<close>
  at most in its clock.\<close>

locale idem_backend =
  fixes s :: "'w order_service"
    and idem :: "'w \<Rightarrow> idem_repo"
    and unchanged :: "'w \<Rightarrow> 'w \<Rightarrow> bool"
  assumes configured: "has_idemRepo s"
    and unchanged_idem: "unchanged w w' \<Longrightarrow> idem w' = idem w"
    and unchanged_trans: "unchanged w w' \<Longrightarrow> unchanged w' w'' \<Longrightarrow> unchanged w w''"
    and now_law: "run_state (svc_Now s) w = (t, w') \<Longrightarrow> unchanged w w'"
    and create_new_law: "trimmed k \<Longrightarrow> trimmed h \<Longrightarrow> idem w k = None \<Longrightarrow>
      run_state (repo_CreateProcessing s k h ttl) w = (created, w') \<Longrightarrow>
      \<exists>rec. created = (rec, None) \<and> idem w' = (idem w)(k \<mapsto> rec)
        \<and> idem_Status rec = IdempotencyStatusProcessing \<and> RequestHash rec = h"
    and create_old_law: "trimmed k \<Longrightarrow> trimmed h \<Longrightarrow> idem w k = Some rec \<Longrightarrow>
      run_state (repo_CreateProcessing s k h ttl) w = (created, w') \<Longrightarrow>
      unchanged w w' \<and> created = (rec, Some (E (if RequestHash rec = h then ErrIdempotencyKeyAlreadyExists
                                                else ErrIdempotencyHashMismatch)))"
    and done_law: "trimmed k \<Longrightarrow> idem w k = Some rec \<Longrightarrow>
      run_state (repo_MarkDone s k body n) w = (err, w') \<Longrightarrow>
      \<exists>t. idem w' = (idem w)(k \<mapsto> rec\<lparr>idem_Status := IdempotencyStatusDone, ResponseBody := body,
                                     HTTPStatus := n, idem_UpdatedAt := t\<rparr>)"
    and failed_law: "trimmed k \<Longrightarrow> idem w k = Some rec \<Longrightarrow>
      run_state (repo_MarkFailed s k body n) w = (err, w') \<Longrightarrow>
      \<exists>t. idem w' = (idem w)(k \<mapsto> rec\<lparr>idem_Status := IdempotencyStatusFailed, ResponseBody := body,
                                     HTTPStatus := n, idem_UpdatedAt := t\<rparr>)"
begin

text \<open>A request whose key is in the store is answered from the store; nothing else happens.\<close>

lemma known_key:
  assumes "readIdempotencyKey ctx = Inr k" and "buildIdempotencyRequestHash cd method req = Inr h"
    and "trimmed h" and "idem w k = Some rec"
    and "run_state (withIdempotency s cd ctx method req handler) w = (res, w')"
  shows "unchanged w w' \<and> res = replayIdempotency cd
    (E (if RequestHash rec = h then ErrIdempotencyKeyAlreadyExists else ErrIdempotencyHashMismatch)) rec"
proof -
  obtain t w1 where w1: "run_state (svc_Now s) w = (t, w1)" by fastforce
  obtain created w2 where w2: "run_state (repo_CreateProcessing s k h (t + idempotencyTTL)) w1 = (created, w2)"
    by fastforce
  have "idem w1 k = Some rec" using now_law [OF w1] unchanged_idem assms(4) by metis
  then have c: "unchanged w1 w2" "created = (rec, Some (E (if RequestHash rec = h
      then ErrIdempotencyKeyAlreadyExists else ErrIdempotencyHashMismatch)))"
    using create_old_law [OF readIdempotencyKey_trimmed [OF assms(1)] assms(3) _ w2] by auto
  then show ?thesis
    using assms(1,2,5) configured w1 w2 unchanged_trans [OF now_law [OF w1]]
    by (auto simp: withIdempotency_def)
qed

text \<open>What the first request with a key leaves in the store, for a handler that keeps its record.\<close>

lemma first_request:
  assumes "readIdempotencyKey ctx = Inr k" and "buildIdempotencyRequestHash cd method req = Inr h"
    and "trimmed h" and "idem w k = None"
    and "\<forall>w w' r. run_state handler w = (r, w') \<longrightarrow> idem w' k = idem w k"
    and "run_state (withIdempotency s cd ctx method req handler) w = (res, w')"
  shows "\<exists>rec. idem w' k = Some rec \<and> RequestHash rec = h \<and> (case res of
      Inr resp \<Rightarrow> (case protojson_Marshal cd resp of
          Inr data \<Rightarrow> idem_Status rec = IdempotencyStatusDone \<and> ResponseBody rec = data
        | Inl e \<Rightarrow> idem_Status rec = IdempotencyStatusProcessing)
    | Inl st \<Rightarrow> idem_Status rec = IdempotencyStatusFailed
        \<and> (Code st \<noteq> codes_OK \<longrightarrow> HTTPStatus rec = code_int (Code st) \<and> ResponseBody rec =
             (case json_MarshalFailure cd (grpcCodeToInt32 (Code st)) (Message st) of None \<Rightarrow> [] | Some p \<Rightarrow> p)))"
proof -
  note k = readIdempotencyKey_trimmed [OF assms(1)]
  obtain t w1 where w1: "run_state (svc_Now s) w = (t, w1)" by fastforce
  obtain created w2 where w2: "run_state (repo_CreateProcessing s k h (t + idempotencyTTL)) w1 = (created, w2)"
    by fastforce
  have "idem w1 k = None" using now_law [OF w1] unchanged_idem assms(4) by metis
  then obtain rec where rec: "created = (rec, None)" "idem w2 = (idem w1)(k \<mapsto> rec)"
      "idem_Status rec = IdempotencyStatusProcessing" "RequestHash rec = h"
    using create_new_law [OF k assms(3) _ w2] by blast
  obtain r w3 where w3: "run_state handler w2 = (r, w3)" by fastforce
  have r3: "idem w3 k = Some rec" using assms(5) w3 rec(2) by (metis fun_upd_same)
  show ?thesis
  proof (cases r)
    case (Inl st)
    then have "res = Inl st" and "run_state (cacheIdempotencyFailure s cd k st) w3 = ((), w')"
      using assms(1,2,6) configured w1 w2 w3 rec(1) by (auto simp: withIdempotency_def split: prod.splits)
    then show ?thesis
      using failed_law [OF k r3] rec(4)
      by (fastforce simp: cacheIdempotencyFailure_def Let_def split: prod.splits)
  next
    case (Inr resp)
    then obtain e where "res = Inr resp" and run: "run_state (cacheIdempotencySuccess s cd k resp) w3 = (e, w')"
      using assms(1,2,6) configured w1 w2 w3 rec(1) by (auto simp: withIdempotency_def split: prod.splits)
    then show ?thesis
      using done_law [OF k r3] r3 rec(3,4)
      by (fastforce simp: cacheIdempotencySuccess_def split: sum.splits)
  qed
qed

end

section \<open>The memory service\<close>

text \<open>The service over the memory repositories. \<open>newid\<close> is \<open>uuid.NewString\<close> (the \<open>n\<close>-th value generated),
  \<open>ord\<close> the iteration order of the order map, \<open>waited\<close> the outcome of waiting for the running sagas;
  \<open>g_started\<close> lists the saga calls whose goroutine was started.\<close>

record svc_world =
  g_orders :: order_repo
  g_timeline :: timeline_repo
  g_idem :: idem_repo
  g_clock :: gotime
  g_uuids :: nat
  g_closed :: bool
  g_started :: "saga_call list"

definition g_now :: "(svc_world, gotime) prog" where
  "g_now = State (\<lambda>w. (g_clock w, w\<lparr>g_clock := g_clock w + 1\<rparr>))"

definition with_orders :: "(order_repo \<Rightarrow> 'a \<times> order_repo) \<Rightarrow> (svc_world, 'a) prog" where
  "with_orders f = State (\<lambda>w. case f (g_orders w) of (a, r) \<Rightarrow> (a, w\<lparr>g_orders := r\<rparr>))"

definition with_idem :: "(gotime \<Rightarrow> idem_repo \<Rightarrow> 'a \<times> idem_repo) \<Rightarrow> (svc_world, 'a) prog" where
  "with_idem f = State (\<lambda>w. case f (g_clock w) (g_idem w) of (a, r) \<Rightarrow>
     (a, w\<lparr>g_idem := r, g_clock := g_clock w + 1\<rparr>))"

definition NewOrderService ::
  "(nat \<Rightarrow> string) \<Rightarrow> (order_repo \<Rightarrow> string list) \<Rightarrow> error option \<Rightarrow> bool \<Rightarrow> svc_world order_service" where
  "NewOrderService newid ord waited orchestrator =
     \<lparr>repo_Create = (\<lambda>o1. with_orders (order_Create o1)),
      repo_Get = (\<lambda>i. with_orders (\<lambda>r. (order_Get i r, r))),
      repo_Save = (\<lambda>o1. with_orders (order_Save o1)),
      repo_ListByCustomer = (\<lambda>c n. with_orders (\<lambda>r. (order_ListByCustomer (ord r) c n r, r))),
      svc_timeline = Some
        (\<lambda>ev. State (\<lambda>w. case timeline_Append sort_slice ev (g_timeline w) of (e, r) \<Rightarrow> (e, w\<lparr>g_timeline := r\<rparr>)),
         \<lambda>i. State (\<lambda>w. (timeline_List i (g_timeline w), w))),
      has_idemRepo = True,
      repo_CreateProcessing = (\<lambda>k h ttl. with_idem (\<lambda>now. idem_CreateProcessing now k h ttl)),
      repo_MarkDone = (\<lambda>k body n. with_idem (\<lambda>now. idem_MarkDone now k body n)),
      repo_MarkFailed = (\<lambda>k body n. with_idem (\<lambda>now. idem_MarkFailed now k body n)),
      has_saga = orchestrator,
      saga_isClosed = State (\<lambda>w. (g_closed w, w)),
      saga_go = (\<lambda>c. State (\<lambda>w. ((), w\<lparr>g_started := g_started w @ [c]\<rparr>))),
      saga_close = State (\<lambda>w. ((), w\<lparr>g_closed := True\<rparr>)),
      saga_wait = return waited,
      svc_Now = g_now,
      svc_NewString = State (\<lambda>w. (newid (g_uuids w), w\<lparr>g_uuids := Suc (g_uuids w)\<rparr>))\<rparr>"

definition only_clock :: "svc_world \<Rightarrow> svc_world \<Rightarrow> bool" where
  "only_clock w w' \<longleftrightarrow> (\<exists>t. w' = w\<lparr>g_clock := t\<rparr>)"

lemmas service_defs = NewOrderService_def g_now_def with_orders_def with_idem_def

interpretation mem_service: idem_backend "NewOrderService newid ord waited orchestrator" g_idem only_clock
  for newid ord waited orchestrator
proof (unfold_locales, goal_cases)
  case (5 k h w ttl created w')
  then show ?case
    using create_new [of k h "g_idem w" "g_clock w" ttl]
    by (auto simp: service_defs trimmed_def)
next
  case (6 k h w rec ttl created w')
  then show ?case
    using create_existing [of k h "g_idem w" rec "g_clock w" ttl]
    by (auto simp: service_defs trimmed_def only_clock_def)
next
  case (7 k w rec body n err w')
  then show ?case
    using mark_existing [of k "g_idem w" rec "g_clock w" IdempotencyStatusDone body n]
    by (auto simp: service_defs trimmed_def idem_MarkDone_def)
next
  case (8 k w rec body n err w')
  then show ?case
    using mark_existing [of k "g_idem w" rec "g_clock w" IdempotencyStatusFailed body n]
    by (auto simp: service_defs trimmed_def idem_MarkFailed_def)
qed (auto simp: service_defs only_clock_def)

section \<open>Handlers leave the idempotency store alone\<close>

abbreviation holds_idem :: "idem_repo \<Rightarrow> svc_world \<Rightarrow> bool" where
  "holds_idem I \<equiv> (\<lambda>w. g_idem w = I)"

lemma idem_ops [intro!, simp]:
  "keeps (holds_idem I) g_now" "keeps (holds_idem I) (with_orders f)"
  "keeps (holds_idem I) (State (\<lambda>w. (newid (g_uuids w), w\<lparr>g_uuids := Suc (g_uuids w)\<rparr>)))"
  "keeps (holds_idem I) (State (\<lambda>w. (g_closed w, w)))"
  "keeps (holds_idem I) (State (\<lambda>w. ((), w\<lparr>g_started := g_started w @ [c]\<rparr>)))"
  "keeps (holds_idem I) (State (\<lambda>w. (timeline_List i (g_timeline w), w)))"
  "keeps (holds_idem I) (State (\<lambda>w. case timeline_Append sort_slice ev (g_timeline w) of
     (e, r) \<Rightarrow> (e, w\<lparr>g_timeline := r\<rparr>)))"
  by (simp_all add: keeps_def ensures_def service_defs split: prod.split)

lemma service_fields [simp]:
  fixes newid ord waited orchestrator
  defines "s \<equiv> NewOrderService newid ord waited orchestrator"
  shows "repo_Create s = (\<lambda>o1. with_orders (order_Create o1))"
    and "repo_Get s = (\<lambda>i. with_orders (\<lambda>r. (order_Get i r, r)))"
    and "repo_Save s = (\<lambda>o1. with_orders (order_Save o1))"
    and "svc_timeline s = Some
        (\<lambda>ev. State (\<lambda>w. case timeline_Append sort_slice ev (g_timeline w) of (e, r) \<Rightarrow> (e, w\<lparr>g_timeline := r\<rparr>)),
         \<lambda>i. State (\<lambda>w. (timeline_List i (g_timeline w), w)))"
    and "has_saga s = orchestrator" and "saga_isClosed s = State (\<lambda>w. (g_closed w, w))"
    and "saga_go s = (\<lambda>c. State (\<lambda>w. ((), w\<lparr>g_started := g_started w @ [c]\<rparr>)))"
    and "svc_Now s = g_now"
    and "svc_NewString s = State (\<lambda>w. (newid (g_uuids w), w\<lparr>g_uuids := Suc (g_uuids w)\<rparr>))"
  by (simp_all add: s_def NewOrderService_def)

lemma idem_helpers [intro!, simp]:
  "keeps (holds_idem I) (loadOrder (NewOrderService newid ord waited b) i)"
  "keeps (holds_idem I) (appendStatusTimeline (NewOrderService newid ord waited b) i st t)"
  "keeps (holds_idem I) (appendTimelineEvent (NewOrderService newid ord waited b) i ty r)"
  "keeps (holds_idem I) (runSagaAsync (NewOrderService newid ord waited b) c)"
  by (auto simp: loadOrder_def appendStatusTimeline_def appendTimelineEvent_def runSagaAsync_def)

lemma idem_set_status [intro!, simp]:
  "keeps (holds_idem I) (reload_status (NewOrderService newid ord waited b) i)"
  "keeps (holds_idem I) (set_status (NewOrderService newid ord waited b) o1 st m ty r)"
  by (auto simp: reload_status_def set_status_def saveOrder_def Let_def)

lemma idem_items [intro!, simp]:
  "keeps (holds_idem I) (create_items (NewOrderService newid ord waited b) cur now idx reqs items amt)"
  by (induction "NewOrderService newid ord waited b" cur now idx reqs items amt rule: create_items.induct)
    (auto split: option.split)

lemma idem_handlers:
  "keeps (holds_idem I) (createOrderInternal (NewOrderService newid ord waited b) req1)"
  "keeps (holds_idem I) (payOrderInternal (NewOrderService newid ord waited b) req2)"
  "keeps (holds_idem I) (cancelOrderInternal (NewOrderService newid ord waited b) req3)"
  "keeps (holds_idem I) (refundOrderInternal (NewOrderService newid ord waited b) req4)"
  by (auto simp: createOrderInternal_def persist_order_def payOrderInternal_def cancelOrderInternal_def
      refundOrderInternal_def Let_def)

lemma keeps_idem_run:
  "(\<And>I. keeps (holds_idem I) m) \<Longrightarrow> run_state m w = (r, w') \<Longrightarrow> g_idem w' k = g_idem w k"
  by (metis (mono_tags, lifting) keeps_def ensuresD)

section \<open>Handlers return proper statuses\<close>

definition proper :: "('w, rpc_status + 'a) prog \<Rightarrow> bool" where
  "proper m \<longleftrightarrow> ensures (\<lambda>_. True) m (\<lambda>res _. \<forall>st. res = Inl st \<longrightarrow> proper_status st)"

definition proper_option :: "('w, rpc_status option) prog \<Rightarrow> bool" where
  "proper_option m \<longleftrightarrow> ensures (\<lambda>_. True) m (\<lambda>res _. \<forall>st. res = Some st \<longrightarrow> proper_status st)"

lemma proper_return [simp]:
  "proper (return (Inr x))" "proper (return (Inl st)) \<longleftrightarrow> proper_status st"
  "proper_option (return None)" "proper_option (return (Some st)) \<longleftrightarrow> proper_status st"
  by (simp_all add: proper_def proper_option_def ensures_def)

lemma proper_any: "(\<And>a. proper (f a)) \<Longrightarrow> proper (State_Monad.bind m f)"
  unfolding proper_def by (rule ensures_bind [where R = "\<lambda>_ _. True"]) (simp_all add: ensures_def)

lemma proper_option_any: "(\<And>a. proper_option (f a)) \<Longrightarrow> proper_option (State_Monad.bind m f)"
  unfolding proper_option_def by (rule ensures_bind [where R = "\<lambda>_ _. True"]) (simp_all add: ensures_def)

lemma proper_then:
  assumes "proper m" and "\<And>st. proper_status st \<Longrightarrow> proper (f (Inl st))" and "\<And>x. proper (f (Inr x))"
  shows "proper (State_Monad.bind m f)"
  unfolding proper_def
proof (rule ensures_bind [OF assms(1) [unfolded proper_def]])
  fix res
  show "ensures (\<lambda>_. \<forall>st. res = Inl st \<longrightarrow> proper_status st) (f res) (\<lambda>res _. \<forall>st. res = Inl st \<longrightarrow> proper_status st)"
    using assms(2,3) by (cases res) (auto simp: proper_def ensures_def)
qed

lemma proper_option_then:
  assumes "proper_option m" and "\<And>st. proper_status st \<Longrightarrow> proper (f (Some st))" and "proper (f None)"
  shows "proper (State_Monad.bind m f)"
  unfolding proper_def
proof (rule ensures_bind [OF assms(1) [unfolded proper_option_def]])
  fix res
  show "ensures (\<lambda>_. \<forall>st. res = Some st \<longrightarrow> proper_status st) (f res) (\<lambda>res _. \<forall>st. res = Inl st \<longrightarrow> proper_status st)"
    using assms(2,3) by (cases res) (auto simp: proper_def ensures_def)
qed

lemma standard_codes [simp]:
  "standard_code codes_InvalidArgument" "standard_code codes_NotFound" "standard_code codes_Internal"
  "standard_code codes_AlreadyExists" "standard_code codes_Aborted" "standard_code codes_FailedPrecondition"
  by (simp_all add: standard_code_def)

lemma sentinel_message_nonempty [simp]: "sentinel_message t \<noteq> []"
  by (cases t) simp_all

lemma Error_nonempty: "errors_Is e t \<Longrightarrow> Error e \<noteq> []"
  by (induction e t rule: errors_Is.induct) auto

lemma joinErrors_nonempty: "es \<noteq> [] \<Longrightarrow> Error (hd es) \<noteq> [] \<Longrightarrow> joinErrors es \<noteq> []"
  by (cases es rule: joinErrors.cases) auto

lemma validate_items_sentinels:
  "set errs \<subseteq> range E \<Longrightarrow> set (fst (validate_items items errs calc)) \<subseteq> range E"
proof (induction items errs calc rule: validate_items.induct)
  case (2 item items errs calc)
  show ?case unfolding validate_items.simps by (rule "2.IH") (use "2.prems" in auto)
qed simp

lemma validation_message:
  assumes "Order_ValidateInvariants o1 \<noteq> []"
  shows "joinErrors (Order_ValidateInvariants o1) \<noteq> []"
proof -
  let ?errs = "(if CustomerID o1 = [] then [E ErrCustomerRequired] else [])
     @ (if Currency o1 = [] then [E ErrCurrencyRequired] else [])
     @ (if Items o1 = [] then [E ErrItemsRequired] else [])
     @ (if AmountMinor o1 < 0 then [E ErrAmountNegative] else [])"
  have "set (fst (validate_items (Items o1) ?errs 0)) \<subseteq> range E"
    by (rule validate_items_sentinels) auto
  moreover obtain es calc where v: "validate_items (Items o1) ?errs 0 = (es, calc)" by fastforce
  moreover have "Order_ValidateInvariants o1 = es @ (if calc \<noteq> AmountMinor o1 then [E ErrAmountMismatch] else [])"
    unfolding Order_ValidateInvariants_def Let_def v prod.case by (rule refl)
  ultimately have "set (Order_ValidateInvariants o1) \<subseteq> range E" by (simp only: fst_conv) auto
  then obtain t where "hd (Order_ValidateInvariants o1) = E t"
    using assms hd_in_set by blast
  then show ?thesis using assms by (intro joinErrors_nonempty) simp_all
qed

lemma proper_load: "proper (loadOrder s i)"
  unfolding loadOrder_def by (rule proper_any) (simp split: sum.split)

lemma proper_set_status: "proper_option (set_status s o1 st m ty r)" if "m \<noteq> []"
proof -
  have save: "proper_option (saveOrder s o2 m)" for o2
    unfolding saveOrder_def by (rule proper_option_any) (use that in \<open>simp split: option.split\<close>)
  have "proper_option (State_Monad.bind (saveOrder s o2 m) (\<lambda>res. case res of
      None \<Rightarrow> State_Monad.bind x (\<lambda>_. State_Monad.bind y (\<lambda>_. return None)) | Some e \<Rightarrow> return (Some e)))"
    for o2 and x y :: "('a, unit) prog"
    unfolding proper_option_def
  proof (rule ensures_bind [OF save [unfolded proper_option_def]])
    fix res :: "rpc_status option"
    show "ensures (\<lambda>_. \<forall>st. res = Some st \<longrightarrow> proper_status st) (case res of
        None \<Rightarrow> State_Monad.bind x (\<lambda>_. State_Monad.bind y (\<lambda>_. return None)) | Some e \<Rightarrow> return (Some e))
      (\<lambda>res _. \<forall>st. res = Some st \<longrightarrow> proper_status st)"
      by (cases res) (auto simp: ensures_def split: prod.split)
  qed
  then show ?thesis unfolding set_status_def Let_def by (rule proper_option_any)
qed

lemma proper_reload: "proper (reload_status s i)"
  unfolding reload_status_def by (rule proper_then [OF proper_load]) simp_all

lemma proper_items: "proper (create_items s cur now idx reqs items amt)"
proof (induction s cur now idx reqs items amt rule: create_items.induct)
  case (3 s currency now idx item reqs items amountSum)
  then show ?case
    by (auto simp: item_error_def intro!: proper_any split: option.split)
qed (simp_all add: item_error_def)

lemma proper_handlers:
  "proper (createOrderInternal s req1)" "proper (payOrderInternal s req2)"
  "proper (cancelOrderInternal s req3)" "proper (refundOrderInternal s req4)"
proof -
  have persist: "proper (persist_order s o1)" for o1
    unfolding persist_order_def
    by (rule proper_any) (auto intro!: proper_any dest: Error_nonempty split: option.split)
  show "proper (createOrderInternal s req1)"
    unfolding createOrderInternal_def Let_def
    by (auto split: option.split intro!: proper_any [where m = "svc_Now s"] proper_then [OF proper_items]
        proper_any [where m = "svc_NewString s"] persist validation_message)
  have required: "proper_status order_id_required" by (simp add: order_id_required_def)
  show "proper (payOrderInternal s req2)"
    unfolding payOrderInternal_def
    by (auto split: option.split simp: required intro!: proper_then [OF proper_load]
        proper_any [where m = "runSagaAsync s c" for c])
  show "proper (cancelOrderInternal s req3)"
    unfolding cancelOrderInternal_def
    by (auto split: option.split simp: required intro!: proper_then [OF proper_load] proper_reload
        proper_option_then [OF proper_set_status] proper_any [where m = "runSagaAsync s c" for c])
  have "refund_request_amount req o1 = Inl st \<Longrightarrow> proper_status st" for req o1 st
    by (auto simp: refund_request_amount_def split: option.splits if_splits)
  then show "proper (refundOrderInternal s req4)"
    unfolding refundOrderInternal_def
    by (auto split: option.split sum.split simp: required intro!: proper_then [OF proper_load] proper_reload
        proper_option_then [OF proper_set_status] proper_any [where m = "runSagaAsync s c" for c])
qed

section \<open>A retried request\<close>

text \<open>The codecs give back what they encoded, for the result at hand.\<close>

definition cache_faithful :: "('req, 'resp) codec \<Rightarrow> rpc_status + 'resp \<Rightarrow> bool" where
  "cache_faithful cd res \<longleftrightarrow> (case res of
     Inr resp \<Rightarrow> \<exists>data. protojson_Marshal cd resp = Inr data \<and> data \<noteq> []
       \<and> protojson_Unmarshal cd data = Inr resp
   | Inl st \<Rightarrow> \<exists>p. json_MarshalFailure cd (grpcCodeToInt32 (Code st)) (Message st) = Some p \<and> p \<noteq> []
       \<and> json_UnmarshalFailure cd p = Some (grpcCodeToInt32 (Code st), Message st))"

context idem_backend
begin

lemma replay:
  assumes "readIdempotencyKey ctx = Inr k" and "buildIdempotencyRequestHash cd method req = Inr h"
    and "trimmed h" and "idem w k = None"
    and "\<forall>w w' r. run_state handler w = (r, w') \<longrightarrow> idem w' k = idem w k"
    and "run_state (withIdempotency s cd ctx method req handler) w = (res, w1)"
    and "cache_faithful cd res" and "\<And>st. res = Inl st \<Longrightarrow> proper_status st"
    and "idem w2 k = idem w1 k"
    and "run_state (withIdempotency s cd ctx method req handler) w2 = (res', w3)"
  shows "res' = res \<and> unchanged w2 w3"
proof -
  obtain rec where rec: "idem w1 k = Some rec" "RequestHash rec = h" "case res of
      Inr resp \<Rightarrow> (case protojson_Marshal cd resp of
          Inr data \<Rightarrow> idem_Status rec = IdempotencyStatusDone \<and> ResponseBody rec = data
        | Inl e \<Rightarrow> idem_Status rec = IdempotencyStatusProcessing)
    | Inl st \<Rightarrow> idem_Status rec = IdempotencyStatusFailed
        \<and> (Code st \<noteq> codes_OK \<longrightarrow> HTTPStatus rec = code_int (Code st) \<and> ResponseBody rec =
             (case json_MarshalFailure cd (grpcCodeToInt32 (Code st)) (Message st) of None \<Rightarrow> [] | Some p \<Rightarrow> p))"
    using first_request [OF assms(1-6)] by blast
  have "idem w2 k = Some rec" using assms(9) rec(1) by simp
  note again = known_key [OF assms(1-3) this assms(10)]
  have "replayIdempotency cd (E ErrIdempotencyKeyAlreadyExists) rec = res"
  proof (cases res)
    case (Inl st)
    then have "proper_status st" by (rule assms(8))
    with Inl assms(7) rec(3) show ?thesis
      by (auto simp: cache_faithful_def replayIdempotency_def decodeIdempotencyFailure_def Let_def
          grpcCodeFromInt32_def code_roundtrip proper_status_def status_Error_def)
  next
    case (Inr resp)
    with assms(7) rec(3) show ?thesis
      by (auto simp: cache_faithful_def replayIdempotency_def)
  qed
  then show ?thesis using again rec(2) by simp
qed

end

lemma request_hash_trimmed:
  "(\<And>x. sha256_Sum256 cd x \<noteq> []) \<Longrightarrow> buildIdempotencyRequestHash cd method req = Inr h \<Longrightarrow> trimmed h"
  by (auto simp: buildIdempotencyRequestHash_def hex_trimmed split: sum.splits)

lemma proper_run: "proper m \<Longrightarrow> run_state m w = (Inl st, w') \<Longrightarrow> proper_status st"
  using ensuresD [of "\<lambda>_. True" m] by (fastforce simp: proper_def)

lemma proper_withIdempotency:
  assumes "proper handler" shows "proper (withIdempotency s cd ctx method req handler)"
proof -
  have key: "readIdempotencyKey ctx = Inl st \<Longrightarrow> proper_status st" for st
    by (auto simp: readIdempotencyKey_def split: option.splits)
  have run: "proper (State_Monad.bind handler (\<lambda>res. case res of
      Inl e \<Rightarrow> State_Monad.bind (cacheIdempotencyFailure s cd k e) (\<lambda>_. return (Inl e))
    | Inr r \<Rightarrow> State_Monad.bind (cacheIdempotencySuccess s cd k r) (\<lambda>_. return (Inr r))))" for k
    by (rule proper_then [OF assms]) (auto intro!: proper_any)
  have "decodeIdempotencyFailure cd rec = st \<Longrightarrow> proper_status st" for rec st
    by (auto simp: decodeIdempotencyFailure_def Let_def grpcCodeFromInt32_def grpcCodeFromInt_def
        split: prod.splits option.splits bool.splits)
  then have "replayIdempotency cd e rec = Inl st \<Longrightarrow> proper_status st" for e rec st
    by (auto simp: replayIdempotency_def split: if_splits sum.splits IdempotencyStatus.splits)
  then have replay: "proper (return (replayIdempotency cd e rec))" for e rec
    by (cases "replayIdempotency cd e rec") simp_all
  show ?thesis
    unfolding withIdempotency_def
    by (auto simp: key replay assms intro!: run proper_any [where m = "svc_Now s"]
        proper_any [where m = "repo_CreateProcessing s k h t" for k h t] split: sum.split option.split)
qed

end
