(* ===== verification/Order_Service_Properties.thy ===== *)
theory Order_Service_Properties
  imports Grpc_Properties
begin

text \<open>
  What a client of the order service can rely on, over the memory repositories: \<open>CreateOrder\<close> equals its
  specification on every request, an order that was created is read back, a retried request is
  answered as the first time and runs nothing again, a key cannot be reused for another request. Two
  theorems at the end are findings: the amount of an order wraps around, and after \<open>Shutdown\<close> a payment
  is acknowledged that never starts.
\<close>

section \<open>The specification of CreateOrder\<close>

definition acceptable_item :: "string \<Rightarrow> pb_OrderItem option \<Rightarrow> bool" where
  "acceptable_item currency i \<longleftrightarrow>
     (case i of None \<Rightarrow> False | Some item \<Rightarrow>
        (case pb_Price item of None \<Rightarrow> False | Some price \<Rightarrow>
           pb_MoneyCurrency price = currency \<and> 0 < pb_Qty item \<and> 0 \<le> pb_AmountMinor price))"

fun item_cost :: "pb_OrderItem option \<Rightarrow> int" where
  "item_cost None = 0"
| "item_cost (Some item) = (case pb_Price item of None \<Rightarrow> 0 | Some price \<Rightarrow> pb_Qty item * pb_AmountMinor price)"

definition requested_total :: "pb_OrderItem option list \<Rightarrow> int" where
  "requested_total reqs = (\<Sum>i \<leftarrow> reqs. item_cost i)"

definition acceptable :: "CreateOrderRequest \<Rightarrow> bool" where
  "acceptable req \<longleftrightarrow> req_CustomerId req \<noteq> [] \<and> req_Currency req \<noteq> [] \<and> req_Items req \<noteq> []
     \<and> list_all (acceptable_item (req_Currency req)) (req_Items req)
     \<and> 0 \<le> int64 (requested_total (req_Items req))"

text \<open>The positions of the order: the requested ones with fresh identifiers, the \<open>n\<close>-th and following.\<close>

fun built_items :: "(nat \<Rightarrow> string) \<Rightarrow> gotime \<Rightarrow> nat \<Rightarrow> pb_OrderItem option list \<Rightarrow> OrderItem list" where
  "built_items newid now n (Some item # reqs) =
     \<lparr>item_ID = newid n, SKU = pb_Sku item, Qty = pb_Qty item,
      PriceMinor = (case pb_Price item of None \<Rightarrow> 0 | Some price \<Rightarrow> pb_AmountMinor price),
      item_CreatedAt = now\<rparr> # built_items newid now (Suc n) reqs"
| "built_items newid now n _ = []"

definition built_order :: "(nat \<Rightarrow> string) \<Rightarrow> svc_world \<Rightarrow> CreateOrderRequest \<Rightarrow> Order" where
  "built_order newid w req =
     \<lparr>ID = newid (g_uuids w + length (req_Items req)), CustomerID = req_CustomerId req,
      Status = OrderStatusPending, Currency = req_Currency req,
      AmountMinor = int64 (requested_total (req_Items req)),
      Items = built_items newid (g_clock w) (g_uuids w) (req_Items req),
      Version = 0, CreatedAt = g_clock w, UpdatedAt = g_clock w\<rparr>"

definition pending_event :: "Order \<Rightarrow> TimelineEvent" where
  "pending_event o1 = \<lparr>tl_OrderID = ID o1, Type = ''OrderStatusChanged'', Reason = ''pending'',
                       Occurred = CreatedAt o1\<rparr>"

lemma create_items_accepts:
  assumes "list_all (acceptable_item currency) reqs" and "in_int64 amt"
  shows "run_state (create_items (NewOrderService newid ord waited b) currency now idx reqs items amt) w =
    (Inr (items @ built_items newid now (g_uuids w) reqs, int64 (amt + requested_total reqs)),
     w\<lparr>g_uuids := g_uuids w + length reqs\<rparr>)"
  using assms
proof (induction reqs arbitrary: idx items amt w)
  case (Cons r reqs)
  then obtain item price where item: "r = Some item" "pb_Price item = Some price"
      "pb_MoneyCurrency price = currency" "0 < pb_Qty item" "0 \<le> pb_AmountMinor price"
    by (auto simp: acceptable_item_def split: option.splits)
  have "int64 (int64 (amt + int64 (pb_Qty item * pb_AmountMinor price)) + requested_total reqs)
      = int64 (amt + requested_total (r # reqs))"
    by (simp add: item requested_total_def int64_add_left int64_add_right add.assoc)
  then show ?case
    using item Cons.prems Cons.IH int64_range by simp
qed (simp add: requested_total_def)

lemma create_items_rejects:
  assumes "\<not> list_all (acceptable_item currency) reqs"
  shows "\<exists>st n. run_state (create_items (NewOrderService newid ord waited b) currency now idx reqs items amt) w
    = (Inl st, w\<lparr>g_uuids := n\<rparr>) \<and> Code st = codes_InvalidArgument"
  using assms
proof (induction reqs arbitrary: idx items amt w)
  case (Cons r reqs)
  show ?case
  proof (cases "acceptable_item currency r")
    case True
    with Cons.prems have "\<not> list_all (acceptable_item currency) reqs" by simp
    from Cons.IH [OF this, of _ _ _ "w\<lparr>g_uuids := Suc (g_uuids w)\<rparr>"] True show ?thesis
      by (auto simp: acceptable_item_def split: option.splits)
  next
    case False
    then have "\<exists>st. run_state (create_items (NewOrderService newid ord waited b) currency now idx (r # reqs)
        items amt) w = (Inl st, w) \<and> Code st = codes_InvalidArgument"
      by (cases r) (auto simp: acceptable_item_def item_error_def status_Error_def not_less not_le split: option.splits)
    then show ?thesis by (metis svc_world.update_convs(5) svc_world.surjective)
  qed
qed simp

lemma built_items_total:
  "list_all (acceptable_item currency) reqs \<Longrightarrow>
     items_total (built_items newid now n reqs) = requested_total reqs
     \<and> list_all item_ok (built_items newid now n reqs) \<and> length (built_items newid now n reqs) = length reqs"
  by (induction newid now n reqs rule: built_items.induct)
    (auto simp: items_total_def requested_total_def acceptable_item_def item_ok_def split: option.splits)

lemma built_order_valid:
  assumes "acceptable req" shows "Order_ValidateInvariants (built_order newid w req) = []"
proof -
  note items = built_items_total [of "req_Currency req" "req_Items req" newid "g_clock w" "g_uuids w"]
  have "built_items newid (g_clock w) (g_uuids w) (req_Items req) \<noteq> []"
    using items assms by (auto simp: acceptable_def)
  then show ?thesis
    using assms items by (simp add: Order_ValidateInvariants_iff built_order_def acceptable_def)
qed

lemma overflowing_order_invalid:
  assumes "int64 (requested_total (req_Items req)) < 0"
  shows "Order_ValidateInvariants (built_order newid w req) \<noteq> []"
  using assms by (simp add: Order_ValidateInvariants_iff built_order_def)

text \<open>The handler up to the store, on the positions that pass the loop.\<close>

lemma createOrder_checked:
  assumes "req_CustomerId req \<noteq> []" and "req_Currency req \<noteq> []" and "req_Items req \<noteq> []"
    and "list_all (acceptable_item (req_Currency req)) (req_Items req)"
  shows "run_state (createOrderInternal (NewOrderService newid ord waited b) (Some req)) w =
    (let o1 = built_order newid w req;
         w1 = w\<lparr>g_clock := g_clock w + 1, g_uuids := Suc (g_uuids w + length (req_Items req))\<rparr>
     in if Order_ValidateInvariants o1 \<noteq> [] then
          (Inl (status_Error codes_InvalidArgument (joinErrors (Order_ValidateInvariants o1))), w1)
        else run_state (persist_order (NewOrderService newid ord waited b) o1) w1)"
proof -
  have "in_int64 0" by (simp add: in_int64_def)
  then show ?thesis
    using assms by (simp add: createOrderInternal_def create_items_accepts g_now_def built_order_def Let_def)
qed

definition stored_order :: "Order \<Rightarrow> svc_world \<Rightarrow> svc_world" where
  "stored_order o1 w = w\<lparr>g_orders := (g_orders w)(ID o1 \<mapsto> o1),
     g_timeline := snd (timeline_Append sort_slice (pending_event o1) (g_timeline w))\<rparr>"

lemma persist_new:
  assumes "g_orders w (ID o1) = None" and "\<not> IsZero (UpdatedAt o1)" and "Status o1 = OrderStatusPending"
    and "CreatedAt o1 = UpdatedAt o1"
  shows "run_state (persist_order (NewOrderService newid ord waited b) o1) w =
    (Inr (toProtoOrder o1), stored_order o1 w)"
  using assms
  by (simp add: persist_order_def with_orders_def order_Create_def appendStatusTimeline_def stored_order_def
      pending_event_def timeline_Append_def)

lemma persist_existing:
  assumes "g_orders w (ID o1) = Some old"
  shows "run_state (persist_order (NewOrderService newid ord waited b) o1) w =
    (Inl (status_Error codes_AlreadyExists (sentinel_message ErrOrderVersionConflict)), w)"
  using assms by (simp add: persist_order_def with_orders_def order_Create_def)

text \<open>A request that is turned away changes only the clock and the identifier supply.\<close>

definition turned_away :: "svc_world \<Rightarrow> svc_world \<Rightarrow> bool" where
  "turned_away w w' \<longleftrightarrow> (\<exists>t n. w' = w\<lparr>g_clock := t, g_uuids := n\<rparr>)"

lemma turned_away_upd [intro]: "turned_away w (w\<lparr>g_clock := t, g_uuids := n\<rparr>)"
  unfolding turned_away_def by blast

lemma turned_away_refl [intro]: "turned_away w w"
  using turned_away_upd [where w = w and t = "g_clock w" and n = "g_uuids w"] by simp

lemma createOrder_turned_away:
  assumes "\<not> acceptable req \<or> g_orders w (ID (built_order newid w req)) \<noteq> None"
  shows "\<exists>st w'. run_state (createOrderInternal (NewOrderService newid ord waited b) (Some req)) w = (Inl st, w')
    \<and> turned_away w w'"
proof -
  let ?s = "NewOrderService newid ord waited b" and ?o = "built_order newid w req"
  consider (header) "req_CustomerId req = [] \<or> req_Currency req = [] \<or> req_Items req = []"
    | (item) "req_CustomerId req \<noteq> []" "req_Currency req \<noteq> []" "req_Items req \<noteq> []"
        "\<not> list_all (acceptable_item (req_Currency req)) (req_Items req)"
    | (order) "req_CustomerId req \<noteq> []" "req_Currency req \<noteq> []" "req_Items req \<noteq> []"
        "list_all (acceptable_item (req_Currency req)) (req_Items req)"
    by blast
  then show ?thesis
  proof cases
    case header
    then show ?thesis by (auto simp: createOrderInternal_def)
  next
    case item
    obtain st n where "run_state (create_items ?s (req_Currency req) (g_clock w) 0 (req_Items req) [] 0)
        (w\<lparr>g_clock := g_clock w + 1\<rparr>) = (Inl st, w\<lparr>g_clock := g_clock w + 1, g_uuids := n\<rparr>)"
      using create_items_rejects [OF item(4)] by (metis svc_world.update_convs(5))
    then show ?thesis using item(1-3) by (auto simp: createOrderInternal_def g_now_def)
  next
    case order
    show ?thesis
    proof (cases "Order_ValidateInvariants ?o = []")
      case True
      then have "acceptable req"
        using order by (simp add: Order_ValidateInvariants_iff acceptable_def built_order_def)
      then obtain old where "g_orders w (ID ?o) = Some old" using assms by auto
      then show ?thesis
        using createOrder_checked [OF order, of newid ord waited b w] True by (auto simp: Let_def persist_existing)
    next
      case False
      then show ?thesis using createOrder_checked [OF order, of newid ord waited b w] by (auto simp: Let_def)
    qed
  qed
qed

lemma createOrder_accepts:
  assumes "acceptable req" and "g_orders w (ID (built_order newid w req)) = None" and "\<not> IsZero (g_clock w)"
  shows "run_state (createOrderInternal (NewOrderService newid ord waited b) (Some req)) w =
    (Inr (toProtoOrder (built_order newid w req)), stored_order (built_order newid w req)
      (w\<lparr>g_clock := g_clock w + 1, g_uuids := Suc (g_uuids w + length (req_Items req))\<rparr>))"
proof -
  let ?o = "built_order newid w req"
  let ?w = "w\<lparr>g_clock := g_clock w + 1, g_uuids := Suc (g_uuids w + length (req_Items req))\<rparr>"
  have "run_state (persist_order (NewOrderService newid ord waited b) ?o) ?w =
      (Inr (toProtoOrder ?o), stored_order ?o ?w)"
    using assms by (intro persist_new) (simp_all add: built_order_def)
  then show ?thesis
    using assms(1) createOrder_checked [of req newid ord waited b w] built_order_valid [of req newid w]
    by (simp add: acceptable_def Let_def)
qed

section \<open>Properties\<close>

text \<open>C10. \<open>createOrderInternal\<close> equals its specification on every request: an acceptable request whose
  order identifier is new stores exactly the requested order, pending, with its first timeline event,
  and returns it; any other request stores nothing and is answered with an error. In both cases no saga
  is started.\<close>

theorem createOrder_correct:
  assumes "\<not> IsZero (g_clock w)"
  shows "if acceptable req \<and> g_orders w (ID (built_order newid w req)) = None
    then run_state (createOrderInternal (NewOrderService newid ord waited b) (Some req)) w =
      (Inr (toProtoOrder (built_order newid w req)), stored_order (built_order newid w req)
        (w\<lparr>g_clock := g_clock w + 1, g_uuids := Suc (g_uuids w + length (req_Items req))\<rparr>))
    else \<exists>st w'. run_state (createOrderInternal (NewOrderService newid ord waited b) (Some req)) w = (Inl st, w')
      \<and> turned_away w w'"
proof (cases "acceptable req \<and> g_orders w (ID (built_order newid w req)) = None")
  case True
  with assms createOrder_accepts show ?thesis by simp
next
  case False
  then have "\<not> acceptable req \<or> g_orders w (ID (built_order newid w req)) \<noteq> None" by simp
  from createOrder_turned_away [OF this] show ?thesis unfolding if_not_P [OF False] .
qed


text \<open>A world and a request for the witnesses.\<close>

definition shop_world :: svc_world where
  "shop_world = \<lparr>g_orders = NewOrderRepository, g_timeline = NewTimelineRepository,
     g_idem = NewIdempotencyRepository, g_clock = time_Unix 1700000000, g_uuids = 0, g_closed = False,
     g_started = []\<rparr>"

definition shop_request :: CreateOrderRequest where
  "shop_request = \<lparr>req_CustomerId = ''customer-1'', req_Currency = ''USD'',
     req_Items = [Some \<lparr>pb_Sku = ''sku-1'', pb_Qty = 2,
                         pb_Price = Some \<lparr>pb_MoneyCurrency = ''USD'', pb_AmountMinor = 150\<rparr>\<rparr>]\<rparr>"

abbreviation shop :: "svc_world order_service" where
  "shop \<equiv> NewOrderService (\<lambda>n. ''id-'' @ int_string (int n)) (\<lambda>_. []) None True"

lemmas shop_defs = shop_world_def shop_request_def NewOrderRepository_def NewTimelineRepository_def
  NewIdempotencyRepository_def time_Unix_def unix_to_internal_def

lemma shop_acceptable: "acceptable shop_request" "\<not> IsZero (g_clock shop_world)"
  by (simp_all add: acceptable_def acceptable_item_def requested_total_def shop_defs int64_def IsZero_def)

lemma shop_empty [simp]:
  "g_orders shop_world i = None" "g_timeline shop_world i = None" "g_idem shop_world k = None"
  by (simp_all add: shop_defs)

theorem createOrder_correct_witness:
  "\<exists>pb w'. run_state (createOrderInternal shop (Some shop_request)) shop_world = (Inr pb, w')
     \<and> pb_AmountMinor (pb_Amount pb) = 300 \<and> g_started w' = []"
  using createOrder_correct [OF shop_acceptable(2), of shop_request "\<lambda>n. ''id-'' @ int_string (int n)"
      "\<lambda>_. []" None True] shop_acceptable(1)
  by (simp add: toProtoOrder_def built_order_def requested_total_def stored_order_def)
    (simp add: shop_defs int64_def)

section \<open>Retried requests\<close>

text \<open>What the code relies on of the encoders: the request can be marshalled and a hash is not empty.\<close>

definition hashes :: "('req, 'resp) codec \<Rightarrow> 'req \<Rightarrow> bool" where
  "hashes cd req \<longleftrightarrow> (\<exists>data. proto_Marshal cd req = Inr data) \<and> (\<forall>x. sha256_Sum256 cd x \<noteq> [])"

lemma hashes_hash:
  assumes "hashes cd req"
  obtains h where "buildIdempotencyRequestHash cd method req = Inr h" and "trimmed h"
  using assms by (auto simp: hashes_def buildIdempotencyRequestHash_def hex_trimmed)

lemma retried:
  assumes "hashes cd req" and "readIdempotencyKey ctx = Inr k" and "g_idem w k = None"
    and "run_state (withIdempotency (NewOrderService newid ord waited b) cd ctx method req handler) w = (res, w1)"
    and "cache_faithful cd res" and "g_idem w2 k = g_idem w1 k"
    and "\<And>I. keeps (holds_idem I) handler" and "proper handler"
  shows "\<exists>w3. run_state (withIdempotency (NewOrderService newid ord waited b) cd ctx method req handler) w2 = (res, w3)
    \<and> only_clock w2 w3"
proof -
  obtain h where h: "buildIdempotencyRequestHash cd method req = Inr h" "trimmed h"
    using hashes_hash [OF assms(1)] .
  have keep: "\<forall>w w' r. run_state handler w = (r, w') \<longrightarrow> g_idem w' k = g_idem w k"
    using keeps_idem_run [OF assms(7)] by blast
  have ok: "proper_status st" if "res = Inl st" for st
    by (rule proper_run [OF proper_withIdempotency [OF assms(8)] assms(4) [unfolded that]])
  obtain res' w3 where again:
    "run_state (withIdempotency (NewOrderService newid ord waited b) cd ctx method req handler) w2 = (res', w3)"
    by fastforce
  have "res' = res \<and> only_clock w2 w3"
    using mem_service.replay [OF assms(2) h assms(3) keep assms(4,5) _ assms(6) again] ok by blast
  then show ?thesis using again by blast
qed

text \<open>A request with a new key runs its handler, at most two ticks of the clock later.\<close>

lemma new_key_runs:
  assumes "hashes cd req" and "readIdempotencyKey ctx = Inr k" and "g_idem w k = None"
  shows "\<exists>I. fst (run_state (withIdempotency (NewOrderService newid ord waited b) cd ctx method req handler) w) =
    fst (run_state handler (w\<lparr>g_idem := I, g_clock := 2 + g_clock w\<rparr>))"
proof -
  obtain h where h: "buildIdempotencyRequestHash cd method req = Inr h" "trimmed h"
    using hashes_hash [OF assms(1)] .
  have k: "trimmed k" by (rule readIdempotencyKey_trimmed [OF assms(2)])
  obtain rec where "idem_CreateProcessing (g_clock w + 1) k h (g_clock w + idempotencyTTL) (g_idem w) =
      ((rec, None), (g_idem w)(k \<mapsto> rec))"
    using create_new [of k h "g_idem w" "g_clock w + 1"] k h(2) assms(3) by (auto simp: trimmed_def)
  then show ?thesis
    using assms(2) h(1)
    by (intro exI [of _ "(g_idem w)(k \<mapsto> rec)"])
      (auto simp: withIdempotency_def g_now_def with_idem_def NewOrderService_def split: prod.split sum.split)
qed

text \<open>A key that is in the store with another request's hash.\<close>

lemma reused:
  assumes "hashes cd req" and "readIdempotencyKey ctx = Inr k" and "g_idem w k = Some rec"
    and "buildIdempotencyRequestHash cd method req \<noteq> Inr (RequestHash rec)"
  shows "\<exists>w'. run_state (withIdempotency (NewOrderService newid ord waited b) cd ctx method req handler) w =
      (Inl (status_Error codes_AlreadyExists ''idempotency key is already used with different request payload''), w')
    \<and> only_clock w w'"
proof -
  obtain h where h: "buildIdempotencyRequestHash cd method req = Inr h" "trimmed h"
    using hashes_hash [OF assms(1)] .
  obtain res w' where run:
    "run_state (withIdempotency (NewOrderService newid ord waited b) cd ctx method req handler) w = (res, w')"
    by fastforce
  from mem_service.known_key [OF assms(2) h assms(3) run] h assms(4) run show ?thesis
    by (auto simp: replayIdempotency_def)
qed

text \<open>C9. A \<open>CreateOrder\<close> repeated with the same key and the same request, any time later while its
  record is kept, returns exactly the first result, success or error, and does nothing: no second order,
  no event, no saga; only the clock was read.\<close>

theorem CreateOrder_retry_is_replayed:
  assumes "hashes cd req" and "readIdempotencyKey ctx = Inr k" and "g_idem w k = None"
    and "run_state (CreateOrder (NewOrderService newid ord waited b) cd ctx (Some req)) w = (res, w1)"
    and "cache_faithful cd res" and "g_idem w2 k = g_idem w1 k"
  shows "\<exists>w3. run_state (CreateOrder (NewOrderService newid ord waited b) cd ctx (Some req)) w2 = (res, w3)
    \<and> only_clock w2 w3"
  using assms(4) retried [OF assms(1-3) _ assms(5,6) idem_handlers(1) proper_handlers(1)]
  unfolding CreateOrder_def by simp

definition shop_ctx :: call_ctx where
  "shop_ctx = \<lparr>md_incoming = Some ['' key-1 ''], md_outgoing = None\<rparr>"

text \<open>Encoders for the witnesses: they know one response.\<close>

definition shop_codec :: "'resp \<Rightarrow> ('req, 'resp) codec" where
  "shop_codec resp = \<lparr>proto_Marshal = (\<lambda>_. Inr ''request''), sha256_Sum256 = (\<lambda>x. ''digest of '' @ x),
     protojson_Marshal = (\<lambda>_. Inr ''response''), protojson_Unmarshal = (\<lambda>_. Inr resp),
     json_MarshalFailure = (\<lambda>_ _. Some ''failure''), json_UnmarshalFailure = (\<lambda>_. Some (3, ''bad request''))\<rparr>"

lemma shop_ctx_key: "readIdempotencyKey shop_ctx = Inr ''key-1''"
  by code_simp

lemma shop_hashes: "hashes (shop_codec resp) req"
  by (simp add: hashes_def shop_codec_def)

lemma map_built_items:
  "map (\<lambda>i. f (SKU i) (Qty i) (PriceMinor i)) (built_items newid now n reqs) =
   map (\<lambda>i. f (SKU i) (Qty i) (PriceMinor i)) (built_items newid now' n reqs)"
  by (induction newid now n reqs rule: built_items.induct) simp_all

lemma toProtoOrder_clock:
  "toProtoOrder (built_order newid (w\<lparr>g_idem := I, g_clock := t\<rparr>) req) = toProtoOrder (built_order newid w req)"
  using map_built_items [of "\<lambda>sku qty price. \<lparr>pb_Sku = sku, pb_Qty = qty,
      pb_Price = Some \<lparr>pb_MoneyCurrency = req_Currency req, pb_AmountMinor = price\<rparr>\<rparr>"]
  by (simp add: toProtoOrder_def built_order_def)

lemma shop_create:
  fixes pb defines "pb \<equiv> toProtoOrder (built_order (\<lambda>n. ''id-'' @ int_string (int n)) shop_world shop_request)"
  shows "\<exists>w1. run_state (CreateOrder shop (shop_codec pb) shop_ctx (Some shop_request)) shop_world = (Inr pb, w1)"
proof -
  let ?n = "\<lambda>n. ''id-'' @ int_string (int n)"
  obtain I where I: "fst (run_state (CreateOrder shop (shop_codec pb) shop_ctx (Some shop_request)) shop_world) =
      fst (run_state (createOrderInternal shop (Some shop_request))
        (shop_world\<lparr>g_idem := I, g_clock := 2 + g_clock shop_world\<rparr>))" (is "_ = fst (run_state _ ?w)")
    using new_key_runs [OF shop_hashes [of pb shop_request] shop_ctx_key shop_empty(3), of ?n "\<lambda>_. []" None True
        grpcMethodCreateOrder "createOrderInternal shop (Some shop_request)"]
    by (auto simp: CreateOrder_def)
  have "\<not> IsZero (g_clock ?w)" by (simp add: shop_defs IsZero_def int64_def)
  then have "fst (run_state (createOrderInternal shop (Some shop_request)) ?w) = Inr pb"
    using createOrder_accepts [OF shop_acceptable(1), of ?w ?n] by (simp add: pb_def toProtoOrder_clock)
  with I show ?thesis by (metis prod.exhaust_sel)
qed

theorem CreateOrder_retry_is_replayed_witness:
  "\<exists>pb w1 w3. run_state (CreateOrder shop (shop_codec pb) shop_ctx (Some shop_request)) shop_world = (Inr pb, w1)
     \<and> run_state (CreateOrder shop (shop_codec pb) shop_ctx (Some shop_request)) w1 = (Inr pb, w3)
     \<and> only_clock w1 w3"
proof -
  let ?pb = "toProtoOrder (built_order (\<lambda>n. ''id-'' @ int_string (int n)) shop_world shop_request)"
  obtain w1 where run: "run_state (CreateOrder shop (shop_codec ?pb) shop_ctx (Some shop_request)) shop_world = (Inr ?pb, w1)"
    using shop_create by blast
  have "cache_faithful (shop_codec ?pb :: (CreateOrderRequest, pb_Order) codec) (Inr ?pb)"
    by (simp add: cache_faithful_def shop_codec_def)
  from CreateOrder_retry_is_replayed [OF shop_hashes shop_ctx_key shop_empty(3) run this refl] run
  show ?thesis by blast
qed

section \<open>Reading back\<close>

text \<open>The idempotency layer touches neither orders nor timelines.\<close>

lemma cache_keeps_orders:
  "run_state (cacheIdempotencySuccess (NewOrderService newid ord waited b) cd k resp) w = (e, w') \<Longrightarrow>
   g_orders w' = g_orders w \<and> g_timeline w' = g_timeline w"
  "run_state (cacheIdempotencyFailure (NewOrderService newid ord waited b) cd k st) w = (u, w') \<Longrightarrow>
   g_orders w' = g_orders w \<and> g_timeline w' = g_timeline w"
  by (auto simp: cacheIdempotencySuccess_def cacheIdempotencyFailure_def Let_def NewOrderService_def with_idem_def
      split: sum.splits prod.splits)

lemma new_key_world:
  assumes "hashes cd req" and "readIdempotencyKey ctx = Inr k" and "g_idem w k = None"
    and "run_state (withIdempotency (NewOrderService newid ord waited b) cd ctx method req handler) w = (res, w')"
  shows "\<exists>I w1. run_state handler (w\<lparr>g_idem := I, g_clock := 2 + g_clock w\<rparr>) = (res, w1)
    \<and> g_orders w' = g_orders w1 \<and> g_timeline w' = g_timeline w1"
proof -
  let ?s = "NewOrderService newid ord waited b"
  obtain h where h: "buildIdempotencyRequestHash cd method req = Inr h" "trimmed h"
    using hashes_hash [OF assms(1)] .
  have k: "trimmed k" by (rule readIdempotencyKey_trimmed [OF assms(2)])
  obtain rec where rec: "idem_CreateProcessing (g_clock w + 1) k h (g_clock w + idempotencyTTL) (g_idem w) =
      ((rec, None), (g_idem w)(k \<mapsto> rec))"
    using create_new [of k h "g_idem w" "g_clock w + 1"] k h(2) assms(3) by (auto simp: trimmed_def)
  let ?w0 = "w\<lparr>g_idem := (g_idem w)(k \<mapsto> rec), g_clock := 2 + g_clock w\<rparr>"
  obtain r1 w1 where run: "run_state handler ?w0 = (r1, w1)" by fastforce
  have "has_idemRepo ?s" and "run_state (svc_Now ?s) w = (g_clock w, w\<lparr>g_clock := g_clock w + 1\<rparr>)"
    and "run_state (repo_CreateProcessing ?s k h (g_clock w + idempotencyTTL)) (w\<lparr>g_clock := g_clock w + 1\<rparr>) = ((rec, None), ?w0)"
    using rec by (simp_all add: NewOrderService_def with_idem_def g_now_def)
  then have "run_state (case r1 of
        Inl e \<Rightarrow> State_Monad.bind (cacheIdempotencyFailure ?s cd k e) (\<lambda>_. return (Inl e))
      | Inr resp \<Rightarrow> State_Monad.bind (cacheIdempotencySuccess ?s cd k resp) (\<lambda>_. return (Inr resp))) w1 = (res, w')"
    using assms(2,4) h(1) run by (simp add: withIdempotency_def)
  then have "r1 = res \<and> g_orders w' = g_orders w1 \<and> g_timeline w' = g_timeline w1"
    by (cases r1) (auto split: prod.splits dest: cache_keeps_orders)
  then show ?thesis using run by blast
qed

lemma read_back:
  assumes "g_orders w (ID o1) = Some o1" and "g_timeline w (ID o1) = Some [pending_event o1]"
  shows "ID o1 \<noteq> [] \<Longrightarrow> run_state (GetOrder (NewOrderService newid ord waited b) (Some (ID o1))) w =
    (Inr \<lparr>resp_Order = toProtoOrder o1, resp_Timeline = [\<lparr>pb_Type = ''OrderStatusChanged'', pb_Reason = ''pending'',
       pb_UnixTime = Unix (CreatedAt o1)\<rparr>]\<rparr>, w)"
  using assms
  by (simp add: GetOrder_def loadOrder_def with_orders_def order_Get_def buildTimeline_def
      timeline_List_def timeline_events_def pending_event_def sort_slice_def)

text \<open>C11. The order that \<open>CreateOrder\<close> returned to a request with a new idempotency key is what \<open>GetOrder\<close> returns, as
  long as order and timeline stay as the call left them, together with one timeline event: the order became pending when
  it was created. The identifiers of the generator are not empty and the new one has no timeline yet; a repeated request
  gets the first answer instead, whatever became of the order since.\<close>

theorem created_order_is_read_back:
  assumes "hashes cd req" and "readIdempotencyKey ctx = Inr k" and "g_idem w k = None"
    and "run_state (CreateOrder (NewOrderService newid ord waited b) cd ctx (Some req)) w = (Inr pb, w1)"
    and "\<not> IsZero (g_clock w + 2)" and "g_timeline w (pb_Id pb) = None" and "\<forall>n. newid n \<noteq> []"
    and "g_orders w2 (pb_Id pb) = g_orders w1 (pb_Id pb)" and "g_timeline w2 (pb_Id pb) = g_timeline w1 (pb_Id pb)"
  shows "run_state (GetOrder (NewOrderService newid ord waited b) (Some (pb_Id pb))) w2 =
    (Inr \<lparr>resp_Order = pb, resp_Timeline = [\<lparr>pb_Type = ''OrderStatusChanged'', pb_Reason = ''pending'',
       pb_UnixTime = Unix (g_clock w + 2)\<rparr>]\<rparr>, w2)"
proof -
  obtain I w3 where run: "run_state (createOrderInternal (NewOrderService newid ord waited b) (Some req))
      (w\<lparr>g_idem := I, g_clock := 2 + g_clock w\<rparr>) = (Inr pb, w3)"
    and w3: "g_orders w1 = g_orders w3" "g_timeline w1 = g_timeline w3"
    using new_key_world [OF assms(1-3)] assms(4) unfolding CreateOrder_def by force
  define w0 where "w0 = w\<lparr>g_idem := I, g_clock := 2 + g_clock w\<rparr>"
  let ?o = "built_order newid w0 req"
  from createOrder_turned_away [of req w0 newid ord waited b] run
  have ok: "acceptable req" "g_orders w0 (ID ?o) = None" by (force simp: w0_def)+
  have "\<not> IsZero (g_clock w0)" using assms(5) by (simp add: w0_def add.commute)
  from createOrder_accepts [OF ok this] run have res: "pb = toProtoOrder ?o" "w3 = stored_order ?o
      (w0\<lparr>g_clock := g_clock w0 + 1, g_uuids := Suc (g_uuids w0 + length (req_Items req))\<rparr>)"
    by (simp_all add: w0_def)
  have i: "pb_Id pb = ID ?o" using res(1) by (simp add: toProtoOrder_def)
  have "ID ?o \<noteq> []" using assms(7) by (simp add: built_order_def)
  moreover have "g_timeline w0 (ID ?o) = None" using assms(6) i by (simp add: w0_def)
  moreover have at: "CreatedAt ?o = g_clock w + 2" by (simp add: built_order_def w0_def)
  moreover have "g_timeline w2 (ID ?o) = snd (timeline_Append sort_slice (pending_event ?o) (g_timeline w0)) (ID ?o)"
    using assms(9) unfolding i w3 res(2) by (simp add: stored_order_def)
  ultimately have t: "g_timeline w2 (ID ?o) = Some [pending_event ?o]"
    by (simp add: timeline_Append_def timeline_events_def pending_event_def sort_slice_def)
  have o: "g_orders w2 (ID ?o) = Some ?o"
    using assms(8) unfolding i w3 res(2) by (simp add: stored_order_def)
  have "ID ?o \<noteq> []" using assms(7) by (simp add: built_order_def)
  from read_back [OF o t this] show ?thesis unfolding i at res(1) [symmetric] .
qed

theorem created_order_is_read_back_witness:
  "\<exists>cd pb w1 resp. run_state (CreateOrder shop cd shop_ctx (Some shop_request)) shop_world = (Inr pb, w1)
     \<and> run_state (GetOrder shop (Some (pb_Id pb))) w1 = (Inr resp, w1) \<and> resp_Order resp = pb"
proof -
  define pb where "pb = toProtoOrder (built_order (\<lambda>n. ''id-'' @ int_string (int n)) shop_world shop_request)"
  obtain w1 where run: "run_state (CreateOrder shop (shop_codec pb) shop_ctx (Some shop_request)) shop_world = (Inr pb, w1)"
    unfolding pb_def using shop_create by blast
  have "\<not> IsZero (g_clock shop_world + 2)" by (simp add: shop_defs IsZero_def int64_def)
  from created_order_is_read_back [OF shop_hashes shop_ctx_key shop_empty(3) run this shop_empty(2) _ refl refl]
  have "\<exists>resp. run_state (GetOrder shop (Some (pb_Id pb))) w1 = (Inr resp, w1) \<and> resp_Order resp = pb" by simp
  with run show ?thesis by blast
qed

text \<open>A repeated \<open>RefundOrder\<close> starts no second refund: it returns the first result and only reads
  the clock.\<close>

theorem RefundOrder_retry_is_replayed:
  assumes "hashes cd req" and "readIdempotencyKey ctx = Inr k" and "g_idem w k = None"
    and "run_state (RefundOrder (NewOrderService newid ord waited b) cd ctx (Some req)) w = (res, w1)"
    and "cache_faithful cd res" and "g_idem w2 k = g_idem w1 k" and "refund_OrderId req \<noteq> []"
  shows "\<exists>w3. run_state (RefundOrder (NewOrderService newid ord waited b) cd ctx (Some req)) w2 = (res, w3)
    \<and> only_clock w2 w3"
  using assms(4,7) retried [OF assms(1-3) _ assms(5,6) idem_handlers(4) proper_handlers(4)]
  unfolding RefundOrder_def by simp

definition paid_world :: svc_world where
  "paid_world = shop_world\<lparr>g_orders := [''o1'' \<mapsto>
     \<lparr>ID = ''o1'', CustomerID = ''customer-1'', Status = OrderStatusPaid, Currency = ''USD'', AmountMinor = 300,
      Items = [], Version = 2, CreatedAt = 1, UpdatedAt = 1\<rparr>]\<rparr>"

definition shop_refund :: RefundOrderRequest where
  "shop_refund = \<lparr>refund_OrderId = ''o1'', refund_Amount = None, refund_Reason = ''broken''\<rparr>"

theorem RefundOrder_retry_is_replayed_witness:
  "\<exists>resp w1 w3. run_state (RefundOrder shop (shop_codec resp) shop_ctx (Some shop_refund)) paid_world = (Inr resp, w1)
     \<and> run_state (RefundOrder shop (shop_codec resp) shop_ctx (Some shop_refund)) w1 = (Inr resp, w3)
     \<and> only_clock w1 w3"
proof -
  let ?resp = "\<lparr>resp_OrderId = ''o1'', resp_Status = ORDER_STATUS_PAID\<rparr>"
  have idem: "g_idem paid_world ''key-1'' = None" by (simp add: paid_world_def)
  have "fst (run_state (refundOrderInternal shop (Some shop_refund)) (paid_world\<lparr>g_idem := I, g_clock := t\<rparr>)) =
      Inr ?resp" for I t
    by (simp add: refundOrderInternal_def shop_refund_def loadOrder_def with_orders_def order_Get_def paid_world_def
        refund_request_amount_def runSagaAsync_def shop_world_def reload_status_def)
  then have "fst (run_state (RefundOrder shop (shop_codec ?resp) shop_ctx (Some shop_refund)) paid_world) = Inr ?resp"
    using new_key_runs [OF shop_hashes [of ?resp shop_refund] shop_ctx_key idem,
        of "\<lambda>n. ''id-'' @ int_string (int n)" "\<lambda>_. []" None True grpcMethodRefundOrder
          "refundOrderInternal shop (Some shop_refund)"]
    by (auto simp: RefundOrder_def shop_refund_def)
  then obtain w1 where run:
    "run_state (RefundOrder shop (shop_codec ?resp) shop_ctx (Some shop_refund)) paid_world = (Inr ?resp, w1)"
    by (metis prod.exhaust_sel)
  have faithful: "cache_faithful (shop_codec ?resp :: (RefundOrderRequest, OrderStatusResponse) codec) (Inr ?resp)"
    by (simp add: cache_faithful_def shop_codec_def)
  have "refund_OrderId shop_refund \<noteq> []" by (simp add: shop_refund_def)
  from RefundOrder_retry_is_replayed [OF shop_hashes shop_ctx_key idem run faithful refl this] run
  show ?thesis by blast
qed

text \<open>A key cannot be reused for another request: \<open>PayOrder\<close> with a key whose record holds another
  hash is refused with \<open>AlreadyExists\<close> and starts no saga.\<close>

theorem PayOrder_reused_key_refused:
  assumes "hashes cd req" and "readIdempotencyKey ctx = Inr k" and "g_idem w k = Some rec"
    and "buildIdempotencyRequestHash cd grpcMethodPayOrder req \<noteq> Inr (RequestHash rec)"
    and "pay_OrderId req \<noteq> []"
  shows "\<exists>w'. run_state (PayOrder (NewOrderService newid ord waited b) cd ctx (Some req)) w =
      (Inl (status_Error codes_AlreadyExists ''idempotency key is already used with different request payload''), w')
    \<and> only_clock w w'"
  using assms(5) reused [OF assms(1-4)] unfolding PayOrder_def by simp

definition used_world :: svc_world where
  "used_world = shop_world\<lparr>g_idem := [''key-1'' \<mapsto>
     \<lparr>Key = ''key-1'', RequestHash = ''cafe'', ResponseBody = [], HTTPStatus = 0,
      idem_Status = IdempotencyStatusDone, TTLAt = 9, idem_CreatedAt = 1, idem_UpdatedAt = 1\<rparr>]\<rparr>"

theorem PayOrder_reused_key_refused_witness:
  "\<exists>w'. run_state (PayOrder shop (shop_codec \<lparr>resp_OrderId = ''o1'', resp_Status = ORDER_STATUS_PAID\<rparr>) shop_ctx
       (Some \<lparr>pay_OrderId = ''o1''\<rparr>))
       (used_world)
     = (Inl (status_Error codes_AlreadyExists ''idempotency key is already used with different request payload''), w')"
proof -
  have "buildIdempotencyRequestHash (shop_codec resp) grpcMethodPayOrder req \<noteq> Inr ''cafe''"
    for req :: PayOrderRequest and resp :: OrderStatusResponse
    by (simp add: buildIdempotencyRequestHash_def shop_codec_def hex_EncodeToString_def hex_digit_def)
  then show ?thesis
    using PayOrder_reused_key_refused [OF shop_hashes [of "\<lparr>resp_OrderId = ''o1'', resp_Status = ORDER_STATUS_PAID\<rparr>"
          "\<lparr>pay_OrderId = ''o1''\<rparr>"] shop_ctx_key, of used_world]
    by (fastforce simp: used_world_def)
qed

text \<open>The status code of a failed request survives the idempotency record: decoding a number gives a
  known code exactly when that code is a standard one and encodes to the number.\<close>

theorem grpc_code_roundtrip:
  "grpcCodeFromInt64 v = (c, True) \<longleftrightarrow> standard_code c \<and> grpcCodeToInt32 c = v"
  using code_roundtrip code_from_int by blast


definition huge_request :: CreateOrderRequest where
  "huge_request = \<lparr>req_CustomerId = ''customer-1'', req_Currency = ''USD'',
     req_Items = [Some \<lparr>pb_Sku = ''sku-1'', pb_Qty = 4,
                         pb_Price = Some \<lparr>pb_MoneyCurrency = ''USD'', pb_AmountMinor = 2 ^ 62\<rparr>\<rparr>]\<rparr>"

lemma huge_acceptable: "acceptable huge_request" "int64 (requested_total (req_Items huge_request)) = 0"
  by (simp_all add: acceptable_def acceptable_item_def requested_total_def huge_request_def int64_def)

text \<open>The amount of an order is the 64-bit wrap of the true sum, and both the handler and
  \<open>ValidateInvariants\<close> compute it in the same way: four pieces at \<open>2 ^ 62\<close> minor units each are accepted
  as an order of amount 0.\<close>

theorem order_amount_wraps:
  "\<exists>pb w'. run_state (createOrderInternal shop (Some huge_request)) shop_world = (Inr pb, w')
     \<and> pb_AmountMinor (pb_Amount pb) = 0
     \<and> (\<exists>o1. g_orders w' (pb_Id pb) = Some o1 \<and> items_total (Items o1) = 2 ^ 64)"
  using createOrder_accepts [OF huge_acceptable(1) _ shop_acceptable(2), of "\<lambda>n. ''id-'' @ int_string (int n)"
      "\<lambda>_. []" None True]
  by (simp add: toProtoOrder_def built_order_def stored_order_def huge_acceptable)
    (simp add: huge_request_def items_total_def)

text \<open>After \<open>Shutdown\<close> a payment of a pending order is acknowledged as accepted although no saga is
  started for it: the order stays pending.\<close>

theorem payment_after_shutdown_never_starts:
  assumes "g_orders w i = Some o1" and "Status o1 = OrderStatusPending" and "i \<noteq> []"
    and "run_state (Shutdown (NewOrderService newid ord waited True)) w = (err, w1)"
  shows "run_state (payOrderInternal (NewOrderService newid ord waited True) (Some \<lparr>pay_OrderId = i\<rparr>)) w1 =
    (Inr \<lparr>resp_OrderId = ID o1, resp_Status = ORDER_STATUS_PENDING\<rparr>, w1) \<and> g_started w1 = g_started w"
proof -
  have "w1 = w\<lparr>g_closed := True\<rparr>" using assms(4) by (simp add: Shutdown_def NewOrderService_def)
  then show ?thesis
    using assms(1-3) by (simp add: payOrderInternal_def loadOrder_def with_orders_def order_Get_def runSagaAsync_def)
qed

theorem payment_after_shutdown_never_starts_witness:
  "\<exists>err w1 resp. run_state (Shutdown shop) (paid_world\<lparr>g_orders := [''o1'' \<mapsto> built_order (\<lambda>_. ''o1'') shop_world shop_request]\<rparr>)
      = (err, w1) \<and> run_state (payOrderInternal shop (Some \<lparr>pay_OrderId = ''o1''\<rparr>)) w1 = (Inr resp, w1) \<and> g_started w1 = []"
proof -
  let ?w = "paid_world\<lparr>g_orders := [''o1'' \<mapsto> built_order (\<lambda>_. ''o1'') shop_world shop_request]\<rparr>"
  obtain err w1 where run: "run_state (Shutdown shop) ?w = (err, w1)" by fastforce
  have "g_started ?w = []" by (simp add: paid_world_def shop_world_def)
  with payment_after_shutdown_never_starts [OF _ _ _ run, of "''o1''" "built_order (\<lambda>_. ''o1'') shop_world shop_request"]
    run show ?thesis by (simp add: built_order_def)
qed

end
