(* ===== verification/Courier_Domain.thy ===== *)
theory Courier_Domain
  imports Domain Complex_Main
begin

text \<open>
  \<open>internal/domain/courier.go\<close> and \<open>moscow_zones.go\<close>: the entities of the delivery domain, their
  validation, phone numbers, night shifts and the catalogue of Moscow zones.

  \<^item> A string type with named constants is a datatype with one constructor per constant and one for any
    other string.
  \<^item> A string is the list of its UTF-8 bytes. \<open>NormalizePhone\<close> ranges over runes; a rune outside ASCII is
    rejected by the loop, and so is the first byte of its encoding, so the loop over bytes is the same.
  \<^item> \<open>Hour\<close>, \<open>Minute\<close>, \<open>Second\<close> and \<open>Nanosecond\<close> of a time in the fixed zone of Moscow are computed from the
    nanoseconds since the zero instant, three hours ahead.
  \<^item> \<open>AverageScore\<close>, a \<open>float64\<close>, is the rational it stands for.
\<close>

section \<open>Vehicles\<close>

definition MaxCouriersPerZoneDefault :: int where "MaxCouriersPerZoneDefault = 100"
definition minPhoneDigits :: int where "minPhoneDigits = 11"
definition maxPhoneDigits :: int where "maxPhoneDigits = 15"
definition moscowUTCOffsetSeconds :: int where "moscowUTCOffsetSeconds = 3 * 60 * 60"

datatype VehicleType = VehicleTypeScooter | VehicleTypeBike | VehicleTypeCar | VehicleTypeOther string

fun VehicleType_string :: "VehicleType \<Rightarrow> string" where
  "VehicleType_string VehicleTypeScooter = ''scooter''"
| "VehicleType_string VehicleTypeBike = ''bike''"
| "VehicleType_string VehicleTypeCar = ''car''"
| "VehicleType_string (VehicleTypeOther s) = s"

fun VehicleType_Valid :: "VehicleType \<Rightarrow> bool" where
  "VehicleType_Valid (VehicleTypeOther s) = False"
| "VehicleType_Valid _ = True"

definition AllowsMultipleZones :: "VehicleType \<Rightarrow> bool" where
  "AllowsMultipleZones v \<longleftrightarrow> v = VehicleTypeCar"

record CourierVehicleCapability =
  cap_VehicleType :: VehicleType
  MaxWeightGrams :: int
  MaxVolumeCM3 :: int
  MaxOrdersPerTrip :: int
  cap_UpdatedAt :: gotime

definition Capability_ValidateInvariants :: "CourierVehicleCapability \<Rightarrow> error list" where
  "Capability_ValidateInvariants c =
     (if \<not> VehicleType_Valid (cap_VehicleType c) then [E ErrCourierVehicleTypeInvalid] else [])
     @ (if MaxWeightGrams c \<le> 0 \<or> MaxVolumeCM3 c \<le> 0 \<or> MaxOrdersPerTrip c \<le> 0
        then [E ErrCourierVehicleCapabilityInvalid] else [])"

definition DefaultCourierVehicleCapabilities :: "CourierVehicleCapability list" where
  "DefaultCourierVehicleCapabilities =
     [\<lparr>cap_VehicleType = VehicleTypeScooter, MaxWeightGrams = 5000, MaxVolumeCM3 = 35000,
       MaxOrdersPerTrip = 2, cap_UpdatedAt = 0\<rparr>,
      \<lparr>cap_VehicleType = VehicleTypeBike, MaxWeightGrams = 10000, MaxVolumeCM3 = 65000,
       MaxOrdersPerTrip = 3, cap_UpdatedAt = 0\<rparr>,
      \<lparr>cap_VehicleType = VehicleTypeCar, MaxWeightGrams = 25000, MaxVolumeCM3 = 250000,
       MaxOrdersPerTrip = 10, cap_UpdatedAt = 0\<rparr>]"

section \<open>Night shifts\<close>

definition in_msk :: "gotime \<Rightarrow> int" where
  "in_msk t = t + moscowUTCOffsetSeconds * second"

definition Hour :: "int \<Rightarrow> int" where "Hour l = l div hour mod 24"
definition Minute :: "int \<Rightarrow> int" where "Minute l = l div minute mod 60"
definition Second :: "int \<Rightarrow> int" where "Second l = l div second mod 60"
definition Nanosecond :: "int \<Rightarrow> int" where "Nanosecond l = l mod second"

definition IsNightShiftSlot :: "gotime \<Rightarrow> gotime \<Rightarrow> bool" where
  "IsNightShiftSlot slotStart slotEnd =
     (if IsZero slotStart \<or> IsZero slotEnd then False
      else let startMSK = in_msk slotStart; endMSK = in_msk slotEnd
      in if Sub endMSK startMSK \<noteq> 12 * hour then False
         else Hour startMSK = 20 \<and> Minute startMSK = 0 \<and> Second startMSK = 0 \<and> Nanosecond startMSK = 0
            \<and> Hour endMSK = 8 \<and> Minute endMSK = 0 \<and> Second endMSK = 0 \<and> Nanosecond endMSK = 0)"

section \<open>Couriers\<close>

text \<open>The loop of \<open>NormalizePhone\<close> over the trimmed number: the index and the digits so far.\<close>

fun phone_loop :: "nat \<Rightarrow> string \<Rightarrow> string \<Rightarrow> error + string" where
  "phone_loop idx [] ds = Inr ds"
| "phone_loop idx (r # rs) ds =
     (if CHR ''0'' \<le> r \<and> r \<le> CHR ''9'' then phone_loop (Suc idx) rs (ds @ [r])
      else if r = CHR ''+'' \<and> idx = 0 then phone_loop (Suc idx) rs ds
      else if r = CHR '' '' \<or> r = CHR ''-'' \<or> r = CHR ''('' \<or> r = CHR '')'' \<or> r = CHR 0x09
      then phone_loop (Suc idx) rs ds
      else Inl (E ErrCourierPhoneFormatInvalid))"

definition NormalizePhone :: "string \<Rightarrow> error + string" where
  "NormalizePhone phone =
     (let trimmed = TrimSpace phone
      in if trimmed = [] then Inl (E ErrCourierPhoneRequired)
         else case phone_loop 0 trimmed [] of
                Inl err \<Rightarrow> Inl err
              | Inr ds \<Rightarrow>
                  if int (length ds) < minPhoneDigits \<or> int (length ds) > maxPhoneDigits
                  then Inl (E ErrCourierPhoneFormatInvalid)
                  else Inr (''+'' @ ds))"

record Courier =
  courier_ID :: string
  Phone :: string
  FirstName :: string
  LastName :: string
  courier_VehicleType :: VehicleType
  IsActive :: bool
  courier_CreatedAt :: gotime
  courier_UpdatedAt :: gotime

definition Courier_ValidateInvariants :: "Courier \<Rightarrow> error list" where
  "Courier_ValidateInvariants c =
     (if TrimSpace (courier_ID c) = [] then [E ErrCourierIDRequired] else [])
     @ (if TrimSpace (Phone c) = [] then [E ErrCourierPhoneRequired]
        else case NormalizePhone (Phone c) of Inl err \<Rightarrow> [err] | Inr _ \<Rightarrow> [])
     @ (if TrimSpace (FirstName c) = [] then [E ErrCourierFirstNameRequired] else [])
     @ (if TrimSpace (LastName c) = [] then [E ErrCourierLastNameRequired] else [])
     @ (if \<not> VehicleType_Valid (courier_VehicleType c) then [E ErrCourierVehicleTypeInvalid] else [])"

section \<open>Zones\<close>

record MoscowZone =
  zone_ID :: string
  Okrug :: string
  Name :: string

definition moscow :: "string \<Rightarrow> string \<Rightarrow> string \<Rightarrow> MoscowZone" where
  "moscow i okrug name = \<lparr>zone_ID = i, Okrug = okrug, Name = name\<rparr>"

definition moscowZones :: "MoscowZone list" where
  "moscowZones = [
     moscow ''msk-cao-arbat'' ''cao'' ''Arbat'',
     moscow ''msk-cao-basmanny'' ''cao'' ''Basmanny'',
     moscow ''msk-cao-zamoskvorechye'' ''cao'' ''Zamoskvorechye'',
     moscow ''msk-cao-krasnoselsky'' ''cao'' ''Krasnoselsky'',
     moscow ''msk-cao-meshchansky'' ''cao'' ''Meshchansky'',
     moscow ''msk-cao-presnensky'' ''cao'' ''Presnensky'',
     moscow ''msk-cao-tagansky'' ''cao'' ''Tagansky'',
     moscow ''msk-cao-tverskoy'' ''cao'' ''Tverskoy'',
     moscow ''msk-cao-khamovniki'' ''cao'' ''Khamovniki'',
     moscow ''msk-cao-yakimanka'' ''cao'' ''Yakimanka'',
     moscow ''msk-sao-aeroport'' ''sao'' ''Aeroport'',
     moscow ''msk-sao-begovoy'' ''sao'' ''Begovoy'',
     moscow ''msk-sao-beskudnikovsky'' ''sao'' ''Beskudnikovsky'',
     moscow ''msk-sao-voykovsky'' ''sao'' ''Voykovsky'',
     moscow ''msk-sao-vostochnoe-degunino'' ''sao'' ''Vostochnoe-Degunino'',
     moscow ''msk-sao-golovinsky'' ''sao'' ''Golovinsky'',
     moscow ''msk-sao-dmitrovsky'' ''sao'' ''Dmitrovsky'',
     moscow ''msk-sao-zapadnoe-degunino'' ''sao'' ''Zapadnoe-Degunino'',
     moscow ''msk-sao-koptevo'' ''sao'' ''Koptevo'',
     moscow ''msk-sao-levoberezhny'' ''sao'' ''Levoberezhny'',
     moscow ''msk-sao-molzhaninovsky'' ''sao'' ''Molzhaninovsky'',
     moscow ''msk-sao-savelovsky'' ''sao'' ''Savelovsky'',
     moscow ''msk-sao-sokol'' ''sao'' ''Sokol'',
     moscow ''msk-sao-timiryazevsky'' ''sao'' ''Timiryazevsky'',
     moscow ''msk-sao-khovrino'' ''sao'' ''Khovrino'',
     moscow ''msk-sao-khoroshevsky'' ''sao'' ''Khoroshevsky'',
     moscow ''msk-svao-alekseevsky'' ''svao'' ''Alekseevsky'',
     moscow ''msk-svao-altufyevsky'' ''svao'' ''Altufyevsky'',
     moscow ''msk-svao-babushkinsky'' ''svao'' ''Babushkinsky'',
     moscow ''msk-svao-bibirevo'' ''svao'' ''Bibirevo'',
     moscow ''msk-svao-butyrsky'' ''svao'' ''Butyrsky'',
     moscow ''msk-svao-lianozovo'' ''svao'' ''Lianozovo'',
     moscow ''msk-svao-losinoostrovsky'' ''svao'' ''Losinoostrovsky'',
     moscow ''msk-svao-marfino'' ''svao'' ''Marfino'',
     moscow ''msk-svao-maryina-roshcha'' ''svao'' ''Maryina-Roshcha'',
     moscow ''msk-svao-ostankinsky'' ''svao'' ''Ostankinsky'',
     moscow ''msk-svao-otradnoe'' ''svao'' ''Otradnoe'',
     moscow ''msk-svao-rostokino'' ''svao'' ''Rostokino'',
     moscow ''msk-svao-sviblovo'' ''svao'' ''Sviblovo'',
     moscow ''msk-svao-severny'' ''svao'' ''Severny'',
     moscow ''msk-svao-severnoe-medvedkovo'' ''svao'' ''Severnoe-Medvedkovo'',
     moscow ''msk-svao-yuzhnoe-medvedkovo'' ''svao'' ''Yuzhnoe-Medvedkovo'',
     moscow ''msk-svao-yaroslavsky'' ''svao'' ''Yaroslavsky'',
     moscow ''msk-vao-bogorodskoe'' ''vao'' ''Bogorodskoe'',
     moscow ''msk-vao-veshnyaki'' ''vao'' ''Veshnyaki'',
     moscow ''msk-vao-vostochny'' ''vao'' ''Vostochny'',
     moscow ''msk-vao-vostochnoe-izmaylovo'' ''vao'' ''Vostochnoe-Izmaylovo'',
     moscow ''msk-vao-golyanovo'' ''vao'' ''Golyanovo'',
     moscow ''msk-vao-ivanovskoe'' ''vao'' ''Ivanovskoe'',
     moscow ''msk-vao-izmaylovo'' ''vao'' ''Izmaylovo'',
     moscow ''msk-vao-kosino-ukhtomsky'' ''vao'' ''Kosino-Ukhtomsky'',
     moscow ''msk-vao-metrogorodok'' ''vao'' ''Metrogorodok'',
     moscow ''msk-vao-novogireevo'' ''vao'' ''Novogireevo'',
     moscow ''msk-vao-novokosino'' ''vao'' ''Novokosino'',
     moscow ''msk-vao-perovo'' ''vao'' ''Perovo'',
     moscow ''msk-vao-preobrazhenskoe'' ''vao'' ''Preobrazhenskoe'',
     moscow ''msk-vao-severnoe-izmaylovo'' ''vao'' ''Severnoe-Izmaylovo'',
     moscow ''msk-vao-sokolinaya-gora'' ''vao'' ''Sokolinaya-Gora'',
     moscow ''msk-vao-sokolniki'' ''vao'' ''Sokolniki'',
     moscow ''msk-yuvao-vykhino-zhulebino'' ''yuvao'' ''Vykhino-Zhulebino'',
     moscow ''msk-yuvao-kapotnya'' ''yuvao'' ''Kapotnya'',
     moscow ''msk-yuvao-kuzminki'' ''yuvao'' ''Kuzminki'',
     moscow ''msk-yuvao-lefortovo'' ''yuvao'' ''Lefortovo'',
     moscow ''msk-yuvao-lyublino'' ''yuvao'' ''Lyublino'',
     moscow ''msk-yuvao-maryino'' ''yuvao'' ''Maryino'',
     moscow ''msk-yuvao-nekrasovka'' ''yuvao'' ''Nekrasovka'',
     moscow ''msk-yuvao-nizhegorodsky'' ''yuvao'' ''Nizhegorodsky'',
     moscow ''msk-yuvao-pechatniki'' ''yuvao'' ''Pechatniki'',
     moscow ''msk-yuvao-ryazansky'' ''yuvao'' ''Ryazansky'',
     moscow ''msk-yuvao-tekstilshchiki'' ''yuvao'' ''Tekstilshchiki'',
     moscow ''msk-yuvao-yuzhnoportovy'' ''yuvao'' ''Yuzhnoportovy'',
     moscow ''msk-yuao-biryulyovo-vostochnoe'' ''yuao'' ''Biryulyovo-Vostochnoe'',
     moscow ''msk-yuao-biryulyovo-zapadnoe'' ''yuao'' ''Biryulyovo-Zapadnoe'',
     moscow ''msk-yuao-brateevo'' ''yuao'' ''Brateevo'',
     moscow ''msk-yuao-danilovsky'' ''yuao'' ''Danilovsky'',
     moscow ''msk-yuao-donskoy'' ''yuao'' ''Donskoy'',
     moscow ''msk-yuao-zyablikovo'' ''yuao'' ''Zyablikovo'',
     moscow ''msk-yuao-moskvorechye-saburovo'' ''yuao'' ''Moskvorechye-Saburovo'',
     moscow ''msk-yuao-nagatino-sadovniki'' ''yuao'' ''Nagatino-Sadovniki'',
     moscow ''msk-yuao-nagatinsky-zaton'' ''yuao'' ''Nagatinsky-Zaton'',
     moscow ''msk-yuao-nagorny'' ''yuao'' ''Nagorny'',
     moscow ''msk-yuao-orekhovo-borisovo-severnoe'' ''yuao'' ''Orekhovo-Borisovo-Severnoe'',
     moscow ''msk-yuao-orekhovo-borisovo-yuzhnoe'' ''yuao'' ''Orekhovo-Borisovo-Yuzhnoe'',
     moscow ''msk-yuao-tsaritsyno'' ''yuao'' ''Tsaritsyno'',
     moscow ''msk-yuao-chertanovo-severnoe'' ''yuao'' ''Chertanovo-Severnoe'',
     moscow ''msk-yuao-chertanovo-tsentralnoe'' ''yuao'' ''Chertanovo-Tsentralnoe'',
     moscow ''msk-yuao-chertanovo-yuzhnoe'' ''yuao'' ''Chertanovo-Yuzhnoe'',
     moscow ''msk-yuzao-akademichesky'' ''yuzao'' ''Akademichesky'',
     moscow ''msk-yuzao-gagarinsky'' ''yuzao'' ''Gagarinsky'',
     moscow ''msk-yuzao-zyuzino'' ''yuzao'' ''Zyuzino'',
     moscow ''msk-yuzao-konkovo'' ''yuzao'' ''Konkovo'',
     moscow ''msk-yuzao-kotlovka'' ''yuzao'' ''Kotlovka'',
     moscow ''msk-yuzao-lomonosovsky'' ''yuzao'' ''Lomonosovsky'',
     moscow ''msk-yuzao-obruchevsky'' ''yuzao'' ''Obruchevsky'',
     moscow ''msk-yuzao-severnoe-butovo'' ''yuzao'' ''Severnoe-Butovo'',
     moscow ''msk-yuzao-teply-stan'' ''yuzao'' ''Teply-Stan'',
     moscow ''msk-yuzao-cheryomushki'' ''yuzao'' ''Cheryomushki'',
     moscow ''msk-yuzao-yuzhnoe-butovo'' ''yuzao'' ''Yuzhnoe-Butovo'',
     moscow ''msk-yuzao-yasenevo'' ''yuzao'' ''Yasenevo'',
     moscow ''msk-zao-dorogomilovo'' ''zao'' ''Dorogomilovo'',
     moscow ''msk-zao-krylatskoe'' ''zao'' ''Krylatskoe'',
     moscow ''msk-zao-kuntsevo'' ''zao'' ''Kuntsevo'',
     moscow ''msk-zao-mozhaysky'' ''zao'' ''Mozhaysky'',
     moscow ''msk-zao-novo-peredelkino'' ''zao'' ''Novo-Peredelkino'',
     moscow ''msk-zao-ochakovo-matveevskoe'' ''zao'' ''Ochakovo-Matveevskoe'',
     moscow ''msk-zao-prospekt-vernadskogo'' ''zao'' ''Prospekt-Vernadskogo'',
     moscow ''msk-zao-ramenki'' ''zao'' ''Ramenki'',
     moscow ''msk-zao-solntsevo'' ''zao'' ''Solntsevo'',
     moscow ''msk-zao-troparevo-nikulino'' ''zao'' ''Troparevo-Nikulino'',
     moscow ''msk-zao-filevsky-park'' ''zao'' ''Filevsky-Park'',
     moscow ''msk-zao-fili-davydkovo'' ''zao'' ''Fili-Davydkovo'',
     moscow ''msk-szao-kurkino'' ''szao'' ''Kurkino'',
     moscow ''msk-szao-mitino'' ''szao'' ''Mitino'',
     moscow ''msk-szao-pokrovskoe-streshnevo'' ''szao'' ''Pokrovskoe-Streshnevo'',
     moscow ''msk-szao-severnoe-tushino'' ''szao'' ''Severnoe-Tushino'',
     moscow ''msk-szao-strogino'' ''szao'' ''Strogino'',
     moscow ''msk-szao-khoroshevo-mnevniki'' ''szao'' ''Khoroshevo-Mnevniki'',
     moscow ''msk-szao-shchukino'' ''szao'' ''Shchukino'',
     moscow ''msk-szao-yuzhnoe-tushino'' ''szao'' ''Yuzhnoe-Tushino'',
     moscow ''msk-zelao-matushkino'' ''zelao'' ''Matushkino'',
     moscow ''msk-zelao-savelki'' ''zelao'' ''Savelki'',
     moscow ''msk-zelao-staroe-kryukovo'' ''zelao'' ''Staroe-Kryukovo'',
     moscow ''msk-zelao-silino'' ''zelao'' ''Silino'',
     moscow ''msk-zelao-kryukovo'' ''zelao'' ''Kryukovo'',
     moscow ''msk-nao-vnukovo'' ''nao'' ''Vnukovo'',
     moscow ''msk-nao-kommunarka'' ''nao'' ''Kommunarka'',
     moscow ''msk-nao-filimonkovsky'' ''nao'' ''Filimonkovsky'',
     moscow ''msk-nao-shcherbinka'' ''nao'' ''Shcherbinka'',
     moscow ''msk-tao-bekasovo'' ''tao'' ''Bekasovo'',
     moscow ''msk-tao-voronovo'' ''tao'' ''Voronovo'',
     moscow ''msk-tao-krasnopakhorsky'' ''tao'' ''Krasnopakhorsky'',
     moscow ''msk-tao-troitsk'' ''tao'' ''Troitsk'']"

definition NormalizeZoneID :: "string \<Rightarrow> string" where
  "NormalizeZoneID zoneID = ToLower (TrimSpace zoneID)"

definition moscowZoneSet :: "string set" where
  "moscowZoneSet = set (map zone_ID moscowZones)"

definition IsKnownMoscowZoneID :: "string \<Rightarrow> bool" where
  "IsKnownMoscowZoneID zoneID \<longleftrightarrow> NormalizeZoneID zoneID \<in> moscowZoneSet"

definition MoscowZonesCatalog :: "MoscowZone list" where
  "MoscowZonesCatalog = sort_slice (\<lambda>a b. zone_ID a < zone_ID b) moscowZones"

record CourierZone =
  cz_CourierID :: string
  ZoneID :: string
  IsPrimary :: bool
  AssignedAt :: gotime

definition CourierZone_ValidateInvariants :: "CourierZone \<Rightarrow> error list" where
  "CourierZone_ValidateInvariants z =
     (if TrimSpace (cz_CourierID z) = [] then [E ErrCourierIDRequired] else [])
     @ (let zoneID = NormalizeZoneID (ZoneID z)
        in if zoneID = [] then [E ErrCourierZoneRequired]
           else if \<not> IsKnownMoscowZoneID zoneID then [E ErrCourierZoneUnknown] else [])"

section \<open>Slots\<close>

datatype CourierSlotStatus =
    CourierSlotStatusPlanned | CourierSlotStatusActive | CourierSlotStatusCompleted
  | CourierSlotStatusCanceled | CourierSlotStatusOther string

text \<open>The empty status is \<open>CourierSlotStatusOther []\<close>.\<close>

fun CourierSlotStatus_Valid :: "CourierSlotStatus \<Rightarrow> bool" where
  "CourierSlotStatus_Valid (CourierSlotStatusOther s) = False"
| "CourierSlotStatus_Valid _ = True"

record CourierSlot =
  slot_ID :: string
  slot_CourierID :: string
  SlotStart :: gotime
  SlotEnd :: gotime
  DurationHours :: int
  slot_Status :: CourierSlotStatus
  slot_CreatedAt :: gotime
  slot_UpdatedAt :: gotime

definition CourierSlot_ValidateInvariants :: "CourierSlot \<Rightarrow> error list" where
  "CourierSlot_ValidateInvariants s =
     (if TrimSpace (slot_ID s) = [] then [E ErrCourierSlotIDRequired] else [])
     @ (if TrimSpace (slot_CourierID s) = [] then [E ErrCourierIDRequired] else [])
     @ (if IsZero (SlotStart s) \<or> IsZero (SlotEnd s) \<or> \<not> SlotEnd s > SlotStart s
        then [E ErrCourierSlotRangeInvalid] else [])
     @ (if DurationHours s \<notin> {4, 8, 12} then [E ErrCourierSlotDurationInvalid] else [])
     @ (if \<not> IsZero (SlotStart s) \<and> \<not> IsZero (SlotEnd s) \<and> DurationHours s > 0
           \<and> Sub (SlotEnd s) (SlotStart s) \<noteq> int64 (DurationHours s * hour)
        then [E ErrCourierSlotDurationMismatch] else [])
     @ (if slot_Status s = CourierSlotStatusOther [] then []
        else if \<not> CourierSlotStatus_Valid (slot_Status s) then [E ErrCourierSlotStatusInvalid] else [])"

section \<open>Ratings\<close>

definition CourierRatingMinScore :: int where "CourierRatingMinScore = 1"
definition CourierRatingMaxScore :: int where "CourierRatingMaxScore = 5"

datatype CourierRatingTag =
    CourierRatingTagOnTime | CourierRatingTagPolite | CourierRatingTagCarefulHandling
  | CourierRatingTagDelayedDelivery | CourierRatingTagRudeBehavior | CourierRatingTagDamagedOrder
  | CourierRatingTagOtherIssue | CourierRatingTagOther string

fun CourierRatingTag_Valid :: "CourierRatingTag \<Rightarrow> bool" where
  "CourierRatingTag_Valid (CourierRatingTagOther s) = False"
| "CourierRatingTag_Valid _ = True"

definition IsPositive :: "CourierRatingTag \<Rightarrow> bool" where
  "IsPositive t \<longleftrightarrow> t \<in> {CourierRatingTagOnTime, CourierRatingTagPolite, CourierRatingTagCarefulHandling}"

definition IsNegative :: "CourierRatingTag \<Rightarrow> bool" where
  "IsNegative t \<longleftrightarrow> t \<in> {CourierRatingTagDelayedDelivery, CourierRatingTagRudeBehavior,
     CourierRatingTagDamagedOrder, CourierRatingTagOtherIssue}"

record CourierRating =
  rating_ID :: string
  rating_CourierID :: string
  Score :: int
  Tags :: "CourierRatingTag list"
  Comment :: string
  rating_CreatedAt :: gotime

text \<open>The loop over the tags: the errors so far, the tags seen and whether a negative one was.\<close>

fun tags_loop :: "int \<Rightarrow> CourierRatingTag list \<Rightarrow> error list \<Rightarrow> CourierRatingTag list \<Rightarrow> bool
    \<Rightarrow> error list \<times> bool" where
  "tags_loop score [] errs seen hasNegativeTag = (errs, hasNegativeTag)"
| "tags_loop score (tag # tags) errs seen hasNegativeTag =
     (if \<not> CourierRatingTag_Valid tag then
        tags_loop score tags (errs @ [E ErrCourierRatingTagInvalid]) seen hasNegativeTag
      else if tag \<in> set seen then
        tags_loop score tags (errs @ [E ErrCourierRatingTagDuplicate]) seen hasNegativeTag
      else if IsNegative tag then
        tags_loop score tags
          (errs @ (if score = CourierRatingMaxScore then [E ErrCourierRatingPositiveTagsOnly] else []))
          (tag # seen) True
      else tags_loop score tags errs (tag # seen) hasNegativeTag)"

definition CourierRating_ValidateInvariants :: "CourierRating \<Rightarrow> error list" where
  "CourierRating_ValidateInvariants r =
     (let errs = (if TrimSpace (rating_ID r) = [] then [E ErrCourierRatingIDRequired] else [])
               @ (if TrimSpace (rating_CourierID r) = [] then [E ErrCourierIDRequired] else [])
               @ (if Score r < CourierRatingMinScore \<or> Score r > CourierRatingMaxScore
                  then [E ErrCourierRatingScoreInvalid] else []);
          (errs', hasNegativeTag) = tags_loop (Score r) (Tags r) errs [] False
      in errs' @ (if Score r < 3 \<and> \<not> hasNegativeTag then [E ErrCourierRatingReasonsRequired] else []))"

record CourierRatingSummary =
  sum_CourierID :: string
  RatingsCount :: int
  AverageScore :: rat
  LowRatingsCount :: int
  Score1Count :: int
  Score2Count :: int
  Score3Count :: int
  Score4Count :: int
  Score5Count :: int
  OnTimeCount :: int
  PoliteCount :: int
  CarefulCount :: int
  DelayedCount :: int
  RudeCount :: int
  DamagedCount :: int
  OtherIssueCount :: int
  LastRatingAt :: gotime


section \<open>Phone numbers\<close>

definition is_digit :: "char \<Rightarrow> bool" where
  "is_digit r \<longleftrightarrow> CHR ''0'' \<le> r \<and> r \<le> CHR ''9''"

definition separator :: "char \<Rightarrow> bool" where
  "separator r \<longleftrightarrow> r \<in> {CHR '' '', CHR ''-'', CHR ''('', CHR '')'', CHR 0x09}"

lemma phone_loop_Suc:
  "phone_loop (Suc n) rs ds = (if list_all (\<lambda>r. is_digit r \<or> separator r) rs then Inr (ds @ filter is_digit rs)
     else Inl (E ErrCourierPhoneFormatInvalid))"
  by (induction rs arbitrary: n ds) (auto simp: is_digit_def separator_def)

text \<open>The numbers that are accepted, and the digits that are kept.\<close>

definition phone_shape :: "string \<Rightarrow> bool" where
  "phone_shape p \<longleftrightarrow> (case p of [] \<Rightarrow> False | c # cs \<Rightarrow>
     (is_digit c \<or> separator c \<or> c = CHR ''+'') \<and> list_all (\<lambda>r. is_digit r \<or> separator r) cs)"

lemma phone_loop_0:
  "p \<noteq> [] \<Longrightarrow> phone_loop 0 p [] = (if phone_shape p then Inr (filter is_digit p)
     else Inl (E ErrCourierPhoneFormatInvalid))"
  by (cases p) (auto simp: phone_shape_def phone_loop_Suc is_digit_def separator_def)

lemma phone_shape_Nil [simp]: "\<not> phone_shape []"
  by (simp add: phone_shape_def)

lemma NormalizePhone_Inr:
  "NormalizePhone p = Inr q \<longleftrightarrow> phone_shape (TrimSpace p)
     \<and> 11 \<le> length (filter is_digit (TrimSpace p)) \<and> length (filter is_digit (TrimSpace p)) \<le> 15
     \<and> q = ''+'' @ filter is_digit (TrimSpace p)"
  by (cases "TrimSpace p = []")
    (auto simp: NormalizePhone_def Let_def phone_loop_0 minPhoneDigits_def maxPhoneDigits_def split: if_splits)

lemma digits_not_space: "p \<in> set space_runes \<Longrightarrow> p \<noteq> [] \<and> \<not> is_digit (hd p) \<and> \<not> is_digit (last p) \<and> hd p \<noteq> CHR ''+''"
  by (auto simp: space_runes_def is_digit_def less_eq_char_def)

lemma TrimSpace_fixed:
  assumes "\<And>p. p \<in> set space_runes \<Longrightarrow> \<not> prefix p x" and "\<And>p. p \<in> set space_runes \<Longrightarrow> \<not> suffix p x"
  shows "TrimSpace x = x"
proof -
  have "strip space_runes x = x" by (rule strip_fixed) (rule assms(1))
  moreover have "strip (map rev space_runes) (rev x) = rev x"
    by (rule strip_fixed) (use assms(2) in \<open>auto simp: suffix_to_prefix\<close>)
  ultimately show ?thesis by (simp add: TrimSpace_def)
qed

lemma TrimSpace_phone:
  assumes "ds \<noteq> []" and "list_all is_digit ds" shows "TrimSpace (''+'' @ ds) = ''+'' @ ds"
proof (rule TrimSpace_fixed)
  fix p assume p: "p \<in> set space_runes"
  show "\<not> prefix p (''+'' @ ds)"
    using digits_not_space [OF p] by (cases p) auto
  show "\<not> suffix p (''+'' @ ds)"
  proof
    assume "suffix p (''+'' @ ds)"
    then obtain zs where "''+'' @ ds = zs @ p" by (auto simp: suffix_def)
    then have "last (''+'' @ ds) = last p" using digits_not_space [OF p] by (metis last_appendR)
    moreover have "last ds \<in> set ds" using assms(1) by (rule last_in_set)
    ultimately show False using digits_not_space [OF p] assms by (auto simp: list_all_iff)
  qed
qed

lemma canonical_phone:
  assumes "NormalizePhone p = Inr q"
  shows "\<exists>ds. q = ''+'' @ ds \<and> list_all is_digit ds \<and> 11 \<le> length ds \<and> length ds \<le> 15"
    and "TrimSpace q = q" and "NormalizePhone q = Inr q"
proof -
  let ?ds = "filter is_digit (TrimSpace p)"
  from assms have q: "q = ''+'' @ ?ds" "11 \<le> length ?ds" "length ?ds \<le> 15" by (simp_all add: NormalizePhone_Inr)
  have ds: "list_all is_digit ?ds" by (simp add: list_all_iff)
  then show "\<exists>ds. q = ''+'' @ ds \<and> list_all is_digit ds \<and> 11 \<le> length ds \<and> length ds \<le> 15" using q by blast
  have "?ds \<noteq> []" using q(2) by (cases ?ds) simp_all
  then show "TrimSpace q = q" unfolding q(1) by (rule TrimSpace_phone [OF _ ds])
  moreover have "\<not> is_digit (CHR ''+'')" by (simp add: is_digit_def less_eq_char_def)
  ultimately show "NormalizePhone q = Inr q"
    using q ds by (simp add: NormalizePhone_Inr phone_shape_def list_all_iff)
qed

text \<open>C39. A normalised phone number is a plus sign and 11 to 15 digits, and normalising it again gives the
  same number: the phone index sees one key per number.\<close>

theorem NormalizePhone_canonical:
  assumes "NormalizePhone p = Inr q"
  shows "\<exists>ds. q = ''+'' @ ds \<and> list_all is_digit ds \<and> 11 \<le> length ds \<and> length ds \<le> 15
    \<and> NormalizePhone q = Inr q"
  using canonical_phone [OF assms] by blast

theorem NormalizePhone_canonical_witness:
  "NormalizePhone '' +7 (999) 123-45-67 '' = Inr ''+79991234567''
     \<and> NormalizePhone ''+79991234567'' = Inr ''+79991234567''"
proof -
  have "NormalizePhone '' +7 (999) 123-45-67 '' = Inr ''+79991234567''" by code_simp
  with NormalizePhone_canonical [OF this] show ?thesis by blast
qed

section \<open>Night shifts\<close>

lemma clock_at_hour:
  assumes "0 \<le> h" and "h < 24"
  shows "Hour l = h \<and> Minute l = 0 \<and> Second l = 0 \<and> Nanosecond l = 0 \<longleftrightarrow> l mod (24 * hour) = h * hour"
proof
  assume parts: "Hour l = h \<and> Minute l = 0 \<and> Second l = 0 \<and> Nanosecond l = 0"
  define s m k where "s = l div second" and "m = s div 60" and "k = m div 60"
  have "l div minute = m" using zdiv_zmult2_eq [of 60 l second] by (simp add: m_def s_def mult.commute)
  moreover have "l div hour = k"
    using zdiv_zmult2_eq [of 3600 l second] zdiv_zmult2_eq [of 60 s 60] by (simp add: m_def k_def s_def mult.commute)
  ultimately have mods: "l mod second = 0" "s mod 60 = 0" "m mod 60 = 0" "k mod 24 = h"
    using parts unfolding Hour_def Minute_def Second_def Nanosecond_def s_def by simp_all
  have "l = s * second" "s = m * 60" "m = k * 60" "k = (k div 24) * 24 + h"
    using div_mult_mod_eq [of l second] div_mult_mod_eq [of s 60] div_mult_mod_eq [of m 60]
      div_mult_mod_eq [of k 24] unfolding mods by (simp_all only: s_def m_def k_def add_0_right)
  then have "l = k * hour" and "k = (k div 24) * 24 + h" by simp_all
  then have "l = h * hour + (k div 24) * (24 * hour)" by (simp add: algebra_simps)
  moreover have "h * hour mod (24 * hour) = h * hour" using assms by (simp add: mod_pos_pos_trivial)
  ultimately show "l mod (24 * hour) = h * hour" by (metis mod_mult_self1)
next
  assume "l mod (24 * hour) = h * hour"
  then have l': "l = (24 * (l div (24 * hour)) + h) * hour"
    using div_mult_mod_eq [of l "24 * hour"] by (simp add: algebra_simps)
  have "(24 * d + h) mod 24 = h" for d using assms by simp
  with l' obtain n where l: "l = n * hour" and n: "n mod 24 = h" by blast
  have "l div minute = n * 60" "l div second = n * 3600" "l div hour = n" unfolding l by simp_all
  moreover have "n * hour mod second = 0" by simp
  ultimately show "Hour l = h \<and> Minute l = 0 \<and> Second l = 0 \<and> Nanosecond l = 0"
    using n unfolding l by (simp add: Hour_def Minute_def Second_def Nanosecond_def)
qed

text \<open>A slot is a night shift exactly when it starts at 20:00 Moscow time, to the nanosecond, and ends
  twelve hours later: the checks of the end's hour, minute, second and nanosecond add nothing.\<close>

theorem IsNightShiftSlot_iff:
  "IsNightShiftSlot t u \<longleftrightarrow> t \<noteq> 0 \<and> u \<noteq> 0 \<and> u = t + 12 * hour \<and> (t + 3 * hour) mod (24 * hour) = 20 * hour"
proof -
  have sub: "Sub (in_msk u) (in_msk t) = 12 * hour \<longleftrightarrow> u = t + 12 * hour"
    by (auto simp: Sub_def in_msk_def split: if_splits)
  have msk: "in_msk t = t + 3 * hour" for t by (simp add: in_msk_def moscowUTCOffsetSeconds_def)
  have "(t + 12 * hour + 3 * hour) mod (24 * hour) = 8 * hour" if "(t + 3 * hour) mod (24 * hour) = 20 * hour"
    using that mod_add_eq [of "t + 3 * hour" "24 * hour" "12 * hour"] by (simp add: algebra_simps)
  then show ?thesis
    using clock_at_hour [of 20 "in_msk t"] clock_at_hour [of 8 "in_msk u"] sub
    by (auto simp: IsNightShiftSlot_def Let_def IsZero_def msk)
qed


section \<open>The zone catalogue\<close>

lemma known_zone: "NormalizeZoneID z = zone_ID m \<Longrightarrow> m \<in> set moscowZones \<Longrightarrow> IsKnownMoscowZoneID z"
  by (simp add: IsKnownMoscowZoneID_def moscowZoneSet_def)

lemma catalog_perm: "mset MoscowZonesCatalog = mset moscowZones"
  unfolding MoscowZonesCatalog_def by (rule insertion.srt_perm)

section \<open>Valid slots and ratings\<close>

lemma CourierSlot_valid_iff:
  "CourierSlot_ValidateInvariants s = [] \<longleftrightarrow>
     TrimSpace (slot_ID s) \<noteq> [] \<and> TrimSpace (slot_CourierID s) \<noteq> [] \<and> SlotStart s \<noteq> 0 \<and> SlotEnd s \<noteq> 0
     \<and> DurationHours s \<in> {4, 8, 12} \<and> SlotEnd s = SlotStart s + DurationHours s * hour
     \<and> (slot_Status s = CourierSlotStatusOther [] \<or> CourierSlotStatus_Valid (slot_Status s))"
  by (auto simp: CourierSlot_ValidateInvariants_def IsZero_def Sub_def int64_def split: if_splits)

lemma tags_loop_fst:
  "fst (tags_loop score tags errs seen neg) = [] \<longleftrightarrow>
     errs = [] \<and> list_all CourierRatingTag_Valid tags \<and> distinct tags \<and> set tags \<inter> set seen = {}
     \<and> (score = 5 \<longrightarrow> list_all (\<lambda>t. \<not> IsNegative t) tags)"
  by (induction score tags errs seen neg rule: tags_loop.induct) (auto simp: CourierRatingMaxScore_def)

lemma tags_loop_snd:
  "list_all CourierRatingTag_Valid tags \<Longrightarrow> distinct tags \<Longrightarrow> set tags \<inter> set seen = {} \<Longrightarrow>
   snd (tags_loop score tags errs seen neg) \<longleftrightarrow> neg \<or> list_ex IsNegative tags"
  by (induction score tags errs seen neg rule: tags_loop.induct) auto

text \<open>A rating is valid exactly when its score is in range, its tags are known and different, the best
  score has no negative tag and a low one has at least one.\<close>

lemma CourierRating_valid_iff:
  "CourierRating_ValidateInvariants r = [] \<longleftrightarrow>
     TrimSpace (rating_ID r) \<noteq> [] \<and> TrimSpace (rating_CourierID r) \<noteq> [] \<and> 1 \<le> Score r \<and> Score r \<le> 5
     \<and> list_all CourierRatingTag_Valid (Tags r) \<and> distinct (Tags r)
     \<and> (Score r = 5 \<longrightarrow> list_all (\<lambda>t. \<not> IsNegative t) (Tags r)) \<and> (Score r < 3 \<longrightarrow> list_ex IsNegative (Tags r))"
  by (auto simp: CourierRating_ValidateInvariants_def case_prod_beta Let_def tags_loop_fst tags_loop_snd
      CourierRatingMinScore_def CourierRatingMaxScore_def split: if_splits)

lemma Courier_valid_iff:
  "Courier_ValidateInvariants c = [] \<longleftrightarrow>
     TrimSpace (courier_ID c) \<noteq> [] \<and> (\<exists>q. NormalizePhone (Phone c) = Inr q) \<and> TrimSpace (FirstName c) \<noteq> []
     \<and> TrimSpace (LastName c) \<noteq> [] \<and> VehicleType_Valid (courier_VehicleType c)"
  by (auto simp: Courier_ValidateInvariants_def NormalizePhone_def Let_def split: sum.splits)

end
