(* ===== verification/Float64.thy ===== *)
theory Float64
  imports Complex_Main "HOL-Library.Log_Nat"
begin

text \<open>
  \<open>float64\<close> arithmetic: the result of an operation is the exact result rounded to 53 significant bits, to the nearest
  such number, ties to the one with an even last bit (IEEE 754, round to nearest even). A \<open>float64\<close> is the rational it
  stands for, \<open>rnd64\<close> is the rounding, and \<open>float64 x\<close> says that \<open>x\<close> is one of these numbers.

  The range of the exponent is not bounded: there are no infinities and no subnormal numbers. The numbers of the program
  (milliseconds, rates, averages of scores, delays) stay far from both ends. Each operation is rounded by itself; the Go
  compiler does so on amd64 (on other architectures it may fuse a product with a following sum).
\<close>

section \<open>Rounding to an integer\<close>

definition rint :: "rat \<Rightarrow> int" where
  "rint y = (let f = \<lfloor>y\<rfloor>; r = y - of_int f in
     if r < 1 / 2 then f else if r > 1 / 2 then f + 1 else if even f then f else f + 1)"

lemma rint_of_int [simp]: "rint (of_int k) = k"
  by (simp add: rint_def)

lemma rint_error: "\<bar>of_int (rint y) - y\<bar> \<le> 1 / 2"
proof -
  have "0 \<le> y - of_int \<lfloor>y\<rfloor>" "y - of_int \<lfloor>y\<rfloor> < 1" by linarith+
  then show ?thesis by (simp add: rint_def Let_def abs_le_iff)
qed

lemma rint_mono:
  assumes "x \<le> y"
  shows "rint x \<le> rint y"
proof (cases "\<lfloor>x\<rfloor> = \<lfloor>y\<rfloor>")
  case True
  then show ?thesis using assms by (auto simp: rint_def Let_def)
next
  case False
  then have "\<lfloor>x\<rfloor> + 1 \<le> \<lfloor>y\<rfloor>" using floor_mono [OF assms] by linarith
  moreover have "rint x \<le> \<lfloor>x\<rfloor> + 1" "\<lfloor>y\<rfloor> \<le> rint y" by (auto simp: rint_def Let_def)
  ultimately show ?thesis by linarith
qed

lemma rint_minus: "rint (- y) = - rint y"
proof (cases "of_int \<lfloor>y\<rfloor> = y")
  case True
  then show ?thesis by (metis rint_of_int of_int_minus)
next
  case False
  then have "of_int \<lfloor>y\<rfloor> < y" by (simp add: order_less_le)
  then have "\<lfloor>- y\<rfloor> = - \<lfloor>y\<rfloor> - 1" by (intro floor_unique) (simp_all, linarith+)
  then show ?thesis by (auto simp: rint_def Let_def)
qed

section \<open>The exponent of a number\<close>

text \<open>The bits of numerator and denominator give the exponent up to one.\<close>

definition exponent :: "rat \<Rightarrow> int" where
  "exponent x = (let (n, d) = quotient_of \<bar>x\<bar>; e = bitlen n - bitlen d in
     if 2 powi e \<le> \<bar>x\<bar> then e else e - 1)"

lemma powi_le [simp]: "(2 :: rat) powi i \<le> 2 powi j \<longleftrightarrow> i \<le> j"
  by (meson not_le one_less_numeral_iff power_int_increasing power_int_strict_increasing semiring_norm(76) order_less_imp_le)

lemma powi_less [simp]: "(2 :: rat) powi i < 2 powi j \<longleftrightarrow> i < j"
  by (meson not_le powi_le)

lemma powi_add: "(2 :: rat) powi (i + j) = 2 powi i * 2 powi j"
  by (simp add: power_int_add)

lemma powi_split: "(2 :: rat) powi i = 2 powi (i - j) * 2 powi j"
  by (simp flip: powi_add)

lemma bitlen_powi:
  assumes "0 < n"
  shows "2 powi (bitlen n - 1) \<le> (of_int n :: rat)" and "(of_int n :: rat) < 2 powi bitlen n"
proof -
  have "2 ^ nat (bitlen n - 1) \<le> n" "n < 2 ^ nat (bitlen n)" using bitlen_bounds [OF assms] by simp_all
  then have "(of_int (2 ^ nat (bitlen n - 1)) :: rat) \<le> of_int n" "(of_int n :: rat) < of_int (2 ^ nat (bitlen n))"
    by (simp_all only: of_int_le_iff of_int_less_iff)
  moreover have "bitlen n \<noteq> 0" using assms by (simp add: bitlen_eq_zero_iff)
  then have "1 \<le> bitlen n" using bitlen_nonneg [of n] by linarith
  ultimately show "2 powi (bitlen n - 1) \<le> (of_int n :: rat)" "(of_int n :: rat) < 2 powi bitlen n"
    by (simp_all add: power_int_nonneg_exp)
qed

lemma exponent_bounds:
  assumes "x \<noteq> 0"
  shows "2 powi exponent x \<le> \<bar>x\<bar>" and "\<bar>x\<bar> < 2 powi (exponent x + 1)"
proof -
  obtain n d where q: "quotient_of \<bar>x\<bar> = (n, d)" by fastforce
  have d: "0 < d" using quotient_of_denom_pos [OF q] .
  have x: "\<bar>x\<bar> = of_int n / of_int d" using quotient_of_div [OF q] .
  moreover have "0 < \<bar>x\<bar>" using assms by simp
  ultimately have n: "0 < n" using d by (simp add: zero_less_divide_iff)
  let ?e = "bitlen n - bitlen d"
  have lo: "2 powi (?e - 1) < \<bar>x\<bar>"
  proof -
    have "2 powi (?e - 1) * (of_int d :: rat) < 2 powi (?e - 1) * 2 powi bitlen d"
      using bitlen_powi(2) [OF d] by simp
    also have "\<dots> = 2 powi (bitlen n - 1)" by (simp flip: powi_add)
    also have "\<dots> \<le> of_int n" by (rule bitlen_powi(1) [OF n])
    finally show ?thesis unfolding x using d by (simp add: less_divide_eq)
  qed
  have hi: "\<bar>x\<bar> < 2 powi (?e + 1)"
  proof -
    have "of_int n < (2 :: rat) powi bitlen n" by (rule bitlen_powi(2) [OF n])
    also have "\<dots> = 2 powi (?e + 1) * 2 powi (bitlen d - 1)" by (simp flip: powi_add)
    also have "\<dots> \<le> 2 powi (?e + 1) * of_int d" using bitlen_powi(1) [OF d] by (intro mult_left_mono) simp_all
    finally show ?thesis unfolding x using d by (simp add: divide_less_eq)
  qed
  show "2 powi exponent x \<le> \<bar>x\<bar>" and "\<bar>x\<bar> < 2 powi (exponent x + 1)"
    using lo hi by (auto simp: exponent_def q Let_def)
qed

lemma exponent_unique:
  assumes "2 powi e \<le> \<bar>x\<bar>" and "\<bar>x\<bar> < 2 powi (e + 1)"
  shows "exponent x = e"
proof -
  have "(0 :: rat) < 2 powi e" by simp
  then have "0 < \<bar>x\<bar>" using assms(1) by (rule less_le_trans)
  then have "x \<noteq> 0" by simp
  from exponent_bounds [OF this] assms have "e < exponent x + 1" "exponent x < e + 1"
    by (meson le_less_trans powi_less)+
  then show ?thesis by simp
qed

lemma exponent_minus [simp]: "exponent (- x) = exponent x"
  by (simp add: exponent_def)

section \<open>Rounding\<close>

definition ulp :: "rat \<Rightarrow> rat" where
  "ulp x = 2 powi (exponent x - 52)"

definition rnd64 :: "rat \<Rightarrow> rat" where
  "rnd64 x = (if x = 0 then 0 else of_int (rint (x / ulp x)) * ulp x)"

definition float64 :: "rat \<Rightarrow> bool" where
  "float64 x \<longleftrightarrow> rnd64 x = x"

lemma ulp_pos [simp]: "0 < ulp x"
  by (simp add: ulp_def)

lemma rnd64_0 [simp]: "rnd64 0 = 0"
  by (simp add: rnd64_def)

lemma rnd64_minus: "rnd64 (- x) = - rnd64 x"
  by (simp add: rnd64_def ulp_def rint_minus)

text \<open>The integers that \<open>rnd64\<close> scales have 53 bits.\<close>

lemma scaled_bounds:
  assumes "0 < x"
  shows "2 ^ 52 \<le> x / ulp x" and "x / ulp x < 2 ^ 53"
proof -
  have "2 powi exponent x \<le> x" "x < 2 powi (exponent x + 1)" using exponent_bounds [of x] assms by simp_all
  moreover have "2 powi exponent x = 2 ^ 52 * ulp x" "2 powi (exponent x + 1) = 2 ^ 53 * ulp x"
    unfolding ulp_def using powi_split [of "exponent x" "exponent x - 52"] powi_split [of "exponent x + 1" "exponent x - 52"]
    by simp_all
  ultimately show "2 ^ 52 \<le> x / ulp x" "x / ulp x < 2 ^ 53" by (simp_all add: le_divide_eq divide_less_eq)
qed

lemma scaled_rint:
  assumes "0 < x"
  shows "2 ^ 52 \<le> rint (x / ulp x)" and "rint (x / ulp x) \<le> 2 ^ 53"
proof -
  show "2 ^ 52 \<le> rint (x / ulp x)"
    using rint_mono [of "of_int (2 ^ 52)" "x / ulp x", unfolded rint_of_int] scaled_bounds(1) [OF assms] by simp
  show "rint (x / ulp x) \<le> 2 ^ 53"
    using rint_mono [of "x / ulp x" "of_int (2 ^ 53)", unfolded rint_of_int] scaled_bounds(2) [OF assms] by simp
qed

lemma rnd64_range:
  assumes "0 < x"
  shows "2 powi exponent x \<le> rnd64 x" and "rnd64 x \<le> 2 powi (exponent x + 1)"
proof -
  have e: "2 powi exponent x = of_int (2 ^ 52) * ulp x" "2 powi (exponent x + 1) = of_int (2 ^ 53) * ulp x"
    unfolding ulp_def using powi_split [of "exponent x" "exponent x - 52"] powi_split [of "exponent x + 1" "exponent x - 52"]
    by simp_all
  have "(of_int (2 ^ 52) :: rat) \<le> of_int (rint (x / ulp x))" "of_int (rint (x / ulp x)) \<le> (of_int (2 ^ 53) :: rat)"
    using scaled_rint [OF assms] by (simp_all only: of_int_le_iff)
  then show "2 powi exponent x \<le> rnd64 x" "rnd64 x \<le> 2 powi (exponent x + 1)"
    unfolding e using assms by (simp_all add: rnd64_def mult_right_mono)
qed

lemma rnd64_pos: "0 < x \<Longrightarrow> 0 < rnd64 x"
  using rnd64_range(1) [of x] by (meson less_le_trans zero_less_numeral zero_less_power_int)

lemma rnd64_mono_pos:
  assumes "0 < x" and "x \<le> y"
  shows "rnd64 x \<le> rnd64 y"
proof (cases "exponent x = exponent y")
  case True
  then have "ulp x = ulp y" by (simp add: ulp_def)
  then show ?thesis
    using assms rint_mono [of "x / ulp y" "y / ulp y"] ulp_pos [of y] by (simp add: rnd64_def divide_le_cancel)
next
  case False
  have "2 powi exponent x \<le> x" "y < 2 powi (exponent y + 1)" using exponent_bounds [of x] exponent_bounds [of y] assms by simp_all
  then have "(2 :: rat) powi exponent x < 2 powi (exponent y + 1)" using assms(2) by linarith
  then have "exponent x + 1 \<le> exponent y" using False by simp
  then have "(2 :: rat) powi (exponent x + 1) \<le> 2 powi exponent y" by simp
  then show ?thesis
    using rnd64_range(2) [of x] rnd64_range(1) [of y] assms by linarith
qed

lemma rnd64_mono:
  assumes "x \<le> y"
  shows "rnd64 x \<le> rnd64 y"
proof -
  consider "0 < x" | "y < 0" | "x \<le> 0" "0 \<le> y" by linarith
  then show ?thesis
  proof cases
    case 2
    then show ?thesis using rnd64_mono_pos [of "- y" "- x"] assms by (simp add: rnd64_minus)
  next
    case 3
    then have "rnd64 x \<le> 0" using rnd64_pos [of "- x"] by (cases "x = 0") (simp_all add: rnd64_minus)
    moreover have "0 \<le> rnd64 y" using 3 rnd64_pos [of y] by (cases "y = 0") simp_all
    ultimately show ?thesis by linarith
  qed (rule rnd64_mono_pos, use assms in auto)
qed

lemma rnd64_nonneg: "0 \<le> x \<Longrightarrow> 0 \<le> rnd64 x"
  using rnd64_mono [of 0 x] by simp

text \<open>The relative error is at most \<open>2\<^sup>-\<^sup>5\<^sup>3\<close>.\<close>

lemma rnd64_error: "\<bar>rnd64 x - x\<bar> \<le> \<bar>x\<bar> / 2 ^ 53"
proof (cases "x = 0")
  case False
  have "rnd64 x - x = (of_int (rint (x / ulp x)) - x / ulp x) * ulp x"
    using False ulp_pos [of x, THEN less_imp_neq] by (simp add: rnd64_def left_diff_distrib)
  then have "\<bar>rnd64 x - x\<bar> = \<bar>of_int (rint (x / ulp x)) - x / ulp x\<bar> * ulp x"
    by (simp add: abs_mult abs_of_pos [OF ulp_pos])
  also have "\<dots> \<le> 1 / 2 * ulp x"
    by (rule mult_right_mono [OF rint_error less_imp_le [OF ulp_pos]])
  also have "1 / 2 * ulp x = 2 powi exponent x / 2 ^ 53"
    unfolding ulp_def using powi_split [of "exponent x" "exponent x - 52"] by simp
  also have "\<dots> \<le> \<bar>x\<bar> / 2 ^ 53" using exponent_bounds(1) [OF False] by (simp add: divide_right_mono)
  finally show ?thesis .
qed simp

text \<open>Numbers of 53 bits are not changed.\<close>

lemma float64_I_pos:
  assumes "0 < k" and "k \<le> 2 ^ 53"
  shows "float64 (of_int k * 2 powi j)"
proof -
  let ?x = "of_int k * 2 powi j :: rat"
  have pos: "0 < ?x" using assms(1) by simp
  have scaled: "\<exists>z. ?x / ulp ?x = of_int z"
  proof (cases "k = 2 ^ 53")
    case True
    then have "?x = 2 powi (53 + j)" by (simp add: powi_add)
    moreover from this have "exponent ?x = 53 + j" by (intro exponent_unique) simp_all
    ultimately have "?x / ulp ?x = 2 powi (53 + j - (53 + j - 52))"
      unfolding ulp_def by (subst power_int_diff) simp_all
    then show ?thesis by (intro exI [of _ "2 ^ 52"]) simp
  next
    case False
    then have "(of_int k :: rat) < of_int (2 ^ 53)" using assms(2) by (simp only: of_int_less_iff)
    then have "?x < 2 powi (53 + j)" by (simp add: powi_add)
    moreover have "2 powi exponent ?x \<le> ?x" using exponent_bounds(1) [of ?x] pos assms(1) by (simp add: abs_of_pos)
    ultimately have "(2 :: rat) powi exponent ?x < 2 powi (53 + j)" by (rule le_less_trans [rotated])
    then have "0 \<le> j - (exponent ?x - 52)" by simp
    then have "?x / ulp ?x = of_int (k * 2 ^ nat (j - (exponent ?x - 52)))"
      using power_int_diff [of "2 :: rat" j "exponent ?x - 52"] by (simp add: ulp_def power_int_nonneg_exp)
    then show ?thesis by blast
  qed
  then obtain z where "?x / ulp ?x = of_int z" by blast
  moreover have "?x \<noteq> 0" using assms(1) by simp
  ultimately have "rnd64 ?x = of_int z * ulp ?x" by (simp only: rnd64_def if_False rint_of_int)
  also have "\<dots> = ?x"
    unfolding \<open>?x / ulp ?x = of_int z\<close> [symmetric] using ulp_pos [of ?x, THEN less_imp_neq] by simp
  finally show ?thesis by (simp add: float64_def)
qed

lemma float64_minus: "float64 (- x) = float64 x"
  by (simp add: float64_def rnd64_minus)

lemma float64_I:
  assumes "\<bar>k\<bar> \<le> 2 ^ 53"
  shows "float64 (of_int k * 2 powi j)"
proof -
  consider "0 < k" | "k = 0" | "0 < - k" by linarith
  then show ?thesis
  proof cases
    case 3
    then show ?thesis using float64_I_pos [of "- k" j] assms float64_minus [of "of_int k * 2 powi j"] by simp
  qed (use float64_I_pos [of k j] assms in \<open>auto simp: float64_def\<close>)
qed

lemma float64_int: "\<bar>k\<bar> \<le> 2 ^ 53 \<Longrightarrow> float64 (of_int k)"
  using float64_I [of k 0] by simp

lemma float64_nat: "n \<le> 2 ^ 53 \<Longrightarrow> float64 (of_nat n)"
  using float64_int [of "int n"] by simp

text \<open>Every rounded number has 53 bits, so rounding is idempotent.\<close>

lemma rnd64_form: "\<exists>k j. rnd64 x = of_int k * 2 powi j \<and> \<bar>k\<bar> \<le> 2 ^ 53"
proof -
  have pos: "\<exists>k j. rnd64 x = of_int k * 2 powi j \<and> \<bar>k\<bar> \<le> 2 ^ 53" if "0 < x" for x
    using scaled_rint [OF that] that
    by (intro exI [of _ "rint (x / ulp x)"] exI [of _ "exponent x - 52"]) (simp add: rnd64_def ulp_def)
  consider "0 < x" | "x = 0" | "0 < - x" by linarith
  then show ?thesis
  proof cases
    case 2
    then show ?thesis by (intro exI [of _ 0]) simp
  next
    case 3
    from pos [OF this] obtain k j where "rnd64 (- x) = of_int k * 2 powi j" "\<bar>k\<bar> \<le> 2 ^ 53" by blast
    then show ?thesis by (intro exI [of _ "- k"] exI [of _ j]) (simp add: rnd64_minus)
  qed (rule pos)
qed

lemma float64_rnd64 [simp]: "float64 (rnd64 x)"
  using rnd64_form [of x] float64_I by metis

lemma float64_form: "float64 x \<Longrightarrow> \<exists>k j. x = of_int k * 2 powi j \<and> \<bar>k\<bar> \<le> 2 ^ 53"
  using rnd64_form [of x] by (simp add: float64_def)

lemma rnd64_le: "x \<le> y \<Longrightarrow> float64 y \<Longrightarrow> rnd64 x \<le> y"
  using rnd64_mono [of x y] by (simp add: float64_def)

lemma rnd64_ge: "x \<le> y \<Longrightarrow> float64 x \<Longrightarrow> x \<le> rnd64 y"
  using rnd64_mono [of x y] by (simp add: float64_def)

section \<open>Fractions and interpolation\<close>

lemma fraction_float64:
  assumes "float64 r" and "0 \<le> r"
  shows "float64 (r - of_int \<lfloor>r\<rfloor>)" and "r - of_int \<lfloor>r\<rfloor> \<le> 1 - 1 / 2 ^ 53"
proof -
  obtain k j where r: "r = of_int k * 2 powi j" and k: "\<bar>k\<bar> \<le> 2 ^ 53" using float64_form [OF assms(1)] by blast
  have pos: "\<not> (2 :: rat) powi j \<le> 0" unfolding not_le by simp
  have k0: "0 \<le> k" using assms(2) pos unfolding r zero_le_mult_iff by auto
  show "float64 (r - of_int \<lfloor>r\<rfloor>)" and "r - of_int \<lfloor>r\<rfloor> \<le> 1 - 1 / 2 ^ 53"
  proof (atomize (full), cases "0 \<le> j")
    case True
    then have "r = of_int (k * 2 ^ nat j)" by (simp add: r power_int_nonneg_exp)
    then have "r - of_int \<lfloor>r\<rfloor> = 0" by (simp only: floor_of_int diff_self)
    then show "float64 (r - of_int \<lfloor>r\<rfloor>) \<and> r - of_int \<lfloor>r\<rfloor> \<le> 1 - 1 / 2 ^ 53" by (simp add: float64_def)
  next
    case False
    define m where "m = nat (- j)"
    have j: "(2 :: rat) powi j = 1 / of_int (2 ^ m)" using False by (simp add: m_def power_int_def inverse_eq_divide power_one_over)
    have "\<lfloor>r\<rfloor> = k div 2 ^ m" unfolding r j by (simp add: floor_divide_of_int_eq del: of_int_power)
    then have frac: "r - of_int \<lfloor>r\<rfloor> = of_int (k mod 2 ^ m) * 2 powi j"
      unfolding r j by (simp add: field_simps flip: of_int_mult of_int_add of_int_power)
    have "k mod 2 ^ m \<le> k" using k0 by (simp add: zmod_le_nonneg_dividend)
    then have "\<bar>k mod 2 ^ m\<bar> \<le> 2 ^ 53" using k by simp
    then have "float64 (r - of_int \<lfloor>r\<rfloor>)" unfolding frac by (rule float64_I)
    moreover have "r - of_int \<lfloor>r\<rfloor> \<le> 1 - 1 / 2 ^ 53"
    proof (cases "m \<le> 53")
      case True
      have "k mod 2 ^ m \<le> 2 ^ m - 1" by (simp add: pos_mod_bound zle_diff1_eq)
      then have "(of_int (k mod 2 ^ m) :: rat) \<le> of_int (2 ^ m - 1)" by (simp only: of_int_le_iff)
      then have "r - of_int \<lfloor>r\<rfloor> \<le> 1 - 1 / 2 ^ m" unfolding frac j by (simp add: field_simps)
      also have "(1 :: rat) / 2 ^ 53 \<le> 1 / 2 ^ m" using True by (intro divide_left_mono power_increasing) simp_all
      then have "1 - 1 / 2 ^ m \<le> (1 :: rat) - 1 / 2 ^ 53" by simp
      finally show ?thesis .
    next
      case False
      have "(of_int (k mod 2 ^ m) :: rat) \<le> of_int (2 ^ 53)" using \<open>\<bar>k mod 2 ^ m\<bar> \<le> 2 ^ 53\<close> by (simp only: of_int_le_iff)
      moreover have "(2 :: rat) ^ 54 \<le> 2 ^ m" using False by (intro power_increasing) simp_all
      ultimately have "(of_int (k mod 2 ^ m) :: rat) * 2 \<le> 2 ^ m" by simp
      then have "r - of_int \<lfloor>r\<rfloor> \<le> 1 / 2" unfolding frac j by (simp add: field_simps)
      then show ?thesis by simp
    qed
    ultimately show "float64 (r - of_int \<lfloor>r\<rfloor>) \<and> r - of_int \<lfloor>r\<rfloor> \<le> 1 - 1 / 2 ^ 53" by blast
  qed
qed

text \<open>A value between two others by linear interpolation, with each operation rounded, stays between them.\<close>

definition interpolate :: "rat \<Rightarrow> rat \<Rightarrow> rat \<Rightarrow> rat" where
  "interpolate a b w = rnd64 (a + rnd64 (rnd64 (b - a) * w))"

lemma interpolate_between:
  assumes "float64 a" and "float64 b" and "a \<le> b" and "0 \<le> w" and "w \<le> 1 - 1 / 2 ^ 53"
  shows "a \<le> interpolate a b w" and "interpolate a b w \<le> b"
proof -
  let ?d = "rnd64 (b - a)"
  have d: "0 \<le> ?d" using assms(3) by (simp add: rnd64_nonneg)
  then have "0 \<le> rnd64 (?d * w)" using assms(4) by (simp add: rnd64_nonneg)
  then show "a \<le> interpolate a b w"
    unfolding interpolate_def using assms(1) by (intro rnd64_ge) simp_all
  have "rnd64 (?d * w) \<le> b - a"
  proof (cases "?d \<le> b - a")
    case True
    have "?d * w \<le> ?d * 1" using d assms(5) by (intro mult_left_mono) simp_all
    then have "rnd64 (?d * w) \<le> ?d" by (intro rnd64_le) simp_all
    then show ?thesis using True by linarith
  next
    case False
    then have pos: "0 < ?d" using assms(3) by linarith
    let ?z = "rnd64 (?d * w)"
    have "?z \<le> ?d * w + \<bar>?d * w\<bar> / 2 ^ 53" using rnd64_error [of "?d * w"] by linarith
    also have "\<dots> = ?d * w * (1 + 1 / 2 ^ 53)" using d assms(4) by (simp add: field_simps)
    also have "\<dots> \<le> ?d * (1 - 1 / 2 ^ 53) * (1 + 1 / 2 ^ 53)"
      using d assms(5) by (intro mult_right_mono mult_left_mono) simp_all
    also have "\<dots> < ?d" using pos by simp
    finally have "?z < ?d" .
    show ?thesis
    proof (rule ccontr)
      assume "\<not> ?z \<le> b - a"
      then have "?d \<le> ?z" by (intro rnd64_le) simp_all
      with \<open>?z < ?d\<close> show False by simp
    qed
  qed
  then show "interpolate a b w \<le> b"
    unfolding interpolate_def using assms(2) by (intro rnd64_le) simp_all
qed

lemma interpolate_mono:
  assumes "a \<le> b" and "w \<le> v"
  shows "interpolate a b w \<le> interpolate a b v"
  unfolding interpolate_def using assms by (intro rnd64_mono add_left_mono mult_left_mono rnd64_nonneg) simp_all

text \<open>The sum of numbers that are not negative, rounded after each step.\<close>

definition fsum :: "rat list \<Rightarrow> rat" where
  "fsum xs = fold (\<lambda>v acc. rnd64 (acc + v)) xs 0"

lemma fsum_ints:
  assumes "\<forall>k \<in> set ks. 0 \<le> k" and "sum_list ks \<le> 2 ^ 53"
  shows "fsum (map of_int ks) = of_int (sum_list ks)"
  using assms
proof (induction ks rule: rev_induct)
  case Nil
  then show ?case by (simp add: fsum_def)
next
  case (snoc k ks)
  have nonneg: "0 \<le> k" "0 \<le> sum_list ks" using snoc.prems(1) by (simp_all add: sum_list_nonneg)
  then have "fsum (map of_int ks) = of_int (sum_list ks)" using snoc by simp
  moreover have "rnd64 (of_int (sum_list ks + k)) = of_int (sum_list ks + k)"
    using float64_int [of "sum_list ks + k"] nonneg snoc.prems(2) by (simp add: float64_def)
  ultimately show ?case by (simp add: fsum_def)
qed

lemma rnd64_quotient:
  assumes "\<bar>a\<bar> \<le> 2 ^ 53" and "\<bar>b\<bar> \<le> 2 ^ 53"
  shows "rnd64 (rnd64 (of_int a) / rnd64 (of_int b)) = rnd64 (of_int a / of_int b)"
  using float64_int [OF assms(1)] float64_int [OF assms(2)] by (simp add: float64_def)

lemma rnd64_between:
  "0 \<le> x \<Longrightarrow> x * (1 - 1 / 2 ^ 53) \<le> rnd64 x \<and> rnd64 x \<le> x * (1 + 1 / 2 ^ 53)"
  using rnd64_error [of x] unfolding abs_le_iff by (simp add: field_simps)

lemma fsum_bounds:
  assumes "\<forall>v \<in> set xs. 0 \<le> v"
  shows "(1 - 1 / 2 ^ 53) ^ length xs * sum_list xs \<le> fsum xs \<and> fsum xs \<le> (1 + 1 / 2 ^ 53) ^ length xs * sum_list xs"
  using assms
proof (induction xs rule: rev_induct)
  case Nil
  then show ?case by (simp add: fsum_def)
next
  case (snoc v xs)
  define lo hi :: rat where "lo = 1 - 1 / 2 ^ 53" and "hi = 1 + 1 / 2 ^ 53"
  have lh: "0 \<le> lo" "lo \<le> 1" "1 \<le> hi" by (simp_all add: lo_def hi_def)
  have v: "0 \<le> v" and s: "0 \<le> sum_list xs" using snoc.prems by (simp_all add: sum_list_nonneg)
  have IH: "lo ^ length xs * sum_list xs \<le> fsum xs" "fsum xs \<le> hi ^ length xs * sum_list xs"
    using snoc by (simp_all add: lo_def hi_def)
  have n: "lo ^ length xs \<le> 1" "1 \<le> hi ^ length xs" using lh by (simp_all add: power_le_one one_le_power)
  have "0 \<le> fsum xs" using IH(1) lh(1) s by (meson mult_nonneg_nonneg order_trans zero_le_power)
  then have r: "(fsum xs + v) * lo \<le> fsum (xs @ [v])" "fsum (xs @ [v]) \<le> (fsum xs + v) * hi"
    using rnd64_between [of "fsum xs + v"] v by (simp_all add: fsum_def lo_def hi_def)
  have "lo ^ length xs * (sum_list xs + v) \<le> fsum xs + v"
    using IH(1) mult_right_mono [OF n(1) v] by (simp add: distrib_left)
  then have "lo ^ Suc (length xs) * (sum_list xs + v) \<le> (fsum xs + v) * lo"
    using mult_left_mono [OF _ lh(1)] by (fastforce simp: mult.commute mult.left_commute)
  moreover have "fsum xs + v \<le> hi ^ length xs * (sum_list xs + v)"
    using IH(2) mult_right_mono [OF n(2) v] by (simp add: distrib_left)
  then have "(fsum xs + v) * hi \<le> hi ^ Suc (length xs) * (sum_list xs + v)"
    using mult_left_mono [of _ _ hi] lh(3) by (fastforce simp: mult.commute mult.left_commute)
  ultimately show ?case
    using r unfolding lo_def [symmetric] hi_def [symmetric] by (auto intro: order_trans)
qed

end
