(* ===== verification/Courier_Repository.thy ===== *)
theory Courier_Repository
  imports Courier_Domain Float64
begin

text \<open>
  \<open>internal/storage/memory/courier_repository.go\<close>: couriers with their phone index, zones, slots and
  ratings. The mutex makes every method atomic, so a method is a function on the record of the six maps.
  A method that ranges over a map takes the visited keys \<open>ks\<close> as its first argument; \<open>now\<close> is the time its
  \<open>time.Now\<close> returns. The clone functions copy a struct (and the tags of a rating), which values already are.
\<close>

record courier_repo =
  couriers :: "string \<rightharpoonup> Courier"
  courierByPhone :: "string \<rightharpoonup> string"
  vehicleCaps :: "VehicleType \<rightharpoonup> CourierVehicleCapability"
  zonesByCourier :: "string \<rightharpoonup> (string \<rightharpoonup> CourierZone)"
  slotsByCourier :: "string \<rightharpoonup> (string \<rightharpoonup> CourierSlot)"
  ratingsByCourier :: "string \<rightharpoonup> (string \<rightharpoonup> CourierRating)"

text \<open>Reading a missing key of a map of maps gives the nil map, which behaves as an empty one.\<close>

definition inner :: "('k \<rightharpoonup> ('j \<rightharpoonup> 'v)) \<Rightarrow> 'k \<Rightarrow> ('j \<rightharpoonup> 'v)" where
  "inner m k = (case m k of None \<Rightarrow> Map.empty | Some v \<Rightarrow> v)"

definition NewCourierRepository :: "gotime \<Rightarrow> courier_repo" where
  "NewCourierRepository now =
     \<lparr>couriers = Map.empty, courierByPhone = Map.empty,
      vehicleCaps = fold (\<lambda>capability m. m(cap_VehicleType capability \<mapsto> capability\<lparr>cap_UpdatedAt := now\<rparr>))
                      DefaultCourierVehicleCapabilities Map.empty,
      zonesByCourier = Map.empty, slotsByCourier = Map.empty, ratingsByCourier = Map.empty\<rparr>"

definition firstValidationErr :: "error list \<Rightarrow> error option" where
  "firstValidationErr errs = (case errs of [] \<Rightarrow> None | e # _ \<Rightarrow> Some e)"

definition intervalsOverlap :: "gotime \<Rightarrow> gotime \<Rightarrow> gotime \<Rightarrow> gotime \<Rightarrow> bool" where
  "intervalsOverlap startA endA startB endB \<longleftrightarrow> startA < endB \<and> startB < endA"

definition cloneCourier :: "Courier \<Rightarrow> Courier" where "cloneCourier src = src"
definition cloneCourierZone :: "CourierZone \<Rightarrow> CourierZone" where "cloneCourierZone src = src"
definition cloneCourierSlot :: "CourierSlot \<Rightarrow> CourierSlot" where "cloneCourierSlot src = src"
definition cloneCourierRating :: "CourierRating \<Rightarrow> CourierRating" where
  "cloneCourierRating src = src\<lparr>Tags := map id (Tags src)\<rparr>"

section \<open>Profiles\<close>

definition courier_Create :: "gotime \<Rightarrow> Courier \<Rightarrow> courier_repo \<Rightarrow> error option \<times> courier_repo" where
  "courier_Create now courier r =
     (case firstValidationErr (Courier_ValidateInvariants courier) of Some err \<Rightarrow> (Some err, r) | None \<Rightarrow>
     (case NormalizePhone (Phone courier) of Inl err \<Rightarrow> (Some err, r) | Inr phone \<Rightarrow>
     (case couriers r (courier_ID courier) of Some _ \<Rightarrow> (Some (E ErrCourierAlreadyExists), r) | None \<Rightarrow>
        if (case courierByPhone r phone of Some existingID \<Rightarrow> existingID \<noteq> courier_ID courier | None \<Rightarrow> False)
        then (Some (E ErrCourierPhoneAlreadyExists), r)
        else
          let c1 = (if IsZero (courier_CreatedAt courier) then courier\<lparr>courier_CreatedAt := now\<rparr> else courier);
              c2 = (if IsZero (courier_UpdatedAt c1) then c1\<lparr>courier_UpdatedAt := courier_CreatedAt c1\<rparr> else c1);
              c3 = c2\<lparr>Phone := phone\<rparr>
          in (None, r\<lparr>couriers := (couriers r)(courier_ID c3 \<mapsto> cloneCourier c3),
                      courierByPhone := (courierByPhone r)(phone \<mapsto> courier_ID c3)\<rparr>))))"

definition courier_Get :: "string \<Rightarrow> courier_repo \<Rightarrow> error + Courier" where
  "courier_Get i r =
     (if TrimSpace i = [] then Inl (E ErrCourierIDRequired)
      else case couriers r (TrimSpace i) of
             None \<Rightarrow> Inl (E ErrCourierNotFound)
           | Some courier \<Rightarrow> Inr (cloneCourier courier))"

definition courier_GetByPhone :: "string \<Rightarrow> courier_repo \<Rightarrow> error + Courier" where
  "courier_GetByPhone phone r =
     (case NormalizePhone phone of Inl err \<Rightarrow> Inl err | Inr normalizedPhone \<Rightarrow>
     (case courierByPhone r normalizedPhone of None \<Rightarrow> Inl (E ErrCourierNotFound) | Some courierID \<Rightarrow>
     (case couriers r courierID of None \<Rightarrow> Inl (E ErrCourierNotFound)
      | Some courier \<Rightarrow> Inr (cloneCourier courier))))"

definition courier_Save :: "gotime \<Rightarrow> Courier \<Rightarrow> courier_repo \<Rightarrow> error option \<times> courier_repo" where
  "courier_Save now courier r =
     (case firstValidationErr (Courier_ValidateInvariants courier) of Some err \<Rightarrow> (Some err, r) | None \<Rightarrow>
     (case NormalizePhone (Phone courier) of Inl err \<Rightarrow> (Some err, r) | Inr phone \<Rightarrow>
     (case couriers r (courier_ID courier) of None \<Rightarrow> (Some (E ErrCourierNotFound), r) | Some current \<Rightarrow>
        if (case courierByPhone r phone of Some existingID \<Rightarrow> existingID \<noteq> courier_ID courier | None \<Rightarrow> False)
        then (Some (E ErrCourierPhoneAlreadyExists), r)
        else
          let currentPhone = TrimSpace (Phone current);
              byPhone = (if currentPhone \<noteq> phone
                         then (courierByPhone r)(currentPhone := None, phone \<mapsto> courier_ID courier)
                         else courierByPhone r);
              c1 = (if IsZero (courier_CreatedAt courier)
                    then courier\<lparr>courier_CreatedAt := courier_CreatedAt current\<rparr> else courier);
              c2 = (if IsZero (courier_UpdatedAt c1) then c1\<lparr>courier_UpdatedAt := now\<rparr> else c1);
              c3 = c2\<lparr>Phone := phone\<rparr>
          in (None, r\<lparr>couriers := (couriers r)(courier_ID c3 \<mapsto> cloneCourier c3), courierByPhone := byPhone\<rparr>))))"

definition courier_newer :: "Courier \<Rightarrow> Courier \<Rightarrow> bool" where
  "courier_newer a b =
     (if courier_CreatedAt a \<noteq> courier_CreatedAt b then courier_CreatedAt a > courier_CreatedAt b
      else courier_ID a > courier_ID b)"

fun zone_couriers :: "string \<Rightarrow> courier_repo \<Rightarrow> string list \<Rightarrow> Courier list" where
  "zone_couriers zoneID r [] = []"
| "zone_couriers zoneID r (courierID # ks) =
     (if inner (zonesByCourier r) courierID zoneID = None then zone_couriers zoneID r ks
      else case couriers r courierID of
             None \<Rightarrow> zone_couriers zoneID r ks
           | Some courier \<Rightarrow> cloneCourier courier # zone_couriers zoneID r ks)"

definition courier_ListByZone ::
  "string list \<Rightarrow> string \<Rightarrow> int \<Rightarrow> courier_repo \<Rightarrow> error + Courier list" where
  "courier_ListByZone ks zoneID0 limit r =
     (let zoneID = NormalizeZoneID zoneID0
      in if zoneID = [] then Inl (E ErrCourierZoneRequired)
         else if \<not> IsKnownMoscowZoneID zoneID then Inl (E ErrCourierZoneUnknown)
         else let result = sort_slice courier_newer (zone_couriers zoneID r ks)
              in Inr (if limit > 0 \<and> int (length result) > limit then take (nat limit) result else result))"

section \<open>Zones\<close>

text \<open>The loop of \<open>ReplaceZones\<close>: the zones normalised so far and how many of them are primary.
  \<open>now n\<close> is the time read for the \<open>n\<close>-th zone.\<close>

fun zones_loop ::
  "(nat \<Rightarrow> gotime) \<Rightarrow> string \<Rightarrow> CourierZone list \<Rightarrow> string list \<Rightarrow> CourierZone list \<Rightarrow> int
     \<Rightarrow> error + CourierZone list \<times> int" where
  "zones_loop now courierID [] seen normalized primaryCount = Inr (normalized, primaryCount)"
| "zones_loop now courierID (zone0 # zones) seen normalized primaryCount =
     (let z1 = zone0\<lparr>cz_CourierID := courierID\<rparr>
      in case firstValidationErr (CourierZone_ValidateInvariants z1) of
           Some err \<Rightarrow> Inl err
         | None \<Rightarrow>
             let z2 = z1\<lparr>ZoneID := NormalizeZoneID (ZoneID z1)\<rparr>
             in if ZoneID z2 \<in> set seen then Inl (E ErrCourierZoneDuplicate)
                else
                  let z3 = (if IsZero (AssignedAt z2)
                            then z2\<lparr>AssignedAt := now (length normalized)\<rparr> else z2)
                  in zones_loop now courierID zones (ZoneID z2 # seen) (normalized @ [z3])
                       (if IsPrimary z2 then primaryCount + 1 else primaryCount))"

definition countCouriersInZoneLocked :: "string list \<Rightarrow> string \<Rightarrow> string \<Rightarrow> courier_repo \<Rightarrow> int" where
  "countCouriersInZoneLocked ks zoneID excludeCourierID r =
     int (length (filter (\<lambda>courierID. courierID \<noteq> excludeCourierID
            \<and> inner (zonesByCourier r) courierID zoneID \<noteq> None) ks))"

fun ensureZoneCapacityLocked ::
  "string list \<Rightarrow> string \<Rightarrow> CourierZone list \<Rightarrow> (string \<rightharpoonup> CourierZone) \<Rightarrow> courier_repo \<Rightarrow> error option" where
  "ensureZoneCapacityLocked ks courierID [] currentZones r = None"
| "ensureZoneCapacityLocked ks courierID (zone # zones) currentZones r =
     (if currentZones (ZoneID zone) \<noteq> None then ensureZoneCapacityLocked ks courierID zones currentZones r
      else if countCouriersInZoneLocked ks (ZoneID zone) courierID r \<ge> MaxCouriersPerZoneDefault
      then Some (E ErrCourierZoneCapacityExceeded)
      else ensureZoneCapacityLocked ks courierID zones currentZones r)"

definition first_primary :: "CourierZone list \<Rightarrow> int \<Rightarrow> CourierZone list" where
  "first_primary normalized primaryCount =
     (case normalized of
        z # zs \<Rightarrow> if primaryCount = 0 then z\<lparr>IsPrimary := True\<rparr> # zs else z # zs
      | [] \<Rightarrow> [])"

definition courier_ReplaceZones ::
  "string list \<Rightarrow> (nat \<Rightarrow> gotime) \<Rightarrow> string \<Rightarrow> CourierZone list \<Rightarrow> courier_repo
     \<Rightarrow> error option \<times> courier_repo" where
  "courier_ReplaceZones ks now courierID0 zones r =
     (let courierID = TrimSpace courierID0
      in if courierID = [] then (Some (E ErrCourierIDRequired), r)
         else if zones = [] then (Some (E ErrCourierZonesRequired), r)
         else case couriers r courierID of
           None \<Rightarrow> (Some (E ErrCourierNotFound), r)
         | Some courier \<Rightarrow>
             if \<not> AllowsMultipleZones (courier_VehicleType courier) \<and> length zones > 1
             then (Some (E ErrCourierZoneLimitExceeded), r)
             else case zones_loop now courierID zones [] [] 0 of
               Inl err \<Rightarrow> (Some err, r)
             | Inr (normalized0, primaryCount) \<Rightarrow>
                 if primaryCount > 1 then (Some (E ErrCourierPrimaryZoneConflict), r)
                 else let normalized = first_primary normalized0 primaryCount
                 in case ensureZoneCapacityLocked ks courierID normalized (inner (zonesByCourier r) courierID) r of
                      Some err \<Rightarrow> (Some err, r)
                    | None \<Rightarrow> (None, r\<lparr>zonesByCourier := (zonesByCourier r)(courierID \<mapsto>
                        fold (\<lambda>zone m. m(ZoneID zone \<mapsto> cloneCourierZone zone)) normalized Map.empty)\<rparr>))"

definition zone_before :: "CourierZone \<Rightarrow> CourierZone \<Rightarrow> bool" where
  "zone_before a b = (if IsPrimary a \<noteq> IsPrimary b then IsPrimary a else ZoneID a < ZoneID b)"

definition courier_ListZones :: "string list \<Rightarrow> string \<Rightarrow> courier_repo \<Rightarrow> error + CourierZone list" where
  "courier_ListZones ks courierID0 r =
     (let courierID = TrimSpace courierID0
      in if courierID = [] then Inl (E ErrCourierIDRequired)
         else if couriers r courierID = None then Inl (E ErrCourierNotFound)
         else Inr (sort_slice zone_before
                     (map cloneCourierZone (range_vals (inner (zonesByCourier r) courierID) ks))))"

section \<open>Slots\<close>

definition courier_CreateSlot :: "string list \<Rightarrow> gotime \<Rightarrow> CourierSlot \<Rightarrow> courier_repo \<Rightarrow> error option \<times> courier_repo" where
  "courier_CreateSlot ks now slot0 r =
     (let slot = (if slot_Status slot0 = CourierSlotStatusOther [] then slot0\<lparr>slot_Status := CourierSlotStatusPlanned\<rparr>
                  else slot0)
      in case firstValidationErr (CourierSlot_ValidateInvariants slot) of
           Some err \<Rightarrow> (Some err, r)
         | None \<Rightarrow>
             (case couriers r (slot_CourierID slot) of
                None \<Rightarrow> (Some (E ErrCourierNotFound), r)
              | Some courier \<Rightarrow>
                  if IsNightShiftSlot (SlotStart slot) (SlotEnd slot) \<and> courier_VehicleType courier \<noteq> VehicleTypeCar
                  then (Some (E ErrCourierNightSlotCarOnly), r)
                  else
                    let courierSlots = inner (slotsByCourier r) (slot_CourierID slot);
                        r1 = r\<lparr>slotsByCourier := (slotsByCourier r)(slot_CourierID slot \<mapsto> courierSlots)\<rparr>
                    in if courierSlots (slot_ID slot) \<noteq> None then (Some (E ErrCourierSlotConflict), r1)
                       else if list_ex (\<lambda>existing. slot_Status existing \<noteq> CourierSlotStatusCanceled
                                 \<and> intervalsOverlap (SlotStart existing) (SlotEnd existing) (SlotStart slot) (SlotEnd slot))
                                 (range_vals courierSlots ks)
                       then (Some (E ErrCourierSlotConflict), r1)
                       else
                         let s1 = (if IsZero (slot_CreatedAt slot) then slot\<lparr>slot_CreatedAt := now\<rparr> else slot);
                             s2 = (if IsZero (slot_UpdatedAt s1) then s1\<lparr>slot_UpdatedAt := slot_CreatedAt s1\<rparr> else s1)
                         in (None, r1\<lparr>slotsByCourier := (slotsByCourier r1)(slot_CourierID slot \<mapsto>
                               courierSlots(slot_ID slot \<mapsto> cloneCourierSlot s2))\<rparr>)))"

definition slot_before :: "CourierSlot \<Rightarrow> CourierSlot \<Rightarrow> bool" where
  "slot_before a b = (if SlotStart a \<noteq> SlotStart b then SlotStart a < SlotStart b else slot_ID a < slot_ID b)"

definition courier_ListSlots ::
  "string list \<Rightarrow> string \<Rightarrow> gotime \<Rightarrow> gotime \<Rightarrow> courier_repo \<Rightarrow> error + CourierSlot list" where
  "courier_ListSlots ks courierID0 from_t to_t r =
     (let courierID = TrimSpace courierID0
      in if courierID = [] then Inl (E ErrCourierIDRequired)
         else if couriers r courierID = None then Inl (E ErrCourierNotFound)
         else Inr (sort_slice slot_before
                (map cloneCourierSlot
                  (filter (\<lambda>slot. \<not> (\<not> IsZero from_t \<and> \<not> SlotEnd slot > from_t)
                                \<and> \<not> (\<not> IsZero to_t \<and> \<not> SlotStart slot < to_t))
                     (range_vals (inner (slotsByCourier r) courierID) ks)))))"

section \<open>Vehicle capabilities\<close>

definition courier_GetVehicleCapability :: "VehicleType \<Rightarrow> courier_repo \<Rightarrow> error + CourierVehicleCapability" where
  "courier_GetVehicleCapability vehicleType r =
     (if \<not> VehicleType_Valid vehicleType then Inl (E ErrCourierVehicleTypeInvalid)
      else case vehicleCaps r vehicleType of
             None \<Rightarrow> Inl (E ErrCourierVehicleCapabilityNotFound)
           | Some capability \<Rightarrow> Inr capability)"

definition courier_ListVehicleCapabilities ::
  "VehicleType list \<Rightarrow> courier_repo \<Rightarrow> error + CourierVehicleCapability list" where
  "courier_ListVehicleCapabilities ks r =
     Inr (sort_slice (\<lambda>a b. VehicleType_string (cap_VehicleType a) < VehicleType_string (cap_VehicleType b))
            (range_vals (vehicleCaps r) ks))"

section \<open>Ratings\<close>

definition courier_SubmitRating :: "gotime \<Rightarrow> CourierRating \<Rightarrow> courier_repo \<Rightarrow> error option \<times> courier_repo" where
  "courier_SubmitRating now rating r =
     (case firstValidationErr (CourierRating_ValidateInvariants rating) of Some err \<Rightarrow> (Some err, r) | None \<Rightarrow>
        if couriers r (rating_CourierID rating) = None then (Some (E ErrCourierNotFound), r)
        else
          let courierRatings = inner (ratingsByCourier r) (rating_CourierID rating);
              r1 = r\<lparr>ratingsByCourier := (ratingsByCourier r)(rating_CourierID rating \<mapsto> courierRatings)\<rparr>
          in if courierRatings (rating_ID rating) \<noteq> None then (Some (E ErrCourierRatingAlreadyExists), r1)
             else let r2 = (if IsZero (rating_CreatedAt rating) then rating\<lparr>rating_CreatedAt := now\<rparr> else rating)
             in (None, r1\<lparr>ratingsByCourier := (ratingsByCourier r1)(rating_CourierID rating \<mapsto>
                   courierRatings(rating_ID rating \<mapsto> cloneCourierRating r2))\<rparr>))"

text \<open>One tag and one rating of the loop of \<open>GetRatingSummary\<close>; the loop carries the total score. The
  counters are \<open>int64\<close>s.\<close>

definition inc :: "int \<Rightarrow> int" where "inc n = int64 (n + 1)"

fun add_tag :: "CourierRatingTag \<Rightarrow> CourierRatingSummary \<Rightarrow> CourierRatingSummary" where
  "add_tag CourierRatingTagOnTime s = s\<lparr>OnTimeCount := inc (OnTimeCount s)\<rparr>"
| "add_tag CourierRatingTagPolite s = s\<lparr>PoliteCount := inc (PoliteCount s)\<rparr>"
| "add_tag CourierRatingTagCarefulHandling s = s\<lparr>CarefulCount := inc (CarefulCount s)\<rparr>"
| "add_tag CourierRatingTagDelayedDelivery s = s\<lparr>DelayedCount := inc (DelayedCount s)\<rparr>"
| "add_tag CourierRatingTagRudeBehavior s = s\<lparr>RudeCount := inc (RudeCount s)\<rparr>"
| "add_tag CourierRatingTagDamagedOrder s = s\<lparr>DamagedCount := inc (DamagedCount s)\<rparr>"
| "add_tag CourierRatingTagOtherIssue s = s\<lparr>OtherIssueCount := inc (OtherIssueCount s)\<rparr>"
| "add_tag (CourierRatingTagOther t) s = s"

definition add_score :: "int \<Rightarrow> CourierRatingSummary \<Rightarrow> CourierRatingSummary" where
  "add_score score s =
     (if score = 1 then s\<lparr>Score1Count := inc (Score1Count s)\<rparr>
      else if score = 2 then s\<lparr>Score2Count := inc (Score2Count s)\<rparr>
      else if score = 3 then s\<lparr>Score3Count := inc (Score3Count s)\<rparr>
      else if score = 4 then s\<lparr>Score4Count := inc (Score4Count s)\<rparr>
      else if score = 5 then s\<lparr>Score5Count := inc (Score5Count s)\<rparr> else s)"

definition add_rating :: "CourierRating \<Rightarrow> CourierRatingSummary \<times> int \<Rightarrow> CourierRatingSummary \<times> int" where
  "add_rating rating acc =
     (case acc of (s0, totalScore) \<Rightarrow>
        let s1 = s0\<lparr>RatingsCount := inc (RatingsCount s0)\<rparr>;
            s2 = (if Score rating < 3 then s1\<lparr>LowRatingsCount := inc (LowRatingsCount s1)\<rparr> else s1);
            s3 = add_score (Score rating) s2;
            s4 = (if IsZero (LastRatingAt s3) \<or> rating_CreatedAt rating > LastRatingAt s3
                  then s3\<lparr>LastRatingAt := rating_CreatedAt rating\<rparr> else s3)
        in (fold add_tag (Tags rating) s4, int64 (totalScore + Score rating)))"

definition empty_summary :: "string \<Rightarrow> CourierRatingSummary" where
  "empty_summary courierID =
     \<lparr>sum_CourierID = courierID, RatingsCount = 0, AverageScore = 0, LowRatingsCount = 0, Score1Count = 0,
      Score2Count = 0, Score3Count = 0, Score4Count = 0, Score5Count = 0, OnTimeCount = 0, PoliteCount = 0,
      CarefulCount = 0, DelayedCount = 0, RudeCount = 0, DamagedCount = 0, OtherIssueCount = 0, LastRatingAt = 0\<rparr>"

definition courier_GetRatingSummary :: "string list \<Rightarrow> string \<Rightarrow> courier_repo \<Rightarrow> error + CourierRatingSummary" where
  "courier_GetRatingSummary ks courierID0 r =
     (let courierID = TrimSpace courierID0
      in if courierID = [] then Inl (E ErrCourierIDRequired)
         else if couriers r courierID = None then Inl (E ErrCourierNotFound)
         else case range_vals (inner (ratingsByCourier r) courierID) ks of
                [] \<Rightarrow> Inr (empty_summary courierID)
              | ratings \<Rightarrow>
                  (case fold add_rating ratings (empty_summary courierID, 0) of
                     (s, totalScore) \<Rightarrow> Inr (s\<lparr>AverageScore := rnd64 (rnd64 (of_int totalScore) / rnd64 (of_int (RatingsCount s)))\<rparr>)))"

end
