(* ===== verification/Courier_Properties.thy ===== *)
theory Courier_Properties
  imports Courier_Invariants
begin

text \<open>
  The properties of the courier repository over all reachable states: the phone index is exact, a zone never
  holds more than a hundred couriers, live slots of a courier never overlap, a rating summary counts every
  rating once whatever order the map is visited in. The last theorem is a finding: a saved profile may change
  the vehicle under the courier's zones.
\<close>

section \<open>Reachable states\<close>

lemma zones_ok_frame:
  "zones_ok r \<Longrightarrow> zonesByCourier r' = zonesByCourier r \<Longrightarrow> (\<And>i. couriers r i \<noteq> None \<Longrightarrow> couriers r' i \<noteq> None)
     \<Longrightarrow> zones_ok r'"
  by (fastforce simp: zones_ok_def in_zone_def)

lemma repo_ok_profile:
  assumes "repo_ok r" and "profile_ok r'" and "zonesByCourier r' = zonesByCourier r"
    and "slotsByCourier r' = slotsByCourier r" and "ratingsByCourier r' = ratingsByCourier r"
    and "\<And>i. couriers r i \<noteq> None \<Longrightarrow> couriers r' i \<noteq> None"
  shows "repo_ok r'"
  using assms zones_ok_frame [of r r'] by (simp add: repo_ok_def slots_ok_def ratings_ok_def)

lemma profile_ok_frame:
  "profile_ok r \<Longrightarrow> couriers r' = couriers r \<Longrightarrow> courierByPhone r' = courierByPhone r \<Longrightarrow> profile_ok r'"
  by (simp add: profile_ok_def)

lemma repo_ok_new: "repo_ok (NewCourierRepository now)"
  by (simp add: repo_ok_def profile_ok_def zones_ok_def slots_ok_def slot_map_ok_def ratings_ok_def in_zone_def
      inner_def NewCourierRepository_def)

lemma repo_ok_create:
  assumes "repo_ok r" and "courier_Create now c r = (e, r')" shows "repo_ok r'"
proof (cases e)
  case None
  have p: "profile_ok r'" using assms None by (auto simp: repo_ok_def intro: Create_profile)
  from assms(2) [unfolded None] show ?thesis
    by (cases rule: Create_ok) (rule repo_ok_profile [OF assms(1) p], simp_all)
qed (use assms Create_error in blast)

lemma repo_ok_save:
  assumes "repo_ok r" and "courier_Save now c r = (e, r')" shows "repo_ok r'"
proof (cases e)
  case None
  have p: "profile_ok r'" using assms None by (auto simp: repo_ok_def intro: Save_profile)
  from assms(2) [unfolded None] show ?thesis
    by (cases rule: Save_ok) (rule repo_ok_profile [OF assms(1) p], simp_all)
qed (use assms Save_error in blast)

lemma repo_ok_replace:
  assumes "repo_ok r" and "range_order (zonesByCourier r) ks" and "courier_ReplaceZones ks nows i zones r = (e, r')"
  shows "repo_ok r'"
proof (cases e)
  case None
  have z: "zones_ok r'" using assms None ReplaceZones_zones by (auto simp: repo_ok_def)
  from assms(3) [unfolded None] show ?thesis
  proof (cases rule: ReplaceZones_ok)
    case (1 new)
    then show ?thesis
      using assms(1) z profile_ok_frame [of r r'] by (simp add: repo_ok_def slots_ok_def ratings_ok_def)
  qed
qed (use assms ReplaceZones_error in blast)

lemma repo_ok_slot:
  assumes "repo_ok r" and "range_order (inner (slotsByCourier r) (slot_CourierID s)) ks"
    and "courier_CreateSlot ks now s r = (e, r')"
  shows "repo_ok r'"
proof (cases e)
  case None
  have s: "slots_ok r'" using assms None CreateSlot_slots by (auto simp: repo_ok_def)
  from assms(3) [unfolded None] show ?thesis
  proof (cases rule: CreateSlot_ok)
    case (1 t)
    then show ?thesis
      using assms(1) s profile_ok_frame [of r r'] zones_ok_frame [of r r'] by (simp add: repo_ok_def ratings_ok_def)
  qed
next
  case (Some err)
  note same = CreateSlot_error [OF assms(3) [unfolded Some]]
  show ?thesis
    using assms(1) same profile_ok_frame [of r r'] zones_ok_frame [of r r']
    by (simp add: repo_ok_def slots_ok_def ratings_ok_def)
qed

lemma repo_ok_rating:
  assumes "repo_ok r" and "courier_SubmitRating now rt r = (e, r')" shows "repo_ok r'"
  using assms SubmitRating_ratings [OF _ assms(2)] SubmitRating_frame [OF assms(2)]
    profile_ok_frame [of r r'] zones_ok_frame [of r r']
  by (simp add: repo_ok_def slots_ok_def)

lemma reachable_ok: "reachable r \<Longrightarrow> repo_ok r"
  by (induction rule: reachable.induct)
    (blast intro: repo_ok_new repo_ok_create repo_ok_save repo_ok_replace repo_ok_slot repo_ok_rating)+

section \<open>A repository for the witnesses\<close>

definition driver :: Courier where
  "driver = \<lparr>courier_ID = ''c1'', Phone = ''+7 (999) 123-45-67'', FirstName = ''Ivan'', LastName = ''Petrov'',
     courier_VehicleType = VehicleTypeCar, IsActive = True, courier_CreatedAt = 0, courier_UpdatedAt = 0\<rparr>"

definition two_zones :: "CourierZone list" where
  "two_zones = [\<lparr>cz_CourierID = [], ZoneID = ''msk-cao-arbat'', IsPrimary = False, AssignedAt = 0\<rparr>,
     \<lparr>cz_CourierID = [], ZoneID = '' MSK-cao-basmanny'', IsPrimary = False, AssignedAt = 0\<rparr>]"

definition garage1 :: courier_repo where
  "garage1 = snd (courier_Create 5 driver (NewCourierRepository 5))"

definition garage2 :: courier_repo where
  "garage2 = snd (courier_ReplaceZones [] (\<lambda>_. 6) ''c1'' two_zones garage1)"

lemma garage1_created: "courier_Create 5 driver (NewCourierRepository 5) = (None, garage1)"
proof -
  have "fst (courier_Create 5 driver (NewCourierRepository 5)) = None" by code_simp
  then show ?thesis by (simp add: garage1_def prod_eq_iff)
qed

lemma garage1_zones [simp]: "zonesByCourier garage1 = Map.empty"
  using garage1_created
proof (cases rule: Create_ok)
  case (1 c')
  show ?thesis unfolding 1(5) by (simp add: NewCourierRepository_def)
qed

lemma garage2_replaced: "courier_ReplaceZones [] (\<lambda>_. 6) ''c1'' two_zones garage1 = (None, garage2)"
proof -
  have "fst (courier_ReplaceZones [] (\<lambda>_. 6) ''c1'' two_zones garage1) = None" by code_simp
  then show ?thesis by (simp add: garage2_def prod_eq_iff)
qed

lemma garage_reachable: "reachable garage1" "reachable garage2"
proof -
  show "reachable garage1" by (rule reachable.create [OF reachable.new garage1_created])
  then show "reachable garage2"
    by (rule reachable.replace [OF _ _ garage2_replaced]) (simp add: range_order_def)
qed


section \<open>Properties\<close>

text \<open>Every reachable state of the courier repository is well-formed: profiles are valid and stored under
  their identifier, the phone index holds exactly the numbers of the stored profiles, every zone assignment is
  known, belongs to an existing courier and has exactly one primary zone, slots and ratings are valid.\<close>

theorem courier_repo_invariant:
  assumes "reachable r" shows "repo_ok r"
  using assms by (rule reachable_ok)

theorem courier_repo_invariant_witness: "repo_ok garage2"
  by (rule courier_repo_invariant [OF garage_reachable(2)])

text \<open>C34. However the calls are ordered, at most a hundred couriers are assigned to a zone.\<close>

theorem zone_capacity:
  assumes "reachable r"
  shows "card {i. \<exists>zs. zonesByCourier r i = Some zs \<and> zs z \<noteq> None} \<le> 100"
proof -
  have "in_zone r z = {i. \<exists>zs. zonesByCourier r i = Some zs \<and> zs z \<noteq> None}"
    by (auto simp: in_zone_def inner_def split: option.splits)
  moreover have "card (in_zone r z) \<le> 100" using reachable_ok [OF assms] by (simp add: repo_ok_def zones_ok_def)
  ultimately show ?thesis by (simp only:)
qed

theorem zone_capacity_witness:
  "card {i. \<exists>zs. zonesByCourier garage2 i = Some zs \<and> zs ''msk-cao-arbat'' \<noteq> None} \<le> 100"
  by (rule zone_capacity [OF garage_reachable(2)])

text \<open>C35. Two different slots of a courier that are not canceled never overlap, and every slot lasts the
  number of hours it says: 4, 8 or 12.\<close>

theorem slots_never_overlap:
  assumes "reachable r" and "inner (slotsByCourier r) i a = Some s" and "inner (slotsByCourier r) i b = Some t"
    and "a \<noteq> b" and "slot_Status s \<noteq> CourierSlotStatusCanceled" and "slot_Status t \<noteq> CourierSlotStatusCanceled"
  shows "(SlotEnd s \<le> SlotStart t \<or> SlotEnd t \<le> SlotStart s)
    \<and> SlotEnd s - SlotStart s = DurationHours s * hour \<and> DurationHours s \<in> {4, 8, 12}"
proof -
  have ok: "slot_map_ok i (inner (slotsByCourier r) i)"
    using reachable_ok [OF assms(1)] by (simp add: repo_ok_def slots_ok_def)
  then have "\<not> live_overlap s t" using assms(2-4) by (auto simp: slot_map_ok_def)
  then have "SlotEnd s \<le> SlotStart t \<or> SlotEnd t \<le> SlotStart s"
    using assms(5,6) by (auto simp: live_overlap_def intervalsOverlap_def)
  moreover have "SlotEnd s - SlotStart s = DurationHours s * hour \<and> DurationHours s \<in> {4, 8, 12}"
    using ok assms(2) by (simp add: slot_map_ok_def CourierSlot_valid_iff)
  ultimately show ?thesis by blast
qed

definition shift :: "string \<Rightarrow> int \<Rightarrow> int \<Rightarrow> CourierSlot" where
  "shift i start hours = \<lparr>slot_ID = i, slot_CourierID = ''c1'', SlotStart = start * hour, SlotEnd = (start + hours) * hour,
     DurationHours = hours, slot_Status = CourierSlotStatusPlanned, slot_CreatedAt = 7, slot_UpdatedAt = 7\<rparr>"

definition garage3 :: courier_repo where
  "garage3 = snd (courier_CreateSlot [] 7 (shift ''s1'' 1000 12) garage1)"

definition garage4 :: courier_repo where
  "garage4 = snd (courier_CreateSlot [''s1''] 7 (shift ''s2'' 1012 4) garage3)"

lemma slotsByCourier_garage1: "slotsByCourier garage1 = Map.empty"
  using garage1_created
proof (cases rule: Create_ok)
  case (1 c')
  show ?thesis unfolding 1(5) by (simp add: NewCourierRepository_def)
qed

lemma garage4_slots:
  "inner (slotsByCourier garage4) ''c1'' ''s1'' = Some (shift ''s1'' 1000 12)"
  "inner (slotsByCourier garage4) ''c1'' ''s2'' = Some (shift ''s2'' 1012 4)"
  by code_simp+

lemma garage4_reachable: "reachable garage4"
proof -
  have "fst (courier_CreateSlot [] 7 (shift ''s1'' 1000 12) garage1) = None" by code_simp
  then have g3: "courier_CreateSlot [] 7 (shift ''s1'' 1000 12) garage1 = (None, garage3)"
    by (simp add: garage3_def prod_eq_iff)
  have r3: "reachable garage3"
    by (rule reachable.slot [OF garage_reachable(1) _ g3])
      (simp add: range_order_def slotsByCourier_garage1 inner_def shift_def)
  have "dom (inner (slotsByCourier garage3) ''c1'') = {''s1''}"
    using g3
  proof (cases rule: CreateSlot_ok)
    case (1 s)
    then show ?thesis by (simp add: 1(7) slotsByCourier_garage1 inner_def shift_def)
  qed
  then have ks: "range_order (inner (slotsByCourier garage3) (slot_CourierID (shift ''s2'' 1012 4))) [''s1'']"
    by (simp add: range_order_def shift_def)
  have "fst (courier_CreateSlot [''s1''] 7 (shift ''s2'' 1012 4) garage3) = None" by code_simp
  then have "courier_CreateSlot [''s1''] 7 (shift ''s2'' 1012 4) garage3 = (None, garage4)"
    by (simp add: garage4_def prod_eq_iff)
  then show ?thesis by (rule reachable.slot [OF r3 ks])
qed

theorem slots_never_overlap_witness:
  "SlotEnd (shift ''s1'' 1000 12) \<le> SlotStart (shift ''s2'' 1012 4)
     \<or> SlotEnd (shift ''s2'' 1012 4) \<le> SlotStart (shift ''s1'' 1000 12)"
  using slots_never_overlap [OF garage4_reachable garage4_slots] by (simp add: shift_def)

text \<open>A registered courier is found by phone under every spelling of the number that normalises to the
  same digits, and the profile found is the registered one with its number normalised and its times set.\<close>

theorem registered_courier_is_found:
  assumes "reachable r" and "courier_Create now c r = (None, r')" and "NormalizePhone p = NormalizePhone (Phone c)"
  shows "\<exists>t u q. courier_GetByPhone p r' = Inr (c\<lparr>courier_CreatedAt := t, courier_UpdatedAt := u, Phone := q\<rparr>)"
proof -
  have "profile_ok r" using reachable_ok [OF assms(1)] by (simp add: repo_ok_def)
  from mem_directory.created_found [OF this assms(2,3)] show ?thesis by (auto simp: filled_def)
qed

theorem registered_courier_is_found_witness:
  "\<exists>t u q. courier_GetByPhone ''79991234567'' garage1 =
     Inr (driver\<lparr>courier_CreatedAt := t, courier_UpdatedAt := u, Phone := q\<rparr>)"
proof -
  have "NormalizePhone ''79991234567'' = NormalizePhone (Phone driver)" by code_simp
  from registered_courier_is_found [OF reachable.new garage1_created this] show ?thesis .
qed


section \<open>ListByZone\<close>

lemma zone_couriers_range:
  "zone_couriers z r ks = range_vals (\<lambda>i. if inner (zonesByCourier r) i z = None then None else couriers r i) ks"
  by (induction ks) (auto simp: cloneCourier_def split: option.split)

lemma courier_newer_weak: "weak_order courier_newer"
  by (auto simp: weak_order_def courier_newer_def split: if_splits)

lemma courier_newer_total: "courier_ID a \<noteq> courier_ID b \<Longrightarrow> courier_newer a b \<or> courier_newer b a"
  by (auto simp: courier_newer_def)

lemma zone_couriers_set:
  assumes "range_order (zonesByCourier r) ks"
  shows "set (zone_couriers z r ks) = {c. \<exists>i. i \<in> in_zone r z \<and> couriers r i = Some c}"
proof -
  have "i \<in> set ks" if "inner (zonesByCourier r) i z \<noteq> None" for i
    using that assms by (auto simp: range_order_def inner_def split: option.splits)
  then show ?thesis by (auto simp: zone_couriers_range set_range_vals in_zone_def split: if_splits)
qed

lemma zone_couriers_distinct:
  assumes "profile_ok r" and "range_order (zonesByCourier r) ks" shows "distinct (map courier_ID (zone_couriers z r ks))"
  unfolding zone_couriers_range
  by (rule distinct_range_vals) (use assms profile_okD(1) in \<open>auto simp: range_order_def split: if_splits\<close>)

lemma zone_couriers_order:
  assumes "profile_ok r" and "range_order (zonesByCourier r) ks" and "range_order (zonesByCourier r) ks'"
  shows "sort_slice courier_newer (zone_couriers z r ks') = sort_slice courier_newer (zone_couriers z r ks)"
proof (rule insertion.srt_unique [OF courier_newer_weak insertion.srt_sorted [OF courier_newer_weak]])
  show "mset (sort_slice courier_newer (zone_couriers z r ks)) = mset (zone_couriers z r ks')"
    unfolding insertion.srt_perm zone_couriers_range by (rule mset_range_vals) (rule range_order_perm [OF assms(2,3)])
  fix x y assume "x \<in> set (zone_couriers z r ks')" "y \<in> set (zone_couriers z r ks')" "x \<noteq> y"
  then have "courier_ID x \<noteq> courier_ID y"
    using zone_couriers_distinct [OF assms(1,3), of z] by (auto simp: distinct_map inj_on_def)
  then show "courier_newer x y \<or> courier_newer y x" by (rule courier_newer_total)
qed

text \<open>\<open>ListByZone\<close> returns the couriers assigned to the zone, each once and newest first, cut at the
  limit when there is one; the answer does not depend on the order in which Go visits the map.\<close>

theorem ListByZone_correct:
  assumes "reachable r" and "range_order (zonesByCourier r) ks"
    and "NormalizeZoneID z \<noteq> []" and "IsKnownMoscowZoneID (NormalizeZoneID z)"
  shows "\<exists>cs. courier_ListByZone ks z limit r = Inr (if limit > 0 then take (nat limit) cs else cs)
    \<and> set cs = {c. \<exists>i. i \<in> in_zone r (NormalizeZoneID z) \<and> couriers r i = Some c}
    \<and> distinct (map courier_ID cs) \<and> sorted_less courier_newer cs
    \<and> (\<forall>ks'. range_order (zonesByCourier r) ks' \<longrightarrow> courier_ListByZone ks' z limit r = courier_ListByZone ks z limit r)"
proof -
  let ?z = "NormalizeZoneID z"
  let ?cs = "sort_slice courier_newer (zone_couriers ?z r ks)"
  have ok: "profile_ok r" using reachable_ok [OF assms(1)] by (simp add: repo_ok_def)
  have eq: "courier_ListByZone ks' z limit r = Inr (let cs = sort_slice courier_newer (zone_couriers ?z r ks')
      in if limit > 0 then take (nat limit) cs else cs)" for ks'
    using assms(3,4) by (auto simp: courier_ListByZone_def Let_def)
  have "mset (map courier_ID ?cs) = mset (map courier_ID (zone_couriers ?z r ks))"
    by (simp add: insertion.srt_perm)
  then have "distinct (map courier_ID ?cs)"
    using zone_couriers_distinct [OF ok assms(2)] by (metis mset_eq_imp_distinct_iff)
  moreover have "set ?cs = {c. \<exists>i. i \<in> in_zone r ?z \<and> couriers r i = Some c}"
    using zone_couriers_set [OF assms(2)] by (simp add: insertion.srt_set)
  ultimately show ?thesis
    using zone_couriers_order [OF ok assms(2)] insertion.srt_sorted [OF courier_newer_weak]
    by (intro exI [of _ ?cs]) (simp add: eq Let_def)
qed

lemma garage2_zones: "dom (zonesByCourier garage2) = {''c1''}"
  using garage2_replaced
proof (cases rule: ReplaceZones_ok)
  case (1 new)
  have "TrimSpace ''c1'' = ''c1''" by code_simp
  then show ?thesis unfolding 1(7) by simp
qed

theorem ListByZone_correct_witness:
  "\<exists>cs. courier_ListByZone [''c1''] ''MSK-CAO-Arbat'' 0 garage2 = Inr cs \<and> distinct (map courier_ID cs)"
proof -
  have ks: "range_order (zonesByCourier garage2) [''c1'']" by (simp add: range_order_def garage2_zones)
  have z: "NormalizeZoneID ''MSK-CAO-Arbat'' \<noteq> []" "IsKnownMoscowZoneID (NormalizeZoneID ''MSK-CAO-Arbat'')"
    by code_simp+
  show ?thesis using ListByZone_correct [OF garage_reachable(2) ks z, of 0] by auto
qed

section \<open>A finding\<close>

definition garage5 :: courier_repo where
  "garage5 = snd (courier_Save 9 (driver\<lparr>courier_VehicleType := VehicleTypeBike\<rparr>) garage2)"

text \<open>\<open>ReplaceZones\<close> allows several zones to cars only, but \<open>Save\<close> lets a courier with several zones
  switch to a bike and keep them.\<close>

theorem bike_with_two_zones:
  "\<exists>r c zs. reachable r \<and> couriers r ''c1'' = Some c \<and> \<not> AllowsMultipleZones (courier_VehicleType c)
     \<and> zonesByCourier r ''c1'' = Some zs \<and> zs ''msk-cao-arbat'' \<noteq> None \<and> zs ''msk-cao-basmanny'' \<noteq> None"
proof -
  have "fst (courier_Save 9 (driver\<lparr>courier_VehicleType := VehicleTypeBike\<rparr>) garage2) = None" by code_simp
  then have "courier_Save 9 (driver\<lparr>courier_VehicleType := VehicleTypeBike\<rparr>) garage2 = (None, garage5)"
    by (simp add: garage5_def prod_eq_iff)
  then have "reachable garage5" by (rule reachable.save [OF garage_reachable(2)])
  moreover have "map_option courier_VehicleType (couriers garage5 ''c1'') = Some VehicleTypeBike" by code_simp
  moreover have "map_option (\<lambda>zs. zs ''msk-cao-arbat'' \<noteq> None \<and> zs ''msk-cao-basmanny'' \<noteq> None)
      (zonesByCourier garage5 ''c1'') = Some True" by code_simp
  ultimately show ?thesis by (auto simp: AllowsMultipleZones_def)
qed

end
