(* ===== verification/Courier_Ratings.thy ===== *)
theory Courier_Ratings
  imports Courier_Properties
begin

text \<open>
  \<open>GetRatingSummary\<close> against an order-free reference: every counter is the number of stored ratings (or tags)
  it stands for, the average is the sum of the scores divided by their number, and the last rating is the
  latest one. The counters are \<open>int64\<close>s, so the equality is proved for fewer than \<open>2 ^ 63\<close> ratings.
\<close>

lemma inc_iterate: "int n < 2 ^ 63 \<Longrightarrow> (inc ^^ n) 0 = int n"
proof (induction n)
  case (Suc n)
  then have "in_int64 (int n + 1)" by (simp add: in_int64_def)
  with Suc show ?case by (simp add: inc_def add.commute)
qed simp

lemma inc_swap: "(inc ^^ n) (inc x) = inc ((inc ^^ n) x)"
  by (simp add: funpow_swap1)

lemma inc_add: "(inc ^^ m) ((inc ^^ n) x) = (inc ^^ (n + m)) x"
  by (metis add.commute comp_apply funpow_add)

section \<open>The loops\<close>

lemma add_tag_counters:
  "OnTimeCount (add_tag t s) = (if t = CourierRatingTagOnTime then inc (OnTimeCount s) else OnTimeCount s)"
  "PoliteCount (add_tag t s) = (if t = CourierRatingTagPolite then inc (PoliteCount s) else PoliteCount s)"
  "CarefulCount (add_tag t s) = (if t = CourierRatingTagCarefulHandling then inc (CarefulCount s) else CarefulCount s)"
  "DelayedCount (add_tag t s) = (if t = CourierRatingTagDelayedDelivery then inc (DelayedCount s) else DelayedCount s)"
  "RudeCount (add_tag t s) = (if t = CourierRatingTagRudeBehavior then inc (RudeCount s) else RudeCount s)"
  "DamagedCount (add_tag t s) = (if t = CourierRatingTagDamagedOrder then inc (DamagedCount s) else DamagedCount s)"
  "OtherIssueCount (add_tag t s) = (if t = CourierRatingTagOtherIssue then inc (OtherIssueCount s) else OtherIssueCount s)"
  by (cases t; simp)+

lemma add_tag_others [simp]:
  "sum_CourierID (add_tag t s) = sum_CourierID s"
  "RatingsCount (add_tag t s) = RatingsCount s"
  "LowRatingsCount (add_tag t s) = LowRatingsCount s"
  "Score1Count (add_tag t s) = Score1Count s"
  "Score2Count (add_tag t s) = Score2Count s"
  "Score3Count (add_tag t s) = Score3Count s"
  "Score4Count (add_tag t s) = Score4Count s"
  "Score5Count (add_tag t s) = Score5Count s"
  "LastRatingAt (add_tag t s) = LastRatingAt s"
  by (cases t; simp)+

lemma tag_counters:
  "OnTimeCount (fold add_tag ts s) = (inc ^^ count_list ts CourierRatingTagOnTime) (OnTimeCount s)"
  "PoliteCount (fold add_tag ts s) = (inc ^^ count_list ts CourierRatingTagPolite) (PoliteCount s)"
  "CarefulCount (fold add_tag ts s) = (inc ^^ count_list ts CourierRatingTagCarefulHandling) (CarefulCount s)"
  "DelayedCount (fold add_tag ts s) = (inc ^^ count_list ts CourierRatingTagDelayedDelivery) (DelayedCount s)"
  "RudeCount (fold add_tag ts s) = (inc ^^ count_list ts CourierRatingTagRudeBehavior) (RudeCount s)"
  "DamagedCount (fold add_tag ts s) = (inc ^^ count_list ts CourierRatingTagDamagedOrder) (DamagedCount s)"
  "OtherIssueCount (fold add_tag ts s) = (inc ^^ count_list ts CourierRatingTagOtherIssue) (OtherIssueCount s)"
  by (induction ts arbitrary: s) (simp_all add: add_tag_counters inc_swap)

lemma tag_others [simp]:
  "sum_CourierID (fold add_tag ts s) = sum_CourierID s"
  "RatingsCount (fold add_tag ts s) = RatingsCount s"
  "LowRatingsCount (fold add_tag ts s) = LowRatingsCount s"
  "Score1Count (fold add_tag ts s) = Score1Count s"
  "Score2Count (fold add_tag ts s) = Score2Count s"
  "Score3Count (fold add_tag ts s) = Score3Count s"
  "Score4Count (fold add_tag ts s) = Score4Count s"
  "Score5Count (fold add_tag ts s) = Score5Count s"
  "LastRatingAt (fold add_tag ts s) = LastRatingAt s"
  by (induction ts arbitrary: s) simp_all

lemma add_score_counters:
  "Score1Count (add_score n s) = (if n = 1 then inc (Score1Count s) else Score1Count s)"
  "Score2Count (add_score n s) = (if n = 2 then inc (Score2Count s) else Score2Count s)"
  "Score3Count (add_score n s) = (if n = 3 then inc (Score3Count s) else Score3Count s)"
  "Score4Count (add_score n s) = (if n = 4 then inc (Score4Count s) else Score4Count s)"
  "Score5Count (add_score n s) = (if n = 5 then inc (Score5Count s) else Score5Count s)"
  by (simp_all add: add_score_def)

lemma add_score_others [simp]:
  "sum_CourierID (add_score n s) = sum_CourierID s"
  "RatingsCount (add_score n s) = RatingsCount s"
  "LowRatingsCount (add_score n s) = LowRatingsCount s"
  "LastRatingAt (add_score n s) = LastRatingAt s"
  "OnTimeCount (add_score n s) = OnTimeCount s"
  "PoliteCount (add_score n s) = PoliteCount s"
  "CarefulCount (add_score n s) = CarefulCount s"
  "DelayedCount (add_score n s) = DelayedCount s"
  "RudeCount (add_score n s) = RudeCount s"
  "DamagedCount (add_score n s) = DamagedCount s"
  "OtherIssueCount (add_score n s) = OtherIssueCount s"
  by (simp_all add: add_score_def)

text \<open>One rating: the counters it raises.\<close>

lemma add_rating_counters:
  fixes rt s t
  defines "s' \<equiv> fst (add_rating rt (s, t))"
  shows "RatingsCount s' = inc (RatingsCount s)"
    "LowRatingsCount s' = (if Score rt < 3 then inc (LowRatingsCount s) else LowRatingsCount s)"
    "Score1Count s' = (if Score rt = 1 then inc (Score1Count s) else Score1Count s)"
    "Score2Count s' = (if Score rt = 2 then inc (Score2Count s) else Score2Count s)"
    "Score3Count s' = (if Score rt = 3 then inc (Score3Count s) else Score3Count s)"
    "Score4Count s' = (if Score rt = 4 then inc (Score4Count s) else Score4Count s)"
    "Score5Count s' = (if Score rt = 5 then inc (Score5Count s) else Score5Count s)"
    "OnTimeCount s' = (inc ^^ count_list (Tags rt) CourierRatingTagOnTime) (OnTimeCount s)"
    "PoliteCount s' = (inc ^^ count_list (Tags rt) CourierRatingTagPolite) (PoliteCount s)"
    "CarefulCount s' = (inc ^^ count_list (Tags rt) CourierRatingTagCarefulHandling) (CarefulCount s)"
    "DelayedCount s' = (inc ^^ count_list (Tags rt) CourierRatingTagDelayedDelivery) (DelayedCount s)"
    "RudeCount s' = (inc ^^ count_list (Tags rt) CourierRatingTagRudeBehavior) (RudeCount s)"
    "DamagedCount s' = (inc ^^ count_list (Tags rt) CourierRatingTagDamagedOrder) (DamagedCount s)"
    "OtherIssueCount s' = (inc ^^ count_list (Tags rt) CourierRatingTagOtherIssue) (OtherIssueCount s)"
    "LastRatingAt s' = (if LastRatingAt s = 0 \<or> rating_CreatedAt rt > LastRatingAt s then rating_CreatedAt rt
       else LastRatingAt s)"
    "sum_CourierID s' = sum_CourierID s"
  by (simp_all add: s'_def add_rating_def Let_def add_score_counters tag_counters IsZero_def)

lemma add_rating_total: "snd (add_rating rt (s, t)) = int64 (t + Score rt)"
  by (simp add: add_rating_def Let_def)

section \<open>All ratings\<close>

definition tag_total :: "CourierRatingTag \<Rightarrow> CourierRating list \<Rightarrow> nat" where
  "tag_total tag rs = (\<Sum>r \<leftarrow> rs. count_list (Tags r) tag)"

lemma rating_counters:
  fixes rs a
  defines "s' \<equiv> fst (fold add_rating rs a)"
  shows "RatingsCount s' = (inc ^^ length rs) (RatingsCount (fst a))"
    "LowRatingsCount s' = (inc ^^ length (filter (\<lambda>r. Score r < 3) rs)) (LowRatingsCount (fst a))"
    "Score1Count s' = (inc ^^ length (filter (\<lambda>r. Score r = 1) rs)) (Score1Count (fst a))"
    "Score2Count s' = (inc ^^ length (filter (\<lambda>r. Score r = 2) rs)) (Score2Count (fst a))"
    "Score3Count s' = (inc ^^ length (filter (\<lambda>r. Score r = 3) rs)) (Score3Count (fst a))"
    "Score4Count s' = (inc ^^ length (filter (\<lambda>r. Score r = 4) rs)) (Score4Count (fst a))"
    "Score5Count s' = (inc ^^ length (filter (\<lambda>r. Score r = 5) rs)) (Score5Count (fst a))"
    "OnTimeCount s' = (inc ^^ tag_total CourierRatingTagOnTime rs) (OnTimeCount (fst a))"
    "PoliteCount s' = (inc ^^ tag_total CourierRatingTagPolite rs) (PoliteCount (fst a))"
    "CarefulCount s' = (inc ^^ tag_total CourierRatingTagCarefulHandling rs) (CarefulCount (fst a))"
    "DelayedCount s' = (inc ^^ tag_total CourierRatingTagDelayedDelivery rs) (DelayedCount (fst a))"
    "RudeCount s' = (inc ^^ tag_total CourierRatingTagRudeBehavior rs) (RudeCount (fst a))"
    "DamagedCount s' = (inc ^^ tag_total CourierRatingTagDamagedOrder rs) (DamagedCount (fst a))"
    "OtherIssueCount s' = (inc ^^ tag_total CourierRatingTagOtherIssue rs) (OtherIssueCount (fst a))"
    "sum_CourierID s' = sum_CourierID (fst a)"
  unfolding s'_def
  by (induction rs arbitrary: a)
    (simp_all add: tag_total_def inc_add inc_swap
      add_rating_counters [of _ "fst a" "snd a" for a, unfolded prod.collapse])


lemma int64_sum: "int64 (fold (\<lambda>x t. int64 (t + x)) xs t) = int64 (t + sum_list xs)"
proof (induction xs arbitrary: t)
  case (Cons x xs)
  show ?case by (simp add: Cons.IH int64_add_left add.assoc)
qed simp

lemma rating_total: "snd (fold add_rating rs a) = fold (\<lambda>x t. int64 (t + x)) (map Score rs) (snd a)"
proof (induction rs arbitrary: a)
  case (Cons r rs)
  show ?case using add_rating_total [of r "fst a" "snd a"] by (simp add: Cons.IH)
qed simp

lemma rating_total_exact:
  assumes "rs \<noteq> []" and "in_int64 (\<Sum>r \<leftarrow> rs. Score r)"
  shows "snd (fold add_rating rs (s, 0)) = (\<Sum>r \<leftarrow> rs. Score r)"
proof -
  obtain ys y where rs: "rs = ys @ [y]" using assms(1) by (cases rs rule: rev_cases) auto
  let ?f = "fold (\<lambda>x t. int64 (t + x))"
  have "?f (map Score rs) 0 = int64 (?f (map Score ys) 0 + Score y)" by (simp add: rs)
  also have "\<dots> = int64 (int64 (?f (map Score ys) 0) + Score y)" by (simp add: int64_add_left)
  also have "\<dots> = int64 (\<Sum>r \<leftarrow> rs. Score r)" by (simp add: int64_sum int64_add_left rs)
  finally show ?thesis using assms(2) by (simp add: rating_total)
qed

text \<open>The latest of the ratings, all of which carry a time.\<close>

lemma last_rating:
  assumes "\<forall>r \<in> set rs. 0 < rating_CreatedAt r" and "0 \<le> LastRatingAt (fst a)"
  shows "LastRatingAt (fst (fold add_rating rs a)) = Max (insert (LastRatingAt (fst a)) (rating_CreatedAt ` set rs))"
  using assms
proof (induction rs arbitrary: a)
  case (Cons r rs)
  let ?l = "LastRatingAt (fst a)" and ?c = "rating_CreatedAt r"
  have step: "LastRatingAt (fst (add_rating r a)) = max ?l ?c"
    using Cons.prems add_rating_counters(15) [of r "fst a" "snd a"] by (auto simp: max_def)
  have "LastRatingAt (fst (fold add_rating (r # rs) a)) = Max (insert (max ?l ?c) (rating_CreatedAt ` set rs))"
    using Cons.IH [of "add_rating r a"] Cons.prems step by simp
  also have "\<dots> = Max (insert ?l (insert ?c (rating_CreatedAt ` set rs)))"
    by (cases "rs = []") (simp_all add: max.assoc)
  finally show ?case by simp
qed simp

section \<open>From lists to the store\<close>

definition how_many :: "(CourierRating \<Rightarrow> bool) \<Rightarrow> (string \<rightharpoonup> CourierRating) \<Rightarrow> int" where
  "how_many P m = int (card {a. \<exists>rt. m a = Some rt \<and> P rt})"

lemma how_many_range:
  assumes "range_order m ks" shows "int (length (filter P (range_vals m ks))) = how_many P m"
proof -
  have "length (filter P (range_vals m ks)) = length (filter (\<lambda>a. \<exists>rt. m a = Some rt \<and> P rt) ks)"
    by (induction ks) (auto split: option.split)
  also have "\<dots> = card (set (filter (\<lambda>a. \<exists>rt. m a = Some rt \<and> P rt) ks))"
    using assms by (intro distinct_card [symmetric]) (simp add: range_order_def)
  also have "set (filter (\<lambda>a. \<exists>rt. m a = Some rt \<and> P rt) ks) = {a. \<exists>rt. m a = Some rt \<and> P rt}"
    using assms by (auto simp: range_order_def)
  finally show ?thesis by (simp add: how_many_def)
qed

lemma tag_total_filter:
  assumes "\<forall>r \<in> set rs. distinct (Tags r)"
  shows "tag_total tag rs = length (filter (\<lambda>r. tag \<in> set (Tags r)) rs)"
proof -
  have "count_list xs tag = (if tag \<in> set xs then 1 else 0)" if "distinct xs" for xs
    using that by (induction xs) (auto simp: count_list_0_iff)
  with assms show ?thesis by (induction rs) (auto simp: tag_total_def)
qed


lemma range_vals_map: "set ks \<subseteq> dom m \<Longrightarrow> range_vals m ks = map (\<lambda>k. the (m k)) ks"
  by (induction ks) (auto split: option.splits)

text \<open>The mean of valid scores lies in their range, rounded or not.\<close>

lemma score_total:
  assumes "\<forall>rt \<in> set rs. 1 \<le> Score rt \<and> Score rt \<le> 5"
  shows "int (length rs) \<le> (\<Sum>rt \<leftarrow> rs. Score rt)" and "(\<Sum>rt \<leftarrow> rs. Score rt) \<le> 5 * int (length rs)"
  using assms by (induction rs) auto

lemma mean_score:
  assumes "\<forall>rt \<in> set rs. 1 \<le> Score rt \<and> Score rt \<le> 5" and "rs \<noteq> []"
  shows "1 \<le> rnd64 (of_int (\<Sum>rt \<leftarrow> rs. Score rt) / of_int (int (length rs)))"
    and "rnd64 (of_int (\<Sum>rt \<leftarrow> rs. Score rt) / of_int (int (length rs))) \<le> 5"
proof -
  have "(of_int (int (length rs)) :: rat) \<le> of_int (\<Sum>rt \<leftarrow> rs. Score rt)"
      "(of_int (\<Sum>rt \<leftarrow> rs. Score rt) :: rat) \<le> of_int (5 * int (length rs))"
    using score_total [OF assms(1)] by (simp_all only: of_int_le_iff)
  then have "1 \<le> of_int (\<Sum>rt \<leftarrow> rs. Score rt) / (of_int (int (length rs)) :: rat)"
      "of_int (\<Sum>rt \<leftarrow> rs. Score rt) / (of_int (int (length rs)) :: rat) \<le> 5"
    using assms(2) by (simp_all add: le_divide_eq divide_le_eq)
  then show "1 \<le> rnd64 (of_int (\<Sum>rt \<leftarrow> rs. Score rt) / of_int (int (length rs)))"
      "rnd64 (of_int (\<Sum>rt \<leftarrow> rs. Score rt) / of_int (int (length rs))) \<le> 5"
    using float64_int [of 1] float64_int [of 5] by (simp_all add: rnd64_ge rnd64_le)
qed

text \<open>What a summary of the ratings \<open>m\<close> has to say.\<close>

definition summary_of :: "string \<Rightarrow> (string \<rightharpoonup> CourierRating) \<Rightarrow> CourierRatingSummary \<Rightarrow> bool" where
  "summary_of i m s \<longleftrightarrow> sum_CourierID s = i \<and> RatingsCount s = how_many (\<lambda>_. True) m
       \<and> AverageScore s = rnd64 (of_int (\<Sum>a \<in> dom m. Score (the (m a))) / of_int (RatingsCount s))
       \<and> 1 \<le> AverageScore s \<and> AverageScore s \<le> 5
       \<and> LowRatingsCount s = how_many (\<lambda>rt. Score rt < 3) m
       \<and> Score1Count s = how_many (\<lambda>rt. Score rt = 1) m \<and> Score2Count s = how_many (\<lambda>rt. Score rt = 2) m
        \<and> Score3Count s = how_many (\<lambda>rt. Score rt = 3) m \<and> Score4Count s = how_many (\<lambda>rt. Score rt = 4) m
        \<and> Score5Count s = how_many (\<lambda>rt. Score rt = 5) m
       \<and> OnTimeCount s = how_many (\<lambda>rt. CourierRatingTagOnTime \<in> set (Tags rt)) m
       \<and> PoliteCount s = how_many (\<lambda>rt. CourierRatingTagPolite \<in> set (Tags rt)) m
       \<and> CarefulCount s = how_many (\<lambda>rt. CourierRatingTagCarefulHandling \<in> set (Tags rt)) m
       \<and> DelayedCount s = how_many (\<lambda>rt. CourierRatingTagDelayedDelivery \<in> set (Tags rt)) m
       \<and> RudeCount s = how_many (\<lambda>rt. CourierRatingTagRudeBehavior \<in> set (Tags rt)) m
       \<and> DamagedCount s = how_many (\<lambda>rt. CourierRatingTagDamagedOrder \<in> set (Tags rt)) m
       \<and> OtherIssueCount s = how_many (\<lambda>rt. CourierRatingTagOtherIssue \<in> set (Tags rt)) m
       \<and> LastRatingAt s = Max (rating_CreatedAt ` ran m)"

lemma summary_counters:
  assumes "range_order m ks" and "\<forall>a rt. m a = Some rt \<longrightarrow> distinct (Tags rt)" and "int (length ks) < 2 ^ 60"
    and "(s, t) = fold add_rating (range_vals m ks) (empty_summary i, 0)"
  shows "summary_of i m (s\<lparr>AverageScore := avg\<rparr>) \<longleftrightarrow>
    avg = rnd64 (of_int (\<Sum>a \<in> dom m. Score (the (m a))) / of_int (RatingsCount s)) \<and> 1 \<le> avg \<and> avg \<le> 5
      \<and> LastRatingAt s = Max (rating_CreatedAt ` ran m)"
proof -
  let ?rs = "range_vals m ks"
  have s: "s = fst (fold add_rating ?rs (empty_summary i, 0))" by (simp add: assms(4) [symmetric])
  have "length ?rs \<le> length ks" by (induction ks) (auto split: option.split)
  then have small: "int (length (filter P ?rs)) < 2 ^ 63" for P
  proof -
    have "int (length (filter P ?rs)) \<le> int (length ks)"
      using \<open>length ?rs \<le> length ks\<close> length_filter_le [of P ?rs] by linarith
    also have "\<dots> < 2 ^ 63" using assms(3) by simp
    finally show ?thesis .
  qed
  have count: "(inc ^^ length (filter P ?rs)) 0 = how_many P m" for P
    using inc_iterate [OF small] how_many_range [OF assms(1)] by simp
  have "tag_total tag ?rs = length (filter (\<lambda>r. tag \<in> set (Tags r)) ?rs)" for tag
    by (rule tag_total_filter) (use assms(2) in \<open>auto simp: set_range_vals\<close>)
  then show ?thesis
    using count [of "\<lambda>_. True"] by (simp add: summary_of_def s rating_counters count empty_summary_def)
qed

text \<open>C38. The rating summary equals its order-free reference: whatever order the map is visited in, each
  counter is the number of stored ratings of its score or with its tag, the average is the exact mean of the scores
  rounded once to \<open>float64\<close> and lies between 1 and 5, and the last rating is the latest. The courier has at least one
  rating and fewer than \<open>2\<^sup>5\<^sup>0\<close>, all with a time of creation.\<close>

theorem rating_summary_correct:
  assumes "reachable r" and "couriers r i \<noteq> None" and "TrimSpace i = i" and "i \<noteq> []"
    and "range_order (inner (ratingsByCourier r) i) ks" and "ks \<noteq> []" and "int (length ks) < 2 ^ 50"
    and "\<forall>a rt. inner (ratingsByCourier r) i a = Some rt \<longrightarrow> 0 < rating_CreatedAt rt"
  shows "\<exists>s. courier_GetRatingSummary ks i r = Inr s \<and> summary_of i (inner (ratingsByCourier r) i) s"
proof -
  let ?m = "inner (ratingsByCourier r) i"
  let ?rs = "range_vals ?m ks"
  obtain s t where st: "(s, t) = fold add_rating ?rs (empty_summary i, 0)" by (metis surj_pair)
  have rs: "?rs = map (\<lambda>k. the (?m k)) ks" using assms(5) by (intro range_vals_map) (simp add: range_order_def)
  then have ne: "?rs \<noteq> []" using assms(6) by simp
  have valid: "1 \<le> Score rt \<and> Score rt \<le> 5 \<and> distinct (Tags rt)" if "?m a = Some rt" for a rt
    using reachable_ok [OF assms(1)] that by (simp add: repo_ok_def ratings_ok_def CourierRating_valid_iff)
  have sum: "(\<Sum>rt \<leftarrow> ?rs. Score rt) = (\<Sum>a \<in> dom ?m. Score (the (?m a)))"
    using assms(5) by (simp add: rs comp_def range_order_def sum_list_distinct_conv_sum_set)
  have scores: "\<forall>rt \<in> set ?rs. 1 \<le> Score rt \<and> Score rt \<le> 5"
    using valid unfolding set_range_vals_ran [OF assms(5)] by (auto simp: ran_def)
  have len: "length ?rs = length ks" by (simp add: rs)
  have t_range: "0 \<le> (\<Sum>rt \<leftarrow> ?rs. Score rt)" "(\<Sum>rt \<leftarrow> ?rs. Score rt) \<le> 2 ^ 53"
    using score_total [OF scores] assms(7) unfolding len by simp_all
  then have "in_int64 (\<Sum>rt \<leftarrow> ?rs. Score rt)" by (simp add: in_int64_def)
  then have t: "t = (\<Sum>rt \<leftarrow> ?rs. Score rt)"
    using rating_total_exact [OF ne, of "empty_summary i"] by (simp add: st [symmetric])
  have n: "RatingsCount s = int (length ?rs)"
    using rating_counters(1) [of ?rs "(empty_summary i, 0)"] assms(7) inc_iterate [of "length ks"] len
    unfolding st [symmetric] by (simp add: empty_summary_def)
  define avg where "avg = rnd64 (rnd64 (of_int t) / rnd64 (of_int (RatingsCount s)))"
  have avg: "avg = rnd64 (of_int t / of_int (RatingsCount s))"
    unfolding avg_def by (rule rnd64_quotient) (use t_range assms(7) n len in \<open>simp_all add: t\<close>)
  have last: "LastRatingAt s = Max (rating_CreatedAt ` ran ?m)"
  proof -
    have pos: "\<forall>rt \<in> set ?rs. 0 < rating_CreatedAt rt" using assms(8) by (auto simp: set_range_vals)
    have "LastRatingAt s = Max (insert 0 (rating_CreatedAt ` set ?rs))"
      using last_rating [OF pos, of "(empty_summary i, 0)"] unfolding st [symmetric] by (simp add: empty_summary_def)
    also have "\<dots> = max 0 (Max (rating_CreatedAt ` set ?rs))" using ne by (intro Max_insert) auto
    also have "\<dots> = Max (rating_CreatedAt ` set ?rs)"
    proof -
      obtain rt where "rt \<in> set ?rs" using ne by (meson list.set_sel(1))
      then have "0 < rating_CreatedAt rt" "rating_CreatedAt rt \<le> Max (rating_CreatedAt ` set ?rs)" using pos by auto
      then show ?thesis by (simp add: max_def)
    qed
    finally show ?thesis by (simp add: set_range_vals_ran [OF assms(5)])
  qed
  have "summary_of i ?m (s\<lparr>AverageScore := avg\<rparr>)"
    using summary_counters [OF assms(5) _ _ st, of avg] valid assms(7) last avg mean_score [OF scores ne]
    by (simp add: t n sum)
  moreover have "courier_GetRatingSummary ks i r = Inr (s\<lparr>AverageScore := avg\<rparr>)"
    using assms(2-4) ne st [symmetric] unfolding avg_def by (cases ?rs) (auto simp: courier_GetRatingSummary_def)
  ultimately show ?thesis by blast
qed

definition thanks :: CourierRating where
  "thanks = \<lparr>rating_ID = ''r1'', rating_CourierID = ''c1'', Score = 5, Tags = [CourierRatingTagPolite],
     Comment = ''thank you'', rating_CreatedAt = 8\<rparr>"

definition garage6 :: courier_repo where
  "garage6 = snd (courier_SubmitRating 8 thanks garage1)"

lemma garage6_ratings: "inner (ratingsByCourier garage6) ''c1'' = [''r1'' \<mapsto> thanks]"
proof -
  have "couriers garage1 ''c1'' \<noteq> None" by code_simp
  moreover have "CourierRating_ValidateInvariants thanks = []" by code_simp
  moreover have "ratingsByCourier garage1 = Map.empty"
    using garage1_created
  proof (cases rule: Create_ok)
    case (1 c')
    show ?thesis unfolding 1(5) by (simp add: NewCourierRepository_def)
  qed
  ultimately show ?thesis
    by (auto simp: garage6_def courier_SubmitRating_def thanks_def inner_def clone_defs IsZero_def firstValidationErr_def)
qed

theorem rating_summary_correct_witness:
  "\<exists>s. courier_GetRatingSummary [''r1''] ''c1'' garage6 = Inr s \<and> summary_of ''c1'' [''r1'' \<mapsto> thanks] s"
proof -
  have r: "reachable garage6"
    by (rule reachable.rating [OF garage_reachable(1)]) (simp add: garage6_def prod_eq_iff)
  have facts: "couriers garage6 ''c1'' \<noteq> None" "TrimSpace ''c1'' = ''c1''" by code_simp+
  show ?thesis
    using rating_summary_correct [OF r facts, of "[''r1'']"]
    by (simp add: garage6_ratings range_order_def thanks_def)
qed

end
