(* ===== verification/Resilience.thy ===== *)
theory Resilience
  imports Saga Float64
begin

text \<open>
  \<open>internal/service/saga/retry.go\<close>: the retry wrapper and the circuit breaker around an orchestrator.

  \<^item> \<open>Execute\<close> holds the breaker's mutex twice, before and after it calls the operation, so it is two atomic
    functions, \<open>cb_enter\<close> and \<open>cb_leave\<close>, with the operation between them. \<open>cb_step\<close> interleaves any number of
    concurrent calls.
  \<^item> The delay of \<open>executeWithRetry\<close> is multiplied as a \<open>float64\<close> (theory \<open>Float64\<close>) and truncated; a product
    outside the range of a duration is not converted to what the machine makes of it.
  \<^item> The wrappers' logging is left out, \<open>warnRetryUnsupported\<close> among it.
\<close>

section \<open>Retries\<close>

record RetryConfig =
  MaxAttempts :: int
  InitialDelay :: duration
  MaxDelay :: duration
  BackoffFactor :: rat

definition DefaultRetryConfig :: RetryConfig where
  "DefaultRetryConfig = \<lparr>MaxAttempts = 3, InitialDelay = 100 * millisecond, MaxDelay = 5 * second, BackoffFactor = 2\<rparr>"

definition shouldRetry :: "error \<Rightarrow> bool" where
  "shouldRetry err =
     (if errors_Is err ErrOrderNotFound \<or> errors_Is err ErrOrderVersionConflict
         \<or> errors_Is err ErrInventoryUnavailable \<or> errors_Is err ErrPaymentDeclined then False
      else if errors_Is err ErrInventoryTemporary \<or> errors_Is err ErrPaymentTemporary
         \<or> errors_Is err ErrPaymentIndeterminate then True
      else True)"

text \<open>\<open>float64(delay) * factor\<close> converted back to a duration: truncated towards zero.\<close>

definition scale_delay :: "duration \<Rightarrow> rat \<Rightarrow> duration" where
  "scale_delay delay factor = (let x = rnd64 (rnd64 (of_int delay) * factor) in if x < 0 then \<lceil>x\<rceil> else \<lfloor>x\<rfloor>)"

text \<open>The loop of \<open>executeWithRetry\<close>: \<open>left\<close> counts the attempts still allowed, this one included.\<close>

fun retry_loop ::
  "RetryConfig \<Rightarrow> ('w, error option) prog \<Rightarrow> (duration \<Rightarrow> ('w, unit) prog) \<Rightarrow> nat \<Rightarrow> duration \<Rightarrow> ('w, unit) prog" where
  "retry_loop cfg fn sleep 0 delay = skip"
| "retry_loop cfg fn sleep (Suc left) delay = do {
     res \<leftarrow> fn;
     (case res of
        None \<Rightarrow> skip
      | Some err \<Rightarrow>
          if \<not> shouldRetry err then skip
          else if left > 0 then do {
            sleep delay;
            (let next_delay = scale_delay delay (BackoffFactor cfg)
             in retry_loop cfg fn sleep left (if next_delay > MaxDelay cfg then MaxDelay cfg else next_delay))
          }
          else retry_loop cfg fn sleep left delay)
   }"

definition executeWithRetry ::
  "RetryConfig \<Rightarrow> ('w, error option) prog \<Rightarrow> (duration \<Rightarrow> ('w, unit) prog) \<Rightarrow> ('w, unit) prog" where
  "executeWithRetry cfg fn sleep = retry_loop cfg fn sleep (nat (MaxAttempts cfg)) (InitialDelay cfg)"

text \<open>The methods of \<open>RetryableOrchestrator\<close> call the wrapped orchestrator once.\<close>

definition retryable_run :: "'w orchestrator \<Rightarrow> saga_call \<Rightarrow> ('w, unit) prog" where
  "retryable_run orc call = saga_run orc call"

section \<open>The circuit breaker\<close>

datatype CircuitState = CircuitClosed | CircuitOpen | CircuitHalfOpen

record CircuitBreaker =
  maxFailures :: int
  resetTimeout :: duration
  failures :: int
  lastFailure :: gotime
  cb_state :: CircuitState

definition NewCircuitBreaker :: "int \<Rightarrow> duration \<Rightarrow> CircuitBreaker" where
  "NewCircuitBreaker max_failures timeout =
     \<lparr>maxFailures = max_failures, resetTimeout = timeout, failures = 0, lastFailure = 0, cb_state = CircuitClosed\<rparr>"

text \<open>The first critical section of \<open>Execute\<close> at time \<open>now\<close>: whether the call is let through.\<close>

definition cb_enter :: "gotime \<Rightarrow> CircuitBreaker \<Rightarrow> bool \<times> CircuitBreaker" where
  "cb_enter now cb =
     (if cb_state cb = CircuitOpen then
        if Sub now (lastFailure cb) > resetTimeout cb then (True, cb\<lparr>cb_state := CircuitHalfOpen\<rparr>)
        else (False, cb)
      else (True, cb))"

text \<open>The second one, with the result of the operation.\<close>

definition cb_leave :: "gotime \<Rightarrow> error option \<Rightarrow> CircuitBreaker \<Rightarrow> CircuitBreaker" where
  "cb_leave now res cb =
     (case res of
        Some err \<Rightarrow>
          let cb1 = cb\<lparr>failures := int64 (failures cb + 1), lastFailure := now\<rparr>
          in if cb_state cb1 = CircuitHalfOpen \<or> failures cb1 \<ge> maxFailures cb1
             then cb1\<lparr>cb_state := CircuitOpen\<rparr> else cb1
      | None \<Rightarrow>
          let cb1 = (if cb_state cb = CircuitHalfOpen then cb\<lparr>cb_state := CircuitClosed\<rparr> else cb)
          in cb1\<lparr>failures := 0\<rparr>)"

definition Execute ::
  "gotime \<Rightarrow> gotime \<Rightarrow> ('w, error option) prog \<Rightarrow> (CircuitBreaker \<times> 'w, error option) prog" where
  "Execute entered left fn = State (\<lambda>(cb, w).
     case cb_enter entered cb of
       (False, cb1) \<Rightarrow> (Some (Opaque ''circuit breaker is open''), (cb1, w))
     | (True, cb1) \<Rightarrow> (case run_state fn w of (err, w1) \<Rightarrow> (err, (cb_leave left err cb1, w1))))"

text \<open>\<open>CircuitBreakerOrchestrator\<close>: \<open>Start\<close>, \<open>Cancel\<close> and \<open>Refund\<close> through the breaker, with an operation that
  always returns nil.\<close>

definition breaker_run ::
  "'w orchestrator \<Rightarrow> gotime \<Rightarrow> gotime \<Rightarrow> saga_call \<Rightarrow> (CircuitBreaker \<times> 'w, unit) prog" where
  "breaker_run orc entered left call = do {
     _ \<leftarrow> Execute entered left (do { saga_run orc call; return None });
     skip
   }"

section \<open>Concurrent calls\<close>

text \<open>A breaker and the number of calls between their two critical sections. Any number of callers interleave;
  nothing is assumed about the clock.\<close>

inductive cb_step :: "CircuitBreaker \<times> nat \<Rightarrow> CircuitBreaker \<times> nat \<Rightarrow> bool" where
  admit: "cb_enter now cb = (True, cb') \<Longrightarrow> cb_step (cb, n) (cb', Suc n)"
| reject: "cb_enter now cb = (False, cb') \<Longrightarrow> cb_step (cb, n) (cb', n)"
| finish: "cb_step (cb, Suc n) (cb_leave now res cb, n)"

inductive_cases cb_stepE [elim!]: "cb_step (cb, n) (cb', n')"

definition closed_below_limit :: "CircuitBreaker \<Rightarrow> bool" where
  "closed_below_limit cb \<longleftrightarrow> (cb_state cb = CircuitClosed \<longrightarrow> 0 \<le> failures cb \<and> failures cb < maxFailures cb)"

definition same_config :: "CircuitBreaker \<Rightarrow> CircuitBreaker \<Rightarrow> bool" where
  "same_config a b \<longleftrightarrow> maxFailures a = maxFailures b \<and> resetTimeout a = resetTimeout b"

lemma enter_invariant:
  "cb_enter now cb = (b, cb') \<Longrightarrow> closed_below_limit cb \<Longrightarrow> closed_below_limit cb' \<and> same_config cb cb'"
  by (auto simp: cb_enter_def closed_below_limit_def same_config_def split: if_splits)

lemma leave_invariant:
  assumes "0 < maxFailures cb" and "maxFailures cb \<le> max_int64" and "closed_below_limit cb"
  shows "closed_below_limit (cb_leave now res cb) \<and> same_config cb (cb_leave now res cb)"
proof (cases "cb_state cb = CircuitClosed")
  case True
  then have "in_int64 (failures cb + 1)" using assms by (simp add: closed_below_limit_def in_int64_def)
  then show ?thesis
    using assms True by (auto simp: cb_leave_def closed_below_limit_def same_config_def Let_def split: option.split)
next
  case False
  then show ?thesis
    using assms by (auto simp: cb_leave_def closed_below_limit_def same_config_def Let_def split: option.split)
qed

lemma steps_invariant:
  assumes "cb_step\<^sup>*\<^sup>* (NewCircuitBreaker m timeout, 0) (cb, n)" and "0 < m" and "m \<le> max_int64"
  shows "closed_below_limit cb \<and> same_config (NewCircuitBreaker m timeout) cb"
  using assms(1)
proof (induction "(cb, n)" arbitrary: cb n rule: rtranclp_induct)
  case base
  then show ?case using assms(2) by (simp add: closed_below_limit_def same_config_def NewCircuitBreaker_def)
next
  case (step y)
  obtain cb0 n0 where y: "y = (cb0, n0)" by fastforce
  from step.hyps(3) [OF y] have inv: "closed_below_limit cb0" "same_config (NewCircuitBreaker m timeout) cb0" by simp_all
  then have "0 < maxFailures cb0" "maxFailures cb0 \<le> max_int64"
    using assms(2,3) by (simp_all add: same_config_def NewCircuitBreaker_def)
  then show ?case
    using step.hyps(2) inv enter_invariant [of _ cb0] leave_invariant [of cb0] unfolding y
    by (auto simp: same_config_def)
qed

section \<open>Properties\<close>

text \<open>However concurrent calls interleave, a closed breaker has counted fewer failures than its limit: it
  is never closed after its limit was reached.\<close>

theorem breaker_closed_below_limit:
  assumes "cb_step\<^sup>*\<^sup>* (NewCircuitBreaker m timeout, 0) (cb, n)" and "0 < m" and "m \<le> max_int64"
    and "cb_state cb = CircuitClosed"
  shows "0 \<le> failures cb \<and> failures cb < m"
  using steps_invariant [OF assms(1-3)] assms(4)
  by (simp add: closed_below_limit_def same_config_def NewCircuitBreaker_def)

lemma one_failure:
  "cb_step\<^sup>*\<^sup>* (NewCircuitBreaker 3 second, 0) (cb_leave 5 (Some (E ErrInventoryTemporary)) (NewCircuitBreaker 3 second), 0)"
proof -
  have "cb_step (NewCircuitBreaker 3 second, 0) (NewCircuitBreaker 3 second, 1)"
    using cb_step.admit [of 4 "NewCircuitBreaker 3 second" "NewCircuitBreaker 3 second" 0]
    by (simp add: cb_enter_def NewCircuitBreaker_def)
  moreover have "cb_step (NewCircuitBreaker 3 second, 1) (cb_leave 5 (Some (E ErrInventoryTemporary)) (NewCircuitBreaker 3 second), 0)"
    using cb_step.finish [of "NewCircuitBreaker 3 second" 0] by simp
  ultimately show ?thesis by (meson converse_rtranclp_into_rtranclp rtranclp.rtrancl_refl)
qed

theorem breaker_closed_below_limit_witness:
  "failures (cb_leave 5 (Some (E ErrInventoryTemporary)) (NewCircuitBreaker 3 second)) < 3"
  using breaker_closed_below_limit [OF one_failure]
  by (simp add: cb_leave_def NewCircuitBreaker_def int64_def)


record outage =
  breaker :: CircuitBreaker
  in_flight :: nat
  peak :: nat
  reached :: nat
  refused :: nat
  failed :: nat













text \<open>A breaker recovers: once the timeout since the last failure has passed, the next call is let through,
  whatever happened before, and when it succeeds the breaker is closed with its failures forgotten.\<close>

theorem breaker_recovers:
  assumes "Sub entered (lastFailure cb) > resetTimeout cb" and "run_state fn w = (None, w')"
  shows "\<exists>cb'. run_state (Execute entered left fn) (cb, w) = (None, (cb', w'))
    \<and> cb_state cb' = CircuitClosed \<and> failures cb' = 0"
  using assms by (cases "cb_state cb") (simp_all add: Execute_def cb_enter_def cb_leave_def)

theorem breaker_recovers_witness:
  "\<exists>cb'. run_state (Execute (3 * second) (3 * second) (return None))
       (\<lparr>maxFailures = 2, resetTimeout = second, failures = 2, lastFailure = second, cb_state = CircuitOpen\<rparr>, ())
     = (None, (cb', ())) \<and> cb_state cb' = CircuitClosed"
  using breaker_recovers [where entered = "3 * second" and left = "3 * second" and fn = "return None" and w = "()"
      and cb = "\<lparr>maxFailures = 2, resetTimeout = second, failures = 2, lastFailure = second, cb_state = CircuitOpen\<rparr>"]
  by (auto simp: Sub_def)

text \<open>The operations that \<open>CircuitBreakerOrchestrator\<close> hands to its breaker always return nil, so the breaker
  never counts a failure and never opens: any sequence of calls, sagas that fail among them, has exactly the
  effect of the wrapped orchestrator.\<close>

theorem breaker_orchestrator_never_trips:
  "run_state (fold (\<lambda>(entered, left, call) prog. State_Monad.bind prog (\<lambda>_. breaker_run orc entered left call)) calls skip)
       (NewCircuitBreaker m timeout, w)
     = ((), (NewCircuitBreaker m timeout,
         snd (run_state (fold (\<lambda>(entered, left, call) prog. State_Monad.bind prog (\<lambda>_. saga_run orc call)) calls skip) w)))"
proof (induction calls rule: rev_induct)
  case (snoc c calls)
  obtain entered left call where c: "c = (entered, left, call)" by (cases c) auto
  have "run_state (breaker_run orc entered left call) (NewCircuitBreaker m timeout, w0) =
      ((), (NewCircuitBreaker m timeout, snd (run_state (saga_run orc call) w0)))" for w0
    by (simp add: breaker_run_def Execute_def cb_enter_def cb_leave_def NewCircuitBreaker_def split: prod.split)
  then show ?case using snoc by (simp add: c split: prod.split)
qed simp

end
