(* ===== verification/Grpc_Courier.thy ===== *)
theory Grpc_Courier
  imports Grpc_Order Courier_Repository
begin

text \<open>
  \<open>internal/service/grpc/courier_service.go\<close>: the gRPC courier service.

  \<^item> The repository behind the service is the record \<open>courier_service\<close> of the operations the handlers call, as
    programs over a world \<open>'w\<close>; \<open>cs_has_repo\<close> says whether it is configured. A nil request is \<open>None\<close>.
  \<^item> A protobuf enum is open: a number without a name is the last constructor.
  \<^item> \<open>check\<close> is an early return on a condition, \<open>try_repo\<close> one on an error of the repository, which
    \<open>mapCourierErr\<close> turns into a status.
  \<^item> Logging is left out; the average score is the exact quotient, as in the domain.
\<close>

section \<open>Messages\<close>

datatype pb_VehicleType =
    COURIER_VEHICLE_TYPE_UNSPECIFIED | COURIER_VEHICLE_TYPE_SCOOTER | COURIER_VEHICLE_TYPE_BIKE
  | COURIER_VEHICLE_TYPE_CAR | COURIER_VEHICLE_TYPE_OTHER int

datatype pb_SlotStatus =
    COURIER_SLOT_STATUS_UNSPECIFIED | COURIER_SLOT_STATUS_PLANNED | COURIER_SLOT_STATUS_ACTIVE
  | COURIER_SLOT_STATUS_COMPLETED | COURIER_SLOT_STATUS_CANCELED

datatype pb_RatingTag =
    COURIER_RATING_TAG_UNSPECIFIED | COURIER_RATING_TAG_ON_TIME | COURIER_RATING_TAG_POLITE
  | COURIER_RATING_TAG_CAREFUL_HANDLING | COURIER_RATING_TAG_DELAYED_DELIVERY
  | COURIER_RATING_TAG_RUDE_BEHAVIOR | COURIER_RATING_TAG_DAMAGED_ORDER | COURIER_RATING_TAG_OTHER_ISSUE
  | COURIER_RATING_TAG_OTHER int

record CourierZoneInput =
  zi_ZoneId :: string
  zi_IsPrimary :: bool

record pb_CourierZone =
  pz_ZoneId :: string
  pz_IsPrimary :: bool
  pz_AssignedAtUnix :: int

record pb_Courier =
  pc_Id :: string
  pc_Phone :: string
  pc_FirstName :: string
  pc_LastName :: string
  pc_VehicleType :: pb_VehicleType
  pc_IsActive :: bool
  pc_Zones :: "pb_CourierZone list"

record pb_CourierSlot =
  ps_Id :: string
  ps_CourierId :: string
  ps_SlotStartUnix :: int
  ps_SlotEndUnix :: int
  ps_DurationHours :: int
  ps_Status :: pb_SlotStatus

record pb_Capability =
  pv_VehicleType :: pb_VehicleType
  pv_MaxWeightGrams :: int
  pv_MaxVolumeCm3 :: int
  pv_MaxOrdersPerTrip :: int
  pv_UpdatedAtUnix :: int

record pb_RatingSummary =
  pr_CourierId :: string
  pr_RatingsCount :: int
  pr_AverageScore :: rat
  pr_LowRatingsCount :: int
  pr_Score1Count :: int
  pr_Score2Count :: int
  pr_Score3Count :: int
  pr_Score4Count :: int
  pr_Score5Count :: int
  pr_LastRatingUnix :: int
  pr_OnTimeCount :: int
  pr_PoliteCount :: int
  pr_CarefulCount :: int
  pr_DelayedCount :: int
  pr_RudeCount :: int
  pr_DamagedCount :: int
  pr_OtherIssueCount :: int

record RegisterCourierRequest =
  rc_CourierId :: string
  rc_Phone :: string
  rc_FirstName :: string
  rc_LastName :: string
  rc_VehicleType :: pb_VehicleType
  rc_Zones :: "CourierZoneInput option list"

record ListCouriersByZoneRequest =
  lc_ZoneId :: string
  lc_Limit :: int

record ReplaceCourierZonesRequest =
  rz_CourierId :: string
  rz_Zones :: "CourierZoneInput option list"

record CreateCourierSlotRequest =
  sl_SlotId :: string
  sl_CourierId :: string
  sl_SlotStartUnix :: int
  sl_SlotEndUnix :: int
  sl_DurationHours :: int

record ListCourierSlotsRequest =
  ls_CourierId :: string
  ls_FromUnix :: int
  ls_ToUnix :: int

record SubmitCourierRatingRequest =
  sr_RatingId :: string
  sr_CourierId :: string
  sr_Score :: int
  sr_Tags :: "pb_RatingTag list"
  sr_Comment :: string

section \<open>Conversions\<close>

fun toDomainCourierVehicleType :: "pb_VehicleType \<Rightarrow> error + VehicleType" where
  "toDomainCourierVehicleType COURIER_VEHICLE_TYPE_SCOOTER = Inr VehicleTypeScooter"
| "toDomainCourierVehicleType COURIER_VEHICLE_TYPE_BIKE = Inr VehicleTypeBike"
| "toDomainCourierVehicleType COURIER_VEHICLE_TYPE_CAR = Inr VehicleTypeCar"
| "toDomainCourierVehicleType _ = Inl (E ErrCourierVehicleTypeInvalid)"

text \<open>The loop over the inputs: the zones so far and how many of them are primary.\<close>

fun zone_inputs_loop ::
  "string \<Rightarrow> CourierZoneInput option list \<Rightarrow> string list \<Rightarrow> CourierZone list \<Rightarrow> int
     \<Rightarrow> error + CourierZone list \<times> int" where
  "zone_inputs_loop courierID [] seen zones primaryCount = Inr (zones, primaryCount)"
| "zone_inputs_loop courierID (None # inputs) seen zones primaryCount = Inl (E ErrCourierZoneRequired)"
| "zone_inputs_loop courierID (Some input # inputs) seen zones primaryCount =
     (if TrimSpace (zi_ZoneId input) = [] then Inl (E ErrCourierZoneRequired)
      else let zoneID = NormalizeZoneID (TrimSpace (zi_ZoneId input))
      in if \<not> IsKnownMoscowZoneID zoneID then Inl (E ErrCourierZoneUnknown)
         else if zoneID \<in> set seen then Inl (E ErrCourierZoneDuplicate)
         else zone_inputs_loop courierID inputs (zoneID # seen)
           (zones @ [\<lparr>cz_CourierID = courierID, ZoneID = zoneID, IsPrimary = zi_IsPrimary input, AssignedAt = 0\<rparr>])
           (if zi_IsPrimary input then primaryCount + 1 else primaryCount))"

definition toDomainCourierZones ::
  "CourierZoneInput option list \<Rightarrow> string \<Rightarrow> VehicleType \<Rightarrow> error + CourierZone list" where
  "toDomainCourierZones inputs courierID vehicleType =
     (if inputs = [] then Inl (E ErrCourierZonesRequired)
      else if \<not> AllowsMultipleZones vehicleType \<and> length inputs > 1 then Inl (E ErrCourierZoneLimitExceeded)
      else case zone_inputs_loop courierID inputs [] [] 0 of
        Inl err \<Rightarrow> Inl err
      | Inr (zones, primaryCount) \<Rightarrow>
          if primaryCount > 1 then Inl (E ErrCourierPrimaryZoneConflict)
          else if primaryCount = 0 then
            (case zones of z # zs \<Rightarrow> Inr (z\<lparr>IsPrimary := True\<rparr> # zs) | [] \<Rightarrow> Inr [])
          else Inr zones)"

fun toDomainCourierRatingTag :: "pb_RatingTag \<Rightarrow> error + CourierRatingTag" where
  "toDomainCourierRatingTag COURIER_RATING_TAG_ON_TIME = Inr CourierRatingTagOnTime"
| "toDomainCourierRatingTag COURIER_RATING_TAG_POLITE = Inr CourierRatingTagPolite"
| "toDomainCourierRatingTag COURIER_RATING_TAG_CAREFUL_HANDLING = Inr CourierRatingTagCarefulHandling"
| "toDomainCourierRatingTag COURIER_RATING_TAG_DELAYED_DELIVERY = Inr CourierRatingTagDelayedDelivery"
| "toDomainCourierRatingTag COURIER_RATING_TAG_RUDE_BEHAVIOR = Inr CourierRatingTagRudeBehavior"
| "toDomainCourierRatingTag COURIER_RATING_TAG_DAMAGED_ORDER = Inr CourierRatingTagDamagedOrder"
| "toDomainCourierRatingTag COURIER_RATING_TAG_OTHER_ISSUE = Inr CourierRatingTagOtherIssue"
| "toDomainCourierRatingTag _ = Inl (E ErrCourierRatingTagInvalid)"

fun toDomainCourierRatingTags :: "pb_RatingTag list \<Rightarrow> error + CourierRatingTag list" where
  "toDomainCourierRatingTags [] = Inr []"
| "toDomainCourierRatingTags (value # values) =
     (case toDomainCourierRatingTag value of
        Inl err \<Rightarrow> Inl err
      | Inr tag \<Rightarrow> (case toDomainCourierRatingTags values of Inl err \<Rightarrow> Inl err | Inr tags \<Rightarrow> Inr (tag # tags)))"

fun toProtoCourierVehicleType :: "VehicleType \<Rightarrow> pb_VehicleType" where
  "toProtoCourierVehicleType VehicleTypeScooter = COURIER_VEHICLE_TYPE_SCOOTER"
| "toProtoCourierVehicleType VehicleTypeBike = COURIER_VEHICLE_TYPE_BIKE"
| "toProtoCourierVehicleType VehicleTypeCar = COURIER_VEHICLE_TYPE_CAR"
| "toProtoCourierVehicleType (VehicleTypeOther s) = COURIER_VEHICLE_TYPE_UNSPECIFIED"

fun toProtoCourierSlotStatus :: "CourierSlotStatus \<Rightarrow> pb_SlotStatus" where
  "toProtoCourierSlotStatus CourierSlotStatusPlanned = COURIER_SLOT_STATUS_PLANNED"
| "toProtoCourierSlotStatus CourierSlotStatusActive = COURIER_SLOT_STATUS_ACTIVE"
| "toProtoCourierSlotStatus CourierSlotStatusCompleted = COURIER_SLOT_STATUS_COMPLETED"
| "toProtoCourierSlotStatus CourierSlotStatusCanceled = COURIER_SLOT_STATUS_CANCELED"
| "toProtoCourierSlotStatus (CourierSlotStatusOther s) = COURIER_SLOT_STATUS_UNSPECIFIED"

definition toProtoInt32 :: "int \<Rightarrow> int" where
  "toProtoInt32 v = (if v > 2 ^ 31 - 1 then 2 ^ 31 - 1 else if v < - (2 ^ 31) then - (2 ^ 31) else int32 v)"

definition toProtoCourierZones :: "CourierZone list \<Rightarrow> pb_CourierZone list" where
  "toProtoCourierZones zones = map (\<lambda>zone. \<lparr>pz_ZoneId = ZoneID zone, pz_IsPrimary = IsPrimary zone,
     pz_AssignedAtUnix = Unix (AssignedAt zone)\<rparr>) zones"

definition toProtoCourier :: "Courier \<Rightarrow> CourierZone list \<Rightarrow> pb_Courier" where
  "toProtoCourier courier zones =
     \<lparr>pc_Id = courier_ID courier, pc_Phone = Phone courier, pc_FirstName = FirstName courier,
      pc_LastName = LastName courier, pc_VehicleType = toProtoCourierVehicleType (courier_VehicleType courier),
      pc_IsActive = IsActive courier, pc_Zones = toProtoCourierZones zones\<rparr>"

definition toProtoCourierSlot :: "CourierSlot \<Rightarrow> pb_CourierSlot" where
  "toProtoCourierSlot slot =
     \<lparr>ps_Id = slot_ID slot, ps_CourierId = slot_CourierID slot, ps_SlotStartUnix = Unix (SlotStart slot),
      ps_SlotEndUnix = Unix (SlotEnd slot), ps_DurationHours = toProtoInt32 (DurationHours slot),
      ps_Status = toProtoCourierSlotStatus (slot_Status slot)\<rparr>"

definition toProtoCourierVehicleCapability :: "CourierVehicleCapability \<Rightarrow> pb_Capability" where
  "toProtoCourierVehicleCapability capability =
     \<lparr>pv_VehicleType = toProtoCourierVehicleType (cap_VehicleType capability),
      pv_MaxWeightGrams = toProtoInt32 (MaxWeightGrams capability),
      pv_MaxVolumeCm3 = toProtoInt32 (MaxVolumeCM3 capability),
      pv_MaxOrdersPerTrip = toProtoInt32 (MaxOrdersPerTrip capability),
      pv_UpdatedAtUnix = Unix (cap_UpdatedAt capability)\<rparr>"

definition toProtoCourierRatingSummary :: "CourierRatingSummary \<Rightarrow> pb_RatingSummary" where
  "toProtoCourierRatingSummary s =
     \<lparr>pr_CourierId = sum_CourierID s, pr_RatingsCount = RatingsCount s, pr_AverageScore = AverageScore s,
      pr_LowRatingsCount = LowRatingsCount s, pr_Score1Count = Score1Count s, pr_Score2Count = Score2Count s,
      pr_Score3Count = Score3Count s, pr_Score4Count = Score4Count s, pr_Score5Count = Score5Count s,
      pr_LastRatingUnix = (if IsZero (LastRatingAt s) then 0 else Unix (LastRatingAt s)),
      pr_OnTimeCount = OnTimeCount s, pr_PoliteCount = PoliteCount s, pr_CarefulCount = CarefulCount s,
      pr_DelayedCount = DelayedCount s, pr_RudeCount = RudeCount s, pr_DamagedCount = DamagedCount s,
      pr_OtherIssueCount = OtherIssueCount s\<rparr>"

section \<open>The service\<close>

definition mapCourierErr :: "error \<Rightarrow> string \<Rightarrow> rpc_status" where
  "mapCourierErr err internalMessage =
     (let is = errors_Is err
      in if is ErrCourierNotFound then status_Error codes_NotFound (Error err)
         else if is ErrCourierVehicleCapabilityNotFound then status_Error codes_NotFound (Error err)
         else if is ErrCourierAlreadyExists \<or> is ErrCourierPhoneAlreadyExists
         then status_Error codes_AlreadyExists (Error err)
         else if is ErrCourierRatingAlreadyExists then status_Error codes_AlreadyExists (Error err)
         else if is ErrCourierZoneCapacityExceeded then status_Error codes_ResourceExhausted (Error err)
         else if is ErrCourierZoneLimitExceeded \<or> is ErrCourierPrimaryZoneConflict
            \<or> is ErrCourierNightSlotCarOnly \<or> is ErrCourierSlotConflict
         then status_Error codes_FailedPrecondition (Error err)
         else if list_ex is [ErrCourierIDRequired, ErrCourierPhoneRequired, ErrCourierPhoneFormatInvalid,
            ErrCourierFirstNameRequired, ErrCourierLastNameRequired, ErrCourierVehicleTypeInvalid,
            ErrCourierVehicleCapabilityInvalid, ErrCourierZoneRequired, ErrCourierZoneUnknown,
            ErrCourierZonesRequired, ErrCourierZoneDuplicate, ErrCourierSlotIDRequired,
            ErrCourierSlotDurationInvalid, ErrCourierSlotDurationMismatch, ErrCourierSlotRangeInvalid,
            ErrCourierSlotStatusInvalid, ErrCourierRatingIDRequired, ErrCourierRatingScoreInvalid,
            ErrCourierRatingTagInvalid, ErrCourierRatingTagDuplicate, ErrCourierRatingReasonsRequired,
            ErrCourierRatingPositiveTagsOnly]
         then status_Error codes_InvalidArgument (Error err)
         else status_Error codes_Internal internalMessage)"

record 'w courier_service =
  cs_has_repo :: bool
  cs_Create :: "Courier \<Rightarrow> ('w, error option) prog"
  cs_Get :: "string \<Rightarrow> ('w, error + Courier) prog"
  cs_ListByZone :: "string \<Rightarrow> int \<Rightarrow> ('w, error + Courier list) prog"
  cs_ReplaceZones :: "string \<Rightarrow> CourierZone list \<Rightarrow> ('w, error option) prog"
  cs_ListZones :: "string \<Rightarrow> ('w, error + CourierZone list) prog"
  cs_CreateSlot :: "CourierSlot \<Rightarrow> ('w, error option) prog"
  cs_ListSlots :: "string \<Rightarrow> gotime \<Rightarrow> gotime \<Rightarrow> ('w, error + CourierSlot list) prog"
  cs_GetVehicleCapability :: "VehicleType \<Rightarrow> ('w, error + CourierVehicleCapability) prog"
  cs_ListVehicleCapabilities :: "('w, error + CourierVehicleCapability list) prog"
  cs_SubmitRating :: "CourierRating \<Rightarrow> ('w, error option) prog"
  cs_GetRatingSummary :: "string \<Rightarrow> ('w, error + CourierRatingSummary) prog"
  cs_NewString :: "('w, string) prog"

definition defaultListCouriersByZoneLimit :: int where "defaultListCouriersByZoneLimit = 100"

definition check :: "bool \<Rightarrow> rpc_code \<Rightarrow> string \<Rightarrow> ('w, rpc_status + 'a) prog \<Rightarrow> ('w, rpc_status + 'a) prog" where
  "check ok code m p = (if ok then p else return (Inl (status_Error code m)))"

definition try_repo ::
  "('w, error + 'a) prog \<Rightarrow> string \<Rightarrow> ('a \<Rightarrow> ('w, rpc_status + 'b) prog) \<Rightarrow> ('w, rpc_status + 'b) prog" where
  "try_repo op m p = do {
     res \<leftarrow> op;
     (case res of Inl err \<Rightarrow> return (Inl (mapCourierErr err m)) | Inr v \<Rightarrow> p v)
   }"

definition try_do ::
  "('w, error option) prog \<Rightarrow> string \<Rightarrow> ('w, rpc_status + 'b) prog \<Rightarrow> ('w, rpc_status + 'b) prog" where
  "try_do op m p = do {
     res \<leftarrow> op;
     (case res of Some err \<Rightarrow> return (Inl (mapCourierErr err m)) | None \<Rightarrow> p)
   }"

text \<open>A failed conversion is an invalid argument.\<close>

definition converted :: "error + 'a \<Rightarrow> ('a \<Rightarrow> ('w, rpc_status + 'b) prog) \<Rightarrow> ('w, rpc_status + 'b) prog" where
  "converted res p =
     (case res of Inl err \<Rightarrow> return (Inl (status_Error codes_InvalidArgument (Error err))) | Inr v \<Rightarrow> p v)"

text \<open>The identifier of the request, or a new one when it is blank.\<close>

definition given_or_new :: "'w courier_service \<Rightarrow> string \<Rightarrow> ('w, string) prog" where
  "given_or_new s i = (if TrimSpace i = [] then cs_NewString s else return (TrimSpace i))"

definition not_configured :: string where "not_configured = ''courier repository is not configured''"

definition RegisterCourier ::
  "'w courier_service \<Rightarrow> RegisterCourierRequest option \<Rightarrow> ('w, rpc_status + pb_Courier) prog" where
  "RegisterCourier s req0 =
     (case req0 of None \<Rightarrow> return (Inl (status_Error codes_InvalidArgument ''request is required'')) | Some req \<Rightarrow>
      check (cs_has_repo s) codes_Internal not_configured (
      converted (toDomainCourierVehicleType (rc_VehicleType req)) (\<lambda>vehicleType. do {
        courierID \<leftarrow> given_or_new s (rc_CourierId req);
        converted (toDomainCourierZones (rc_Zones req) courierID vehicleType) (\<lambda>zones.
          let courier = \<lparr>courier_ID = courierID, Phone = rc_Phone req, FirstName = TrimSpace (rc_FirstName req),
                LastName = TrimSpace (rc_LastName req), courier_VehicleType = vehicleType, IsActive = True,
                courier_CreatedAt = 0, courier_UpdatedAt = 0\<rparr>
          in try_do (cs_Create s courier) ''failed to create courier'' (
             try_do (cs_ReplaceZones s courierID zones) ''failed to assign courier zones'' (
             try_repo (cs_Get s courierID) ''failed to load courier after registration'' (\<lambda>storedCourier.
             try_repo (cs_ListZones s courierID) ''failed to load courier zones after registration'' (\<lambda>storedZones.
             return (Inr (toProtoCourier storedCourier storedZones)))))))
      })))"

definition GetCourier :: "'w courier_service \<Rightarrow> string option \<Rightarrow> ('w, rpc_status + pb_Courier) prog" where
  "GetCourier s req =
     check (req \<noteq> None \<and> TrimSpace (the req) \<noteq> []) codes_InvalidArgument ''courier_id is required'' (
     check (cs_has_repo s) codes_Internal not_configured (
     try_repo (cs_Get s (the req)) ''failed to get courier'' (\<lambda>courier.
     try_repo (cs_ListZones s (courier_ID courier)) ''failed to list courier zones'' (\<lambda>zones.
     return (Inr (toProtoCourier courier zones))))))"

fun with_zones :: "'w courier_service \<Rightarrow> Courier list \<Rightarrow> ('w, rpc_status + pb_Courier list) prog" where
  "with_zones s [] = return (Inr [])"
| "with_zones s (courier # cs) =
     try_repo (cs_ListZones s (courier_ID courier)) ''failed to list courier zones'' (\<lambda>zones. do {
       rest \<leftarrow> with_zones s cs;
       (case rest of Inl st \<Rightarrow> return (Inl st) | Inr result \<Rightarrow> return (Inr (toProtoCourier courier zones # result)))
     })"

definition ListCouriersByZone ::
  "'w courier_service \<Rightarrow> ListCouriersByZoneRequest option \<Rightarrow> ('w, rpc_status + pb_Courier list) prog" where
  "ListCouriersByZone s req0 =
     check (case req0 of None \<Rightarrow> False | Some req \<Rightarrow> TrimSpace (lc_ZoneId req) \<noteq> []) codes_InvalidArgument
       ''zone_id is required'' (
     check (cs_has_repo s) codes_Internal not_configured (
     let req = the req0; limit = (if lc_Limit req = 0 then defaultListCouriersByZoneLimit else lc_Limit req) in
     check (IsKnownMoscowZoneID (lc_ZoneId req)) codes_InvalidArgument (sentinel_message ErrCourierZoneUnknown) (
     check (lc_Limit req \<ge> 0) codes_InvalidArgument ''limit must be >= 0'' (
     try_repo (cs_ListByZone s (lc_ZoneId req) limit) ''failed to list couriers by zone'' (with_zones s)))))"

definition ReplaceCourierZones ::
  "'w courier_service \<Rightarrow> ReplaceCourierZonesRequest option
     \<Rightarrow> ('w, rpc_status + string \<times> pb_CourierZone list) prog" where
  "ReplaceCourierZones s req0 =
     check (case req0 of None \<Rightarrow> False | Some req \<Rightarrow> TrimSpace (rz_CourierId req) \<noteq> []) codes_InvalidArgument
       ''courier_id is required'' (
     check (cs_has_repo s) codes_Internal not_configured (
     let req = the req0 in
     try_repo (cs_Get s (rz_CourierId req)) ''failed to get courier for zone replacement'' (\<lambda>courier.
     converted (toDomainCourierZones (rz_Zones req) (courier_ID courier) (courier_VehicleType courier)) (\<lambda>zones.
     try_do (cs_ReplaceZones s (courier_ID courier) zones) ''failed to replace courier zones'' (
     try_repo (cs_ListZones s (courier_ID courier)) ''failed to list courier zones after replacement'' (\<lambda>storedZones.
     return (Inr (courier_ID courier, toProtoCourierZones storedZones))))))))"

definition CreateCourierSlot ::
  "'w courier_service \<Rightarrow> CreateCourierSlotRequest option \<Rightarrow> ('w, rpc_status + pb_CourierSlot) prog" where
  "CreateCourierSlot s req0 =
     check (req0 \<noteq> None) codes_InvalidArgument ''request is required'' (
     check (cs_has_repo s) codes_Internal not_configured (
     let req = the req0; courierID = TrimSpace (sl_CourierId req) in
     check (courierID \<noteq> []) codes_InvalidArgument ''courier_id is required'' (
     check (sl_SlotStartUnix req > 0) codes_InvalidArgument ''slot_start_unix is required'' (
     check (sl_SlotEndUnix req > 0) codes_InvalidArgument ''slot_end_unix is required'' (
     check (sl_DurationHours req > 0) codes_InvalidArgument ''duration_hours is required'' (do {
       slotID \<leftarrow> given_or_new s (sl_SlotId req);
       let slot = \<lparr>slot_ID = slotID, slot_CourierID = courierID, SlotStart = time_Unix (sl_SlotStartUnix req),
             SlotEnd = time_Unix (sl_SlotEndUnix req), DurationHours = sl_DurationHours req,
             slot_Status = CourierSlotStatusPlanned, slot_CreatedAt = 0, slot_UpdatedAt = 0\<rparr>;
       try_do (cs_CreateSlot s slot) ''failed to create courier slot'' (return (Inr (toProtoCourierSlot slot)))
     }))))))"

definition ListCourierSlots ::
  "'w courier_service \<Rightarrow> ListCourierSlotsRequest option \<Rightarrow> ('w, rpc_status + pb_CourierSlot list) prog" where
  "ListCourierSlots s req0 =
     check (case req0 of None \<Rightarrow> False | Some req \<Rightarrow> TrimSpace (ls_CourierId req) \<noteq> []) codes_InvalidArgument
       ''courier_id is required'' (
     check (cs_has_repo s) codes_Internal not_configured (
     let req = the req0 in
     check (\<not> (ls_FromUnix req < 0 \<or> ls_ToUnix req < 0)) codes_InvalidArgument ''from_unix/to_unix must be >= 0'' (
     let from_t = (if ls_FromUnix req > 0 then time_Unix (ls_FromUnix req) else 0);
         to_t = (if ls_ToUnix req > 0 then time_Unix (ls_ToUnix req) else 0) in
     check (\<not> (\<not> IsZero from_t \<and> \<not> IsZero to_t \<and> \<not> to_t > from_t)) codes_InvalidArgument
       ''to_unix must be greater than from_unix'' (
     try_repo (cs_ListSlots s (ls_CourierId req) from_t to_t) ''failed to list courier slots'' (\<lambda>slots.
     return (Inr (map toProtoCourierSlot slots)))))))"

definition GetCourierVehicleCapability ::
  "'w courier_service \<Rightarrow> pb_VehicleType option \<Rightarrow> ('w, rpc_status + pb_Capability) prog" where
  "GetCourierVehicleCapability s req =
     check (req \<noteq> None) codes_InvalidArgument ''request is required'' (
     check (cs_has_repo s) codes_Internal not_configured (
     converted (toDomainCourierVehicleType (the req)) (\<lambda>vehicleType.
     try_repo (cs_GetVehicleCapability s vehicleType) ''failed to get courier vehicle capability'' (\<lambda>capability.
     return (Inr (toProtoCourierVehicleCapability capability))))))"

definition ListCourierVehicleCapabilities :: "'w courier_service \<Rightarrow> ('w, rpc_status + pb_Capability list) prog" where
  "ListCourierVehicleCapabilities s =
     check (cs_has_repo s) codes_Internal not_configured (
     try_repo (cs_ListVehicleCapabilities s) ''failed to list courier vehicle capabilities'' (\<lambda>capabilities.
     return (Inr (map toProtoCourierVehicleCapability capabilities))))"

definition SubmitCourierRating ::
  "'w courier_service \<Rightarrow> SubmitCourierRatingRequest option \<Rightarrow> ('w, rpc_status + string \<times> string) prog" where
  "SubmitCourierRating s req0 =
     check (req0 \<noteq> None) codes_InvalidArgument ''request is required'' (
     check (cs_has_repo s) codes_Internal not_configured (
     let req = the req0; courierID = TrimSpace (sr_CourierId req) in
     check (courierID \<noteq> []) codes_InvalidArgument ''courier_id is required'' (do {
       ratingID \<leftarrow> given_or_new s (sr_RatingId req);
       converted (toDomainCourierRatingTags (sr_Tags req)) (\<lambda>tags.
         let rating = \<lparr>rating_ID = ratingID, rating_CourierID = courierID, Score = sr_Score req, Tags = tags,
               Comment = TrimSpace (sr_Comment req), rating_CreatedAt = 0\<rparr>
         in try_do (cs_SubmitRating s rating) ''failed to submit courier rating'' (return (Inr (ratingID, courierID))))
     })))"

definition GetCourierRatingSummary ::
  "'w courier_service \<Rightarrow> string option \<Rightarrow> ('w, rpc_status + pb_RatingSummary) prog" where
  "GetCourierRatingSummary s req =
     check (req \<noteq> None \<and> TrimSpace (the req) \<noteq> []) codes_InvalidArgument ''courier_id is required'' (
     check (cs_has_repo s) codes_Internal not_configured (
     try_repo (cs_GetRatingSummary s (the req)) ''failed to get courier rating summary'' (\<lambda>summary.
     return (Inr (toProtoCourierRatingSummary summary)))))"

end
