(* ===== verification/Zone_Ids.thy ===== *)
theory Zone_Ids
  imports Courier_Domain
begin

text \<open>
  \<open>NormalizeZoneID\<close> (\<open>internal/domain/moscow_zones.go\<close>) is idempotent: lower-casing neither uncovers white space nor
  leaves anything for a second pass. The service and the repository both normalise zone identifiers, so this is
  what makes their checks for duplicates agree.
\<close>

section \<open>Normal forms of zone identifiers\<close>

text \<open>Lower-casing only produces lower case letters: what it leaves of other characters was there before.\<close>

abbreviation no_lower :: "string \<Rightarrow> bool" where
  "no_lower p \<equiv> list_all (\<lambda>c. \<not> (CHR ''a'' \<le> c \<and> c \<le> CHR ''z'')) p"

lemma lower_char_cases: "lower_char c = c \<or> (CHR ''a'' \<le> lower_char c \<and> lower_char c \<le> CHR ''z'')"
  by (auto simp: lower_char_def less_eq_char_def)

lemma prefix_ToLower: "prefix p (ToLower t) \<Longrightarrow> no_lower p \<Longrightarrow> prefix p t"
proof (induction t arbitrary: p rule: ToLower.induct)
  case (2 c cs)
  show ?case
  proof (cases p)
    case (Cons x p')
    then show ?thesis using 2 lower_char_cases [of c] by (auto split: if_splits)
  qed simp
qed simp

lemma ToLower_same: "no_lower (ToLower t) \<Longrightarrow> ToLower t = t"
proof (induction t rule: ToLower.induct)
  case (2 c cs)
  then show ?case using lower_char_cases [of c] by (auto split: if_splits)
qed simp

lemma suffix_ToLower: "suffix p (ToLower t) \<Longrightarrow> no_lower p \<Longrightarrow> suffix p t"
proof (induction t rule: ToLower.induct)
  case (2 c cs)
  have tl: "suffix p (c # cs)" if "suffix p (drop n cs)" for n
    using that by (meson suffix_ConsI suffix_drop suffix_order.trans)
  show ?case using 2 tl [of 0] tl [of 1] tl [of 2] ToLower_same [of cs] lower_char_cases [of c]
    by (auto simp: suffix_Cons split: if_splits)
qed simp

lemma lower_lower [simp]: "lower_char (lower_char c) = lower_char c"
  by (auto simp: lower_char_def less_eq_char_def)

lemma ToLower_idem: "ToLower (ToLower t) = ToLower t"
proof (induction t rule: ToLower.induct)
  case (2 c cs)
  have low: "take n (c # cs) = p" if "take n (ToLower (c # cs)) = p"
      "(n, p) \<in> {(3, [CHR 0xE2, CHR 0x84, CHR 0xAA]), (2, [CHR 0xC4, CHR 0xB0])}" for n p
  proof -
    have "prefix p (ToLower (c # cs))" using that(1) take_is_prefix by metis
    moreover have "no_lower p" using that(2) by (auto simp: less_eq_char_def)
    ultimately have "prefix p (c # cs)" by (rule prefix_ToLower)
    then show ?thesis using that(2) by (auto simp: prefix_def)
  qed
  note new = low [OF _ insertI1] low [OF _ insertI2 [OF singletonI]]
  show ?case
  proof (cases "take 3 (c # cs) = [CHR 0xE2, CHR 0x84, CHR 0xAA] \<or> take 2 (c # cs) = [CHR 0xC4, CHR 0xB0]")
    case True
    then show ?thesis using 2 by (auto simp: lower_char_def less_eq_char_def)
  next
    case False
    have eq: "ToLower (c # cs) = lower_char c # ToLower cs" using False by auto
    have "ToLower (lower_char c # ToLower cs) = lower_char (lower_char c) # ToLower (ToLower cs)"
      unfolding ToLower.simps(2) using False new unfolding eq by auto
    then show ?thesis unfolding eq using 2 False by simp
  qed
qed simp

lemma space_runes_facts: "[] \<notin> set space_runes" "p \<in> set space_runes \<Longrightarrow> no_lower p"
proof -
  show "[] \<notin> set space_runes" by (simp add: space_runes_def)
  have "list_all no_lower space_runes" by code_simp
  then show "p \<in> set space_runes \<Longrightarrow> no_lower p" by (simp add: list_all_iff)
qed

lemma TrimSpace_bare:
  assumes "p \<in> set space_runes" shows "\<not> prefix p (TrimSpace s)" "\<not> suffix p (TrimSpace s)"
proof -
  let ?l = "strip space_runes s"
  let ?r = "strip (map rev space_runes) (rev ?l)"
  have p: "p \<noteq> []" using assms space_runes_facts(1) by metis
  have "prefix (rev ?r) ?l"
    using strip_suffix [of "map rev space_runes" "rev ?l"] by (simp add: suffix_to_prefix)
  then show "\<not> prefix p (TrimSpace s)"
    using strip_none [OF assms p] prefix_order.trans unfolding TrimSpace_def by blast
  have "\<not> prefix (rev p) ?r" using assms p by (intro strip_none) auto
  then show "\<not> suffix p (TrimSpace s)" by (simp add: TrimSpace_def suffix_to_prefix)
qed

lemma NormalizeZoneID_idem [simp]: "NormalizeZoneID (NormalizeZoneID z) = NormalizeZoneID z"
proof -
  have "TrimSpace (ToLower (TrimSpace z)) = ToLower (TrimSpace z)"
    by (rule TrimSpace_fixed) (meson prefix_ToLower suffix_ToLower space_runes_facts(2) TrimSpace_bare)+
  then show ?thesis by (simp add: NormalizeZoneID_def ToLower_idem)
qed

lemma known_nonempty: "IsKnownMoscowZoneID z \<Longrightarrow> NormalizeZoneID z \<noteq> []"
  by (auto simp: IsKnownMoscowZoneID_def moscowZoneSet_def moscowZones_def moscow_def)

end
