(* ===== verification/Courier_Registration.thy ===== *)
theory Courier_Registration
  imports Courier_Service Zone_Ids
begin

text \<open>
  What \<open>RegisterCourier\<close> does, as one case distinction (\<open>Register_cases\<close>): the request is refused and nothing is
  stored, or the profile is stored and the zones are assigned unless one of them is full. From it follow the
  round trip with \<open>GetCourier\<close> and the registration that stops half-way.
\<close>

section \<open>The requested zones\<close>

text \<open>The zone a request names, and a zone that the repository accepts unless it is full.\<close>

definition requested_zone :: "CourierZoneInput option \<Rightarrow> string" where
  "requested_zone input = (case input of None \<Rightarrow> [] | Some i \<Rightarrow> NormalizeZoneID (zi_ZoneId i))"

definition good_zone :: "string \<Rightarrow> CourierZone \<Rightarrow> bool" where
  "good_zone i z \<longleftrightarrow> cz_CourierID z = i \<and> AssignedAt z = 0 \<and> NormalizeZoneID (ZoneID z) = ZoneID z
     \<and> ZoneID z \<noteq> [] \<and> IsKnownMoscowZoneID (ZoneID z)"

lemma zone_inputs_loop_Inr:
  "zone_inputs_loop i inputs seen acc n = Inr (zones, m) \<Longrightarrow>
   \<exists>new. zones = acc @ new \<and> list_all (good_zone i) new \<and> map ZoneID new = map requested_zone inputs
     \<and> distinct (map ZoneID new) \<and> set (map ZoneID new) \<inter> set seen = {}
     \<and> m = n + int (length (filter IsPrimary new))"
proof (induction i inputs seen acc n rule: zone_inputs_loop.induct)
  case (3 i input inputs seen acc n)
  let ?z = "NormalizeZoneID (TrimSpace (zi_ZoneId input))"
  let ?new = "\<lparr>cz_CourierID = i, ZoneID = ?z, IsPrimary = zi_IsPrimary input, AssignedAt = 0\<rparr>"
  have same: "?z = requested_zone (Some input)" by (simp add: requested_zone_def NormalizeZoneID_def)
  have ok: "TrimSpace (zi_ZoneId input) \<noteq> []" "IsKnownMoscowZoneID ?z" "?z \<notin> set seen"
    and run: "zone_inputs_loop i inputs (?z # seen) (acc @ [?new]) (if zi_IsPrimary input then n + 1 else n) = Inr (zones, m)"
    using "3.prems" by (auto simp: Let_def split: if_splits)
  have "good_zone i ?new" using ok(2) known_nonempty [OF ok(2)] by (simp add: good_zone_def)
  moreover obtain new where "zones = (acc @ [?new]) @ new" "list_all (good_zone i) new"
      "map ZoneID new = map requested_zone inputs" "distinct (map ZoneID new)"
      "set (map ZoneID new) \<inter> set (?z # seen) = {}"
      "m = (if zi_IsPrimary input then n + 1 else n) + int (length (filter IsPrimary new))"
    using "3.IH" [OF ok(1) refl _ ok(3) run] ok(2) by blast
  ultimately show ?case using ok(3) same by (intro exI [of _ "?new # new"]) auto
qed auto

text \<open>The zones the service hands to the repository.\<close>

definition assignable :: "string \<Rightarrow> VehicleType \<Rightarrow> CourierZone list \<Rightarrow> bool" where
  "assignable i vt zones \<longleftrightarrow> zones \<noteq> [] \<and> (AllowsMultipleZones vt \<or> length zones = 1) \<and> list_all (good_zone i) zones
     \<and> distinct (map ZoneID zones) \<and> length (filter IsPrimary zones) = 1"

lemma toDomainCourierZones_Inr:
  assumes "toDomainCourierZones inputs i vt = Inr zones"
  shows "assignable i vt zones" "map ZoneID zones = map requested_zone inputs"
proof -
  from assms obtain zs n where loop: "zone_inputs_loop i inputs [] [] 0 = Inr (zs, n)" "inputs \<noteq> []"
      "AllowsMultipleZones vt \<or> length inputs \<le> 1" "n \<le> 1" "zones = first_primary zs n"
    by (auto simp: toDomainCourierZones_def first_primary_def not_less split: if_splits sum.splits prod.splits list.splits)
  from zone_inputs_loop_Inr [OF loop(1)] have zs: "list_all (good_zone i) zs" "map ZoneID zs = map requested_zone inputs"
      "distinct (map ZoneID zs)" "n = int (length (filter IsPrimary zs))" by auto
  have len: "length zs = length inputs" using zs(2) by (metis length_map)
  then have "length (filter IsPrimary zones) = 1"
    unfolding loop(5) using loop(2,4) zs(4) by (intro first_primary_one) auto
  moreover have "list_all (good_zone i) zones" "length zones = length inputs"
    unfolding loop(5) using zs(1) len by (auto simp: first_primary_def good_zone_def split: list.split)
  ultimately show "assignable i vt zones" "map ZoneID zones = map requested_zone inputs"
    using loop zs first_primary_same(1) [of zs n] by (cases inputs; auto simp: assignable_def)+
qed

section \<open>Assigning them\<close>

definition assigned :: "gotime \<Rightarrow> CourierZone list \<Rightarrow> CourierZone list" where
  "assigned now zones = map (\<lambda>z. z\<lparr>AssignedAt := now\<rparr>) zones"

lemma zones_loop_good:
  assumes "TrimSpace i \<noteq> []"
  shows "list_all (good_zone i) zones \<Longrightarrow> distinct (map ZoneID zones) \<Longrightarrow> set (map ZoneID zones) \<inter> set seen = {} \<Longrightarrow>
    zones_loop (\<lambda>_. now) i zones seen acc n = Inr (acc @ assigned now zones, n + int (length (filter IsPrimary zones)))"
proof (induction zones arbitrary: seen acc n)
  case (Cons z zones)
  have z: "z\<lparr>cz_CourierID := i\<rparr> = z" "z\<lparr>ZoneID := NormalizeZoneID (ZoneID z)\<rparr> = z" "good_zone i z"
    using Cons.prems(1) by (cases z; simp add: good_zone_def)+
  then have "CourierZone_ValidateInvariants z = []"
    using assms by (simp add: CourierZone_ValidateInvariants_def good_zone_def)
  moreover have "AssignedAt z = 0" "ZoneID z \<notin> set seen" using z(3) Cons.prems(3) by (auto simp: good_zone_def)
  ultimately have "zones_loop (\<lambda>_. now) i (z # zones) seen acc n = zones_loop (\<lambda>_. now) i zones (ZoneID z # seen)
      (acc @ [z\<lparr>AssignedAt := now\<rparr>]) (if IsPrimary z then n + 1 else n)"
    by (simp add: z(1,2) IsZero_def Let_def firstValidationErr_def)
  then show ?case using Cons.prems Cons.IH [of "ZoneID z # seen"] by (auto simp: assigned_def)
qed (simp add: assigned_def)

lemma ensure_error: "ensureZoneCapacityLocked ks i zones cur r = Some e \<Longrightarrow> e = E ErrCourierZoneCapacityExceeded"
  by (induction ks i zones cur r rule: ensureZoneCapacityLocked.induct) (auto split: if_splits)

lemma ReplaceZones_assignable:
  assumes "assignable i (courier_VehicleType c) zones" and "couriers r i = Some c" and "TrimSpace i = i" and "i \<noteq> []"
  shows "courier_ReplaceZones ks (\<lambda>_. now) i zones r =
    (case ensureZoneCapacityLocked ks i (assigned now zones) (inner (zonesByCourier r) i) r of
       Some err \<Rightarrow> (Some err, r)
     | None \<Rightarrow> (None, r\<lparr>zonesByCourier := (zonesByCourier r)(i \<mapsto>
                  map_of (map (\<lambda>z. (ZoneID z, z)) (assigned now zones)))\<rparr>))"
proof -
  note ok = assms(1) [unfolded assignable_def]
  have "zones_loop (\<lambda>_. now) i zones [] [] 0 = Inr (assigned now zones, 1)"
    using zones_loop_good [of i zones "[]"] ok assms(3,4) by simp
  moreover have "first_primary (assigned now zones) 1 = assigned now zones"
    by (simp add: first_primary_def split: list.split)
  moreover have "fold (\<lambda>zone m. m(ZoneID zone \<mapsto> cloneCourierZone zone)) (assigned now zones) Map.empty
      = map_of (map (\<lambda>z. (ZoneID z, z)) (assigned now zones))"
    using fold_zone_map [of "assigned now zones" Map.empty] ok by (simp add: assigned_def comp_def)
  ultimately show ?thesis
    using ok assms by (auto simp: courier_ReplaceZones_def Let_def split: option.split)
qed

section \<open>A registration\<close>

definition new_courier :: "string \<Rightarrow> VehicleType \<Rightarrow> RegisterCourierRequest \<Rightarrow> Courier" where
  "new_courier i vt req = \<lparr>courier_ID = i, Phone = rc_Phone req, FirstName = TrimSpace (rc_FirstName req),
     LastName = TrimSpace (rc_LastName req), courier_VehicleType = vt, IsActive = True,
     courier_CreatedAt = 0, courier_UpdatedAt = 0\<rparr>"

definition zones_of :: "CourierZone list \<Rightarrow> (string \<rightharpoonup> CourierZone)" where
  "zones_of zones = map_of (map (\<lambda>z. (ZoneID z, z)) zones)"

lemmas courier_ops = NewCourierService_def cv_read_def cv_write_def check_def try_repo_def try_do_def converted_def

text \<open>The two outcomes: nothing is stored, or the profile is, and then the zones unless one is full.\<close>

definition registered ::
  "visits \<Rightarrow> RegisterCourierRequest \<Rightarrow> courier_repo \<Rightarrow> string \<Rightarrow> Courier \<Rightarrow> CourierZone list \<Rightarrow> courier_repo
     \<Rightarrow> rpc_status + pb_Courier \<Rightarrow> courier_repo \<Rightarrow> bool" where
  "registered v req r i c zones r1 res r' \<longleftrightarrow>
     TrimSpace i = i \<and> i \<noteq> [] \<and> (TrimSpace (rc_CourierId req) \<noteq> [] \<longrightarrow> i = TrimSpace (rc_CourierId req))
     \<and> (\<exists>now vt. toDomainCourierVehicleType (rc_VehicleType req) = Inr vt
          \<and> courier_Create now (new_courier i vt req) r = (None, r1) \<and> filled (new_courier i vt req) c)
     \<and> couriers r i = None \<and> couriers r1 i = Some c \<and> zonesByCourier r1 = zonesByCourier r
     \<and> list_all (\<lambda>z. cz_CourierID z = i \<and> IsKnownMoscowZoneID (ZoneID z)) zones \<and> distinct (map ZoneID zones)
     \<and> length (filter IsPrimary zones) = 1 \<and> map ZoneID zones = map requested_zone (rc_Zones req)
     \<and> (case ensureZoneCapacityLocked (v_zones v r1) i zones (inner (zonesByCourier r1) i) r1 of
          Some err \<Rightarrow> res = Inl (mapCourierErr err ''failed to assign courier zones'') \<and> r' = r1
        | None \<Rightarrow> r' = r1\<lparr>zonesByCourier := (zonesByCourier r1)(i \<mapsto> zones_of zones)\<rparr>
            \<and> res = Inr (toProtoCourier c (sort_slice zone_before (range_vals (zones_of zones) (v_own v r' i)))))"

lemma clone_zones [simp]: "map cloneCourierZone zs = zs"
  by (induction zs) (simp_all add: cloneCourierZone_def)

lemma Create_stores:
  assumes "courier_Create now c r = (None, r1)"
  obtains c' where "filled c c'" "couriers r (courier_ID c) = None" "couriers r1 (courier_ID c) = Some c'"
    "zonesByCourier r1 = zonesByCourier r" "TrimSpace (courier_ID c) \<noteq> []"
  using assms
proof (cases rule: Create_ok)
  case (1 c')
  then show ?thesis using that [of c'] by (simp add: Courier_valid_iff)
qed

text \<open>Why nothing is stored: the request does not convert or the repository refuses the profile.\<close>

definition refused :: "RegisterCourierRequest \<Rightarrow> gotime \<Rightarrow> courier_repo \<Rightarrow> bool" where
  "refused req now r \<longleftrightarrow> (\<exists>i. (TrimSpace (rc_CourierId req) \<noteq> [] \<longrightarrow> i = TrimSpace (rc_CourierId req))
     \<and> (case toDomainCourierVehicleType (rc_VehicleType req) of
          Inl err \<Rightarrow> True
        | Inr vt \<Rightarrow>
            (case toDomainCourierZones (rc_Zones req) i vt of
               Inl err \<Rightarrow> True
             | Inr zones \<Rightarrow> fst (courier_Create now (new_courier i vt req) r) \<noteq> None)))"

lemma given_or_new_run:
  assumes "\<And>n. TrimSpace (newid n) = newid n"
    and "run_state (given_or_new (NewCourierService v newid) j) w = (i, w')"
  shows "TrimSpace i = i" "cv_repo w' = cv_repo w" "cv_clock w' = cv_clock w" "TrimSpace j \<noteq> [] \<longrightarrow> i = TrimSpace j"
  using assms by (auto simp: given_or_new_def NewCourierService_def split: if_splits)

lemma Register_cases:
  assumes "\<And>n. TrimSpace (newid n) = newid n"
    and "run_state (RegisterCourier (NewCourierService v newid) (Some req)) w = (res, w')"
  shows "(\<exists>st. res = Inl st \<and> cv_repo w' = cv_repo w \<and> refused req (cv_clock w) (cv_repo w))
    \<or> (\<exists>i c zones r1. registered v req (cv_repo w) i c zones r1 res (cv_repo w'))"
proof -
  let ?s = "NewCourierService v newid"
  obtain i w1 where i: "run_state (given_or_new ?s (rc_CourierId req)) w = (i, w1)" using prod.exhaust by blast
  note id = given_or_new_run [OF assms(1) i]
  show ?thesis
  proof (cases "toDomainCourierVehicleType (rc_VehicleType req)")
    case (Inl err)
    then have "refused req (cv_clock w) (cv_repo w)" by (auto simp: refused_def)
    then show ?thesis using Inl assms(2) by (auto simp: RegisterCourier_def courier_ops)
  next
    case vt: (Inr vt)
    show ?thesis
    proof (cases "toDomainCourierZones (rc_Zones req) i vt")
      case (Inl err)
      then have "refused req (cv_clock w) (cv_repo w)"
        unfolding refused_def using vt id(4) by (intro exI [of _ i]) simp
      then show ?thesis using Inl assms(2) vt i id(2) by (auto simp: RegisterCourier_def courier_ops Let_def)
    next
      case zs: (Inr zones)
      let ?c = "new_courier i vt req"
      obtain e r1 where create: "courier_Create (cv_clock w) ?c (cv_repo w) = (e, r1)" using prod.exhaust by blast
      show ?thesis
      proof (cases e)
        case (Some err)
        then have "refused req (cv_clock w) (cv_repo w)"
          unfolding refused_def using vt id(4) zs create by (intro exI [of _ i]) simp
        then show ?thesis
          using Some assms(2) vt i id(2,3) zs create Create_error [of _ ?c "cv_repo w" err r1]
          by (auto simp: RegisterCourier_def courier_ops Let_def new_courier_def)
      next
        case None
        let ?zones = "assigned (cv_clock w + 1) zones"
        from create [unfolded None] obtain c where c: "filled ?c c" "couriers (cv_repo w) i = None" "couriers r1 i = Some c"
            "zonesByCourier r1 = zonesByCourier (cv_repo w)" "i \<noteq> []"
          by (rule Create_stores) (use id(1) in \<open>auto simp: new_courier_def\<close>)
        have vtc: "courier_VehicleType c = vt" using filledD(6) [OF c(1)] by (simp add: new_courier_def)
        note dz = toDomainCourierZones_Inr [OF zs]
        note rz = ReplaceZones_assignable [of i c zones r1, unfolded vtc, OF dz(1) c(3) id(1) c(5)]
        have zones: "list_all (\<lambda>z. cz_CourierID z = i \<and> IsKnownMoscowZoneID (ZoneID z)) ?zones" "map ZoneID ?zones = map ZoneID zones"
            "length (filter IsPrimary ?zones) = length (filter IsPrimary zones)"
          using dz(1) by (auto simp: assignable_def assigned_def good_zone_def list_all_iff filter_map comp_def)
        have "case ensureZoneCapacityLocked (v_zones v r1) i ?zones (inner (zonesByCourier r1) i) r1 of
            Some err \<Rightarrow> res = Inl (mapCourierErr err ''failed to assign courier zones'') \<and> cv_repo w' = r1
          | None \<Rightarrow> cv_repo w' = r1\<lparr>zonesByCourier := (zonesByCourier r1)(i \<mapsto> zones_of ?zones)\<rparr>
              \<and> res = Inr (toProtoCourier c (sort_slice zone_before (range_vals (zones_of ?zones) (v_own v (cv_repo w') i))))"
          using assms(2) vt i id(1-3) zs create None c(3,5)
          by (auto simp: RegisterCourier_def courier_ops Let_def new_courier_def rz zones_of_def courier_Get_def
              courier_ListZones_def clone_defs cloneCourierZone_def split: option.splits)
        then have "registered v req (cv_repo w) i c ?zones r1 res (cv_repo w')"
          unfolding registered_def using id c vt create None zones dz by (auto simp: assignable_def)
        then show ?thesis by blast
      qed
    qed
  qed
qed

section \<open>Listing the zones of a courier\<close>

lemma zone_before_weak: "weak_order zone_before"
  by (auto simp: weak_order_def zone_before_def split: if_splits)

lemma zones_of_Some: "distinct (map ZoneID zones) \<Longrightarrow> z \<in> set zones \<Longrightarrow> zones_of zones (ZoneID z) = Some z"
  by (simp add: zones_of_def zone_map_of)

lemma dom_zones_of: "dom (zones_of zones) = set (map ZoneID zones)"
  by (simp add: zones_of_def dom_map_of_conv_image_fst image_image)

lemma range_vals_zones:
  assumes "distinct (map ZoneID zones)" and "set zs \<subseteq> set zones"
  shows "range_vals (zones_of zones) (map ZoneID zs) = zs"
  using assms(2) by (induction zs) (simp_all add: zones_of_Some [OF assms(1)])

lemma listed_zones:
  assumes "distinct (map ZoneID zones)" and "range_order (zones_of zones) ks"
  shows "sort_slice zone_before (range_vals (zones_of zones) ks) = sort_slice zone_before zones"
proof (rule insertion.srt_unique [OF zone_before_weak insertion.srt_sorted [OF zone_before_weak]])
  have own: "range_order (zones_of zones) (map ZoneID zones)" using assms(1) by (simp add: range_order_def dom_zones_of)
  have perm: "mset (range_vals (zones_of zones) ks) = mset zones"
    using mset_range_vals [OF range_order_perm [OF own assms(2)], of "zones_of zones"]
      range_vals_zones [OF assms(1) order_refl] by simp
  then show "mset (sort_slice zone_before zones) = mset (range_vals (zones_of zones) ks)" by (simp add: insertion.srt_perm)
  fix x y assume "x \<in> set (range_vals (zones_of zones) ks)" "y \<in> set (range_vals (zones_of zones) ks)" "x \<noteq> y"
  then have "ZoneID x \<noteq> ZoneID y"
    using assms(1) mset_eq_setD [OF perm] by (auto simp: distinct_map inj_on_def)
  then show "zone_before x y \<or> zone_before y x" by (auto simp: zone_before_def)
qed

lemma primary_first:
  assumes "sorted_less zone_before zs" and "length (filter IsPrimary zs) = 1"
  shows "map IsPrimary zs = True # replicate (length zs - 1) False"
proof (cases zs)
  case (Cons z rest)
  have "IsPrimary z"
  proof (rule ccontr)
    assume z: "\<not> IsPrimary z"
    then have "filter IsPrimary rest \<noteq> []" using assms(2) Cons by auto
    then obtain y where "y \<in> set rest" "IsPrimary y" by (auto simp: filter_empty_conv)
    then show False using assms(1) z Cons by (auto simp: sorted_less_def zone_before_def)
  qed
  then have "filter IsPrimary rest = []" using assms(2) Cons by simp
  then have "map IsPrimary rest = replicate (length rest) False"
    by (induction rest) (auto split: if_splits)
  then show ?thesis using Cons \<open>IsPrimary z\<close> by simp
qed (use assms(2) in simp)

section \<open>Properties\<close>

text \<open>C37. A courier that was registered is read back as registered, whatever order the maps are visited in: \<open>GetCourier\<close>
  returns what \<open>RegisterCourier\<close> returned, which is the requested profile with the phone number normalised, the
  names trimmed and the requested zones, each once, with exactly one primary zone, the first of the list.\<close>

theorem registered_courier_roundtrip:
  assumes "visits_ok v" and "visits_ok v'" and "\<And>n. TrimSpace (newid n) = newid n"
    and "run_state (RegisterCourier (NewCourierService v newid) (Some req)) w = (Inr resp, w')"
  shows "run_state (GetCourier (NewCourierService v' newid) (Some (pc_Id resp))) w' = (Inr resp, w')
    \<and> NormalizePhone (rc_Phone req) = Inr (pc_Phone resp)
    \<and> pc_FirstName resp = TrimSpace (rc_FirstName req) \<and> pc_LastName resp = TrimSpace (rc_LastName req)
    \<and> pc_VehicleType resp = rc_VehicleType req \<and> pc_IsActive resp
    \<and> mset (map pz_ZoneId (pc_Zones resp)) = mset (map requested_zone (rc_Zones req))
    \<and> map pz_IsPrimary (pc_Zones resp) = True # replicate (length (rc_Zones req) - 1) False"
proof -
  obtain i c zones r1 where reg: "registered v req (cv_repo w) i c zones r1 (Inr resp) (cv_repo w')"
    using Register_cases [OF assms(3,4)] by auto
  then obtain vt where id: "TrimSpace i = i" "i \<noteq> []" and stored: "couriers r1 i = Some c"
      and zones: "distinct (map ZoneID zones)" "length (filter IsPrimary zones) = 1"
        "map ZoneID zones = map requested_zone (rc_Zones req)"
      and vt: "toDomainCourierVehicleType (rc_VehicleType req) = Inr vt" "filled (new_courier i vt req) c"
      and r': "cv_repo w' = r1\<lparr>zonesByCourier := (zonesByCourier r1)(i \<mapsto> zones_of zones)\<rparr>"
      and resp: "resp = toProtoCourier c (sort_slice zone_before (range_vals (zones_of zones) (v_own v (cv_repo w') i)))"
    by (auto simp: registered_def split: option.splits)
  have own: "inner (zonesByCourier (cv_repo w')) i = zones_of zones" by (simp add: r')
  have "range_order (zones_of zones) (v_own u (cv_repo w') i)" if "visits_ok u" for u
    using that own by (metis visits_ok_def dom_zones_of finite_set)
  then have sorted: "sort_slice zone_before (range_vals (zones_of zones) (v_own u (cv_repo w') i))
      = sort_slice zone_before zones" if "visits_ok u" for u
    using that listed_zones [OF zones(1)] by blast
  let ?zs = "sort_slice zone_before zones"
  have resp': "resp = toProtoCourier c ?zs" using resp sorted [OF assms(1)] by simp
  note c = filledD [OF vt(2)]
  have stored': "couriers (cv_repo w') i = Some c" using stored by (simp add: r')
  have ci: "courier_ID c = i" using c(1) by (simp add: new_courier_def)
  have "run_state (GetCourier (NewCourierService v' newid) (Some i)) w' = (Inr resp, w')"
    using id stored' ci sorted [OF assms(2)]
    by (simp add: GetCourier_def courier_ops courier_Get_def courier_ListZones_def cloneCourier_def own resp' Let_def)
  moreover have "pc_Id resp = i" using ci by (simp add: resp' toProtoCourier_def)
  moreover have "toProtoCourierVehicleType vt = rc_VehicleType req"
    using vt(1) by (cases "rc_VehicleType req") auto
  moreover have "length (filter IsPrimary ?zs) = 1"
    using zones(2) insertion.srt_perm [of zone_before zones] by (metis mset_filter size_mset)
  then have "map IsPrimary ?zs = True # replicate (length zones - 1) False"
    using primary_first [OF insertion.srt_sorted [OF zone_before_weak]] by (simp add: insertion.srt_length)
  moreover have "length zones = length (rc_Zones req)" using zones(3) by (metis length_map)
  moreover have "mset (map ZoneID ?zs) = mset (map requested_zone (rc_Zones req))"
    using zones(3) insertion.srt_perm [of zone_before zones] by (metis mset_map)
  ultimately show ?thesis
    using c by (simp add: resp' toProtoCourier_def toProtoCourierZones_def new_courier_def comp_def)
qed

lemma uuid_trimmed: "TrimSpace (uuid n) = uuid n"
proof (rule TrimSpace_fixed)
  fix p assume p: "p \<in> set space_runes"
  then show "\<not> prefix p (uuid n)" by (auto simp: space_runes_def uuid_def)
  show "\<not> suffix p (uuid n)"
  proof
    assume "suffix p (uuid n)"
    moreover have "p \<noteq> []" "last p \<noteq> CHR ''d''" "last p \<noteq> CHR ''x''" using p by (auto simp: space_runes_def)
    ultimately have "last (uuid n) \<noteq> CHR ''d''" "last (uuid n) \<noteq> CHR ''x''" by (metis suffix_def last_appendR)+
    then show False by (cases "n = 0") (simp_all add: uuid_def last_append last_replicate)
  qed
qed

lemma registration_accepted:
  assumes "run_state (RegisterCourier (NewCourierService v uuid) (Some registration)) no_couriers = (res, w')"
  obtains resp where "res = Inr resp"
proof -
  have "\<not> refused registration 5 (NewCourierRepository 1)"
  proof -
    have "TrimSpace (rc_CourierId registration) = ''c7''" by code_simp
    moreover have "case toDomainCourierVehicleType (rc_VehicleType registration) of Inl err \<Rightarrow> False | Inr vt \<Rightarrow>
        (case toDomainCourierZones (rc_Zones registration) ''c7'' vt of Inl err \<Rightarrow> False
         | Inr zones \<Rightarrow> fst (courier_Create 5 (new_courier ''c7'' vt registration) (NewCourierRepository 1)) = None)"
      by code_simp
    ultimately show ?thesis by (auto simp: refused_def split: sum.splits)
  qed
  then obtain i c zones r1 where reg: "registered v registration (NewCourierRepository 1) i c zones r1 res (cv_repo w')"
    using Register_cases [OF uuid_trimmed assms] by (auto simp: no_couriers_def)
  then have "zonesByCourier r1 = Map.empty" by (auto simp: registered_def NewCourierRepository_def)
  then have "ensureZoneCapacityLocked ks i zones cur r1 = None" for ks zones cur
    by (induction zones) (simp_all add: countCouriersInZoneLocked_def MaxCouriersPerZoneDefault_def inner_def)
  then show ?thesis using that reg by (auto simp: registered_def)
qed

theorem registered_courier_roundtrip_witness:
  "\<exists>resp w'. run_state (RegisterCourier (NewCourierService sorted_visits uuid) (Some registration)) no_couriers = (Inr resp, w')
     \<and> run_state (GetCourier (NewCourierService sorted_visits uuid) (Some (pc_Id resp))) w' = (Inr resp, w')"
proof -
  obtain res w' where run:
    "run_state (RegisterCourier (NewCourierService sorted_visits uuid) (Some registration)) no_couriers = (res, w')"
    using prod.exhaust by blast
  obtain resp where "res = Inr resp" using registration_accepted [OF run] .
  with run have "run_state (RegisterCourier (NewCourierService sorted_visits uuid) (Some registration)) no_couriers = (Inr resp, w')"
    by simp
  from registered_courier_roundtrip [OF sorted_visits_ok sorted_visits_ok uuid_trimmed this] this show ?thesis by blast
qed

section \<open>A full zone\<close>

text \<open>A registration that fails leaves the repository as it was, with one exception: when a requested zone is
  full, the courier stays behind with its phone number taken and no zone, and the caller is told that the
  registration failed.\<close>

theorem failed_registration:
  assumes "\<And>n. TrimSpace (newid n) = newid n"
    and "\<And>i. zonesByCourier (cv_repo w) i \<noteq> None \<Longrightarrow> couriers (cv_repo w) i \<noteq> None"
    and "run_state (RegisterCourier (NewCourierService v newid) (Some req)) w = (Inl st, w')"
  shows "cv_repo w' = cv_repo w
    \<or> (Code st = codes_ResourceExhausted \<and> (\<exists>i c. couriers (cv_repo w) i = None \<and> couriers (cv_repo w') i = Some c
         \<and> courierByPhone (cv_repo w') (Phone c) = Some i \<and> zonesByCourier (cv_repo w') i = None))"
  using Register_cases [OF assms(1,3)]
proof (elim disjE exE conjE)
  fix i c zones r1 assume reg: "registered v req (cv_repo w) i c zones r1 (Inl st) (cv_repo w')"
  then obtain err where err: "ensureZoneCapacityLocked (v_zones v r1) i zones (inner (zonesByCourier r1) i) r1 = Some err"
      "st = mapCourierErr err ''failed to assign courier zones''" "cv_repo w' = r1"
    by (auto simp: registered_def split: option.splits)
  obtain now vt where create: "courier_Create now (new_courier i vt req) (cv_repo w) = (None, r1)"
    using reg by (auto simp: registered_def)
  have facts: "couriers (cv_repo w) i = None" "couriers r1 i = Some c" "zonesByCourier r1 = zonesByCourier (cv_repo w)"
    using reg by (auto simp: registered_def)
  have "Code st = codes_ResourceExhausted"
    unfolding err(2) ensure_error [OF err(1)] by (simp add: mapCourierErr_def status_Error_def)
  moreover have "courierByPhone r1 (Phone c) = Some i" using create
  proof (cases rule: Create_ok)
    case (1 c')
    then show ?thesis using facts(2) by (auto simp: new_courier_def)
  qed
  moreover have "zonesByCourier r1 i = None" using facts assms(2) by metis
  ultimately show ?thesis using facts err(3) by blast
qed simp

text \<open>A hundred couriers in one zone.\<close>

definition crowd :: "string list" where
  "crowd = concat (map (\<lambda>a. map (\<lambda>b. [a, b]) ''0123456789'') ''0123456789'')"

definition two_digits :: "string \<Rightarrow> bool" where
  "two_digits i \<longleftrightarrow> (case i of [a, b] \<Rightarrow> is_digit a \<and> is_digit b | _ \<Rightarrow> False)"

definition crowded :: courier_world where
  "crowded = \<lparr>cv_repo = (NewCourierRepository 1)
       \<lparr>couriers := (\<lambda>i. if two_digits i then Some (driver\<lparr>courier_ID := i\<rparr>) else None),
        zonesByCourier := (\<lambda>i. if two_digits i
          then Some [''msk-cao-arbat'' \<mapsto> \<lparr>cz_CourierID = i, ZoneID = ''msk-cao-arbat'', IsPrimary = True, AssignedAt = 1\<rparr>]
          else None)\<rparr>,
     cv_clock = 5, cv_uuids = 0\<rparr>"

definition crowd_visits :: visits where
  "crowd_visits = \<lparr>v_zones = (\<lambda>r. crowd), v_own = (\<lambda>r i. []), v_slots = (\<lambda>r i. []), v_ratings = (\<lambda>r i. []),
     v_caps = (\<lambda>r. [])\<rparr>"

lemma crowded_run:
  "case run_state (RegisterCourier (NewCourierService crowd_visits uuid) (Some registration)) crowded of
     (Inl st, w') \<Rightarrow> couriers (cv_repo w') ''c7'' \<noteq> None
   | (Inr resp, w') \<Rightarrow> False"
  by code_simp

theorem failed_registration_witness:
  "\<exists>st w' i c. run_state (RegisterCourier (NewCourierService crowd_visits uuid) (Some registration)) crowded = (Inl st, w')
     \<and> Code st = codes_ResourceExhausted \<and> couriers (cv_repo w') i = Some c \<and> zonesByCourier (cv_repo w') i = None"
proof -
  obtain st w' where run:
    "run_state (RegisterCourier (NewCourierService crowd_visits uuid) (Some registration)) crowded = (Inl st, w')"
    and kept: "couriers (cv_repo w') ''c7'' \<noteq> None"
    using crowded_run by (auto split: prod.splits sum.splits)
  have "couriers (cv_repo crowded) ''c7'' = None" by code_simp
  then have changed: "cv_repo w' \<noteq> cv_repo crowded" using kept by metis
  have "zonesByCourier (cv_repo crowded) i \<noteq> None \<Longrightarrow> couriers (cv_repo crowded) i \<noteq> None" for i
    by (simp add: crowded_def split: if_splits)
  from failed_registration [OF uuid_trimmed this run] changed run show ?thesis by blast
qed

section \<open>Inactive couriers\<close>

text \<open>The service documents \<open>ListCouriersByZone\<close> as the list of the active couriers of a zone, but nothing filters
  the inactive ones out.\<close>

definition one_visits :: visits where
  "one_visits = \<lparr>v_zones = (\<lambda>r. [''c1'']), v_own = (\<lambda>r i. [''msk-cao-arbat'', ''msk-cao-basmanny'']),
     v_slots = (\<lambda>r i. []), v_ratings = (\<lambda>r i. []), v_caps = (\<lambda>r. [])\<rparr>"

lemma inactive_courier_is_listed:
  "case run_state (ListCouriersByZone (NewCourierService one_visits uuid) (Some \<lparr>lc_ZoneId = ''msk-cao-arbat'', lc_Limit = 0\<rparr>))
      \<lparr>cv_repo = snd (courier_Save 9 (driver\<lparr>IsActive := False\<rparr>) garage2), cv_clock = 10, cv_uuids = 0\<rparr> of
     (Inr [c], w') \<Rightarrow> pc_Id c = ''c1'' \<and> \<not> pc_IsActive c
   | _ \<Rightarrow> False"
  by code_simp

end
