(* ===== verification/Courier_Schedule.thy ===== *)
theory Courier_Schedule
  imports Courier_Registration
begin

text \<open>
  The working slots of a courier through the service: a slot that \<open>CreateCourierSlot\<close> accepted lasts the hours it
  states and is returned by \<open>ListCourierSlots\<close> for every period it overlaps.
\<close>

lemma time_Unix_exact: "0 \<le> sec \<Longrightarrow> sec < 2 ^ 62 \<Longrightarrow> time_Unix sec = (sec + unix_to_internal) * second"
  by (simp add: time_Unix_def int64_def unix_to_internal_def)

lemma Unix_exact: "0 \<le> sec \<Longrightarrow> sec < 2 ^ 62 \<Longrightarrow> Unix (time_Unix sec) = sec"
  by (simp add: time_Unix_exact Unix_def)

lemma CreateSlot_stores:
  assumes "courier_CreateSlot ks now s r = (None, r')" and "slot_Status s = CourierSlotStatusPlanned"
    and "slot_CreatedAt s = 0" and "slot_UpdatedAt s = 0"
  shows "couriers r' (slot_CourierID s) \<noteq> None"
    "inner (slotsByCourier r') (slot_CourierID s) (slot_ID s) = Some (s\<lparr>slot_CreatedAt := now, slot_UpdatedAt := now\<rparr>)"
    "CourierSlot_ValidateInvariants s = []"
  using assms unfolding courier_CreateSlot_def Let_def
  by (auto simp: clone_defs IsZero_def split: option.splits if_splits)

lemma clone_slots [simp]: "map cloneCourierSlot ss = ss"
  by (induction ss) (simp_all add: cloneCourierSlot_def)

lemma ListSlots_mem:
  assumes "TrimSpace i \<noteq> []" and "couriers r (TrimSpace i) \<noteq> None"
    and "s \<in> set (range_vals (inner (slotsByCourier r) (TrimSpace i)) ks)"
    and "\<not> (\<not> IsZero f \<and> \<not> SlotEnd s > f)" and "\<not> (\<not> IsZero t \<and> \<not> SlotStart s < t)"
  shows "\<exists>slots. courier_ListSlots ks i f t r = Inr slots \<and> s \<in> set slots"
  using assms by (auto simp: courier_ListSlots_def Let_def insertion.srt_set)

definition requested_slot :: "string \<Rightarrow> CreateCourierSlotRequest \<Rightarrow> CourierSlot" where
  "requested_slot i req = \<lparr>slot_ID = i, slot_CourierID = TrimSpace (sl_CourierId req),
     SlotStart = time_Unix (sl_SlotStartUnix req), SlotEnd = time_Unix (sl_SlotEndUnix req),
     DurationHours = sl_DurationHours req, slot_Status = CourierSlotStatusPlanned, slot_CreatedAt = 0, slot_UpdatedAt = 0\<rparr>"

lemma CreateCourierSlot_Inr:
  assumes "\<And>n. TrimSpace (newid n) = newid n"
    and "run_state (CreateCourierSlot (NewCourierService v newid) (Some req)) w = (Inr slot, w')"
  obtains i now where "slot = toProtoCourierSlot (requested_slot i req)" "TrimSpace (sl_CourierId req) \<noteq> []"
    "0 < sl_SlotStartUnix req" "0 < sl_SlotEndUnix req"
    "courier_CreateSlot (v_slots v (cv_repo w) (TrimSpace (sl_CourierId req))) now (requested_slot i req) (cv_repo w)
       = (None, cv_repo w')"
proof -
  obtain i w1 where i: "run_state (given_or_new (NewCourierService v newid) (sl_SlotId req)) w = (i, w1)"
    using prod.exhaust by blast
  note id = given_or_new_run [OF assms(1) i]
  show ?thesis
    using assms(2) i id(2) that [of i "cv_clock w1"]
    by (auto simp: CreateCourierSlot_def courier_ops Let_def requested_slot_def [symmetric]
        split: if_splits option.splits prod.splits)
qed

text \<open>The request for the slots of a courier in the period from \<open>f\<close> to \<open>t\<close> (seconds; 0 leaves an end open), and
  whether a slot overlaps the period.\<close>

definition period :: "string \<Rightarrow> int \<Rightarrow> int \<Rightarrow> ListCourierSlotsRequest" where
  "period i f t = \<lparr>ls_CourierId = i, ls_FromUnix = f, ls_ToUnix = t\<rparr>"

definition overlaps :: "int \<Rightarrow> int \<Rightarrow> pb_CourierSlot \<Rightarrow> bool" where
  "overlaps f t slot \<longleftrightarrow> 0 \<le> f \<and> 0 \<le> t \<and> f < 2 ^ 62 \<and> t < 2 ^ 62 \<and> (f = 0 \<or> t = 0 \<or> f < t)
     \<and> (f = 0 \<or> f < ps_SlotEndUnix slot) \<and> (t = 0 \<or> ps_SlotStartUnix slot < t)"

text \<open>A slot the service accepted lasts the stated 4, 8 or 12 hours, and is listed for every period it overlaps.\<close>

theorem created_slot_is_listed:
  assumes "visits_ok v" and "reachable (cv_repo w)" and "\<And>n. TrimSpace (newid n) = newid n"
    and "sl_SlotStartUnix req < 2 ^ 62" and "sl_SlotEndUnix req < 2 ^ 62"
    and "run_state (CreateCourierSlot (NewCourierService v newid) (Some req)) w = (Inr slot, w')"
    and "overlaps f t slot"
  shows "ps_SlotEndUnix slot = ps_SlotStartUnix slot + 3600 * ps_DurationHours slot \<and> ps_DurationHours slot \<in> {4, 8, 12}
    \<and> (\<exists>slots. run_state (ListCourierSlots (NewCourierService v newid) (Some (period (sl_CourierId req) f t))) w' = (Inr slots, w')
         \<and> slot \<in> set slots)"
proof (rule CreateCourierSlot_Inr [OF assms(3,6)])
  fix i now
  assume slot: "slot = toProtoCourierSlot (requested_slot i req)" and id: "TrimSpace (sl_CourierId req) \<noteq> []"
    and pos: "0 < sl_SlotStartUnix req" "0 < sl_SlotEndUnix req"
    and create: "courier_CreateSlot (v_slots v (cv_repo w) (TrimSpace (sl_CourierId req))) now (requested_slot i req) (cv_repo w)
       = (None, cv_repo w')"
  let ?c = "TrimSpace (sl_CourierId req)" and ?s = "requested_slot i req"
  note unix = time_Unix_exact [OF less_imp_le [OF pos(1)] assms(4)] time_Unix_exact [OF less_imp_le [OF pos(2)] assms(5)]
    Unix_exact [OF less_imp_le [OF pos(1)] assms(4)] Unix_exact [OF less_imp_le [OF pos(2)] assms(5)]
  have stored: "inner (slotsByCourier (cv_repo w')) ?c i = Some (?s\<lparr>slot_CreatedAt := now, slot_UpdatedAt := now\<rparr>)"
      and found: "couriers (cv_repo w') ?c \<noteq> None" and valid: "CourierSlot_ValidateInvariants ?s = []"
    using CreateSlot_stores [OF create] by (auto simp: requested_slot_def)
  have lasts: "sl_SlotEndUnix req = sl_SlotStartUnix req + 3600 * sl_DurationHours req" "sl_DurationHours req \<in> {4, 8, 12}"
    using valid unix(1,2) by (auto simp: CourierSlot_valid_iff requested_slot_def)
  have "range_order (inner (slotsByCourier (cv_repo w)) ?c) (v_slots v (cv_repo w) ?c)"
    using assms(1) reachable_finite_slots [OF assms(2)] by (simp add: visits_ok_def)
  then have "reachable (cv_repo w')" using create assms(2)
    by (intro reachable.slot [OF assms(2) _ create]) (simp add: requested_slot_def)
  then have ks: "range_order (inner (slotsByCourier (cv_repo w')) ?c) (v_slots v (cv_repo w') ?c)"
    using assms(1) reachable_finite_slots by (simp add: visits_ok_def)
  let ?f = "if f > 0 then time_Unix f else 0" and ?t = "if t > 0 then time_Unix t else 0"
  have bounds: "0 \<le> f" "0 \<le> t" "f < 2 ^ 62" "t < 2 ^ 62" "f = 0 \<or> t = 0 \<or> f < t"
      "f = 0 \<or> f < sl_SlotEndUnix req" "t = 0 \<or> sl_SlotStartUnix req < t"
    using assms(7) unix(3,4) by (auto simp: overlaps_def slot toProtoCourierSlot_def requested_slot_def)
  have window: "\<not> (\<not> IsZero ?f \<and> \<not> SlotEnd ?s > ?f)" "\<not> (\<not> IsZero ?t \<and> \<not> SlotStart ?s < ?t)"
      "\<not> (\<not> IsZero ?f \<and> \<not> IsZero ?t \<and> \<not> ?t > ?f)"
    using bounds unix(1,2) by (auto simp: requested_slot_def time_Unix_exact IsZero_def)
  have mem: "?s\<lparr>slot_CreatedAt := now, slot_UpdatedAt := now\<rparr> \<in> set (range_vals (inner (slotsByCourier (cv_repo w')) ?c)
      (v_slots v (cv_repo w') ?c))"
    using stored ks by (auto simp: set_range_vals range_order_def)
  obtain slots where list: "courier_ListSlots (v_slots v (cv_repo w') ?c) (sl_CourierId req) ?f ?t (cv_repo w') = Inr slots"
      and in_list: "?s\<lparr>slot_CreatedAt := now, slot_UpdatedAt := now\<rparr> \<in> set slots"
    using ListSlots_mem [OF id found mem, of ?f ?t] window(1,2) by auto
  have "run_state (ListCourierSlots (NewCourierService v newid) (Some (period (sl_CourierId req) f t))) w'
      = (Inr (map toProtoCourierSlot slots), w')"
    using id list bounds(1,2) window(3)
    by (cases "f > 0"; cases "t > 0") (simp_all add: ListCourierSlots_def courier_ops period_def Let_def IsZero_def)
  moreover have "slot = toProtoCourierSlot (?s\<lparr>slot_CreatedAt := now, slot_UpdatedAt := now\<rparr>)"
    by (simp add: slot toProtoCourierSlot_def)
  then have "slot \<in> set (map toProtoCourierSlot slots)" using in_list by (simp only: set_map imageI)
  moreover have "ps_SlotEndUnix slot = ps_SlotStartUnix slot + 3600 * ps_DurationHours slot" "ps_DurationHours slot \<in> {4, 8, 12}"
    using lasts unix(3,4) by (auto simp: slot toProtoCourierSlot_def requested_slot_def toProtoInt32_def int32_def)
  ultimately show ?thesis by blast
qed

definition slot_request :: CreateCourierSlotRequest where
  "slot_request = \<lparr>sl_SlotId = ''s1'', sl_CourierId = '' c1'', sl_SlotStartUnix = 3600 * 1000,
     sl_SlotEndUnix = 3600 * 1012, sl_DurationHours = 12\<rparr>"

definition garage_world :: courier_world where
  "garage_world = \<lparr>cv_repo = garage1, cv_clock = 7, cv_uuids = 0\<rparr>"

lemma slot_accepted:
  "\<exists>w'. run_state (CreateCourierSlot (NewCourierService v uuid) (Some slot_request)) garage_world
     = (Inr (toProtoCourierSlot (requested_slot ''s1'' slot_request)), w')"
proof -
  have trim: "TrimSpace '' c1'' = ''c1''" "TrimSpace ''s1'' = ''s1''" by code_simp+
  have nil: "range_vals Map.empty ks = []" for ks :: "string list" by (induction ks) auto
  have inner0: "inner (slotsByCourier garage1) j = Map.empty" for j by (simp add: slotsByCourier_garage1 inner_def)
  have "courier_CreateSlot ks 7 (requested_slot ''s1'' slot_request) garage1
      = courier_CreateSlot [] 7 (requested_slot ''s1'' slot_request) garage1" for ks
    unfolding courier_CreateSlot_def Let_def inner0 nil ..
  moreover have "fst (courier_CreateSlot [] 7 (requested_slot ''s1'' slot_request) garage1) = None" by code_simp
  ultimately obtain r where "courier_CreateSlot ks 7 (requested_slot ''s1'' slot_request) garage1 = (None, r)" for ks
    by (metis prod.collapse)
  then show ?thesis
    by (simp add: CreateCourierSlot_def courier_ops given_or_new_def Let_def requested_slot_def slot_request_def trim
        garage_world_def)
qed

theorem created_slot_is_listed_witness:
  "\<exists>slot slots w'. run_state (CreateCourierSlot (NewCourierService sorted_visits uuid) (Some slot_request)) garage_world = (Inr slot, w')
     \<and> run_state (ListCourierSlots (NewCourierService sorted_visits uuid) (Some (period '' c1'' 0 (3600 * 1001)))) w' = (Inr slots, w')
     \<and> slot \<in> set slots"
proof -
  let ?slot = "toProtoCourierSlot (requested_slot ''s1'' slot_request)"
  obtain w' where run:
    "run_state (CreateCourierSlot (NewCourierService sorted_visits uuid) (Some slot_request)) garage_world = (Inr ?slot, w')"
    using slot_accepted by blast
  have "reachable (cv_repo garage_world)" using garage_reachable(1) by (simp add: garage_world_def)
  moreover have "sl_SlotStartUnix slot_request < 2 ^ 62" "sl_SlotEndUnix slot_request < 2 ^ 62"
    by (simp_all add: slot_request_def)
  moreover have "overlaps 0 (3600 * 1001) ?slot"
    by (simp add: overlaps_def toProtoCourierSlot_def requested_slot_def slot_request_def Unix_exact)
  ultimately have "\<exists>slots. run_state (ListCourierSlots (NewCourierService sorted_visits uuid)
      (Some (period (sl_CourierId slot_request) 0 (3600 * 1001)))) w' = (Inr slots, w') \<and> ?slot \<in> set slots"
    using created_slot_is_listed [OF sorted_visits_ok _ uuid_trimmed _ _ run] by blast
  then show ?thesis using run unfolding slot_request_def by auto
qed

end
