(* ===== verification/Kafka.thy ===== *)
theory Kafka
  imports Saga
begin

text \<open>
  \<open>internal/messaging/kafka\<close>: the producer, the outbox publisher and the consumer with its retries and dead
  letters.

  \<^item> sarama and \<open>encoding/json\<close> are outside the repository: sending, marking and encoding are operations of the
    records below.
  \<^item> \<open>ConsumeClaim\<close> is driven by the list of what its \<open>select\<close> yields: a message, the end of the channel or the
    end of the session's context.
  \<^item> The goroutines of \<open>Start\<close>, which call sarama's \<open>Consume\<close> in a loop and log its errors, and \<open>Stop\<close>, which
    closes the group, are not modelled; \<open>Setup\<close> and \<open>Cleanup\<close> do nothing.
\<close>

section \<open>Events and headers\<close>

definition HeaderRetryCount :: string where "HeaderRetryCount = ''x-retry-count''"

record OrderEvent =
  oe_EventType :: kafka_EventType
  oe_OrderID :: string
  oe_CustomerID :: string
  oe_Status :: string
  oe_Timestamp :: gotime
  oe_Metadata :: jobject

definition NewOrderEvent ::
  "gotime \<Rightarrow> kafka_EventType \<Rightarrow> string \<Rightarrow> string \<Rightarrow> string \<Rightarrow> jobject \<Rightarrow> OrderEvent" where
  "NewOrderEvent now eventType orderID customerID status metadata =
     \<lparr>oe_EventType = eventType, oe_OrderID = orderID, oe_CustomerID = customerID, oe_Status = status,
      oe_Timestamp = now, oe_Metadata = metadata\<rparr>"

record ConsumerMessage =
  cm_Topic :: string
  cm_Partition :: int
  cm_Offset :: int
  cm_Key :: bytes
  cm_Value :: bytes
  cm_Headers :: "(bytes \<times> bytes) list"

record ProducerMessage =
  pm_Topic :: string
  pm_Key :: string
  pm_Value :: bytes
  pm_Timestamp :: gotime

section \<open>The producer\<close>

record 'w Producer =
  kp_SendMessage :: "ProducerMessage \<Rightarrow> ('w, error option) prog"
  kp_Marshal :: "jobject \<Rightarrow> error + bytes"
  kp_Now :: "('w, gotime) prog"
  kp_Format :: "gotime \<Rightarrow> string"

definition PublishEvent :: "'w Producer \<Rightarrow> string \<Rightarrow> string \<Rightarrow> jobject \<Rightarrow> ('w, error option) prog" where
  "PublishEvent p topic key event =
     (case kp_Marshal p event of
        Inl err \<Rightarrow> return (Some (Wrapped ''failed to marshal event'' err))
      | Inr eventData \<Rightarrow> do {
          now \<leftarrow> kp_Now p;
          res \<leftarrow> kp_SendMessage p \<lparr>pm_Topic = topic, pm_Key = key, pm_Value = eventData, pm_Timestamp = now\<rparr>;
          (case res of
             Some err \<Rightarrow> return (Some (Wrapped ''failed to send message'' err))
           | None \<Rightarrow> return None)
        })"

record 'w OutboxTopicPublisher =
  op_producer :: "'w Producer option"
  op_topic :: string

definition NewOutboxPublisher :: "'w Producer option \<Rightarrow> string \<Rightarrow> 'w OutboxTopicPublisher" where
  "NewOutboxPublisher producer topic =
     \<lparr>op_producer = producer, op_topic = (if topic = [] then TopicOrderEvents else topic)\<rparr>"

definition outbox_envelope :: "OutboxMessage \<Rightarrow> string \<Rightarrow> jobject" where
  "outbox_envelope event publishedAt =
     [(''id'', JStr (msg_ID event)), (''aggregate_type'', JStr (AggregateType event)),
      (''aggregate_id'', JStr (AggregateID event)), (''event_type'', JStr (EventType event)),
      (''payload'', JRaw (Payload event)), (''published_at'', JStr publishedAt)]"

definition outbox_Publish :: "'w OutboxTopicPublisher \<Rightarrow> OutboxMessage \<Rightarrow> ('w, error option) prog" where
  "outbox_Publish p event =
     (case op_producer p of
        None \<Rightarrow> return (Some (Opaque ''kafka outbox publisher is not initialized''))
      | Some producer \<Rightarrow> do {
          now \<leftarrow> kp_Now producer;
          PublishEvent producer (op_topic p) (if AggregateID event = [] then msg_ID event else AggregateID event)
            (outbox_envelope event (kp_Format producer now))
        })"

section \<open>The consumer\<close>

text \<open>\<open>strconv.Atoi\<close>: a sign, at least one digit, and a value in the range of \<open>int\<close>.\<close>

definition digit_value :: "char \<Rightarrow> int option" where
  "digit_value c = (if CHR ''0'' \<le> c \<and> c \<le> CHR ''9'' then Some (of_char c - 48) else None)"

fun parse_digits :: "string \<Rightarrow> int \<Rightarrow> int option" where
  "parse_digits [] acc = Some acc"
| "parse_digits (c # cs) acc =
     (case digit_value c of None \<Rightarrow> None | Some d \<Rightarrow> parse_digits cs (10 * acc + d))"

definition Atoi :: "string \<Rightarrow> int option" where
  "Atoi s =
     (let (neg, ds) = (case s of
            c # cs \<Rightarrow> if c = CHR ''-'' then (True, cs) else if c = CHR ''+'' then (False, cs) else (False, s)
          | [] \<Rightarrow> (False, s))
      in if ds = [] then None
         else case parse_digits ds 0 of
                None \<Rightarrow> None
              | Some n \<Rightarrow> let v = (if neg then - n else n) in if in_int64 v then Some v else None)"

record 'w Consumer =
  c_handler :: "ConsumerMessage \<Rightarrow> ('w, error option) prog"
  c_dlqProducer :: "'w Producer option"
  c_maxRetries :: int
  c_retryDelay :: duration
  c_wait :: "duration \<Rightarrow> ('w, error option) prog"
  c_MarkMessage :: "ConsumerMessage \<Rightarrow> ('w, unit) prog"
  c_Now :: "('w, gotime) prog"
  c_Format :: "gotime \<Rightarrow> string"

definition defaultConsumerRetryDelay :: duration where "defaultConsumerRetryDelay = 100 * millisecond"

text \<open>The configuration that \<open>NewConsumerWithDLQ\<close> puts into a consumer when the group could be created.\<close>

definition NewConsumerWithDLQ :: "'w Consumer \<Rightarrow> 'w Producer option \<Rightarrow> int \<Rightarrow> 'w Consumer" where
  "NewConsumerWithDLQ c dlqProducer max_r =
     c\<lparr>c_dlqProducer := dlqProducer, c_maxRetries := (if max_r \<le> 0 then 1 else max_r),
       c_retryDelay := defaultConsumerRetryDelay\<rparr>"

definition NewConsumer :: "'w Consumer \<Rightarrow> 'w Consumer" where
  "NewConsumer c = NewConsumerWithDLQ c None 3"

fun getRetryCount_loop :: "(bytes \<times> bytes) list \<Rightarrow> int" where
  "getRetryCount_loop [] = 0"
| "getRetryCount_loop ((k, v) # headers) =
     (if k = HeaderRetryCount then (case Atoi v of Some n \<Rightarrow> n | None \<Rightarrow> getRetryCount_loop headers)
      else getRetryCount_loop headers)"

definition getRetryCount :: "ConsumerMessage \<Rightarrow> int" where
  "getRetryCount message = getRetryCount_loop (cm_Headers message)"

definition sleepWithContext :: "'w Consumer \<Rightarrow> duration \<Rightarrow> ('w, error option) prog" where
  "sleepWithContext c delay = (if delay \<le> 0 then return None else c_wait c delay)"

definition dlq_message :: "ConsumerMessage \<Rightarrow> error \<Rightarrow> string \<Rightarrow> jobject" where
  "dlq_message message processingErr failedAt =
     [(''original_topic'', JStr (cm_Topic message)), (''original_partition'', JInt (cm_Partition message)),
      (''original_offset'', JInt (cm_Offset message)), (''original_key'', JStr (cm_Key message)),
      (''original_value'', JStr (cm_Value message)), (''error_message'', JStr (Error processingErr)),
      (''failed_at'', JStr failedAt), (''retry_count'', JInt (getRetryCount message))]"

definition sendToDLQ :: "'w Consumer \<Rightarrow> 'w Producer \<Rightarrow> ConsumerMessage \<Rightarrow> error \<Rightarrow> ('w, error option) prog" where
  "sendToDLQ c dlq message processingErr = do {
     now \<leftarrow> c_Now c;
     PublishEvent dlq TopicDeadLetterQueue (cm_Key message) (dlq_message message processingErr (c_Format c now))
   }"

definition handleMaxRetriesExceeded :: "'w Consumer \<Rightarrow> ConsumerMessage \<Rightarrow> error \<Rightarrow> ('w, error option) prog" where
  "handleMaxRetriesExceeded c message processingErr =
     (case c_dlqProducer c of
        Some dlq \<Rightarrow> do {
          res \<leftarrow> sendToDLQ c dlq message processingErr;
          (case res of
             Some dlqErr \<Rightarrow> return (Some (Wrapped ''failed to send to DLQ'' dlqErr))
           | None \<Rightarrow> return None)
        }
      | None \<Rightarrow> return (Some processingErr))"

text \<open>The loop of \<open>handleMessageWithRetry\<close>; \<open>left\<close> is how far the attempt is below the maximum.\<close>

fun handle_loop :: "'w Consumer \<Rightarrow> ConsumerMessage \<Rightarrow> nat \<Rightarrow> ('w, error option) prog" where
  "handle_loop c message left = do {
     res \<leftarrow> c_handler c message;
     (case res of
        None \<Rightarrow> return None
      | Some err \<Rightarrow>
          (case left of
             0 \<Rightarrow> handleMaxRetriesExceeded c message err
           | Suc left' \<Rightarrow> do {
               slept \<leftarrow> sleepWithContext c (c_retryDelay c);
               (case slept of
                  Some ctxErr \<Rightarrow> return (Some ctxErr)
                | None \<Rightarrow> handle_loop c message left')
             }))
   }"

declare handle_loop.simps [simp del]

definition handleMessageWithRetry :: "'w Consumer \<Rightarrow> ConsumerMessage \<Rightarrow> ('w, error option) prog" where
  "handleMessageWithRetry c message =
     (let retryCount = getRetryCount message;
          max_r = (if c_maxRetries c \<le> 0 then 1 else c_maxRetries c);
          attempt = int64 (retryCount + 1)
      in if attempt > max_r then
           handleMaxRetriesExceeded c message (Opaque (''retry_count='' @ int_string retryCount
             @ '' exceeds max_retries='' @ int_string max_r))
         else handle_loop c message (nat (max_r - attempt)))"

text \<open>What the \<open>select\<close> of \<open>ConsumeClaim\<close> yields.\<close>

datatype claim_event = ClaimMessage ConsumerMessage | ClaimClosed | SessionDone

fun ConsumeClaim :: "'w Consumer \<Rightarrow> claim_event list \<Rightarrow> ('w, unit) prog" where
  "ConsumeClaim c [] = skip"
| "ConsumeClaim c (ClaimClosed # evs) = skip"
| "ConsumeClaim c (SessionDone # evs) = skip"
| "ConsumeClaim c (ClaimMessage message # evs) = do {
     res \<leftarrow> handleMessageWithRetry c message;
     (case res of
        Some _ \<Rightarrow> ConsumeClaim c evs
      | None \<Rightarrow> do {
          c_MarkMessage c message;
          ConsumeClaim c evs
        })
   }"

definition ParseEvent :: "(bytes \<Rightarrow> error + 'e) \<Rightarrow> string \<Rightarrow> ConsumerMessage \<Rightarrow> error + 'e" where
  "ParseEvent unmarshal what message =
     (case unmarshal (cm_Value message) of
        Inl err \<Rightarrow> Inl (Wrapped (''failed to unmarshal '' @ what @ '' event'') err)
      | Inr event \<Rightarrow> Inr event)"

definition ParseSagaEvent :: "(bytes \<Rightarrow> error + SagaEvent) \<Rightarrow> ConsumerMessage \<Rightarrow> error + SagaEvent" where
  "ParseSagaEvent unmarshal message = ParseEvent unmarshal ''saga'' message"

definition ParseOrderEvent :: "(bytes \<Rightarrow> error + OrderEvent) \<Rightarrow> ConsumerMessage \<Rightarrow> error + OrderEvent" where
  "ParseOrderEvent unmarshal message = ParseEvent unmarshal ''order'' message"

end
