(* ===== verification/Kafka_Properties.thy ===== *)
theory Kafka_Properties
  imports Kafka
begin

text \<open>
  The consumer in a world that logs what it does: every answer of the handler, every message given to the
  broker with its answer, every mark. The handler, the broker, the clock and the end of the context are
  arbitrary functions of a hidden state (\<open>kafka_env\<close>). \<open>consumer_settles\<close> gives the fate of every message of
  a claim.
\<close>

section \<open>A world for the consumer\<close>

datatype k_event =
    Handled ConsumerMessage "error option"
  | Sent ProducerMessage "error option"
  | Marked ConsumerMessage

record 's k_world =
  k_log :: "k_event list"
  k_ext :: 's

record 's kafka_env =
  kx_handler :: "ConsumerMessage \<Rightarrow> 's \<Rightarrow> error option \<times> 's"
  kx_send :: "ProducerMessage \<Rightarrow> 's \<Rightarrow> error option \<times> 's"
  kx_wait :: "duration \<Rightarrow> 's \<Rightarrow> error option \<times> 's"
  kx_now :: "'s \<Rightarrow> gotime \<times> 's"
  kx_marshal :: "jobject \<Rightarrow> error + bytes"
  kx_format :: "gotime \<Rightarrow> string"

definition k_outside :: "('s \<Rightarrow> 'a \<times> 's) \<Rightarrow> ('s k_world, 'a) prog" where
  "k_outside f = State (\<lambda>w. case f (k_ext w) of (a, s) \<Rightarrow> (a, w\<lparr>k_ext := s\<rparr>))"

definition k_write :: "k_event \<Rightarrow> ('s k_world, unit) prog" where
  "k_write e = State (\<lambda>w. ((), w\<lparr>k_log := k_log w @ [e]\<rparr>))"

definition logging_producer :: "'s kafka_env \<Rightarrow> 's k_world Producer" where
  "logging_producer x =
     \<lparr>kp_SendMessage = (\<lambda>pm. do { err \<leftarrow> k_outside (kx_send x pm); _ \<leftarrow> k_write (Sent pm err); return err }),
      kp_Marshal = kx_marshal x, kp_Now = k_outside (kx_now x), kp_Format = kx_format x\<rparr>"

definition logging_consumer :: "'s kafka_env \<Rightarrow> bool \<Rightarrow> int \<Rightarrow> 's k_world Consumer" where
  "logging_consumer x dlq max_r = NewConsumerWithDLQ
     \<lparr>c_handler = (\<lambda>m. do { err \<leftarrow> k_outside (kx_handler x m); _ \<leftarrow> k_write (Handled m err); return err }),
      c_dlqProducer = None, c_maxRetries = 0, c_retryDelay = 0,
      c_wait = (\<lambda>d. k_outside (kx_wait x d)), c_MarkMessage = (\<lambda>m. k_write (Marked m)),
      c_Now = k_outside (kx_now x), c_Format = kx_format x\<rparr>
     (if dlq then Some (logging_producer x) else None) max_r"

lemma logging_consumer_sel [simp]:
  "c_handler (logging_consumer x dlq max_r) =
     (\<lambda>m. do { err \<leftarrow> k_outside (kx_handler x m); _ \<leftarrow> k_write (Handled m err); return err })"
  "c_dlqProducer (logging_consumer x dlq max_r) = (if dlq then Some (logging_producer x) else None)"
  "c_maxRetries (logging_consumer x dlq max_r) = max 1 max_r"
  "c_retryDelay (logging_consumer x dlq max_r) = 100 * millisecond"
  "c_wait (logging_consumer x dlq max_r) = (\<lambda>d. k_outside (kx_wait x d))"
  "c_MarkMessage (logging_consumer x dlq max_r) = (\<lambda>m. k_write (Marked m))"
  "c_Now (logging_consumer x dlq max_r) = k_outside (kx_now x)"
  "c_Format (logging_consumer x dlq max_r) = kx_format x"
  by (simp_all add: logging_consumer_def NewConsumerWithDLQ_def defaultConsumerRetryDelay_def max_def)

lemma run_outside: "run_state (k_outside f) w = (a, w') \<Longrightarrow> k_log w' = k_log w \<and> a = fst (f (k_ext w))"
  by (auto simp: k_outside_def split: prod.splits)

lemma run_write: "run_state (k_write e) w = (u, w') \<Longrightarrow> k_log w' = k_log w @ [e]"
  by (auto simp: k_write_def)

section \<open>The fate of a message\<close>

text \<open>How often the handler may be called: the first attempt is the retry count of the header plus one,
  in 64 bits.\<close>

definition attempt_budget :: "int \<Rightarrow> ConsumerMessage \<Rightarrow> nat" where
  "attempt_budget max_r m = nat (max 1 max_r - int64 (getRetryCount m + 1) + 1)"

text \<open>A message in the dead letter topic that carries the given one.\<close>

definition dead_letter :: "'s kafka_env \<Rightarrow> ConsumerMessage \<Rightarrow> ProducerMessage \<Rightarrow> bool" where
  "dead_letter x m pm \<longleftrightarrow> pm_Topic pm = TopicDeadLetterQueue \<and> pm_Key pm = cm_Key m
     \<and> (\<exists>err failedAt. kx_marshal x (dlq_message m err failedAt) = Inr (pm_Value pm))"

text \<open>The log of one message: the answers of the handler, the dead letters with the broker's answers and
  whether the message was marked.\<close>

definition message_log ::
  "ConsumerMessage \<Rightarrow> error option list \<Rightarrow> (ProducerMessage \<times> error option) list \<Rightarrow> bool \<Rightarrow> k_event list" where
  "message_log m answers dead marked =
     map (Handled m) answers @ map (\<lambda>(pm, a). Sent pm a) dead @ (if marked then [Marked m] else [])"

definition succeeded :: "error option list \<Rightarrow> bool" where
  "succeeded answers \<longleftrightarrow> answers \<noteq> [] \<and> last answers = None"

definition message_fate ::
  "'s kafka_env \<Rightarrow> bool \<Rightarrow> nat \<Rightarrow> ConsumerMessage \<Rightarrow> error option list \<Rightarrow> (ProducerMessage \<times> error option) list
    \<Rightarrow> bool \<Rightarrow> bool" where
  "message_fate x live budget m answers dead marked \<longleftrightarrow>
     length answers \<le> budget \<and> None \<notin> set (butlast answers)
     \<and> (dead = [] \<or> (\<exists>pm a. dead = [(pm, a)] \<and> dead_letter x m pm \<and> \<not> succeeded answers \<and> length answers = budget))
     \<and> (marked \<longleftrightarrow> succeeded answers \<or> None \<in> snd ` set dead)
     \<and> (live \<longrightarrow> marked)"

text \<open>What makes a consumer settle everything: a dead letter topic that accepts what it is given, and a
  context that does not end.\<close>

definition delivering :: "'s kafka_env \<Rightarrow> bool \<Rightarrow> bool" where
  "delivering x dlq \<longleftrightarrow> dlq \<and> (\<forall>pm s. fst (kx_send x pm s) = None) \<and> (\<forall>d s. fst (kx_wait x d s) = None)
     \<and> (\<forall>obj. \<exists>b. kx_marshal x obj = Inr b)"

lemma run_PublishEvent:
  assumes "run_state (PublishEvent (logging_producer x) topic key obj) w = (err, w')"
  shows "(\<exists>b e. kx_marshal x obj = Inl b \<and> err = Some e \<and> k_log w' = k_log w)
    \<or> (\<exists>pm a. pm_Topic pm = topic \<and> pm_Key pm = key \<and> kx_marshal x obj = Inr (pm_Value pm)
         \<and> (err = None \<longleftrightarrow> a = None) \<and> ((\<forall>s. fst (kx_send x pm s) = None) \<longrightarrow> a = None)
         \<and> k_log w' = k_log w @ [Sent pm a])"
proof (cases "kx_marshal x obj")
  case (Inl b)
  then show ?thesis using assms by (auto simp: PublishEvent_def logging_producer_def)
next
  case (Inr b)
  obtain now s1 where now: "kx_now x (k_ext w) = (now, s1)" by fastforce
  let ?pm = "\<lparr>pm_Topic = topic, pm_Key = key, pm_Value = b, pm_Timestamp = now\<rparr>"
  obtain a s2 where send: "kx_send x ?pm s1 = (a, s2)" by fastforce
  have "k_log w' = k_log w @ [Sent ?pm a]" and "err = None \<longleftrightarrow> a = None"
    using assms Inr now send
    by (auto simp: PublishEvent_def logging_producer_def k_outside_def k_write_def split: option.splits)
  moreover have "(\<forall>s. fst (kx_send x ?pm s) = None) \<longrightarrow> a = None" using send by (metis fst_conv)
  ultimately show ?thesis using Inr by (intro disjI2 exI [of _ ?pm] exI [of _ a]) simp
qed

lemma run_max_retries:
  assumes "run_state (handleMaxRetriesExceeded (logging_consumer x dlq max_r) m perr) w = (err, w')"
  shows "\<exists>dead. k_log w' = k_log w @ map (\<lambda>(pm, a). Sent pm a) dead
    \<and> (dead = [] \<or> (\<exists>pm a. dead = [(pm, a)] \<and> dead_letter x m pm))
    \<and> (err = None \<longleftrightarrow> None \<in> snd ` set dead) \<and> (delivering x dlq \<longrightarrow> err = None)"
proof (cases dlq)
  case False
  then show ?thesis using assms by (auto simp: handleMaxRetriesExceeded_def delivering_def)
next
  case True
  then obtain now v res where now: "run_state (k_outside (kx_now x)) w = (now, v)"
      and pub: "run_state (PublishEvent (logging_producer x) TopicDeadLetterQueue (cm_Key m)
        (dlq_message m perr (kx_format x now))) v = (res, w')"
      and res: "err = None \<longleftrightarrow> res = None"
    using assms by (auto simp: handleMaxRetriesExceeded_def sendToDLQ_def split: option.splits prod.splits)
  have log: "k_log v = k_log w" using run_outside [OF now] by simp
  show ?thesis
  proof (cases "kx_marshal x (dlq_message m perr (kx_format x now))")
    case (Inl b)
    then have "\<not> delivering x dlq" by (metis delivering_def sum.distinct(1))
    then show ?thesis using run_PublishEvent [OF pub] Inl res log by (intro exI [of _ "[]"]) auto
  next
    case (Inr b)
    then obtain pm a where sent: "pm_Topic pm = TopicDeadLetterQueue" "pm_Key pm = cm_Key m" "b = pm_Value pm"
        "res = None \<longleftrightarrow> a = None" "(\<forall>s. fst (kx_send x pm s) = None) \<longrightarrow> a = None"
        "k_log w' = k_log v @ [Sent pm a]"
      using run_PublishEvent [OF pub] by auto
    then have "dead_letter x m pm" using Inr by (auto simp: dead_letter_def)
    moreover have "delivering x dlq \<longrightarrow> a = None" using sent(5) by (simp add: delivering_def)
    ultimately show ?thesis using sent(4,6) res log by (intro exI [of _ "[(pm, a)]"]) auto
  qed
qed

text \<open>The loop, and with it \<open>handleMessageWithRetry\<close>.\<close>

lemma run_handle_loop:
  "run_state (handle_loop (logging_consumer x dlq max_r) m left) w = (err, w') \<Longrightarrow>
   \<exists>answers dead. k_log w' = k_log w @ message_log m answers dead False
     \<and> message_fate x (delivering x dlq) (Suc left) m answers dead (err = None)"
proof (induction left arbitrary: w)
  case 0
  obtain a s where a: "kx_handler x m (k_ext w) = (a, s)" by fastforce
  let ?v = "w\<lparr>k_ext := s, k_log := k_log w @ [Handled m a]\<rparr>"
  show ?case
  proof (cases a)
    case None
    then have "err = None" "k_log w' = k_log w @ [Handled m None]"
      using 0 a by (auto simp: handle_loop.simps [of _ _ 0] k_outside_def k_write_def)
    then show ?thesis
      by (intro exI [of _ "[None]"] exI [of _ "[]"]) (simp add: message_log_def message_fate_def succeeded_def)
  next
    case (Some e)
    then have "run_state (handleMaxRetriesExceeded (logging_consumer x dlq max_r) m e) ?v = (err, w')"
      using 0 a by (simp add: handle_loop.simps [of _ _ 0] k_outside_def k_write_def)
    from run_max_retries [OF this] show ?thesis using Some
      by (elim exE conjE, intro exI [of _ "[a]"]) (auto simp: message_log_def message_fate_def succeeded_def)
  qed
next
  case (Suc left)
  obtain a s where a: "kx_handler x m (k_ext w) = (a, s)" by fastforce
  obtain sl s' where sl: "kx_wait x (100 * millisecond) s = (sl, s')" by fastforce
  let ?v = "w\<lparr>k_log := k_log w @ [Handled m a], k_ext := s'\<rparr>"
  consider "a = None" | e e' where "a = Some e" "sl = Some e'" | e where "a = Some e" "sl = None"
    by (cases a; cases sl) auto
  then show ?case
  proof cases
    case 1
    then have "err = None" "k_log w' = k_log w @ [Handled m None]"
      using Suc.prems a by (auto simp: handle_loop.simps [of _ _ "Suc left"] k_outside_def k_write_def)
    then show ?thesis
      by (intro exI [of _ "[None]"] exI [of _ "[]"]) (simp add: message_log_def message_fate_def succeeded_def)
  next
    case 2
    then have "err = Some e'" "k_log w' = k_log w @ [Handled m a]"
      using Suc.prems a sl
      by (auto simp: handle_loop.simps [of _ _ "Suc left"] k_outside_def k_write_def sleepWithContext_def)
    moreover have "\<not> delivering x dlq" using sl 2 by (metis delivering_def fst_conv option.distinct(1))
    ultimately show ?thesis using 2
      by (intro exI [of _ "[a]"] exI [of _ "[]"]) (simp add: message_log_def message_fate_def succeeded_def)
  next
    case 3
    then have "run_state (handle_loop (logging_consumer x dlq max_r) m left) ?v = (err, w')"
      using Suc.prems a sl
      by (simp add: handle_loop.simps [of _ _ "Suc left"] k_outside_def k_write_def sleepWithContext_def)
    from Suc.IH [OF this] obtain answers dead where
      "k_log w' = k_log w @ Handled m a # message_log m answers dead False"
      "message_fate x (delivering x dlq) (Suc left) m answers dead (err = None)" by auto
    then show ?thesis using 3
      by (intro exI [of _ "a # answers"] exI [of _ dead])
        (auto simp: message_log_def message_fate_def succeeded_def)
  qed
qed

lemma run_handleMessage:
  assumes "run_state (handleMessageWithRetry (logging_consumer x dlq max_r) m) w = (err, w')"
  shows "\<exists>answers dead. k_log w' = k_log w @ message_log m answers dead False
     \<and> message_fate x (delivering x dlq) (attempt_budget max_r m) m answers dead (err = None)"
proof (cases "int64 (getRetryCount m + 1) > max 1 max_r")
  case True
  then obtain perr where
    run: "run_state (handleMaxRetriesExceeded (logging_consumer x dlq max_r) m perr) w = (err, w')"
    using assms unfolding handleMessageWithRetry_def Let_def by auto
  have budget: "attempt_budget max_r m = 0" using True unfolding attempt_budget_def by linarith
  from run_max_retries [OF run] obtain dead where
    "k_log w' = k_log w @ map (\<lambda>(pm, a). Sent pm a) dead"
    "dead = [] \<or> (\<exists>pm a. dead = [(pm, a)] \<and> dead_letter x m pm)"
    "err = None \<longleftrightarrow> None \<in> snd ` set dead" "delivering x dlq \<longrightarrow> err = None" by blast
  then show ?thesis unfolding budget
    by (intro exI [of _ "[]"] exI [of _ dead]) (auto simp: message_log_def message_fate_def succeeded_def)
next
  case False
  then have "attempt_budget max_r m = Suc (nat (max 1 max_r - int64 (getRetryCount m + 1)))"
    unfolding attempt_budget_def by linarith
  moreover have "run_state (handle_loop (logging_consumer x dlq max_r) m
      (nat (max 1 max_r - int64 (getRetryCount m + 1)))) w = (err, w')"
    using assms False unfolding handleMessageWithRetry_def Let_def by auto
  ultimately show ?thesis using run_handle_loop by metis
qed

section \<open>A claim\<close>

text \<open>The messages a claim delivers before its channel is closed or the session ends.\<close>

fun claimed :: "claim_event list \<Rightarrow> ConsumerMessage list" where
  "claimed (ClaimMessage m # evs) = m # claimed evs"
| "claimed evs = []"

text \<open>C12. The consumer works through a claim message by message. Whatever the handler, the broker and the context
  do: the handler is called at most as often as the retry count of the message leaves room for and not again
  after it succeeded; a dead letter, which carries the message, is sent only after all those calls failed, and
  only one; a message is marked exactly when the handler succeeded or the broker accepted its dead letter. If there is a
  dead letter topic that accepts every message and the context does not end, every message of the claim is
  marked.\<close>

theorem consumer_settles:
  "\<exists>fates. map fst fates = claimed evs
     \<and> k_log (snd (run_state (ConsumeClaim (logging_consumer x dlq max_r) evs) w))
         = k_log w @ concat (map (\<lambda>(m, answers, dead, marked). message_log m answers dead marked) fates)
     \<and> list_all (\<lambda>(m, answers, dead, marked). message_fate x (delivering x dlq) (attempt_budget max_r m)
         m answers dead marked) fates"
proof (induction evs arbitrary: w rule: claimed.induct)
  case (1 m evs)
  let ?c = "logging_consumer x dlq max_r"
  obtain err v where run: "run_state (handleMessageWithRetry ?c m) w = (err, v)" by fastforce
  from run_handleMessage [OF this] obtain answers dead where one:
    "k_log v = k_log w @ message_log m answers dead False"
    "message_fate x (delivering x dlq) (attempt_budget max_r m) m answers dead (err = None)" by blast
  let ?v = "if err = None then v\<lparr>k_log := k_log v @ [Marked m]\<rparr> else v"
  have step: "run_state (ConsumeClaim ?c (ClaimMessage m # evs)) w = run_state (ConsumeClaim ?c evs) ?v"
    using run by (cases err) (simp_all add: k_write_def)
  have log: "k_log ?v = k_log w @ message_log m answers dead (err = None)"
    using one(1) by (simp add: message_log_def)
  obtain fates where rest: "map fst fates = claimed evs"
    "k_log (snd (run_state (ConsumeClaim ?c evs) ?v))
       = k_log ?v @ concat (map (\<lambda>(m, answers, dead, marked). message_log m answers dead marked) fates)"
    "list_all (\<lambda>(m, answers, dead, marked). message_fate x (delivering x dlq) (attempt_budget max_r m)
       m answers dead marked) fates"
    using "1.IH" by blast
  show ?case unfolding step using rest one(2) log
    by (intro exI [of _ "(m, answers, dead, err = None) # fates"]) simp
qed (auto intro!: exI [of _ "[]"])

section \<open>A message that is lost\<close>

text \<open>A handler that refuses the message at offset 1 and a broker that does not answer.\<close>

definition failing_env :: "unit kafka_env" where
  "failing_env = \<lparr>kx_handler = (\<lambda>m s. (if cm_Offset m = 1 then Some (Opaque ''refused'') else None, s)),
     kx_send = (\<lambda>pm s. (Some (Opaque ''broker down''), s)), kx_wait = (\<lambda>d s. (None, s)),
     kx_now = (\<lambda>s. (0, s)), kx_marshal = (\<lambda>o1. Inr []), kx_format = (\<lambda>t. [])\<rparr>"

definition message_at :: "int \<Rightarrow> ConsumerMessage" where
  "message_at n = \<lparr>cm_Topic = TopicOrderEvents, cm_Partition = 0, cm_Offset = n, cm_Key = ''o1'', cm_Value = ''{}'',
     cm_Headers = []\<rparr>"

lemma failing_run:
  "k_log (snd (run_state (ConsumeClaim (logging_consumer failing_env True 3)
      [ClaimMessage (message_at 1), ClaimMessage (message_at 2), SessionDone]) \<lparr>k_log = [], k_ext = ()\<rparr>))
   = replicate 3 (Handled (message_at 1) (Some (Opaque ''refused'')))
     @ [Sent \<lparr>pm_Topic = TopicDeadLetterQueue, pm_Key = ''o1'', pm_Value = [], pm_Timestamp = 0\<rparr>
          (Some (Opaque ''broker down'')),
        Handled (message_at 2) None, Marked (message_at 2)]"
  by code_simp

text \<open>A message whose processing and whose dead letter both failed is not marked, but the claim goes on, and
  the next message of the partition is marked. Since Kafka keeps a single committed offset for a partition,
  the mark at offset 2 commits the message at offset 1 as well: it was neither handled nor put into the dead
  letter topic, and it is not delivered again.\<close>

theorem failed_message_is_committed:
  "(let log = k_log (snd (run_state (ConsumeClaim (logging_consumer failing_env True 3)
        [ClaimMessage (message_at 1), ClaimMessage (message_at 2), SessionDone]) \<lparr>k_log = [], k_ext = ()\<rparr>))
    in Marked (message_at 2) \<in> set log \<and> Marked (message_at 1) \<notin> set log
       \<and> Handled (message_at 1) None \<notin> set log \<and> (\<forall>pm. Sent pm None \<notin> set log))"
  unfolding failing_run by (simp add: message_at_def numeral_3_eq_3)

text \<open>The header that says how often a message was retried is trusted: a count of \<open>2^63 - 1\<close> wraps around and,
  instead of sending the message to the dead letter topic, allows more than \<open>2^63\<close> attempts.\<close>

definition wrapping_message :: ConsumerMessage where
  "wrapping_message = \<lparr>cm_Topic = [], cm_Partition = 0, cm_Offset = 0, cm_Key = [], cm_Value = [],
     cm_Headers = [(HeaderRetryCount, ''9223372036854775807'')]\<rparr>"

lemma retry_header_wraps: "attempt_budget 3 wrapping_message = 2 ^ 63 + 4"
proof -
  have "getRetryCount wrapping_message = 2 ^ 63 - 1" by code_simp
  then show ?thesis by (simp add: attempt_budget_def int64_def)
qed

end
