(* ===== verification/Json.thy ===== *)
theory Json
  imports Domain
begin

text \<open>
  What the programs use of \<open>encoding/json\<close>, on UTF-8 bytes: \<open>Marshal\<close> of a flat object whose values are strings,
  integers and raw JSON, and \<open>Unmarshal\<close> into the fields of a struct.

  \<^item> \<open>quote\<close> writes a string the way \<open>Marshal\<close> does: quotes, backslashes and control characters are escaped, so are
    \<open><\<close>, \<open>>\<close>, \<open>&\<close> and the runes U+2028 and U+2029; a byte that is not part of valid UTF-8 becomes U+FFFD.
  \<^item> \<open>value\<close> reads one JSON value by recursive descent and returns its bytes and the rest; the fuel bounds the
    recursion, and the length of the input is always enough.
  \<^item> \<open>members\<close> splits an object into its keys (decoded) and raw values. A struct field takes the last member whose
    key matches; keys that only match after case folding are not modelled (the documents read here are
    written with the exact keys).
\<close>

section \<open>UTF-8\<close>

abbreviation byte :: "char \<Rightarrow> nat" where "byte c \<equiv> of_char c"

definition in_range :: "nat \<Rightarrow> nat \<Rightarrow> char \<Rightarrow> bool" where
  "in_range lo hi c \<longleftrightarrow> lo \<le> byte c \<and> byte c \<le> hi"

text \<open>The length of the rune a string starts with, \<open>None\<close> when it does not start with one (\<open>utf8.DecodeRune\<close>): the
  first byte gives the length and the range of the second, the others are continuation bytes.\<close>

definition rune_width :: "char \<Rightarrow> nat" where
  "rune_width a = (if byte a < 0x80 then 1 else if in_range 0xC2 0xDF a then 2 else if in_range 0xE0 0xEF a then 3
     else if in_range 0xF0 0xF4 a then 4 else 0)"

definition second_ok :: "char \<Rightarrow> char \<Rightarrow> bool" where
  "second_ok a b \<longleftrightarrow>
     in_range (if byte a = 0xE0 then 0xA0 else if byte a = 0xF0 then 0x90 else 0x80)
       (if byte a = 0xED then 0x9F else if byte a = 0xF4 then 0x8F else 0xBF) b"

definition rune_ok :: "bytes \<Rightarrow> bool" where
  "rune_ok r = (case r of a # b # cs \<Rightarrow> second_ok a b \<and> list_all (in_range 0x80 0xBF) cs | _ \<Rightarrow> True)"

definition rune_len :: "bytes \<Rightarrow> nat option" where
  "rune_len s =
     (if s = [] then None
      else let n = rune_width (hd s) in if n \<noteq> 0 \<and> n \<le> length s \<and> rune_ok (take n s) then Some n else None)"

lemma rune_len_bounds: "rune_len s = Some n \<Longrightarrow> 0 < n \<and> n \<le> length s"
  by (auto simp: rune_len_def Let_def split: if_splits)

lemma rune_len_append: "rune_len s = Some n \<Longrightarrow> rune_len (s @ t) = Some n"
  by (auto simp: rune_len_def Let_def split: if_splits)

lemma rune_len_take: "rune_len s = Some n \<Longrightarrow> rune_len (take n s @ t) = Some n"
  by (cases s) (auto simp: rune_len_def Let_def min_def take_Cons' split: if_splits)

function valid_utf8 :: "bytes \<Rightarrow> bool" where
  "valid_utf8 s =
     (s = [] \<or> (case rune_len s of None \<Rightarrow> False | Some n \<Rightarrow> valid_utf8 (drop n s)))"
  by pat_completeness auto
termination
  by (relation "measure length") (auto dest: rune_len_bounds)

declare valid_utf8.simps [simp del]

definition rune_error :: bytes where "rune_error = [CHR 0xEF, CHR 0xBF, CHR 0xBD]"

section \<open>Strings\<close>

definition hex :: "nat \<Rightarrow> char" where "hex n = ''0123456789abcdef'' ! n"

definition escape :: "char \<Rightarrow> bytes" where
  "escape c =
     (if c = CHR 0x22 \<or> c = CHR 0x5C then [CHR 0x5C, c]
      else if c = CHR 0x08 then [CHR 0x5C, CHR ''b'']
      else if c = CHR 0x0C then [CHR 0x5C, CHR ''f'']
      else if c = CHR 0x0A then [CHR 0x5C, CHR ''n'']
      else if c = CHR 0x0D then [CHR 0x5C, CHR ''r'']
      else if c = CHR 0x09 then [CHR 0x5C, CHR ''t'']
      else if byte c < 0x20 \<or> c = CHR ''<'' \<or> c = CHR ''>'' \<or> c = CHR ''&''
      then CHR 0x5C # ''u00'' @ [hex (byte c div 16), hex (byte c mod 16)]
      else [c])"

definition line_separator :: "bytes \<Rightarrow> bool" where
  "line_separator r \<longleftrightarrow> r = [CHR 0xE2, CHR 0x80, CHR 0xA8] \<or> r = [CHR 0xE2, CHR 0x80, CHR 0xA9]"

definition escape_rune :: "bytes \<Rightarrow> bytes" where
  "escape_rune r =
     (if line_separator r then CHR 0x5C # ''u202'' @ [hex (byte (last r) mod 16)] else r)"

function quote_body :: "bytes \<Rightarrow> bytes" where
  "quote_body s =
     (case s of
        [] \<Rightarrow> []
      | c # cs \<Rightarrow>
          if byte c < 0x80 then escape c @ quote_body cs
          else (case rune_len s of
                  None \<Rightarrow> CHR 0x5C # ''ufffd'' @ quote_body cs
                | Some n \<Rightarrow> escape_rune (take n s) @ quote_body (drop n s)))"
  by pat_completeness auto
termination
  by (relation "measure length") (auto dest: rune_len_bounds)

declare quote_body.simps [simp del]

definition quote :: "bytes \<Rightarrow> bytes" where
  "quote s = CHR 0x22 # quote_body s @ [CHR 0x22]"

text \<open>Reading: four hexadecimal digits, a rune as UTF-8, and a string up to its closing quote.\<close>

definition hex_value :: "char \<Rightarrow> nat option" where
  "hex_value c =
     (if in_range 48 57 c then Some (byte c - 48)
      else if in_range 97 102 c then Some (byte c - 87)
      else if in_range 65 70 c then Some (byte c - 55) else None)"

definition getu4 :: "bytes \<Rightarrow> (nat \<times> bytes) option" where
  "getu4 s =
     (case s of
        a # b # c # d # rest \<Rightarrow>
          (case (hex_value a, hex_value b, hex_value c, hex_value d) of
             (Some p, Some q, Some r, Some t) \<Rightarrow> Some (((p * 16 + q) * 16 + r) * 16 + t, rest)
           | _ \<Rightarrow> None)
      | _ \<Rightarrow> None)"

definition utf8_encode :: "nat \<Rightarrow> bytes" where
  "utf8_encode r =
     (if r < 0x80 then [char_of r]
      else if r < 0x800 then [char_of (0xC0 + r div 0x40), char_of (0x80 + r mod 0x40)]
      else if 0xD800 \<le> r \<and> r < 0xE000 \<or> r > 0x10FFFF then rune_error
      else if r < 0x10000
      then [char_of (0xE0 + r div 0x1000), char_of (0x80 + r div 0x40 mod 0x40), char_of (0x80 + r mod 0x40)]
      else [char_of (0xF0 + r div 0x40000), char_of (0x80 + r div 0x1000 mod 0x40),
            char_of (0x80 + r div 0x40 mod 0x40), char_of (0x80 + r mod 0x40)])"

text \<open>The rune of an escape and the bytes after it: a high surrogate that is followed by the escape of a low one
  makes one rune with it, any other surrogate becomes U+FFFD.\<close>

definition unicode_escape :: "bytes \<Rightarrow> (bytes \<times> bytes) option" where
  "unicode_escape s =
     (case getu4 s of
        None \<Rightarrow> None
      | Some (r, rest) \<Rightarrow>
          if 0xD800 \<le> r \<and> r < 0xDC00 then
            (case rest of
               b # u # rest2 \<Rightarrow>
                 if b = CHR 0x5C \<and> u = CHR ''u'' then
                   (case getu4 rest2 of
                      Some (r2, rest3) \<Rightarrow>
                        if 0xDC00 \<le> r2 \<and> r2 < 0xE000
                        then Some (utf8_encode ((r - 0xD800) * 0x400 + (r2 - 0xDC00) + 0x10000), rest3)
                        else Some (rune_error, rest)
                    | None \<Rightarrow> Some (rune_error, rest))
                 else Some (rune_error, rest)
             | _ \<Rightarrow> Some (rune_error, rest))
          else Some (utf8_encode r, rest))"

definition simple_escape :: "char \<Rightarrow> char option" where
  "simple_escape c =
     (if c = CHR 0x22 \<or> c = CHR 0x5C \<or> c = CHR ''/'' then Some c
      else if c = CHR ''b'' then Some (CHR 0x08) else if c = CHR ''f'' then Some (CHR 0x0C)
      else if c = CHR ''n'' then Some (CHR 0x0A) else if c = CHR ''r'' then Some (CHR 0x0D)
      else if c = CHR ''t'' then Some (CHR 0x09) else None)"

lemma getu4_length: "getu4 s = Some (r, t) \<Longrightarrow> length t < length s"
  by (auto simp: getu4_def split: list.splits option.splits)

lemma unicode_escape_length: "unicode_escape s = Some (r, t) \<Longrightarrow> length t < length s"
  by (auto simp: unicode_escape_def split: option.splits prod.splits if_splits list.splits dest!: getu4_length)

function unquote_body :: "bytes \<Rightarrow> (bytes \<times> bytes) option" where
  "unquote_body s =
     (case s of
        [] \<Rightarrow> None
      | c # cs \<Rightarrow>
          if c = CHR 0x22 then Some ([], cs)
          else if c = CHR 0x5C then
            (case cs of
               [] \<Rightarrow> None
             | e # es \<Rightarrow>
                 if e = CHR ''u'' then
                   (case unicode_escape es of
                      None \<Rightarrow> None
                    | Some (r, rest) \<Rightarrow> map_option (map_prod (\<lambda>t. r @ t) id) (unquote_body rest))
                 else (case simple_escape e of
                         None \<Rightarrow> None
                       | Some x \<Rightarrow> map_option (map_prod (\<lambda>t. x # t) id) (unquote_body es)))
          else if byte c < 0x20 then None
          else if byte c < 0x80 then map_option (map_prod (\<lambda>t. c # t) id) (unquote_body cs)
          else (case rune_len s of
                  None \<Rightarrow> map_option (map_prod (\<lambda>t. rune_error @ t) id) (unquote_body cs)
                | Some n \<Rightarrow> map_option (map_prod (\<lambda>t. take n s @ t) id) (unquote_body (drop n s))))"
  by pat_completeness auto
termination
  by (relation "measure length") (auto dest: rune_len_bounds unicode_escape_length)

declare unquote_body.simps [simp del]

section \<open>Values\<close>

definition is_space :: "char \<Rightarrow> bool" where
  "is_space c \<longleftrightarrow> c = CHR 0x20 \<or> c = CHR 0x09 \<or> c = CHR 0x0A \<or> c = CHR 0x0D"

definition skip_space :: "bytes \<Rightarrow> bytes" where "skip_space s = dropWhile is_space s"

abbreviation dec_digit :: "char \<Rightarrow> bool" where "dec_digit c \<equiv> in_range 48 57 c"

text \<open>The bytes after at least one digit; after a fraction and after an exponent, if there is one; after a number.\<close>

definition after_digits :: "bytes \<Rightarrow> bytes option" where
  "after_digits s = (case s of c # cs \<Rightarrow> if dec_digit c then Some (dropWhile dec_digit cs) else None | [] \<Rightarrow> None)"

definition after_fraction :: "bytes \<Rightarrow> bytes option" where
  "after_fraction s = (case s of c # cs \<Rightarrow> if c = CHR ''.'' then after_digits cs else Some s | [] \<Rightarrow> Some s)"

definition after_exponent :: "bytes \<Rightarrow> bytes option" where
  "after_exponent s =
     (case s of
        c # cs \<Rightarrow>
          if c = CHR ''e'' \<or> c = CHR ''E'' then
            (case cs of
               d # ds \<Rightarrow> if d = CHR ''+'' \<or> d = CHR ''-'' then after_digits ds else after_digits cs
             | [] \<Rightarrow> None)
          else Some s
      | [] \<Rightarrow> Some s)"

definition after_number :: "bytes \<Rightarrow> bytes option" where
  "after_number s0 =
     (let s = (case s0 of c # cs \<Rightarrow> if c = CHR ''-'' then cs else s0 | [] \<Rightarrow> s0)
      in case (case s of
                 c # cs \<Rightarrow> if c = CHR ''0'' then Some cs else after_digits s
               | [] \<Rightarrow> None) of
           None \<Rightarrow> None
         | Some s1 \<Rightarrow> (case after_fraction s1 of None \<Rightarrow> None | Some s2 \<Rightarrow> after_exponent s2))"

definition after_word :: "bytes \<Rightarrow> bytes \<Rightarrow> bytes option" where
  "after_word w s = (if take (length w) s = w then Some (drop (length w) s) else None)"

text \<open>The bytes after a value, after the elements of an array and after the members of an object, each with its
  closing bracket. Every call that does not consume a byte is followed by one that does, so twice the length of
  the input is enough fuel.\<close>

fun scan_value :: "nat \<Rightarrow> bytes \<Rightarrow> bytes option"
  and scan_elems :: "nat \<Rightarrow> bytes \<Rightarrow> bytes option"
  and scan_members :: "nat \<Rightarrow> bytes \<Rightarrow> bytes option" where
  "scan_value 0 s = None"
| "scan_value (Suc n) s =
     (case s of
        [] \<Rightarrow> None
      | c # cs \<Rightarrow>
          if c = CHR 0x22 then map_option snd (unquote_body cs)
          else if c = CHR ''{'' then
            (case skip_space cs of
               [] \<Rightarrow> None
             | d # ds \<Rightarrow> if d = CHR ''}'' then Some ds else scan_members n (d # ds))
          else if c = CHR ''['' then
            (case skip_space cs of
               [] \<Rightarrow> None
             | d # ds \<Rightarrow> if d = CHR '']'' then Some ds else scan_elems n (d # ds))
          else if c = CHR ''t'' then after_word ''true'' s
          else if c = CHR ''f'' then after_word ''false'' s
          else if c = CHR ''n'' then after_word ''null'' s
          else after_number s)"
| "scan_elems 0 s = None"
| "scan_elems (Suc n) s =
     (case scan_value n s of
        None \<Rightarrow> None
      | Some r \<Rightarrow>
          (case skip_space r of
             [] \<Rightarrow> None
           | d # ds \<Rightarrow>
               if d = CHR '','' then scan_elems n (skip_space ds) else if d = CHR '']'' then Some ds else None))"
| "scan_members 0 s = None"
| "scan_members (Suc n) s =
     (case s of
        [] \<Rightarrow> None
      | c # cs \<Rightarrow>
          if c \<noteq> CHR 0x22 then None
          else (case unquote_body cs of
            None \<Rightarrow> None
          | Some (key, r) \<Rightarrow>
              (case skip_space r of
                 [] \<Rightarrow> None
               | d # ds \<Rightarrow>
                   if d \<noteq> CHR '':'' then None
                   else (case scan_value n (skip_space ds) of
                     None \<Rightarrow> None
                   | Some r2 \<Rightarrow>
                       (case skip_space r2 of
                          [] \<Rightarrow> None
                        | e # es \<Rightarrow>
                            if e = CHR '','' then scan_members n (skip_space es)
                            else if e = CHR ''}'' then Some es else None)))))"

definition enough :: "bytes \<Rightarrow> nat" where "enough s = 2 * length s + 2"

definition valid_json :: "bytes \<Rightarrow> bool" where
  "valid_json s = (case scan_value (enough s) (skip_space s) of None \<Rightarrow> False | Some r \<Rightarrow> skip_space r = [])"

text \<open>The members of an object with their raw values, from the first key on.\<close>

fun members :: "nat \<Rightarrow> bytes \<Rightarrow> (bytes \<times> bytes) list" where
  "members 0 s = []"
| "members (Suc n) s =
     (case s of
        [] \<Rightarrow> []
      | c # cs \<Rightarrow>
          (case unquote_body cs of
             None \<Rightarrow> []
           | Some (key, r) \<Rightarrow>
               let v = skip_space (drop 1 (skip_space r))
               in case scan_value (enough v) v of
                    None \<Rightarrow> []
                  | Some r2 \<Rightarrow>
                      (key, take (length v - length r2) v) #
                      (case skip_space r2 of
                         e # es \<Rightarrow> if e = CHR '','' then members n (skip_space es) else []
                       | [] \<Rightarrow> [])))"

text \<open>\<open>json.Unmarshal\<close> into a struct, up to its fields: the members of an object, none for \<open>null\<close>; an error for a
  document that is not valid and for any other value.\<close>

definition unmarshal_object :: "bytes \<Rightarrow> (bytes \<times> bytes) list option" where
  "unmarshal_object s0 =
     (if \<not> valid_json s0 then None
      else (case skip_space s0 of
        c # cs \<Rightarrow>
          if c = CHR ''{'' then
            (case skip_space cs of d # ds \<Rightarrow> Some (if d = CHR ''}'' then [] else members (enough s0) (d # ds)) | [] \<Rightarrow> None)
          else if c = CHR ''n'' then Some [] else None
      | [] \<Rightarrow> None))"

text \<open>Keys are compared after case folding; U+212A folds to k and U+017F to s.\<close>

fun fold_key :: "bytes \<Rightarrow> bytes" where
  "fold_key [] = []"
| "fold_key (c # cs) =
     (if take 3 (c # cs) = [CHR 0xE2, CHR 0x84, CHR 0xAA] then CHR ''k'' # fold_key (drop 2 cs)
      else if take 2 (c # cs) = [CHR 0xC5, CHR 0xBF] then CHR ''s'' # fold_key (drop 1 cs)
      else lower_char c # fold_key cs)"

definition field_values :: "bytes \<Rightarrow> (bytes \<times> bytes) list \<Rightarrow> bytes list" where
  "field_values name ms = map snd (filter (\<lambda>(k, v). fold_key k = name) ms)"

text \<open>A field of type \<open>json.RawMessage\<close>, and one of type \<open>string\<close>: \<open>null\<close> leaves it alone, another value that is
  not a string is an error.\<close>

definition raw_field :: "bytes \<Rightarrow> (bytes \<times> bytes) list \<Rightarrow> bytes" where
  "raw_field name ms = (case rev (field_values name ms) of [] \<Rightarrow> [] | v # _ \<Rightarrow> v)"

definition string_value :: "bytes \<Rightarrow> bytes option" where
  "string_value v = (case v of c # cs \<Rightarrow> if c = CHR 0x22 then map_option fst (unquote_body cs) else None | [] \<Rightarrow> None)"

definition string_field :: "bytes \<Rightarrow> (bytes \<times> bytes) list \<Rightarrow> bytes option" where
  "string_field name ms =
     (let vs = filter (\<lambda>v. v \<noteq> ''null'') (field_values name ms)
      in if list_ex (\<lambda>v. string_value v = None) vs then None
         else case rev vs of [] \<Rightarrow> Some [] | v # _ \<Rightarrow> string_value v)"

section \<open>Marshal\<close>

text \<open>A \<open>json.RawMessage\<close> is checked and compacted: white space outside strings goes, \<open><\<close>, \<open>>\<close>, \<open>&\<close>, U+2028 and U+2029
  are escaped. The arguments of \<open>compact\<close> say whether the byte is in a string and after a backslash.\<close>

fun compact :: "bool \<Rightarrow> bool \<Rightarrow> bytes \<Rightarrow> bytes" where
  "compact str esc [] = []"
| "compact str esc (c # cs) =
     (if c = CHR ''<'' \<or> c = CHR ''>'' \<or> c = CHR ''&''
      then CHR 0x5C # ''u00'' @ [hex (byte c div 16), hex (byte c mod 16)] @ compact str False cs
      else if line_separator (take 3 (c # cs))
      then CHR 0x5C # ''u202'' @ [hex (byte (cs ! 1) mod 16)] @ compact str False (drop 2 cs)
      else if \<not> str \<and> is_space c then compact str False cs
      else c # (if str then (if esc then compact True False cs
                             else if c = CHR 0x5C then compact True True cs
                             else compact (c \<noteq> CHR 0x22) False cs)
                else compact (c = CHR 0x22) False cs))"

definition marshal_value :: "jval \<Rightarrow> error + bytes" where
  "marshal_value v =
     (case v of
        JStr s \<Rightarrow> Inr (quote s)
      | JNamed s \<Rightarrow> Inr (quote s)
      | JInt i \<Rightarrow> Inr (int_string i)
      | JRaw r \<Rightarrow> if r = [] then Inr ''null''
                  else if valid_json r then Inr (compact False False r)
                  else Inl (Opaque ''json: error calling MarshalJSON for type json.RawMessage''))"

text \<open>The members of an object, separated by commas.\<close>

fun marshal_members :: "jobject \<Rightarrow> error + bytes" where
  "marshal_members [] = Inr []"
| "marshal_members ((k, v) # obj) =
     (case marshal_value v of
        Inl err \<Rightarrow> Inl err
      | Inr b \<Rightarrow> (case marshal_members obj of
                    Inl err \<Rightarrow> Inl err
                  | Inr bs \<Rightarrow> Inr (quote k @ CHR '':'' # b @ (if obj = [] then [] else CHR '','' # bs))))"

text \<open>A struct keeps the order of its fields; a map is written in the order of its keys.\<close>

definition marshal_struct :: "jobject \<Rightarrow> error + bytes" where
  "marshal_struct obj =
     (case marshal_members obj of Inl err \<Rightarrow> Inl err | Inr bs \<Rightarrow> Inr (CHR ''{'' # bs @ [CHR ''}'']))"

definition marshal_map :: "jobject \<Rightarrow> error + bytes" where
  "marshal_map obj = marshal_struct (sort_key fst obj)"

section \<open>Strings are read back\<close>

lemma valid_utf8_Nil [simp]: "valid_utf8 []"
  by (simp add: valid_utf8.simps [of "[]"])

lemma valid_utf8_Cons: "valid_utf8 (c # cs) \<longleftrightarrow>
    (\<exists>n. rune_len (c # cs) = Some n \<and> valid_utf8 (drop n (c # cs)))"
  by (simp add: valid_utf8.simps [of "c # cs"] split: option.split)

lemma rune_len_ascii: "byte c < 0x80 \<Longrightarrow> rune_len (c # cs) = Some 1"
  by (simp add: rune_len_def rune_width_def rune_ok_def)

lemma byte_hex: "n < 16 \<Longrightarrow> hex_value (hex n) = Some n"
proof -
  have "\<forall>n \<in> {0..<16}. hex_value (hex n) = Some n" by code_simp
  then show "n < 16 \<Longrightarrow> hex_value (hex n) = Some n" by simp
qed

lemma char_byte: "char_of (byte c :: nat) = c"
  by (rule char_of_char)

lemma append_single: "(@) [c] = (#) c"
  by (rule ext) simp

lemma unquote_escape:
  assumes "byte c < 0x80"
  shows "unquote_body (escape c @ s) = map_option (map_prod (\<lambda>t. c # t) id) (unquote_body s)"
proof -
  consider "c = CHR 0x22 \<or> c = CHR 0x5C" | "c \<in> set [CHR 0x08, CHR 0x0C, CHR 0x0A, CHR 0x0D, CHR 0x09]"
    | "byte c < 0x20 \<or> c = CHR ''<'' \<or> c = CHR ''>'' \<or> c = CHR ''&''"
      "c \<notin> set [CHR 0x22, CHR 0x5C, CHR 0x08, CHR 0x0C, CHR 0x0A, CHR 0x0D, CHR 0x09]"
    | "\<not> (byte c < 0x20 \<or> c = CHR ''<'' \<or> c = CHR ''>'' \<or> c = CHR ''&'')"
      "c \<notin> set [CHR 0x22, CHR 0x5C, CHR 0x08, CHR 0x0C, CHR 0x0A, CHR 0x0D, CHR 0x09]"
    by auto
  then show ?thesis
  proof cases
    case 1
    then show ?thesis by (auto simp: escape_def unquote_body.simps [of "CHR 0x5C # _"] simple_escape_def)
  next
    case 2
    then show ?thesis by (auto simp: escape_def unquote_body.simps [of "CHR 0x5C # _"] simple_escape_def)
  next
    case 3
    then have e: "escape c = CHR 0x5C # ''u00'' @ [hex (byte c div 16), hex (byte c mod 16)]" by (auto simp: escape_def)
    have z: "hex_value (CHR ''0'') = Some 0" by code_simp
    have "getu4 (''00'' @ [hex (byte c div 16), hex (byte c mod 16)] @ s) = Some (byte c, s)"
      using assms by (simp add: getu4_def z byte_hex)
    then have "unicode_escape (''00'' @ [hex (byte c div 16), hex (byte c mod 16)] @ s) = Some ([c], s)"
      using assms by (simp add: unicode_escape_def utf8_encode_def char_byte)
    then show ?thesis unfolding e by (simp add: unquote_body.simps [of "CHR 0x5C # _"] append_single)
  next
    case 4
    then show ?thesis using assms by (simp add: escape_def unquote_body.simps [of "c # s"])
  qed
qed

lemma unquote_rune:
  assumes "rune_len s = Some n" and "\<not> byte (hd s) < 0x80"
  shows "unquote_body (escape_rune (take n s) @ t) = map_option (map_prod (\<lambda>u. take n s @ u) id) (unquote_body t)"
proof (cases "line_separator (take n s)")
  case True
  have z: "hex_value (CHR ''2'') = Some 2" "hex_value (CHR ''0'') = Some 0" by code_simp+
  have "getu4 (''202'' @ hex (byte (last (take n s)) mod 16) # t) = Some (0x2020 + byte (last (take n s)) mod 16, t)"
    by (simp add: getu4_def z byte_hex)
  moreover have "utf8_encode (0x2020 + byte (last (take n s)) mod 16) = take n s"
  proof -
    have "utf8_encode 0x2028 = [CHR 0xE2, CHR 0x80, CHR 0xA8]" "utf8_encode 0x2029 = [CHR 0xE2, CHR 0x80, CHR 0xA9]"
      by (simp_all add: utf8_encode_def char_of_def bit_iff_odd)
    then show ?thesis using True unfolding line_separator_def by (elim disjE) simp_all
  qed
  moreover have "\<not> 47072 \<le> byte (last (take n s)) mod 16"
    using mod_less_divisor [of 16 "byte (last (take n s))"] by linarith
  ultimately have "unicode_escape (''202'' @ hex (byte (last (take n s)) mod 16) # t) = Some (take n s, t)"
    by (simp add: unicode_escape_def)
  then show ?thesis using True by (simp add: escape_rune_def unquote_body.simps [of "CHR 0x5C # _"])
next
  case False
  obtain a u where s: "take n s = a # u" "hd s = a"
    using rune_len_bounds [OF assms(1)] by (cases s; cases n) auto
  have big: "\<not> byte a < 0x80" using assms(2) s(2) by simp
  then have "a \<noteq> CHR 0x22" "a \<noteq> CHR 0x5C" by auto
  moreover have "rune_len (take n s @ t) = Some n" by (rule rune_len_take [OF assms(1)])
  moreover have "length (take n s) = n" using rune_len_bounds [OF assms(1)] by simp
  then have "n = length (a # u)" unfolding s(1) by simp
  then have "take n (a # u @ t) = a # u" "drop n (a # u @ t) = t" by simp_all
  moreover have "(@) (a # u) = (\<lambda>x. a # u @ x)" by (rule ext) simp
  ultimately show ?thesis
    using big False s(1) by (simp add: escape_rune_def unquote_body.simps [of "a # _"])
qed

text \<open>What is read back: the string itself when it is valid UTF-8, otherwise the string with U+FFFD for every stray
  byte.\<close>

function sanitize :: "bytes \<Rightarrow> bytes" where
  "sanitize s =
     (case s of
        [] \<Rightarrow> []
      | c # cs \<Rightarrow> (case rune_len s of None \<Rightarrow> rune_error @ sanitize cs | Some n \<Rightarrow> take n s @ sanitize (drop n s)))"
  by pat_completeness auto
termination
  by (relation "measure length") (auto dest: rune_len_bounds)

declare sanitize.simps [simp del]

lemma sanitize_Nil [simp]: "sanitize [] = []"
  by (simp add: sanitize.simps [of "[]"])

lemma sanitize_valid: "valid_utf8 s \<Longrightarrow> sanitize s = s"
proof (induction s rule: sanitize.induct)
  case (1 s)
  show ?case
  proof (cases s)
    case (Cons c cs)
    with "1.prems" obtain n where n: "rune_len s = Some n" "valid_utf8 (drop n s)" by (auto simp: valid_utf8_Cons)
    then show ?thesis using "1.IH"(2) [OF Cons n(1)] Cons by (simp add: sanitize.simps [of "c # cs"])
  qed simp
qed

lemma unquote_error: "unquote_body (CHR 0x5C # ''ufffd'' @ s) = map_option (map_prod (\<lambda>t. rune_error @ t) id) (unquote_body s)"
proof -
  have z: "hex_value (CHR ''f'') = Some 15" "hex_value (CHR ''d'') = Some 13" by code_simp+
  have "getu4 (''fffd'' @ s) = Some (0xFFFD, s)" by (simp add: getu4_def z)
  moreover have "utf8_encode 0xFFFD = rune_error"
    by (simp add: utf8_encode_def rune_error_def char_of_def bit_iff_odd)
  ultimately have "unicode_escape (''fffd'' @ s) = Some (rune_error, s)" by (simp add: unicode_escape_def)
  then show ?thesis by (simp add: unquote_body.simps [of "CHR 0x5C # _"])
qed

lemma unquote_quote: "unquote_body (quote_body s @ CHR 0x22 # rest) = Some (sanitize s, rest)"
proof (induction s rule: quote_body.induct)
  case (1 s)
  show ?case
  proof (cases s)
    case Nil
    then show ?thesis by (simp add: quote_body.simps [of "[]"] unquote_body.simps [of "CHR 0x22 # rest"])
  next
    case (Cons c cs)
    consider "byte c < 0x80" | "\<not> byte c < 0x80" "rune_len s = None" | n where "\<not> byte c < 0x80" "rune_len s = Some n"
      by blast
    then show ?thesis
    proof cases
      case 1
      then show ?thesis using "1.IH"(1) [OF Cons 1] Cons rune_len_ascii [OF 1, of cs]
        by (simp add: quote_body.simps [of "c # cs"] sanitize.simps [of "c # cs"] unquote_escape)
    next
      case 2
      then show ?thesis using "1.IH"(2) [OF Cons 2] Cons unquote_error
        by (simp add: quote_body.simps [of "c # cs"] sanitize.simps [of "c # cs"])
    next
      case 3
      then show ?thesis using "1.IH"(3) [OF Cons 3] Cons
        by (simp add: quote_body.simps [of "c # cs"] sanitize.simps [of "c # cs"] unquote_rune)
    qed
  qed
qed

section \<open>Values are read back\<close>

text \<open>A text that is a value on its own and stays one in front of a comma or a closing brace.\<close>

definition delim :: "bytes \<Rightarrow> bool" where
  "delim u \<longleftrightarrow> u = [] \<or> hd u = CHR '','' \<or> hd u = CHR ''}''"

definition scans :: "bytes \<Rightarrow> bool" where
  "scans r \<longleftrightarrow> r \<noteq> [] \<and> \<not> is_space (hd r)
     \<and> (\<forall>n u. 2 * length r \<le> n \<longrightarrow> delim u \<longrightarrow> scan_value (Suc n) (r @ u) = Some u)"

lemma scansD: "scans r \<Longrightarrow> 2 * length r < n \<Longrightarrow> delim u \<Longrightarrow> scan_value n (r @ u) = Some u"
  unfolding scans_def by (cases n) auto

lemma skip_space_id: "s = [] \<or> \<not> is_space (hd s) \<Longrightarrow> skip_space s = s"
  by (cases s) (auto simp: skip_space_def)

lemma skip_space_delim: "delim u \<Longrightarrow> skip_space u = u"
  by (rule skip_space_id) (auto simp: delim_def is_space_def)

lemma scans_quote: "scans (quote s)"
  by (simp add: scans_def quote_def is_space_def unquote_quote)

lemma scans_null: "scans ''null''"
  by (simp add: scans_def is_space_def after_word_def)

lemma digits_shape: "list_all dec_digit (digits n) \<and> digits n \<noteq> [] \<and> (0 < n \<longrightarrow> hd (digits n) \<noteq> CHR ''0'')"
proof (induction n rule: digits.induct)
  case (1 n)
  have d: "dec_digit (char_of (48 + m))" "char_of (48 + m) = CHR ''0'' \<longrightarrow> m = 0" if "m < 10" for m :: nat
  proof -
    have *: "of_char (char_of (48 + m)) = 48 + m" using that by simp
    then show "dec_digit (char_of (48 + m))" using that by (simp add: in_range_def)
    show "char_of (48 + m) = CHR ''0'' \<longrightarrow> m = 0"
    proof
      assume "char_of (48 + m) = CHR ''0''"
      then have "byte (char_of (48 + m)) = byte (CHR ''0'')" by simp
      then show "m = 0" using * by simp
    qed
  qed
  show ?case
  proof (cases "n < 10")
    case True
    then show ?thesis using d [OF True] by (auto simp: digits.simps [of n])
  next
    case False
    then show ?thesis using 1 d [of "n mod 10"] by (simp add: digits.simps [of n])
  qed
qed

lemma after_digits_run:
  assumes "list_all dec_digit ds" and "ds \<noteq> []" and "delim u" shows "after_digits (ds @ u) = Some u"
proof -
  have "dropWhile dec_digit u = u" using assms(3) by (cases u) (auto simp: delim_def in_range_def)
  moreover have "dropWhile dec_digit (xs @ u) = dropWhile dec_digit u" if "list_all dec_digit xs" for xs
    using that by (induction xs) auto
  ultimately show ?thesis using assms(1,2) by (cases ds) (auto simp: after_digits_def)
qed

lemma after_number_int: "delim u \<Longrightarrow> after_number (int_string i @ u) = Some u"
proof -
  assume u: "delim u"
  then have tail: "after_fraction u = Some u" "after_exponent u = Some u"
    by (cases u; auto simp: delim_def after_fraction_def after_exponent_def)+
  have "after_number (digits n @ u) = Some u \<and> after_number (CHR ''-'' # digits n @ u) = Some u" for n
  proof (cases "n = 0")
    case True
    have "digits 0 = ''0''" by (simp add: digits.simps [of 0] char_of_def bit_iff_odd)
    then show ?thesis using True tail by (simp add: after_number_def)
  next
    case False
    then obtain c cs where ds: "digits n = c # cs" "c \<noteq> CHR ''0''" "dec_digit c"
      using digits_shape [of n] by (cases "digits n") auto
    then have "c \<noteq> CHR ''-''" by (auto simp: in_range_def)
    then show ?thesis
      using ds tail after_digits_run [of "digits n" u] digits_shape [of n] u by (simp add: after_number_def)
  qed
  then show ?thesis by (simp add: int_string_def)
qed

lemma int_string_head: "int_string i \<noteq> [] \<and> (hd (int_string i) = CHR ''-'' \<or> dec_digit (hd (int_string i)))"
  using digits_shape [of "nat (- i)"] digits_shape [of "nat i"]
  by (cases "digits (nat i)") (auto simp: int_string_def)

lemma scans_int: "scans (int_string i)"
proof -
  obtain c cs where c: "int_string i = c # cs" "c = CHR ''-'' \<or> dec_digit c"
    using int_string_head [of i] by (cases "int_string i") auto
  then have plain: "c \<notin> {CHR 0x22, CHR ''{'', CHR ''['', CHR ''t'', CHR ''f'', CHR ''n'', CHR 0x20, CHR 0x09, CHR 0x0A, CHR 0x0D}"
    by (auto simp: in_range_def)
  have "scan_value (Suc n) (int_string i @ u) = Some u" if "delim u" for n u
    using plain after_number_int [OF that, of i] by (simp add: c(1))
  then show ?thesis using plain by (auto simp: scans_def c(1) is_space_def)
qed

text \<open>The members of an object as they are written.\<close>

fun print_members :: "(bytes \<times> bytes) list \<Rightarrow> bytes" where
  "print_members [] = []"
| "print_members ((k, b) # ps) = quote k @ CHR '':'' # b @ (if ps = [] then [] else CHR '','' # print_members ps)"

lemma marshal_members_print:
  "marshal_members obj = Inr bs \<Longrightarrow> \<exists>ps. bs = print_members ps \<and> list_all2 (\<lambda>(k, v) (k', b). k' = k \<and> marshal_value v = Inr b) obj ps"
proof (induction obj arbitrary: bs)
  case (Cons m obj)
  obtain k v where m: "m = (k, v)" by (cases m)
  from Cons.prems obtain b bs' where b: "marshal_value v = Inr b" "marshal_members obj = Inr bs'"
      "bs = quote k @ CHR '':'' # b @ (if obj = [] then [] else CHR '','' # bs')"
    by (auto simp: m split: sum.splits)
  from Cons.IH [OF b(2)] obtain ps where ps: "bs' = print_members ps"
      "list_all2 (\<lambda>(k, v) (k', b). k' = k \<and> marshal_value v = Inr b) obj ps" by blast
  have "obj = [] \<longleftrightarrow> ps = []" using ps(2) by auto
  then show ?case using b ps m by (intro exI [of _ "(k, b) # ps"]) simp
qed simp

lemma quote_app: "quote k @ s = CHR 0x22 # quote_body k @ CHR 0x22 # s"
  by (simp add: quote_def)

lemma print_head: "ps \<noteq> [] \<Longrightarrow> \<exists>t. print_members ps = CHR 0x22 # t"
  by (cases ps) (auto simp: quote_def)

lemma skip_print: "ps \<noteq> [] \<Longrightarrow> skip_space (print_members ps @ u) = print_members ps @ u"
  using print_head [of ps] by (intro skip_space_id) (auto simp: is_space_def)

lemma skip_value: "scans b \<Longrightarrow> skip_space (b @ u) = b @ u"
  by (rule skip_space_id) (auto simp: scans_def)

lemma skip_plain [simp]:
  "skip_space (CHR '','' # s) = CHR '','' # s" "skip_space (CHR '':'' # s) = CHR '':'' # s"
  "skip_space (CHR ''}'' # s) = CHR ''}'' # s"
  by (simp_all add: skip_space_def is_space_def)

lemma delim_simps [simp]: "delim (CHR '','' # s)" "delim (CHR ''}'' # s)" "delim []"
  by (simp_all add: delim_def)

lemma scan_members_print:
  "ps \<noteq> [] \<Longrightarrow> list_all (scans \<circ> snd) ps \<Longrightarrow> 2 * length (print_members ps) \<le> n \<Longrightarrow>
   scan_members (Suc n) (print_members ps @ CHR ''}'' # u) = Some u"
proof (induction ps arbitrary: n)
  case (Cons p ps)
  obtain k b where p: "p = (k, b)" by (cases p)
  let ?tail = "(if ps = [] then [] else CHR '','' # print_members ps) @ CHR ''}'' # u"
  have b: "scans b" using Cons.prems p by simp
  have n: "2 * length b < n" using Cons.prems(3) p by (simp add: quote_def)
  have tail: "delim ?tail" by simp
  have scan: "scan_value n (b @ ?tail) = Some ?tail" by (rule scansD [OF b n tail])
  have step: "scan_members (Suc n) (print_members (p # ps) @ CHR ''}'' # u) =
      (case skip_space ?tail of [] \<Rightarrow> None | e # es \<Rightarrow> if e = CHR '','' then scan_members n (skip_space es)
         else if e = CHR ''}'' then Some es else None)"
    using scan by (simp add: p quote_app unquote_quote skip_value [OF b])
  show ?case
  proof (cases "ps = []")
    case True
    then show ?thesis unfolding step by simp
  next
    case False
    obtain m where m: "n = Suc m" using n by (cases n) auto
    have "scan_members (Suc m) (print_members ps @ CHR ''}'' # u) = Some u"
      using Cons.prems False m p by (intro Cons.IH) (auto simp: quote_def)
    then show ?thesis unfolding step using False m skip_print [OF False] by simp
  qed
qed simp

definition print_object :: "(bytes \<times> bytes) list \<Rightarrow> bytes" where
  "print_object ps = CHR ''{'' # print_members ps @ [CHR ''}'']"

lemma scans_object:
  assumes "ps \<noteq> []" and "list_all (scans \<circ> snd) ps" shows "scans (print_object ps)"
proof -
  obtain t where t: "print_members ps = CHR 0x22 # t" using print_head [OF assms(1)] by blast
  have "scan_value (Suc n) (print_object ps @ u) = Some u" if n: "2 * length (print_object ps) \<le> n" for n u
  proof -
    obtain m where m: "n = Suc m" using n by (cases n) (auto simp: print_object_def)
    have "scan_value (Suc n) (print_object ps @ u) = scan_members n (print_members ps @ CHR ''}'' # u)"
      using skip_print [OF assms(1), of "CHR ''}'' # u"] by (simp add: print_object_def t)
    also have "\<dots> = Some u" unfolding m using n m assms by (intro scan_members_print) (auto simp: print_object_def)
    finally show ?thesis .
  qed
  then show ?thesis by (auto simp: scans_def print_object_def is_space_def)
qed

lemma members_print:
  "ps \<noteq> [] \<Longrightarrow> list_all (scans \<circ> snd) ps \<Longrightarrow> length ps \<le> n \<Longrightarrow>
   members n (print_members ps @ CHR ''}'' # u) = map (map_prod sanitize id) ps"
proof (induction ps arbitrary: n)
  case (Cons p ps)
  obtain k b where p: "p = (k, b)" by (cases p)
  obtain m where m: "n = Suc m" using Cons.prems(3) by (cases n) auto
  let ?tail = "(if ps = [] then [] else CHR '','' # print_members ps) @ CHR ''}'' # u"
  have b: "scans b" using Cons.prems p by simp
  have scan: "scan_value (enough (b @ ?tail)) (b @ ?tail) = Some ?tail"
    by (rule scansD [OF b]) (auto simp: enough_def)
  have step: "members (Suc m) (print_members (p # ps) @ CHR ''}'' # u) = (sanitize k, b) #
      (case skip_space ?tail of e # es \<Rightarrow> if e = CHR '','' then members m (skip_space es) else [] | [] \<Rightarrow> [])"
    using scan by (simp add: p quote_app unquote_quote skip_value [OF b] Let_def del: scan_value.simps)
  show ?case
  proof (cases "ps = []")
    case True
    then show ?thesis unfolding step m by (simp add: p)
  next
    case False
    have "members m (print_members ps @ CHR ''}'' # u) = map (map_prod sanitize id) ps"
      using Cons.prems False m by (intro Cons.IH) auto
    then show ?thesis unfolding step m using False skip_print [OF False] by (simp add: p) (simp add: id_def)
  qed
qed simp

lemma scans_valid_json: "scans r \<Longrightarrow> valid_json r"
proof -
  assume r: "scans r"
  then have "scan_value (enough r) (r @ []) = Some []" by (intro scansD) (simp_all add: enough_def)
  moreover have "skip_space r = r" using skip_value [OF r, of "[]"] by simp
  ultimately show ?thesis by (simp add: valid_json_def skip_space_def)
qed

lemma length_print: "length ps \<le> length (print_members ps)"
  by (induction ps rule: print_members.induct) (auto simp: quote_def)

lemma unmarshal_print:
  assumes "ps \<noteq> []" and "list_all (scans \<circ> snd) ps"
  shows "unmarshal_object (print_object ps) = Some (map (map_prod sanitize id) ps)"
proof -
  obtain t where t: "print_members ps = CHR 0x22 # t" using print_head [OF assms(1)] by blast
  have "length ps \<le> enough (print_object ps)" using length_print [of ps] by (simp add: enough_def print_object_def)
  then have "members (enough (print_object ps)) (print_members ps @ [CHR ''}'']) = map (map_prod sanitize id) ps"
    using assms by (intro members_print)
  moreover have "skip_space (print_object ps) = print_object ps"
    by (rule skip_space_id) (simp add: print_object_def is_space_def)
  moreover have "skip_space (print_members ps @ [CHR ''}'']) = print_members ps @ [CHR ''}'']"
    by (rule skip_print [OF assms(1)])
  ultimately show ?thesis
    using scans_valid_json [OF scans_object [OF assms]]
    by (simp add: unmarshal_object_def print_object_def t)
qed

section \<open>Compaction changes nothing that was written\<close>

definition compacts :: "bytes \<Rightarrow> bool" where
  "compacts r \<longleftrightarrow> (\<forall>u. compact False False (r @ u) = r @ compact False False u)"

text \<open>Characters that are kept outside a string.\<close>

definition plain :: "char \<Rightarrow> bool" where
  "plain c \<longleftrightarrow> c \<notin> {CHR ''<'', CHR ''>'', CHR ''&'', CHR 0x22} \<and> \<not> is_space c \<and> byte c < 0x80"

lemma not_separator: "byte c < 0x80 \<or> in_range 0x80 0xBF c \<Longrightarrow> \<not> line_separator (take n (c # s))"
  by (cases n) (auto simp: line_separator_def in_range_def)

lemma compact_plain: "plain c \<Longrightarrow> compact False False (c # u) = c # compact False False u"
  using not_separator [of c 3 u] by (simp add: plain_def del: take_Suc_Cons)

lemma compacts_plain: "list_all plain r \<Longrightarrow> compacts r"
  unfolding compacts_def by (induction r) (simp_all add: compact_plain del: compact.simps(2))

lemma compact_cont:
  "list_all (in_range 0x80 0xBF) cs \<Longrightarrow> compact True False (cs @ u) = cs @ compact True False u"
proof (induction cs)
  case (Cons c cs)
  then have "\<not> line_separator (take 3 (c # cs @ u))" by (intro not_separator) simp
  moreover have "c \<notin> {CHR ''<'', CHR ''>'', CHR ''&'', CHR 0x22, CHR 0x5C}" using Cons.prems by (auto simp: in_range_def)
  ultimately show ?case using Cons by (simp del: take_Suc_Cons)
qed simp

text \<open>In a string: a character that is not special, and a backslash with any such character or a quote after it.\<close>

definition str_plain :: "char \<Rightarrow> bool" where
  "str_plain c \<longleftrightarrow> c \<notin> {CHR ''<'', CHR ''>'', CHR ''&'', CHR 0x22, CHR 0x5C} \<and> byte c < 0x80"

lemma compact_str: "str_plain c \<Longrightarrow> compact True esc (c # u) = c # compact True False u"
  using not_separator [of c 3 u] by (auto simp: str_plain_def simp del: take_Suc_Cons)

lemma compact_strs: "list_all str_plain cs \<Longrightarrow> compact True False (cs @ u) = cs @ compact True False u"
  by (induction cs) (simp_all add: compact_str del: compact.simps(2))

lemma compact_backslash:
  "str_plain c \<or> c = CHR 0x22 \<or> c = CHR 0x5C \<Longrightarrow>
    compact True False (CHR 0x5C # c # u) = CHR 0x5C # c # compact True False u"
  using not_separator [of "CHR 0x5C" 3 "c # u"] not_separator [of c 3 u]
  by (auto simp: str_plain_def simp del: take_Suc_Cons)

lemma hex_plain: "n < 16 \<Longrightarrow> str_plain (hex n)"
proof -
  have "\<forall>n \<in> {0..<16}. str_plain (hex n)" by code_simp
  then show "n < 16 \<Longrightarrow> str_plain (hex n)" by simp
qed

lemma compact_unicode:
  "list_all str_plain cs \<Longrightarrow> compact True False (CHR 0x5C # CHR ''u'' # cs @ u) = CHR 0x5C # CHR ''u'' # cs @ compact True False u"
  by (subst compact_backslash) (simp_all add: str_plain_def [of "CHR ''u''"] compact_strs del: compact.simps(2))

lemma compact_escape:
  assumes "byte c < 0x80" shows "compact True False (escape c @ u) = escape c @ compact True False u"
proof -
  have h: "str_plain (hex (byte c div 16))" "str_plain (hex (byte c mod 16))" by (rule hex_plain; use assms in simp)+
  have z: "str_plain (CHR ''0'')" by (simp add: str_plain_def)
  have e: "str_plain (CHR ''b'')" "str_plain (CHR ''f'')" "str_plain (CHR ''n'')" "str_plain (CHR ''r'')" "str_plain (CHR ''t'')"
    by (simp_all add: str_plain_def)
  show ?thesis
    using h z e assms compact_unicode [of "[CHR ''0'', CHR ''0'', hex (byte c div 16), hex (byte c mod 16)]" u]
    by (auto simp: escape_def compact_backslash compact_str str_plain_def [of c] simp del: compact.simps(2))
qed

lemma compact_rune:
  assumes "rune_len s = Some n" and "\<not> byte (hd s) < 0x80"
  shows "compact True False (escape_rune (take n s) @ u) = escape_rune (take n s) @ compact True False u"
proof (cases "line_separator (take n s)")
  case True
  have "str_plain (hex (byte (last (take n s)) mod 16))" by (rule hex_plain) simp
  then have "list_all str_plain (''202'' @ [hex (byte (last (take n s)) mod 16)])"
    by (simp add: str_plain_def [of "CHR ''2''"] str_plain_def [of "CHR ''0''"])
  then show ?thesis using True compact_unicode [of "''202'' @ [hex (byte (last (take n s)) mod 16)]" u]
    by (simp add: escape_rune_def del: compact.simps(2))
next
  case False
  obtain a t m where st: "s = a # t" "n = Suc m" "m \<le> length t"
    using rune_len_bounds [OF assms(1)] by (cases s; cases n) auto
  define cs where "cs = take m t"
  have s: "take n s = a # cs" "hd s = a" "n = Suc (length cs)" using st by (simp_all add: cs_def)
  have r: "n = rune_width a" "rune_ok (a # cs)" using assms(1) s by (auto simp: rune_len_def Let_def split: if_splits)
  have cont: "list_all (in_range 0x80 0xBF) cs"
    using r(2) by (cases cs) (auto simp: rune_ok_def second_ok_def in_range_def split: if_splits)
  have "\<not> line_separator (take 3 (a # cs @ u))"
  proof (cases "a = CHR 0xE2")
    case True
    then have "length cs = 2" using r(1) s(3) by (simp add: rune_width_def in_range_def)
    then show ?thesis using False s(1) by simp
  qed (auto simp: line_separator_def)
  moreover have "a \<notin> {CHR ''<'', CHR ''>'', CHR ''&'', CHR 0x22, CHR 0x5C}" using assms(2) s(2) by auto
  ultimately show ?thesis using False s(1) compact_cont [OF cont, of u]
    by (simp add: escape_rune_def del: take_Suc_Cons)
qed

lemma compact_quote: "compact True False (quote_body s @ CHR 0x22 # u) = quote_body s @ CHR 0x22 # compact False False u"
proof (induction s rule: quote_body.induct)
  case (1 s)
  show ?case
  proof (cases s)
    case Nil
    then show ?thesis using not_separator [of "CHR 0x22" 3 u]
      by (simp add: quote_body.simps [of "[]"] del: take_Suc_Cons)
  next
    case (Cons c cs)
    consider "byte c < 0x80" | "\<not> byte c < 0x80" "rune_len s = None" | n where "\<not> byte c < 0x80" "rune_len s = Some n"
      by blast
    then show ?thesis
    proof cases
      case 1
      then show ?thesis using "1.IH"(1) [OF Cons 1] Cons
        by (simp add: quote_body.simps [of "c # cs"] compact_escape del: compact.simps(2))
    next
      case 2
      have "list_all str_plain ''fffd''" by (simp add: str_plain_def)
      then show ?thesis using 2 "1.IH"(2) [OF Cons 2] Cons compact_unicode [of "''fffd''" "quote_body cs @ CHR 0x22 # u"]
        by (simp add: quote_body.simps [of "c # cs"] del: compact.simps(2))
    next
      case 3
      then show ?thesis using "1.IH"(3) [OF Cons 3] Cons
        by (simp add: quote_body.simps [of "c # cs"] compact_rune del: compact.simps(2))
    qed
  qed
qed

lemma compacts_quote: "compacts (quote s)"
  unfolding compacts_def
proof
  fix u
  have "\<not> line_separator (take 3 (CHR 0x22 # quote_body s @ CHR 0x22 # u))" by (rule not_separator) simp
  then show "compact False False (quote s @ u) = quote s @ compact False False u"
    by (simp add: quote_app compact_quote is_space_def del: take_Suc_Cons)
qed

lemma compacts_append: "compacts a \<Longrightarrow> compacts b \<Longrightarrow> compacts (a @ b)"
  by (simp add: compacts_def)

lemma compacts_Cons: "plain c \<Longrightarrow> compacts b \<Longrightarrow> compacts (c # b)"
  by (simp add: compacts_def compact_plain del: compact.simps(2))

lemma plain_simps [simp]: "plain (CHR '','')" "plain (CHR '':'')" "plain (CHR ''{'')" "plain (CHR ''}'')"
  by (simp_all add: plain_def is_space_def)

lemma compacts_int: "compacts (int_string i)"
proof -
  have "plain c" if "dec_digit c \<or> c = CHR ''-''" for c
    using that by (auto simp: plain_def is_space_def in_range_def)
  then have "list_all plain (digits n)" "plain (CHR ''-'')" for n
    using digits_shape [of n] by (auto simp: list_all_iff)
  then show ?thesis by (intro compacts_plain) (simp add: int_string_def)
qed

text \<open>A JSON text in the form \<open>Marshal\<close> writes.\<close>

definition canonical :: "bytes \<Rightarrow> bool" where
  "canonical r \<longleftrightarrow> scans r \<and> compacts r"

lemma compacts_members: "list_all (compacts \<circ> snd) ps \<Longrightarrow> compacts (print_members ps)"
proof (induction ps rule: print_members.induct)
  case (2 k b ps)
  then show ?case by (simp add: compacts_append compacts_Cons compacts_quote)
qed (simp add: compacts_def)

lemma canonical_object:
  assumes "ps \<noteq> []" and "list_all (canonical \<circ> snd) ps" shows "canonical (print_object ps)"
proof -
  have ps: "list_all (scans \<circ> snd) ps" "list_all (compacts \<circ> snd) ps"
    using assms(2) by (auto simp: canonical_def list_all_iff)
  have "compacts (print_object ps)"
    using compacts_members [OF ps(2)] by (simp add: print_object_def compacts_Cons compacts_append compacts_plain)
  then show ?thesis using scans_object [OF assms(1) ps(1)] by (simp add: canonical_def)
qed

definition printable :: "jval \<Rightarrow> bool" where
  "printable v = (case v of JRaw r \<Rightarrow> r = [] \<or> canonical r | _ \<Rightarrow> True)"

text \<open>How a printable value is written.\<close>

definition written :: "jval \<Rightarrow> bytes" where
  "written v = (case v of JStr s \<Rightarrow> quote s | JNamed s \<Rightarrow> quote s | JInt i \<Rightarrow> int_string i
     | JRaw r \<Rightarrow> if r = [] then ''null'' else r)"

lemma written_value:
  assumes "printable v" shows "marshal_value v = Inr (written v)" "canonical (written v)"
proof -
  have raw: "valid_json r" "compact False False r = r" if "canonical r" for r
  proof -
    show "valid_json r" using that by (simp add: canonical_def scans_valid_json)
    have "compact False False (r @ []) = r @ compact False False []" using that unfolding canonical_def compacts_def by blast
    then show "compact False False r = r" by simp
  qed
  then show "marshal_value v = Inr (written v)"
    using assms by (cases v) (auto simp: marshal_value_def written_def printable_def)
  have "canonical ''null''" by (simp add: canonical_def scans_null compacts_plain plain_def is_space_def)
  then show "canonical (written v)" using assms
    by (cases v) (auto simp: written_def printable_def canonical_def scans_quote compacts_quote scans_int compacts_int)
qed

definition written_members :: "jobject \<Rightarrow> (bytes \<times> bytes) list" where
  "written_members obj = map (map_prod id written) obj"

lemma marshal_members_written:
  "list_all (printable \<circ> snd) obj \<Longrightarrow> marshal_members obj = Inr (print_members (written_members obj))"
proof (induction obj rule: marshal_members.induct)
  case (2 k v obj)
  then show ?case using written_value(1) [of v] by (simp add: written_members_def)
qed (simp add: written_members_def)

text \<open>Marshal of a non-empty object of printable values succeeds, in canonical form, and Unmarshal gives its members
  back, up to invalid UTF-8 in the keys.\<close>

lemma marshal_struct_written:
  assumes "list_all (printable \<circ> snd) obj" and "obj \<noteq> []"
  obtains b where "marshal_struct obj = Inr b" "canonical b"
    "unmarshal_object b = Some (map (\<lambda>(k, v). (sanitize k, written v)) obj)"
proof -
  let ?ps = "written_members obj"
  have ps: "?ps \<noteq> []" "list_all (canonical \<circ> snd) ?ps"
    using assms written_value(2) by (auto simp: written_members_def list_all_iff)
  then have "list_all (scans \<circ> snd) ?ps" by (auto simp: canonical_def list_all_iff)
  note un = unmarshal_print [OF ps(1) this]
  have "map (map_prod sanitize id) ?ps = map (\<lambda>(k, v). (sanitize k, written v)) obj"
    by (auto simp: written_members_def)
  then show ?thesis
    using that [of "print_object ?ps"] canonical_object [OF ps] un marshal_members_written [OF assms(1)]
    by (simp add: marshal_struct_def print_object_def)
qed

lemma marshal_map_written:
  assumes "list_all (printable \<circ> snd) obj" and "obj \<noteq> []"
  obtains b where "marshal_map obj = Inr b" "canonical b"
    "unmarshal_object b = Some (map (\<lambda>(k, v). (sanitize k, written v)) (sort_key fst obj))"
proof -
  have "list_all (printable \<circ> snd) (sort_key fst obj)" "sort_key fst obj \<noteq> []"
    using assms by (auto simp: list_all_iff simp flip: set_empty)
  then show ?thesis using that unfolding marshal_map_def by (rule marshal_struct_written) blast
qed

end
