(* ===== verification/Dlq_Replay.thy ===== *)
theory Dlq_Replay
  imports Json Kafka
begin

text \<open>
  \<open>cmd/dlq-reprocess/main.go\<close>: the tool that reads the dead letter topic and publishes the dead letters again.

  \<^item> sarama's client, consumer and producer are the operations of the record \<open>replay_deps\<close>.
  \<^item> What the \<open>select\<close> of \<open>processPartition\<close> yields is a list of events; a list that ends stands for the idle timer,
    which fires when nothing else happens. The clock is read for every message, not only where the time is used.
  \<^item> JSON is read and written by the functions of \<open>Json\<close>. An error of \<open>encoding/json\<close> is an opaque error.
  \<^item> \<open>main\<close> and \<open>run\<close>, which open and close the connections and log, are not modelled; \<open>runReplay\<close> returns the
    counters it logs.
\<close>

section \<open>Configuration\<close>

definition defaultReplayLimit :: int where "defaultReplayLimit = 100"
definition defaultIdleTimeout :: duration where "defaultIdleTimeout = 2 * second"

record replay_config =
  brokers :: "string list"
  sourceTopic :: string
  targetTopic :: string
  limit :: int
  execute :: bool
  fromNewest :: bool
  idleTimeout :: duration

text \<open>\<open>strings.Split\<close> at a comma.\<close>

fun split_comma :: "string \<Rightarrow> string list" where
  "split_comma [] = [[]]"
| "split_comma (c # cs) =
     (if c = CHR '','' then [] # split_comma cs
      else case split_comma cs of chunk # chunks \<Rightarrow> (c # chunk) # chunks | [] \<Rightarrow> [[c]])"

definition parseBrokers :: "string \<Rightarrow> string list" where
  "parseBrokers raw = filter (\<lambda>broker. broker \<noteq> []) (map TrimSpace (split_comma raw))"

text \<open>The flags, before they are checked, have the values of their defaults where they are not given.\<close>

definition default_flags :: replay_config where
  "default_flags = \<lparr>brokers = [], sourceTopic = TopicDeadLetterQueue, targetTopic = TopicOrderEvents,
     limit = defaultReplayLimit, execute = False, fromNewest = False, idleTimeout = defaultIdleTimeout\<rparr>"

definition readConfig :: "string \<Rightarrow> string \<Rightarrow> replay_config \<Rightarrow> error + replay_config" where
  "readConfig brokersFlag brokersEnv flags =
     (let brokersRaw = (if TrimSpace brokersFlag = [] then brokersEnv else brokersFlag);
          cfg = flags\<lparr>brokers := parseBrokers brokersRaw\<rparr>
      in if brokers cfg = [] then Inl (Opaque ''kafka brokers are required (-brokers or KAFKA_BROKERS)'')
         else if TrimSpace (sourceTopic cfg) = [] then Inl (Opaque ''source-topic is required'')
         else if TrimSpace (targetTopic cfg) = [] then Inl (Opaque ''target-topic is required'')
         else if limit cfg \<le> 0 then Inl (Opaque ''limit must be > 0'')
         else if idleTimeout cfg \<le> 0 then Inl (Opaque ''idle-timeout must be > 0'')
         else Inr cfg)"

section \<open>Reading a dead letter\<close>

record replayMessage =
  rm_topic :: string
  rm_key :: string
  rm_value :: bytes

record consumerDLQPayload =
  OriginalTopic :: string
  OriginalKey :: string
  OriginalValue :: string

text \<open>\<open>outboxEnvelope\<close> and \<open>outboxDLQPayload\<close> differ only in the name of their first field.\<close>

record outboxEnvelope =
  oenv_ID :: string
  oenv_AggregateType :: string
  oenv_AggregateID :: string
  oenv_EventType :: string
  oenv_Payload :: bytes

definition unmarshal_consumer :: "bytes \<Rightarrow> consumerDLQPayload option" where
  "unmarshal_consumer data =
     (case unmarshal_object data of
        None \<Rightarrow> None
      | Some ms \<Rightarrow>
          (case (string_field ''original_topic'' ms, string_field ''original_key'' ms, string_field ''original_value'' ms) of
             (Some t, Some k, Some v) \<Rightarrow> Some \<lparr>OriginalTopic = t, OriginalKey = k, OriginalValue = v\<rparr>
           | _ \<Rightarrow> None))"

definition unmarshal_envelope :: "string \<Rightarrow> bytes \<Rightarrow> outboxEnvelope option" where
  "unmarshal_envelope id_name data =
     (case unmarshal_object data of
        None \<Rightarrow> None
      | Some ms \<Rightarrow>
          (case (string_field id_name ms, string_field ''aggregate_type'' ms, string_field ''aggregate_id'' ms,
                 string_field ''event_type'' ms) of
             (Some i, Some at, Some ai, Some et) \<Rightarrow>
               Some \<lparr>oenv_ID = i, oenv_AggregateType = at, oenv_AggregateID = ai, oenv_EventType = et,
                     oenv_Payload = raw_field ''payload'' ms\<rparr>
           | _ \<Rightarrow> None))"

fun firstNonEmpty :: "string list \<Rightarrow> string" where
  "firstNonEmpty [] = []"
| "firstNonEmpty (v # vs) = (if TrimSpace v \<noteq> [] then v else firstNonEmpty vs)"

definition json_error :: error where "json_error = Opaque ''json''"

text \<open>The three results of \<open>extractReplayMessage\<close>: a message to publish, \<open>Inr None\<close> for a document that is not a
  dead letter, an error. \<open>publishedAt\<close> is the time of the call. \<open>extract_outbox\<close> is its second half, for dead letters
  of the outbox.\<close>

definition replay_envelope :: "outboxEnvelope \<Rightarrow> outboxEnvelope \<Rightarrow> string \<Rightarrow> jobject" where
  "replay_envelope envelope dlqPayload publishedAt =
     [(''id'', JStr (firstNonEmpty [oenv_ID dlqPayload, oenv_ID envelope])),
      (''aggregate_type'', JStr (firstNonEmpty [oenv_AggregateType dlqPayload, oenv_AggregateType envelope])),
      (''aggregate_id'', JStr (firstNonEmpty [oenv_AggregateID dlqPayload, oenv_AggregateID envelope])),
      (''event_type'', JStr (firstNonEmpty [oenv_EventType dlqPayload, oenv_EventType envelope])),
      (''payload'', JRaw (oenv_Payload dlqPayload)), (''published_at'', JStr publishedAt)]"

definition extract_outbox :: "string \<Rightarrow> bytes \<Rightarrow> string \<Rightarrow> error + replayMessage option" where
  "extract_outbox publishedAt data defaultTopic =
     (case unmarshal_envelope ''id'' data of None \<Rightarrow> Inr None | Some envelope \<Rightarrow>
      if oenv_Payload envelope = [] then Inr None
      else (case unmarshal_envelope ''outbox_id'' (oenv_Payload envelope) of
        None \<Rightarrow> Inl (Wrapped ''decode outbox dlq payload'' json_error)
      | Some dlqPayload \<Rightarrow>
          if oenv_Payload dlqPayload = []
          then Inl (Opaque ''outbox dlq payload does not contain original event payload'')
          else (case marshal_struct (replay_envelope envelope dlqPayload publishedAt) of
            Inl err \<Rightarrow> Inl (Wrapped ''encode replay envelope'' err)
          | Inr encoded \<Rightarrow>
              let replayID = firstNonEmpty [oenv_ID dlqPayload, oenv_ID envelope];
                  aggregateID = firstNonEmpty [oenv_AggregateID dlqPayload, oenv_AggregateID envelope]
              in Inr (Some \<lparr>rm_topic = defaultTopic, rm_key = (if aggregateID = [] then replayID else aggregateID),
                            rm_value = encoded\<rparr>))))"

definition extractReplayMessage :: "string \<Rightarrow> bytes \<Rightarrow> string \<Rightarrow> error + replayMessage option" where
  "extractReplayMessage publishedAt data defaultTopic =
     (case unmarshal_consumer data of
        Some payload \<Rightarrow>
          if OriginalValue payload \<noteq> [] then
            let t = TrimSpace (OriginalTopic payload)
            in Inr (Some \<lparr>rm_topic = (if t = [] then defaultTopic else t), rm_key = OriginalKey payload,
                          rm_value = OriginalValue payload\<rparr>)
          else extract_outbox publishedAt data defaultTopic
      | None \<Rightarrow> extract_outbox publishedAt data defaultTopic)"

section \<open>Replaying\<close>

datatype part_event =
    CtxDone error
  | ConsumerFailed "error option"
  | Received "ConsumerMessage option"
  | IdleTimeout

record 'w replay_deps =
  has_client :: bool
  has_consumer :: bool
  has_producer :: bool
  rd_Partitions :: "string \<Rightarrow> ('w, error + int list) prog"
  rd_OldestOffset :: "string \<Rightarrow> int \<Rightarrow> ('w, error + int) prog"
  rd_NewestOffset :: "string \<Rightarrow> int \<Rightarrow> ('w, error + int) prog"
  rd_ConsumePartition :: "string \<Rightarrow> int \<Rightarrow> int \<Rightarrow> ('w, error + part_event list) prog"
  rd_SendMessage :: "ProducerMessage \<Rightarrow> ('w, error option) prog"
  rd_Now :: "('w, gotime) prog"
  rd_Format :: "gotime \<Rightarrow> string"

record partitionStats =
  processed :: int
  replayed :: int
  skipped :: int

definition no_stats :: partitionStats where "no_stats = \<lparr>processed = 0, replayed = 0, skipped = 0\<rparr>"

definition publishReplay :: "'w replay_deps \<Rightarrow> replayMessage \<Rightarrow> ('w, error option) prog" where
  "publishReplay d m =
     (if \<not> has_producer d then return (Some (Opaque ''producer is nil''))
      else do {
        now \<leftarrow> rd_Now d;
        rd_SendMessage d \<lparr>pm_Topic = rm_topic m, pm_Key = rm_key m, pm_Value = rm_value m, pm_Timestamp = now\<rparr>
      })"

definition count_skipped :: "partitionStats \<Rightarrow> partitionStats" where
  "count_skipped stats = stats\<lparr>processed := processed stats + 1, skipped := skipped stats + 1\<rparr>"

definition count_replayed :: "partitionStats \<Rightarrow> partitionStats" where
  "count_replayed stats = stats\<lparr>replayed := replayed stats + 1, processed := processed stats + 1\<rparr>"

text \<open>The loop of \<open>processPartition\<close>.\<close>

fun partition_loop ::
  "'w replay_deps \<Rightarrow> replay_config \<Rightarrow> int \<Rightarrow> int \<Rightarrow> int \<Rightarrow> part_event list \<Rightarrow> partitionStats
     \<Rightarrow> ('w, partitionStats \<times> error option) prog" where
  "partition_loop d cfg part max_n endOffset [] stats = return (stats, None)"
| "partition_loop d cfg part max_n endOffset (ev # evs) stats =
     (if \<not> processed stats < max_n then return (stats, None)
      else case ev of
        CtxDone err \<Rightarrow> return (stats, Some err)
      | ConsumerFailed (Some err) \<Rightarrow>
          return (stats, Some (Wrapped (''partition '' @ int_string part @ '' consumer error'') err))
      | ConsumerFailed None \<Rightarrow> partition_loop d cfg part max_n endOffset evs stats
      | Received None \<Rightarrow> return (stats, None)
      | IdleTimeout \<Rightarrow> return (stats, None)
      | Received (Some msg) \<Rightarrow>
          if cm_Offset msg \<ge> endOffset then return (stats, None)
          else do {
            now \<leftarrow> rd_Now d;
            (case extractReplayMessage (rd_Format d now) (cm_Value msg) (targetTopic cfg) of
               Inl err \<Rightarrow> partition_loop d cfg part max_n endOffset evs (count_skipped stats)
             | Inr None \<Rightarrow> partition_loop d cfg part max_n endOffset evs (count_skipped stats)
             | Inr (Some replayMsg) \<Rightarrow> do {
                 res \<leftarrow> (if execute cfg then publishReplay d replayMsg else return None);
                 (case res of
                    Some err \<Rightarrow> return (stats, Some (Wrapped ''publish replay message'' err))
                  | None \<Rightarrow>
                      if int64 (cm_Offset msg + 1) \<ge> endOffset then return (count_replayed stats, None)
                      else partition_loop d cfg part max_n endOffset evs (count_replayed stats))
               })
          })"

definition processPartition ::
  "'w replay_deps \<Rightarrow> replay_config \<Rightarrow> int \<Rightarrow> int \<Rightarrow> ('w, partitionStats \<times> error option) prog" where
  "processPartition d cfg part max_n =
     (if max_n \<le> 0 then return (no_stats, None)
      else do {
        oldest \<leftarrow> rd_OldestOffset d (sourceTopic cfg) part;
        (case oldest of
           Inl err \<Rightarrow> return (no_stats, Some (Wrapped (''get oldest offset for partition '' @ int_string part) err))
         | Inr oldest \<Rightarrow> do {
             newest \<leftarrow> rd_NewestOffset d (sourceTopic cfg) part;
             (case newest of
                Inl err \<Rightarrow>
                  return (no_stats, Some (Wrapped (''get newest offset for partition '' @ int_string part) err))
              | Inr newest \<Rightarrow>
                  if newest \<le> oldest then return (no_stats, None)
                  else do {
                    let startOffset = (if fromNewest cfg then max (int64 (newest - max_n)) oldest else oldest);
                    consumed \<leftarrow> rd_ConsumePartition d (sourceTopic cfg) part startOffset;
                    (case consumed of
                       Inl err \<Rightarrow> return (no_stats, Some (Wrapped (''consume partition '' @ int_string part) err))
                     | Inr evs \<Rightarrow> partition_loop d cfg part max_n newest evs no_stats)
                  })
           })
      })"

fun partitions_loop ::
  "'w replay_deps \<Rightarrow> replay_config \<Rightarrow> int list \<Rightarrow> partitionStats \<Rightarrow> ('w, partitionStats \<times> error option) prog" where
  "partitions_loop d cfg [] total_stats = return (total_stats, None)"
| "partitions_loop d cfg (part # partitions) total_stats =
     (if processed total_stats \<ge> limit cfg then return (total_stats, None)
      else do {
        (stats, err) \<leftarrow> processPartition d cfg part (limit cfg - processed total_stats);
        (case err of
           Some err \<Rightarrow> return (total_stats, Some err)
         | None \<Rightarrow> partitions_loop d cfg partitions
             \<lparr>processed = processed total_stats + processed stats, replayed = replayed total_stats + replayed stats,
              skipped = skipped total_stats + skipped stats\<rparr>)
      })"

definition runReplay :: "'w replay_deps \<Rightarrow> replay_config \<Rightarrow> ('w, partitionStats \<times> error option) prog" where
  "runReplay d cfg =
     (if \<not> has_client d \<or> \<not> has_consumer d
      then return (no_stats, Some (Opaque ''kafka client and consumer are required''))
      else if execute cfg \<and> \<not> has_producer d
      then return (no_stats, Some (Opaque ''producer is required in execute mode''))
      else do {
        partitions \<leftarrow> rd_Partitions d (sourceTopic cfg);
        (case partitions of
           Inl err \<Rightarrow> return (no_stats, Some (Wrapped (''get partitions for topic '' @ sourceTopic cfg) err))
         | Inr ps \<Rightarrow> if ps = [] then return (no_stats, None)
                     else partitions_loop d cfg (sort_slice (<) ps) no_stats)
      })"

end
