(* ===== verification/Dead_Letters.thy ===== *)
theory Dead_Letters
  imports Dlq_Replay Kafka_Properties Outbox_Worker
begin

text \<open>
  The way of a dead letter: what the Kafka consumer and the outbox worker put into the dead letter topic, and what
  the replay tool makes of it. Both kinds come back as the message they were.
\<close>

section \<open>Fields of a written object\<close>

text \<open>The value of the last member with a key, when the keys are their own folding.\<close>

lemma field_values_map:
  "field_values name (map (\<lambda>(k, v). (sanitize k, written v)) obj)
     = map (\<lambda>(k, v). written v) (filter (\<lambda>(k, v). fold_key (sanitize k) = name) obj)"
  by (induction obj) (auto simp: field_values_def)

definition plain_key :: "string \<Rightarrow> bool" where
  "plain_key k \<longleftrightarrow> sanitize k = k \<and> fold_key k = k"

lemma field_values_distinct:
  assumes "list_all (plain_key \<circ> fst) obj" and "distinct (map fst obj)"
  shows "field_values name (map (\<lambda>(k, v). (sanitize k, written v)) obj)
    = (case map_of obj name of None \<Rightarrow> [] | Some v \<Rightarrow> [written v])"
proof -
  have "filter (\<lambda>(k, v). fold_key (sanitize k) = name) obj = filter (\<lambda>(k, v). k = name) obj"
    using assms(1) by (intro filter_cong) (auto simp: plain_key_def list_all_iff)
  moreover have "map (\<lambda>(k, v). written v) (filter (\<lambda>(k, v). k = name) obj)
      = (case map_of obj name of None \<Rightarrow> [] | Some v \<Rightarrow> [written v])"
    using assms(2)
  proof (induction obj)
    case (Cons m obj)
    obtain k v where m: "m = (k, v)" by (cases m)
    show ?case
    proof (cases "k = name")
      case True
      then have "map_of obj name = None" using Cons.prems m by (simp add: map_of_eq_None_iff)
      then show ?thesis using Cons True m by simp
    next
      case False
      then show ?thesis using Cons m by simp
    qed
  qed simp
  ultimately show ?thesis unfolding field_values_map by simp
qed

lemma string_value_quote: "string_value (quote s) = Some (sanitize s)"
  by (simp add: string_value_def quote_def unquote_quote)

text \<open>The members \<open>Unmarshal\<close> finds in a written object, and its fields.\<close>

abbreviation found :: "jobject \<Rightarrow> (bytes \<times> bytes) list" where
  "found obj \<equiv> map (\<lambda>(k, v). (sanitize k, written v)) obj"

definition plain_object :: "jobject \<Rightarrow> bool" where
  "plain_object obj \<longleftrightarrow> list_all (plain_key \<circ> fst) obj \<and> distinct (map fst obj)"

lemma quote_not_null: "quote s \<noteq> ''null''"
  by (simp add: quote_def)

lemma written_simps: "written (JStr t) = quote t" "r \<noteq> [] \<Longrightarrow> written (JRaw r) = r"
  by (simp_all add: written_def)

lemma field_values_found:
  "plain_object obj \<Longrightarrow> field_values name (found obj) = (case map_of obj name of None \<Rightarrow> [] | Some v \<Rightarrow> [written v])"
  by (simp add: plain_object_def field_values_distinct)

lemma string_field_found:
  assumes "plain_object obj"
  shows "map_of obj name = Some (JStr t) \<Longrightarrow> string_field name (found obj) = Some (sanitize t)"
    and "map_of obj name = None \<Longrightarrow> string_field name (found obj) = Some []"
  unfolding string_field_def field_values_found [OF assms]
  by (simp_all add: written_simps quote_not_null string_value_quote)

lemma raw_field_found:
  assumes "plain_object obj" and "map_of obj name = Some (JRaw r)" and "r \<noteq> []"
  shows "raw_field name (found obj) = r"
  unfolding raw_field_def field_values_found [OF assms(1)] using assms(2,3) by (simp add: written_simps)

lemma sorted_object:
  assumes "plain_object obj"
  shows "plain_object (sort_key fst obj)" "map_of (sort_key fst obj) = map_of obj"
proof -
  have "distinct (map fst (sort_key fst obj))"
    using assms by (metis plain_object_def distinct_map distinct_sort set_sort)
  then show "plain_object (sort_key fst obj)" "map_of (sort_key fst obj) = map_of obj"
    using assms by (auto simp: plain_object_def list_all_iff intro!: map_of_eqI)
qed

section \<open>Dead letters of the consumer\<close>

lemma dlq_message_plain: "plain_object (dlq_message m err failedAt)"
proof -
  have "list_all plain_key [''original_topic'', ''original_partition'', ''original_offset'', ''original_key'',
      ''original_value'', ''error_message'', ''failed_at'', ''retry_count'']" by code_simp
  then show ?thesis by (simp add: plain_object_def dlq_message_def)
qed

text \<open>C13. A message that the consumer gave up on comes back unchanged: from its dead letter, as \<open>sendToDLQ\<close> encodes it,
  the replay tool extracts the original topic, key and value, provided these are valid UTF-8, the topic has no
  surrounding white space and the value is not empty.\<close>

theorem consumer_dead_letter_replayed:
  assumes "dead_letter x m pm" and "kx_marshal x = marshal_map"
    and "valid_utf8 (cm_Topic m)" and "valid_utf8 (cm_Key m)" and "valid_utf8 (cm_Value m)"
    and "TrimSpace (cm_Topic m) = cm_Topic m" and "cm_Topic m \<noteq> []" and "cm_Value m \<noteq> []"
  shows "extractReplayMessage publishedAt (pm_Value pm) defaultTopic
    = Inr (Some \<lparr>rm_topic = cm_Topic m, rm_key = cm_Key m, rm_value = cm_Value m\<rparr>)"
proof -
  obtain err failedAt where b: "marshal_map (dlq_message m err failedAt) = Inr (pm_Value pm)"
    using assms(1,2) by (auto simp: dead_letter_def)
  let ?obj = "dlq_message m err failedAt"
  have "list_all (printable \<circ> snd) ?obj" "?obj \<noteq> []" by (simp_all add: dlq_message_def printable_def)
  then have un: "unmarshal_object (pm_Value pm) = Some (found (sort_key fst ?obj))"
    using b by (metis marshal_map_written sum.inject(2))
  note ok = sorted_object [OF dlq_message_plain [of m err failedAt]]
  have fields: "map_of ?obj ''original_topic'' = Some (JStr (cm_Topic m))" "map_of ?obj ''original_key'' = Some (JStr (cm_Key m))"
      "map_of ?obj ''original_value'' = Some (JStr (cm_Value m))"
    by (simp_all add: dlq_message_def)
  have "unmarshal_consumer (pm_Value pm)
      = Some \<lparr>OriginalTopic = cm_Topic m, OriginalKey = cm_Key m, OriginalValue = cm_Value m\<rparr>"
    using assms(3-5) fields
    by (simp add: unmarshal_consumer_def un string_field_found(1) [OF ok(1)] ok(2) sanitize_valid)
  then show ?thesis using assms(6-8) by (simp add: extractReplayMessage_def)
qed

lemma dlq_message_written:
  obtains b where "marshal_map (dlq_message m err failedAt) = Inr b"
proof (rule marshal_map_written)
  show "list_all (printable \<circ> snd) (dlq_message m err failedAt)" "dlq_message m err failedAt \<noteq> []"
    by (simp_all add: dlq_message_def printable_def)
qed blast

theorem consumer_dead_letter_replayed_witness:
  "\<exists>pm. dead_letter (failing_env\<lparr>kx_marshal := marshal_map\<rparr>) (message_at 1) pm
     \<and> extractReplayMessage ''now'' (pm_Value pm) TopicSagaEvents
       = Inr (Some \<lparr>rm_topic = TopicOrderEvents, rm_key = ''o1'', rm_value = ''{}''\<rparr>)"
proof -
  obtain b where b: "marshal_map (dlq_message (message_at 1) (Opaque ''refused'') ''t'') = Inr b" by (rule dlq_message_written)
  let ?pm = "\<lparr>pm_Topic = TopicDeadLetterQueue, pm_Key = ''o1'', pm_Value = b, pm_Timestamp = 0\<rparr>"
  have dead: "dead_letter (failing_env\<lparr>kx_marshal := marshal_map\<rparr>) (message_at 1) ?pm"
    using b by (auto simp: dead_letter_def message_at_def)
  have ok: "valid_utf8 (cm_Topic (message_at 1))" "valid_utf8 (cm_Key (message_at 1))" "valid_utf8 (cm_Value (message_at 1))"
      "TrimSpace (cm_Topic (message_at 1)) = cm_Topic (message_at 1)" "cm_Topic (message_at 1) \<noteq> []"
      "cm_Value (message_at 1) \<noteq> []"
    by code_simp+
  have "kx_marshal (failing_env\<lparr>kx_marshal := marshal_map\<rparr>) = marshal_map" by simp
  from consumer_dead_letter_replayed [OF dead this ok, of "''now''" TopicSagaEvents] dead
  show ?thesis by (auto simp: message_at_def)
qed

section \<open>Dead letters of the outbox\<close>

text \<open>The outbox worker with the dead letter publisher that the application gives it.\<close>

definition kafka_dlq :: "'s kafka_env \<Rightarrow> 's k_world outbox_env \<Rightarrow> 's k_world outbox_env" where
  "kafka_dlq x env = env\<lparr>ob_Marshal := marshal_map, ob_Now := k_outside (kx_now x), ob_Format := kx_format x,
     ob_DLQPublish := outbox_Publish (NewOutboxPublisher (Some (logging_producer x)) TopicDeadLetterQueue)\<rparr>"

definition dlq_payload :: "OutboxMessage \<Rightarrow> error \<Rightarrow> string \<Rightarrow> jobject" where
  "dlq_payload event err at =
     [(''outbox_id'', JStr (msg_ID event)), (''aggregate_type'', JStr (AggregateType event)),
      (''aggregate_id'', JStr (AggregateID event)), (''event_type'', JStr (EventType event)),
      (''payload'', JRaw (Payload event)), (''publish_error'', JStr (Error err)), (''dlq_published_at'', JStr at)]"

lemma outbox_objects_plain: "plain_object (outbox_envelope event at)" "plain_object (dlq_payload event err at)"
proof -
  have "list_all plain_key [''id'', ''aggregate_type'', ''aggregate_id'', ''event_type'', ''payload'', ''published_at'']"
      "list_all plain_key [''outbox_id'', ''aggregate_type'', ''aggregate_id'', ''event_type'', ''payload'',
        ''publish_error'', ''dlq_published_at'']" by code_simp+
  then show "plain_object (outbox_envelope event at)" "plain_object (dlq_payload event err at)"
    by (simp_all add: plain_object_def outbox_envelope_def dlq_payload_def)
qed

text \<open>A run of \<open>publishToDLQ\<close> that succeeds sends one message, the envelope around the payload of the dead letter.\<close>

lemma publishToDLQ_run:
  assumes "has_dlqPublisher wk" and "kx_marshal x = marshal_struct"
    and "run_state (publishToDLQ (kafka_dlq x env) wk event err) w = (None, w')"
  obtains payload pm at at' where "marshal_map (dlq_payload event err at) = Inr payload"
    "marshal_struct (outbox_envelope (event\<lparr>Payload := payload\<rparr>) at') = Inr (pm_Value pm)"
    "pm_Topic pm = TopicDeadLetterQueue" "k_log w' = k_log w @ [Sent pm None]"
proof -
  obtain now v where now: "run_state (k_outside (kx_now x)) w = (now, v)" using prod.exhaust by blast
  let ?p = "NewOutboxPublisher (Some (logging_producer x)) TopicDeadLetterQueue"
  obtain payload where payload: "marshal_map (dlq_payload event err (kx_format x now)) = Inr payload"
      "run_state (outbox_Publish ?p (event\<lparr>Payload := payload\<rparr>)) v = (None, w')"
    using assms(1,3) now
    by (auto simp: publishToDLQ_def kafka_dlq_def dlq_payload_def split: sum.splits prod.splits option.splits)
  let ?event = "event\<lparr>Payload := payload\<rparr>"
  obtain now2 v2 where now2: "run_state (k_outside (kx_now x)) v = (now2, v2)" using prod.exhaust by blast
  have topic: "op_producer ?p = Some (logging_producer x)" "op_topic ?p = TopicDeadLetterQueue"
      "kp_Now (logging_producer x) = k_outside (kx_now x)" "kp_Format (logging_producer x) = kx_format x"
    by (simp_all add: NewOutboxPublisher_def TopicDeadLetterQueue_def logging_producer_def)
  have "run_state (PublishEvent (logging_producer x) TopicDeadLetterQueue
      (if AggregateID ?event = [] then msg_ID ?event else AggregateID ?event)
      (outbox_envelope ?event (kx_format x now2))) v2 = (None, w')"
    using payload(2) now2 by (simp add: outbox_Publish_def topic)
  from run_PublishEvent [OF this] obtain pm where pm: "pm_Topic pm = TopicDeadLetterQueue"
      "kx_marshal x (outbox_envelope ?event (kx_format x now2)) = Inr (pm_Value pm)" "k_log w' = k_log v2 @ [Sent pm None]"
    by auto
  have "k_log v2 = k_log w" using run_outside [OF now] run_outside [OF now2] by simp
  then show ?thesis using that payload(1) pm assms(2) by simp
qed

text \<open>The strings of an event that survive the way: valid UTF-8, and not made of white space only.\<close>

definition sound_name :: "string \<Rightarrow> bool" where
  "sound_name t \<longleftrightarrow> valid_utf8 t \<and> (t = [] \<or> TrimSpace t \<noteq> [])"

definition sound_event :: "OutboxMessage \<Rightarrow> bool" where
  "sound_event event \<longleftrightarrow> sound_name (msg_ID event) \<and> sound_name (AggregateType event)
     \<and> sound_name (AggregateID event) \<and> sound_name (EventType event)"

lemma firstNonEmpty_same: "sound_name t \<Longrightarrow> firstNonEmpty [t, t] = t"
  by (auto simp: sound_name_def)

text \<open>Reading an envelope back.\<close>

lemma unmarshal_envelope_written:
  assumes "unmarshal_object b = Some (found obj)" and "plain_object obj" and "sound_event event"
    and "map_of obj name = Some (JStr (msg_ID event))" and "map_of obj ''aggregate_type'' = Some (JStr (AggregateType event))"
    and "map_of obj ''aggregate_id'' = Some (JStr (AggregateID event))" and "map_of obj ''event_type'' = Some (JStr (EventType event))"
    and "map_of obj ''payload'' = Some (JRaw r)" and "r \<noteq> []"
  shows "unmarshal_envelope name b = Some \<lparr>oenv_ID = msg_ID event, oenv_AggregateType = AggregateType event,
    oenv_AggregateID = AggregateID event, oenv_EventType = EventType event, oenv_Payload = r\<rparr>"
  using assms(3-9)
  by (simp add: unmarshal_envelope_def assms(1) string_field_found(1) [OF assms(2)] raw_field_found [OF assms(2)]
      sanitize_valid sound_event_def sound_name_def)

text \<open>C14. An outbox event that could not be published comes back too: from the dead letter that the outbox worker
  sends through the Kafka publisher, the replay tool makes exactly the message the publisher would have sent for the
  event, with the same key and with the time of the replay, provided its names are valid UTF-8 and not blank.\<close>

theorem outbox_dead_letter_replayed:
  assumes "has_dlqPublisher wk" and "kx_marshal x = marshal_struct" and "sound_event event"
    and "marshal_map obj = Inr (Payload event)" and "obj \<noteq> []" and "list_all (\<lambda>(k, v). \<forall>r. v \<noteq> JRaw r) obj"
    and "run_state (publishToDLQ (kafka_dlq x env) wk event err) w = (None, w')"
  shows "\<exists>pm b. k_log w' = k_log w @ [Sent pm None] \<and> pm_Topic pm = TopicDeadLetterQueue
    \<and> marshal_struct (outbox_envelope event publishedAt) = Inr b
    \<and> extractReplayMessage publishedAt (pm_Value pm) target
      = Inr (Some \<lparr>rm_topic = target, rm_key = (if AggregateID event = [] then msg_ID event else AggregateID event),
                   rm_value = b\<rparr>)"
proof -
  from publishToDLQ_run [OF assms(1,2,7)] obtain payload pm at at' where
    run: "marshal_map (dlq_payload event err at) = Inr payload"
    "marshal_struct (outbox_envelope (event\<lparr>Payload := payload\<rparr>) at') = Inr (pm_Value pm)"
    "pm_Topic pm = TopicDeadLetterQueue" "k_log w' = k_log w @ [Sent pm None]" .
  have "list_all (printable \<circ> snd) obj" using assms(6) by (auto simp: list_all_iff printable_def split: jval.split)
  then have canon: "canonical (Payload event)" using assms(4,5) by (metis marshal_map_written sum.inject(2))
  then have full: "Payload event \<noteq> []" by (simp add: canonical_def scans_def)
  let ?dp = "dlq_payload event err at" and ?env = "outbox_envelope (event\<lparr>Payload := payload\<rparr>) at'"
  have dp: "list_all (printable \<circ> snd) ?dp" "?dp \<noteq> []" using canon by (simp_all add: dlq_payload_def printable_def)
  then have payload: "canonical payload" "unmarshal_object payload = Some (found (sort_key fst ?dp))"
    using run(1) by (metis marshal_map_written sum.inject(2))+
  then have full2: "payload \<noteq> []" by (simp add: canonical_def scans_def)
  have "list_all (printable \<circ> snd) ?env" "?env \<noteq> []" using payload(1) by (simp_all add: outbox_envelope_def printable_def)
  then have pm: "unmarshal_object (pm_Value pm) = Some (found ?env)"
    using run(2) by (metis marshal_struct_written sum.inject(2))
  note plain = outbox_objects_plain(1) [of "event\<lparr>Payload := payload\<rparr>" at'] sorted_object [OF outbox_objects_plain(2) [of event err at]]
  have e1: "unmarshal_envelope ''id'' (pm_Value pm) = Some \<lparr>oenv_ID = msg_ID event, oenv_AggregateType = AggregateType event,
      oenv_AggregateID = AggregateID event, oenv_EventType = EventType event, oenv_Payload = payload\<rparr>"
    by (rule unmarshal_envelope_written [OF pm plain(1) assms(3)]) (use full2 in \<open>simp_all add: outbox_envelope_def\<close>)
  have e2: "unmarshal_envelope ''outbox_id'' payload = Some \<lparr>oenv_ID = msg_ID event, oenv_AggregateType = AggregateType event,
      oenv_AggregateID = AggregateID event, oenv_EventType = EventType event, oenv_Payload = Payload event\<rparr>"
    by (rule unmarshal_envelope_written [OF payload(2) plain(2) assms(3)])
      (use full in \<open>simp_all add: plain(3) dlq_payload_def\<close>)
  have "list_all (printable \<circ> snd) (outbox_envelope event publishedAt)" "outbox_envelope event publishedAt \<noteq> []"
    using canon by (simp_all add: outbox_envelope_def printable_def)
  then obtain b where b: "marshal_struct (outbox_envelope event publishedAt) = Inr b" by (rule marshal_struct_written)
  have no_consumer: "case unmarshal_consumer (pm_Value pm) of None \<Rightarrow> True | Some p \<Rightarrow> OriginalValue p = []"
    using string_field_found(2) [OF plain(1), of "''original_value''"]
    by (auto simp: unmarshal_consumer_def pm outbox_envelope_def split: option.splits)
  have same: "firstNonEmpty [msg_ID event, msg_ID event] = msg_ID event"
      "firstNonEmpty [AggregateType event, AggregateType event] = AggregateType event"
      "firstNonEmpty [AggregateID event, AggregateID event] = AggregateID event"
      "firstNonEmpty [EventType event, EventType event] = EventType event"
    using assms(3) unfolding sound_event_def by (blast intro: firstNonEmpty_same)+
  have "extractReplayMessage publishedAt (pm_Value pm) target = extract_outbox publishedAt (pm_Value pm) target"
    using no_consumer by (auto simp: extractReplayMessage_def split: option.splits)
  also have "\<dots> = Inr (Some \<lparr>rm_topic = target, rm_key = (if AggregateID event = [] then msg_ID event else AggregateID event),
      rm_value = b\<rparr>)"
    using b full full2 by (simp add: extract_outbox_def e1 e2 replay_envelope_def same outbox_envelope_def del: firstNonEmpty.simps)
  finally show ?thesis using run(3,4) b by blast
qed

text \<open>A broker that takes every message, and an event whose payload is a JSON object.\<close>

definition accepting_env :: "unit kafka_env" where
  "accepting_env = failing_env\<lparr>kx_send := (\<lambda>pm s. (None, s)), kx_marshal := marshal_struct\<rparr>"

definition event_with :: "bytes \<Rightarrow> OutboxMessage" where
  "event_with payload = \<lparr>msg_ID = ''e1'', AggregateType = ''order'', AggregateID = ''o1'', EventType = ''OrderPaid'',
     Payload = payload\<rparr>"

lemma publishToDLQ_accepted:
  assumes "has_dlqPublisher wk" and "printable (JRaw (Payload event))"
  obtains w' where "run_state (publishToDLQ (kafka_dlq accepting_env env) wk event err) w = (None, w')"
proof -
  let ?dp = "dlq_payload event err (kx_format accepting_env 0)"
  have "list_all (printable \<circ> snd) ?dp" "?dp \<noteq> []" using assms(2) by (simp_all add: dlq_payload_def printable_def)
  then obtain payload where payload: "marshal_map ?dp = Inr payload" "canonical payload" by (rule marshal_map_written)
  let ?oe = "outbox_envelope (event\<lparr>Payload := payload\<rparr>) (kx_format accepting_env 0)"
  have "list_all (printable \<circ> snd) ?oe" "?oe \<noteq> []" using payload(2) by (simp_all add: outbox_envelope_def printable_def)
  then obtain b where b: "marshal_struct ?oe = Inr b" by (rule marshal_struct_written)
  show ?thesis
    using that assms(1) payload(1) b
    by (simp add: publishToDLQ_def kafka_dlq_def outbox_Publish_def NewOutboxPublisher_def TopicDeadLetterQueue_def
        logging_producer_def PublishEvent_def accepting_env_def failing_env_def k_outside_def k_write_def dlq_payload_def)
qed

definition idle_outbox_env :: "unit k_world outbox_env" where
  "idle_outbox_env = \<lparr>ob_PullPending = (\<lambda>_. return (Inr [])), ob_Stats = return (Inl json_error), ob_MarkSent = (\<lambda>_. return None),
     ob_MarkFailed = (\<lambda>_. return None), ob_Publish = (\<lambda>_. return None), ob_DLQPublish = (\<lambda>_. return None), ob_Err = return None,
     ob_wait = (\<lambda>_. return None), ob_Now = return 0, ob_metric = (\<lambda>_. skip), ob_Marshal = marshal_map, ob_Format = (\<lambda>_. [])\<rparr>"

theorem outbox_dead_letter_replayed_witness:
  "\<exists>payload w' pm b. marshal_map [(''sum'', JInt 5)] = Inr payload
    \<and> run_state (publishToDLQ (kafka_dlq accepting_env idle_outbox_env) (NewWorker True True [WithDLQPublisher True])
        (event_with payload) (Opaque ''no broker'')) \<lparr>k_log = [], k_ext = ()\<rparr> = (None, w')
    \<and> k_log w' = [Sent pm None]
    \<and> marshal_struct (outbox_envelope (event_with payload) ''now'') = Inr b
    \<and> extractReplayMessage ''now'' (pm_Value pm) TopicOrderEvents
      = Inr (Some \<lparr>rm_topic = TopicOrderEvents, rm_key = ''o1'', rm_value = b\<rparr>)"
proof -
  let ?obj = "[(''sum'', JInt 5)]" and ?wk = "NewWorker True True [WithDLQPublisher True]"
  have "list_all (printable \<circ> snd) ?obj" "?obj \<noteq> []" by (simp_all add: printable_def)
  then obtain payload where payload: "marshal_map ?obj = Inr payload" "canonical payload" by (rule marshal_map_written)
  let ?ev = "event_with payload"
  have wk: "has_dlqPublisher ?wk" by (simp add: NewWorker_def WithDLQPublisher_def Let_def)
  have "printable (JRaw (Payload ?ev))" using payload(2) by (simp add: printable_def event_with_def)
  then obtain w' where run: "run_state (publishToDLQ (kafka_dlq accepting_env idle_outbox_env) ?wk ?ev (Opaque ''no broker''))
      \<lparr>k_log = [], k_ext = ()\<rparr> = (None, w')" by (rule publishToDLQ_accepted [OF wk])
  have "list_all sound_name [''e1'', ''order'', ''o1'', ''OrderPaid'']" by code_simp
  then have sound: "sound_event ?ev" by (simp add: sound_event_def event_with_def)
  have "kx_marshal accepting_env = marshal_struct" "marshal_map ?obj = Inr (Payload ?ev)" "?obj \<noteq> []"
      "list_all (\<lambda>(k, v). \<forall>r. v \<noteq> JRaw r) ?obj"
    using payload(1) by (simp_all add: accepting_env_def event_with_def)
  from outbox_dead_letter_replayed [OF wk this(1) sound this(2-4) run, of "''now''" TopicOrderEvents] payload(1) run
  show ?thesis by (auto simp: event_with_def)
qed

end
