(* ===== verification/Replay_Properties.thy ===== *)
theory Replay_Properties
  imports Dlq_Replay
begin

text \<open>
  What a run of the replay tool does to the topics: it scans the dead letters partition by partition, up to the limit,
  and sends exactly one message for every dead letter that can be replayed.
\<close>

section \<open>A broker\<close>

text \<open>A Kafka broker as its documentation describes it: a partition is a sequence of messages with rising offsets, a
  consumer gets the messages from the offset it asks for, in their order, and a message that is sent is kept. The clock
  is arbitrary.\<close>

record 's replay_world =
  rw_sent :: "ProducerMessage list"
  rw_ext :: 's

record topic_log =
  tl_partitions :: "string \<Rightarrow> int list"
  tl_messages :: "string \<Rightarrow> int \<Rightarrow> ConsumerMessage list"

definition replay_clock :: "('s \<Rightarrow> gotime \<times> 's) \<Rightarrow> ('s replay_world, gotime) prog" where
  "replay_clock f = State (\<lambda>w. case f (rw_ext w) of (a, s) \<Rightarrow> (a, w\<lparr>rw_ext := s\<rparr>))"

definition broker :: "topic_log \<Rightarrow> ('s \<Rightarrow> gotime \<times> 's) \<Rightarrow> (gotime \<Rightarrow> string) \<Rightarrow> 's replay_world replay_deps" where
  "broker topics clock fmt =
     \<lparr>has_client = True, has_consumer = True, has_producer = True,
      rd_Partitions = (\<lambda>t. return (Inr (tl_partitions topics t))),
      rd_OldestOffset = (\<lambda>t p. return (Inr (case tl_messages topics t p of [] \<Rightarrow> 0 | m # _ \<Rightarrow> cm_Offset m))),
      rd_NewestOffset = (\<lambda>t p. return (Inr (case tl_messages topics t p of [] \<Rightarrow> 0
                                            | ms \<Rightarrow> cm_Offset (last ms) + 1))),
      rd_ConsumePartition = (\<lambda>t p start. return (Inr (map (Received \<circ> Some)
                                            (filter (\<lambda>m. start \<le> cm_Offset m) (tl_messages topics t p))))),
      rd_SendMessage = (\<lambda>pm. State (\<lambda>w. (None, w\<lparr>rw_sent := rw_sent w @ [pm]\<rparr>))),
      rd_Now = replay_clock clock, rd_Format = fmt\<rparr>"

definition wf_partition :: "ConsumerMessage list \<Rightarrow> bool" where
  "wf_partition ms \<longleftrightarrow> sorted_wrt (\<lambda>a b. cm_Offset a < cm_Offset b) ms
     \<and> list_all (\<lambda>m. 0 \<le> cm_Offset m \<and> cm_Offset m < max_int64) ms"

section \<open>Which dead letters are replayed\<close>

definition replayable :: "string \<Rightarrow> ConsumerMessage \<Rightarrow> bool" where
  "replayable target m \<longleftrightarrow>
     (case extractReplayMessage [] (cm_Value m) target of Inr (Some _) \<Rightarrow> True | _ \<Rightarrow> False)"

text \<open>The message that is sent for a dead letter; only the time of the replay is open.\<close>

definition replay_of :: "(gotime \<Rightarrow> string) \<Rightarrow> string \<Rightarrow> ConsumerMessage \<Rightarrow> ProducerMessage \<Rightarrow> bool" where
  "replay_of fmt target m pm \<longleftrightarrow> (\<exists>t rm. extractReplayMessage (fmt t) (cm_Value m) target = Inr (Some rm)
     \<and> pm_Topic pm = rm_topic rm \<and> pm_Key pm = rm_key rm \<and> pm_Value pm = rm_value rm)"

text \<open>Whether a dead letter can be replayed does not depend on the time.\<close>

lemma marshal_replay_envelope:
  "isl (marshal_struct (replay_envelope env dlq t)) \<longleftrightarrow> isl (marshal_value (JRaw (oenv_Payload dlq)))"
  by (auto simp: replay_envelope_def marshal_struct_def marshal_value_def split: sum.splits)

lemma extract_outbox_time:
  "(\<exists>rm. extract_outbox t b target = Inr (Some rm)) \<longleftrightarrow> (\<exists>rm. extract_outbox t' b target = Inr (Some rm))"
proof -
  have *: "(\<exists>x. marshal_struct (replay_envelope env dlq t) = Inr x)
      \<longleftrightarrow> (\<exists>x. marshal_struct (replay_envelope env dlq t') = Inr x)" for env dlq
    using marshal_replay_envelope [of env dlq t] marshal_replay_envelope [of env dlq t'] by (metis isl_def sum.exhaust sum.disc)
  show ?thesis
    using * by (force simp: extract_outbox_def Let_def split: option.splits sum.splits)
qed

lemma replayable_iff:
  "replayable target m \<longleftrightarrow> (\<exists>rm. extractReplayMessage t (cm_Value m) target = Inr (Some rm))"
proof -
  have "replayable target m \<longleftrightarrow> (\<exists>rm. extractReplayMessage [] (cm_Value m) target = Inr (Some rm))"
    by (auto simp: replayable_def split: sum.splits option.splits)
  also have "\<dots> \<longleftrightarrow> (\<exists>rm. extractReplayMessage t (cm_Value m) target = Inr (Some rm))"
    using extract_outbox_time [of "[]" "cm_Value m" target t]
    by (auto simp: extractReplayMessage_def Let_def split: option.splits)
  finally show ?thesis .
qed

section \<open>The loops\<close>

definition counted :: "string \<Rightarrow> ConsumerMessage list \<Rightarrow> partitionStats \<Rightarrow> partitionStats" where
  "counted target ms st = \<lparr>processed = processed st + int (length ms),
     replayed = replayed st + int (length (filter (replayable target) ms)),
     skipped = skipped st + int (length (filter (\<lambda>m. \<not> replayable target m) ms))\<rparr>"

definition replayed_to :: "(gotime \<Rightarrow> string) \<Rightarrow> replay_config \<Rightarrow> ConsumerMessage list
    \<Rightarrow> ProducerMessage list \<Rightarrow> ProducerMessage list \<Rightarrow> bool" where
  "replayed_to fmt cfg ms before after \<longleftrightarrow> (if execute cfg then \<exists>sent. after = before @ sent
       \<and> list_all2 (replay_of fmt (targetTopic cfg)) (filter (replayable (targetTopic cfg)) ms) sent
     else after = before)"

lemma counted_simps [simp]:
  "counted target [] st = st"
  "counted target (ms @ ns) st = counted target ns (counted target ms st)"
  "replayable target m \<Longrightarrow> counted target (m # ms) st = counted target ms (count_replayed st)"
  "\<not> replayable target m \<Longrightarrow> counted target (m # ms) st = counted target ms (count_skipped st)"
  "processed (counted target ms st) = processed st + int (length ms)"
  by (simp_all add: counted_def count_replayed_def count_skipped_def)

lemma replayed_to_Nil [simp]: "replayed_to fmt cfg [] before after \<longleftrightarrow> after = before"
  by (auto simp: replayed_to_def)

lemma replayed_to_append:
  "replayed_to fmt cfg ms a b \<Longrightarrow> replayed_to fmt cfg ns b c \<Longrightarrow> replayed_to fmt cfg (ms @ ns) a c"
  unfolding replayed_to_def by (auto split: if_splits intro: list_all2_appendI)

lemma replayed_to_skip: "\<not> replayable (targetTopic cfg) m \<Longrightarrow> replayed_to fmt cfg [m] a a"
  by (simp add: replayed_to_def)

lemma run_clock: "run_state (replay_clock f) w = (a, w') \<Longrightarrow> rw_sent w' = rw_sent w"
  by (auto simp: replay_clock_def split: prod.splits)

text \<open>One message.\<close>

lemma publish_one:
  assumes "extractReplayMessage (fmt t) (cm_Value m) (targetTopic cfg) = Inr (Some rm)"
    and "run_state (if execute cfg then publishReplay (broker topics clock fmt) rm else return None) w = (res, w')"
  shows "res = None \<and> replayed_to fmt cfg [m] (rw_sent w) (rw_sent w')"
proof -
  have ok: "replayable (targetTopic cfg) m" using assms(1) by (auto simp: replayable_iff [of _ _ "fmt t"])
  show ?thesis
  proof (cases "execute cfg")
    case True
    obtain now v where now: "run_state (replay_clock clock) w = (now, v)" using prod.exhaust by blast
    let ?pm = "\<lparr>pm_Topic = rm_topic rm, pm_Key = rm_key rm, pm_Value = rm_value rm, pm_Timestamp = now\<rparr>"
    have "res = None" "rw_sent w' = rw_sent w @ [?pm]"
      using assms(2) True now run_clock [OF now] by (auto simp: publishReplay_def broker_def)
    moreover have "replay_of fmt (targetTopic cfg) m ?pm" using assms(1) by (auto simp: replay_of_def)
    ultimately show ?thesis using True ok by (auto simp: replayed_to_def)
  next
    case False
    then show ?thesis using assms(2) by (auto simp: replayed_to_def)
  qed
qed

lemma partition_loop_run:
  assumes "sorted_wrt (\<lambda>a b. cm_Offset a < cm_Offset b) ms"
    and "list_all (\<lambda>m. 0 \<le> cm_Offset m \<and> cm_Offset m < endOffset) ms" and "endOffset \<le> max_int64"
  shows "\<exists>w'. run_state (partition_loop (broker topics clock fmt) cfg part max_n endOffset (map (Received \<circ> Some) ms) st) w
      = ((counted (targetTopic cfg) (take (nat (max_n - processed st)) ms) st, None), w')
    \<and> replayed_to fmt cfg (take (nat (max_n - processed st)) ms) (rw_sent w) (rw_sent w')"
  using assms(1,2)
proof (induction ms arbitrary: st w)
  case (Cons m ms)
  let ?t = "targetTopic cfg" and ?d = "broker topics clock fmt"
  let ?loop = "\<lambda>st. partition_loop ?d cfg part max_n endOffset (map (Received \<circ> Some) ms) st"
  show ?case
  proof (cases "processed st < max_n")
    case True
    then have n: "nat (max_n - processed st) = Suc (nat (max_n - (processed st + 1)))" by simp
    obtain now v where now: "run_state (replay_clock clock) w = (now, v)" using prod.exhaust by blast
    have v: "rw_sent v = rw_sent w" by (rule run_clock [OF now])
    have d: "rd_Now ?d = replay_clock clock" "rd_Format ?d = fmt" by (simp_all add: broker_def)
    have off: "cm_Offset m < endOffset" using Cons.prems(2) by simp
    have IH: "\<exists>w'. run_state (?loop st') u = ((counted ?t (take (nat (max_n - processed st')) ms) st', None), w')
        \<and> replayed_to fmt cfg (take (nat (max_n - processed st')) ms) (rw_sent u) (rw_sent w')" for st' u
      by (rule Cons.IH) (use Cons.prems in simp_all)
    show ?thesis
    proof (cases "replayable ?t m")
      case False
      then have run: "run_state (partition_loop ?d cfg part max_n endOffset (map (Received \<circ> Some) (m # ms)) st) w
          = run_state (?loop (count_skipped st)) v"
        using True off now by (auto simp: d replayable_iff [of _ _ "fmt now"] split: sum.splits option.splits)
      have "processed (count_skipped st) = processed st + 1" by (simp add: count_skipped_def)
      with IH [of "count_skipped st" v] obtain w' where
        "run_state (?loop (count_skipped st)) v = ((counted ?t (take (nat (max_n - (processed st + 1))) ms) (count_skipped st), None), w')"
        "replayed_to fmt cfg (take (nat (max_n - (processed st + 1))) ms) (rw_sent v) (rw_sent w')" by auto
      then show ?thesis
        using False v n replayed_to_append [OF replayed_to_skip [OF False]] unfolding run by fastforce
    next
      case ok: True
      then obtain rm where rm: "extractReplayMessage (fmt now) (cm_Value m) ?t = Inr (Some rm)"
        by (auto simp: replayable_iff [of _ _ "fmt now"])
      obtain res u where u: "run_state (if execute cfg then publishReplay ?d rm else return None) v = (res, u)"
        using prod.exhaust by blast
      have res: "res = None" "replayed_to fmt cfg [m] (rw_sent w) (rw_sent u)"
        using publish_one [OF rm u] v by auto
      have wrap: "int64 (cm_Offset m + 1) = cm_Offset m + 1"
        using Cons.prems(2) assms(3) by (intro int64_id) (auto simp: in_int64_def)
      have last: "ms = []" if "endOffset \<le> cm_Offset m + 1"
        using Cons.prems that by (cases ms) auto
      have run: "run_state (partition_loop ?d cfg part max_n endOffset (map (Received \<circ> Some) (m # ms)) st) w
          = (if endOffset \<le> cm_Offset m + 1 then ((count_replayed st, None), u) else run_state (?loop (count_replayed st)) u)"
        using True off now rm u res(1) by (simp add: d wrap split: if_splits)
      show ?thesis
      proof (cases "endOffset \<le> cm_Offset m + 1")
        case True
        then show ?thesis using run last ok n res(2) by simp
      next
        case False
        have "processed (count_replayed st) = processed st + 1" by (simp add: count_replayed_def)
        with IH [of "count_replayed st" u] obtain w' where
          "run_state (?loop (count_replayed st)) u = ((counted ?t (take (nat (max_n - (processed st + 1))) ms) (count_replayed st), None), w')"
          "replayed_to fmt cfg (take (nat (max_n - (processed st + 1))) ms) (rw_sent u) (rw_sent w')" by auto
        then show ?thesis
          using False ok n replayed_to_append [OF res(2)] unfolding run by fastforce
      qed
    qed
  qed simp
qed simp

section \<open>A run\<close>

text \<open>The messages of a partition that a run looks at when \<open>n\<close> more are allowed: the first \<open>n\<close>, or with \<open>-from-newest\<close>
  those with the last \<open>n\<close> offsets (fewer than \<open>n\<close> messages when offsets are missing).\<close>

definition newest_of :: "nat \<Rightarrow> ConsumerMessage list \<Rightarrow> ConsumerMessage list" where
  "newest_of n ms = filter (\<lambda>m. cm_Offset (last ms) + 1 - int n \<le> cm_Offset m) ms"

definition scanned_of :: "bool \<Rightarrow> nat \<Rightarrow> ConsumerMessage list \<Rightarrow> ConsumerMessage list" where
  "scanned_of newest n ms = (if newest then newest_of n ms else take n ms)"

text \<open>The same for all partitions, one after another, each with what is left of the limit.\<close>

fun scanned :: "bool \<Rightarrow> nat \<Rightarrow> ConsumerMessage list list \<Rightarrow> ConsumerMessage list" where
  "scanned newest n [] = []"
| "scanned newest n (ms # ps) =
     (let now = scanned_of newest n ms in now @ scanned newest (n - length now) ps)"

lemma newest_of_0: "wf_partition ms \<Longrightarrow> newest_of 0 ms = []"
proof (cases "ms = []")
  case False
  assume wf: "wf_partition ms"
  have "sorted_wrt (\<lambda>a b. cm_Offset a < cm_Offset b) (butlast ms @ [last ms])" using wf False by (simp add: wf_partition_def)
  then have "\<forall>m \<in> set (butlast ms @ [last ms]). cm_Offset m \<le> cm_Offset (last ms)"
    unfolding sorted_wrt_append by auto
  then show ?thesis using False by (auto simp: newest_of_def filter_empty_conv)
qed (simp add: newest_of_def)

lemma scanned_0: "list_all wf_partition ps \<Longrightarrow> scanned newest 0 ps = []"
  by (induction ps) (auto simp: scanned_of_def newest_of_0)

lemma scanned_oldest: "scanned False n ps = take n (concat ps)"
  by (induction ps arbitrary: n) (auto simp: scanned_of_def Let_def min_def)

lemma wf_partition_bounds:
  assumes "wf_partition ms" and "ms \<noteq> []"
  shows "list_all (\<lambda>x. 0 \<le> cm_Offset x \<and> cm_Offset x < cm_Offset (last ms) + 1) ms"
    and "list_all (\<lambda>x. cm_Offset (hd ms) \<le> cm_Offset x) ms" and "cm_Offset (last ms) < max_int64"
    and "0 \<le> cm_Offset (last ms)" and "cm_Offset (hd ms) \<le> cm_Offset (last ms)"
proof -
  have "sorted_wrt (\<lambda>a b. cm_Offset a < cm_Offset b) (butlast ms @ [last ms])" using assms by (simp add: wf_partition_def)
  then have "list_all (\<lambda>x. cm_Offset x < cm_Offset (last ms) + 1) (butlast ms @ [last ms])"
    unfolding sorted_wrt_append by (auto simp: list_all_iff)
  then show "list_all (\<lambda>x. 0 \<le> cm_Offset x \<and> cm_Offset x < cm_Offset (last ms) + 1) ms"
    using assms by (auto simp: wf_partition_def list_all_iff)
  show "list_all (\<lambda>x. cm_Offset (hd ms) \<le> cm_Offset x) ms"
    using assms by (cases ms) (auto simp: wf_partition_def list_all_iff less_imp_le)
  then show "cm_Offset (hd ms) \<le> cm_Offset (last ms)" using assms(2) by (simp add: list_all_iff)
  have "last ms \<in> set ms" using assms(2) by simp
  then show "cm_Offset (last ms) < max_int64" "0 \<le> cm_Offset (last ms)"
    using assms(1) unfolding wf_partition_def list_all_iff by blast+
qed

lemma newest_of_length:
  assumes "wf_partition ms"
  shows "length (newest_of n ms) \<le> n"
proof (cases "ms = []")
  case False
  let ?N = "cm_Offset (last ms) + 1"
  have "sorted_wrt (<) (map cm_Offset (newest_of n ms))"
    using assms by (simp add: sorted_wrt_map newest_of_def wf_partition_def sorted_wrt_filter)
  then have "distinct (map cm_Offset (newest_of n ms))" using strict_sorted_iff by blast
  then have "length (newest_of n ms) = card (cm_Offset ` set (newest_of n ms))"
    using distinct_card by fastforce
  also have "cm_Offset ` set (newest_of n ms) \<subseteq> {?N - int n ..< ?N}"
    using wf_partition_bounds(1) [OF assms False] by (auto simp: newest_of_def list_all_iff)
  then have "card (cm_Offset ` set (newest_of n ms)) \<le> card {?N - int n ..< ?N}" by (intro card_mono) auto
  also have "card {?N - int n ..< ?N} = n" by simp
  finally show ?thesis .
qed (simp add: newest_of_def)

lemma processPartition_run:
  fixes max_n :: int
  assumes "wf_partition (tl_messages topics (sourceTopic cfg) part)" and "max_n \<le> max_int64"
  defines "ms \<equiv> scanned_of (fromNewest cfg) (nat max_n) (tl_messages topics (sourceTopic cfg) part)"
  shows "\<exists>w'. run_state (processPartition (broker topics clock fmt) cfg part max_n) w
      = ((counted (targetTopic cfg) ms no_stats, None), w') \<and> replayed_to fmt cfg ms (rw_sent w) (rw_sent w')"
proof (cases "0 < max_n \<and> tl_messages topics (sourceTopic cfg) part \<noteq> []")
  case True
  let ?all = "tl_messages topics (sourceTopic cfg) part"
  let ?start = "if fromNewest cfg then max (cm_Offset (last ?all) + 1 - max_n) (cm_Offset (hd ?all)) else cm_Offset (hd ?all)"
  let ?from = "filter (\<lambda>x. ?start \<le> cm_Offset x) ?all"
  from True obtain m rest where all: "?all = m # rest" by (cases ?all) auto
  note bounds = wf_partition_bounds [OF assms(1)] True
  have "int64 (cm_Offset (last ?all) + 1 - max_n) = cm_Offset (last ?all) + 1 - max_n"
    using bounds assms(2) by (intro int64_id) (auto simp: in_int64_def)
  moreover have "run_state (rd_OldestOffset (broker topics clock fmt) (sourceTopic cfg) part) w = (Inr (cm_Offset (hd ?all)), w)"
      "run_state (rd_NewestOffset (broker topics clock fmt) (sourceTopic cfg) part) w = (Inr (cm_Offset (last ?all) + 1), w)"
      "run_state (rd_ConsumePartition (broker topics clock fmt) (sourceTopic cfg) part k) w
        = (Inr (map (Received \<circ> Some) (filter (\<lambda>x. k \<le> cm_Offset x) ?all)), w)" for k
    using all by (simp_all add: broker_def)
  ultimately have run: "run_state (processPartition (broker topics clock fmt) cfg part max_n) w
      = run_state (partition_loop (broker topics clock fmt) cfg part max_n (cm_Offset (last ?all) + 1)
          (map (Received \<circ> Some) ?from) no_stats) w"
    using True bounds(5) by (simp add: processPartition_def Let_def)
  have scan: "?from = (if fromNewest cfg then newest_of (nat max_n) ?all else ?all)"
    using bounds(2) True by (auto simp: newest_of_def list_all_iff intro!: filter_cong filter_True)
  then have "take (nat max_n) ?from = ms"
    using newest_of_length [OF assms(1)] by (auto simp: ms_def scanned_of_def)
  moreover have "sorted_wrt (\<lambda>a b. cm_Offset a < cm_Offset b) ?from"
    using assms(1) by (simp add: wf_partition_def sorted_wrt_filter)
  moreover have "list_all (\<lambda>x. 0 \<le> cm_Offset x \<and> cm_Offset x < cm_Offset (last ?all) + 1) ?from"
    using bounds(1) True by (auto simp: list_all_iff)
  moreover have "cm_Offset (last ?all) + 1 \<le> max_int64" using bounds(3) True by simp
  ultimately show ?thesis
    using partition_loop_run [of ?from "cm_Offset (last ?all) + 1" topics clock fmt cfg part max_n no_stats w]
    unfolding run by (simp add: no_stats_def)
next
  case False
  then have "ms = []" using newest_of_0 [OF assms(1)] by (auto simp: ms_def scanned_of_def newest_of_def)
  with False show ?thesis
    by (auto simp: processPartition_def broker_def)
qed

lemma partitions_loop_run:
  assumes "list_all (\<lambda>p. wf_partition (tl_messages topics (sourceTopic cfg) p)) ps" and "limit cfg \<le> max_int64"
    and "0 \<le> processed st"
  defines "ms \<equiv> scanned (fromNewest cfg) (nat (limit cfg - processed st)) (map (tl_messages topics (sourceTopic cfg)) ps)"
  shows "\<exists>w'. run_state (partitions_loop (broker topics clock fmt) cfg ps st) w
      = ((counted (targetTopic cfg) ms st, None), w') \<and> replayed_to fmt cfg ms (rw_sent w) (rw_sent w')"
  using assms(1,3) unfolding ms_def
proof (induction ps arbitrary: st w)
  case (Cons p ps)
  let ?t = "targetTopic cfg" and ?d = "broker topics clock fmt" and ?log = "tl_messages topics (sourceTopic cfg)"
  let ?n = "nat (limit cfg - processed st)"
  have wf: "list_all wf_partition (map ?log ps)" "wf_partition (?log p)"
    using Cons.prems by (simp_all add: list_all_iff)
  show ?case
  proof (cases "processed st < limit cfg")
    case True
    let ?ms = "scanned_of (fromNewest cfg) ?n (?log p)"
    obtain v where v: "run_state (processPartition ?d cfg p (limit cfg - processed st)) w
        = ((counted ?t ?ms no_stats, None), v)" "replayed_to fmt cfg ?ms (rw_sent w) (rw_sent v)"
      using processPartition_run [of topics cfg p "limit cfg - processed st"] wf(2) assms(2) Cons.prems(2) by fastforce
    have st: "\<lparr>processed = processed st + processed (counted ?t ?ms no_stats), replayed = replayed st + replayed (counted ?t ?ms no_stats),
        skipped = skipped st + skipped (counted ?t ?ms no_stats)\<rparr> = counted ?t ?ms st"
      by (simp add: counted_def no_stats_def)
    have n: "nat (limit cfg - processed (counted ?t ?ms st)) = ?n - length ?ms" by simp
    obtain w' where w': "run_state (partitions_loop ?d cfg ps (counted ?t ?ms st)) v
        = ((counted ?t (scanned (fromNewest cfg) (?n - length ?ms) (map ?log ps)) (counted ?t ?ms st), None), w')"
        "replayed_to fmt cfg (scanned (fromNewest cfg) (?n - length ?ms) (map ?log ps)) (rw_sent v) (rw_sent w')"
      using Cons.IH [of "counted ?t ?ms st" v] Cons.prems unfolding n by auto
    have "run_state (partitions_loop ?d cfg (p # ps) st) w = run_state (partitions_loop ?d cfg ps (counted ?t ?ms st)) v"
      using True v(1) by (simp add: st del: counted_simps)
    then show ?thesis
      using w' replayed_to_append [OF v(2) w'(2)] by (simp add: Let_def)
  next
    case False
    then have "?n = 0" by simp
    then show ?thesis using False wf by (simp add: scanned_0 scanned_of_def newest_of_0)
  qed
qed simp

text \<open>C15. A run of the replay tool against a working broker scans the messages of the source topic in the order of the
  partitions, up to the limit, and counts each of them as replayed or skipped; with \<open>-from-newest\<close> it looks in each
  partition only at the last offsets that the limit still allows. With \<open>-execute\<close> it sends exactly one message for every
  dead letter among them that can be replayed, in that order, and nothing else; without it nothing is sent. Neither the
  clock nor the number of partitions matters.\<close>

theorem replay_scans_topic:
  assumes "readConfig brokersFlag brokersEnv flags = Inr cfg" and "in_int64 (limit cfg)"
    and "list_all (\<lambda>p. wf_partition (tl_messages topics (sourceTopic cfg) p)) (tl_partitions topics (sourceTopic cfg))"
  defines "parts \<equiv> map (tl_messages topics (sourceTopic cfg)) (sort (tl_partitions topics (sourceTopic cfg)))"
  defines "ms \<equiv> (if fromNewest cfg then scanned True (nat (limit cfg)) parts else take (nat (limit cfg)) (concat parts))"
  shows "\<exists>stats w'. run_state (runReplay (broker topics clock fmt) cfg) w = ((stats, None), w')
    \<and> processed stats = int (length ms)
    \<and> replayed stats = int (length (filter (replayable (targetTopic cfg)) ms))
    \<and> processed stats = replayed stats + skipped stats
    \<and> (if execute cfg then \<exists>sent. rw_sent w' = rw_sent w @ sent
         \<and> list_all2 (replay_of fmt (targetTopic cfg)) (filter (replayable (targetTopic cfg)) ms) sent
       else rw_sent w' = rw_sent w)"
proof -
  let ?ps = "tl_partitions topics (sourceTopic cfg)"
  have "sorted_less (<) (sort_slice (<) ?ps)" by (rule insertion.srt_sorted) (auto simp: weak_order_def)
  then have sort: "sort_slice (<) ?ps = sort ?ps"
    by (intro properties_for_sort [symmetric] insertion.srt_perm) (auto simp: sorted_less_def sorted_wrt_iff_nth_less not_less sorted_iff_nth_mono_less)
  have wf: "list_all (\<lambda>p. wf_partition (tl_messages topics (sourceTopic cfg) p)) (sort ?ps)"
    using assms(3) by (simp add: list_all_iff)
  have max: "limit cfg \<le> max_int64" using assms(2) by (simp add: in_int64_def)
  have ms: "ms = scanned (fromNewest cfg) (nat (limit cfg)) parts" by (simp add: ms_def scanned_oldest)
  from partitions_loop_run [OF wf max, of no_stats clock fmt w]
  obtain w' where w': "run_state (partitions_loop (broker topics clock fmt) cfg (sort ?ps) no_stats) w
      = ((counted (targetTopic cfg) ms no_stats, None), w')" "replayed_to fmt cfg ms (rw_sent w) (rw_sent w')"
    by (auto simp: ms parts_def no_stats_def)
  have "run_state (runReplay (broker topics clock fmt) cfg) w = ((counted (targetTopic cfg) ms no_stats, None), w')"
    using w'(1) by (auto simp: runReplay_def broker_def sort ms parts_def)
  moreover have "int (length ms) = int (length (filter (replayable (targetTopic cfg)) ms))
      + int (length (filter (\<lambda>m. \<not> replayable (targetTopic cfg) m) ms))"
    using sum_length_filter_compl [of "replayable (targetTopic cfg)" ms] by linarith
  ultimately show ?thesis
    using w'(2) by (intro exI conjI) (auto simp: counted_def no_stats_def replayed_to_def)
qed

text \<open>A topic with one dead letter of the consumer and one document that is no dead letter.\<close>

definition small_topic :: topic_log where
  "small_topic = \<lparr>tl_partitions = (\<lambda>t. [0]),
     tl_messages = (\<lambda>t p. [\<lparr>cm_Topic = t, cm_Partition = p, cm_Offset = 0, cm_Key = [],
        cm_Value = CHR ''{'' # quote ''original_value'' @ CHR '':'' # quote ''v'' @ ''}'', cm_Headers = []\<rparr>,
       \<lparr>cm_Topic = t, cm_Partition = p, cm_Offset = 1, cm_Key = [], cm_Value = ''[]'', cm_Headers = []\<rparr>])\<rparr>"

definition replay_flags :: replay_config where
  "replay_flags = default_flags\<lparr>execute := True\<rparr>"

lemma small_topic_messages: "map (replayable TopicOrderEvents) (tl_messages small_topic t p) = [True, False]"
  unfolding small_topic_def replayable_def by (simp; code_simp)

theorem replay_scans_topic_witness:
  "\<exists>cfg stats w'. readConfig ''b:1'' [] replay_flags = Inr cfg
    \<and> run_state (runReplay (broker small_topic (\<lambda>s. (0, s)) (\<lambda>_. [])) cfg) \<lparr>rw_sent = [], rw_ext = ()\<rparr> = ((stats, None), w')
    \<and> processed stats = 2 \<and> replayed stats = 1 \<and> skipped stats = 1 \<and> length (rw_sent w') = 1"
proof -
  let ?cfg = "replay_flags\<lparr>brokers := [''b:1'']\<rparr>"
  have cfg: "readConfig ''b:1'' [] replay_flags = Inr ?cfg"
    by code_simp
  have sel: "limit ?cfg = 100" "execute ?cfg" "targetTopic ?cfg = TopicOrderEvents" "in_int64 (limit ?cfg)" "\<not> fromNewest ?cfg"
      "tl_partitions small_topic t = [0]" for t
    by (simp_all add: replay_flags_def default_flags_def defaultReplayLimit_def small_topic_def in_int64_def)
  have ok: "list_all (\<lambda>p. wf_partition (tl_messages small_topic (sourceTopic ?cfg) p)) (tl_partitions small_topic (sourceTopic ?cfg))"
    by (simp add: wf_partition_def small_topic_def)
  have len: "length (tl_messages small_topic t p) = 2" for t p by (simp add: small_topic_def)
  have one: "length (filter (replayable TopicOrderEvents) (tl_messages small_topic t p)) = 1" for t p
    using arg_cong [OF small_topic_messages [of t p], of "\<lambda>bs. length (filter id bs)"] by (simp add: filter_map comp_def)
  show ?thesis
    using replay_scans_topic [OF cfg sel(4) ok, of "\<lambda>s. (0, s)" "\<lambda>_. []" "\<lparr>rw_sent = [], rw_ext = ()\<rparr>"] cfg
    by (auto simp: sel len one dest: list_all2_lengthD)
qed

end
