(* ===== verification/Sql.thy ===== *)
theory Sql
  imports Programs Json
begin

text \<open>
  What the repositories of \<open>internal/storage/postgres\<close> use of \<open>database/sql\<close>, of the driver pgx and of PostgreSQL.

  \<^item> A table is the list of its rows, in an arbitrary order; a statement is a function on the tables that returns
    rows and changed tables or an error, and a statement that fails changes nothing.
  \<^item> The server may be unreachable or the context may expire: before every statement, while rows are read and at the
    beginning of a transaction the environment says whether that happens (\<open>pg_fault\<close>). A commit may fail, and then
    the environment says whether the transaction took effect nevertheless, as it can when the answer of the server is
    lost (\<open>pg_commit\<close>).
  \<^item> A transaction works on the tables; \<open>sql_rollback\<close> restores them. The repositories cancel the context of a
    transaction when they return, and \<open>database/sql\<close> rolls back a transaction whose context ends, so that a
    return without commit is a rollback also where the code does not call \<open>Rollback\<close>.
  \<^item> A method runs as if alone. Each transaction of the repositories begins by writing the row it is about, so that two
    of them on the same row follow one another.
  \<^item> TEXT holds valid UTF-8 without NUL; another parameter is refused with SQLSTATE 22021. TIMESTAMPTZ holds
    microseconds: pgx drops the rest (\<open>pg_time\<close>). TEXT is ordered by the collation of the database, \<open>pg_collate\<close>.
    \<open>RowsAffected\<close> of pgx does not fail.
\<close>

section \<open>Errors\<close>

text \<open>An error of the server has a SQLSTATE and, where a constraint is violated, its name.\<close>

datatype sqlerr = PgError string string | ErrNoRows | ConnError error

definition sql_error :: "sqlerr \<Rightarrow> error" where
  "sql_error e =
     (case e of
        PgError code _ \<Rightarrow> Opaque (''SQLSTATE '' @ code)
      | ErrNoRows \<Rightarrow> Opaque ''sql: no rows in result set''
      | ConnError err \<Rightarrow> err)"

definition unique_violation_of :: "string \<Rightarrow> sqlerr" where "unique_violation_of c = PgError ''23505'' c"

text \<open>Where the repository does not look at the name, it is left out.\<close>

definition unique_violation :: sqlerr where "unique_violation = unique_violation_of []"
definition foreign_key_violation :: sqlerr where "foreign_key_violation = PgError ''23503'' []"
definition check_violation :: sqlerr where "check_violation = PgError ''23514'' []"
definition invalid_text :: sqlerr where "invalid_text = PgError ''22021'' []"

definition pg_text :: "string \<Rightarrow> bool" where
  "pg_text s \<longleftrightarrow> valid_utf8 s \<and> CHR 0x00 \<notin> set s"

definition pg_time :: "gotime \<Rightarrow> gotime" where
  "pg_time t = t div 1000 * 1000"

section \<open>Statements and transactions\<close>

datatype commit_result = Committed | CommitFailed error bool

record 's pg_env =
  pg_fault :: "'s \<Rightarrow> error option \<times> 's"
  pg_commit :: "'s \<Rightarrow> commit_result \<times> 's"
  pg_now :: "'s \<Rightarrow> gotime \<times> 's"
  pg_uuid :: "'s \<Rightarrow> string \<times> 's"
  pg_collate :: "string \<Rightarrow> string \<Rightarrow> bool"

record ('d, 's) pg_world =
  pg_db :: 'd
  pg_ext :: 's

definition pg_ask :: "('s \<Rightarrow> 'a \<times> 's) \<Rightarrow> (('d, 's) pg_world, 'a) prog" where
  "pg_ask f = State (\<lambda>w. case f (pg_ext w) of (a, s) \<Rightarrow> (a, w\<lparr>pg_ext := s\<rparr>))"

definition pg_restore :: "'d \<Rightarrow> (('d, 's) pg_world, unit) prog" where
  "pg_restore d = State (\<lambda>w. ((), w\<lparr>pg_db := d\<rparr>))"

definition pg_apply :: "('d \<Rightarrow> sqlerr + 'a \<times> 'd) \<Rightarrow> (('d, 's) pg_world, sqlerr + 'a) prog" where
  "pg_apply f = State (\<lambda>w. case f (pg_db w) of Inl e \<Rightarrow> (Inl e, w) | Inr (a, d) \<Rightarrow> (Inr a, w\<lparr>pg_db := d\<rparr>))"

text \<open>A statement with its text parameters.\<close>

definition sql_exec ::
  "'s pg_env \<Rightarrow> string list \<Rightarrow> ('d \<Rightarrow> sqlerr + 'a \<times> 'd) \<Rightarrow> (('d, 's) pg_world, sqlerr + 'a) prog" where
  "sql_exec env params f = do {
     fault \<leftarrow> pg_ask (pg_fault env);
     (case fault of
        Some e \<Rightarrow> return (Inl (ConnError e))
      | None \<Rightarrow> if list_all pg_text params then pg_apply f else return (Inl invalid_text))
   }"

definition sql_query :: "'s pg_env \<Rightarrow> string list \<Rightarrow> ('d \<Rightarrow> 'a) \<Rightarrow> (('d, 's) pg_world, sqlerr + 'a) prog" where
  "sql_query env params f = sql_exec env params (\<lambda>d. Inr (f d, d))"

text \<open>\<open>QueryRow\<close> and its \<open>Scan\<close>.\<close>

definition sql_query_row ::
  "'s pg_env \<Rightarrow> string list \<Rightarrow> ('d \<Rightarrow> 'a list) \<Rightarrow> (('d, 's) pg_world, sqlerr + 'a) prog" where
  "sql_query_row env params f =
     sql_exec env params (\<lambda>d. case f d of [] \<Rightarrow> Inl ErrNoRows | r # _ \<Rightarrow> Inr (r, d))"

text \<open>\<open>rows.Err\<close> after the loop over the rows.\<close>

definition rows_err :: "'s pg_env \<Rightarrow> (('d, 's) pg_world, error option) prog" where
  "rows_err env = pg_ask (pg_fault env)"

definition sql_begin :: "'s pg_env \<Rightarrow> (('d, 's) pg_world, error + 'd) prog" where
  "sql_begin env = do {
     fault \<leftarrow> pg_ask (pg_fault env);
     (case fault of
        Some e \<Rightarrow> return (Inl e)
      | None \<Rightarrow> State (\<lambda>w. (Inr (pg_db w), w)))
   }"

definition sql_rollback :: "'d \<Rightarrow> (('d, 's) pg_world, unit) prog" where
  "sql_rollback saved = pg_restore saved"

definition sql_commit :: "'s pg_env \<Rightarrow> 'd \<Rightarrow> (('d, 's) pg_world, error option) prog" where
  "sql_commit env saved = do {
     res \<leftarrow> pg_ask (pg_commit env);
     (case res of
        Committed \<Rightarrow> return None
      | CommitFailed e applied \<Rightarrow> do { _ \<leftarrow> (if applied then skip else pg_restore saved); return (Some e) })
   }"

section \<open>Rows\<close>

text \<open>\<open>INSERT\<close> into a table with a primary key.\<close>

definition insert_row :: "('r \<Rightarrow> 'k) \<Rightarrow> 'r \<Rightarrow> 'r list \<Rightarrow> sqlerr + 'r list" where
  "insert_row key r rows = (if key r \<in> set (map key rows) then Inl unique_violation else Inr (rows @ [r]))"

text \<open>\<open>UPDATE\<close> of the rows that satisfy a condition, with the number of rows.\<close>

definition update_rows :: "('r \<Rightarrow> bool) \<Rightarrow> ('r \<Rightarrow> 'r) \<Rightarrow> 'r list \<Rightarrow> int \<times> 'r list" where
  "update_rows P f rows = (int (length (filter P rows)), map (\<lambda>r. if P r then f r else r) rows)"

definition row_with :: "('r \<Rightarrow> 'k) \<Rightarrow> 'r list \<Rightarrow> 'k \<Rightarrow> 'r option" where
  "row_with key rows k = find (\<lambda>r. key r = k) rows"

lemma row_with_simps [simp]:
  "row_with key [] k = None"
  "row_with key (r # rows) k = (if key r = k then Some r else row_with key rows k)"
  by (simp_all add: row_with_def)

lemma row_with_append:
  "row_with key (rows @ [r]) k
     = (case row_with key rows k of Some x \<Rightarrow> Some x | None \<Rightarrow> if key r = k then Some r else None)"
  by (induction rows) auto

lemma row_with_None: "row_with key rows k = None \<longleftrightarrow> k \<notin> set (map key rows)"
  by (induction rows) auto

lemma row_with_Some: "row_with key rows k = Some r \<Longrightarrow> r \<in> set rows \<and> key r = k"
  by (induction rows) (auto split: if_splits)

lemma row_with_mem: "distinct (map key rows) \<Longrightarrow> r \<in> set rows \<Longrightarrow> row_with key rows (key r) = Some r"
  by (induction rows) (auto simp: rev_image_eqI)

lemma row_with_iff: "distinct (map key rows) \<Longrightarrow> row_with key rows k = Some r \<longleftrightarrow> r \<in> set rows \<and> key r = k"
  using row_with_Some row_with_mem by metis

lemma filter_key:
  "distinct (map key rows) \<Longrightarrow>
     filter (\<lambda>r. key r = k \<and> Q r) rows = (case row_with key rows k of Some r \<Rightarrow> if Q r then [r] else [] | None \<Rightarrow> [])"
proof (induction rows)
  case (Cons x rows)
  have "filter (\<lambda>r. key r = k \<and> Q r) rows = []" if "key x = k"
    using Cons.prems that by (auto simp: filter_empty_conv rev_image_eqI)
  then show ?case using Cons by simp
qed simp

lemma row_with_update:
  assumes "distinct (map key rows)" and "\<And>r. key (f r) = key r"
  shows "row_with key (snd (update_rows (\<lambda>r. key r = k \<and> Q r) f rows)) i
    = (case row_with key rows i of None \<Rightarrow> None | Some r \<Rightarrow> Some (if i = k \<and> Q r then f r else r))"
  using assms(1) by (induction rows) (auto simp: update_rows_def assms(2) split: option.split)

lemma row_with_map:
  assumes "\<And>r. key (f r) = key r"
  shows "row_with key (map (\<lambda>r. if key r \<in> S then f r else r) rows) i
    = (case row_with key rows i of None \<Rightarrow> None | Some r \<Rightarrow> Some (if i \<in> S then f r else r))"
  by (induction rows) (auto simp: assms)

lemma map_key_update: "(\<And>r. key (f r) = key r) \<Longrightarrow> map key (snd (update_rows P f rows)) = map key rows"
  by (auto simp: update_rows_def)

lemma list_all_update: "list_all P rows \<Longrightarrow> (\<And>r. P r \<Longrightarrow> P (f r)) \<Longrightarrow> list_all P (snd (update_rows Q f rows))"
  by (auto simp: update_rows_def list_all_iff)

lemma update_count:
  "distinct (map key rows) \<Longrightarrow> fst (update_rows (\<lambda>r. key r = k \<and> Q r) f rows)
     = (case row_with key rows k of Some r \<Rightarrow> if Q r then 1 else 0 | None \<Rightarrow> 0)"
  by (auto simp: update_rows_def filter_key split: option.split)

lemma row_with_update_key:
  "distinct (map key rows) \<Longrightarrow> (\<And>r. key (f r) = key r) \<Longrightarrow>
     row_with key (snd (update_rows (\<lambda>r. key r = k) f rows)) i
       = (case row_with key rows i of None \<Rightarrow> None | Some r \<Rightarrow> Some (if i = k then f r else r))"
  using row_with_update [of key rows f k "\<lambda>_. True" i] by (simp cong: option.case_cong)

lemma update_count_key:
  "distinct (map key rows) \<Longrightarrow>
     fst (update_rows (\<lambda>r. key r = k) f rows) = (case row_with key rows k of Some r \<Rightarrow> 1 | None \<Rightarrow> 0)"
  using update_count [of key rows k "\<lambda>_. True" f] by (simp cong: option.case_cong)

lemma range_vals_rows: "(\<And>r. r \<in> set rows \<Longrightarrow> m (key r) = Some (g r)) \<Longrightarrow> range_vals m (map key rows) = map g rows"
  by (induction rows) simp_all

section \<open>Sorted rows\<close>

lemma map_insert_by:
  "(\<And>y. y \<in> set xs \<Longrightarrow> lt x y \<longleftrightarrow> lt' (f x) (f y)) \<Longrightarrow> map f (insert_by lt x xs) = insert_by lt' (f x) (map f xs)"
  by (induction xs) auto

lemma map_sort_slice:
  assumes "\<And>x y. x \<in> set xs \<Longrightarrow> y \<in> set xs \<Longrightarrow> lt x y \<longleftrightarrow> lt' (f x) (f y)"
  shows "map f (sort_slice lt xs) = sort_slice lt' (map f xs)"
proof -
  have "map f (fold (insert_by lt) ys zs) = fold (insert_by lt') (map f ys) (map f zs)"
    if "set ys \<subseteq> set xs" "set zs \<subseteq> set xs" for ys zs
    using that
  proof (induction ys arbitrary: zs)
    case (Cons y ys)
    have "map f (insert_by lt y zs) = insert_by lt' (f y) (map f zs)"
      using Cons.prems assms by (intro map_insert_by) auto
    moreover have "set (insert_by lt y zs) \<subseteq> set xs" using Cons.prems by (auto simp: set_insert_by)
    ultimately show ?case using Cons by simp
  qed simp
  from this [of xs "[]"] show ?thesis by (simp add: sort_slice_def)
qed

lemma filter_sort_slice:
  assumes "weak_order lt" and "\<And>x y. x \<in> set xs \<Longrightarrow> y \<in> set xs \<Longrightarrow> x \<noteq> y \<Longrightarrow> lt x y \<or> lt y x"
  shows "sort_slice lt (filter P xs) = filter P (sort_slice lt xs)"
proof (rule insertion.srt_unique [OF assms(1)])
  show "sorted_less lt (filter P (sort_slice lt xs))"
    using insertion.srt_sorted [OF assms(1), of xs] by (simp add: sorted_less_def sorted_wrt_filter)
  show "mset (filter P (sort_slice lt xs)) = mset (filter P xs)"
    by (simp add: insertion.srt_perm mset_filter)
  show "lt x y \<or> lt y x" if "x \<in> set (filter P xs)" and "y \<in> set (filter P xs)" and "x \<noteq> y" for x y
    using that assms(2) by simp
qed

section \<open>Times\<close>

lemma pg_time_idem [simp]: "pg_time (pg_time t) = pg_time t"
  by (simp add: pg_time_def)

lemma pg_time_bounds: "pg_time t \<le> t" "t < pg_time t + 1000"
  unfolding pg_time_def minus_mod_eq_div_mult [symmetric]
  using pos_mod_sign [of 1000 t] pos_mod_bound [of 1000 t] by linarith+

lemma pg_time_mono: "t \<le> u \<Longrightarrow> pg_time t \<le> pg_time u"
  unfolding pg_time_def by (simp add: zdiv_mono1)

lemma pg_time_le: "pg_time u = u \<Longrightarrow> u \<le> pg_time t \<longleftrightarrow> u \<le> t"
  using pg_time_bounds(1) [of t] pg_time_mono [of u t] by auto

section \<open>A server without faults\<close>

definition quiet_pg :: "'s pg_env \<Rightarrow> bool" where
  "quiet_pg env \<longleftrightarrow> (\<forall>s. fst (pg_fault env s) = None \<and> fst (pg_commit env s) = Committed)"

text \<open>\<open>runs m d a d'\<close>: on tables \<open>d\<close> the program returns \<open>a\<close> and leaves the tables \<open>d'\<close>, whatever the state of the
  environment.\<close>

definition runs :: "(('d, 's) pg_world, 'a) prog \<Rightarrow> 'd \<Rightarrow> 'a \<Rightarrow> 'd \<Rightarrow> bool" where
  "runs m d a d' \<longleftrightarrow> (\<forall>w. pg_db w = d \<longrightarrow> fst (run_state m w) = a \<and> pg_db (snd (run_state m w)) = d')"

named_theorems runs \<open>execution without faults\<close>

lemma runs_return [runs]: "runs (return a) d a d"
  by (simp add: runs_def)

lemma runs_bind: "runs m d a d1 \<Longrightarrow> runs (f a) d1 b d2 \<Longrightarrow> runs (State_Monad.bind m f) d b d2"
  unfolding runs_def by (simp add: split_beta)

lemma runs_map: "runs m d a d' \<Longrightarrow> runs (do { r \<leftarrow> m; return (g r) }) d (g a) d'"
  by (rule runs_bind, assumption, rule runs_return)

lemma runs_ask: "(\<And>s. fst (f s) = a) \<Longrightarrow> runs (pg_ask f) d a d"
  by (auto simp: runs_def pg_ask_def split: prod.splits) (metis fst_conv)

lemma runs_exec:
  assumes "quiet_pg env" and "list_all pg_text params"
  shows "f d = Inr (a, d') \<Longrightarrow> runs (sql_exec env params f) d (Inr a) d'"
    and "f d = Inl e \<Longrightarrow> runs (sql_exec env params f) d (Inl e) d"
proof -
  have fault: "runs (pg_ask (pg_fault env)) d None d"
    using assms(1) by (intro runs_ask) (simp add: quiet_pg_def)
  show "runs (sql_exec env params f) d (Inr a) d'" if "f d = Inr (a, d')"
    unfolding sql_exec_def by (rule runs_bind [OF fault]) (use assms(2) that in \<open>simp add: runs_def pg_apply_def\<close>)
  show "runs (sql_exec env params f) d (Inl e) d" if "f d = Inl e"
    unfolding sql_exec_def by (rule runs_bind [OF fault]) (use assms(2) that in \<open>simp add: runs_def pg_apply_def\<close>)
qed

lemma runs_query: "quiet_pg env \<Longrightarrow> list_all pg_text params \<Longrightarrow> runs (sql_query env params f) d (Inr (f d)) d"
  unfolding sql_query_def by (rule runs_exec(1)) simp_all

lemma runs_query_row:
  assumes "quiet_pg env" and "list_all pg_text params"
  shows "f d = r # rs \<Longrightarrow> runs (sql_query_row env params f) d (Inr r) d"
    and "f d = [] \<Longrightarrow> runs (sql_query_row env params f) d (Inl ErrNoRows) d"
  unfolding sql_query_row_def using assms by (auto intro: runs_exec)

lemma runs_rows_err: "quiet_pg env \<Longrightarrow> runs (rows_err env) d None d"
  unfolding rows_err_def by (rule runs_ask) (simp add: quiet_pg_def)

lemma runs_begin: "quiet_pg env \<Longrightarrow> runs (sql_begin env) d (Inr d) d"
  unfolding sql_begin_def
  by (rule runs_bind [OF runs_ask [of _ None]]) (simp_all add: quiet_pg_def runs_def)

lemma runs_commit: "quiet_pg env \<Longrightarrow> runs (sql_commit env saved) d None d"
  unfolding sql_commit_def
  by (rule runs_bind [OF runs_ask [of _ Committed]]) (simp_all add: quiet_pg_def runs_def)

lemma runs_rollback: "runs (sql_rollback saved) d () saved"
  by (simp add: runs_def sql_rollback_def pg_restore_def)

text \<open>A server for examples.\<close>

definition calm_pg :: "unit pg_env" where
  "calm_pg = \<lparr>pg_fault = (\<lambda>s. (None, s)), pg_commit = (\<lambda>s. (Committed, s)), pg_now = (\<lambda>s. (5000, s)),
     pg_uuid = (\<lambda>s. (''u1'', s)), pg_collate = (<)\<rparr>"

lemma calm_pg_quiet: "quiet_pg calm_pg" "pg_collate calm_pg = (<)"
  by (simp_all add: quiet_pg_def calm_pg_def)

section \<open>A server with faults\<close>

text \<open>What a program may leave in the tables, whatever the environment does.\<close>

definition leaves :: "(('d, 's) pg_world, 'a) prog \<Rightarrow> 'd \<Rightarrow> ('a \<Rightarrow> 'd \<Rightarrow> bool) \<Rightarrow> bool" where
  "leaves m d Q \<longleftrightarrow> ensures (\<lambda>w. pg_db w = d) m (\<lambda>a w. Q a (pg_db w))"

lemma leaves_return: "Q a d \<Longrightarrow> leaves (return a) d Q"
  by (simp add: leaves_def ensures_def)

lemma leaves_bind:
  assumes "leaves m d R" and "\<And>a d1. R a d1 \<Longrightarrow> leaves (f a) d1 Q"
  shows "leaves (State_Monad.bind m f) d Q"
  unfolding leaves_def
proof (rule ensures_bind)
  show "ensures (\<lambda>w. pg_db w = d) m (\<lambda>a w. R a (pg_db w))" using assms(1) by (simp add: leaves_def)
  show "ensures (\<lambda>w. R a (pg_db w)) (f a) (\<lambda>a w. Q a (pg_db w))" for a
    using assms(2) by (auto simp: leaves_def ensures_def)
qed

lemma leaves_post: "leaves m d R \<Longrightarrow> (\<And>a d'. R a d' \<Longrightarrow> Q a d') \<Longrightarrow> leaves m d Q"
  unfolding leaves_def by (erule ensures_post) blast

lemma leaves_ask: "leaves (pg_ask f) d (\<lambda>_ d'. d' = d)"
  by (auto simp: leaves_def ensures_def pg_ask_def split: prod.splits)

lemma leaves_restore: "leaves (pg_restore d0) d (\<lambda>_ d'. d' = d0)"
  by (auto simp: leaves_def ensures_def pg_restore_def)

lemma leaves_exec:
  "leaves (sql_exec env params f) d (\<lambda>r d'. case r of Inl _ \<Rightarrow> d' = d | Inr a \<Rightarrow> f d = Inr (a, d') \<and> list_all pg_text params)"
  unfolding sql_exec_def
proof (rule leaves_bind [OF leaves_ask])
  fix fault :: "error option" and d1 :: 'a
  assume "d1 = d"
  then show "leaves (case fault of Some e \<Rightarrow> return (Inl (ConnError e))
      | None \<Rightarrow> if list_all pg_text params then pg_apply f else return (Inl invalid_text)) d1
      (\<lambda>r d'. case r of Inl _ \<Rightarrow> d' = d | Inr a \<Rightarrow> f d = Inr (a, d') \<and> list_all pg_text params)"
    by (auto simp: leaves_def ensures_def pg_apply_def split: option.splits sum.splits)
qed

lemma leaves_query: "leaves (sql_query env params f) d (\<lambda>r d'. d' = d \<and> (\<forall>a. r = Inr a \<longrightarrow> a = f d))"
  unfolding sql_query_def by (rule leaves_post [OF leaves_exec]) (auto split: sum.splits)

lemma leaves_query_row:
  "leaves (sql_query_row env params f) d (\<lambda>r d'. d' = d \<and> (\<forall>a. r = Inr a \<longrightarrow> (\<exists>rs. f d = a # rs))
     \<and> (r = Inl ErrNoRows \<longrightarrow> True))"
  unfolding sql_query_row_def by (rule leaves_post [OF leaves_exec]) (auto split: sum.splits list.splits)

lemma leaves_begin: "leaves (sql_begin env) d (\<lambda>r d'. d' = d \<and> (\<forall>a. r = Inr a \<longrightarrow> a = d))"
  unfolding sql_begin_def
  by (rule leaves_bind [OF leaves_ask]) (auto simp: leaves_def ensures_def split: option.splits)

lemma leaves_rollback: "leaves (sql_rollback d0) d (\<lambda>_ d'. d' = d0)"
  unfolding sql_rollback_def by (rule leaves_restore)

lemma leaves_commit:
  "leaves (sql_commit env d0) d (\<lambda>r d'. if r = None then d' = d else d' = d \<or> d' = d0)"
  unfolding sql_commit_def
  by (rule leaves_bind [OF leaves_ask])
    (auto simp: leaves_def ensures_def pg_restore_def split: commit_result.splits if_splits)

lemma leaves_sum:
  "(\<And>e. x = Inl e \<Longrightarrow> leaves (m e) d Q) \<Longrightarrow> (\<And>y. x = Inr y \<Longrightarrow> leaves (n y) d Q)
    \<Longrightarrow> leaves (case x of Inl e \<Rightarrow> m e | Inr y \<Rightarrow> n y) d Q"
  by (cases x) auto

lemma leaves_option:
  "(x = None \<Longrightarrow> leaves m d Q) \<Longrightarrow> (\<And>y. x = Some y \<Longrightarrow> leaves (n y) d Q)
    \<Longrightarrow> leaves (case x of None \<Rightarrow> m | Some y \<Rightarrow> n y) d Q"
  by (cases x) auto

lemma leaves_if: "(b \<Longrightarrow> leaves m d Q) \<Longrightarrow> (\<not> b \<Longrightarrow> leaves n d Q) \<Longrightarrow> leaves (if b then m else n) d Q"
  by simp

lemmas leaves_cases = leaves_sum leaves_option leaves_if

text \<open>The outcome of a transaction: nothing happened and an error is returned, or everything happened; then no error is
  returned unless the answer to the commit was lost.\<close>

definition all_or_nothing :: "string \<Rightarrow> 'd \<Rightarrow> 'd \<Rightarrow> error option \<Rightarrow> 'd \<Rightarrow> bool" where
  "all_or_nothing commit_msg d d1 r d' \<longleftrightarrow>
     (d' = d \<and> r \<noteq> None) \<or> (d' = d1 \<and> (r = None \<or> (\<exists>e. r = Some (Wrapped commit_msg e))))"

lemma rollback_leaves: "leaves (do { _ \<leftarrow> sql_rollback d; return (Some e) }) d0 (all_or_nothing m d d1)"
  by (rule leaves_bind [OF leaves_rollback]) (simp add: leaves_return all_or_nothing_def)

lemma commit_leaves:
  "leaves (do { err \<leftarrow> sql_commit env d; (case err of Some err \<Rightarrow> return (Some (Wrapped m err)) | None \<Rightarrow> return None) })
     d1 (all_or_nothing m d d1)"
  by (rule leaves_bind [OF leaves_commit]) (auto simp: leaves_return all_or_nothing_def split: option.split if_splits)

lemma begin_leaves:
  assumes "leaves (f d) d (all_or_nothing m d d1)"
  shows "leaves (do { tx \<leftarrow> sql_begin env; (case tx of Inl err \<Rightarrow> return (Some (g err)) | Inr saved \<Rightarrow> f saved) }) d
    (all_or_nothing m d d1)"
  by (rule leaves_bind [OF leaves_begin]) (use assms in \<open>auto simp: leaves_return all_or_nothing_def split: sum.split\<close>)

end
