(* ===== verification/Pg_Orders.thy ===== *)
theory Pg_Orders
  imports Sql Order_Repository Outbox_Repository
begin

text \<open>
  \<open>internal/storage/postgres/order_repository.go\<close> on the tables of \<open>sql/migrations/0001_init.up.sql\<close>. The tables of all
  repositories are one record, since \<open>order_items\<close> and \<open>timeline_events\<close> refer to \<open>orders\<close>.

  A status is stored as its text, which is the same value; that of an outbox message is one of the four words of
  \<open>OutboxStatus\<close>. \<open>version\<close>, a \<open>BIGINT\<close> that the server refuses to raise above \<open>2 ^ 63 - 1\<close>, is unbounded
  here, as in the model of the memory repository.
\<close>

section \<open>Tables\<close>

record orders_row =
  ord_id :: string
  ord_customer_id :: string
  ord_status :: OrderStatus
  ord_currency :: string
  ord_amount_minor :: int
  ord_version :: int
  ord_created_at :: gotime
  ord_updated_at :: gotime

record order_items_row =
  itm_id :: string
  itm_order_id :: string
  itm_sku :: string
  itm_qty :: int
  itm_price_minor :: int
  itm_created_at :: gotime

record timeline_events_row =
  ev_id :: int
  ev_order_id :: string
  ev_type :: string
  ev_reason :: string
  ev_occurred :: gotime

record outbox_messages_row =
  out_id :: string
  out_aggregate_type :: string
  out_aggregate_id :: string
  out_event_type :: string
  out_payload :: bytes
  out_status :: OutboxStatus
  out_attempt_count :: int
  out_created_at :: gotime
  out_updated_at :: gotime

record idempotency_keys_row =
  key_key :: string
  key_request_hash :: string
  key_response_body :: "bytes option"
  key_http_status :: "int option"
  key_status :: IdempotencyStatus
  key_ttl_at :: gotime
  key_created_at :: gotime
  key_updated_at :: gotime

record pg_tables =
  t_orders :: "orders_row list"
  t_order_items :: "order_items_row list"
  t_timeline_events :: "timeline_events_row list"
  timeline_events_seq :: int
  t_outbox_messages :: "outbox_messages_row list"
  t_idempotency_keys :: "idempotency_keys_row list"

definition empty_tables :: pg_tables where
  "empty_tables = \<lparr>t_orders = [], t_order_items = [], t_timeline_events = [], timeline_events_seq = 1,
     t_outbox_messages = [], t_idempotency_keys = []\<rparr>"

definition isUniqueViolation :: "sqlerr \<Rightarrow> bool" where
  "isUniqueViolation err \<longleftrightarrow> (case err of PgError code _ \<Rightarrow> code = ''23505'' | _ \<Rightarrow> False)"

lemma isUniqueViolation_simps [simp]:
  "isUniqueViolation unique_violation" "\<not> isUniqueViolation foreign_key_violation" "\<not> isUniqueViolation (ConnError err)"
  by (simp_all add: isUniqueViolation_def unique_violation_def unique_violation_of_def foreign_key_violation_def)

section \<open>Statements\<close>

definition insert_order :: "Order \<Rightarrow> pg_tables \<Rightarrow> sqlerr + unit \<times> pg_tables" where
  "insert_order order d =
     (case insert_row ord_id
        \<lparr>ord_id = ID order, ord_customer_id = CustomerID order, ord_status = Status order,
         ord_currency = Currency order, ord_amount_minor = AmountMinor order, ord_version = Version order,
         ord_created_at = pg_time (CreatedAt order), ord_updated_at = pg_time (UpdatedAt order)\<rparr> (t_orders d) of
        Inl e \<Rightarrow> Inl e
      | Inr rows \<Rightarrow> Inr ((), d\<lparr>t_orders := rows\<rparr>))"

definition insert_item :: "string \<Rightarrow> OrderItem \<Rightarrow> pg_tables \<Rightarrow> sqlerr + unit \<times> pg_tables" where
  "insert_item orderID item d =
     (case insert_row itm_id
        \<lparr>itm_id = item_ID item, itm_order_id = orderID, itm_sku = SKU item, itm_qty = Qty item,
         itm_price_minor = PriceMinor item, itm_created_at = pg_time (item_CreatedAt item)\<rparr> (t_order_items d) of
        Inl e \<Rightarrow> Inl e
      | Inr rows \<Rightarrow> if orderID \<in> set (map ord_id (t_orders d)) then Inr ((), d\<lparr>t_order_items := rows\<rparr>)
                    else Inl foreign_key_violation)"

definition update_order :: "Order \<Rightarrow> pg_tables \<Rightarrow> sqlerr + int \<times> pg_tables" where
  "update_order order d =
     (let (affected, rows) = update_rows (\<lambda>r. ord_id r = ID order \<and> ord_version r = Version order)
        (\<lambda>r. r\<lparr>ord_customer_id := CustomerID order, ord_status := Status order, ord_currency := Currency order,
               ord_amount_minor := AmountMinor order, ord_version := ord_version r + 1,
               ord_updated_at := pg_time (UpdatedAt order)\<rparr>) (t_orders d)
      in Inr (affected, d\<lparr>t_orders := rows\<rparr>))"

definition item_before :: "(string \<Rightarrow> string \<Rightarrow> bool) \<Rightarrow> order_items_row \<Rightarrow> order_items_row \<Rightarrow> bool" where
  "item_before lt a b = (if itm_created_at a \<noteq> itm_created_at b then itm_created_at a < itm_created_at b
     else lt (itm_id a) (itm_id b))"

definition select_items :: "(string \<Rightarrow> string \<Rightarrow> bool) \<Rightarrow> string \<Rightarrow> pg_tables \<Rightarrow> order_items_row list" where
  "select_items lt orderID d = sort_slice (item_before lt) (filter (\<lambda>r. itm_order_id r = orderID) (t_order_items d))"

definition order_row_before :: "(string \<Rightarrow> string \<Rightarrow> bool) \<Rightarrow> orders_row \<Rightarrow> orders_row \<Rightarrow> bool" where
  "order_row_before lt a b = (if ord_created_at a \<noteq> ord_created_at b then ord_created_at a > ord_created_at b
     else lt (ord_id b) (ord_id a))"

definition select_orders_by_customer :: "(string \<Rightarrow> string \<Rightarrow> bool) \<Rightarrow> string \<Rightarrow> int \<Rightarrow> pg_tables \<Rightarrow> orders_row list" where
  "select_orders_by_customer lt customerID max_n d =
     (let rows = sort_slice (order_row_before lt) (filter (\<lambda>r. ord_customer_id r = customerID) (t_orders d))
      in if max_n > 0 then take (nat max_n) rows else rows)"

section \<open>The repository\<close>

type_synonym ('s, 'a) pg_prog = "((pg_tables, 's) pg_world, 'a) prog"

definition scan_item :: "order_items_row \<Rightarrow> OrderItem" where
  "scan_item r = \<lparr>item_ID = itm_id r, SKU = itm_sku r, Qty = itm_qty r, PriceMinor = itm_price_minor r,
     item_CreatedAt = itm_created_at r\<rparr>"

definition scan_order :: "orders_row \<Rightarrow> OrderItem list \<Rightarrow> Order" where
  "scan_order r items = \<lparr>ID = ord_id r, CustomerID = ord_customer_id r, Status = ord_status r,
     Currency = ord_currency r, AmountMinor = ord_amount_minor r, Items = items, Version = ord_version r,
     CreatedAt = ord_created_at r, UpdatedAt = ord_updated_at r\<rparr>"

definition pg_loadItems :: "'s pg_env \<Rightarrow> string \<Rightarrow> ('s, error + OrderItem list) pg_prog" where
  "pg_loadItems env orderID = do {
     res \<leftarrow> sql_query env [orderID] (select_items (pg_collate env) orderID);
     (case res of
        Inl err \<Rightarrow> return (Inl (Wrapped ''load order items'' (sql_error err)))
      | Inr rows \<Rightarrow> do {
          err \<leftarrow> rows_err env;
          (case err of
             Some err \<Rightarrow> return (Inl (Wrapped ''iterate order items'' err))
           | None \<Rightarrow> return (Inr (map scan_item rows)))
        })
   }"

fun insert_items :: "'s pg_env \<Rightarrow> string \<Rightarrow> OrderItem list \<Rightarrow> ('s, sqlerr option) pg_prog" where
  "insert_items env orderID [] = return None"
| "insert_items env orderID (item # items) = do {
     res \<leftarrow> sql_exec env [item_ID item, orderID, SKU item] (insert_item orderID item);
     (case res of
        Inl err \<Rightarrow> return (Some err)
      | Inr _ \<Rightarrow> insert_items env orderID items)
   }"

definition pg_order_Create :: "'s pg_env \<Rightarrow> Order \<Rightarrow> ('s, error option) pg_prog" where
  "pg_order_Create env order = do {
     tx \<leftarrow> sql_begin env;
     (case tx of
        Inl err \<Rightarrow> return (Some (Wrapped ''begin tx'' err))
      | Inr saved \<Rightarrow> do {
          res \<leftarrow> sql_exec env [ID order, CustomerID order, OrderStatus_string (Status order), Currency order]
                   (insert_order order);
          (case res of
             Inl err \<Rightarrow> do {
               _ \<leftarrow> sql_rollback saved;
               return (Some (if isUniqueViolation err then E ErrOrderVersionConflict
                             else Wrapped ''insert order'' (sql_error err)))
             }
           | Inr _ \<Rightarrow> do {
               res \<leftarrow> insert_items env (ID order) (Items order);
               (case res of
                  Some err \<Rightarrow> do {
                    _ \<leftarrow> sql_rollback saved;
                    return (Some (Wrapped ''insert order item'' (sql_error err)))
                  }
                | None \<Rightarrow> do {
                    err \<leftarrow> sql_commit env saved;
                    (case err of
                       Some err \<Rightarrow> return (Some (Wrapped ''commit create order'' err))
                     | None \<Rightarrow> return None)
                  })
             })
        })
   }"

definition pg_order_Get :: "'s pg_env \<Rightarrow> string \<Rightarrow> ('s, error + Order) pg_prog" where
  "pg_order_Get env i = do {
     res \<leftarrow> sql_query_row env [i] (\<lambda>d. filter (\<lambda>r. ord_id r = i) (t_orders d));
     (case res of
        Inl err \<Rightarrow> return (Inl (if err = ErrNoRows then E ErrOrderNotFound else Wrapped ''select order'' (sql_error err)))
      | Inr r \<Rightarrow> do {
          items \<leftarrow> pg_loadItems env (ord_id r);
          (case items of
             Inl err \<Rightarrow> return (Inl err)
           | Inr items \<Rightarrow> return (Inr (scan_order r items)))
        })
   }"

fun scan_orders :: "'s pg_env \<Rightarrow> orders_row list \<Rightarrow> ('s, error + Order list) pg_prog" where
  "scan_orders env [] = return (Inr [])"
| "scan_orders env (r # rows) = do {
     items \<leftarrow> pg_loadItems env (ord_id r);
     (case items of
        Inl err \<Rightarrow> return (Inl err)
      | Inr items \<Rightarrow> do {
          rest \<leftarrow> scan_orders env rows;
          (case rest of
             Inl err \<Rightarrow> return (Inl err)
           | Inr orders \<Rightarrow> return (Inr (scan_order r items # orders)))
        })
   }"

definition pg_order_ListByCustomer :: "'s pg_env \<Rightarrow> string \<Rightarrow> int \<Rightarrow> ('s, error + Order list) pg_prog" where
  "pg_order_ListByCustomer env customerID max_n = do {
     res \<leftarrow> sql_query env [customerID] (select_orders_by_customer (pg_collate env) customerID max_n);
     (case res of
        Inl err \<Rightarrow> return (Inl (Wrapped ''list orders'' (sql_error err)))
      | Inr rows \<Rightarrow> do {
          orders \<leftarrow> scan_orders env rows;
          (case orders of
             Inl err \<Rightarrow> return (Inl err)
           | Inr orders \<Rightarrow> do {
               err \<leftarrow> rows_err env;
               (case err of
                  Some err \<Rightarrow> return (Inl (Wrapped ''iterate order rows'' err))
                | None \<Rightarrow> return (Inr orders))
             })
        })
   }"

definition orderExistsTx :: "'s pg_env \<Rightarrow> string \<Rightarrow> ('s, error + bool) pg_prog" where
  "orderExistsTx env orderID = do {
     res \<leftarrow> sql_query_row env [orderID] (\<lambda>d. map ord_id (filter (\<lambda>r. ord_id r = orderID) (t_orders d)));
     return (case res of
        Inr _ \<Rightarrow> Inr True
      | Inl err \<Rightarrow> if err = ErrNoRows then Inr False else Inl (Wrapped ''check order exists'' (sql_error err)))
   }"

definition pg_order_Save :: "'s pg_env \<Rightarrow> Order \<Rightarrow> ('s, error option) pg_prog" where
  "pg_order_Save env order = do {
     tx \<leftarrow> sql_begin env;
     (case tx of
        Inl err \<Rightarrow> return (Some (Wrapped ''begin tx'' err))
      | Inr saved \<Rightarrow> do {
          res \<leftarrow> sql_exec env [CustomerID order, OrderStatus_string (Status order), Currency order, ID order]
                   (update_order order);
          (case res of
             Inl err \<Rightarrow> do { _ \<leftarrow> sql_rollback saved; return (Some (Wrapped ''update order'' (sql_error err))) }
           | Inr affected \<Rightarrow>
               if affected = 0 then do {
                 exists \<leftarrow> orderExistsTx env (ID order);
                 _ \<leftarrow> sql_rollback saved;
                 return (Some (case exists of
                    Inl err \<Rightarrow> err
                  | Inr b \<Rightarrow> if b then E ErrOrderVersionConflict else E ErrOrderNotFound))
               }
               else do {
                 err \<leftarrow> sql_commit env saved;
                 (case err of
                    Some err \<Rightarrow> return (Some (Wrapped ''commit save order'' err))
                  | None \<Rightarrow> return None)
               })
        })
   }"

end
