(* ===== verification/Pg_Orders_Refinement.thy ===== *)
theory Pg_Orders_Refinement
  imports Pg_Orders
begin

text \<open>
  The PostgreSQL order repository against the one in memory. The tables represent the map \<open>abs_orders\<close>; on it every
  method does what the method of the memory repository does, up to what the tables do not keep: the times below the
  microsecond and the order of the items (\<open>norm_order\<close>). \<open>Save\<close> writes neither the items nor the time of creation, so it
  agrees for orders in which these are unchanged.
\<close>

section \<open>The stored map\<close>

definition stored_items :: "(string \<Rightarrow> string \<Rightarrow> bool) \<Rightarrow> pg_tables \<Rightarrow> string \<Rightarrow> OrderItem list" where
  "stored_items lt d i = map scan_item (select_items lt i d)"

definition abs_orders :: "(string \<Rightarrow> string \<Rightarrow> bool) \<Rightarrow> pg_tables \<Rightarrow> order_repo" where
  "abs_orders lt d i = map_option (\<lambda>r. scan_order r (stored_items lt d i)) (row_with ord_id (t_orders d) i)"

definition wf_pg_orders :: "pg_tables \<Rightarrow> bool" where
  "wf_pg_orders d \<longleftrightarrow> distinct (map ord_id (t_orders d)) \<and> distinct (map itm_id (t_order_items d))
     \<and> list_all pg_text (map ord_id (t_orders d))
     \<and> list_all (\<lambda>r. itm_order_id r \<in> set (map ord_id (t_orders d))) (t_order_items d)"

text \<open>What is kept of an order.\<close>

definition norm_item :: "OrderItem \<Rightarrow> OrderItem" where
  "norm_item it = it\<lparr>item_CreatedAt := pg_time (item_CreatedAt it)\<rparr>"

definition order_item_before :: "(string \<Rightarrow> string \<Rightarrow> bool) \<Rightarrow> OrderItem \<Rightarrow> OrderItem \<Rightarrow> bool" where
  "order_item_before lt a b = (if item_CreatedAt a \<noteq> item_CreatedAt b then item_CreatedAt a < item_CreatedAt b
     else lt (item_ID a) (item_ID b))"

definition norm_order :: "(string \<Rightarrow> string \<Rightarrow> bool) \<Rightarrow> Order \<Rightarrow> Order" where
  "norm_order lt o1 = o1\<lparr>CreatedAt := pg_time (CreatedAt o1), UpdatedAt := pg_time (UpdatedAt o1),
     Items := sort_slice (order_item_before lt) (map norm_item (Items o1))\<rparr>"

definition storable :: "Order \<Rightarrow> bool" where
  "storable o1 \<longleftrightarrow> list_all pg_text [ID o1, CustomerID o1, OrderStatus_string (Status o1), Currency o1]
     \<and> list_all (\<lambda>it. list_all pg_text [item_ID it, SKU it]) (Items o1)"

lemma norm_order_sel [simp]:
  "ID (norm_order lt o1) = ID o1" "Version (norm_order lt o1) = Version o1" "CustomerID (norm_order lt o1) = CustomerID o1"
  "Status (norm_order lt o1) = Status o1" "Currency (norm_order lt o1) = Currency o1" "AmountMinor (norm_order lt o1) = AmountMinor o1"
  by (simp_all add: norm_order_def)

lemma item_before_scan: "item_before lt a b \<longleftrightarrow> order_item_before lt (scan_item a) (scan_item b)"
  by (simp add: item_before_def order_item_before_def scan_item_def)

lemma stored_items_eq:
  "stored_items lt d i = sort_slice (order_item_before lt) (map scan_item (filter (\<lambda>r. itm_order_id r = i) (t_order_items d)))"
  unfolding stored_items_def select_items_def by (rule map_sort_slice) (rule item_before_scan)

lemma wf_abs_orders: "wf_orders (abs_orders lt d)"
  using row_with_Some by (fastforce simp: wf_orders_def abs_orders_def scan_order_def)

lemma dom_abs_orders: "dom (abs_orders lt d) = set (map ord_id (t_orders d))"
  using row_with_None [of ord_id "t_orders d"] by (auto simp: abs_orders_def dom_def)

section \<open>Creating\<close>

definition item_row :: "string \<Rightarrow> OrderItem \<Rightarrow> order_items_row" where
  "item_row orderID item = \<lparr>itm_id = item_ID item, itm_order_id = orderID, itm_sku = SKU item, itm_qty = Qty item,
     itm_price_minor = PriceMinor item, itm_created_at = pg_time (item_CreatedAt item)\<rparr>"

lemma scan_item_row: "scan_item (item_row i it) = norm_item it"
  by (simp add: scan_item_def item_row_def norm_item_def)

lemma insert_item_ok:
  assumes "item_ID it \<notin> set (map itm_id (t_order_items d))" and "i \<in> set (map ord_id (t_orders d))"
  shows "insert_item i it d = Inr ((), d\<lparr>t_order_items := t_order_items d @ [item_row i it]\<rparr>)"
  using assms by (simp add: insert_item_def insert_row_def item_row_def)

lemma insert_items_runs:
  assumes "quiet_pg env" and "pg_text i" and "list_all (\<lambda>it. list_all pg_text [item_ID it, SKU it]) items"
    and "i \<in> set (map ord_id (t_orders d))" and "distinct (map item_ID items)"
    and "set (map item_ID items) \<inter> set (map itm_id (t_order_items d)) = {}"
  shows "runs (insert_items env i items) d None (d\<lparr>t_order_items := t_order_items d @ map (item_row i) items\<rparr>)"
  using assms(3-)
proof (induction items arbitrary: d)
  case Nil
  then show ?case by (simp add: runs_return)
next
  case (Cons it items)
  let ?d = "d\<lparr>t_order_items := t_order_items d @ [item_row i it]\<rparr>"
  have one: "runs (sql_exec env [item_ID it, i, SKU it] (insert_item i it)) d (Inr ()) ?d"
    using assms(1,2) Cons.prems by (intro runs_exec insert_item_ok) auto
  have "runs (insert_items env i items) ?d None (?d\<lparr>t_order_items := t_order_items ?d @ map (item_row i) items\<rparr>)"
    using Cons.prems by (intro Cons.IH) (auto simp: item_row_def)
  then show ?case by (simp add: runs_bind [OF one])
qed

definition created_tables :: "Order \<Rightarrow> pg_tables \<Rightarrow> pg_tables" where
  "created_tables o1 d = d\<lparr>t_orders := t_orders d @ [\<lparr>ord_id = ID o1, ord_customer_id = CustomerID o1,
       ord_status = Status o1, ord_currency = Currency o1, ord_amount_minor = AmountMinor o1, ord_version = Version o1,
       ord_created_at = pg_time (CreatedAt o1), ord_updated_at = pg_time (UpdatedAt o1)\<rparr>],
     t_order_items := t_order_items d @ map (item_row (ID o1)) (Items o1)\<rparr>"

lemma insert_order_cases:
  "insert_order o1 d = (if ID o1 \<in> set (map ord_id (t_orders d)) then Inl unique_violation
     else Inr ((), created_tables (o1\<lparr>Items := []\<rparr>) d))"
  by (simp add: insert_order_def insert_row_def created_tables_def)

lemma Create_runs_new:
  assumes "quiet_pg env" and "storable o1" and "ID o1 \<notin> set (map ord_id (t_orders d))"
    and "distinct (map item_ID (Items o1))" and "set (map item_ID (Items o1)) \<inter> set (map itm_id (t_order_items d)) = {}"
  shows "runs (pg_order_Create env o1) d None (created_tables o1 d)"
proof -
  let ?d1 = "created_tables (o1\<lparr>Items := []\<rparr>) d"
  have ins: "runs (sql_exec env [ID o1, CustomerID o1, OrderStatus_string (Status o1), Currency o1] (insert_order o1)) d (Inr ()) ?d1"
    using assms by (intro runs_exec) (auto simp: insert_order_cases storable_def)
  have "runs (insert_items env (ID o1) (Items o1)) ?d1 None
      (?d1\<lparr>t_order_items := t_order_items ?d1 @ map (item_row (ID o1)) (Items o1)\<rparr>)"
    using assms by (intro insert_items_runs) (auto simp: storable_def created_tables_def)
  then have items: "runs (insert_items env (ID o1) (Items o1)) ?d1 None (created_tables o1 d)"
    by (simp add: created_tables_def)
  show ?thesis
    unfolding pg_order_Create_def
    by (rule runs_bind [OF runs_begin [OF assms(1)]], simp, rule runs_bind [OF ins], simp,
        rule runs_bind [OF items], simp, rule runs_bind [OF runs_commit [OF assms(1)]]) (simp add: runs_return)
qed

lemma Create_runs_existing:
  assumes "quiet_pg env" and "storable o1" and "ID o1 \<in> set (map ord_id (t_orders d))"
  shows "runs (pg_order_Create env o1) d (Some (E ErrOrderVersionConflict)) d"
proof -
  have ins: "runs (sql_exec env [ID o1, CustomerID o1, OrderStatus_string (Status o1), Currency o1] (insert_order o1)) d
      (Inl unique_violation) d"
    using assms by (intro runs_exec) (auto simp: insert_order_cases storable_def)
  show ?thesis
    unfolding pg_order_Create_def
    by (rule runs_bind [OF runs_begin [OF assms(1)]], simp, rule runs_bind [OF ins], simp, rule runs_bind [OF runs_rollback])
      (simp add: runs_return)
qed

lemma abs_created:
  assumes "wf_pg_orders d" and "ID o1 \<notin> set (map ord_id (t_orders d))"
  shows "abs_orders lt (created_tables o1 d) = (abs_orders lt d)(ID o1 \<mapsto> norm_order lt o1)"
proof
  fix i
  have no_items: "filter (\<lambda>r. itm_order_id r = ID o1) (t_order_items d) = []"
    using assms unfolding wf_pg_orders_def list_all_iff filter_empty_conv by metis
  have rows: "filter (\<lambda>r. itm_order_id r = i) (map (item_row (ID o1)) its) = (if i = ID o1 then map (item_row (ID o1)) its else [])"
    for its by (auto simp: item_row_def filter_empty_conv)
  have "stored_items lt (created_tables o1 d) i
      = (if i = ID o1 then sort_slice (order_item_before lt) (map norm_item (Items o1)) else stored_items lt d i)"
    using no_items rows by (simp add: stored_items_eq created_tables_def scan_item_row comp_def)
  then show "abs_orders lt (created_tables o1 d) i = ((abs_orders lt d)(ID o1 \<mapsto> norm_order lt o1)) i"
    using row_with_None [of ord_id "t_orders d" "ID o1"] assms(2)
    by (auto simp: abs_orders_def created_tables_def row_with_append norm_order_def scan_order_def split: option.split)
qed

lemma wf_created:
  assumes "wf_pg_orders d" and "pg_text (ID o1)" and "ID o1 \<notin> set (map ord_id (t_orders d))"
    and "distinct (map item_ID (Items o1))" and "set (map item_ID (Items o1)) \<inter> set (map itm_id (t_order_items d)) = {}"
  shows "wf_pg_orders (created_tables o1 d)"
proof -
  have "itm_id \<circ> item_row (ID o1) = item_ID" by (simp add: fun_eq_iff item_row_def)
  then show ?thesis
    using assms by (auto simp: wf_pg_orders_def created_tables_def list_all_iff item_row_def)
qed

section \<open>Reading\<close>

lemma loadItems_runs:
  assumes "quiet_pg env" and "pg_text i"
  shows "runs (pg_loadItems env i) d (Inr (stored_items (pg_collate env) d i)) d"
  unfolding pg_loadItems_def stored_items_def
  by (rule runs_bind [OF runs_query [OF assms(1)]], simp add: assms(2), simp, rule runs_bind [OF runs_rows_err [OF assms(1)]])
    (simp add: runs_return)

lemma Get_runs:
  assumes "quiet_pg env" and "pg_text i" and "wf_pg_orders d"
  shows "runs (pg_order_Get env i) d (order_Get i (abs_orders (pg_collate env) d)) d"
proof -
  have "filter (\<lambda>r. ord_id r = i) (t_orders d) = (case row_with ord_id (t_orders d) i of Some r \<Rightarrow> [r] | None \<Rightarrow> [])"
    using filter_key [of ord_id "t_orders d" i "\<lambda>_. True"] assms(3) by (simp add: wf_pg_orders_def cong: option.case_cong)
  note rows = this
  show ?thesis
  proof (cases "row_with ord_id (t_orders d) i")
    case None
    then have "runs (sql_query_row env [i] (\<lambda>d. filter (\<lambda>r. ord_id r = i) (t_orders d))) d (Inl ErrNoRows) d"
      using rows assms by (intro runs_query_row) simp_all
    then show ?thesis
      unfolding pg_order_Get_def using None
      by (auto intro!: runs_bind [of _ _ "Inl ErrNoRows"] runs_return simp: order_Get_def abs_orders_def)
  next
    case (Some r)
    then have q: "runs (sql_query_row env [i] (\<lambda>d. filter (\<lambda>r. ord_id r = i) (t_orders d))) d (Inr r) d"
      using rows assms by (intro runs_query_row) simp_all
    have i: "ord_id r = i" using row_with_Some [OF Some] by simp
    show ?thesis
      unfolding pg_order_Get_def
      by (rule runs_bind [OF q], simp add: i, rule runs_bind [OF loadItems_runs [OF assms(1,2)]])
        (simp add: runs_return order_Get_def abs_orders_def Some)
  qed
qed

lemma scan_orders_runs:
  assumes "quiet_pg env" and "list_all (pg_text \<circ> ord_id) rows"
  shows "runs (scan_orders env rows) d (Inr (map (\<lambda>r. scan_order r (stored_items (pg_collate env) d (ord_id r))) rows)) d"
  using assms(2)
proof (induction rows)
  case Nil
  then show ?case by (simp add: runs_return)
next
  case (Cons r rows)
  let ?scan = "\<lambda>r. scan_order r (stored_items (pg_collate env) d (ord_id r))"
  from Cons have load: "runs (pg_loadItems env (ord_id r)) d (Inr (stored_items (pg_collate env) d (ord_id r))) d"
    and rest: "runs (scan_orders env rows) d (Inr (map ?scan rows)) d"
    by (auto intro: loadItems_runs [OF assms(1)])
  show ?case by (simp, rule runs_bind [OF load], simp, rule runs_bind [OF rest]) (simp add: runs_return)
qed

text \<open>The rows in the order of the table are one of the orders in which the map can be visited.\<close>

lemma range_order_abs: "wf_pg_orders d \<Longrightarrow> range_order (abs_orders lt d) (map ord_id (t_orders d))"
  by (simp add: range_order_def dom_abs_orders wf_pg_orders_def)

lemma range_vals_abs:
  assumes "wf_pg_orders d"
  shows "range_vals (abs_orders lt d) (map ord_id (t_orders d))
    = map (\<lambda>r. scan_order r (stored_items lt d (ord_id r))) (t_orders d)"
  using assms by (intro range_vals_rows) (simp add: abs_orders_def row_with_mem wf_pg_orders_def)

lemma ListByCustomer_runs:
  assumes "quiet_pg env" and "pg_text c" and "wf_pg_orders d" and "pg_collate env = (<)"
    and "range_order (abs_orders (<) d) ks"
  shows "runs (pg_order_ListByCustomer env c max_n) d (order_ListByCustomer ks c max_n (abs_orders (<) d)) d"
proof -
  let ?scan = "\<lambda>r. scan_order r (stored_items (<) d (ord_id r))"
  let ?rows = "select_orders_by_customer (<) c max_n d"
  have "set ?rows \<subseteq> set (t_orders d)"
    by (auto simp: select_orders_by_customer_def Let_def insertion.srt_set dest!: in_set_takeD)
  then have texts: "list_all (pg_text \<circ> ord_id) ?rows" using assms(3) by (auto simp: wf_pg_orders_def list_all_iff)
  have "map ?scan (sort_slice (order_row_before (<)) (filter (\<lambda>r. ord_customer_id r = c) (t_orders d)))
      = customer_orders ks c (abs_orders (<) d)"
    unfolding customer_orders_unique [OF wf_abs_orders range_order_abs [OF assms(3)] assms(5)]
    unfolding customer_orders_def range_vals_abs [OF assms(3)]
    by (subst map_sort_slice [where lt' = order_newer]) (auto simp: order_row_before_def order_newer_def scan_order_def filter_map comp_def)
  then have rows: "Inr (map ?scan ?rows) = order_ListByCustomer ks c max_n (abs_orders (<) d)"
    by (simp add: order_ListByCustomer_eq select_orders_by_customer_def Let_def flip: take_map)
  show ?thesis
    unfolding pg_order_ListByCustomer_def rows [symmetric] assms(4)
    by (rule runs_bind [OF runs_query [OF assms(1)]], simp add: assms(2), simp,
        rule runs_bind [OF scan_orders_runs [OF assms(1) texts]], simp add: assms(4),
        rule runs_bind [OF runs_rows_err [OF assms(1)]]) (simp add: runs_return)
qed

section \<open>Saving\<close>

definition saved_tables :: "Order \<Rightarrow> pg_tables \<Rightarrow> pg_tables" where
  "saved_tables o1 d = d\<lparr>t_orders := snd (update_rows (\<lambda>r. ord_id r = ID o1 \<and> ord_version r = Version o1)
     (\<lambda>r. r\<lparr>ord_customer_id := CustomerID o1, ord_status := Status o1, ord_currency := Currency o1,
            ord_amount_minor := AmountMinor o1, ord_version := ord_version r + 1,
            ord_updated_at := pg_time (UpdatedAt o1)\<rparr>) (t_orders d))\<rparr>"

lemma update_order_eq:
  assumes "wf_pg_orders d"
  shows "update_order o1 d = Inr (case row_with ord_id (t_orders d) (ID o1) of
      Some r \<Rightarrow> if ord_version r = Version o1 then 1 else 0 | None \<Rightarrow> 0, saved_tables o1 d)"
  using update_count [of ord_id "t_orders d" "ID o1" "\<lambda>r. ord_version r = Version o1"] assms
  by (simp add: update_order_def saved_tables_def split_beta wf_pg_orders_def)

lemma saved_stale:
  assumes "wf_pg_orders d" and "\<And>r. row_with ord_id (t_orders d) (ID o1) = Some r \<Longrightarrow> ord_version r \<noteq> Version o1"
  shows "saved_tables o1 d = d"
proof -
  have "\<not> (ord_id r = ID o1 \<and> ord_version r = Version o1)" if "r \<in> set (t_orders d)" for r
    using assms row_with_mem [OF _ that, of ord_id] by (auto simp: wf_pg_orders_def)
  then have "map (\<lambda>r. if ord_id r = ID o1 \<and> ord_version r = Version o1 then f r else r) (t_orders d) = t_orders d" for f
    by (intro map_idI) auto
  then show ?thesis by (simp add: saved_tables_def update_rows_def)
qed

lemma abs_saved:
  assumes "wf_pg_orders d" and "row_with ord_id (t_orders d) (ID o1) = Some r" and "ord_version r = Version o1"
  shows "abs_orders lt (saved_tables o1 d) = (abs_orders lt d)(ID o1 \<mapsto>
    (norm_order lt o1)\<lparr>Version := Version o1 + 1, CreatedAt := ord_created_at r, Items := stored_items lt d (ID o1)\<rparr>)"
proof
  fix i
  have items: "stored_items lt (saved_tables o1 d) i = stored_items lt d i"
    by (simp add: stored_items_def select_items_def saved_tables_def)
  show "abs_orders lt (saved_tables o1 d) i = ((abs_orders lt d)(ID o1 \<mapsto>
      (norm_order lt o1)\<lparr>Version := Version o1 + 1, CreatedAt := ord_created_at r, Items := stored_items lt d (ID o1)\<rparr>)) i"
    using assms row_with_Some [OF assms(2)]
    by (auto simp: abs_orders_def items) (auto simp: saved_tables_def row_with_update wf_pg_orders_def norm_order_def scan_order_def
        split: option.split)
qed

lemma wf_saved: "wf_pg_orders d \<Longrightarrow> wf_pg_orders (saved_tables o1 d)"
proof -
  assume wf: "wf_pg_orders d"
  have ids: "map ord_id (t_orders (saved_tables o1 d)) = map ord_id (t_orders d)"
    unfolding saved_tables_def by (simp add: map_key_update)
  have items: "t_order_items (saved_tables o1 d) = t_order_items d" by (simp add: saved_tables_def)
  show ?thesis using wf unfolding wf_pg_orders_def ids items .
qed

lemma exists_runs:
  assumes "quiet_pg env" and "pg_text i"
  shows "runs (orderExistsTx env i) d (Inr (i \<in> set (map ord_id (t_orders d)))) d"
proof (cases "i \<in> set (map ord_id (t_orders d))")
  case True
  then obtain r rs where "filter (\<lambda>r. ord_id r = i) (t_orders d) = r # rs"
    by (cases "filter (\<lambda>r. ord_id r = i) (t_orders d)") (auto simp: filter_empty_conv)
  then have "runs (sql_query_row env [i] (\<lambda>d. map ord_id (filter (\<lambda>r. ord_id r = i) (t_orders d)))) d (Inr (ord_id r)) d"
    using assms by (intro runs_query_row) simp_all
  then show ?thesis unfolding orderExistsTx_def by (rule runs_bind) (use True in \<open>simp add: runs_return\<close>)
next
  case False
  then have "runs (sql_query_row env [i] (\<lambda>d. map ord_id (filter (\<lambda>r. ord_id r = i) (t_orders d)))) d (Inl ErrNoRows) d"
    using assms by (intro runs_query_row) (auto simp: filter_empty_conv)
  then show ?thesis unfolding orderExistsTx_def by (rule runs_bind) (use False in \<open>simp add: runs_return\<close>)
qed

lemma Save_runs:
  assumes "quiet_pg env" and "storable o1" and "wf_pg_orders d"
    and "\<And>c. abs_orders (pg_collate env) d (ID o1) = Some c \<Longrightarrow>
      Items c = Items (norm_order (pg_collate env) o1) \<and> CreatedAt c = CreatedAt (norm_order (pg_collate env) o1)"
  shows "\<exists>d'. runs (pg_order_Save env o1) d (fst (order_Save (norm_order (pg_collate env) o1) (abs_orders (pg_collate env) d))) d'
    \<and> abs_orders (pg_collate env) d' = snd (order_Save (norm_order (pg_collate env) o1) (abs_orders (pg_collate env) d))
    \<and> wf_pg_orders d' \<and> t_order_items d' = t_order_items d"
proof -
  let ?lt = "pg_collate env" and ?row = "row_with ord_id (t_orders d) (ID o1)"
  let ?n = "case ?row of Some r \<Rightarrow> if ord_version r = Version o1 then 1 else (0::int) | None \<Rightarrow> 0"
  have upd: "runs (sql_exec env [CustomerID o1, OrderStatus_string (Status o1), Currency o1, ID o1] (update_order o1)) d
      (Inr ?n) (saved_tables o1 d)"
    using assms(1,2) update_order_eq [OF assms(3)] by (intro runs_exec) (simp_all add: storable_def)
  show ?thesis
  proof (cases "\<exists>r. ?row = Some r \<and> ord_version r = Version o1")
    case True
    then obtain r where r: "?row = Some r" "ord_version r = Version o1" by blast
    have c: "abs_orders ?lt d (ID o1) = Some (scan_order r (stored_items ?lt d (ID o1)))" by (simp add: abs_orders_def r)
    have eqs: "ord_created_at r = pg_time (CreatedAt o1)"
        "stored_items ?lt d (ID o1) = sort_slice (order_item_before ?lt) (map norm_item (Items o1))"
      using assms(4) [OF c] by (simp_all add: scan_order_def norm_order_def)
    have "(norm_order ?lt o1)\<lparr>Version := Version o1 + 1, CreatedAt := ord_created_at r, Items := stored_items ?lt d (ID o1)\<rparr>
        = (norm_order ?lt o1)\<lparr>Version := Version o1 + 1\<rparr>" by (simp add: norm_order_def eqs)
    then have "order_Save (norm_order ?lt o1) (abs_orders ?lt d) = (None, abs_orders ?lt (saved_tables o1 d))"
      unfolding abs_saved [OF assms(3) r] using c r(2) by (simp add: order_Save_def scan_order_def)
    moreover have "runs (pg_order_Save env o1) d None (saved_tables o1 d)"
      unfolding pg_order_Save_def
      by (rule runs_bind [OF runs_begin [OF assms(1)]], simp, rule runs_bind [OF upd], simp add: r,
          rule runs_bind [OF runs_commit [OF assms(1)]]) (simp add: runs_return)
    ultimately show ?thesis using wf_saved [OF assms(3), of o1] by (auto simp: saved_tables_def)
  next
    case False
    then have same: "saved_tables o1 d = d" using saved_stale [OF assms(3)] by blast
    have n: "?n = 0" using False by (auto split: option.split)
    have "pg_text (ID o1)" using assms(2) by (simp add: storable_def)
    note ex = exists_runs [OF assms(1) this, of d]
    define err where "err = (if ID o1 \<in> set (map ord_id (t_orders d)) then E ErrOrderVersionConflict else E ErrOrderNotFound)"
    have "runs (pg_order_Save env o1) d (Some err) d"
      unfolding pg_order_Save_def
      by (rule runs_bind [OF runs_begin [OF assms(1)]], simp, rule runs_bind [OF upd [unfolded same n]], simp,
          rule runs_bind [OF ex], rule runs_bind [OF runs_rollback]) (auto simp: err_def intro!: runs_return)
    moreover have "order_Save (norm_order ?lt o1) (abs_orders ?lt d) = (Some err, abs_orders ?lt d)"
      using False row_with_None [of ord_id "t_orders d" "ID o1"]
      by (auto simp: err_def order_Save_def abs_orders_def scan_order_def split: option.split)
    ultimately show ?thesis using assms(3) by auto
  qed
qed

section \<open>Histories of calls\<close>

datatype order_call = CallCreate Order | CallGet string | CallList string int | CallSave Order

datatype order_answer = Done "error option" | Got "error + Order" | Listed "error + Order list"

definition pg_call :: "'s pg_env \<Rightarrow> order_call \<Rightarrow> ('s, order_answer) pg_prog" where
  "pg_call env c =
     (case c of
        CallCreate o1 \<Rightarrow> do { e \<leftarrow> pg_order_Create env o1; return (Done e) }
      | CallGet i \<Rightarrow> do { r \<leftarrow> pg_order_Get env i; return (Got r) }
      | CallList c n \<Rightarrow> do { r \<leftarrow> pg_order_ListByCustomer env c n; return (Listed r) }
      | CallSave o1 \<Rightarrow> do { e \<leftarrow> pg_order_Save env o1; return (Done e) })"

fun pg_calls :: "'s pg_env \<Rightarrow> order_call list \<Rightarrow> ('s, order_answer list) pg_prog" where
  "pg_calls env [] = return []"
| "pg_calls env (c # cs) = do { a \<leftarrow> pg_call env c; as \<leftarrow> pg_calls env cs; return (a # as) }"

text \<open>The same call on the memory repository, with what the tables keep of its order.\<close>

definition mem_call :: "string list \<Rightarrow> order_call \<Rightarrow> order_repo \<Rightarrow> order_answer \<times> order_repo" where
  "mem_call ks c r =
     (case c of
        CallCreate o1 \<Rightarrow> (case order_Create (norm_order (<) o1) r of (e, r') \<Rightarrow> (Done e, r'))
      | CallGet i \<Rightarrow> (Got (order_Get i r), r)
      | CallList c n \<Rightarrow> (Listed (order_ListByCustomer ks c n r), r)
      | CallSave o1 \<Rightarrow> (case order_Save (norm_order (<) o1) r of (e, r') \<Rightarrow> (Done e, r')))"

text \<open>A call that the tables can represent: its texts are valid; a new order brings new identifiers for its items; a
  saved order has the items and the time of creation it was created with.\<close>

definition admissible :: "order_call \<Rightarrow> order_repo \<Rightarrow> bool" where
  "admissible c r \<longleftrightarrow>
     (case c of
        CallCreate o1 \<Rightarrow> storable o1 \<and> distinct (map item_ID (Items o1))
          \<and> (\<forall>o2 \<in> ran r. set (map item_ID (Items o1)) \<inter> set (map item_ID (Items o2)) = {})
      | CallGet i \<Rightarrow> pg_text i
      | CallList c n \<Rightarrow> pg_text c
      | CallSave o1 \<Rightarrow> storable o1 \<and> (\<forall>c. r (ID o1) = Some c \<longrightarrow>
          Items c = Items (norm_order (<) o1) \<and> CreatedAt c = CreatedAt (norm_order (<) o1)))"

fun all_admissible :: "order_call list \<Rightarrow> order_repo \<Rightarrow> bool" where
  "all_admissible [] r = True"
| "all_admissible (c # cs) r \<longleftrightarrow> admissible c r \<and> all_admissible cs (snd (mem_call [] c r))"

text \<open>The answers of the memory repository, in whatever order it visits its map.\<close>

fun mem_answers :: "order_call list \<Rightarrow> order_repo \<Rightarrow> order_answer list \<Rightarrow> bool" where
  "mem_answers [] r as \<longleftrightarrow> as = []"
| "mem_answers (c # cs) r as \<longleftrightarrow> (\<exists>a as'. as = a # as' \<and> (\<forall>ks. range_order r ks \<longrightarrow> a = fst (mem_call ks c r))
     \<and> mem_answers cs (snd (mem_call [] c r)) as')"

lemma fresh_items:
  assumes "wf_pg_orders d" and "\<forall>o2 \<in> ran (abs_orders lt d). X \<inter> set (map item_ID (Items o2)) = {}"
  shows "X \<inter> set (map itm_id (t_order_items d)) = {}"
proof (rule ccontr)
  assume "X \<inter> set (map itm_id (t_order_items d)) \<noteq> {}"
  then obtain r where r: "r \<in> set (t_order_items d)" "itm_id r \<in> X" by auto
  then have "itm_order_id r \<in> dom (abs_orders lt d)"
    using assms(1) unfolding dom_abs_orders wf_pg_orders_def by (simp add: list_all_iff)
  then obtain o2 where o2: "abs_orders lt d (itm_order_id r) = Some o2" by auto
  have "scan_item r \<in> set (stored_items lt d (itm_order_id r))"
    using r(1) by (simp add: stored_items_eq insertion.srt_set)
  then have "itm_id r \<in> set (map item_ID (Items o2))"
    using o2 by (auto simp: abs_orders_def scan_order_def scan_item_def rev_image_eqI split: option.splits)
  then show False using assms(2) o2 r(2) by (auto simp: ran_def)
qed

lemma pg_call_refines:
  assumes "quiet_pg env" and "pg_collate env = (<)" and "wf_pg_orders d" and "admissible c (abs_orders (<) d)"
  obtains a d' where "runs (pg_call env c) d a d'" "wf_pg_orders d'"
    "\<And>ks. range_order (abs_orders (<) d) ks \<Longrightarrow> a = fst (mem_call ks c (abs_orders (<) d))"
    "abs_orders (<) d' = snd (mem_call [] c (abs_orders (<) d))"
proof (cases c)
  case (CallCreate o1)
  let ?r = "abs_orders (<) d"
  have c: "storable o1" "distinct (map item_ID (Items o1))" "set (map item_ID (Items o1)) \<inter> set (map itm_id (t_order_items d)) = {}"
    using assms(4) fresh_items [OF assms(3), of "(<)" "set (map item_ID (Items o1))"] by (simp_all add: admissible_def CallCreate)
  show ?thesis
  proof (cases "ID o1 \<in> set (map ord_id (t_orders d))")
    case True
    then obtain o2 where "?r (ID o1) = Some o2" using dom_abs_orders by (metis domD)
    then have "order_Create (norm_order (<) o1) ?r = (Some (E ErrOrderVersionConflict), ?r)" by (simp add: order_Create_def)
    then show ?thesis
      using that [OF _ assms(3)] runs_bind [OF Create_runs_existing [OF assms(1) c(1) True] runs_return]
      by (fastforce simp: pg_call_def mem_call_def CallCreate)
  next
    case False
    then have "?r (ID o1) = None" using dom_abs_orders by (metis domIff)
    then have "order_Create (norm_order (<) o1) ?r = (None, abs_orders (<) (created_tables o1 d))"
      by (simp add: order_Create_def abs_created [OF assms(3) False])
    moreover have "wf_pg_orders (created_tables o1 d)"
      using c by (intro wf_created [OF assms(3) _ False]) (simp_all add: storable_def)
    ultimately show ?thesis
      using that runs_bind [OF Create_runs_new [OF assms(1) c(1) False c(2,3)] runs_return]
      by (fastforce simp: pg_call_def mem_call_def CallCreate)
  qed
next
  case (CallGet i)
  then have "pg_text i" using assms(4) by (simp add: admissible_def)
  then show ?thesis
    using that [OF _ assms(3)] runs_bind [OF Get_runs [OF assms(1) _ assms(3)] runs_return] assms(2)
    by (fastforce simp: pg_call_def mem_call_def CallGet)
next
  case (CallList i n)
  then have t: "pg_text i" using assms(4) by (simp add: admissible_def)
  note list = ListByCustomer_runs [OF assms(1) t assms(3,2)]
  have same: "order_ListByCustomer ks i n (abs_orders (<) d) = order_ListByCustomer (map ord_id (t_orders d)) i n (abs_orders (<) d)"
    if "range_order (abs_orders (<) d) ks" for ks
    using customer_orders_unique [OF wf_abs_orders range_order_abs [OF assms(3)] that] by (simp add: order_ListByCustomer_eq)
  show ?thesis
    using that [OF _ assms(3)] runs_bind [OF list [OF range_order_abs [OF assms(3)]] runs_return] same
    by (fastforce simp: pg_call_def mem_call_def CallList)
next
  case (CallSave o1)
  have "storable o1" and "\<And>c. abs_orders (<) d (ID o1) = Some c \<Longrightarrow>
      Items c = Items (norm_order (<) o1) \<and> CreatedAt c = CreatedAt (norm_order (<) o1)"
    using assms(4) by (simp_all add: admissible_def CallSave)
  from Save_runs [OF assms(1) this(1) assms(3), unfolded assms(2), OF this(2)]
  obtain d' where d': "runs (pg_order_Save env o1) d (fst (order_Save (norm_order (<) o1) (abs_orders (<) d))) d'"
    "abs_orders (<) d' = snd (order_Save (norm_order (<) o1) (abs_orders (<) d))" "wf_pg_orders d'" by blast
  show ?thesis
    using that [OF _ d'(3)] runs_bind [OF d'(1) runs_return] d'(2)
    by (fastforce simp: pg_call_def mem_call_def CallSave split_beta)
qed

text \<open>The two repositories disagree on a \<open>Save\<close> with other items or another time of creation: the statement of the
  PostgreSQL repository has neither, while the memory repository stores its argument.\<close>

lemma pg_save_ignores_items:
  shows "pg_order_Save env (o1\<lparr>Items := xs, CreatedAt := t\<rparr>) = pg_order_Save env o1"
    and "order_Save (o1\<lparr>Items := xs, CreatedAt := t\<rparr>) [ID o1 \<mapsto> o1]
     = (None, [ID o1 \<mapsto> o1\<lparr>Items := xs, CreatedAt := t, Version := Version o1 + 1\<rparr>])"
proof -
  define o2 where "o2 = o1\<lparr>Items := xs, CreatedAt := t\<rparr>"
  have "update_order o2 = update_order o1" by (rule ext) (simp add: update_order_def o2_def)
  moreover have "CustomerID o2 = CustomerID o1" "Status o2 = Status o1" "Currency o2 = Currency o1" "ID o2 = ID o1"
    by (simp_all add: o2_def)
  ultimately show "pg_order_Save env (o1\<lparr>Items := xs, CreatedAt := t\<rparr>) = pg_order_Save env o1"
    by (simp only: pg_order_Save_def flip: o2_def)
qed (simp add: order_Save_def)

text \<open>C16. The PostgreSQL order repository refines the memory repository for the calls on which the two can agree: on a
  server without faults whose texts sort by their bytes (the C collation), a sequence of calls that run one after another
  gets the answers of the memory repository and leaves tables that represent its map, times to the microsecond and items
  in the order of their time and identifier, provided that the texts of the calls can be stored, that the items of a
  created order have identifiers which no stored item has, and that \<open>Save\<close> of a stored order keeps its items and its
  time of creation, as every \<open>Save\<close> of the saga does. (On other saves the repositories disagree,
  \<open>pg_save_ignores_items\<close>.) In particular the version check of \<open>Save\<close> works as in memory.\<close>

theorem pg_orders_refine_memory:
  assumes "quiet_pg env" and "pg_collate env = (<)" and "wf_pg_orders d" and "all_admissible calls (abs_orders (<) d)"
  shows "\<exists>answers d'. runs (pg_calls env calls) d answers d' \<and> mem_answers calls (abs_orders (<) d) answers
    \<and> wf_pg_orders d' \<and> abs_orders (<) d' = fold (\<lambda>c r. snd (mem_call [] c r)) calls (abs_orders (<) d)"
  using assms(3,4)
proof (induction calls arbitrary: d)
  case Nil
  then show ?case by (auto intro: runs_return)
next
  case (Cons c calls)
  then have adm: "admissible c (abs_orders (<) d)" by simp
  obtain a d1 where one: "runs (pg_call env c) d a d1" "wf_pg_orders d1"
      "\<And>ks. range_order (abs_orders (<) d) ks \<Longrightarrow> a = fst (mem_call ks c (abs_orders (<) d))"
      "abs_orders (<) d1 = snd (mem_call [] c (abs_orders (<) d))"
    using pg_call_refines [OF assms(1,2) Cons.prems(1) adm] by blast
  have "all_admissible calls (abs_orders (<) d1)" using Cons.prems(2) one(4) by simp
  from Cons.IH [OF one(2) this] obtain as d' where rest: "runs (pg_calls env calls) d1 as d'"
      "mem_answers calls (abs_orders (<) d1) as" "wf_pg_orders d'"
      "abs_orders (<) d' = fold (\<lambda>c r. snd (mem_call [] c r)) calls (abs_orders (<) d1)" by blast
  have "runs (pg_calls env (c # calls)) d (a # as) d'"
    by (simp, rule runs_bind [OF one(1)], rule runs_bind [OF rest(1)], rule runs_return)
  moreover have "mem_answers (c # calls) (abs_orders (<) d) (a # as)" using one(3,4) rest(2) by simp
  ultimately show ?case using one(4) rest(3,4) 
    by (intro exI [of _ "a # as"] exI [of _ d']) (simp del: mem_answers.simps pg_calls.simps)
qed

lemma example_order_storable: "list_all storable (map (\<lambda>st. example_order ''o1'' st v t) [OrderStatusPending, OrderStatusReserved])"
proof -
  have "list_all pg_text [''o1'', ''customer-1'', ''pending'', ''reserved'', ''USD'', ''item-1'', ''sku-1'']" by code_simp
  then show ?thesis by (simp add: storable_def example_order_def)
qed

lemma empty_tables_orders: "wf_pg_orders empty_tables" "abs_orders lt empty_tables = Map.empty"
  by (simp_all add: wf_pg_orders_def abs_orders_def empty_tables_def fun_eq_iff)

theorem pg_orders_refine_memory_witness:
  "\<exists>answers d'. runs (pg_calls calm_pg [CallCreate (example_order ''o1'' OrderStatusPending 0 5),
        CallSave (example_order ''o1'' OrderStatusReserved 0 5), CallGet ''o1'']) empty_tables answers d'
    \<and> answers = [Done None, Done None, Got (Inr (norm_order (<) (example_order ''o1'' OrderStatusReserved 1 5)))]"
proof -
  let ?p = "example_order ''o1'' OrderStatusPending 0 5" and ?r = "example_order ''o1'' OrderStatusReserved 0 5"
  let ?calls = "[CallCreate ?p, CallSave ?r, CallGet ''o1'']"
  have o1_text: "pg_text ''o1''" by code_simp
  have "all_admissible ?calls Map.empty"
    using o1_text example_order_storable [of 0 5]
    by (simp add: admissible_def mem_call_def order_Create_def order_Save_def norm_order_def) (simp add: example_order_def)
  then have adm: "all_admissible ?calls (abs_orders (<) empty_tables)" by (simp add: empty_tables_orders(2))
  have ks: "range_order Map.empty []" "range_order [''o1'' \<mapsto> x] [''o1'']" for x :: Order by (simp_all add: range_order_def)
  have ids: "ID ?p = ''o1''" "ID ?r = ''o1''" "Version ?p = 0" "Version ?r = 0"
      "(norm_order (<) ?r)\<lparr>Version := 1\<rparr> = norm_order (<) (example_order ''o1'' OrderStatusReserved 1 5)"
    by (simp_all add: example_order_def norm_order_def)
  obtain answers d' where run: "runs (pg_calls calm_pg ?calls) empty_tables answers d'" "mem_answers ?calls Map.empty answers"
    using pg_orders_refine_memory [OF calm_pg_quiet empty_tables_orders(1) adm] unfolding empty_tables_orders(2) by blast
  have "answers = [Done None, Done None, Got (Inr (norm_order (<) (example_order ''o1'' OrderStatusReserved 1 5)))]"
    using run(2) ks by (auto simp: mem_call_def order_Create_def order_Save_def order_Get_def ids)
  then show ?thesis using run(1) by blast
qed

section \<open>Faults\<close>

lemma insert_items_leaves:
  "leaves (insert_items env i items) d (\<lambda>r d'. r = None \<longrightarrow> d' = d\<lparr>t_order_items := t_order_items d @ map (item_row i) items\<rparr>)"
proof (induction items arbitrary: d)
  case Nil
  then show ?case by (simp add: leaves_return)
next
  case (Cons it items)
  show ?case unfolding insert_items.simps
  proof (rule leaves_bind [OF leaves_exec], rule leaves_sum)
    fix res d1 u
    assume "case res of Inl _ \<Rightarrow> d1 = d | Inr a \<Rightarrow> insert_item i it d = Inr (a, d1) \<and> list_all pg_text [item_ID it, i, SKU it]"
      and "res = Inr u"
    then have "d1 = d\<lparr>t_order_items := t_order_items d @ [item_row i it]\<rparr>"
      by (auto simp: insert_item_def insert_row_def item_row_def split: if_splits)
    then show "leaves (insert_items env i items) d1
        (\<lambda>r d'. r = None \<longrightarrow> d' = d\<lparr>t_order_items := t_order_items d @ map (item_row i) (it # items)\<rparr>)"
      using Cons.IH [of d1] by simp
  qed (simp add: leaves_return)
qed

lemma Create_leaves: "leaves (pg_order_Create env o1) d (all_or_nothing ''commit create order'' d (created_tables o1 d))"
  unfolding pg_order_Create_def
proof (rule begin_leaves, rule leaves_bind [OF leaves_exec], rule leaves_sum)
  fix res d1 and u :: unit
  assume "case res of Inl _ \<Rightarrow> d1 = d | Inr a \<Rightarrow> insert_order o1 d = Inr (a, d1)
      \<and> list_all pg_text [ID o1, CustomerID o1, OrderStatus_string (Status o1), Currency o1]" and "res = Inr u"
  then have d1: "d1\<lparr>t_order_items := t_order_items d1 @ map (item_row (ID o1)) (Items o1)\<rparr> = created_tables o1 d"
    by (auto simp: insert_order_cases created_tables_def split: if_splits)
  show "leaves (do {
      res \<leftarrow> insert_items env (ID o1) (Items o1);
      (case res of
         None \<Rightarrow> do {
           err \<leftarrow> sql_commit env d;
           (case err of Some err \<Rightarrow> return (Some (Wrapped ''commit create order'' err)) | None \<Rightarrow> return None)
         }
       | Some err \<Rightarrow> do {
           _ \<leftarrow> sql_rollback d;
           return (Some (Wrapped ''insert order item'' (sql_error err)))
         }) }) d1 (all_or_nothing ''commit create order'' d (created_tables o1 d))"
    by (rule leaves_bind [OF insert_items_leaves], rule leaves_option) (auto simp: d1 intro: commit_leaves rollback_leaves)
qed (rule rollback_leaves)

lemma exists_leaves: "leaves (orderExistsTx env i) d (\<lambda>_ d'. d' = d)"
  unfolding orderExistsTx_def by (rule leaves_bind [OF leaves_query_row]) (auto intro: leaves_return)

lemma Save_leaves: "leaves (pg_order_Save env o1) d (all_or_nothing ''commit save order'' d (saved_tables o1 d))"
  unfolding pg_order_Save_def
proof (rule begin_leaves, rule leaves_bind [OF leaves_exec], rule leaves_sum)
  fix res d1 and n :: int
  assume "case res of Inl _ \<Rightarrow> d1 = d | Inr a \<Rightarrow> update_order o1 d = Inr (a, d1)
      \<and> list_all pg_text [CustomerID o1, OrderStatus_string (Status o1), Currency o1, ID o1]" and "res = Inr n"
  then have d1: "d1 = saved_tables o1 d" by (simp add: update_order_def saved_tables_def split_beta)
  show "leaves (if n = 0 then do {
        exists \<leftarrow> orderExistsTx env (ID o1);
        _ \<leftarrow> sql_rollback d;
        return (Some (case exists of Inl err \<Rightarrow> err | Inr b \<Rightarrow> if b then E ErrOrderVersionConflict else E ErrOrderNotFound))
      }
      else do {
        err \<leftarrow> sql_commit env d;
        (case err of Some err \<Rightarrow> return (Some (Wrapped ''commit save order'' err)) | None \<Rightarrow> return None)
      }) d1 (all_or_nothing ''commit save order'' d (saved_tables o1 d))"
    unfolding d1 by (rule leaves_if, rule leaves_bind [OF exists_leaves]) (rule rollback_leaves commit_leaves)+
qed (rule rollback_leaves)

text \<open>C17. The writes are atomic whatever fails: \<open>Create\<close> and \<open>Save\<close>, with the connection failing at any statement, leave
  either the tables they found, and then return an error, or the tables with the complete change. An error in the second
  case is that of a commit whose answer was lost; the caller cannot tell it from a commit that failed.\<close>

theorem pg_order_writes_atomic:
  "(case run_state (pg_order_Create env o1) w of (r, w') \<Rightarrow>
      all_or_nothing ''commit create order'' (pg_db w) (created_tables o1 (pg_db w)) r (pg_db w'))
   \<and> (case run_state (pg_order_Save env o1) w of (r, w') \<Rightarrow>
      all_or_nothing ''commit save order'' (pg_db w) (saved_tables o1 (pg_db w)) r (pg_db w'))"
  using Create_leaves [of env o1 "pg_db w"] Save_leaves [of env o1 "pg_db w"]
  by (auto simp: leaves_def ensures_def split: prod.splits)

end
