(* ===== verification/Pg_Outbox.thy ===== *)
theory Pg_Outbox
  imports Pg_Orders
begin

text \<open>
  \<open>internal/storage/postgres/outbox_repository.go\<close> and its refinement of the memory outbox: on a server without faults
  every method does at the time \<open>pg_time now\<close> what the memory outbox does there.

  A nil payload would be NULL and refused by the table; in the model a payload is a byte string, as \<open>json.Marshal\<close>
  yields it. \<open>FOR UPDATE SKIP LOCKED\<close> skips nothing, since a statement runs alone.
\<close>

section \<open>Statements\<close>

definition insert_outbox :: "OutboxMessage \<Rightarrow> gotime \<Rightarrow> pg_tables \<Rightarrow> sqlerr + unit \<times> pg_tables" where
  "insert_outbox m now d =
     (case insert_row out_id
        \<lparr>out_id = msg_ID m, out_aggregate_type = AggregateType m, out_aggregate_id = AggregateID m,
         out_event_type = EventType m, out_payload = Payload m, out_status = OutboxPending, out_attempt_count = 0,
         out_created_at = pg_time now, out_updated_at = pg_time now\<rparr> (t_outbox_messages d) of
        Inl e \<Rightarrow> Inl e
      | Inr rows \<Rightarrow> Inr ((), d\<lparr>t_outbox_messages := rows\<rparr>))"

definition outbox_row_before :: "(string \<Rightarrow> string \<Rightarrow> bool) \<Rightarrow> outbox_messages_row \<Rightarrow> outbox_messages_row \<Rightarrow> bool" where
  "outbox_row_before lt a b = (if out_created_at a \<noteq> out_created_at b then out_created_at a < out_created_at b
     else lt (out_id a) (out_id b))"

definition row_claimable :: "gotime \<Rightarrow> outbox_messages_row \<Rightarrow> bool" where
  "row_claimable staleBefore r \<longleftrightarrow>
     out_status r = OutboxPending \<or> (out_status r = OutboxProcessing \<and> out_updated_at r \<le> pg_time staleBefore)"

definition claim_outbox ::
  "(string \<Rightarrow> string \<Rightarrow> bool) \<Rightarrow> int \<Rightarrow> gotime \<Rightarrow> gotime \<Rightarrow> pg_tables \<Rightarrow> sqlerr + outbox_messages_row list \<times> pg_tables" where
  "claim_outbox lt max_n staleBefore now d =
     (let candidates = map out_id (take (nat max_n)
            (sort_slice (outbox_row_before lt) (filter (row_claimable staleBefore) (t_outbox_messages d))));
          rows = map (\<lambda>r. if out_id r \<in> set candidates
                          then r\<lparr>out_status := OutboxProcessing, out_updated_at := pg_time now\<rparr> else r) (t_outbox_messages d);
          claimed = filter (\<lambda>r. out_id r \<in> set candidates) rows
      in Inr (sort_slice (outbox_row_before lt) claimed, d\<lparr>t_outbox_messages := rows\<rparr>))"

definition outbox_stats_query :: "pg_tables \<Rightarrow> int \<times> gotime option" where
  "outbox_stats_query d =
     (let times = map out_created_at
            (filter (\<lambda>r. out_status r = OutboxPending \<or> out_status r = OutboxProcessing) (t_outbox_messages d))
      in (int (length times), if times = [] then None else Some (foldr min (tl times) (hd times))))"

definition update_outbox :: "string \<Rightarrow> OutboxStatus \<Rightarrow> gotime \<Rightarrow> pg_tables \<Rightarrow> sqlerr + int \<times> pg_tables" where
  "update_outbox i st now d =
     (let (affected, rows) = update_rows (\<lambda>r. out_id r = i)
        (\<lambda>r. r\<lparr>out_status := st, out_attempt_count := out_attempt_count r + 1, out_updated_at := pg_time now\<rparr>)
        (t_outbox_messages d)
      in Inr (affected, d\<lparr>t_outbox_messages := rows\<rparr>))"

section \<open>The repository\<close>

definition pg_Enqueue :: "'s pg_env \<Rightarrow> OutboxMessage \<Rightarrow> ('s, error + OutboxMessage) pg_prog" where
  "pg_Enqueue env m0 = do {
     m \<leftarrow> (if msg_ID m0 = [] then do { newid \<leftarrow> pg_ask (pg_uuid env); return (m0\<lparr>msg_ID := newid\<rparr>) } else return m0);
     now \<leftarrow> pg_ask (pg_now env);
     res \<leftarrow> sql_exec env [msg_ID m, AggregateType m, AggregateID m, EventType m] (insert_outbox m now);
     return (case res of
        Inl err \<Rightarrow> Inl (Wrapped ''enqueue outbox message'' (sql_error err))
      | Inr _ \<Rightarrow> Inr m)
   }"

definition scan_outbox :: "outbox_messages_row \<Rightarrow> OutboxMessage" where
  "scan_outbox r = \<lparr>msg_ID = out_id r, AggregateType = out_aggregate_type r, AggregateID = out_aggregate_id r,
     EventType = out_event_type r, Payload = out_payload r\<rparr>"

definition pg_PullPending :: "'s pg_env \<Rightarrow> int \<Rightarrow> ('s, error + OutboxMessage list) pg_prog" where
  "pg_PullPending env max_n0 = do {
     let max_n = (if max_n0 \<le> 0 then 100 else max_n0);
     now \<leftarrow> pg_ask (pg_now env);
     res \<leftarrow> sql_exec env [] (claim_outbox (pg_collate env) max_n (now - outboxProcessingLease) now);
     (case res of
        Inl err \<Rightarrow> return (Inl (Wrapped ''pull pending outbox messages'' (sql_error err)))
      | Inr rows \<Rightarrow> do {
          err \<leftarrow> rows_err env;
          return (case err of
             Some err \<Rightarrow> Inl (Wrapped ''iterate outbox rows'' err)
           | None \<Rightarrow> Inr (map scan_outbox rows))
        })
   }"

definition pg_Stats :: "'s pg_env \<Rightarrow> ('s, error + OutboxStats) pg_prog" where
  "pg_Stats env = do {
     res \<leftarrow> sql_query env [] outbox_stats_query;
     return (case res of
        Inl err \<Rightarrow> Inl (Wrapped ''outbox stats query failed'' (sql_error err))
      | Inr (n, oldest) \<Rightarrow> Inr \<lparr>PendingCount = n, OldestPendingAt = (case oldest of None \<Rightarrow> 0 | Some t \<Rightarrow> t)\<rparr>)
   }"

definition status_word :: "OutboxStatus \<Rightarrow> string" where
  "status_word st = (case st of OutboxPending \<Rightarrow> ''pending'' | OutboxProcessing \<Rightarrow> ''processing'' | OutboxSent \<Rightarrow> ''sent''
     | OutboxFailed \<Rightarrow> ''failed'')"

definition pg_outbox_mark :: "'s pg_env \<Rightarrow> OutboxStatus \<Rightarrow> string \<Rightarrow> ('s, error option) pg_prog" where
  "pg_outbox_mark env st i = do {
     now \<leftarrow> pg_ask (pg_now env);
     res \<leftarrow> sql_exec env [i, status_word st] (update_outbox i st now);
     return (case res of
        Inl err \<Rightarrow> Some (Wrapped (''mark outbox message as '' @ status_word st) (sql_error err))
      | Inr affected \<Rightarrow> if affected = 0 then Some (E ErrOutboxPublish) else None)
   }"

definition pg_MarkSent :: "'s pg_env \<Rightarrow> string \<Rightarrow> ('s, error option) pg_prog" where
  "pg_MarkSent env = pg_outbox_mark env OutboxSent"

definition pg_MarkFailed :: "'s pg_env \<Rightarrow> string \<Rightarrow> ('s, error option) pg_prog" where
  "pg_MarkFailed env = pg_outbox_mark env OutboxFailed"

section \<open>Refinement\<close>

definition outbox_record_of :: "outbox_messages_row \<Rightarrow> outboxRecord" where
  "outbox_record_of r = \<lparr>msg = scan_outbox r, status = out_status r, attemptCnt = out_attempt_count r,
     createdAt = out_created_at r, updatedAt = out_updated_at r\<rparr>"

definition abs_outbox :: "pg_tables \<Rightarrow> outbox_repo" where
  "abs_outbox d i = map_option outbox_record_of (row_with out_id (t_outbox_messages d) i)"

definition wf_pg_outbox :: "pg_tables \<Rightarrow> bool" where
  "wf_pg_outbox d \<longleftrightarrow> distinct (map out_id (t_outbox_messages d))
     \<and> list_all (\<lambda>r. pg_time (out_updated_at r) = out_updated_at r \<and> out_created_at r > 0) (t_outbox_messages d)"

text \<open>A server without faults whose clock shows \<open>now\<close>.\<close>

definition quiet_at :: "gotime \<Rightarrow> 's pg_env \<Rightarrow> bool" where
  "quiet_at now env \<longleftrightarrow> quiet_pg env \<and> (\<forall>s. fst (pg_now env s) = now)"

lemma quiet_atD: "quiet_at now env \<Longrightarrow> quiet_pg env" "quiet_at now env \<Longrightarrow> runs (pg_ask (pg_now env)) d now d"
  by (auto simp: quiet_at_def intro: runs_ask)

lemma pg_time_lease: "pg_time (now - outboxProcessingLease) = pg_time now - outboxProcessingLease"
proof -
  have "(now + (- 120000000) * 1000) div 1000 = - 120000000 + now div 1000" by (rule div_mult_self1) simp
  then have "(now - outboxProcessingLease) div 1000 = now div 1000 - 120000000" by (simp add: outboxProcessingLease_def)
  then show ?thesis by (simp add: pg_time_def outboxProcessingLease_def)
qed

lemma dom_abs_outbox: "dom (abs_outbox d) = set (map out_id (t_outbox_messages d))"
  using row_with_None [of out_id "t_outbox_messages d"] by (auto simp: abs_outbox_def dom_def)

lemma abs_outbox_mem:
  "wf_pg_outbox d \<Longrightarrow> r \<in> set (t_outbox_messages d) \<Longrightarrow> abs_outbox d (out_id r) = Some (outbox_record_of r)"
  by (simp add: abs_outbox_def row_with_mem wf_pg_outbox_def)

lemma range_order_outbox: "wf_pg_outbox d \<Longrightarrow> range_order (abs_outbox d) (map out_id (t_outbox_messages d))"
  by (simp add: range_order_def dom_abs_outbox wf_pg_outbox_def)

text \<open>The rows that the statement claims are those that the memory outbox claims.\<close>

definition pulled_rows :: "int \<Rightarrow> gotime \<Rightarrow> pg_tables \<Rightarrow> outbox_messages_row list" where
  "pulled_rows max_n now d = take (nat (if max_n \<le> 0 then 100 else max_n))
     (sort_slice (outbox_row_before (<)) (filter (row_claimable (now - outboxProcessingLease)) (t_outbox_messages d)))"

lemma outbox_row_before_weak: "weak_order (outbox_row_before (<))"
  by (auto simp: weak_order_def outbox_row_before_def split: if_splits)

lemma outbox_rows_total:
  "distinct (map out_id rows) \<Longrightarrow> x \<in> set rows \<Longrightarrow> y \<in> set rows \<Longrightarrow> x \<noteq> y
     \<Longrightarrow> outbox_row_before (<) x y \<or> outbox_row_before (<) y x"
  by (auto simp: outbox_row_before_def distinct_map) (metis inj_onD not_less_iff_gr_or_eq)

lemma pulled_selection:
  assumes "wf_pg_outbox d" and "range_order (abs_outbox d) ks"
  shows "map out_id (pulled_rows max_n now d) = pull_selection (pg_time now) ks max_n (abs_outbox d)"
proof -
  let ?rows = "t_outbox_messages d" and ?r = "abs_outbox d"
  have sorted: "map out_id (sort_slice (outbox_row_before (<)) ?rows) = sort_slice (outbox_before ?r) (map out_id ?rows)"
    by (rule map_sort_slice)
      (simp add: outbox_row_before_def outbox_before_def created_of_def abs_outbox_mem [OF assms(1)] outbox_record_of_def)
  have claim: "row_claimable (now - outboxProcessingLease) r \<longleftrightarrow> id_claimable (pg_time now) ?r (out_id r)"
    if "r \<in> set ?rows" for r
    using assms(1) that
    by (auto simp: row_claimable_def id_claimable_def abs_outbox_mem outbox_record_of_def claimable_def pg_time_lease)
  have "sort_slice (outbox_row_before (<)) (filter (row_claimable (now - outboxProcessingLease)) ?rows)
      = filter (row_claimable (now - outboxProcessingLease)) (sort_slice (outbox_row_before (<)) ?rows)"
    using assms(1) by (intro filter_sort_slice outbox_row_before_weak outbox_rows_total) (auto simp: wf_pg_outbox_def)
  also have "\<dots> = filter (id_claimable (pg_time now) ?r \<circ> out_id) (sort_slice (outbox_row_before (<)) ?rows)"
    using claim by (intro filter_cong) (simp_all add: insertion.srt_set)
  finally have "map out_id (pulled_rows max_n now d) = pull_selection (pg_time now) (map out_id ?rows) max_n ?r"
    by (simp add: pulled_rows_def pull_selection_def filter_map flip: sorted take_map)
  then show ?thesis using pull_selection_unique [OF range_order_outbox [OF assms(1)] assms(2)] by simp
qed

text \<open>What the statement returns and leaves.\<close>

lemma claimed_rows:
  fixes max_n now :: int
  assumes "wf_pg_outbox d"
  defines "rows' \<equiv> map (\<lambda>r. if out_id r \<in> set (map out_id (pulled_rows max_n now d))
      then r\<lparr>out_status := OutboxProcessing, out_updated_at := pg_time now\<rparr> else r) (t_outbox_messages d)"
  shows "map scan_outbox (sort_slice (outbox_row_before (<)) (filter (\<lambda>r. out_id r \<in> set (map out_id (pulled_rows max_n now d))) rows'))
    = map scan_outbox (pulled_rows max_n now d)"
proof -
  let ?ids = "set (map out_id (pulled_rows max_n now d))" and ?rows = "t_outbox_messages d"
  let ?f = "\<lambda>r. r\<lparr>out_status := OutboxProcessing, out_updated_at := pg_time now\<rparr>"
  have "filter (\<lambda>r. out_id r \<in> S) (map (\<lambda>r. if out_id r \<in> S then ?f r else r) rows) = map ?f (filter (\<lambda>r. out_id r \<in> S) rows)"
    for S rows by (induction rows) auto
  then have keep: "filter (\<lambda>r. out_id r \<in> ?ids) rows' = map ?f (filter (\<lambda>r. out_id r \<in> ?ids) ?rows)"
    unfolding rows'_def .
  have sub: "set (pulled_rows max_n now d) \<subseteq> set ?rows"
    by (auto simp: pulled_rows_def insertion.srt_set dest!: in_set_takeD)
  have inj: "distinct (map out_id ?rows)" using assms(1) by (simp add: wf_pg_outbox_def)
  have "sort_slice (outbox_row_before (<)) (filter (\<lambda>r. out_id r \<in> ?ids) ?rows) = pulled_rows max_n now d"
  proof (rule insertion.srt_unique [OF outbox_row_before_weak])
    show "sorted_less (outbox_row_before (<)) (pulled_rows max_n now d)"
      using insertion.srt_sorted [OF outbox_row_before_weak] by (simp add: pulled_rows_def sorted_less_def sorted_wrt_take)
    have "distinct (pulled_rows max_n now d)" unfolding pulled_rows_def
      using inj by (metis distinct_filter distinct_map distinct_take insertion.srt_perm mset_eq_imp_distinct_iff)
    moreover have "set (filter (\<lambda>r. out_id r \<in> ?ids) ?rows) = set (pulled_rows max_n now d)"
      using sub inj by (auto simp: distinct_map dest: inj_onD)
    ultimately show "mset (pulled_rows max_n now d) = mset (filter (\<lambda>r. out_id r \<in> ?ids) ?rows)"
      using inj by (metis distinct_filter distinct_map set_eq_iff_mset_eq_distinct)
  qed (use outbox_rows_total [OF inj] in auto)
  moreover have "sort_slice (outbox_row_before (<)) (map ?f xs) = map ?f (sort_slice (outbox_row_before (<)) xs)" for xs
    by (rule map_sort_slice [symmetric]) (simp add: outbox_row_before_def)
  ultimately have "sort_slice (outbox_row_before (<)) (filter (\<lambda>r. out_id r \<in> ?ids) rows') = map ?f (pulled_rows max_n now d)"
    unfolding keep by simp
  moreover have "scan_outbox (?f r) = scan_outbox r" for r by (simp add: scan_outbox_def)
  ultimately show ?thesis by simp
qed

lemma pulled_messages:
  assumes "wf_pg_outbox d" and "range_order (abs_outbox d) ks"
  shows "map scan_outbox (pulled_rows max_n now d) = map msg (range_vals (abs_outbox d) (pull_selection (pg_time now) ks max_n (abs_outbox d)))"
proof -
  have "r \<in> set (t_outbox_messages d)" if "r \<in> set (pulled_rows max_n now d)" for r
    using that by (auto simp: pulled_rows_def insertion.srt_set dest!: in_set_takeD)
  then have "range_vals (abs_outbox d) (map out_id (pulled_rows max_n now d)) = map outbox_record_of (pulled_rows max_n now d)"
    by (intro range_vals_rows abs_outbox_mem [OF assms(1)])
  then show ?thesis by (simp add: outbox_record_of_def flip: pulled_selection [OF assms])
qed

lemma claim_outbox_eq:
  assumes "wf_pg_outbox d" and "range_order (abs_outbox d) ks" and "n = (if max_n \<le> 0 then 100 else max_n)"
  obtains rows d' where "claim_outbox (<) n (now - outboxProcessingLease) now d = Inr (rows, d')"
    "(Inr (map scan_outbox rows), abs_outbox d') = outbox_PullPending (pg_time now) ks max_n (abs_outbox d)"
    "wf_pg_outbox d'"
proof -
  let ?sel = "map out_id (pulled_rows max_n now d)"
  let ?rows = "map (\<lambda>r. if out_id r \<in> set ?sel then r\<lparr>out_status := OutboxProcessing, out_updated_at := pg_time now\<rparr> else r)
    (t_outbox_messages d)"
  let ?d' = "d\<lparr>t_outbox_messages := ?rows\<rparr>"
  have claim: "claim_outbox (<) n (now - outboxProcessingLease) now d
      = Inr (sort_slice (outbox_row_before (<)) (filter (\<lambda>r. out_id r \<in> set ?sel) ?rows), ?d')"
    by (simp add: claim_outbox_def pulled_rows_def assms(3) Let_def)
  have "abs_outbox ?d' i = claim_ids (pg_time now) ?sel (abs_outbox d) i" for i
    by (auto simp: abs_outbox_def claim_ids_def row_with_map outbox_record_of_def scan_outbox_def split: option.split)
  then have "abs_outbox ?d' = claim_ids (pg_time now) ?sel (abs_outbox d)" by blast
  moreover have "wf_pg_outbox (d\<lparr>t_outbox_messages := snd (update_rows (\<lambda>r. out_id r \<in> set ?sel)
      (\<lambda>r. r\<lparr>out_status := OutboxProcessing, out_updated_at := pg_time now\<rparr>) (t_outbox_messages d))\<rparr>)"
    using assms(1) by (auto simp: wf_pg_outbox_def map_key_update intro!: list_all_update)
  then have "wf_pg_outbox ?d'" by (simp add: update_rows_def)
  ultimately show ?thesis
    using that [OF claim] claimed_rows [OF assms(1), of max_n now] pulled_messages [OF assms(1,2)]
    by (simp add: outbox_PullPending_eq [OF assms(2)] pulled_selection [OF assms(1,2)])
qed

section \<open>Calls\<close>

datatype outbox_call = EnqueueCall OutboxMessage | PullCall int | StatsCall | SentCall string | FailedCall string

datatype outbox_answer = Enqueued "error + OutboxMessage" | Pulled "error + OutboxMessage list" | Stated "error + OutboxStats"
  | Settled "error option"

definition pg_outbox_call :: "'s pg_env \<Rightarrow> outbox_call \<Rightarrow> ('s, outbox_answer) pg_prog" where
  "pg_outbox_call env c =
     (case c of
        EnqueueCall m \<Rightarrow> do { r \<leftarrow> pg_Enqueue env m; return (Enqueued r) }
      | PullCall n \<Rightarrow> do { r \<leftarrow> pg_PullPending env n; return (Pulled r) }
      | StatsCall \<Rightarrow> do { r \<leftarrow> pg_Stats env; return (Stated r) }
      | SentCall i \<Rightarrow> do { r \<leftarrow> pg_MarkSent env i; return (Settled r) }
      | FailedCall i \<Rightarrow> do { r \<leftarrow> pg_MarkFailed env i; return (Settled r) })"

definition mem_outbox_call ::
  "string \<Rightarrow> gotime \<Rightarrow> string list \<Rightarrow> outbox_call \<Rightarrow> outbox_repo \<Rightarrow> outbox_answer \<times> outbox_repo" where
  "mem_outbox_call newid now ks c r =
     (case c of
        EnqueueCall m \<Rightarrow> (case outbox_Enqueue newid now m r of (a, r') \<Rightarrow> (Enqueued a, r'))
      | PullCall n \<Rightarrow> (case outbox_PullPending now ks n r of (a, r') \<Rightarrow> (Pulled a, r'))
      | StatsCall \<Rightarrow> (Stated (outbox_Stats ks r), r)
      | SentCall i \<Rightarrow> (case outbox_MarkSent now i r of (a, r') \<Rightarrow> (Settled a, r'))
      | FailedCall i \<Rightarrow> (case outbox_MarkFailed now i r of (a, r') \<Rightarrow> (Settled a, r')))"

text \<open>A message that is enqueued is not in the outbox yet: the memory outbox would replace it, the table refuses it.\<close>

definition outbox_admissible :: "string \<Rightarrow> outbox_call \<Rightarrow> outbox_repo \<Rightarrow> bool" where
  "outbox_admissible newid c r \<longleftrightarrow>
     (case c of
        EnqueueCall m \<Rightarrow> (let i = (if msg_ID m = [] then newid else msg_ID m)
          in list_all pg_text [i, AggregateType m, AggregateID m, EventType m] \<and> r i = None)
      | SentCall i \<Rightarrow> pg_text i | FailedCall i \<Rightarrow> pg_text i | _ \<Rightarrow> True)"

lemma Enqueue_runs:
  assumes "quiet_at now env" and "\<And>s. fst (pg_uuid env s) = newid" and "wf_pg_outbox d" and "pg_time now > 0"
    and "outbox_admissible newid (EnqueueCall m) (abs_outbox d)"
  shows "\<exists>d'. runs (pg_Enqueue env m) d (fst (outbox_Enqueue newid (pg_time now) m (abs_outbox d))) d'
    \<and> abs_outbox d' = snd (outbox_Enqueue newid (pg_time now) m (abs_outbox d)) \<and> wf_pg_outbox d'"
proof -
  note q = quiet_atD [OF assms(1)]
  define m1 where "m1 = (if msg_ID m = [] then m\<lparr>msg_ID := newid\<rparr> else m)"
  have adm: "list_all pg_text [msg_ID m1, AggregateType m1, AggregateID m1, EventType m1]" "abs_outbox d (msg_ID m1) = None"
    using assms(5) by (auto simp: outbox_admissible_def m1_def Let_def)
  then have new: "msg_ID m1 \<notin> set (map out_id (t_outbox_messages d))" using dom_abs_outbox by (metis domIff)
  let ?row = "\<lparr>out_id = msg_ID m1, out_aggregate_type = AggregateType m1, out_aggregate_id = AggregateID m1,
    out_event_type = EventType m1, out_payload = Payload m1, out_status = OutboxPending, out_attempt_count = 0,
    out_created_at = pg_time now, out_updated_at = pg_time now\<rparr>"
  let ?d' = "d\<lparr>t_outbox_messages := t_outbox_messages d @ [?row]\<rparr>"
  have id: "runs (if msg_ID m = [] then do { newid \<leftarrow> pg_ask (pg_uuid env); return (m\<lparr>msg_ID := newid\<rparr>) } else return m) d m1 d"
    using runs_bind [OF runs_ask [OF assms(2)] runs_return] by (auto simp: m1_def runs_return)
  have ins: "runs (sql_exec env [msg_ID m1, AggregateType m1, AggregateID m1, EventType m1] (insert_outbox m1 now)) d (Inr ()) ?d'"
    using new adm(1) by (intro runs_exec [OF q(1)]) (auto simp: insert_outbox_def insert_row_def)
  have "runs (pg_Enqueue env m) d (Inr m1) ?d'"
    unfolding pg_Enqueue_def
    by (rule runs_bind [OF id], rule runs_bind [OF q(2)], rule runs_bind [OF ins]) (simp add: runs_return)
  moreover have "outbox_Enqueue newid (pg_time now) m (abs_outbox d) = (Inr m1, abs_outbox ?d')"
    using adm(2) by (auto simp: outbox_Enqueue_def m1_def [symmetric] Let_def abs_outbox_def row_with_append fun_eq_iff
        outbox_record_of_def scan_outbox_def split: option.split)
  moreover have "wf_pg_outbox ?d'" using assms(3,4) new by (simp add: wf_pg_outbox_def)
  ultimately show ?thesis by auto
qed

lemma mark_runs:
  assumes "quiet_at now env" and "wf_pg_outbox d" and "pg_text i"
  shows "\<exists>d'. runs (pg_outbox_mark env st i) d (fst (outbox_mark st (pg_time now) i (abs_outbox d))) d'
    \<and> abs_outbox d' = snd (outbox_mark st (pg_time now) i (abs_outbox d)) \<and> wf_pg_outbox d'"
proof -
  note q = quiet_atD [OF assms(1)]
  let ?f = "\<lambda>r. r\<lparr>out_status := st, out_attempt_count := out_attempt_count r + 1, out_updated_at := pg_time now\<rparr>"
  let ?d' = "d\<lparr>t_outbox_messages := snd (update_rows (\<lambda>r. out_id r = i) ?f (t_outbox_messages d))\<rparr>"
  let ?n = "fst (update_rows (\<lambda>r. out_id r = i) ?f (t_outbox_messages d))"
  have "list_all pg_text (map status_word [OutboxPending, OutboxProcessing, OutboxSent, OutboxFailed])" by code_simp
  then have "pg_text (status_word st)" by (cases st) simp_all
  then have upd: "runs (sql_exec env [i, status_word st] (update_outbox i st now)) d (Inr ?n) ?d'"
    using assms(3) by (intro runs_exec [OF q(1)]) (simp_all add: update_outbox_def split_beta)
  have run: "runs (pg_outbox_mark env st i) d (if ?n = 0 then Some (E ErrOutboxPublish) else None) ?d'"
    unfolding pg_outbox_mark_def
    by (rule runs_bind [OF q(2)], rule runs_bind [OF upd]) (auto intro: runs_return)
  have "distinct (map out_id (t_outbox_messages d))" using assms(2) by (simp add: wf_pg_outbox_def)
  then have eq: "outbox_mark st (pg_time now) i (abs_outbox d) = (if ?n = 0 then Some (E ErrOutboxPublish) else None, abs_outbox ?d')"
    by (cases "row_with out_id (t_outbox_messages d) i")
      (simp_all add: row_with_update_key update_count_key outbox_mark_def abs_outbox_def fun_eq_iff outbox_record_of_def scan_outbox_def
        split: option.split)
  have "wf_pg_outbox ?d'"
    using assms(2) by (auto simp: wf_pg_outbox_def map_key_update intro!: list_all_update)
  then show ?thesis using run unfolding eq by auto
qed

text \<open>The oldest of some times.\<close>

lemma stats_loop_eq:
  assumes "list_all (\<lambda>rec. createdAt rec > 0) recs" and "OldestPendingAt st \<ge> 0"
  defines "open_recs \<equiv> filter (\<lambda>rec. status rec = OutboxPending \<or> status rec = OutboxProcessing) recs"
  shows "stats_loop recs st = \<lparr>PendingCount = PendingCount st + int (length open_recs),
    OldestPendingAt = (let ts = (if OldestPendingAt st = 0 then [] else [OldestPendingAt st]) @ map createdAt open_recs
      in if ts = [] then 0 else foldr min (tl ts) (hd ts))\<rparr>"
  using assms(1,2) unfolding open_recs_def
proof (induction recs arbitrary: st)
  case (Cons rec recs)
  have fold_min: "foldr min xs (min a b) = min a (foldr min xs b)" for xs and a b :: gotime
    by (induction xs) (simp_all add: min.left_commute)
  show ?case
  proof (cases "status rec = OutboxPending \<or> status rec = OutboxProcessing")
    case True
    let ?old = "if IsZero (OldestPendingAt st) \<or> createdAt rec < OldestPendingAt st then createdAt rec else OldestPendingAt st"
    let ?st = "st\<lparr>PendingCount := PendingCount st + 1, OldestPendingAt := ?old\<rparr>"
    have old: "?old = (if OldestPendingAt st = 0 then createdAt rec else min (createdAt rec) (OldestPendingAt st))" "?old > 0"
      using Cons.prems by (auto simp: IsZero_def)
    have "stats_loop (rec # recs) st = stats_loop recs ?st" using True by auto
    then show ?thesis
      using Cons.IH [of ?st] Cons.prems old True by (auto simp: Let_def fold_min)
  next
    case False
    then show ?thesis using Cons by auto
  qed
qed simp

lemma foldr_min: "foldr min xs a = Min (insert a (set xs))" for a :: gotime
  by (induction xs) (simp_all add: insert_commute)

lemma Stats_runs:
  assumes "quiet_pg env" and "wf_pg_outbox d" and "range_order (abs_outbox d) ks"
  shows "runs (pg_Stats env) d (outbox_Stats ks (abs_outbox d)) d"
proof -
  let ?open = "\<lambda>rec. status rec = OutboxPending \<or> status rec = OutboxProcessing"
  let ?ids = "map out_id (t_outbox_messages d)" and ?r = "abs_outbox d"
  have "mset (range_vals ?r ks) = mset (range_vals ?r ?ids)"
    by (rule mset_range_vals [OF range_order_perm [OF assms(3) range_order_outbox [OF assms(2)]]])
  also have "range_vals ?r ?ids = map outbox_record_of (t_outbox_messages d)"
    by (rule range_vals_rows) (rule abs_outbox_mem [OF assms(2)])
  finally have perm: "mset (filter ?open (range_vals ?r ks)) = mset (filter ?open (map outbox_record_of (t_outbox_messages d)))"
    by (simp add: mset_filter)
  then have same: "length (filter ?open (range_vals ?r ks)) = length (filter ?open (map outbox_record_of (t_outbox_messages d)))"
      "set (filter ?open (range_vals ?r ks)) = set (filter ?open (map outbox_record_of (t_outbox_messages d)))"
    by (rule mset_eq_length, rule mset_eq_setD)
  have pos: "list_all (\<lambda>rec. createdAt rec > 0) (range_vals ?r ks)"
    using assms(2) row_with_Some [of out_id "t_outbox_messages d"]
    by (auto simp: list_all_iff set_range_vals abs_outbox_def wf_pg_outbox_def outbox_record_of_def)
  have times: "map createdAt (filter ?open (map outbox_record_of (t_outbox_messages d)))
      = map out_created_at (filter (\<lambda>r. out_status r = OutboxPending \<or> out_status r = OutboxProcessing) (t_outbox_messages d))"
    by (simp add: filter_map comp_def outbox_record_of_def)
  have min_set: "(if ts = [] then 0 else foldr min (tl ts) (hd ts)) = (if set ts = {} then 0 else Min (set ts))" for ts :: "gotime list"
    by (cases ts) (simp_all add: foldr_min)
  let ?ts = "map createdAt (filter ?open (range_vals ?r ks))"
  let ?rs = "map out_created_at (filter (\<lambda>r. out_status r = OutboxPending \<or> out_status r = OutboxProcessing) (t_outbox_messages d))"
  have ts: "set ?ts = set ?rs" "length ?ts = length ?rs"
    using same unfolding times [symmetric] by (simp_all only: list.set_map length_map)
  have "outbox_Stats ks ?r = Inr \<lparr>PendingCount = int (length ?ts), OldestPendingAt = (if ?ts = [] then 0 else foldr min (tl ?ts) (hd ?ts))\<rparr>"
    using stats_loop_eq [OF pos, of "\<lparr>PendingCount = 0, OldestPendingAt = 0\<rparr>"] by (simp add: outbox_Stats_def Let_def)
  also have "\<dots> = Inr \<lparr>PendingCount = int (length ?rs), OldestPendingAt = (if ?rs = [] then 0 else foldr min (tl ?rs) (hd ?rs))\<rparr>"
    by (simp only: min_set ts)
  also have "\<dots> = (case outbox_stats_query d of (n, oldest) \<Rightarrow>
      Inr \<lparr>PendingCount = n, OldestPendingAt = (case oldest of None \<Rightarrow> 0 | Some t \<Rightarrow> t)\<rparr>)"
    by (simp add: outbox_stats_query_def Let_def)
  finally have stats: "outbox_Stats ks ?r = (case outbox_stats_query d of (n, oldest) \<Rightarrow>
      Inr \<lparr>PendingCount = n, OldestPendingAt = (case oldest of None \<Rightarrow> 0 | Some t \<Rightarrow> t)\<rparr>)" .
  show ?thesis
    unfolding pg_Stats_def stats by (rule runs_bind [OF runs_query [OF assms(1)]]) (auto intro!: runs_return split: prod.splits)
qed

lemma Pull_runs:
  assumes "quiet_at now env" and "pg_collate env = (<)" and "wf_pg_outbox d" and "range_order (abs_outbox d) ks"
  shows "\<exists>d'. runs (pg_PullPending env max_n) d (fst (outbox_PullPending (pg_time now) ks max_n (abs_outbox d))) d'
    \<and> abs_outbox d' = snd (outbox_PullPending (pg_time now) ks max_n (abs_outbox d)) \<and> wf_pg_outbox d'"
proof -
  note q = quiet_atD [OF assms(1)]
  define n where "n = (if max_n \<le> 0 then 100 else max_n)"
  obtain rows d' where claim: "claim_outbox (<) n (now - outboxProcessingLease) now d = Inr (rows, d')"
      "(Inr (map scan_outbox rows), abs_outbox d') = outbox_PullPending (pg_time now) ks max_n (abs_outbox d)" "wf_pg_outbox d'"
    using claim_outbox_eq [OF assms(3,4) n_def] by blast
  have exec: "runs (sql_exec env [] (claim_outbox (<) n (now - outboxProcessingLease) now)) d (Inr rows) d'"
    using claim(1) by (intro runs_exec [OF q(1)]) simp_all
  have "runs (pg_PullPending env max_n) d (Inr (map scan_outbox rows)) d'"
    unfolding pg_PullPending_def Let_def assms(2) n_def [symmetric]
    by (rule runs_bind [OF q(2)], rule runs_bind [OF exec], simp, rule runs_bind [OF runs_rows_err [OF q(1)]])
      (simp add: runs_return)
  then show ?thesis using claim(2,3) by (metis fst_conv snd_conv)
qed

text \<open>A message with the identifier of a stored one is where the two disagree: the table refuses it, while the memory
  outbox replaces the stored record by a new, pending one.\<close>

lemma enqueue_again_differs:
  assumes "quiet_at now env" and "msg_ID m \<in> set (map out_id (t_outbox_messages d))" and "msg_ID m \<noteq> []"
    and "list_all pg_text [msg_ID m, AggregateType m, AggregateID m, EventType m]"
  shows "runs (pg_Enqueue env m) d (Inl (Wrapped ''enqueue outbox message'' (sql_error unique_violation))) d"
    and "\<exists>r. outbox_Enqueue newid now m (abs_outbox d) = (Inr m, r) \<and> outbox_status r (msg_ID m) = Some OutboxPending"
proof -
  note q = quiet_atD [OF assms(1)]
  have ins: "runs (sql_exec env [msg_ID m, AggregateType m, AggregateID m, EventType m] (insert_outbox m now)) d
      (Inl unique_violation) d"
    using assms(2,4) by (intro runs_exec [OF q(1)]) (auto simp: insert_outbox_def insert_row_def)
  show "runs (pg_Enqueue env m) d (Inl (Wrapped ''enqueue outbox message'' (sql_error unique_violation))) d"
    unfolding pg_Enqueue_def using assms(3)
    by (simp, intro runs_bind [OF q(2)] runs_bind [OF ins]) (simp add: runs_return)
  show "\<exists>r. outbox_Enqueue newid now m (abs_outbox d) = (Inr m, r) \<and> outbox_status r (msg_ID m) = Some OutboxPending"
    using assms(3) by (simp add: outbox_Enqueue_def outbox_status_def)
qed

text \<open>C18. The PostgreSQL outbox refines the memory outbox for the calls on which the two can agree: on a server without
  faults whose texts sort by their bytes (the C collation), a call at a time \<open>now\<close> gets the answer of the memory outbox
  at that time cut to the microsecond, and leaves a table that represents its map, provided that its texts can be stored
  and that an enqueued message does not have the identifier of a stored one (on which the two disagree,
  \<open>enqueue_again_differs\<close>). Messages without an identifier, as the services enqueue them, get a new one. So what is
  shown of the memory outbox (oldest first, leases, settling by the worker) holds of the table.\<close>

theorem pg_outbox_refines_memory:
  assumes "quiet_at now env" and "\<forall>s. fst (pg_uuid env s) = newid" and "pg_collate env = (<)" and "pg_time now > 0"
    and "wf_pg_outbox d" and "outbox_admissible newid c (abs_outbox d)" and "range_order (abs_outbox d) ks"
  shows "\<exists>a d'. runs (pg_outbox_call env c) d a d' \<and> wf_pg_outbox d'
    \<and> mem_outbox_call newid (pg_time now) ks c (abs_outbox d) = (a, abs_outbox d')"
proof (cases c)
  case (EnqueueCall m)
  from Enqueue_runs [OF assms(1) _ assms(5,4)] assms(2,6) obtain d' where
    "runs (pg_Enqueue env m) d (fst (outbox_Enqueue newid (pg_time now) m (abs_outbox d))) d'"
    "abs_outbox d' = snd (outbox_Enqueue newid (pg_time now) m (abs_outbox d))" "wf_pg_outbox d'"
    unfolding EnqueueCall by blast
  then show ?thesis
    using runs_map by (fastforce simp: EnqueueCall pg_outbox_call_def mem_outbox_call_def split_beta)
next
  case (PullCall n)
  from Pull_runs [OF assms(1,3,5,7)] show ?thesis
    using runs_map by (fastforce simp: PullCall pg_outbox_call_def mem_outbox_call_def split_beta)
next
  case StatsCall
  from Stats_runs [OF quiet_atD(1) [OF assms(1)] assms(5,7)] show ?thesis
    using runs_map assms(5) by (fastforce simp: StatsCall pg_outbox_call_def mem_outbox_call_def)
next
  case (SentCall i)
  from mark_runs [OF assms(1,5), of i OutboxSent] assms(6) show ?thesis
    using runs_map
    by (fastforce simp: SentCall outbox_admissible_def pg_outbox_call_def mem_outbox_call_def pg_MarkSent_def outbox_MarkSent_def split_beta)
next
  case (FailedCall i)
  from mark_runs [OF assms(1,5), of i OutboxFailed] assms(6) show ?thesis
    using runs_map
    by (fastforce simp: FailedCall outbox_admissible_def pg_outbox_call_def mem_outbox_call_def pg_MarkFailed_def outbox_MarkFailed_def split_beta)
qed

definition paid_event :: OutboxMessage where
  "paid_event = \<lparr>msg_ID = [], AggregateType = ''order'', AggregateID = ''o1'', EventType = ''OrderPaid'', Payload = ''{}''\<rparr>"

theorem pg_outbox_refines_memory_witness:
  "\<exists>d'. runs (pg_outbox_call calm_pg (EnqueueCall paid_event)) empty_tables (Enqueued (Inr (paid_event\<lparr>msg_ID := ''u1''\<rparr>))) d'
    \<and> outbox_status (abs_outbox d') ''u1'' = Some OutboxPending"
proof -
  have quiet: "quiet_at 5000 calm_pg" "\<forall>s. fst (pg_uuid calm_pg s) = ''u1''" "pg_time 5000 > 0"
    using calm_pg_quiet by (simp_all add: quiet_at_def calm_pg_def pg_time_def)
  have wf: "wf_pg_outbox empty_tables" "abs_outbox empty_tables = Map.empty"
    by (simp_all add: wf_pg_outbox_def abs_outbox_def empty_tables_def fun_eq_iff)
  have "list_all pg_text [''u1'', ''order'', ''o1'', ''OrderPaid'']" by code_simp
  then have adm: "outbox_admissible ''u1'' (EnqueueCall paid_event) (abs_outbox empty_tables)"
    by (simp add: outbox_admissible_def paid_event_def wf(2))
  have "range_order (abs_outbox empty_tables) []" by (simp add: range_order_def wf(2))
  from pg_outbox_refines_memory [OF quiet(1,2) calm_pg_quiet(2) quiet(3) wf(1) adm this] obtain a d' where
    "runs (pg_outbox_call calm_pg (EnqueueCall paid_event)) empty_tables a d'"
    "mem_outbox_call ''u1'' (pg_time 5000) [] (EnqueueCall paid_event) (abs_outbox empty_tables) = (a, abs_outbox d')" by blast
  moreover from this(2) have "a = Enqueued (Inr (paid_event\<lparr>msg_ID := ''u1''\<rparr>))"
      "abs_outbox d' = snd (outbox_Enqueue ''u1'' (pg_time 5000) paid_event Map.empty)"
    by (simp_all add: mem_outbox_call_def outbox_Enqueue_def paid_event_def Let_def wf(2))
  moreover from this(2) have "outbox_status (abs_outbox d') ''u1'' = Some OutboxPending"
    by (simp add: outbox_Enqueue_def paid_event_def outbox_status_def Let_def)
  ultimately show ?thesis by blast
qed

end
