(* ===== verification/Pg_Idempotency.thy ===== *)
theory Pg_Idempotency
  imports Pg_Outbox Cleanup_Worker
begin

text \<open>
  \<open>internal/storage/postgres/idempotency_repository.go\<close> and its refinement of the memory repository.

  A NULL response body is read as no bytes. \<open>http_status\<close> is a 32-bit column, which refuses any other value
  (SQLSTATE 22003). The rows of one \<open>ttl_at\<close> among which
  \<open>LIMIT\<close> has to choose are taken in the order of the table, which is arbitrary.
\<close>

section \<open>Statements\<close>

definition insert_key :: "string \<Rightarrow> string \<Rightarrow> gotime \<Rightarrow> gotime \<Rightarrow> pg_tables \<Rightarrow> sqlerr + unit \<times> pg_tables" where
  "insert_key key requestHash ttlAt now d =
     (case insert_row key_key
        \<lparr>key_key = key, key_request_hash = requestHash, key_response_body = None, key_http_status = None,
         key_status = IdempotencyStatusProcessing, key_ttl_at = pg_time ttlAt, key_created_at = pg_time now,
         key_updated_at = pg_time now\<rparr> (t_idempotency_keys d) of
        Inl e \<Rightarrow> Inl e
      | Inr rows \<Rightarrow> Inr ((), d\<lparr>t_idempotency_keys := rows\<rparr>))"

definition delete_keys :: "gotime \<Rightarrow> int \<Rightarrow> pg_tables \<Rightarrow> sqlerr + int \<times> pg_tables" where
  "delete_keys before max_n d =
     (let expired = filter (\<lambda>r. key_ttl_at r \<le> pg_time before) (t_idempotency_keys d);
          gone = map key_key (if max_n > 0 then take (nat max_n) (sort_slice (\<lambda>a b. key_ttl_at a < key_ttl_at b) expired)
                              else expired);
          rows = filter (\<lambda>r. key_key r \<notin> set gone) (t_idempotency_keys d)
      in Inr (int (length (t_idempotency_keys d)) - int (length rows), d\<lparr>t_idempotency_keys := rows\<rparr>))"

definition int_column :: "int \<Rightarrow> bool" where
  "int_column n \<longleftrightarrow> - (2 ^ 31) \<le> n \<and> n < 2 ^ 31"

definition update_key ::
  "string \<Rightarrow> IdempotencyStatus \<Rightarrow> bytes \<Rightarrow> int \<Rightarrow> gotime \<Rightarrow> pg_tables \<Rightarrow> sqlerr + int \<times> pg_tables" where
  "update_key key st body httpStatus now d =
     (let (affected, rows) = update_rows (\<lambda>r. key_key r = key)
        (\<lambda>r. r\<lparr>key_response_body := Some body, key_http_status := Some httpStatus, key_status := st,
               key_updated_at := pg_time now\<rparr>) (t_idempotency_keys d)
      in if int_column httpStatus then Inr (affected, d\<lparr>t_idempotency_keys := rows\<rparr>) else Inl (PgError ''22003'' []))"

section \<open>The repository\<close>

fun IdempotencyStatus_string :: "IdempotencyStatus \<Rightarrow> string" where
  "IdempotencyStatus_string IdempotencyStatusProcessing = ''processing''"
| "IdempotencyStatus_string IdempotencyStatusDone = ''done''"
| "IdempotencyStatus_string IdempotencyStatusFailed = ''failed''"
| "IdempotencyStatus_string (IdempotencyStatusOther s) = s"

definition scan_key :: "idempotency_keys_row \<Rightarrow> IdempotencyRecord" where
  "scan_key r = \<lparr>Key = key_key r, RequestHash = key_request_hash r,
     ResponseBody = (case key_response_body r of None \<Rightarrow> [] | Some b \<Rightarrow> b),
     HTTPStatus = (case key_http_status r of None \<Rightarrow> 0 | Some n \<Rightarrow> n), idem_Status = key_status r,
     TTLAt = key_ttl_at r, idem_CreatedAt = key_created_at r, idem_UpdatedAt = key_updated_at r\<rparr>"

definition pg_idem_Get :: "'s pg_env \<Rightarrow> string \<Rightarrow> ('s, IdempotencyRecord \<times> error option) pg_prog" where
  "pg_idem_Get env key0 =
     (let key = TrimSpace key0 in
      if key = [] then return (zero_IdempotencyRecord, Some (E ErrIdempotencyKeyRequired))
      else do {
        res \<leftarrow> sql_query_row env [key] (\<lambda>d. filter (\<lambda>r. key_key r = key) (t_idempotency_keys d));
        return (case res of
           Inl err \<Rightarrow> (zero_IdempotencyRecord,
             Some (if err = ErrNoRows then E ErrIdempotencyKeyNotFound else Wrapped ''get idempotency record'' (sql_error err)))
         | Inr r \<Rightarrow>
             if IdempotencyStatus_Valid (key_status r) then (scan_key r, None)
             else (zero_IdempotencyRecord, Some (Opaque (''invalid idempotency status '' @ IdempotencyStatus_string (key_status r)
               @ '' for key '' @ key))))
      })"

definition pg_CreateProcessing ::
  "'s pg_env \<Rightarrow> string \<Rightarrow> string \<Rightarrow> gotime \<Rightarrow> ('s, IdempotencyRecord \<times> error option) pg_prog" where
  "pg_CreateProcessing env key0 hash0 ttlAt0 =
     (let key = TrimSpace key0; requestHash = TrimSpace hash0 in
      if key = [] then return (zero_IdempotencyRecord, Some (E ErrIdempotencyKeyRequired))
      else if requestHash = [] then return (zero_IdempotencyRecord, Some (E ErrIdempotencyRequestHashRequired))
      else do {
        now \<leftarrow> pg_ask (pg_now env);
        let ttlAt = (if IsZero ttlAt0 then now + 24 * hour else ttlAt0);
        res \<leftarrow> sql_exec env [key, requestHash] (insert_key key requestHash ttlAt now);
        (case res of
           Inl err \<Rightarrow>
             if isUniqueViolation err then do {
               (existing, getErr) \<leftarrow> pg_idem_Get env key;
               return (case getErr of
                  Some _ \<Rightarrow> (zero_IdempotencyRecord, Some (E ErrIdempotencyKeyAlreadyExists))
                | None \<Rightarrow> if RequestHash existing \<noteq> requestHash then (existing, Some (E ErrIdempotencyHashMismatch))
                          else (existing, Some (E ErrIdempotencyKeyAlreadyExists)))
             }
             else return (zero_IdempotencyRecord, Some (Wrapped ''create idempotency record'' (sql_error err)))
         | Inr _ \<Rightarrow> return (\<lparr>Key = key, RequestHash = requestHash, ResponseBody = [], HTTPStatus = 0,
             idem_Status = IdempotencyStatusProcessing, TTLAt = ttlAt, idem_CreatedAt = now, idem_UpdatedAt = now\<rparr>, None))
      })"

definition pg_idem_markStatus ::
  "'s pg_env \<Rightarrow> string \<Rightarrow> IdempotencyStatus \<Rightarrow> bytes \<Rightarrow> int \<Rightarrow> ('s, error option) pg_prog" where
  "pg_idem_markStatus env key0 st body httpStatus =
     (let key = TrimSpace key0 in
      if key = [] then return (Some (E ErrIdempotencyKeyRequired))
      else do {
        now \<leftarrow> pg_ask (pg_now env);
        res \<leftarrow> sql_exec env [IdempotencyStatus_string st, key] (update_key key st body httpStatus now);
        return (case res of
           Inl err \<Rightarrow> Some (Wrapped ''mark idempotency key status'' (sql_error err))
         | Inr affected \<Rightarrow> if affected = 0 then Some (E ErrIdempotencyKeyNotFound) else None)
      })"

definition pg_MarkDone :: "'s pg_env \<Rightarrow> string \<Rightarrow> bytes \<Rightarrow> int \<Rightarrow> ('s, error option) pg_prog" where
  "pg_MarkDone env key body httpStatus = pg_idem_markStatus env key IdempotencyStatusDone body httpStatus"

definition pg_idem_MarkFailed :: "'s pg_env \<Rightarrow> string \<Rightarrow> bytes \<Rightarrow> int \<Rightarrow> ('s, error option) pg_prog" where
  "pg_idem_MarkFailed env key body httpStatus = pg_idem_markStatus env key IdempotencyStatusFailed body httpStatus"

definition pg_DeleteExpired :: "'s pg_env \<Rightarrow> gotime \<Rightarrow> int \<Rightarrow> ('s, int \<times> error option) pg_prog" where
  "pg_DeleteExpired env before0 max_n = do {
     before \<leftarrow> (if IsZero before0 then pg_ask (pg_now env) else return before0);
     res \<leftarrow> sql_exec env [] (delete_keys before max_n);
     return (case res of
        Inl err \<Rightarrow> (0, Some (Wrapped ''delete expired idempotency records'' (sql_error err)))
      | Inr affected \<Rightarrow> (affected, None))
   }"

section \<open>Refinement\<close>

definition abs_idem :: "pg_tables \<Rightarrow> idem_repo" where
  "abs_idem d k = map_option scan_key (row_with key_key (t_idempotency_keys d) k)"

definition wf_pg_idem :: "pg_tables \<Rightarrow> bool" where
  "wf_pg_idem d \<longleftrightarrow> distinct (map key_key (t_idempotency_keys d))
     \<and> list_all (\<lambda>r. IdempotencyStatus_Valid (key_status r) \<and> pg_time (key_ttl_at r) = key_ttl_at r) (t_idempotency_keys d)"

text \<open>The record that \<open>CreateProcessing\<close> returns has the times before they are stored.\<close>

definition norm_record :: "IdempotencyRecord \<Rightarrow> IdempotencyRecord" where
  "norm_record rec = rec\<lparr>TTLAt := pg_time (TTLAt rec), idem_CreatedAt := pg_time (idem_CreatedAt rec),
     idem_UpdatedAt := pg_time (idem_UpdatedAt rec)\<rparr>"

lemma pg_time_add: "n mod 1000 = 0 \<Longrightarrow> pg_time (t + n) = pg_time t + n"
proof -
  assume "n mod 1000 = 0"
  then obtain k where n: "n = k * 1000" by (auto simp: dvd_def mod_eq_0_iff_dvd mult.commute)
  have "(t + k * 1000) div 1000 = k + t div 1000" by (rule div_mult_self1) simp
  then show ?thesis by (simp add: pg_time_def n algebra_simps)
qed

lemma dom_abs_idem: "dom (abs_idem d) = set (map key_key (t_idempotency_keys d))"
  using row_with_None [of key_key "t_idempotency_keys d"] by (auto simp: abs_idem_def dom_def)

lemma abs_idem_mem: "wf_pg_idem d \<Longrightarrow> r \<in> set (t_idempotency_keys d) \<Longrightarrow> abs_idem d (key_key r) = Some (scan_key r)"
  by (simp add: abs_idem_def row_with_mem wf_pg_idem_def)

lemma expired_abs:
  assumes "wf_pg_idem d" and "r \<in> set (t_idempotency_keys d)"
  shows "key_key r \<in> expired_keys (pg_time before) (abs_idem d) \<longleftrightarrow> key_ttl_at r \<le> pg_time before"
  using abs_idem_mem [OF assms] by (simp add: expired_keys_def scan_key_def)

text \<open>The keys that \<open>DELETE\<close> selects.\<close>

definition gone_keys :: "gotime \<Rightarrow> int \<Rightarrow> pg_tables \<Rightarrow> string list" where
  "gone_keys before max_n d =
     (let expired = filter (\<lambda>r. key_ttl_at r \<le> pg_time before) (t_idempotency_keys d)
      in map key_key (if max_n > 0 then take (nat max_n) (sort_slice (\<lambda>a b. key_ttl_at a < key_ttl_at b) expired) else expired))"

lemma delete_keys_refines:
  assumes "wf_pg_idem d"
  obtains ks d' where "range_order (abs_idem d) ks" "delete_keys before max_n d = Inr (int (length (gone_keys before max_n d)), d')"
    "delete_loop (pg_time before) max_n ks 0 (abs_idem d) = (int (length (gone_keys before max_n d)), abs_idem d')" "wf_pg_idem d'"
proof -
  let ?rows = "t_idempotency_keys d" and ?exp = "\<lambda>r. key_ttl_at r \<le> pg_time before"
  define srt_rows where "srt_rows = (if max_n > 0 then sort_slice (\<lambda>a b. key_ttl_at a < key_ttl_at b) (filter ?exp ?rows) else filter ?exp ?rows)"
  let ?ks = "map key_key (srt_rows @ filter (\<lambda>r. \<not> ?exp r) ?rows)"
  let ?gone = "gone_keys before max_n d"
  have inj: "distinct (map key_key ?rows)" using assms by (simp add: wf_pg_idem_def)
  have "mset (srt_rows @ filter (\<lambda>r. \<not> ?exp r) ?rows) = mset ?rows"
    using multiset_partition [of "mset ?rows" ?exp] by (simp add: srt_rows_def insertion.srt_perm mset_filter)
  then have perm: "mset ?ks = mset (map key_key ?rows)" by (simp only: mset_map)
  have ks: "range_order (abs_idem d) ?ks"
    unfolding range_order_def dom_abs_idem using mset_eq_imp_distinct_iff [OF perm] mset_eq_setD [OF perm] inj by simp
  have sub: "set srt_rows \<subseteq> set ?rows" "list_all ?exp srt_rows" by (auto simp: srt_rows_def insertion.srt_set list_all_iff)
  have f1: "filter (\<lambda>k. k \<in> expired_keys (pg_time before) (abs_idem d)) (map key_key xs) = map key_key xs"
    if "set xs \<subseteq> set ?rows" and "list_all ?exp xs" for xs
    using that by (induction xs) (simp_all add: expired_abs [OF assms])
  have f2: "filter (\<lambda>k. k \<in> expired_keys (pg_time before) (abs_idem d)) (map key_key (filter (\<lambda>r. \<not> ?exp r) xs)) = []"
    if "set xs \<subseteq> set ?rows" for xs
    using that by (induction xs) (simp_all add: expired_abs [OF assms])
  have gone: "?gone = (if max_n \<le> 0 then map key_key srt_rows else take (nat max_n) (map key_key srt_rows))"
    by (simp add: srt_rows_def gone_keys_def Let_def take_map)
  let ?d' = "d\<lparr>t_idempotency_keys := filter (\<lambda>r. key_key r \<notin> set ?gone) ?rows\<rparr>"
  have "distinct ?ks" using ks by (simp add: range_order_def)
  then have dist: "distinct ?gone" unfolding gone by simp
  have mem: "set ?gone \<subseteq> set (map key_key ?rows)"
  proof -
    have "set (map key_key srt_rows) \<subseteq> set (map key_key ?rows)" using sub(1) by auto
    then show ?thesis unfolding gone using set_take_subset by (smt (verit) subset_trans)
  qed
  have "set (filter (\<lambda>k. k \<in> set ?gone) (map key_key ?rows)) = set ?gone"
    using mem unfolding set_filter by blast
  then have "length (filter (\<lambda>k. k \<in> set ?gone) (map key_key ?rows)) = length ?gone"
    using distinct_card [OF dist] distinct_card [OF distinct_filter [OF inj], of "\<lambda>k. k \<in> set ?gone"] by simp
  then have count: "length ?rows = length ?gone + length (filter (\<lambda>r. key_key r \<notin> set ?gone) ?rows)"
    using sum_length_filter_compl [of "\<lambda>r. key_key r \<in> set ?gone" ?rows] by (simp add: filter_map comp_def)
  have "abs_idem ?d' = abs_idem d |` (- set ?gone)"
  proof
    fix k
    have "row_with key_key (filter (\<lambda>r. key_key r \<notin> S) rows) k = (if k \<in> S then None else row_with key_key rows k)"
      for S and rows :: "idempotency_keys_row list"
      by (induction rows) auto
    then show "abs_idem ?d' k = (abs_idem d |` (- set ?gone)) k" by (simp add: abs_idem_def restrict_map_def)
  qed
  moreover have "delete_loop (pg_time before) max_n ?ks 0 (abs_idem d) = (int (length ?gone), abs_idem d |` (- set ?gone))"
    using \<open>distinct ?ks\<close> f1 [OF sub] f2 [OF subset_refl] 
    by (subst delete_loop_eq) (simp_all add: gone Let_def linorder_not_le [symmetric])
  moreover have "wf_pg_idem ?d'"
    using assms by (auto simp: wf_pg_idem_def list_all_iff distinct_map_filter)
  moreover have "delete_keys before max_n d = Inr (int (length ?gone), ?d')"
    using count by (simp add: delete_keys_def gone_keys_def Let_def)
  ultimately show ?thesis using that ks by metis
qed

lemma Get_key_runs:
  assumes "quiet_pg env" and "wf_pg_idem d" and "pg_text (TrimSpace key)"
  shows "runs (pg_idem_Get env key) d (idem_Get key (abs_idem d)) d"
proof (cases "TrimSpace key = []")
  case True
  then show ?thesis by (simp add: pg_idem_Get_def idem_Get_def runs_return Let_def)
next
  case False
  let ?k = "TrimSpace key"
  have rows: "filter (\<lambda>r. key_key r = ?k) (t_idempotency_keys d)
      = (case row_with key_key (t_idempotency_keys d) ?k of Some r \<Rightarrow> [r] | None \<Rightarrow> [])"
    using filter_key [of key_key "t_idempotency_keys d" ?k "\<lambda>_. True"] assms(2)
    by (simp add: wf_pg_idem_def cong: option.case_cong)
  show ?thesis
  proof (cases "row_with key_key (t_idempotency_keys d) ?k")
    case None
    then have "runs (sql_query_row env [?k] (\<lambda>d. filter (\<lambda>r. key_key r = ?k) (t_idempotency_keys d))) d (Inl ErrNoRows) d"
      using rows assms by (intro runs_query_row) simp_all
    then show ?thesis
      using False None by (auto simp: pg_idem_Get_def idem_Get_def abs_idem_def Let_def intro!: runs_bind [of _ d "Inl ErrNoRows" d] runs_return)
  next
    case (Some r)
    then have q: "runs (sql_query_row env [?k] (\<lambda>d. filter (\<lambda>r. key_key r = ?k) (t_idempotency_keys d))) d (Inr r) d"
      using rows assms by (intro runs_query_row) simp_all
    have "IdempotencyStatus_Valid (key_status r)"
      using assms(2) row_with_Some [OF Some] by (auto simp: wf_pg_idem_def list_all_iff)
    then show ?thesis
      using False Some by (auto simp: pg_idem_Get_def idem_Get_def abs_idem_def Let_def intro!: runs_bind [OF q] runs_return)
  qed
qed

lemma Create_key_runs:
  assumes "quiet_at now env" and "wf_pg_idem d" and "list_all pg_text [TrimSpace key, TrimSpace hash]"
    and "pg_time ttlAt = 0 \<longrightarrow> ttlAt = 0"
  shows "\<exists>rec err d'. runs (pg_CreateProcessing env key hash ttlAt) d (rec, err) d' \<and> wf_pg_idem d'
    \<and> ((if err = None then norm_record rec else rec, err), abs_idem d') = idem_CreateProcessing (pg_time now) key hash (pg_time ttlAt) (abs_idem d)"
proof (cases "TrimSpace key = [] \<or> TrimSpace hash = []")
  case True
  then show ?thesis using assms(2)
    by (cases "TrimSpace key = []") (force simp: pg_CreateProcessing_def idem_CreateProcessing_def Let_def intro!: runs_return exI)+
next
  case False
  note q = quiet_atD [OF assms(1)]
  let ?k = "TrimSpace key" and ?h = "TrimSpace hash"
  define ttl where "ttl = (if IsZero ttlAt then now + 24 * hour else ttlAt)"
  have ttl: "pg_time ttl = (if IsZero (pg_time ttlAt) then pg_time now + 24 * hour else pg_time ttlAt)"
    using assms(4) pg_time_add [of "24 * hour" now] by (auto simp: ttl_def IsZero_def pg_time_def)
  show ?thesis
  proof (cases "?k \<in> set (map key_key (t_idempotency_keys d))")
    case True
    then obtain rec where rec: "abs_idem d ?k = Some rec" using dom_abs_idem by (metis domD)
    have ins: "runs (sql_exec env [?k, ?h] (insert_key ?k ?h ttl now)) d (Inl unique_violation) d"
      using True assms(3) by (intro runs_exec [OF q(1)]) (auto simp: insert_key_def insert_row_def)
    have get: "runs (pg_idem_Get env ?k) d (rec, None) d"
      using Get_key_runs [OF q(1) assms(2), of ?k] assms(3) False rec by (simp add: idem_Get_def TrimSpace_idem)
    let ?err = "if RequestHash rec \<noteq> ?h then E ErrIdempotencyHashMismatch else E ErrIdempotencyKeyAlreadyExists"
    have "runs (pg_CreateProcessing env key hash ttlAt) d (rec, Some ?err) d"
      using False unfolding pg_CreateProcessing_def Let_def
      by (simp split del: if_split) (rule runs_bind [OF q(2)], rule runs_bind [OF ins [unfolded ttl_def]], simp split del: if_split,
          rule runs_bind [OF get], auto intro: runs_return)
    moreover have "idem_CreateProcessing (pg_time now) key hash (pg_time ttlAt) (abs_idem d) = ((rec, Some ?err), abs_idem d)"
      using False rec by (auto simp: idem_CreateProcessing_def Let_def)
    ultimately show ?thesis using assms(2) by fastforce
  next
    case new: False
    then have none: "abs_idem d ?k = None" using dom_abs_idem by (metis domIff)
    let ?row = "\<lparr>key_key = ?k, key_request_hash = ?h, key_response_body = None, key_http_status = None,
      key_status = IdempotencyStatusProcessing, key_ttl_at = pg_time ttl, key_created_at = pg_time now, key_updated_at = pg_time now\<rparr>"
    let ?d' = "d\<lparr>t_idempotency_keys := t_idempotency_keys d @ [?row]\<rparr>"
    have ins: "runs (sql_exec env [?k, ?h] (insert_key ?k ?h ttl now)) d (Inr ()) ?d'"
      using new assms(3) by (intro runs_exec [OF q(1)]) (auto simp: insert_key_def insert_row_def)
    define rec where "rec = \<lparr>Key = ?k, RequestHash = ?h, ResponseBody = [], HTTPStatus = 0,
      idem_Status = IdempotencyStatusProcessing, TTLAt = ttl, idem_CreatedAt = now, idem_UpdatedAt = now\<rparr>"
    have run: "runs (pg_CreateProcessing env key hash ttlAt) d (rec, None) ?d'"
      using False unfolding pg_CreateProcessing_def Let_def rec_def ttl_def
      by (simp split del: if_split) (rule runs_bind [OF q(2)], rule runs_bind [OF ins [unfolded ttl_def]], simp add: runs_return)
    have "abs_idem ?d' = (abs_idem d)(?k \<mapsto> norm_record rec)"
      using none by (auto simp: abs_idem_def row_with_append fun_eq_iff norm_record_def rec_def scan_key_def split: option.split)
    moreover have "idem_CreateProcessing (pg_time now) key hash (pg_time ttlAt) (abs_idem d)
        = ((norm_record rec, None), (abs_idem d)(?k \<mapsto> norm_record rec))"
      using False none by (simp add: idem_CreateProcessing_def Let_def norm_record_def rec_def ttl)
    moreover have "wf_pg_idem ?d'" using assms(2) new by (simp add: wf_pg_idem_def)
    ultimately show ?thesis using run by fastforce
  qed
qed

lemma mark_key_runs:
  assumes "quiet_at now env" and "wf_pg_idem d" and "list_all pg_text [TrimSpace key, IdempotencyStatus_string st]"
    and "IdempotencyStatus_Valid st" and "int_column code"
  shows "\<exists>d'. runs (pg_idem_markStatus env key st body code) d (fst (idem_markStatus (pg_time now) key st body code (abs_idem d))) d'
    \<and> abs_idem d' = snd (idem_markStatus (pg_time now) key st body code (abs_idem d)) \<and> wf_pg_idem d'"
proof (cases "TrimSpace key = []")
  case True
  then show ?thesis using assms(2) by (auto simp: pg_idem_markStatus_def idem_markStatus_def Let_def intro: runs_return)
next
  case False
  note q = quiet_atD [OF assms(1)]
  let ?k = "TrimSpace key"
  let ?f = "\<lambda>r. r\<lparr>key_response_body := Some body, key_http_status := Some code, key_status := st, key_updated_at := pg_time now\<rparr>"
  let ?n = "fst (update_rows (\<lambda>r. key_key r = ?k) ?f (t_idempotency_keys d))"
  let ?d' = "d\<lparr>t_idempotency_keys := snd (update_rows (\<lambda>r. key_key r = ?k) ?f (t_idempotency_keys d))\<rparr>"
  have upd: "runs (sql_exec env [IdempotencyStatus_string st, ?k] (update_key ?k st body code now)) d (Inr ?n) ?d'"
    using assms(3,5) by (intro runs_exec [OF q(1)]) (simp_all add: update_key_def split_beta)
  have run: "runs (pg_idem_markStatus env key st body code) d (if ?n = 0 then Some (E ErrIdempotencyKeyNotFound) else None) ?d'"
    using False unfolding pg_idem_markStatus_def Let_def
    by (simp split del: if_split) (rule runs_bind [OF q(2)], rule runs_bind [OF upd], auto intro: runs_return)
  have "distinct (map key_key (t_idempotency_keys d))" using assms(2) by (simp add: wf_pg_idem_def)
  then have eq: "idem_markStatus (pg_time now) key st body code (abs_idem d)
      = (if ?n = 0 then Some (E ErrIdempotencyKeyNotFound) else None, abs_idem ?d')"
    using False by (cases "row_with key_key (t_idempotency_keys d) ?k")
      (simp_all add: row_with_update_key update_count_key idem_markStatus_def abs_idem_def fun_eq_iff scan_key_def Let_def
        split: option.split)
  have "wf_pg_idem ?d'"
    using assms(2,4) by (auto simp: wf_pg_idem_def map_key_update intro!: list_all_update)
  then show ?thesis using run unfolding eq by auto
qed

lemma Delete_runs:
  assumes "quiet_at now env" and "wf_pg_idem d" and "pg_time before = 0 \<longrightarrow> before = 0"
  shows "\<exists>ks d'. range_order (abs_idem d) ks \<and> wf_pg_idem d'
    \<and> runs (pg_DeleteExpired env before max_n) d (fst (idem_DeleteExpired (pg_time now) ks (pg_time before) max_n (abs_idem d))) d'
    \<and> abs_idem d' = snd (idem_DeleteExpired (pg_time now) ks (pg_time before) max_n (abs_idem d))"
proof -
  note q = quiet_atD [OF assms(1)]
  define b where "b = (if IsZero before then now else before)"
  have b: "pg_time b = (if IsZero (pg_time before) then pg_time now else pg_time before)"
    using assms(3) by (auto simp: b_def IsZero_def pg_time_def)
  obtain ks d' where del: "range_order (abs_idem d) ks" "delete_keys b max_n d = Inr (int (length (gone_keys b max_n d)), d')"
    "delete_loop (pg_time b) max_n ks 0 (abs_idem d) = (int (length (gone_keys b max_n d)), abs_idem d')" "wf_pg_idem d'"
    using delete_keys_refines [OF assms(2)] by blast
  have clock: "runs (if IsZero before then pg_ask (pg_now env) else return before) d b d"
    using q(2) [of d] by (simp add: b_def runs_return)
  have exec: "runs (sql_exec env [] (delete_keys b max_n)) d (Inr (int (length (gone_keys b max_n d)))) d'"
    using del(2) by (intro runs_exec [OF q(1)]) simp_all
  have "runs (pg_DeleteExpired env before max_n) d (int (length (gone_keys b max_n d)), None) d'"
    unfolding pg_DeleteExpired_def by (rule runs_bind [OF clock], rule runs_bind [OF exec]) (simp add: runs_return)
  moreover have "idem_DeleteExpired (pg_time now) ks (pg_time before) max_n (abs_idem d)
      = ((int (length (gone_keys b max_n d)), None), abs_idem d')"
    using del(3) by (simp add: idem_DeleteExpired_def b [symmetric])
  ultimately show ?thesis using del(1,4) by (intro exI [of _ ks] exI [of _ d']) simp
qed

section \<open>Calls\<close>

datatype idem_call = CreateKey string string gotime | GetKey string | DoneKey string bytes int | FailedKey string bytes int
  | DeleteKeys gotime int

datatype idem_answer = Record IdempotencyRecord "error option" | Marked "error option" | Deleted int "error option"

definition pg_idem_call :: "'s pg_env \<Rightarrow> idem_call \<Rightarrow> ('s, idem_answer) pg_prog" where
  "pg_idem_call env c =
     (case c of
        CreateKey k h ttl \<Rightarrow> do { r \<leftarrow> pg_CreateProcessing env k h ttl;
          return (Record (if snd r = None then norm_record (fst r) else fst r) (snd r)) }
      | GetKey k \<Rightarrow> do { r \<leftarrow> pg_idem_Get env k; return (Record (fst r) (snd r)) }
      | DoneKey k body code \<Rightarrow> do { r \<leftarrow> pg_MarkDone env k body code; return (Marked r) }
      | FailedKey k body code \<Rightarrow> do { r \<leftarrow> pg_idem_MarkFailed env k body code; return (Marked r) }
      | DeleteKeys before n \<Rightarrow> do { r \<leftarrow> pg_DeleteExpired env before n; return (Deleted (fst r) (snd r)) })"

definition mem_idem_call :: "gotime \<Rightarrow> string list \<Rightarrow> idem_call \<Rightarrow> idem_repo \<Rightarrow> idem_answer \<times> idem_repo" where
  "mem_idem_call now ks c r =
     (case c of
        CreateKey k h ttl \<Rightarrow> (case idem_CreateProcessing now k h (pg_time ttl) r of ((rec, e), r') \<Rightarrow> (Record rec e, r'))
      | GetKey k \<Rightarrow> (case idem_Get k r of (rec, e) \<Rightarrow> (Record rec e, r))
      | DoneKey k body code \<Rightarrow> (case idem_MarkDone now k body code r of (e, r') \<Rightarrow> (Marked e, r'))
      | FailedKey k body code \<Rightarrow> (case idem_MarkFailed now k body code r of (e, r') \<Rightarrow> (Marked e, r'))
      | DeleteKeys before n \<Rightarrow>
          (case idem_DeleteExpired now ks (pg_time before) n r of ((k, e), r') \<Rightarrow> (Deleted k e, r')))"

definition idem_admissible :: "idem_call \<Rightarrow> bool" where
  "idem_admissible c \<longleftrightarrow>
     (case c of
        CreateKey k h ttl \<Rightarrow> list_all pg_text [TrimSpace k, TrimSpace h] \<and> (pg_time ttl = 0 \<longrightarrow> ttl = 0)
      | GetKey k \<Rightarrow> pg_text (TrimSpace k)
      | DoneKey k body code \<Rightarrow> pg_text (TrimSpace k) \<and> int_column code
      | FailedKey k body code \<Rightarrow> pg_text (TrimSpace k) \<and> int_column code
      | DeleteKeys before n \<Rightarrow> (pg_time before = 0 \<longrightarrow> before = 0))"

lemma mark_call_runs:
  assumes "quiet_at now env" and "wf_pg_idem d" and "pg_text (TrimSpace k)" and "int_column code"
    and "st = IdempotencyStatusDone \<or> st = IdempotencyStatusFailed"
  shows "\<exists>d'. runs (do { r \<leftarrow> pg_idem_markStatus env k st body code; return (Marked r) }) d
       (Marked (fst (idem_markStatus (pg_time now) k st body code (abs_idem d)))) d'
    \<and> abs_idem d' = snd (idem_markStatus (pg_time now) k st body code (abs_idem d)) \<and> wf_pg_idem d'"
proof -
  have "list_all pg_text (map IdempotencyStatus_string [IdempotencyStatusDone, IdempotencyStatusFailed])" by code_simp
  then have "list_all pg_text [TrimSpace k, IdempotencyStatus_string st]" using assms(3,5) by auto
  from mark_key_runs [OF assms(1,2) this _ assms(4), of body] obtain d' where
    d': "runs (pg_idem_markStatus env k st body code) d (fst (idem_markStatus (pg_time now) k st body code (abs_idem d))) d'"
      "abs_idem d' = snd (idem_markStatus (pg_time now) k st body code (abs_idem d))" "wf_pg_idem d'" using assms(5) by auto
  show ?thesis by (intro exI [of _ d'] conjI runs_map [OF d'(1)] d'(2,3))
qed

text \<open>C19. The PostgreSQL idempotency store refines the memory store: on a server without faults every call at a time
  \<open>now\<close> gets the answer of the memory store at that time cut to the microsecond, and leaves a table that represents its
  map, for some order in which the memory store visits its map when it deletes. So the replay of requests that is shown for
  the memory store works on the table.\<close>

theorem pg_idempotency_refines_memory:
  assumes "quiet_at now env" and "wf_pg_idem d" and "idem_admissible c"
  shows "\<exists>ks a d'. range_order (abs_idem d) ks \<and> runs (pg_idem_call env c) d a d' \<and> wf_pg_idem d'
    \<and> mem_idem_call (pg_time now) ks c (abs_idem d) = (a, abs_idem d')"
proof -
  have ks: "range_order (abs_idem d) (map key_key (t_idempotency_keys d))"
    using assms(2) by (simp add: range_order_def dom_abs_idem wf_pg_idem_def)
  show ?thesis
  proof (cases c)
    case (CreateKey k h ttl)
    with assms(3) have "list_all pg_text [TrimSpace k, TrimSpace h]" "pg_time ttl = 0 \<longrightarrow> ttl = 0" by (simp_all add: idem_admissible_def)
    from Create_key_runs [OF assms(1,2) this] obtain rec err d' where
      create: "runs (pg_CreateProcessing env k h ttl) d (rec, err) d'" "wf_pg_idem d'"
      "((if err = None then norm_record rec else rec, err), abs_idem d') = idem_CreateProcessing (pg_time now) k h (pg_time ttl) (abs_idem d)"
      by blast
    define x where "x = (if err = None then norm_record rec else rec)"
    have "runs (pg_idem_call env c) d (Record x err) d'"
      using runs_map [OF create(1), of "\<lambda>r. Record (if snd r = None then norm_record (fst r) else fst r) (snd r)"]
      by (cases err) (simp_all add: CreateKey pg_idem_call_def x_def)
    moreover have "mem_idem_call (pg_time now) ks c (abs_idem d) = (Record x err, abs_idem d')" for ks
      using create(3) [symmetric, folded x_def] by (simp add: CreateKey mem_idem_call_def)
    ultimately show ?thesis using ks create(2) by blast
  next
    case (GetKey k)
    then have "pg_text (TrimSpace k)" using assms(3) by (simp add: idem_admissible_def)
    from runs_map [OF Get_key_runs [OF quiet_atD(1) [OF assms(1)] assms(2) this], of "\<lambda>r. Record (fst r) (snd r)"] ks assms(2)
    show ?thesis by (force simp: GetKey pg_idem_call_def mem_idem_call_def split_beta)
  next
    case (DoneKey k body code)
    then have "pg_text (TrimSpace k)" "int_column code" using assms(3) by (simp_all add: idem_admissible_def)
    from mark_call_runs [OF assms(1,2) this, of IdempotencyStatusDone body] ks show ?thesis
      by (force simp: DoneKey pg_idem_call_def mem_idem_call_def pg_MarkDone_def idem_MarkDone_def split_beta)
  next
    case (FailedKey k body code)
    then have "pg_text (TrimSpace k)" "int_column code" using assms(3) by (simp_all add: idem_admissible_def)
    from mark_call_runs [OF assms(1,2) this, of IdempotencyStatusFailed body] ks show ?thesis
      by (force simp: FailedKey pg_idem_call_def mem_idem_call_def pg_idem_MarkFailed_def idem_MarkFailed_def split_beta)
  next
    case (DeleteKeys before n)
    then have "pg_time before = 0 \<longrightarrow> before = 0" using assms(3) by (simp add: idem_admissible_def)
    from Delete_runs [OF assms(1,2) this, of n] show ?thesis
      using runs_map [of _ d _ _ "\<lambda>r. Deleted (fst r) (snd r)"]
      by (fastforce simp: DeleteKeys pg_idem_call_def mem_idem_call_def split_beta)
  qed
qed

theorem pg_idempotency_refines_memory_witness:
  "\<exists>d'. runs (pg_idem_call calm_pg (CreateKey ''k'' ''h'' 0)) empty_tables
     (Record \<lparr>Key = ''k'', RequestHash = ''h'', ResponseBody = [], HTTPStatus = 0, idem_Status = IdempotencyStatusProcessing,
        TTLAt = 5000 + 24 * hour, idem_CreatedAt = 5000, idem_UpdatedAt = 5000\<rparr> None) d'"
proof -
  have quiet: "quiet_at 5000 calm_pg" using calm_pg_quiet by (simp add: quiet_at_def calm_pg_def)
  have wf: "wf_pg_idem empty_tables" "abs_idem empty_tables = Map.empty"
    by (simp_all add: wf_pg_idem_def abs_idem_def empty_tables_def fun_eq_iff)
  have trim: "TrimSpace ''k'' = ''k''" "TrimSpace ''h'' = ''h''" by code_simp+
  have "list_all pg_text [''k'', ''h'']" by code_simp
  then have "idem_admissible (CreateKey ''k'' ''h'' 0)" by (simp add: idem_admissible_def trim)
  from pg_idempotency_refines_memory [OF quiet wf(1) this] obtain ks a d' where
    "runs (pg_idem_call calm_pg (CreateKey ''k'' ''h'' 0)) empty_tables a d'"
    "mem_idem_call (pg_time 5000) ks (CreateKey ''k'' ''h'' 0) (abs_idem empty_tables) = (a, abs_idem d')" by blast
  moreover from this(2) have "a = Record \<lparr>Key = ''k'', RequestHash = ''h'', ResponseBody = [], HTTPStatus = 0,
      idem_Status = IdempotencyStatusProcessing, TTLAt = 5000 + 24 * hour, idem_CreatedAt = 5000, idem_UpdatedAt = 5000\<rparr> None"
    by (auto simp: mem_idem_call_def idem_CreateProcessing_def trim wf(2) IsZero_def pg_time_def Let_def)
  ultimately show ?thesis by blast
qed

section \<open>Cleanup\<close>

text \<open>The table fulfils the contract of a store with expiring records, so the cleanup worker is correct on it too.\<close>

definition pg_delete :: "unit \<Rightarrow> gotime \<Rightarrow> int \<Rightarrow> pg_tables \<Rightarrow> (int \<times> error option) \<times> pg_tables" where
  "pg_delete u before n d = (case run_state (pg_DeleteExpired calm_pg before n) \<lparr>pg_db = d, pg_ext = ()\<rparr> of
     (res, w) \<Rightarrow> (res, pg_db w))"

interpretation pg_keys: expiring_store pg_delete "\<lambda>_ _. True" "\<lambda>before d. expired_keys (pg_time before) (abs_idem d)"
  "\<lambda>before d. live_records (pg_time before) (abs_idem d)" wf_pg_idem
proof unfold_locales
  fix d :: pg_tables and before :: gotime and n :: int and u :: unit
  assume wf: "wf_pg_idem d" and n: "0 < n" and before: "before \<noteq> 0"
  let ?b = "pg_time before" and ?r = "abs_idem d"
  obtain ks d' where del: "range_order ?r ks" "delete_keys before n d = Inr (int (length (gone_keys before n d)), d')"
    "delete_loop ?b n ks 0 ?r = (int (length (gone_keys before n d)), abs_idem d')" "wf_pg_idem d'"
    using delete_keys_refines [OF wf] by blast
  have run: "pg_delete u before n d = ((int (length (gone_keys before n d)), None), d')"
    using before del(2) by (simp add: pg_delete_def pg_DeleteExpired_def sql_exec_def pg_ask_def pg_apply_def calm_pg_def IsZero_def)
  obtain gone where g: "gone \<subseteq> expired_keys ?b ?r" "finite gone" "int (length (gone_keys before n d)) = int (card gone)"
      "abs_idem d' = ?r |` (- gone)" "expired_keys ?b (abs_idem d') = expired_keys ?b ?r - gone"
      "card gone = min (nat n) (card (expired_keys ?b ?r))"
    using delete_loop_removes [OF del(1,3)] n by auto
  have "card (expired_keys ?b ?r - gone) = card (expired_keys ?b ?r) - nat n"
    using g by (simp add: card_Diff_subset min_def)
  then show "\<exists>d'. pg_delete u before n d = ((int (min (nat n) (card (expired_keys ?b ?r))), None), d')
      \<and> wf_pg_idem d' \<and> live_records ?b (abs_idem d') = live_records ?b ?r
      \<and> expired_keys ?b (abs_idem d') \<subseteq> expired_keys ?b ?r
      \<and> card (expired_keys ?b (abs_idem d')) = card (expired_keys ?b ?r) - nat n"
    using run g del(4) live_records_restrict [OF g(1)] by simp
next
  fix d :: pg_tables and before :: gotime
  assume "wf_pg_idem d"
  have "finite (dom (abs_idem d))" by (simp add: dom_abs_idem)
  then show "finite (expired_keys (pg_time before) (abs_idem d))" by (rule finite_expired)
qed

definition pg_cleanup_env :: "('c \<Rightarrow> gotime) \<Rightarrow> ('c \<Rightarrow> error option \<times> 'c) \<Rightarrow> (pg_tables \<times> 'c) cleanup_env" where
  "pg_cleanup_env clk err =
     \<lparr>env_DeleteExpired = (\<lambda>before n (d, c). case pg_delete () before n d of (res, d') \<Rightarrow> (res, (d', c))),
      env_Err = (\<lambda>(d, c). case err c of (e, c') \<Rightarrow> (e, (d, c'))), env_Now = (\<lambda>(d, c). (clk c, (d, c)))\<rparr>"

text \<open>The cleanup worker on PostgreSQL: a run always returns, whatever the context does; it deletes only expired
  records, reports how many, and when it reports no error no expired record is left and every other one is.\<close>

theorem pg_cleanup_total:
  assumes "wf_pg_idem d" and "before \<noteq> 0"
  shows "\<exists>n e d' c' m'. worker_DeleteExpired (pg_cleanup_env clk err) (NewCleanupWorker True options) before (d, c) m
        = Some ((n, e), (d', c'), m')
      \<and> n = int (card (expired_keys (pg_time before) (abs_idem d))) - int (card (expired_keys (pg_time before) (abs_idem d')))
      \<and> live_records (pg_time before) (abs_idem d') = live_records (pg_time before) (abs_idem d)
      \<and> (e = None \<longrightarrow> abs_idem d' = live_records (pg_time before) (abs_idem d)) \<and> wf_pg_idem d'"
proof -
  let ?env = "pg_cleanup_env clk err" and ?w = "NewCleanupWorker True options"
  let ?ex = "\<lambda>d. expired_keys (pg_time before) (abs_idem d)" and ?live = "\<lambda>d. live_records (pg_time before) (abs_idem d)"
  have "\<exists>n e d' c' m'. cleanup_loop ?env ?w before 0 (d, c) m = Some ((0 + n, e), (d', c'), m')
      \<and> n = int (card (?ex d)) - int (card (?ex d')) \<and> wf_pg_idem d' \<and> ?live d' = ?live d
      \<and> ?ex d' \<subseteq> ?ex d \<and> (e = None \<longrightarrow> ?ex d' = {}) \<and> (e = None \<or> (\<exists>x. e = fst (err x)))
      \<and> m' = m\<lparr>deleted_total := deleted_total m + n\<rparr>"
    by (rule pg_keys.cleanup_loop_total [where inp = "\<lambda>d c. ()"])
      (simp_all add: pg_cleanup_env_def assms NewCleanupWorker_positive)
  then obtain n e d' c' m' where
    "cleanup_loop ?env ?w before 0 (d, c) m = Some ((n, e), (d', c'), m')" "n = int (card (?ex d)) - int (card (?ex d'))"
    "wf_pg_idem d'" "?live d' = ?live d" "e = None \<longrightarrow> ?ex d' = {}" by auto
  moreover from this(4,5) have "e = None \<longrightarrow> abs_idem d' = ?live d" using live_records_all by metis
  moreover have "worker_DeleteExpired ?env ?w before (d, c) m = cleanup_loop ?env ?w before 0 (d, c) m"
    using assms(2) by (simp add: worker_DeleteExpired_def IsZero_def)
  ultimately show ?thesis by auto
qed

end
