(* ===== verification/Pg_Timeline.thy ===== *)
theory Pg_Timeline
  imports Pg_Outbox Timeline_Repository
begin

text \<open>
  \<open>internal/storage/postgres/timeline_repository.go\<close> and its refinement of the memory timeline. The table refers to
  \<open>orders\<close>: an event of an unknown order is refused, which the memory repository does not do. The identifier of a row
  comes from a sequence; that a refused row uses up a number is not modelled, since only the order of the numbers matters.
\<close>

definition insert_event :: "TimelineEvent \<Rightarrow> pg_tables \<Rightarrow> sqlerr + unit \<times> pg_tables" where
  "insert_event ev d =
     (if tl_OrderID ev \<in> set (map ord_id (t_orders d))
      then Inr ((), d\<lparr>t_timeline_events := t_timeline_events d @
             [\<lparr>ev_id = timeline_events_seq d, ev_order_id = tl_OrderID ev, ev_type = Type ev, ev_reason = Reason ev,
               ev_occurred = pg_time (Occurred ev)\<rparr>],
             timeline_events_seq := timeline_events_seq d + 1\<rparr>)
      else Inl foreign_key_violation)"

definition event_before :: "timeline_events_row \<Rightarrow> timeline_events_row \<Rightarrow> bool" where
  "event_before a b = (if ev_occurred a \<noteq> ev_occurred b then ev_occurred a < ev_occurred b else ev_id a < ev_id b)"

definition select_events :: "string \<Rightarrow> pg_tables \<Rightarrow> timeline_events_row list" where
  "select_events orderID d = sort_slice event_before (filter (\<lambda>r. ev_order_id r = orderID) (t_timeline_events d))"

definition scan_event :: "timeline_events_row \<Rightarrow> TimelineEvent" where
  "scan_event r = \<lparr>tl_OrderID = ev_order_id r, Type = ev_type r, Reason = ev_reason r, Occurred = ev_occurred r\<rparr>"

definition pg_timeline_Append :: "'s pg_env \<Rightarrow> TimelineEvent \<Rightarrow> ('s, error option) pg_prog" where
  "pg_timeline_Append env ev0 = do {
     ev \<leftarrow> (if IsZero (Occurred ev0) then do { now \<leftarrow> pg_ask (pg_now env); return (ev0\<lparr>Occurred := now\<rparr>) } else return ev0);
     res \<leftarrow> sql_exec env [tl_OrderID ev, Type ev, Reason ev] (insert_event ev);
     return (case res of
        Inl err \<Rightarrow> Some (Wrapped ''append timeline event'' (sql_error err))
      | Inr _ \<Rightarrow> None)
   }"

definition pg_timeline_List :: "'s pg_env \<Rightarrow> string \<Rightarrow> ('s, error + TimelineEvent list) pg_prog" where
  "pg_timeline_List env orderID = do {
     res \<leftarrow> sql_query env [orderID] (select_events orderID);
     (case res of
        Inl err \<Rightarrow> return (Inl (Wrapped ''list timeline events'' (sql_error err)))
      | Inr rows \<Rightarrow> do {
          err \<leftarrow> rows_err env;
          return (case err of
             Some err \<Rightarrow> Inl (Wrapped ''iterate timeline events'' err)
           | None \<Rightarrow> Inr (map scan_event rows))
        })
   }"

section \<open>Refinement\<close>

definition wf_pg_timeline :: "pg_tables \<Rightarrow> bool" where
  "wf_pg_timeline d \<longleftrightarrow> sorted_wrt (\<lambda>a b. ev_id a < ev_id b) (t_timeline_events d)
     \<and> list_all (\<lambda>r. ev_id r < timeline_events_seq d) (t_timeline_events d)"

text \<open>The events of an order, in the order of the table: with rising identifiers the order of \<open>List\<close> is the stable
  sort by time.\<close>

definition listed_events :: "pg_tables \<Rightarrow> string \<Rightarrow> TimelineEvent list" where
  "listed_events d i = map scan_event (select_events i d)"

lemma sorted_insert_last:
  assumes "list_all (\<lambda>r. ev_id r < n) xs" and "ev_id x = n"
  shows "map scan_event (insert_by event_before x xs) = insert_by occurred_before (scan_event x) (map scan_event xs)"
  using assms(1) by (intro map_insert_by) (auto simp: event_before_def occurred_before_def scan_event_def assms(2) list_all_iff)

lemma sort_slice_snoc: "sort_slice lt (xs @ [x]) = insert_by lt x (sort_slice lt xs)"
  by (simp add: sort_slice_def)

lemma sort_slice_sorted:
  assumes "sorted_less lt xs"
  shows "sort_slice lt xs = xs"
proof -
  have "fold (insert_by lt) ys zs = zs @ ys" if "sorted_less lt (zs @ ys)" for ys zs
    using that
  proof (induction ys arbitrary: zs)
    case (Cons y ys)
    have "insert_by lt y us = us @ [y]" if "list_all (\<lambda>u. \<not> lt y u) us" for us
      using that by (induction us) auto
    moreover have "list_all (\<lambda>u. \<not> lt y u) zs" using Cons.prems by (simp add: sorted_less_def sorted_wrt_append list_all_iff)
    ultimately show ?case using Cons by simp
  qed simp
  from this [of "[]"] assms show ?thesis by (simp add: sort_slice_def)
qed

lemma listed_sorted: "sorted_less occurred_before (listed_events d i)"
proof -
  have "weak_order event_before" by (auto simp: weak_order_def event_before_def split: if_splits)
  from insertion.srt_sorted [OF this, of "filter (\<lambda>r. ev_order_id r = i) (t_timeline_events d)"] show ?thesis
    unfolding listed_events_def select_events_def sorted_less_def sorted_wrt_map
    by (rule sorted_wrt_mono_rel [rotated]) (auto simp: event_before_def occurred_before_def scan_event_def split: if_splits)
qed

lemma append_event:
  assumes "wf_pg_timeline d" and "insert_event ev d = Inr ((), d')"
  shows "listed_events d' i = timeline_events (snd (timeline_Append sort_slice (ev\<lparr>Occurred := pg_time (Occurred ev)\<rparr>)
      (\<lambda>i. Some (listed_events d i)))) i" and "wf_pg_timeline d'"
proof -
  let ?row = "\<lparr>ev_id = timeline_events_seq d, ev_order_id = tl_OrderID ev, ev_type = Type ev, ev_reason = Reason ev,
    ev_occurred = pg_time (Occurred ev)\<rparr>"
  have d': "t_timeline_events d' = t_timeline_events d @ [?row]" "timeline_events_seq d' = timeline_events_seq d + 1"
    using assms(2) by (auto simp: insert_event_def split: if_splits)
  show "wf_pg_timeline d'"
    using assms(1) by (auto simp: wf_pg_timeline_def d' sorted_wrt_append list_all_iff)
  have "list_all (\<lambda>r. ev_id r < timeline_events_seq d) (select_events i d)"
    using assms(1) by (auto simp: wf_pg_timeline_def select_events_def insertion.srt_set list_all_iff)
  from sorted_insert_last [OF this, of ?row] have
    "listed_events d' i = (if tl_OrderID ev = i then insert_by occurred_before (scan_event ?row) (listed_events d i) else listed_events d i)"
    by (auto simp: listed_events_def select_events_def d' sort_slice_snoc)
  moreover have "scan_event ?row = ev\<lparr>Occurred := pg_time (Occurred ev)\<rparr>" by (simp add: scan_event_def)
  ultimately show "listed_events d' i = timeline_events (snd (timeline_Append sort_slice (ev\<lparr>Occurred := pg_time (Occurred ev)\<rparr>)
      (\<lambda>i. Some (listed_events d i)))) i"
    by (auto simp: timeline_Append_def timeline_events_def sort_slice_snoc sort_slice_sorted [OF listed_sorted])
qed

definition abs_timeline :: "pg_tables \<Rightarrow> timeline_repo" where
  "abs_timeline d i = Some (listed_events d i)"

text \<open>What is kept of an event: its time, or that of the call when it has none, to the microsecond.\<close>

definition kept_event :: "gotime \<Rightarrow> TimelineEvent \<Rightarrow> TimelineEvent" where
  "kept_event now ev = ev\<lparr>Occurred := pg_time (if IsZero (Occurred ev) then now else Occurred ev)\<rparr>"

definition event_storable :: "pg_tables \<Rightarrow> TimelineEvent \<Rightarrow> bool" where
  "event_storable d ev \<longleftrightarrow> tl_OrderID ev \<in> set (map ord_id (t_orders d)) \<and> list_all pg_text [tl_OrderID ev, Type ev, Reason ev]"

lemma Append_runs:
  assumes "quiet_at now env" and "wf_pg_timeline d" and "event_storable d ev"
  obtains d' where "runs (pg_timeline_Append env ev) d None d'" "wf_pg_timeline d'" "t_orders d' = t_orders d"
    "abs_timeline d' = snd (timeline_Append sort_slice (kept_event now ev) (abs_timeline d))"
proof -
  note q = quiet_atD [OF assms(1)]
  define ev1 where "ev1 = (if IsZero (Occurred ev) then ev\<lparr>Occurred := now\<rparr> else ev)"
  have same: "tl_OrderID ev1 = tl_OrderID ev" "Type ev1 = Type ev" "Reason ev1 = Reason ev"
      "ev1\<lparr>Occurred := pg_time (Occurred ev1)\<rparr> = kept_event now ev" by (simp_all add: ev1_def kept_event_def)
  obtain d' where d': "insert_event ev1 d = Inr ((), d')" "t_orders d' = t_orders d"
    using assms(3) by (auto simp: insert_event_def event_storable_def same)
  have clock: "runs (if IsZero (Occurred ev) then do { now \<leftarrow> pg_ask (pg_now env); return (ev\<lparr>Occurred := now\<rparr>) } else return ev) d ev1 d"
    using runs_map [OF q(2) [of d], of "\<lambda>now. ev\<lparr>Occurred := now\<rparr>"] by (simp add: ev1_def runs_return)
  have ins: "runs (sql_exec env [tl_OrderID ev1, Type ev1, Reason ev1] (insert_event ev1)) d (Inr ()) d'"
    using d'(1) assms(3) by (intro runs_exec [OF q(1)]) (simp_all add: event_storable_def same)
  have run: "runs (pg_timeline_Append env ev) d None d'"
    unfolding pg_timeline_Append_def by (rule runs_bind [OF clock], rule runs_bind [OF ins]) (simp add: runs_return)
  have "abs_timeline d' i = snd (timeline_Append sort_slice (kept_event now ev) (abs_timeline d)) i" for i
    using append_event(1) [OF assms(2) d'(1), of i] unfolding same(4) abs_timeline_def
    by (auto simp: timeline_Append_def timeline_events_def split: option.splits if_splits)
  then show ?thesis using that [OF run append_event(2) [OF assms(2) d'(1)] d'(2)] by blast
qed

fun pg_appends :: "'s pg_env \<Rightarrow> TimelineEvent list \<Rightarrow> ('s, error option list) pg_prog" where
  "pg_appends env [] = return []"
| "pg_appends env (ev # evs) = do { e \<leftarrow> pg_timeline_Append env ev; es \<leftarrow> pg_appends env evs; return (e # es) }"

text \<open>C20. The PostgreSQL timeline refines the memory timeline: on a server without faults, after any sequence of appends of
  events of known orders every append has succeeded and \<open>List\<close> returns what the memory timeline with a stable sort
  returns for the same events, with their times cut to the microsecond.\<close>

theorem pg_timeline_refines_memory:
  assumes "quiet_at now env" and "wf_pg_timeline d" and "list_all (event_storable d) evs" and "pg_text i"
  shows "\<exists>d'. runs (pg_appends env evs) d (map (\<lambda>_. None) evs) d' \<and> wf_pg_timeline d'
    \<and> runs (pg_timeline_List env i) d'
        (timeline_List i (fold (\<lambda>ev r. snd (timeline_Append sort_slice (kept_event now ev) r)) evs (abs_timeline d))) d'"
  using assms(2,3)
proof (induction evs arbitrary: d)
  case Nil
  note q = quiet_atD(1) [OF assms(1)]
  have "runs (pg_timeline_List env i) d (Inr (listed_events d i)) d"
    unfolding pg_timeline_List_def listed_events_def
    by (rule runs_bind [OF runs_query [OF q]], simp add: assms(4), simp, rule runs_bind [OF runs_rows_err [OF q]])
      (simp add: runs_return)
  then show ?case using Nil by (auto simp: timeline_List_def timeline_events_def abs_timeline_def intro: runs_return)
next
  case (Cons ev evs)
  then have "event_storable d ev" by simp
  from Append_runs [OF assms(1) Cons.prems(1) this] obtain d1 where d1: "runs (pg_timeline_Append env ev) d None d1"
      "wf_pg_timeline d1" "t_orders d1 = t_orders d"
      "abs_timeline d1 = snd (timeline_Append sort_slice (kept_event now ev) (abs_timeline d))" .
  have "list_all (event_storable d1) evs" using Cons.prems(2) by (simp add: event_storable_def [abs_def] d1(3))
  from Cons.IH [OF d1(2) this] obtain d' where rest: "runs (pg_appends env evs) d1 (map (\<lambda>_. None) evs) d'" "wf_pg_timeline d'"
      "runs (pg_timeline_List env i) d'
         (timeline_List i (fold (\<lambda>ev r. snd (timeline_Append sort_slice (kept_event now ev) r)) evs (abs_timeline d1))) d'" by blast
  have "runs (pg_appends env (ev # evs)) d (map (\<lambda>_. None) (ev # evs)) d'"
    by (simp, rule runs_bind [OF d1(1)], rule runs_bind [OF rest(1)], rule runs_return)
  then show ?case using rest(2,3) d1(4) by auto
qed

theorem pg_timeline_refines_memory_witness:
  "\<exists>d'. runs (pg_appends calm_pg
        [\<lparr>tl_OrderID = ''o1'', Type = ''paid'', Reason = [], Occurred = 7000\<rparr>, \<lparr>tl_OrderID = ''o1'', Type = ''reserved'', Reason = [], Occurred = 0\<rparr>])
      (empty_tables\<lparr>t_orders := [\<lparr>ord_id = ''o1'', ord_customer_id = ''c'', ord_status = OrderStatusPending, ord_currency = ''USD'',
        ord_amount_minor = 1, ord_version = 0, ord_created_at = 0, ord_updated_at = 0\<rparr>]\<rparr>) [None, None] d'
    \<and> runs (pg_timeline_List calm_pg ''o1'') d' (Inr [\<lparr>tl_OrderID = ''o1'', Type = ''reserved'', Reason = [], Occurred = 5000\<rparr>,
        \<lparr>tl_OrderID = ''o1'', Type = ''paid'', Reason = [], Occurred = 7000\<rparr>]) d'"
proof -
  let ?d = "empty_tables\<lparr>t_orders := [\<lparr>ord_id = ''o1'', ord_customer_id = ''c'', ord_status = OrderStatusPending, ord_currency = ''USD'',
        ord_amount_minor = 1, ord_version = 0, ord_created_at = 0, ord_updated_at = 0\<rparr>]\<rparr>"
  let ?evs = "[\<lparr>tl_OrderID = ''o1'', Type = ''paid'', Reason = [], Occurred = 7000\<rparr>,
    \<lparr>tl_OrderID = ''o1'', Type = ''reserved'', Reason = [], Occurred = 0\<rparr>]"
  have quiet: "quiet_at 5000 calm_pg" using calm_pg_quiet by (simp add: quiet_at_def calm_pg_def)
  have wf: "wf_pg_timeline ?d" by (simp add: wf_pg_timeline_def empty_tables_def)
  have words: "list_all pg_text [''o1'', ''paid'', ''reserved'', []]" by code_simp
  then have ok: "list_all (event_storable ?d) ?evs" and o1: "pg_text ''o1''" by (simp_all add: event_storable_def)
  have r: "abs_timeline ?d = (\<lambda>i. Some [])"
    by (simp add: fun_eq_iff abs_timeline_def listed_events_def select_events_def empty_tables_def sort_slice_def)
  from pg_timeline_refines_memory [OF quiet wf ok o1] show ?thesis
    unfolding r by (auto simp: timeline_List_def timeline_Append_def timeline_events_def kept_event_def IsZero_def pg_time_def
        sort_slice_def occurred_before_def)
qed

end
