(* ===== verification/Pg_Couriers.thy ===== *)
theory Pg_Couriers
  imports Sql Courier_Repository Pg_Orders
begin

text \<open>
  \<open>internal/storage/postgres/courier_repository.go\<close> on the tables of the migrations \<open>0003_delivery_foundation.up.sql\<close> and
  \<open>0004_courier_ratings.up.sql\<close>.

  \<^item> The columns of a table are the fields of the struct it stores, so a row is a value of that struct, with times cut to
    the microsecond. Vehicle types, statuses and tags are stored as their texts, which are the same values; the
    column \<open>tags\<close> is the list that its JSON array encodes.
  \<^item> A statement that violates several constraints reports a check first, then the unique constraints in the order in
    which they were created, then the foreign key.
  \<^item> \<open>FOR UPDATE\<close> locks the row of one courier; a method runs as if alone (the section of
    \<open>Pg_Couriers_Properties\<close> on two transactions says what that leaves out).
\<close>

section \<open>Tables\<close>

record courier_tables =
  t_couriers :: "Courier list"
  t_courier_zones :: "CourierZone list"
  t_courier_slots :: "CourierSlot list"
  t_courier_ratings :: "CourierRating list"
  t_capabilities :: "CourierVehicleCapability list"

text \<open>The tables as the migrations leave them.\<close>

definition migrated_couriers :: "gotime \<Rightarrow> courier_tables" where
  "migrated_couriers now = \<lparr>t_couriers = [], t_courier_zones = [], t_courier_slots = [], t_courier_ratings = [],
     t_capabilities = map (\<lambda>c. c\<lparr>cap_UpdatedAt := pg_time now\<rparr>) DefaultCourierVehicleCapabilities\<rparr>"

section \<open>Statements\<close>

definition insert_courier :: "Courier \<Rightarrow> courier_tables \<Rightarrow> sqlerr + unit \<times> courier_tables" where
  "insert_courier c d =
     (if \<not> VehicleType_Valid (courier_VehicleType c) then Inl check_violation
      else if courier_ID c \<in> set (map courier_ID (t_couriers d)) then Inl (unique_violation_of ''couriers_pkey'')
      else if Phone c \<in> set (map Phone (t_couriers d)) then Inl (unique_violation_of ''couriers_phone_key'')
      else Inr ((), d\<lparr>t_couriers := t_couriers d @ [c]\<rparr>))"

definition select_courier :: "string \<Rightarrow> courier_tables \<Rightarrow> Courier list" where
  "select_courier i d = filter (\<lambda>c. courier_ID c = i) (t_couriers d)"

definition select_courier_by_phone :: "string \<Rightarrow> courier_tables \<Rightarrow> Courier list" where
  "select_courier_by_phone phone d = filter (\<lambda>c. Phone c = phone) (t_couriers d)"

definition update_courier :: "Courier \<Rightarrow> courier_tables \<Rightarrow> sqlerr + int \<times> courier_tables" where
  "update_courier c d =
     (let (affected, rows) = update_rows (\<lambda>r. courier_ID r = courier_ID c)
        (\<lambda>r. r\<lparr>Phone := Phone c, FirstName := FirstName c, LastName := LastName c, courier_VehicleType := courier_VehicleType c,
               IsActive := IsActive c, courier_UpdatedAt := courier_UpdatedAt c\<rparr>) (t_couriers d)
      in if affected > 0 \<and> \<not> VehicleType_Valid (courier_VehicleType c) then Inl check_violation
         else if affected > 0 \<and> Phone c \<in> set (map Phone (filter (\<lambda>r. courier_ID r \<noteq> courier_ID c) (t_couriers d)))
         then Inl (unique_violation_of ''couriers_phone_key'')
         else Inr (affected, d\<lparr>t_couriers := rows\<rparr>))"

definition courier_row_before :: "(string \<Rightarrow> string \<Rightarrow> bool) \<Rightarrow> Courier \<Rightarrow> Courier \<Rightarrow> bool" where
  "courier_row_before lt a b = (if courier_CreatedAt a \<noteq> courier_CreatedAt b then courier_CreatedAt a > courier_CreatedAt b
     else lt (courier_ID b) (courier_ID a))"

definition select_couriers_by_zone :: "(string \<Rightarrow> string \<Rightarrow> bool) \<Rightarrow> string \<Rightarrow> int \<Rightarrow> courier_tables \<Rightarrow> Courier list" where
  "select_couriers_by_zone lt zoneID max_n d =
     (let rows = sort_slice (courier_row_before lt)
        (concat (map (\<lambda>c. map (\<lambda>_. c) (filter (\<lambda>z. cz_CourierID z = courier_ID c \<and> ZoneID z = zoneID) (t_courier_zones d))) (t_couriers d)))
      in if max_n > 0 then take (nat max_n) rows else rows)"

definition zone_key :: "CourierZone \<Rightarrow> string \<times> string" where
  "zone_key z = (cz_CourierID z, ZoneID z)"

definition insert_zone :: "CourierZone \<Rightarrow> courier_tables \<Rightarrow> sqlerr + unit \<times> courier_tables" where
  "insert_zone z d =
     (if zone_key z \<in> set (map zone_key (t_courier_zones d)) then Inl (unique_violation_of ''courier_zones_pkey'')
      else if IsPrimary z \<and> list_ex (\<lambda>x. cz_CourierID x = cz_CourierID z \<and> IsPrimary x) (t_courier_zones d)
      then Inl (unique_violation_of ''idx_courier_zones_one_primary'')
      else if cz_CourierID z \<notin> set (map courier_ID (t_couriers d)) then Inl foreign_key_violation
      else Inr ((), d\<lparr>t_courier_zones := t_courier_zones d @ [z\<lparr>AssignedAt := pg_time (AssignedAt z)\<rparr>]\<rparr>))"

definition delete_zones :: "string \<Rightarrow> courier_tables \<Rightarrow> sqlerr + unit \<times> courier_tables" where
  "delete_zones courierID d = Inr ((), d\<lparr>t_courier_zones := filter (\<lambda>z. cz_CourierID z \<noteq> courierID) (t_courier_zones d)\<rparr>)"

definition count_others_in_zone :: "string \<Rightarrow> string \<Rightarrow> courier_tables \<Rightarrow> int" where
  "count_others_in_zone zoneID courierID d =
     int (card (cz_CourierID ` set (filter (\<lambda>z. ZoneID z = zoneID \<and> cz_CourierID z \<noteq> courierID) (t_courier_zones d))))"

definition zone_row_before :: "(string \<Rightarrow> string \<Rightarrow> bool) \<Rightarrow> CourierZone \<Rightarrow> CourierZone \<Rightarrow> bool" where
  "zone_row_before lt a b = (if IsPrimary a \<noteq> IsPrimary b then IsPrimary a else lt (ZoneID a) (ZoneID b))"

definition select_zones :: "(string \<Rightarrow> string \<Rightarrow> bool) \<Rightarrow> string \<Rightarrow> courier_tables \<Rightarrow> CourierZone list" where
  "select_zones lt courierID d = sort_slice (zone_row_before lt) (filter (\<lambda>z. cz_CourierID z = courierID) (t_courier_zones d))"

definition overlap_exists :: "CourierSlot \<Rightarrow> courier_tables \<Rightarrow> bool" where
  "overlap_exists slot d =
     list_ex (\<lambda>s. slot_CourierID s = slot_CourierID slot \<and> slot_Status s \<noteq> CourierSlotStatusCanceled
       \<and> SlotStart s < pg_time (SlotEnd slot) \<and> SlotEnd s > pg_time (SlotStart slot)) (t_courier_slots d)"

definition insert_slot :: "CourierSlot \<Rightarrow> courier_tables \<Rightarrow> sqlerr + unit \<times> courier_tables" where
  "insert_slot slot d =
     (let s = slot\<lparr>SlotStart := pg_time (SlotStart slot), SlotEnd := pg_time (SlotEnd slot),
            slot_CreatedAt := pg_time (slot_CreatedAt slot), slot_UpdatedAt := pg_time (slot_UpdatedAt slot)\<rparr> in
      if DurationHours s \<notin> {4, 8, 12} \<or> \<not> CourierSlotStatus_Valid (slot_Status s) \<or> \<not> SlotEnd s > SlotStart s
      then Inl check_violation
      else if slot_ID s \<in> set (map slot_ID (t_courier_slots d)) then Inl (unique_violation_of ''courier_slots_pkey'')
      else if list_ex (\<lambda>x. slot_CourierID x = slot_CourierID s \<and> SlotStart x = SlotStart s) (t_courier_slots d)
      then Inl (unique_violation_of ''idx_courier_slots_unique_start'')
      else if slot_CourierID s \<notin> set (map courier_ID (t_couriers d)) then Inl foreign_key_violation
      else Inr ((), d\<lparr>t_courier_slots := t_courier_slots d @ [s]\<rparr>))"

definition slot_row_before :: "(string \<Rightarrow> string \<Rightarrow> bool) \<Rightarrow> CourierSlot \<Rightarrow> CourierSlot \<Rightarrow> bool" where
  "slot_row_before lt a b = (if SlotStart a \<noteq> SlotStart b then SlotStart a < SlotStart b else lt (slot_ID a) (slot_ID b))"

definition select_slots :: "(string \<Rightarrow> string \<Rightarrow> bool) \<Rightarrow> string \<Rightarrow> gotime \<Rightarrow> gotime \<Rightarrow> courier_tables \<Rightarrow> CourierSlot list" where
  "select_slots lt courierID from_t to_t d = sort_slice (slot_row_before lt)
     (filter (\<lambda>s. slot_CourierID s = courierID \<and> (IsZero from_t \<or> SlotEnd s > pg_time from_t)
        \<and> (IsZero to_t \<or> SlotStart s < pg_time to_t)) (t_courier_slots d))"

definition insert_rating :: "CourierRating \<Rightarrow> courier_tables \<Rightarrow> sqlerr + unit \<times> courier_tables" where
  "insert_rating rating d =
     (if Score rating < 1 \<or> Score rating > 5 then Inl check_violation
      else if rating_ID rating \<in> set (map rating_ID (t_courier_ratings d)) then Inl (unique_violation_of ''courier_ratings_pkey'')
      else if rating_CourierID rating \<notin> set (map courier_ID (t_couriers d)) then Inl foreign_key_violation
      else Inr ((), d\<lparr>t_courier_ratings := t_courier_ratings d @ [rating\<lparr>rating_CreatedAt := pg_time (rating_CreatedAt rating)\<rparr>]\<rparr>))"

text \<open>The aggregates of \<open>GetRatingSummary\<close>, and the latest rating. \<open>AVG\<close> of \<open>double precision\<close> values is their sum,
  rounded after each row, divided by their number.\<close>

definition summarize :: "string \<Rightarrow> courier_tables \<Rightarrow> CourierRatingSummary \<times> gotime option" where
  "summarize courierID d =
     (let rows = filter (\<lambda>r. rating_CourierID r = courierID) (t_courier_ratings d);
          scored = (\<lambda>n. int (length (filter (\<lambda>r. Score r = n) rows)));
          tagged = (\<lambda>t. int (length (filter (\<lambda>r. t \<in> set (Tags r)) rows)))
      in (\<lparr>sum_CourierID = courierID, RatingsCount = int (length rows),
           AverageScore = (if rows = [] then 0 else rnd64 (fsum (map (\<lambda>r. of_int (Score r)) rows) / rnd64 (of_nat (length rows)))),
           LowRatingsCount = int (length (filter (\<lambda>r. Score r < 3) rows)), Score1Count = scored 1, Score2Count = scored 2,
           Score3Count = scored 3, Score4Count = scored 4, Score5Count = scored 5,
           OnTimeCount = tagged CourierRatingTagOnTime, PoliteCount = tagged CourierRatingTagPolite,
           CarefulCount = tagged CourierRatingTagCarefulHandling, DelayedCount = tagged CourierRatingTagDelayedDelivery,
           RudeCount = tagged CourierRatingTagRudeBehavior, DamagedCount = tagged CourierRatingTagDamagedOrder,
           OtherIssueCount = tagged CourierRatingTagOtherIssue, LastRatingAt = 0\<rparr>,
          if rows = [] then None else Some (foldr max (map rating_CreatedAt rows) (rating_CreatedAt (hd rows)))))"

section \<open>The repository\<close>

type_synonym ('s, 'a) pgc_prog = "((courier_tables, 's) pg_world, 'a) prog"

definition mapCourierUniqueErr :: "sqlerr \<Rightarrow> error" where
  "mapCourierUniqueErr err =
     (if \<not> isUniqueViolation err then Wrapped ''courier query failed'' (sql_error err)
      else case err of
        PgError _ constraint \<Rightarrow>
          if constraint = ''couriers_phone_key'' then E ErrCourierPhoneAlreadyExists else E ErrCourierAlreadyExists
      | _ \<Rightarrow> E ErrCourierAlreadyExists)"

definition isForeignKeyViolation :: "sqlerr \<Rightarrow> bool" where
  "isForeignKeyViolation err \<longleftrightarrow> (case err of PgError code _ \<Rightarrow> code = ''23503'' | _ \<Rightarrow> False)"

definition courier_stored :: "string \<Rightarrow> Courier \<Rightarrow> Courier" where
  "courier_stored phone c = c\<lparr>courier_ID := TrimSpace (courier_ID c), Phone := phone, FirstName := TrimSpace (FirstName c),
     LastName := TrimSpace (LastName c), courier_CreatedAt := pg_time (courier_CreatedAt c),
     courier_UpdatedAt := pg_time (courier_UpdatedAt c)\<rparr>"

definition courier_params :: "Courier \<Rightarrow> string list" where
  "courier_params c = [courier_ID c, Phone c, FirstName c, LastName c, VehicleType_string (courier_VehicleType c)]"

definition pg_courier_Create :: "'s pg_env \<Rightarrow> Courier \<Rightarrow> ('s, error option) pgc_prog" where
  "pg_courier_Create env courier =
     (case firstValidationErr (Courier_ValidateInvariants courier) of Some err \<Rightarrow> return (Some err) | None \<Rightarrow>
     (case NormalizePhone (Phone courier) of Inl err \<Rightarrow> return (Some err) | Inr normalizedPhone \<Rightarrow> do {
        now \<leftarrow> pg_ask (pg_now env);
        let c1 = (if IsZero (courier_CreatedAt courier) then courier\<lparr>courier_CreatedAt := now\<rparr> else courier);
        let c2 = (if IsZero (courier_UpdatedAt c1) then c1\<lparr>courier_UpdatedAt := courier_CreatedAt c1\<rparr> else c1);
        let c3 = courier_stored normalizedPhone c2;
        res \<leftarrow> sql_exec env (courier_params c3) (insert_courier c3);
        return (case res of Inl err \<Rightarrow> Some (mapCourierUniqueErr err) | Inr _ \<Rightarrow> None)
      }))"

definition scan_courier :: "string \<Rightarrow> sqlerr + Courier \<Rightarrow> error + Courier" where
  "scan_courier what res =
     (case res of
        Inl err \<Rightarrow> if err = ErrNoRows then Inl (E ErrCourierNotFound) else Inl (Wrapped what (sql_error err))
      | Inr courier \<Rightarrow>
          if \<not> VehicleType_Valid (courier_VehicleType courier) then Inl (E ErrCourierVehicleTypeInvalid) else Inr courier)"

definition pg_courier_Get :: "'s pg_env \<Rightarrow> string \<Rightarrow> ('s, error + Courier) pgc_prog" where
  "pg_courier_Get env i0 =
     (let i = TrimSpace i0 in
      if i = [] then return (Inl (E ErrCourierIDRequired))
      else do { res \<leftarrow> sql_query_row env [i] (select_courier i); return (scan_courier ''get courier'' res) })"

definition pg_courier_GetByPhone :: "'s pg_env \<Rightarrow> string \<Rightarrow> ('s, error + Courier) pgc_prog" where
  "pg_courier_GetByPhone env phone =
     (case NormalizePhone phone of
        Inl err \<Rightarrow> return (Inl err)
      | Inr normalizedPhone \<Rightarrow> do {
          res \<leftarrow> sql_query_row env [normalizedPhone] (select_courier_by_phone normalizedPhone);
          return (scan_courier ''get courier by phone'' res)
        })"

definition pg_courier_Save :: "'s pg_env \<Rightarrow> Courier \<Rightarrow> ('s, error option) pgc_prog" where
  "pg_courier_Save env courier =
     (case firstValidationErr (Courier_ValidateInvariants courier) of Some err \<Rightarrow> return (Some err) | None \<Rightarrow>
     (case NormalizePhone (Phone courier) of Inl err \<Rightarrow> return (Some err) | Inr normalizedPhone \<Rightarrow> do {
        c1 \<leftarrow> (if IsZero (courier_UpdatedAt courier)
               then do { now \<leftarrow> pg_ask (pg_now env); return (courier\<lparr>courier_UpdatedAt := now\<rparr>) }
               else return courier);
        let c2 = courier_stored normalizedPhone c1;
        res \<leftarrow> sql_exec env (courier_params c2) (update_courier c2);
        return (case res of
           Inl err \<Rightarrow> Some (mapCourierUniqueErr err)
         | Inr affected \<Rightarrow> if affected = 0 then Some (E ErrCourierNotFound) else None)
      }))"

text \<open>The loop over the rows, which stops at a vehicle type that is not known.\<close>

fun scan_couriers :: "Courier list \<Rightarrow> error + Courier list" where
  "scan_couriers [] = Inr []"
| "scan_couriers (c # cs) =
     (if \<not> VehicleType_Valid (courier_VehicleType c) then Inl (E ErrCourierVehicleTypeInvalid)
      else case scan_couriers cs of Inl err \<Rightarrow> Inl err | Inr rest \<Rightarrow> Inr (c # rest))"

definition pg_courier_ListByZone :: "'s pg_env \<Rightarrow> string \<Rightarrow> int \<Rightarrow> ('s, error + Courier list) pgc_prog" where
  "pg_courier_ListByZone env zoneID0 max_n =
     (let zoneID = NormalizeZoneID zoneID0 in
      if zoneID = [] then return (Inl (E ErrCourierZoneRequired))
      else if \<not> IsKnownMoscowZoneID zoneID then return (Inl (E ErrCourierZoneUnknown))
      else do {
        res \<leftarrow> sql_query env [zoneID] (select_couriers_by_zone (pg_collate env) zoneID max_n);
        (case res of
           Inl err \<Rightarrow> return (Inl (Wrapped ''list couriers by zone'' (sql_error err)))
         | Inr rows \<Rightarrow>
             (case scan_couriers rows of
                Inl err \<Rightarrow> return (Inl err)
              | Inr result \<Rightarrow> do {
                  err \<leftarrow> rows_err env;
                  return (case err of Some err \<Rightarrow> Inl (Wrapped ''iterate courier rows'' err) | None \<Rightarrow> Inr result)
                }))
      })"

text \<open>A transaction whose body returns an error or \<open>nil\<close>; the deferred function rolls back unless it was committed.\<close>

definition in_tx :: "'s pg_env \<Rightarrow> string \<Rightarrow> string \<Rightarrow> ('s, error option) pgc_prog \<Rightarrow> ('s, error option) pgc_prog" where
  "in_tx env begin_msg commit_msg body = do {
     tx \<leftarrow> sql_begin env;
     (case tx of
        Inl err \<Rightarrow> return (Some (Wrapped begin_msg err))
      | Inr saved \<Rightarrow> do {
          res \<leftarrow> body;
          (case res of
             Some err \<Rightarrow> do { _ \<leftarrow> sql_rollback saved; return (Some err) }
           | None \<Rightarrow> do {
               err \<leftarrow> sql_commit env saved;
               (case err of Some err \<Rightarrow> return (Some (Wrapped commit_msg err)) | None \<Rightarrow> return None)
             })
        })
   }"

definition getCourierTx :: "'s pg_env \<Rightarrow> string \<Rightarrow> ('s, error + Courier) pgc_prog" where
  "getCourierTx env courierID = do {
     res \<leftarrow> sql_query_row env [courierID] (select_courier courierID);
     return (scan_courier ''get courier for update'' res)
   }"

definition ensureCourierExists :: "'s pg_env \<Rightarrow> string \<Rightarrow> ('s, error option) pgc_prog" where
  "ensureCourierExists env courierID = do {
     res \<leftarrow> sql_query env [courierID] (\<lambda>d. courierID \<in> set (map courier_ID (t_couriers d)));
     return (case res of
        Inl err \<Rightarrow> Some (Wrapped ''check courier exists'' (sql_error err))
      | Inr found \<Rightarrow> if found then None else Some (E ErrCourierNotFound))
   }"

fun prepare_loop ::
  "'s pg_env \<Rightarrow> string \<Rightarrow> CourierZone list \<Rightarrow> string list \<Rightarrow> int \<Rightarrow> CourierZone list \<Rightarrow> ('s, error + int \<times> CourierZone list) pgc_prog" where
  "prepare_loop env courierID [] seen primaryCount result = return (Inr (primaryCount, result))"
| "prepare_loop env courierID (zone0 # zones) seen primaryCount result =
     (let z = zone0\<lparr>cz_CourierID := courierID, ZoneID := NormalizeZoneID (ZoneID zone0)\<rparr> in
      case firstValidationErr (CourierZone_ValidateInvariants z) of
        Some err \<Rightarrow> return (Inl err)
      | None \<Rightarrow>
          if ZoneID z \<in> set seen then return (Inl (E ErrCourierZoneDuplicate))
          else do {
            z1 \<leftarrow> (if IsZero (AssignedAt z) then do { now \<leftarrow> pg_ask (pg_now env); return (z\<lparr>AssignedAt := now\<rparr>) } else return z);
            prepare_loop env courierID zones (ZoneID z # seen) (if IsPrimary z then primaryCount + 1 else primaryCount) (result @ [z1])
          })"

definition prepareZones :: "'s pg_env \<Rightarrow> string \<Rightarrow> CourierZone list \<Rightarrow> ('s, error + CourierZone list) pgc_prog" where
  "prepareZones env courierID zones = do {
     res \<leftarrow> prepare_loop env courierID zones [] 0 [];
     return (case res of
        Inl err \<Rightarrow> Inl err
      | Inr (primaryCount, result) \<Rightarrow>
          if primaryCount > 1 then Inl (E ErrCourierPrimaryZoneConflict)
          else Inr (case result of z # zs \<Rightarrow> if primaryCount = 0 then z\<lparr>IsPrimary := True\<rparr> # zs else z # zs | [] \<Rightarrow> []))
   }"

fun ensureZoneCapacityTx :: "'s pg_env \<Rightarrow> string \<Rightarrow> CourierZone list \<Rightarrow> ('s, error option) pgc_prog" where
  "ensureZoneCapacityTx env courierID [] = return None"
| "ensureZoneCapacityTx env courierID (zone # zones) = do {
     res \<leftarrow> sql_query env [ZoneID zone, courierID] (count_others_in_zone (ZoneID zone) courierID);
     (case res of
        Inl err \<Rightarrow> return (Some (Wrapped (''check zone capacity for zone '' @ ZoneID zone) (sql_error err)))
      | Inr assignedCount \<Rightarrow>
          if assignedCount \<ge> MaxCouriersPerZoneDefault then return (Some (E ErrCourierZoneCapacityExceeded))
          else ensureZoneCapacityTx env courierID zones)
   }"

fun insert_zones :: "'s pg_env \<Rightarrow> CourierZone list \<Rightarrow> ('s, error option) pgc_prog" where
  "insert_zones env [] = return None"
| "insert_zones env (zone # zones) = do {
     res \<leftarrow> sql_exec env [cz_CourierID zone, ZoneID zone] (insert_zone zone);
     (case res of
        Inl err \<Rightarrow> return (Some (Wrapped ''insert courier zone'' (sql_error err)))
      | Inr _ \<Rightarrow> insert_zones env zones)
   }"

definition write_zones :: "'s pg_env \<Rightarrow> string \<Rightarrow> CourierZone list \<Rightarrow> ('s, error option) pgc_prog" where
  "write_zones env courierID prepared = do {
     res \<leftarrow> sql_exec env [courierID] (delete_zones courierID);
     (case res of
        Inl err \<Rightarrow> return (Some (Wrapped ''delete courier zones'' (sql_error err)))
      | Inr _ \<Rightarrow> insert_zones env prepared)
   }"

definition replace_zones_body :: "'s pg_env \<Rightarrow> string \<Rightarrow> CourierZone list \<Rightarrow> ('s, error option) pgc_prog" where
  "replace_zones_body env courierID zones = do {
     courier \<leftarrow> getCourierTx env courierID;
     (case courier of
        Inl err \<Rightarrow> return (Some err)
      | Inr courier \<Rightarrow>
          if \<not> AllowsMultipleZones (courier_VehicleType courier) \<and> length zones > 1 then return (Some (E ErrCourierZoneLimitExceeded))
          else do {
            prepared \<leftarrow> prepareZones env courierID zones;
            (case prepared of
               Inl err \<Rightarrow> return (Some err)
             | Inr prepared \<Rightarrow> do {
                 err \<leftarrow> ensureZoneCapacityTx env courierID prepared;
                 (case err of
                    Some err \<Rightarrow> return (Some err)
                  | None \<Rightarrow> write_zones env courierID prepared)
               })
          })
   }"

definition pg_ReplaceZones :: "'s pg_env \<Rightarrow> string \<Rightarrow> CourierZone list \<Rightarrow> ('s, error option) pgc_prog" where
  "pg_ReplaceZones env courierID0 zones =
     (let courierID = TrimSpace courierID0 in
      if courierID = [] then return (Some (E ErrCourierIDRequired))
      else if zones = [] then return (Some (E ErrCourierZonesRequired))
      else in_tx env ''begin courier zones tx'' ''commit courier zones tx'' (replace_zones_body env courierID zones))"

text \<open>A query for rows after the check that the courier exists, with the loop that scans them.\<close>

definition query_for_courier ::
  "'s pg_env \<Rightarrow> string \<Rightarrow> (string \<Rightarrow> courier_tables \<Rightarrow> 'r list) \<Rightarrow> string \<Rightarrow> ('r list \<Rightarrow> error + 'r list) \<Rightarrow> string
     \<Rightarrow> ('s, error + 'r list) pgc_prog" where
  "query_for_courier env courierID0 select query_msg scan rows_msg =
     (let courierID = TrimSpace courierID0 in
      if courierID = [] then return (Inl (E ErrCourierIDRequired))
      else do {
        err \<leftarrow> ensureCourierExists env courierID;
        (case err of
           Some err \<Rightarrow> return (Inl err)
         | None \<Rightarrow> do {
             res \<leftarrow> sql_query env [courierID] (select courierID);
             (case res of
                Inl err \<Rightarrow> return (Inl (Wrapped query_msg (sql_error err)))
              | Inr rows \<Rightarrow>
                  (case scan rows of
                     Inl err \<Rightarrow> return (Inl err)
                   | Inr result \<Rightarrow> do {
                       err \<leftarrow> rows_err env;
                       return (case err of Some err \<Rightarrow> Inl (Wrapped rows_msg err) | None \<Rightarrow> Inr result)
                     }))
           })
      })"

definition pg_ListZones :: "'s pg_env \<Rightarrow> string \<Rightarrow> ('s, error + CourierZone list) pgc_prog" where
  "pg_ListZones env courierID =
     query_for_courier env courierID (select_zones (pg_collate env)) ''list courier zones'' Inr ''iterate courier zones''"

definition create_slot_body :: "'s pg_env \<Rightarrow> CourierSlot \<Rightarrow> ('s, error option) pgc_prog" where
  "create_slot_body env slot = do {
     courier \<leftarrow> getCourierTx env (slot_CourierID slot);
     (case courier of
        Inl err \<Rightarrow> return (Some err)
      | Inr courier \<Rightarrow>
          if IsNightShiftSlot (SlotStart slot) (SlotEnd slot) \<and> courier_VehicleType courier \<noteq> VehicleTypeCar
          then return (Some (E ErrCourierNightSlotCarOnly))
          else do {
            res \<leftarrow> sql_query env [slot_CourierID slot] (overlap_exists slot);
            (case res of
               Inl err \<Rightarrow> return (Some (Wrapped ''check courier slot overlap'' (sql_error err)))
             | Inr overlapExists \<Rightarrow>
                 if overlapExists then return (Some (E ErrCourierSlotConflict))
                 else do {
                   now \<leftarrow> pg_ask (pg_now env);
                   let s1 = (if IsZero (slot_CreatedAt slot) then slot\<lparr>slot_CreatedAt := now\<rparr> else slot);
                   let s2 = (if IsZero (slot_UpdatedAt s1) then s1\<lparr>slot_UpdatedAt := slot_CreatedAt s1\<rparr> else s1);
                   res \<leftarrow> sql_exec env [slot_ID s2, slot_CourierID s2] (insert_slot s2);
                   return (case res of
                      Inl err \<Rightarrow>
                        if isUniqueViolation err then Some (E ErrCourierSlotConflict)
                        else Some (Wrapped ''insert courier slot'' (sql_error err))
                    | Inr _ \<Rightarrow> None)
                 })
          })
   }"

definition pg_CreateSlot :: "'s pg_env \<Rightarrow> CourierSlot \<Rightarrow> ('s, error option) pgc_prog" where
  "pg_CreateSlot env slot0 =
     (let slot = (if slot_Status slot0 = CourierSlotStatusOther [] then slot0\<lparr>slot_Status := CourierSlotStatusPlanned\<rparr> else slot0) in
      case firstValidationErr (CourierSlot_ValidateInvariants slot) of
        Some err \<Rightarrow> return (Some err)
      | None \<Rightarrow> in_tx env ''begin courier slot tx'' ''commit courier slot tx'' (create_slot_body env slot))"

fun scan_slots :: "CourierSlot list \<Rightarrow> error + CourierSlot list" where
  "scan_slots [] = Inr []"
| "scan_slots (s # ss) =
     (if \<not> CourierSlotStatus_Valid (slot_Status s) then Inl (E ErrCourierSlotStatusInvalid)
      else case scan_slots ss of Inl err \<Rightarrow> Inl err | Inr rest \<Rightarrow> Inr (s # rest))"

definition pg_ListSlots :: "'s pg_env \<Rightarrow> string \<Rightarrow> gotime \<Rightarrow> gotime \<Rightarrow> ('s, error + CourierSlot list) pgc_prog" where
  "pg_ListSlots env courierID from_t to_t =
     query_for_courier env courierID (\<lambda>i. select_slots (pg_collate env) i from_t to_t)
       ''list courier slots'' scan_slots ''iterate courier slots''"

definition pg_GetVehicleCapability :: "'s pg_env \<Rightarrow> VehicleType \<Rightarrow> ('s, error + CourierVehicleCapability) pgc_prog" where
  "pg_GetVehicleCapability env vehicleType =
     (if \<not> VehicleType_Valid vehicleType then return (Inl (E ErrCourierVehicleTypeInvalid))
      else do {
        res \<leftarrow> sql_query_row env [VehicleType_string vehicleType]
          (\<lambda>d. filter (\<lambda>c. cap_VehicleType c = vehicleType) (t_capabilities d));
        return (case res of
           Inl err \<Rightarrow>
             if err = ErrNoRows then Inl (E ErrCourierVehicleCapabilityNotFound)
             else Inl (Wrapped ''get courier vehicle capability'' (sql_error err))
         | Inr capability \<Rightarrow>
             (case firstValidationErr (Capability_ValidateInvariants capability) of
                Some validationErr \<Rightarrow> Inl validationErr
              | None \<Rightarrow> Inr capability))
      })"

fun scan_capabilities :: "CourierVehicleCapability list \<Rightarrow> error + CourierVehicleCapability list" where
  "scan_capabilities [] = Inr []"
| "scan_capabilities (c # cs) =
     (case firstValidationErr (Capability_ValidateInvariants c) of
        Some validationErr \<Rightarrow> Inl validationErr
      | None \<Rightarrow> (case scan_capabilities cs of Inl err \<Rightarrow> Inl err | Inr rest \<Rightarrow> Inr (c # rest)))"

definition pg_ListVehicleCapabilities :: "'s pg_env \<Rightarrow> ('s, error + CourierVehicleCapability list) pgc_prog" where
  "pg_ListVehicleCapabilities env = do {
     res \<leftarrow> sql_query env []
       (\<lambda>d. sort_slice (\<lambda>a b. pg_collate env (VehicleType_string (cap_VehicleType a)) (VehicleType_string (cap_VehicleType b)))
          (t_capabilities d));
     (case res of
        Inl err \<Rightarrow> return (Inl (Wrapped ''list courier vehicle capabilities'' (sql_error err)))
      | Inr rows \<Rightarrow>
          (case scan_capabilities rows of
             Inl err \<Rightarrow> return (Inl err)
           | Inr result \<Rightarrow> do {
               err \<leftarrow> rows_err env;
               return (case err of Some err \<Rightarrow> Inl (Wrapped ''iterate courier vehicle capabilities'' err) | None \<Rightarrow> Inr result)
             }))
   }"

definition pg_SubmitRating :: "'s pg_env \<Rightarrow> CourierRating \<Rightarrow> ('s, error option) pgc_prog" where
  "pg_SubmitRating env rating =
     (case firstValidationErr (CourierRating_ValidateInvariants rating) of
        Some err \<Rightarrow> return (Some err)
      | None \<Rightarrow> do {
          r1 \<leftarrow> (if IsZero (rating_CreatedAt rating)
                 then do { now \<leftarrow> pg_ask (pg_now env); return (rating\<lparr>rating_CreatedAt := now\<rparr>) }
                 else return rating);
          let r2 = r1\<lparr>rating_ID := TrimSpace (rating_ID r1), rating_CourierID := TrimSpace (rating_CourierID r1),
            Comment := TrimSpace (Comment r1)\<rparr>;
          res \<leftarrow> sql_exec env [rating_ID r2, rating_CourierID r2, Comment r2] (insert_rating r2);
          return (case res of
             Inl err \<Rightarrow>
               Some (if isUniqueViolation err then E ErrCourierRatingAlreadyExists
                     else if isForeignKeyViolation err then E ErrCourierNotFound
                     else Wrapped ''insert courier rating'' (sql_error err))
           | Inr _ \<Rightarrow> None)
        })"

definition pg_GetRatingSummary :: "'s pg_env \<Rightarrow> string \<Rightarrow> ('s, error + CourierRatingSummary) pgc_prog" where
  "pg_GetRatingSummary env courierID0 =
     (let courierID = TrimSpace courierID0 in
      if courierID = [] then return (Inl (E ErrCourierIDRequired))
      else do {
        err \<leftarrow> ensureCourierExists env courierID;
        (case err of
           Some err \<Rightarrow> return (Inl err)
         | None \<Rightarrow> do {
             res \<leftarrow> sql_query env [courierID] (summarize courierID);
             return (case res of
                Inl err \<Rightarrow> Inl (Wrapped ''get courier rating summary'' (sql_error err))
              | Inr (summary, lastRating) \<Rightarrow>
                  Inr (case lastRating of Some t \<Rightarrow> summary\<lparr>LastRatingAt := t\<rparr> | None \<Rightarrow> summary))
           })
      })"

end
