(* ===== verification/Pg_Couriers_Properties.thy ===== *)
theory Pg_Couriers_Properties
  imports Pg_Couriers Zone_Ids Courier_Invariants
begin

text \<open>
  What the PostgreSQL courier repository keeps of its tables, with the connection failing at any statement, and what two
  transactions that overlap do not keep.
\<close>

section \<open>The invariant\<close>

definition couriers_in_zone :: "string \<Rightarrow> CourierZone list \<Rightarrow> string set" where
  "couriers_in_zone zoneID zones = cz_CourierID ` set (filter (\<lambda>z. ZoneID z = zoneID) zones)"

definition live_slots_overlap :: "CourierSlot \<Rightarrow> CourierSlot \<Rightarrow> bool" where
  "live_slots_overlap a b \<longleftrightarrow> slot_CourierID a = slot_CourierID b \<and> slot_Status a \<noteq> CourierSlotStatusCanceled
     \<and> slot_Status b \<noteq> CourierSlotStatusCanceled \<and> SlotStart a < SlotEnd b \<and> SlotStart b < SlotEnd a"

definition pg_profiles_ok :: "courier_tables \<Rightarrow> bool" where
  "pg_profiles_ok d \<longleftrightarrow> distinct (map courier_ID (t_couriers d)) \<and> distinct (map Phone (t_couriers d))
     \<and> list_all (\<lambda>c. VehicleType_Valid (courier_VehicleType c) \<and> courier_ID c \<noteq> []) (t_couriers d)"

definition pg_zones_ok :: "courier_tables \<Rightarrow> bool" where
  "pg_zones_ok d \<longleftrightarrow> distinct (map zone_key (t_courier_zones d))
     \<and> (\<forall>z \<in> set (t_courier_zones d). IsKnownMoscowZoneID (ZoneID z) \<and> cz_CourierID z \<in> set (map courier_ID (t_couriers d))
          \<and> (\<exists>p \<in> set (t_courier_zones d). cz_CourierID p = cz_CourierID z \<and> IsPrimary p))
     \<and> (\<forall>p \<in> set (t_courier_zones d). \<forall>q \<in> set (t_courier_zones d).
          IsPrimary p \<and> IsPrimary q \<and> cz_CourierID p = cz_CourierID q \<longrightarrow> p = q)
     \<and> (\<forall>zoneID. int (card (couriers_in_zone zoneID (t_courier_zones d))) \<le> MaxCouriersPerZoneDefault)"

definition pg_slots_ok :: "courier_tables \<Rightarrow> bool" where
  "pg_slots_ok d \<longleftrightarrow> distinct (map slot_ID (t_courier_slots d))
     \<and> (\<forall>s \<in> set (t_courier_slots d). SlotStart s < SlotEnd s \<and> slot_CourierID s \<in> set (map courier_ID (t_couriers d)))
     \<and> (\<forall>a \<in> set (t_courier_slots d). \<forall>b \<in> set (t_courier_slots d). a \<noteq> b \<longrightarrow> \<not> live_slots_overlap a b)"

definition pg_ratings_ok :: "courier_tables \<Rightarrow> bool" where
  "pg_ratings_ok d \<longleftrightarrow> distinct (map rating_ID (t_courier_ratings d))
     \<and> (\<forall>r \<in> set (t_courier_ratings d). 1 \<le> Score r \<and> Score r \<le> 5 \<and> distinct (Tags r)
          \<and> rating_CourierID r \<in> set (map courier_ID (t_couriers d)))"

definition pg_couriers_ok :: "courier_tables \<Rightarrow> bool" where
  "pg_couriers_ok d \<longleftrightarrow> pg_profiles_ok d \<and> pg_zones_ok d \<and> pg_slots_ok d \<and> pg_ratings_ok d"

lemmas pg_ok_defs = pg_couriers_ok_def pg_profiles_ok_def pg_zones_ok_def pg_slots_ok_def pg_ratings_ok_def

lemma insert_courier_ok:
  assumes "insert_courier c d = Inr (u, d')" and "pg_couriers_ok d" and "courier_ID c \<noteq> []"
  shows "pg_couriers_ok d'"
  using assms by (auto simp: insert_courier_def pg_ok_defs split: if_splits)

lemma distinct_update:
  assumes "distinct (map key rows)" and "distinct (map g rows)" and "\<And>r. g (f r) = v"
    and "v \<notin> set (map g (filter (\<lambda>r. key r \<noteq> k) rows))"
  shows "distinct (map g (map (\<lambda>r. if key r = k then f r else r) rows))"
  using assms
proof (induction rows)
  case (Cons x rows)
  show ?case
  proof (cases "key x = k")
    case True
    then have same: "map (\<lambda>r. if key r = k then f r else r) rows = rows" using Cons.prems(1) True
      by (intro map_idI) (auto simp: image_iff)
    have "filter (\<lambda>r. key r \<noteq> k) rows = rows" using Cons.prems(1) True by (auto simp: filter_id_conv image_iff)
    then show ?thesis using Cons.prems True by (simp add: same comp_def)
  next
    case False
    then show ?thesis using Cons by (auto split: if_splits)
  qed
qed simp

lemma update_courier_ok:
  assumes "update_courier c d = Inr (n, d')" and "pg_couriers_ok d"
  shows "pg_couriers_ok d'"
proof -
  define f where "f = (\<lambda>r :: Courier. r\<lparr>Phone := Phone c, FirstName := FirstName c, LastName := LastName c,
      courier_VehicleType := courier_VehicleType c, IsActive := IsActive c, courier_UpdatedAt := courier_UpdatedAt c\<rparr>)"
  define rows where "rows = snd (update_rows (\<lambda>r. courier_ID r = courier_ID c) f (t_couriers d))"
  have d': "d' = d\<lparr>t_couriers := rows\<rparr>"
    and valid: "courier_ID c \<in> courier_ID ` set (t_couriers d) \<longrightarrow> VehicleType_Valid (courier_VehicleType c)"
    and free: "courier_ID c \<in> courier_ID ` set (t_couriers d) \<longrightarrow>
      Phone c \<notin> set (map Phone (filter (\<lambda>r. courier_ID r \<noteq> courier_ID c) (t_couriers d)))"
    using assms(1) unfolding update_courier_def f_def [symmetric] rows_def
    by (auto simp: update_rows_def Let_def filter_empty_conv split: if_splits)
  have ids: "map courier_ID rows = map courier_ID (t_couriers d)"
    unfolding rows_def by (rule map_key_update) (simp add: f_def)
  have old: "distinct (map courier_ID (t_couriers d))" "distinct (map Phone (t_couriers d))"
    using assms(2) by (simp_all add: pg_ok_defs)
  have "distinct (map Phone rows)"
  proof (cases "courier_ID c \<in> courier_ID ` set (t_couriers d)")
    case True
    have "Phone (f r) = Phone c" for r by (simp add: f_def)
    from distinct_update [OF old this, of "courier_ID c"] True free show ?thesis by (simp add: rows_def update_rows_def)
  next
    case False
    then have "rows = t_couriers d" unfolding rows_def update_rows_def snd_conv by (intro map_idI) (auto simp: image_iff)
    then show ?thesis using old(2) by simp
  qed
  moreover have "list_all (\<lambda>c. VehicleType_Valid (courier_VehicleType c) \<and> courier_ID c \<noteq> []) rows"
  proof -
    have "VehicleType_Valid (courier_VehicleType c)" if "r \<in> set (t_couriers d)" "courier_ID r = courier_ID c" for r
      using valid that by (metis imageI)
    then show ?thesis
      using assms(2) unfolding rows_def update_rows_def by (auto simp: pg_ok_defs list_all_iff f_def)
  qed
  ultimately have "pg_profiles_ok d'" using old(1) ids unfolding d' by (simp add: pg_profiles_ok_def)
  moreover have "set (map courier_ID (t_couriers d')) = set (map courier_ID (t_couriers d))"
    using ids unfolding d' by simp
  ultimately show ?thesis
    using assms(2) unfolding pg_couriers_ok_def pg_zones_ok_def pg_slots_ok_def pg_ratings_ok_def by (simp add: d')
qed

lemma insert_slot_ok:
  assumes "insert_slot s d = Inr (u, d')" and "pg_couriers_ok d" and "\<not> overlap_exists s d"
  shows "pg_couriers_ok d'"
proof -
  define t where "t = s\<lparr>SlotStart := pg_time (SlotStart s), SlotEnd := pg_time (SlotEnd s),
      slot_CreatedAt := pg_time (slot_CreatedAt s), slot_UpdatedAt := pg_time (slot_UpdatedAt s)\<rparr>"
  have d': "d' = d\<lparr>t_courier_slots := t_courier_slots d @ [t]\<rparr>" and t: "SlotStart t < SlotEnd t"
      "slot_ID t \<notin> set (map slot_ID (t_courier_slots d))" "slot_CourierID t \<in> set (map courier_ID (t_couriers d))"
    using assms(1) unfolding insert_slot_def t_def [symmetric] Let_def by (auto split: if_splits)
  have "\<not> live_slots_overlap a t \<and> \<not> live_slots_overlap t a" if "a \<in> set (t_courier_slots d)" for a
    using that assms(3) by (auto simp: overlap_exists_def live_slots_overlap_def t_def list_ex_iff)
  then show ?thesis using assms(2) t unfolding d' by (auto simp: pg_ok_defs)
qed

lemma insert_rating_ok:
  assumes "insert_rating r d = Inr (u, d')" and "pg_couriers_ok d" and "distinct (Tags r)"
  shows "pg_couriers_ok d'"
  using assms by (auto simp: insert_rating_def pg_ok_defs split: if_splits)

section \<open>Replacing zones\<close>

definition cut_zone :: "CourierZone \<Rightarrow> CourierZone" where
  "cut_zone z = z\<lparr>AssignedAt := pg_time (AssignedAt z)\<rparr>"

definition replaced :: "string \<Rightarrow> CourierZone list \<Rightarrow> courier_tables \<Rightarrow> courier_tables" where
  "replaced courierID zones d =
     d\<lparr>t_courier_zones := filter (\<lambda>z. cz_CourierID z \<noteq> courierID) (t_courier_zones d) @ map cut_zone zones\<rparr>"

definition prepared_ok :: "string \<Rightarrow> CourierZone list \<Rightarrow> bool" where
  "prepared_ok courierID zones \<longleftrightarrow> list_all (\<lambda>z. cz_CourierID z = courierID \<and> IsKnownMoscowZoneID (ZoneID z)) zones
     \<and> distinct (map ZoneID zones) \<and> (zones \<noteq> [] \<longrightarrow> length (filter IsPrimary zones) = 1)"

definition has_room :: "string \<Rightarrow> CourierZone list \<Rightarrow> courier_tables \<Rightarrow> bool" where
  "has_room courierID zones d \<longleftrightarrow> list_all (\<lambda>z. count_others_in_zone (ZoneID z) courierID d < MaxCouriersPerZoneDefault) zones"

lemma cut_zone_sel [simp]:
  "cz_CourierID (cut_zone z) = cz_CourierID z" "ZoneID (cut_zone z) = ZoneID z" "IsPrimary (cut_zone z) = IsPrimary z"
  "zone_key (cut_zone z) = zone_key z"
  by (simp_all add: cut_zone_def zone_key_def)

lemma one_primary:
  assumes "length (filter P xs) = 1"
  obtains p where "p \<in> set xs" "P p" "\<And>q. q \<in> set xs \<Longrightarrow> P q \<Longrightarrow> q = p"
proof -
  obtain p where "filter P xs = [p]" using assms by (auto simp: length_Suc_conv)
  then have "set (filter P xs) = {p}" by simp
  then show thesis using that [of p] by auto
qed

lemma zone_count_replaced:
  assumes "prepared_ok courierID zones" and "has_room courierID zones d" and "pg_zones_ok d"
  shows "int (card (couriers_in_zone zoneID (t_courier_zones (replaced courierID zones d)))) \<le> MaxCouriersPerZoneDefault"
proof -
  define others where "others = cz_CourierID ` set (filter (\<lambda>z. ZoneID z = zoneID \<and> cz_CourierID z \<noteq> courierID) (t_courier_zones d))"
  have fin: "finite others" by (simp add: others_def)
  have sub: "couriers_in_zone zoneID (t_courier_zones (replaced courierID zones d))
      \<subseteq> (if zoneID \<in> set (map ZoneID zones) then insert courierID others else others)"
    using assms(1) by (auto simp: couriers_in_zone_def replaced_def others_def prepared_ok_def list_all_iff)
  show ?thesis
  proof (cases "zoneID \<in> set (map ZoneID zones)")
    case True
    then have "int (card others) < MaxCouriersPerZoneDefault"
      using assms(2) by (auto simp: has_room_def list_all_iff count_others_in_zone_def others_def)
    moreover have "card (couriers_in_zone zoneID (t_courier_zones (replaced courierID zones d))) \<le> Suc (card others)"
      using card_mono [OF _ sub] fin True by (simp add: card_insert_if split: if_splits)
    ultimately show ?thesis by linarith
  next
    case False
    have "others \<subseteq> couriers_in_zone zoneID (t_courier_zones d)" by (auto simp: others_def couriers_in_zone_def)
    then have "card others \<le> card (couriers_in_zone zoneID (t_courier_zones d))"
      by (intro card_mono) (simp_all add: couriers_in_zone_def)
    moreover have "card (couriers_in_zone zoneID (t_courier_zones (replaced courierID zones d))) \<le> card others"
      using sub False fin by (simp add: card_mono)
    moreover have "int (card (couriers_in_zone zoneID (t_courier_zones d))) \<le> MaxCouriersPerZoneDefault"
      using assms(3) unfolding pg_zones_ok_def by blast
    ultimately show ?thesis by linarith
  qed
qed

lemma replaced_ok:
  assumes "pg_couriers_ok d" and "prepared_ok courierID zones" and "has_room courierID zones d" and "zones \<noteq> []"
    and "courierID \<in> set (map courier_ID (t_couriers d))"
  shows "pg_couriers_ok (replaced courierID zones d)"
proof -
  have old: "pg_zones_ok d" using assms(1) by (simp add: pg_couriers_ok_def)
  have own: "cz_CourierID z = courierID" "IsKnownMoscowZoneID (ZoneID z)" if "z \<in> set zones" for z
    using assms(2) that by (auto simp: prepared_ok_def list_all_iff)
  have "length (filter IsPrimary zones) = 1" using assms(2,4) by (simp add: prepared_ok_def)
  then obtain p where p: "p \<in> set zones" "IsPrimary p" "\<And>q. q \<in> set zones \<Longrightarrow> IsPrimary q \<Longrightarrow> q = p" by (rule one_primary) blast
  let ?zs = "t_courier_zones (replaced courierID zones d)"
  have zs: "set ?zs = {z \<in> set (t_courier_zones d). cz_CourierID z \<noteq> courierID} \<union> cut_zone ` set zones"
    by (auto simp: replaced_def)
  have "distinct (map zone_key ?zs)"
  proof -
    have "map zone_key zones = map (Pair courierID) (map ZoneID zones)" using own(1) by (simp add: zone_key_def)
    then have "distinct (map zone_key zones)"
      using assms(2) by (simp add: prepared_ok_def distinct_map inj_on_def)
    moreover have "distinct (map zone_key (filter (\<lambda>z. cz_CourierID z \<noteq> courierID) (t_courier_zones d)))"
      using old by (simp add: pg_zones_ok_def distinct_map_filter)
    moreover have "zone_key z \<noteq> zone_key y" if "z \<in> set zones" and "cz_CourierID y \<noteq> courierID" for z y
      using own(1) [OF that(1)] that(2) by (auto simp: zone_key_def)
    ultimately show ?thesis by (force simp: replaced_def comp_def)
  qed
  moreover have "\<forall>z \<in> set ?zs. IsKnownMoscowZoneID (ZoneID z) \<and> cz_CourierID z \<in> set (map courier_ID (t_couriers d))
      \<and> (\<exists>q \<in> set ?zs. cz_CourierID q = cz_CourierID z \<and> IsPrimary q)"
  proof
    fix z assume z: "z \<in> set ?zs"
    show "IsKnownMoscowZoneID (ZoneID z) \<and> cz_CourierID z \<in> set (map courier_ID (t_couriers d))
      \<and> (\<exists>q \<in> set ?zs. cz_CourierID q = cz_CourierID z \<and> IsPrimary q)"
    proof (cases "cz_CourierID z = courierID")
      case True
      then obtain z0 where "z0 \<in> set zones" "z = cut_zone z0" using z zs by auto
      then show ?thesis using own p(1,2) assms(5) zs by (intro conjI bexI [of _ "cut_zone p"]) auto
    next
      case False
      then have mem: "z \<in> set (t_courier_zones d)" using z zs own(1) by auto
      then obtain q where q: "q \<in> set (t_courier_zones d)" "cz_CourierID q = cz_CourierID z" "IsPrimary q"
        using old unfolding pg_zones_ok_def by blast
      then have "q \<in> set ?zs" using False zs by auto
      then show ?thesis using old mem q(2,3) unfolding pg_zones_ok_def by blast
    qed
  qed
  moreover have "\<forall>a \<in> set ?zs. \<forall>b \<in> set ?zs. IsPrimary a \<and> IsPrimary b \<and> cz_CourierID a = cz_CourierID b \<longrightarrow> a = b"
  proof (intro ballI impI)
    fix a b assume a: "a \<in> set ?zs" and b: "b \<in> set ?zs" and ab: "IsPrimary a \<and> IsPrimary b \<and> cz_CourierID a = cz_CourierID b"
    show "a = b"
    proof (cases "cz_CourierID a = courierID")
      case True
      then have "a \<in> cut_zone ` set zones" "b \<in> cut_zone ` set zones" using a b ab zs by auto
      then have "a = cut_zone p" "b = cut_zone p" using ab p(3) by (metis imageE cut_zone_sel(3))+
      then show ?thesis by simp
    next
      case False
      then have "a \<in> set (t_courier_zones d)" "b \<in> set (t_courier_zones d)" using a b ab zs own(1) by auto
      then show ?thesis using old ab unfolding pg_zones_ok_def by blast
    qed
  qed
  ultimately have "pg_zones_ok (replaced courierID zones d)"
    using zone_count_replaced [OF assms(2,3) old] unfolding pg_zones_ok_def by (simp add: replaced_def)
  then show ?thesis using assms(1) by (simp add: pg_couriers_ok_def pg_profiles_ok_def pg_slots_ok_def pg_ratings_ok_def replaced_def)
qed

section \<open>The methods\<close>

lemma in_tx_leaves:
  assumes "leaves body d (\<lambda>r d1. r = None \<longrightarrow> R d1)"
  shows "leaves (in_tx env begin_msg commit_msg body) d
    (\<lambda>r d'. (d' = d \<and> r \<noteq> None) \<or> (R d' \<and> (r = None \<or> (\<exists>e. r = Some (Wrapped commit_msg e)))))"
  unfolding in_tx_def
proof (rule leaves_bind [OF leaves_begin], rule leaves_sum, goal_cases)
  case (1 r d0 e)
  then show ?case by (intro leaves_return) simp
next
  case (2 r d0 saved)
  then have saved: "saved = d" "d0 = d" by simp_all
  show ?case
    unfolding saved
  proof (rule leaves_bind [OF assms], rule leaves_option, goal_cases)
    case (1 res d1)
    then have "R d1" by simp
    show ?case
      by (rule leaves_bind [OF leaves_commit])
        (use \<open>R d1\<close> in \<open>auto intro!: leaves_return split: option.split if_splits\<close>)
  next
    case (2 res d1 e)
    show ?case by (rule leaves_bind [OF leaves_rollback]) (auto intro: leaves_return)
  qed
qed

lemma now_leaves:
  "leaves (if b then do { now \<leftarrow> pg_ask (pg_now env); return (f now) } else return x) d
     (\<lambda>r d'. d' = d \<and> (if b then \<exists>now. r = f now else r = x))"
  by (auto intro!: leaves_return leaves_bind [OF leaves_ask])

lemma zone_valid_known:
  "firstValidationErr (CourierZone_ValidateInvariants z) = None \<Longrightarrow> IsKnownMoscowZoneID (ZoneID z)"
  by (auto simp: firstValidationErr_def CourierZone_ValidateInvariants_def IsKnownMoscowZoneID_def Let_def split: list.splits if_splits)

definition prepared_so_far :: "string \<Rightarrow> int \<Rightarrow> CourierZone list \<Rightarrow> bool" where
  "prepared_so_far courierID primaryCount zones \<longleftrightarrow>
     list_all (\<lambda>z. cz_CourierID z = courierID \<and> IsKnownMoscowZoneID (ZoneID z)) zones
     \<and> distinct (map ZoneID zones) \<and> primaryCount = int (length (filter IsPrimary zones))"

lemma prepare_loop_leaves:
  "prepared_so_far courierID n result \<Longrightarrow> set seen = set (map ZoneID result) \<Longrightarrow>
     leaves (prepare_loop env courierID zones seen n result) d
       (\<lambda>r d'. d' = d \<and> (\<forall>k out. r = Inr (k, out) \<longrightarrow> prepared_so_far courierID k out
          \<and> map ZoneID out = map ZoneID result @ map (\<lambda>z. NormalizeZoneID (ZoneID z)) zones))"
proof (induction zones arbitrary: seen n result)
  case Nil
  then show ?case by (auto intro: leaves_return)
next
  case (Cons zone0 zones)
  define z where "z = zone0\<lparr>cz_CourierID := courierID, ZoneID := NormalizeZoneID (ZoneID zone0)\<rparr>"
  define n' where "n' = (if IsPrimary z then n + 1 else n)"
  show ?case
    unfolding prepare_loop.simps Let_def z_def [symmetric]
  proof (rule leaves_option, goal_cases)
    case 1
    note known = zone_valid_known [OF 1]
    show ?case
    proof (rule leaves_if, goal_cases)
      case 1
      show ?case by (auto intro: leaves_return)
    next
      case 2
      show ?case
        unfolding n'_def [symmetric]
      proof (rule leaves_bind [OF now_leaves], goal_cases)
        case (1 z1 d1)
        then have z1: "cz_CourierID z1 = courierID" "ZoneID z1 = ZoneID z" "IsPrimary z1 = IsPrimary z" and d1: "d1 = d"
          by (auto simp: z_def split: if_splits)
        have "prepared_so_far courierID n' (result @ [z1])" "set (ZoneID z # seen) = set (map ZoneID (result @ [z1]))"
          using Cons.prems 2 known z1 by (auto simp: prepared_so_far_def n'_def)
        from Cons.IH [OF this] show ?case unfolding d1 using z1 by (simp add: z_def)
      qed
    qed
  qed (auto intro: leaves_return)
qed

lemma prepareZones_leaves:
  "leaves (prepareZones env courierID zones) d
     (\<lambda>r d'. d' = d \<and> (\<forall>out. r = Inr out \<longrightarrow> prepared_ok courierID out \<and> map ZoneID out = map (\<lambda>z. NormalizeZoneID (ZoneID z)) zones))"
  unfolding prepareZones_def
proof (rule leaves_bind [OF prepare_loop_leaves], goal_cases)
  case (3 r d')
  define g where "g = (\<lambda>(k :: int) (out :: CourierZone list). case out of z # zs \<Rightarrow> if k = 0 then z\<lparr>IsPrimary := True\<rparr> # zs else z # zs | [] \<Rightarrow> [])"
  have ok: "prepared_ok courierID (g k out)" if "prepared_so_far courierID k out" and "\<not> k > 1" for k out
  proof (cases out)
    case (Cons z zs)
    define m where "m = length (filter IsPrimary zs)"
    have "prepared_ok courierID (if k = 0 then z\<lparr>IsPrimary := True\<rparr> # zs else z # zs)"
      using that Cons by (cases "k = 0"; cases "IsPrimary z") (auto simp: prepared_so_far_def prepared_ok_def m_def [symmetric])
    then show ?thesis by (simp add: Cons g_def)
  qed (simp add: prepared_ok_def g_def)
  have ids: "map ZoneID (g k out) = map ZoneID out" for k out by (cases out) (simp_all add: g_def)
  show ?case
  proof (cases r)
    case (Inr p)
    obtain k out where p: "p = (k, out)" by (cases p)
    then have "prepared_so_far courierID k out" "map ZoneID out = map (\<lambda>z. NormalizeZoneID (ZoneID z)) zones" "d' = d" using 3 Inr by auto
    then show ?thesis
      unfolding Inr p sum.case prod.case using ok [of k out] ids [of k out] unfolding g_def
      by (intro leaves_return) simp
  qed (use 3 in \<open>auto intro: leaves_return\<close>)
qed (simp_all add: prepared_so_far_def)

lemma capacity_leaves:
  "leaves (ensureZoneCapacityTx env courierID zones) d (\<lambda>r d'. d' = d \<and> (r = None \<longrightarrow> has_room courierID zones d))"
proof (induction zones)
  case Nil
  show ?case by (auto intro: leaves_return simp: has_room_def)
next
  case (Cons z zones)
  show ?case
    unfolding ensureZoneCapacityTx.simps
  proof (rule leaves_bind [OF leaves_query], rule leaves_sum, goal_cases)
    case (1 r d' e)
    then show ?case by (intro leaves_return) simp
  next
    case (2 r d' n)
    show ?case
    proof (rule leaves_if, goal_cases)
      case 1
      show ?case using 2 by (intro leaves_return) simp
    next
      case 2
      show ?case
        using \<open>d' = d \<and> (\<forall>a. r = Inr a \<longrightarrow> a = count_others_in_zone (ZoneID z) courierID d)\<close> \<open>r = Inr n\<close> 2 Cons
        by (auto elim!: leaves_post simp: has_room_def)
    qed
  qed
qed

lemma insert_zones_leaves:
  "leaves (insert_zones env zones) d (\<lambda>r d'. r = None \<longrightarrow> d' = d\<lparr>t_courier_zones := t_courier_zones d @ map cut_zone zones\<rparr>)"
proof (induction zones arbitrary: d)
  case Nil
  show ?case by (auto intro: leaves_return)
next
  case (Cons z zones)
  show ?case
    unfolding insert_zones.simps
  proof (rule leaves_bind [OF leaves_exec], rule leaves_sum, goal_cases)
    case (1 r d' e)
    then show ?case by (intro leaves_return) simp
  next
    case (2 r d' u)
    then have d': "d' = d\<lparr>t_courier_zones := t_courier_zones d @ [cut_zone z]\<rparr>"
      by (auto simp: insert_zone_def cut_zone_def split: if_splits)
    show ?case unfolding d' by (rule leaves_post [OF Cons]) simp
  qed
qed

lemma filter_first: "filter P xs = a # rest \<Longrightarrow> a \<in> set xs \<and> P a"
  by (induction xs) (auto split: if_splits)

lemma getCourierTx_leaves:
  "leaves (getCourierTx env courierID) d (\<lambda>r d'. d' = d \<and> (\<forall>c. r = Inr c \<longrightarrow> courierID \<in> set (map courier_ID (t_couriers d))))"
  unfolding getCourierTx_def
  by (rule leaves_bind [OF leaves_query_row])
    (auto intro!: leaves_return simp: scan_courier_def select_courier_def dest!: filter_first split: sum.splits if_splits)

text \<open>\<open>ReplaceZones\<close>: nothing, or all of it.\<close>

definition zones_replaced :: "string \<Rightarrow> CourierZone list \<Rightarrow> courier_tables \<Rightarrow> courier_tables \<Rightarrow> bool" where
  "zones_replaced courierID zones d d' \<longleftrightarrow> (\<exists>out. d' = replaced courierID out d \<and> prepared_ok courierID out
     \<and> map ZoneID out = map (\<lambda>z. NormalizeZoneID (ZoneID z)) zones \<and> has_room courierID out d \<and> courierID \<in> set (map courier_ID (t_couriers d)))"

lemma replace_zones_body_leaves:
  "leaves (replace_zones_body env courierID zones) d (\<lambda>r d'. r = None \<longrightarrow> zones_replaced courierID zones d d')"
  unfolding replace_zones_body_def
proof (rule leaves_bind [OF getCourierTx_leaves], rule leaves_sum, goal_cases)
  case (2 r d1 c)
  then have known: "courierID \<in> set (map courier_ID (t_couriers d))" and d1: "d1 = d" by auto
  show ?case
    unfolding d1
  proof (rule leaves_if, goal_cases)
    case 2
    show ?case
    proof (rule leaves_bind [OF prepareZones_leaves], rule leaves_sum, goal_cases)
      case (2 r2 d2 out)
      then have out: "prepared_ok courierID out" "map ZoneID out = map (\<lambda>z. NormalizeZoneID (ZoneID z)) zones" and d2: "d2 = d" by auto
      show ?case
        unfolding d2
      proof (rule leaves_bind [OF capacity_leaves], rule leaves_option, goal_cases)
        case (1 r3 d3)
        then have room: "has_room courierID out d" and d3: "d3 = d" by auto
        show ?case
          unfolding d3 write_zones_def
        proof (rule leaves_bind [OF leaves_exec], rule leaves_sum, goal_cases)
          case (2 r4 d4 u)
          then have d4: "d4 = d\<lparr>t_courier_zones := filter (\<lambda>z. cz_CourierID z \<noteq> courierID) (t_courier_zones d)\<rparr>"
            by (simp add: delete_zones_def)
          show ?case
            unfolding d4
            by (rule leaves_post [OF insert_zones_leaves])
              (use out room known in \<open>auto simp: zones_replaced_def replaced_def\<close>)
        qed (auto intro: leaves_return)
      qed (auto intro: leaves_return)
    qed (auto intro: leaves_return)
  qed (auto intro: leaves_return)
qed (auto intro: leaves_return)

lemma ReplaceZones_leaves:
  "leaves (pg_ReplaceZones env courierID zones) d
     (\<lambda>r d'. (d' = d \<and> r \<noteq> None) \<or> (zones \<noteq> [] \<and> zones_replaced (TrimSpace courierID) zones d d'
        \<and> (r = None \<or> (\<exists>e. r = Some (Wrapped ''commit courier zones tx'' e)))))"
  unfolding pg_ReplaceZones_def Let_def
proof (rule leaves_if, goal_cases)
  case 2
  show ?case
  proof (rule leaves_if, goal_cases)
    case 2
    show ?case by (rule leaves_post [OF in_tx_leaves [OF replace_zones_body_leaves]]) (use 2 in auto)
  qed (auto intro: leaves_return)
qed (auto intro: leaves_return)

lemma CreateSlot_leaves:
  assumes "pg_couriers_ok d" shows "leaves (pg_CreateSlot env slot) d (\<lambda>_ d'. pg_couriers_ok d')"
proof -
  have body: "leaves (create_slot_body env s) d (\<lambda>r d'. r = None \<longrightarrow> pg_couriers_ok d')" for s
    unfolding create_slot_body_def
  proof (rule leaves_bind [OF getCourierTx_leaves], rule leaves_sum, goal_cases)
    case (2 r d1 c)
    then have d1: "d1 = d" by simp
    show ?case
      unfolding d1
    proof (rule leaves_if, goal_cases)
      case 2
      show ?case
      proof (rule leaves_bind [OF leaves_query], rule leaves_sum, goal_cases)
        case (2 r2 d2 found)
        then have d2: "d2 = d" and found: "found = overlap_exists s d" by auto
        show ?case
          unfolding d2
        proof (rule leaves_if, goal_cases)
          case 2
          show ?case
            unfolding Let_def
          proof (rule leaves_bind [OF leaves_ask], rule leaves_bind [OF leaves_exec], goal_cases)
            case (1 now d3 res d4)
            have "overlap_exists (s\<lparr>slot_CreatedAt := x\<rparr>) d = overlap_exists s d" "overlap_exists (s\<lparr>slot_UpdatedAt := x\<rparr>) d = overlap_exists s d"
                "overlap_exists (s\<lparr>slot_CreatedAt := x, slot_UpdatedAt := y\<rparr>) d = overlap_exists s d" for x y
              by (simp_all add: overlap_exists_def)
            then show ?case
              using 1 2 found assms
              by (auto intro!: leaves_return split: sum.splits if_splits dest!: insert_slot_ok)
          qed
        qed (auto intro: leaves_return)
      qed (auto intro: leaves_return)
    qed (auto intro: leaves_return)
  qed (auto intro: leaves_return)
  show ?thesis
    unfolding pg_CreateSlot_def Let_def
    by (rule leaves_option, rule leaves_post [OF in_tx_leaves [OF body]])
      (use assms in \<open>auto intro: leaves_return\<close>)
qed

lemma valid_ID: "firstValidationErr (Courier_ValidateInvariants c) = None \<Longrightarrow> TrimSpace (courier_ID c) \<noteq> []"
  by (auto simp: firstValidationErr_def Courier_ValidateInvariants_def split: list.splits if_splits)

lemma courier_Create_leaves:
  assumes "pg_couriers_ok d" shows "leaves (pg_courier_Create env c) d (\<lambda>_ d'. pg_couriers_ok d')"
  unfolding pg_courier_Create_def Let_def
proof (rule leaves_option, rule leaves_sum, goal_cases)
  case (2 phone)
  note ID = valid_ID [OF 2(1)]
  show ?case
  proof (rule leaves_bind [OF leaves_ask], rule leaves_bind [OF leaves_exec], goal_cases)
    case (1 now d1 r d2)
    define c3 where "c3 = courier_stored phone
      (if IsZero (courier_UpdatedAt (if IsZero (courier_CreatedAt c) then c\<lparr>courier_CreatedAt := now\<rparr> else c))
       then (if IsZero (courier_CreatedAt c) then c\<lparr>courier_CreatedAt := now\<rparr> else c)
         \<lparr>courier_UpdatedAt := courier_CreatedAt (if IsZero (courier_CreatedAt c) then c\<lparr>courier_CreatedAt := now\<rparr> else c)\<rparr>
       else if IsZero (courier_CreatedAt c) then c\<lparr>courier_CreatedAt := now\<rparr> else c)"
    have "courier_ID c3 \<noteq> []" using ID by (simp add: c3_def courier_stored_def)
    then show ?case
      using 1 assms unfolding c3_def [symmetric]
      by (intro leaves_return) (auto split: sum.splits dest: insert_courier_ok)
  qed
qed (use assms in \<open>auto intro: leaves_return\<close>)

lemma courier_Save_leaves:
  assumes "pg_couriers_ok d" shows "leaves (pg_courier_Save env c) d (\<lambda>_ d'. pg_couriers_ok d')"
  unfolding pg_courier_Save_def Let_def
proof (rule leaves_option, rule leaves_sum, goal_cases)
  case (2 phone)
  show ?case
  proof (rule leaves_bind [OF now_leaves], rule leaves_bind [OF leaves_exec], goal_cases)
    case (1 c1 d1 r d2)
    then show ?case using assms by (intro leaves_return) (auto split: sum.splits dest: update_courier_ok)
  qed
qed (use assms in \<open>auto intro: leaves_return\<close>)

lemma SubmitRating_leaves:
  assumes "pg_couriers_ok d" shows "leaves (pg_SubmitRating env rating) d (\<lambda>_ d'. pg_couriers_ok d')"
  unfolding pg_SubmitRating_def Let_def
proof (rule leaves_option, goal_cases)
  case 1
  then have tags: "distinct (Tags rating)"
    by (simp add: firstValidationErr_None CourierRating_valid_iff)
  show ?case
  proof (rule leaves_bind [OF now_leaves], rule leaves_bind [OF leaves_exec], goal_cases)
    case (1 r1 d1 r d2)
    then have "Tags r1 = Tags rating" by (auto split: if_splits)
    then show ?case
      using 1 assms tags by (intro leaves_return) (auto split: sum.splits dest!: insert_rating_ok)
  qed
qed (use assms in \<open>auto intro: leaves_return\<close>)

datatype courier_write =
  WriteCreate Courier | WriteSave Courier | WriteZones string "CourierZone list" | WriteSlot CourierSlot | WriteRating CourierRating

fun pg_courier_write :: "'s pg_env \<Rightarrow> courier_write \<Rightarrow> ('s, error option) pgc_prog" where
  "pg_courier_write env (WriteCreate c) = pg_courier_Create env c"
| "pg_courier_write env (WriteSave c) = pg_courier_Save env c"
| "pg_courier_write env (WriteZones i zones) = pg_ReplaceZones env i zones"
| "pg_courier_write env (WriteSlot s) = pg_CreateSlot env s"
| "pg_courier_write env (WriteRating r) = pg_SubmitRating env r"

primrec pg_courier_writes :: "'s pg_env \<Rightarrow> courier_write list \<Rightarrow> ('s, unit) pgc_prog" where
  "pg_courier_writes env [] = return ()"
| "pg_courier_writes env (c # cs) = do { _ \<leftarrow> pg_courier_write env c; pg_courier_writes env cs }"

lemma write_leaves:
  assumes "pg_couriers_ok d" shows "leaves (pg_courier_write env c) d (\<lambda>_ d'. pg_couriers_ok d')"
proof (cases c)
  case (WriteZones i zones)
  have "pg_couriers_ok d'" if "zones_replaced (TrimSpace i) zones d d'" "zones \<noteq> []" for d'
    using that assms by (auto simp: zones_replaced_def intro!: replaced_ok)
  then show ?thesis
    unfolding WriteZones pg_courier_write.simps by (intro leaves_post [OF ReplaceZones_leaves]) (use assms in auto)
qed (simp_all add: assms courier_Create_leaves courier_Save_leaves CreateSlot_leaves SubmitRating_leaves)

lemma writes_leaves: "pg_couriers_ok d \<Longrightarrow> leaves (pg_courier_writes env cs) d (\<lambda>_ d'. pg_couriers_ok d')"
proof (induction cs arbitrary: d)
  case Nil
  then show ?case by (auto intro: leaves_return)
next
  case (Cons c cs)
  show ?case
    unfolding pg_courier_writes.simps by (rule leaves_bind [OF write_leaves [OF Cons.prems]]) (rule Cons.IH)
qed

lemma migrated_couriers_ok: "pg_couriers_ok (migrated_couriers now)"
  by (simp add: pg_ok_defs migrated_couriers_def couriers_in_zone_def MaxCouriersPerZoneDefault_def)

text \<open>C21. Whatever sequence of writes the PostgreSQL courier repository runs one after another, with transactions that
  do not overlap, and wherever the connection fails or a commit is lost on the way, its tables stay well-formed: identifiers and phone numbers are unique, every courier with
  zones has exactly one primary zone, no zone has more than a hundred couriers, the live slots of a courier do not
  overlap, and zones, slots and ratings belong to couriers that exist. Two transactions that overlap can exceed the
  capacity of a zone, as the next section shows.\<close>

theorem pg_couriers_invariant:
  "leaves (pg_courier_writes env cs) (migrated_couriers now) (\<lambda>_ d. pg_couriers_ok d)"
  by (rule writes_leaves [OF migrated_couriers_ok])

section \<open>Two transactions at a time\<close>

text \<open>A zone with 99 couriers, and two more couriers that are about to be assigned to it.\<close>

definition full_courier :: "string \<Rightarrow> Courier" where
  "full_courier i = \<lparr>courier_ID = i, Phone = ''+7'' @ i, FirstName = ''A'', LastName = ''B'', courier_VehicleType = VehicleTypeBike,
     IsActive = True, courier_CreatedAt = 1000, courier_UpdatedAt = 1000\<rparr>"

definition full_zone :: "string \<Rightarrow> CourierZone" where
  "full_zone i = \<lparr>cz_CourierID = i, ZoneID = ''msk-cao-arbat'', IsPrimary = True, AssignedAt = 1000\<rparr>"

definition crowd :: "string list" where
  "crowd = map (\<lambda>n. replicate (Suc n) (CHR ''x'')) [0..<99]"

definition crowded :: "string list \<Rightarrow> courier_tables" where
  "crowded assigned = (migrated_couriers 0)\<lparr>t_couriers := map full_courier (crowd @ [''a'', ''b'']),
     t_courier_zones := map full_zone assigned\<rparr>"

lemma crowd_facts:
  "distinct (crowd @ [''a'', ''b''])" "length crowd = 99" "[] \<notin> set crowd"
proof -
  have "inj (\<lambda>n. replicate (Suc n) (CHR ''x''))" by (rule injI) (metis length_replicate nat.inject)
  then have "distinct crowd" unfolding crowd_def distinct_map by (auto intro: inj_on_subset)
  moreover have "''a'' \<notin> set crowd" "''b'' \<notin> set crowd" by (auto simp: crowd_def)
  ultimately show "distinct (crowd @ [''a'', ''b''])" by simp
qed (auto simp: crowd_def)

lemma full_sel [simp]:
  "courier_ID (full_courier i) = i" "cz_CourierID (full_zone i) = i" "ZoneID (full_zone i) = ''msk-cao-arbat''" "IsPrimary (full_zone i)"
  "VehicleType_Valid (courier_VehicleType (full_courier i))" "Phone (full_courier i) = ''+7'' @ i" "cut_zone (full_zone i) = full_zone i"
  by (simp_all add: full_courier_def full_zone_def cut_zone_def pg_time_def)

lemma arbat_known: "IsKnownMoscowZoneID ''msk-cao-arbat''" "pg_text ''msk-cao-arbat''" "pg_text ''a''" "pg_text ''b''"
  by code_simp+

lemma crowd_in_zone: "couriers_in_zone ''msk-cao-arbat'' (map full_zone is) = set is"
  by (simp add: couriers_in_zone_def filter_map comp_def image_image)

lemma crowded_zones: "t_courier_zones (crowded is) = map full_zone is"
  by (simp add: crowded_def)

lemma crowded_ok:
  assumes "distinct is" and "set is \<subseteq> set (crowd @ [''a'', ''b''])" and "length is \<le> 100"
  shows "pg_couriers_ok (crowded is)"
proof -
  have "couriers_in_zone zoneID (map full_zone is) \<subseteq> set is" for zoneID by (auto simp: couriers_in_zone_def)
  then have "card (couriers_in_zone zoneID (map full_zone is)) \<le> length is" for zoneID
    by (meson card_length card_mono finite_set le_trans)
  then have "int (card (couriers_in_zone zoneID (map full_zone is))) \<le> MaxCouriersPerZoneDefault" for zoneID
    using assms(3) by (simp add: MaxCouriersPerZoneDefault_def) (meson le_trans of_nat_le_iff of_nat_numeral)
  moreover have "inj (append ''+7'')" by (rule injI) simp
  ultimately show ?thesis
    using assms(1,2) crowd_facts arbat_known(1)
    by (auto simp: pg_ok_defs crowded_def migrated_couriers_def comp_def zone_key_def distinct_map list_all_iff inj_on_def)
qed

lemma room_checked:
  assumes "i \<notin> set is" and "distinct is" and "length is < 100" and "pg_text i"
  shows "runs (ensureZoneCapacityTx calm_pg i [full_zone i]) (crowded is) None (crowded is)"
proof -
  have "{x \<in> set is. x \<noteq> i} = set is" using assms(1) by auto
  then have "count_others_in_zone ''msk-cao-arbat'' i (crowded is) = int (length is)"
    using assms(2) by (simp add: count_others_in_zone_def crowded_def filter_map comp_def image_image distinct_card)
  then have "\<not> count_others_in_zone (ZoneID (full_zone i)) i (crowded is) \<ge> MaxCouriersPerZoneDefault"
    using assms(3) by (simp add: MaxCouriersPerZoneDefault_def)
  then show ?thesis
    unfolding ensureZoneCapacityTx.simps
    by (intro runs_bind [OF runs_query [OF calm_pg_quiet(1)]]) (use assms(4) arbat_known in \<open>simp_all add: runs_return\<close>)
qed

lemma zone_written:
  assumes "i \<notin> set is" and "pg_text i" and "i \<in> {''a'', ''b''}"
  shows "runs (write_zones calm_pg i [full_zone i]) (crowded is) None (crowded (is @ [i]))"
proof -
  have del: "delete_zones i (crowded is) = Inr ((), crowded is)"
  proof -
    have "filter (\<lambda>z. cz_CourierID z \<noteq> i) (map full_zone is) = map full_zone is" using assms(1) by (auto simp: filter_id_conv)
    then show ?thesis by (simp add: delete_zones_def crowded_def)
  qed
  have ins: "insert_zone (full_zone i) (crowded is) = Inr ((), crowded (is @ [i]))"
    using assms(1,3) by (auto simp: insert_zone_def crowded_def zone_key_def list_ex_iff comp_def simp flip: cut_zone_def)
  show ?thesis
    unfolding write_zones_def insert_zones.simps
    by (rule runs_bind, rule runs_exec(1) [OF calm_pg_quiet(1)], use assms(2) in simp, rule del, simp only: sum.case,
        rule runs_bind, rule runs_exec(1) [OF calm_pg_quiet(1)], use assms(2) arbat_known in simp, rule ins)
      (simp add: runs_return)
qed

text \<open>C22. The limit of a hundred couriers per zone does not hold when transactions overlap. \<open>FOR UPDATE\<close> locks the row of
  one courier, so nothing keeps the transactions of two couriers apart: from a well-formed database with 99 couriers in a
  zone both pass the check of \<open>ensureZoneCapacityTx\<close>, then both write, and the zone has 101 couriers.\<close>

theorem zone_capacity_race:
  "\<exists>d d1 d2. pg_couriers_ok d
     \<and> runs (ensureZoneCapacityTx calm_pg ''a'' [full_zone ''a'']) d None d
     \<and> runs (ensureZoneCapacityTx calm_pg ''b'' [full_zone ''b'']) d None d
     \<and> runs (write_zones calm_pg ''a'' [full_zone ''a'']) d None d1
     \<and> runs (write_zones calm_pg ''b'' [full_zone ''b'']) d1 None d2
     \<and> card (couriers_in_zone ''msk-cao-arbat'' (t_courier_zones d2)) = 101"
proof (intro exI conjI)
  have ab: "''a'' \<notin> set crowd" "''b'' \<notin> set crowd" "distinct crowd" using crowd_facts(1) by auto
  show "pg_couriers_ok (crowded crowd)" by (rule crowded_ok) (use ab crowd_facts in auto)
  show "runs (ensureZoneCapacityTx calm_pg ''a'' [full_zone ''a'']) (crowded crowd) None (crowded crowd)"
    and "runs (ensureZoneCapacityTx calm_pg ''b'' [full_zone ''b'']) (crowded crowd) None (crowded crowd)"
    by (rule room_checked; use ab crowd_facts arbat_known in simp)+
  show "runs (write_zones calm_pg ''a'' [full_zone ''a'']) (crowded crowd) None (crowded (crowd @ [''a'']))"
    by (rule zone_written) (use ab arbat_known in auto)
  show "runs (write_zones calm_pg ''b'' [full_zone ''b'']) (crowded (crowd @ [''a''])) None (crowded ((crowd @ [''a'']) @ [''b'']))"
    by (rule zone_written) (use ab arbat_known in auto)
  have "card (set ((crowd @ [''a'']) @ [''b''])) = 101" using crowd_facts by (subst distinct_card) simp_all
  then show "card (couriers_in_zone ''msk-cao-arbat'' (t_courier_zones (crowded ((crowd @ [''a'']) @ [''b''])))) = 101"
    by (simp only: crowded_zones crowd_in_zone)
qed

end
