(* ===== verification/Pg_Courier_Reads.thy ===== *)
theory Pg_Courier_Reads
  imports Pg_Couriers_Properties Courier_Ratings
begin

text \<open>
  What the PostgreSQL courier repository returns on a server without faults: the rating summary, which has the same
  reference as that of the memory repository, and a slot that it refuses although the memory repository accepts it.
\<close>

section \<open>The rating summary\<close>

definition ratings_of :: "string \<Rightarrow> courier_tables \<Rightarrow> CourierRating list" where
  "ratings_of i d = filter (\<lambda>r. rating_CourierID r = i) (t_courier_ratings d)"

lemma foldr_max: "foldr max xs a = Max (insert a (set xs))" for a :: int
  by (induction xs) (auto simp: insert_commute max.left_commute)

lemma ratings_range:
  assumes "pg_ratings_ok d"
  shows "range_order (row_with rating_ID (ratings_of i d)) (map rating_ID (ratings_of i d))"
    and "range_vals (row_with rating_ID (ratings_of i d)) (map rating_ID (ratings_of i d)) = ratings_of i d"
proof -
  have dist: "distinct (map rating_ID (ratings_of i d))"
    using assms by (simp add: pg_ratings_ok_def ratings_of_def distinct_map_filter)
  have "dom (row_with rating_ID (ratings_of i d)) = set (map rating_ID (ratings_of i d))"
    using row_with_None [of rating_ID "ratings_of i d"] by (auto simp: dom_def)
  then show "range_order (row_with rating_ID (ratings_of i d)) (map rating_ID (ratings_of i d))"
    using dist by (simp add: range_order_def)
  show "range_vals (row_with rating_ID (ratings_of i d)) (map rating_ID (ratings_of i d)) = ratings_of i d"
    using range_vals_rows [of "ratings_of i d" "row_with rating_ID (ratings_of i d)" rating_ID "\<lambda>r. r"] row_with_mem [OF dist] by simp
qed

lemma summarize_correct:
  assumes "pg_ratings_ok d" and "ratings_of i d \<noteq> []" and "int (length (ratings_of i d)) < 2 ^ 50"
  shows "\<exists>t. summarize i d = (fst (summarize i d), Some t)
    \<and> summary_of i (row_with rating_ID (ratings_of i d)) (fst (summarize i d)\<lparr>LastRatingAt := t\<rparr>)"
proof -
  let ?m = "row_with rating_ID (ratings_of i d)" and ?ks = "map rating_ID (ratings_of i d)"
  note range = ratings_range [OF assms(1), of i]
  have count: "int (length (filter P (ratings_of i d))) = how_many P ?m" for P
    using how_many_range [OF range(1), of P] by (simp only: range(2))
  from count [of "\<lambda>_. True"] have total: "int (length (ratings_of i d)) = how_many (\<lambda>_. True) ?m" by simp
  have "map Score (ratings_of i d) = map (\<lambda>a. Score (the (?m a))) ?ks"
    using row_with_mem [of rating_ID "ratings_of i d"] range(1) by (auto simp: range_order_def)
  then have sum: "(\<Sum>a \<in> dom ?m. Score (the (?m a))) = sum_list (map Score (ratings_of i d))"
    using range(1) by (simp only: range_order_def sum_list_distinct_conv_sum_set)
  have scores: "\<forall>rt \<in> set (ratings_of i d). 1 \<le> Score rt \<and> Score rt \<le> 5"
    using assms(1) by (simp add: pg_ratings_ok_def ratings_of_def)
  have t: "0 \<le> sum_list (map Score (ratings_of i d))" "sum_list (map Score (ratings_of i d)) \<le> 2 ^ 53"
    using score_total [OF scores] assms(3) by simp_all
  have "fsum (map of_int (map Score (ratings_of i d))) = of_int (sum_list (map Score (ratings_of i d)))"
    using scores by (intro fsum_ints [OF _ t(2)]) force
  moreover have "rnd64 (of_nat (length (ratings_of i d))) = of_nat (length (ratings_of i d))"
    using float64_nat [of "length (ratings_of i d)"] assms(3) by (simp add: float64_def)
  ultimately have avg: "rnd64 (fsum (map (\<lambda>r. of_int (Score r)) (ratings_of i d)) / rnd64 (of_nat (length (ratings_of i d))))
      = rnd64 (of_int (sum_list (map Score (ratings_of i d))) / of_int (int (length (ratings_of i d))))"
    by (simp add: comp_def)
  have "ran ?m = set (ratings_of i d)" using set_range_vals_ran [OF range(1)] by (simp only: range(2))
  moreover have "Max (insert (rating_CreatedAt (hd (ratings_of i d))) (set (map rating_CreatedAt (ratings_of i d))))
      = Max (rating_CreatedAt ` set (ratings_of i d))"
    using assms(2) by (simp add: insert_absorb)
  ultimately show ?thesis
    using assms(2) mean_score [OF scores assms(2)]
    by (simp add: summarize_def Let_def ratings_of_def [symmetric] summary_of_def count total [symmetric] sum foldr_max avg)
qed

text \<open>\<open>GetRatingSummary\<close> of the PostgreSQL repository, computed with SQL aggregates, meets the same order-free reference
  as the loop of the memory repository: each counter is the number of stored ratings of its score or with its tag,
  the average is the exact mean of the scores rounded once to \<open>float64\<close>, between 1 and 5, and the last rating is the latest.\<close>

theorem pg_rating_summary_correct:
  assumes "quiet_pg env" and "pg_couriers_ok d" and "TrimSpace i = i" and "i \<noteq> []" and "pg_text i"
    and "i \<in> set (map courier_ID (t_couriers d))" and "ratings_of i d \<noteq> []"
    and "int (length (ratings_of i d)) < 2 ^ 50"
  shows "\<exists>s. runs (pg_GetRatingSummary env i) d (Inr s) d \<and> summary_of i (row_with rating_ID (ratings_of i d)) s"
proof -
  obtain t where t: "summarize i d = (fst (summarize i d), Some t)"
      "summary_of i (row_with rating_ID (ratings_of i d)) (fst (summarize i d)\<lparr>LastRatingAt := t\<rparr>)"
    using summarize_correct [OF _ assms(7,8)] assms(2) by (auto simp: pg_couriers_ok_def)
  have exists: "runs (ensureCourierExists env i) d None d"
    unfolding ensureCourierExists_def
    by (rule runs_bind [OF runs_query [OF assms(1)]]) (use assms(5,6) in \<open>simp_all add: runs_return\<close>)
  have "runs (pg_GetRatingSummary env i) d (Inr (fst (summarize i d)\<lparr>LastRatingAt := t\<rparr>)) d"
    unfolding pg_GetRatingSummary_def Let_def assms(3) using assms(4)
    by (simp only: if_False, intro runs_bind [OF exists])
      (simp, rule runs_bind [OF runs_query [OF assms(1)]], use assms(5) t(1) in \<open>auto simp: runs_return split: prod.split\<close>)
  then show ?thesis using t(2) by blast
qed

definition rated :: courier_tables where
  "rated = (migrated_couriers 0)\<lparr>t_couriers := [full_courier ''c1''], t_courier_ratings := [thanks]\<rparr>"

theorem pg_rating_summary_correct_witness:
  "\<exists>s. runs (pg_GetRatingSummary calm_pg ''c1'') rated (Inr s) rated \<and> summary_of ''c1'' [''r1'' \<mapsto> thanks] s"
proof -
  have ok: "pg_couriers_ok rated"
    by (simp add: pg_ok_defs rated_def full_courier_def thanks_def migrated_couriers_def
        couriers_in_zone_def MaxCouriersPerZoneDefault_def)
  have row: "ratings_of ''c1'' rated = [thanks]" "row_with rating_ID [thanks] = [''r1'' \<mapsto> thanks]"
    by (auto simp: ratings_of_def rated_def row_with_def thanks_def)
  have "TrimSpace ''c1'' = ''c1''" "pg_text ''c1''" "''c1'' \<in> set (map courier_ID (t_couriers rated))" by code_simp+
  then show ?thesis
    using pg_rating_summary_correct [OF calm_pg_quiet(1) ok, of "''c1''"] by (simp only: row) simp
qed

section \<open>Canceled slots\<close>

definition canceled_shift :: CourierSlot where
  "canceled_shift = (shift ''s1'' 1000 12)\<lparr>slot_Status := CourierSlotStatusCanceled\<rparr>"

definition canceled_tables :: courier_tables where
  "canceled_tables = (migrated_couriers 0)\<lparr>t_couriers := [(full_courier ''c1'')\<lparr>courier_VehicleType := VehicleTypeCar\<rparr>],
     t_courier_slots := [canceled_shift]\<rparr>"

definition canceled_garage :: courier_repo where
  "canceled_garage = snd (courier_CreateSlot [] 7 canceled_shift garage1)"

text \<open>After a slot was canceled its time can be booked again in the memory repository, but not in PostgreSQL, where the
  unique index on the start of a slot covers canceled slots.\<close>

theorem canceled_slot_blocks_rebooking:
  "fst (courier_CreateSlot [''s1''] 7 (shift ''s2'' 1000 12) canceled_garage) = None
   \<and> fst (run_state (pg_CreateSlot calm_pg (shift ''s2'' 1000 12)) \<lparr>pg_db = canceled_tables, pg_ext = ()\<rparr>)
     = Some (E ErrCourierSlotConflict)
   \<and> \<not> overlap_exists (shift ''s2'' 1000 12) canceled_tables"
  by (intro conjI; code_simp)

end
