(* ===== verification/Migrator.thy ===== *)
theory Migrator
  imports Sql
begin

text \<open>
  \<open>internal/storage/postgres/migrator.go\<close> and \<open>cmd/migrate/main.go\<close>: the migrations of the schema.

  \<^item> The schema is a value of type \<open>'x\<close>, and \<open>run_sql\<close> is what PostgreSQL does with the text of a migration: a new schema
    or an error. Transactions and faults are those of \<open>Sql\<close>; DDL is transactional in PostgreSQL.
  \<^item> The table \<open>schema_migrations\<close> is the list of its rows, or \<open>None\<close> before it exists.
  \<^item> A directory is the list of its files as \<open>fs.Glob\<close> returns them, with base name and contents. The map of builders is
    an association list: its iteration order does not matter, since the versions are sorted afterwards.
  \<^item> The advisory lock that keeps other migrators away is a statement that may fail; that it is held is part of the
    assumption that a method runs alone.
\<close>

section \<open>Reading the migrations\<close>

record migration =
  mig_Version :: int
  mig_Name :: string
  UpSQL :: string
  DownSQL :: string

datatype migrationDirection = migrationUp | migrationDown

definition digit_char :: "char \<Rightarrow> bool" where
  "digit_char c \<longleftrightarrow> CHR ''0'' \<le> c \<and> c \<le> CHR ''9''"

definition word_char :: "char \<Rightarrow> bool" where
  "word_char c \<longleftrightarrow> digit_char c \<or> (CHR ''a'' \<le> c \<and> c \<le> CHR ''z'') \<or> (CHR ''A'' \<le> c \<and> c \<le> CHR ''Z'') \<or> c = CHR ''_''"

text \<open>The regular expression for file names. The classes before and after each fixed character are disjoint from it, so
  there is at most one way to match.\<close>

definition migrationFilePattern :: "string \<Rightarrow> (string \<times> string \<times> migrationDirection) option" where
  "migrationFilePattern base =
     (let digits1 = takeWhile digit_char base in
      case dropWhile digit_char base of
        [] \<Rightarrow> None
      | c # rest \<Rightarrow>
          let name = takeWhile word_char rest; ext = dropWhile word_char rest in
          if digits1 = [] \<or> c \<noteq> CHR ''_'' \<or> name = [] then None
          else if ext = ''.up.sql'' then Some (digits1, name, migrationUp)
          else if ext = ''.down.sql'' then Some (digits1, name, migrationDown)
          else None)"

definition digits_value :: "string \<Rightarrow> int" where
  "digits_value ds = fold (\<lambda>c n. 10 * n + (int (of_char c) - 48)) ds 0"

definition ParseVersion :: "string \<Rightarrow> error + int" where
  "ParseVersion ds = (if digits_value ds \<le> max_int64 then Inr (digits_value ds) else Inl (Opaque ''value out of range''))"

text \<open>The loop over the files, with the builders so far.\<close>

fun load_files :: "(string \<times> (error + bytes)) list \<Rightarrow> (int \<times> migration) list \<Rightarrow> error + (int \<times> migration) list" where
  "load_files [] builders = Inr builders"
| "load_files ((base, content) # files) builders =
     (case migrationFilePattern base of
        None \<Rightarrow> Inl (Opaque (''invalid migration file name: '' @ base))
      | Some (ds, name, direction) \<Rightarrow>
          (case ParseVersion ds of
             Inl err \<Rightarrow> Inl (Wrapped (''parse migration version from '' @ base) err)
           | Inr version \<Rightarrow>
               (case content of
                  Inl err \<Rightarrow> Inl (Wrapped (''read migration file sql/migrations/'' @ base) err)
                | Inr bodyRaw \<Rightarrow>
                    let body = TrimSpace bodyRaw in
                    if body = [] then Inl (Opaque (''migration file is empty: '' @ base))
                    else
                      let builder = (case map_of builders version of
                             Some b \<Rightarrow> b
                           | None \<Rightarrow> \<lparr>mig_Version = version, mig_Name = name, UpSQL = [], DownSQL = []\<rparr>) in
                      if mig_Name builder \<noteq> name
                      then Inl (Opaque (''migration name mismatch for version '' @ int_string version @ '': '' @ mig_Name builder @ '' vs '' @ name))
                      else (case direction of
                         migrationUp \<Rightarrow>
                           if UpSQL builder \<noteq> [] then Inl (Opaque (''duplicate up migration for version '' @ int_string version))
                           else load_files files (AList.update version (builder\<lparr>UpSQL := body\<rparr>) builders)
                       | migrationDown \<Rightarrow>
                           if DownSQL builder \<noteq> [] then Inl (Opaque (''duplicate down migration for version '' @ int_string version))
                           else load_files files (AList.update version (builder\<lparr>DownSQL := body\<rparr>) builders)))))"

fun complete_migrations :: "(int \<times> migration) list \<Rightarrow> int list \<Rightarrow> error + migration list" where
  "complete_migrations builders [] = Inr []"
| "complete_migrations builders (version # versions) =
     (case map_of builders version of
        None \<Rightarrow> Inl (Opaque ''nil builder'')
      | Some b \<Rightarrow>
          if UpSQL b = [] \<or> DownSQL b = []
          then Inl (Opaque (''migration '' @ int_string (mig_Version b) @ ''_'' @ mig_Name b @ '' must have both up and down files''))
          else (case complete_migrations builders versions of Inl err \<Rightarrow> Inl err | Inr ms \<Rightarrow> Inr (b # ms)))"

definition loadMigrationsFromFS :: "error + (string \<times> (error + bytes)) list \<Rightarrow> error + migration list" where
  "loadMigrationsFromFS glob =
     (case glob of
        Inl err \<Rightarrow> Inl (Wrapped ''list migrations'' err)
      | Inr files \<Rightarrow>
          if files = [] then Inl (Opaque ''no migration files found'')
          else (case load_files files [] of
             Inl err \<Rightarrow> Inl err
           | Inr builders \<Rightarrow> complete_migrations builders (sort_slice (<) (map fst builders))))"

section \<open>Applying them\<close>

record 'x mig_tables =
  mig_schema :: 'x
  schema_migrations :: "(int \<times> string) list option"

text \<open>The rows; without the table a statement on it fails.\<close>

definition on_rows ::
  "((int \<times> string) list \<Rightarrow> sqlerr + 'a \<times> (int \<times> string) list) \<Rightarrow> 'x mig_tables \<Rightarrow> sqlerr + 'a \<times> 'x mig_tables" where
  "on_rows f d =
     (case schema_migrations d of
        None \<Rightarrow> Inl (PgError ''42P01'' [])
      | Some rows \<Rightarrow> (case f rows of Inl e \<Rightarrow> Inl e | Inr (a, rows') \<Rightarrow> Inr (a, d\<lparr>schema_migrations := Some rows'\<rparr>)))"

definition ensure_table :: "'x mig_tables \<Rightarrow> sqlerr + unit \<times> 'x mig_tables" where
  "ensure_table d =
     Inr ((), case schema_migrations d of None \<Rightarrow> d\<lparr>schema_migrations := Some []\<rparr> | Some _ \<Rightarrow> d)"

definition run_migration :: "(string \<Rightarrow> 'x \<Rightarrow> sqlerr + 'x) \<Rightarrow> string \<Rightarrow> 'x mig_tables \<Rightarrow> sqlerr + unit \<times> 'x mig_tables" where
  "run_migration run_sql body d =
     (case run_sql body (mig_schema d) of Inl e \<Rightarrow> Inl e | Inr x \<Rightarrow> Inr ((), d\<lparr>mig_schema := x\<rparr>))"

definition insert_version :: "migration \<Rightarrow> (int \<times> string) list \<Rightarrow> sqlerr + unit \<times> (int \<times> string) list" where
  "insert_version m rows =
     (case insert_row fst (mig_Version m, mig_Name m) rows of Inl e \<Rightarrow> Inl e | Inr rows' \<Rightarrow> Inr ((), rows'))"

definition delete_version :: "int \<Rightarrow> (int \<times> string) list \<Rightarrow> sqlerr + unit \<times> (int \<times> string) list" where
  "delete_version v rows = Inr ((), filter (\<lambda>r. fst r \<noteq> v) rows)"

type_synonym ('x, 's, 'a) mig_prog = "(('x mig_tables, 's) pg_world, 'a) prog"

definition applyOneUp ::
  "'s pg_env \<Rightarrow> (string \<Rightarrow> 'x \<Rightarrow> sqlerr + 'x) \<Rightarrow> migration \<Rightarrow> ('x, 's, error option) mig_prog" where
  "applyOneUp env run_sql m = do {
     tx \<leftarrow> sql_begin env;
     (case tx of
        Inl err \<Rightarrow> return (Some (Wrapped (''begin migration tx (up '' @ int_string (mig_Version m) @ '')'') err))
      | Inr saved \<Rightarrow> do {
          res \<leftarrow> sql_exec env [] (run_migration run_sql (UpSQL m));
          (case res of
             Inl err \<Rightarrow> do {
               _ \<leftarrow> sql_rollback saved;
               return (Some (Wrapped (''execute up migration '' @ int_string (mig_Version m) @ ''_'' @ mig_Name m) (sql_error err)))
             }
           | Inr _ \<Rightarrow> do {
               res \<leftarrow> sql_exec env [mig_Name m] (on_rows (insert_version m));
               (case res of
                  Inl err \<Rightarrow> do {
                    _ \<leftarrow> sql_rollback saved;
                    return (Some (Wrapped (''record up migration '' @ int_string (mig_Version m) @ ''_'' @ mig_Name m) (sql_error err)))
                  }
                | Inr _ \<Rightarrow> do {
                    err \<leftarrow> sql_commit env saved;
                    (case err of
                       Some err \<Rightarrow> return (Some (Wrapped (''commit up migration '' @ int_string (mig_Version m) @ ''_'' @ mig_Name m) err))
                     | None \<Rightarrow> return None)
                  })
             })
        })
   }"

definition applyOneDown ::
  "'s pg_env \<Rightarrow> (string \<Rightarrow> 'x \<Rightarrow> sqlerr + 'x) \<Rightarrow> migration \<Rightarrow> ('x, 's, error option) mig_prog" where
  "applyOneDown env run_sql m = do {
     tx \<leftarrow> sql_begin env;
     (case tx of
        Inl err \<Rightarrow> return (Some (Wrapped (''begin migration tx (down '' @ int_string (mig_Version m) @ '')'') err))
      | Inr saved \<Rightarrow> do {
          res \<leftarrow> sql_exec env [] (run_migration run_sql (DownSQL m));
          (case res of
             Inl err \<Rightarrow> do {
               _ \<leftarrow> sql_rollback saved;
               return (Some (Wrapped (''execute down migration '' @ int_string (mig_Version m) @ ''_'' @ mig_Name m) (sql_error err)))
             }
           | Inr _ \<Rightarrow> do {
               res \<leftarrow> sql_exec env [] (on_rows (delete_version (mig_Version m)));
               (case res of
                  Inl err \<Rightarrow> do {
                    _ \<leftarrow> sql_rollback saved;
                    return (Some (Wrapped (''delete migration record '' @ int_string (mig_Version m) @ ''_'' @ mig_Name m) (sql_error err)))
                  }
                | Inr _ \<Rightarrow> do {
                    err \<leftarrow> sql_commit env saved;
                    (case err of
                       Some err \<Rightarrow> return (Some (Wrapped (''commit down migration '' @ int_string (mig_Version m) @ ''_'' @ mig_Name m) err))
                     | None \<Rightarrow> return None)
                  })
             })
        })
   }"

definition loadAppliedVersions :: "'s pg_env \<Rightarrow> ('x, 's, error + int set) mig_prog" where
  "loadAppliedVersions env = do {
     res \<leftarrow> sql_exec env [] (on_rows (\<lambda>rows. Inr (map fst rows, rows)));
     (case res of
        Inl err \<Rightarrow> return (Inl (Wrapped ''query applied migrations'' (sql_error err)))
      | Inr versions \<Rightarrow> do {
          err \<leftarrow> rows_err env;
          return (case err of
             Some err \<Rightarrow> Inl (Wrapped ''iterate applied migrations'' err)
           | None \<Rightarrow> Inr (set versions))
        })
   }"

definition loadAppliedVersionsDesc :: "'s pg_env \<Rightarrow> int \<Rightarrow> ('x, 's, error + int list) mig_prog" where
  "loadAppliedVersionsDesc env max_n = do {
     res \<leftarrow> sql_exec env [] (on_rows (\<lambda>rows. Inr (take (nat max_n) (sort_slice (>) (map fst rows)), rows)));
     (case res of
        Inl err \<Rightarrow> return (Inl (Wrapped ''query applied migrations desc'' (sql_error err)))
      | Inr versions \<Rightarrow> do {
          err \<leftarrow> rows_err env;
          return (case err of
             Some err \<Rightarrow> Inl (Wrapped ''iterate applied migrations desc'' err)
           | None \<Rightarrow> Inr versions)
        })
   }"

fun up_loop ::
  "'s pg_env \<Rightarrow> (string \<Rightarrow> 'x \<Rightarrow> sqlerr + 'x) \<Rightarrow> int set \<Rightarrow> int \<Rightarrow> int \<Rightarrow> migration list \<Rightarrow> ('x, 's, error option) mig_prog" where
  "up_loop env run_sql applied steps appliedSteps [] = return None"
| "up_loop env run_sql applied steps appliedSteps (m # ms) =
     (if mig_Version m \<in> applied then up_loop env run_sql applied steps appliedSteps ms
      else do {
        err \<leftarrow> applyOneUp env run_sql m;
        (case err of
           Some err \<Rightarrow> return (Some err)
         | None \<Rightarrow>
             if steps > 0 \<and> appliedSteps + 1 \<ge> steps then return None
             else up_loop env run_sql applied steps (appliedSteps + 1) ms)
      })"

definition applyUp ::
  "'s pg_env \<Rightarrow> (string \<Rightarrow> 'x \<Rightarrow> sqlerr + 'x) \<Rightarrow> migration list \<Rightarrow> int \<Rightarrow> ('x, 's, error option) mig_prog" where
  "applyUp env run_sql migrations steps = do {
     applied \<leftarrow> loadAppliedVersions env;
     (case applied of
        Inl err \<Rightarrow> return (Some err)
      | Inr applied \<Rightarrow> up_loop env run_sql applied steps 0 migrations)
   }"

fun down_loop ::
  "'s pg_env \<Rightarrow> (string \<Rightarrow> 'x \<Rightarrow> sqlerr + 'x) \<Rightarrow> (int \<rightharpoonup> migration) \<Rightarrow> int list \<Rightarrow> ('x, 's, error option) mig_prog" where
  "down_loop env run_sql versionMap [] = return None"
| "down_loop env run_sql versionMap (version # versions) =
     (case versionMap version of
        None \<Rightarrow> return (Some (Opaque (''cannot rollback unknown migration version '' @ int_string version)))
      | Some m \<Rightarrow> do {
          err \<leftarrow> applyOneDown env run_sql m;
          (case err of
             Some err \<Rightarrow> return (Some err)
           | None \<Rightarrow> down_loop env run_sql versionMap versions)
        })"

definition applyDown ::
  "'s pg_env \<Rightarrow> (string \<Rightarrow> 'x \<Rightarrow> sqlerr + 'x) \<Rightarrow> migration list \<Rightarrow> int \<Rightarrow> ('x, 's, error option) mig_prog" where
  "applyDown env run_sql migrations steps = do {
     versions \<leftarrow> loadAppliedVersionsDesc env steps;
     (case versions of
        Inl err \<Rightarrow> return (Some err)
      | Inr versions \<Rightarrow>
          down_loop env run_sql (fold (\<lambda>m vm. vm(mig_Version m \<mapsto> m)) migrations Map.empty) versions)
   }"

definition migrate ::
  "'s pg_env \<Rightarrow> (string \<Rightarrow> 'x \<Rightarrow> sqlerr + 'x) \<Rightarrow> (error + (string \<times> (error + bytes)) list) \<Rightarrow> bool
     \<Rightarrow> migrationDirection \<Rightarrow> int \<Rightarrow> ('x, 's, error option) mig_prog" where
  "migrate env run_sql migrationsFS initialized direction steps =
     (if \<not> initialized then return (Some (Opaque ''postgres store is not initialized''))
      else case loadMigrationsFromFS migrationsFS of
        Inl err \<Rightarrow> return (Some err)
      | Inr migrations \<Rightarrow> do {
          conn \<leftarrow> pg_ask (pg_fault env);
          (case conn of
             Some err \<Rightarrow> return (Some (Wrapped ''acquire db connection'' err))
           | None \<Rightarrow> do {
               lock \<leftarrow> sql_query env [] (\<lambda>d. ());
               (case lock of
                  Inl err \<Rightarrow> return (Some (Wrapped ''acquire migration lock'' (sql_error err)))
                | Inr _ \<Rightarrow> do {
                    res \<leftarrow> sql_exec env [] ensure_table;
                    err \<leftarrow> (case res of
                       Inl err \<Rightarrow> return (Some (Wrapped ''ensure migration table'' (sql_error err)))
                     | Inr _ \<Rightarrow> (case direction of
                         migrationUp \<Rightarrow> applyUp env run_sql migrations steps
                       | migrationDown \<Rightarrow> applyDown env run_sql migrations steps));
                    _ \<leftarrow> sql_query env [] (\<lambda>d. ());
                    return err
                  })
             })
        })"

definition MigrateUp where
  "MigrateUp env run_sql migrationsFS initialized steps = migrate env run_sql migrationsFS initialized migrationUp steps"

definition MigrateDown where
  "MigrateDown env run_sql migrationsFS initialized steps =
     migrate env run_sql migrationsFS initialized migrationDown (if steps \<le> 0 then 1 else steps)"

definition MigrationStatus :: "'s pg_env \<Rightarrow> bool \<Rightarrow> ('x, 's, error + int \<times> int) mig_prog" where
  "MigrationStatus env initialized =
     (if \<not> initialized then return (Inl (Opaque ''postgres store is not initialized''))
      else do {
        res \<leftarrow> sql_exec env [] ensure_table;
        (case res of
           Inl err \<Rightarrow> return (Inl (Wrapped ''ensure migration table'' (sql_error err)))
         | Inr _ \<Rightarrow> do {
             res \<leftarrow> sql_exec env [] (on_rows (\<lambda>rows. Inr ((foldr max (map fst rows) 0, int (length rows)), rows)));
             return (case res of
                Inl err \<Rightarrow> Inl (Wrapped ''query migration status'' (sql_error err))
              | Inr st \<Rightarrow> Inr st)
           })
      })"

section \<open>The store and the command\<close>

text \<open>\<open>sql_open\<close> stands for \<open>sql.Open\<close>, which only parses the DSN; the ping is the first contact with the server.\<close>

definition store_Open :: "'s pg_env \<Rightarrow> (string \<Rightarrow> error option) \<Rightarrow> string \<Rightarrow> ('x, 's, error option) mig_prog" where
  "store_Open env sql_open dsn =
     (case sql_open dsn of
        Some err \<Rightarrow> return (Some (Wrapped ''open postgres connection'' err))
      | None \<Rightarrow> do {
          ping \<leftarrow> pg_ask (pg_fault env);
          return (case ping of Some err \<Rightarrow> Some (Wrapped ''ping postgres'' err) | None \<Rightarrow> None)
        })"

definition store_Ping :: "'s pg_env \<Rightarrow> bool \<Rightarrow> ('x, 's, error option) mig_prog" where
  "store_Ping env initialized =
     (if \<not> initialized then return (Some (Opaque ''postgres store is not initialized'')) else pg_ask (pg_fault env))"

definition EnsureSchema where
  "EnsureSchema env run_sql migrationsFS initialized = MigrateUp env run_sql migrationsFS initialized 0"

text \<open>The command: what it writes to standard output, or to standard error before it exits with status 1.\<close>

definition print_status :: "string \<Rightarrow> error + int \<times> int \<Rightarrow> string + string" where
  "print_status what res =
     (case res of
        Inl err \<Rightarrow> Inl (''migration status failed: '' @ Error err)
      | Inr (version, n) \<Rightarrow> Inr (what @ '': version='' @ int_string version @ '' applied='' @ int_string n))"

definition migrate_main ::
  "'s pg_env \<Rightarrow> (string \<Rightarrow> error option) \<Rightarrow> (string \<Rightarrow> 'x \<Rightarrow> sqlerr + 'x) \<Rightarrow> (error + (string \<times> (error + bytes)) list)
     \<Rightarrow> string \<Rightarrow> int \<Rightarrow> string \<Rightarrow> string \<Rightarrow> ('x, 's, string + string) mig_prog" where
  "migrate_main env sql_open run_sql migrationsFS direction steps dsn env_dsn =
     (let dsn = (if TrimSpace dsn = [] then TrimSpace env_dsn else dsn) in
      if dsn = [] then return (Inl ''OMS_POSTGRES_DSN (or -dsn) is required'')
      else do {
        err \<leftarrow> store_Open env sql_open dsn;
        (case err of
           Some err \<Rightarrow> return (Inl (''open postgres store: '' @ Error err))
         | None \<Rightarrow>
             let d = ToLower (TrimSpace direction) in
             if d = ''up'' then do {
               err \<leftarrow> MigrateUp env run_sql migrationsFS True steps;
               (case err of
                  Some err \<Rightarrow> return (Inl (''migrate up failed: '' @ Error err))
                | None \<Rightarrow> do { res \<leftarrow> MigrationStatus env True; return (print_status ''migrate up ok'' res) })
             }
             else if d = ''down'' then do {
               err \<leftarrow> MigrateDown env run_sql migrationsFS True (if steps \<le> 0 then 1 else steps);
               (case err of
                  Some err \<Rightarrow> return (Inl (''migrate down failed: '' @ Error err))
                | None \<Rightarrow> do { res \<leftarrow> MigrationStatus env True; return (print_status ''migrate down ok'' res) })
             }
             else if d = ''status'' then do {
               res \<leftarrow> MigrationStatus env True;
               return (print_status ''migration status'' res)
             }
             else return (Inl (''unsupported direction: '' @ direction @ '' (use up|down|status)'')))
      })"

end
