(* ===== verification/Migrator_Properties.thy ===== *)
theory Migrator_Properties
  imports Migrator "HOL-Library.Multiset"
begin

text \<open>
  The migrations that are read are exactly the files of the directory, in ascending order of their versions, and the
  migrator keeps the schema and the table of applied migrations in step.
\<close>

section \<open>What is read\<close>

text \<open>A file as version, name, direction and text; a migration as its two files.\<close>

definition file_entry :: "string \<times> (error + bytes) \<Rightarrow> int \<times> string \<times> migrationDirection \<times> string" where
  "file_entry file =
     (case (migrationFilePattern (fst file), snd file) of
        (Some (ds, name, direction), Inr body) \<Rightarrow> (digits_value ds, name, direction, TrimSpace body)
      | _ \<Rightarrow> (0, [], migrationUp, []))"

definition entry :: "migration \<Rightarrow> migrationDirection \<Rightarrow> string \<Rightarrow> (int \<times> string \<times> migrationDirection \<times> string) multiset" where
  "entry m direction body = (if body = [] then {#} else {#(mig_Version m, mig_Name m, direction, body)#})"

definition entries :: "migration \<Rightarrow> (int \<times> string \<times> migrationDirection \<times> string) multiset" where
  "entries m = entry m migrationUp (UpSQL m) + entry m migrationDown (DownSQL m)"

definition all_entries :: "migration list \<Rightarrow> (int \<times> string \<times> migrationDirection \<times> string) multiset" where
  "all_entries ms = sum_list (map entries ms)"

definition builder_ok :: "int \<times> migration \<Rightarrow> bool" where
  "builder_ok = (\<lambda>(v, b). mig_Version b = v \<and> 0 \<le> v \<and> v \<le> max_int64 \<and> mig_Name b \<noteq> [] \<and> list_all word_char (mig_Name b))"

lemma all_entries_update:
  "entries b' = (case map_of bs v of None \<Rightarrow> {#} | Some b \<Rightarrow> entries b) + X \<Longrightarrow>
     all_entries (map snd (AList.update v b' bs)) = all_entries (map snd bs) + X"
  by (induction bs) (auto simp: all_entries_def ac_simps split: option.splits)

lemma builder_ok_update:
  "list_all builder_ok bs \<Longrightarrow> builder_ok (v, b') \<Longrightarrow> list_all builder_ok (AList.update v b' bs)"
  by (induction bs) auto

lemma builder_ok_map_of: "list_all builder_ok bs \<Longrightarrow> map_of bs v = Some b \<Longrightarrow> builder_ok (v, b)"
  by (induction bs) (auto split: if_splits)

lemma digits_value_nonneg: "list_all digit_char ds \<Longrightarrow> 0 \<le> n \<Longrightarrow> 0 \<le> fold (\<lambda>c n. 10 * n + (int (of_char c) - 48)) ds n"
proof (induction ds arbitrary: n)
  case (Cons c ds)
  have "48 \<le> (of_char c :: nat)" using Cons.prems(1) by (simp add: digit_char_def less_eq_char_def)
  then have "48 \<le> int (of_char c)" by linarith
  then show ?case using Cons by simp
qed simp

lemma pattern_Some:
  "migrationFilePattern base = Some (ds, name, direction) \<Longrightarrow> 0 \<le> digits_value ds \<and> name \<noteq> [] \<and> list_all word_char name"
  unfolding migrationFilePattern_def digits_value_def
  by (auto simp: Let_def list_all_iff dest: set_takeWhileD split: list.splits if_splits intro!: digits_value_nonneg)

lemma load_files_entries:
  assumes "load_files files bs = Inr bs'" and "list_all builder_ok bs" and "distinct (map fst bs)"
  shows "all_entries (map snd bs') = all_entries (map snd bs) + mset (map file_entry files)
    \<and> list_all builder_ok bs' \<and> distinct (map fst bs')"
  using assms
proof (induction files bs rule: load_files.induct)
  case (2 base content files bs)
  obtain ds name direction where pat: "migrationFilePattern base = Some (ds, name, direction)"
    using "2.prems"(1) by (auto split: option.splits)
  obtain body where content: "content = Inr body" and version: "ParseVersion ds = Inr (digits_value ds)"
      and range: "digits_value ds \<le> max_int64"
    using "2.prems"(1) pat by (auto simp: ParseVersion_def split: sum.splits if_splits)
  define b where "b = (case map_of bs (digits_value ds) of Some b \<Rightarrow> b
      | None \<Rightarrow> \<lparr>mig_Version = digits_value ds, mig_Name = name, UpSQL = [], DownSQL = []\<rparr>)"
  define b' where "b' = (case direction of migrationUp \<Rightarrow> b\<lparr>UpSQL := TrimSpace body\<rparr>
      | migrationDown \<Rightarrow> b\<lparr>DownSQL := TrimSpace body\<rparr>)"
  have ok: "TrimSpace body \<noteq> []" "mig_Name b = name"
      "case direction of migrationUp \<Rightarrow> UpSQL b = [] | migrationDown \<Rightarrow> DownSQL b = []"
    and rest: "load_files files (AList.update (digits_value ds) b' bs) = Inr bs'"
    using "2.prems"(1) pat version content
    by (auto simp: Let_def b_def [symmetric] b'_def split: if_splits migrationDirection.splits)
  have b: "builder_ok (digits_value ds, b)"
    using builder_ok_map_of [OF "2.prems"(2)] pattern_Some [OF pat] range
    by (auto simp: b_def builder_ok_def split: option.splits)
  then have b'_ok: "builder_ok (digits_value ds, b')" by (auto simp: b'_def builder_ok_def split: migrationDirection.split)
  have "file_entry (base, content) = (mig_Version b, mig_Name b, direction, TrimSpace body)"
    using ok(2) pat content b by (simp add: file_entry_def builder_ok_def)
  then have "entries b' = entries b + {#file_entry (base, content)#}"
    using ok(1,3) by (cases direction) (simp_all add: entries_def entry_def b'_def)
  moreover have "entries b = (case map_of bs (digits_value ds) of None \<Rightarrow> {#} | Some b \<Rightarrow> entries b)"
    by (auto simp: b_def entries_def entry_def split: option.split)
  ultimately have new: "all_entries (map snd (AList.update (digits_value ds) b' bs))
      = all_entries (map snd bs) + {#file_entry (base, content)#}"
    by (intro all_entries_update) simp
  have "all_entries (map snd bs') = all_entries (map snd (AList.update (digits_value ds) b' bs)) + mset (map file_entry files)
      \<and> list_all builder_ok bs' \<and> distinct (map fst bs')"
  proof (cases direction)
    case migrationUp
    show ?thesis
      using "2.IH"(1) [OF pat _ _ version content refl _ b_def] ok rest b'_ok migrationUp "2.prems"(2,3)
      by (simp add: b'_def builder_ok_update distinct_update)
  next
    case migrationDown
    show ?thesis
      using "2.IH"(2) [OF pat _ _ version content refl _ b_def] ok rest b'_ok migrationDown "2.prems"(2,3)
      by (simp add: b'_def builder_ok_update distinct_update)
  qed
  then show ?case using new by simp
qed simp

lemma complete_Inr:
  "complete_migrations bs vs = Inr ms \<Longrightarrow>
     map Some ms = map (map_of bs) vs \<and> list_all (\<lambda>m. UpSQL m \<noteq> [] \<and> DownSQL m \<noteq> []) ms"
  by (induction vs arbitrary: ms) (auto split: option.splits if_splits sum.splits)

lemma map_of_keys: "distinct (map fst bs) \<Longrightarrow> map (map_of bs) (map fst bs) = map Some (map snd bs)"
  by (induction bs) (auto simp: rev_image_eqI)

lemma mset_map_Some: "mset (map Some xs) = mset (map Some ys) \<Longrightarrow> mset xs = mset ys"
proof -
  assume "mset (map Some xs) = mset (map Some ys)"
  then have "image_mset the (mset (map Some xs)) = image_mset the (mset (map Some ys))" by (rule arg_cong)
  then show ?thesis by (simp add: image_mset.compositionality comp_def)
qed

text \<open>A migration that can be run.\<close>

definition good_migration :: "migration \<Rightarrow> bool" where
  "good_migration m \<longleftrightarrow> 0 \<le> mig_Version m \<and> mig_Version m \<le> max_int64 \<and> mig_Name m \<noteq> [] \<and> list_all word_char (mig_Name m)
     \<and> UpSQL m \<noteq> [] \<and> DownSQL m \<noteq> []"

lemma versions_ascending: "distinct vs \<Longrightarrow> sorted_wrt (<) (sort_slice (<) (vs :: int list))"
proof -
  assume "distinct vs"
  have weak: "weak_order ((<) :: int \<Rightarrow> int \<Rightarrow> bool)" by (auto simp: weak_order_def)
  have "sorted_less (<) (sort_slice (<) vs)" by (rule insertion.srt_sorted [OF weak])
  moreover have "distinct (sort_slice (<) vs)"
    using \<open>distinct vs\<close> insertion.srt_perm [of "(<)" vs] by (metis mset_eq_imp_distinct_iff)
  ultimately show ?thesis by (simp add: sorted_less_def strict_sorted_iff not_less)
qed

lemma load_Inr:
  assumes "loadMigrationsFromFS (Inr files) = Inr ms"
  shows "sorted_wrt (<) (map mig_Version ms) \<and> list_all good_migration ms
    \<and> all_entries ms = mset (map file_entry files)"
proof -
  obtain bs where load: "load_files files [] = Inr bs"
      and done_bs: "complete_migrations bs (sort_slice (<) (map fst bs)) = Inr ms"
    using assms by (auto simp: loadMigrationsFromFS_def split: if_splits sum.splits)
  from load_files_entries [OF load]
  have bs: "all_entries (map snd bs) = mset (map file_entry files)" "list_all builder_ok bs" "distinct (map fst bs)"
    by (simp_all add: all_entries_def)
  have ms: "map Some ms = map (map_of bs) (sort_slice (<) (map fst bs))"
      "list_all (\<lambda>m. UpSQL m \<noteq> [] \<and> DownSQL m \<noteq> []) ms"
    using complete_Inr [OF done_bs] by simp_all
  have "mset (map Some ms) = mset (map (map_of bs) (map fst bs))"
    unfolding ms(1) by (simp add: insertion.srt_perm del: map_map)
  then have perm: "mset ms = mset (map snd bs)" unfolding map_of_keys [OF bs(3)] by (rule mset_map_Some)
  have "all_entries ms = all_entries (map snd bs)"
    unfolding all_entries_def sum_mset_sum_list [symmetric] mset_map perm by (simp add: perm [symmetric])
  moreover have "list_all good_migration ms"
  proof (unfold list_all_iff, rule ballI)
    fix m assume "m \<in> set ms"
    then have "m \<in> set (map snd bs)" using perm by (metis set_mset_mset)
    then show "good_migration m"
      using bs(2) ms(2) \<open>m \<in> set ms\<close> by (auto simp: good_migration_def builder_ok_def list_all_iff)
  qed
  moreover have "map mig_Version ms = sort_slice (<) (map fst bs)"
  proof -
    have "map (map_option mig_Version) (map Some ms) = map Some (sort_slice (<) (map fst bs))"
      unfolding ms(1) using builder_ok_map_of [OF bs(2)]
      by (auto simp: insertion.srt_set builder_ok_def map_of_eq_Some_iff [OF bs(3)])
    then have "map Some (map mig_Version ms) = map Some (sort_slice (<) (map fst bs))" by (simp add: comp_def)
    then show ?thesis by (simp only: inj_map_eq_map [OF inj_Some])
  qed
  ultimately show ?thesis using versions_ascending [OF bs(3)] bs(1) by simp
qed

section \<open>Schema and table in step\<close>

text \<open>\<open>st i\<close> is the schema after the first \<open>i\<close> migrations. The texts of the migrations lead from each to the next and
  back.\<close>

definition migration_path :: "(string \<Rightarrow> 'x \<Rightarrow> sqlerr + 'x) \<Rightarrow> migration list \<Rightarrow> (nat \<Rightarrow> 'x) \<Rightarrow> bool" where
  "migration_path run_sql ms st \<longleftrightarrow>
     (\<forall>i < length ms. run_sql (UpSQL (ms ! i)) (st i) = Inr (st (Suc i)) \<and> run_sql (DownSQL (ms ! i)) (st (Suc i)) = Inr (st i))"

definition version_row :: "migration \<Rightarrow> int \<times> string" where
  "version_row m = (mig_Version m, mig_Name m)"

definition migrated :: "migration list \<Rightarrow> (nat \<Rightarrow> 'x) \<Rightarrow> nat \<Rightarrow> 'x mig_tables" where
  "migrated ms st k = \<lparr>mig_schema = st k, schema_migrations = Some (map version_row (take k ms))\<rparr>"

lemma fst_version_row: "fst (version_row m) = mig_Version m"
  by (simp add: version_row_def)

lemma word_pg_text: "list_all word_char s \<Longrightarrow> pg_text s"
proof -
  have ascii: "byte c < 0x80 \<and> c \<noteq> CHR 0x00" if "word_char c" for c
    using that by (auto simp: word_char_def digit_char_def less_eq_char_def)
  assume "list_all word_char s"
  then show ?thesis
    by (induction s) (auto simp: pg_text_def valid_utf8_Cons rune_len_ascii ascii dest: ascii)
qed

lemma version_new:
  assumes "sorted_wrt (<) (map mig_Version ms)" and "i < length ms"
  shows "mig_Version (ms ! i) \<notin> mig_Version ` set (take i ms)"
proof
  assume "mig_Version (ms ! i) \<in> mig_Version ` set (take i ms)"
  then obtain j where j: "j < i" and "mig_Version (ms ! i) = mig_Version (ms ! j)"
    using assms(2) by (auto simp: in_set_conv_nth)
  moreover have "mig_Version (ms ! j) < mig_Version (ms ! i)"
    using sorted_wrt_nth_less [OF assms(1) j] assms(2) j by simp
  ultimately show False by simp
qed

lemma insert_next:
  assumes "sorted_wrt (<) (map mig_Version ms)" and "i < length ms"
  shows "on_rows (insert_version (ms ! i)) (migrated ms st i\<lparr>mig_schema := st (Suc i)\<rparr>) = Inr ((), migrated ms st (Suc i))"
proof -
  have "mig_Version (ms ! i) \<notin> set (map fst (map version_row (take i ms)))"
    using version_new [OF assms] by (simp add: fst_version_row comp_def)
  then show ?thesis
    using assms(2) by (simp add: on_rows_def migrated_def insert_version_def insert_row_def version_row_def take_Suc_conv_app_nth)
qed

lemma delete_last:
  assumes "sorted_wrt (<) (map mig_Version ms)" and "i < length ms"
  shows "on_rows (delete_version (mig_Version (ms ! i))) (migrated ms st (Suc i)\<lparr>mig_schema := st i\<rparr>) = Inr ((), migrated ms st i)"
proof -
  have "filter (\<lambda>r. fst r \<noteq> mig_Version (ms ! i)) (map version_row (take i ms)) = map version_row (take i ms)"
    using version_new [OF assms] by (auto simp: filter_id_conv fst_version_row) (metis imageI)
  then show ?thesis
    using assms(2) by (simp add: on_rows_def migrated_def delete_version_def take_Suc_conv_app_nth fst_version_row)
qed

lemma run_up: "migration_path run_sql ms st \<Longrightarrow> i < length ms \<Longrightarrow>
    run_migration run_sql (UpSQL (ms ! i)) (migrated ms st i) = Inr ((), migrated ms st i\<lparr>mig_schema := st (Suc i)\<rparr>)"
  by (simp add: migration_path_def run_migration_def migrated_def)

lemma run_down: "migration_path run_sql ms st \<Longrightarrow> i < length ms \<Longrightarrow>
    run_migration run_sql (DownSQL (ms ! i)) (migrated ms st (Suc i)) = Inr ((), migrated ms st (Suc i)\<lparr>mig_schema := st i\<rparr>)"
  by (simp add: migration_path_def run_migration_def migrated_def)

text \<open>One migration, with and without faults.\<close>

lemma OneUp_runs:
  assumes "quiet_pg env" and "migration_path run_sql ms st" and "sorted_wrt (<) (map mig_Version ms)"
    and "list_all good_migration ms" and "i < length ms"
  shows "runs (applyOneUp env run_sql (ms ! i)) (migrated ms st i) None (migrated ms st (Suc i))"
proof -
  have name: "list_all pg_text [mig_Name (ms ! i)]"
    using assms(4,5) by (auto simp: list_all_length good_migration_def intro: word_pg_text)
  show ?thesis
    unfolding applyOneUp_def
    by (rule runs_bind [OF runs_begin [OF assms(1)]], simp,
        rule runs_bind, rule runs_exec(1) [OF assms(1)], simp, rule run_up [OF assms(2,5)], simp,
        rule runs_bind, rule runs_exec(1) [OF assms(1) name], rule insert_next [OF assms(3,5)], simp,
        rule runs_bind [OF runs_commit [OF assms(1)]]) (simp add: runs_return)
qed

lemma OneDown_runs:
  assumes "quiet_pg env" and "migration_path run_sql ms st" and "sorted_wrt (<) (map mig_Version ms)" and "i < length ms"
  shows "runs (applyOneDown env run_sql (ms ! i)) (migrated ms st (Suc i)) None (migrated ms st i)"
  unfolding applyOneDown_def
  by (rule runs_bind [OF runs_begin [OF assms(1)]], simp,
      rule runs_bind, rule runs_exec(1) [OF assms(1)], simp, rule run_down [OF assms(2,4)], simp,
      rule runs_bind, rule runs_exec(1) [OF assms(1)], simp, rule delete_last [OF assms(3,4)], simp,
      rule runs_bind [OF runs_commit [OF assms(1)]]) (simp add: runs_return)

lemma transaction_leaves:
  assumes "f d = Inr ((), d1)" and "g d1 = Inr ((), d2)"
  shows "leaves (do {
     tx \<leftarrow> sql_begin env;
     (case tx of
        Inl err \<Rightarrow> return (Some (e1 err))
      | Inr saved \<Rightarrow> do {
          res \<leftarrow> sql_exec env [] f;
          (case res of
             Inl err \<Rightarrow> do { _ \<leftarrow> sql_rollback saved; return (Some (e2 err)) }
           | Inr _ \<Rightarrow> do {
               res \<leftarrow> sql_exec env params g;
               (case res of
                  Inl err \<Rightarrow> do { _ \<leftarrow> sql_rollback saved; return (Some (e3 err)) }
                | Inr _ \<Rightarrow> do {
                    err \<leftarrow> sql_commit env saved;
                    (case err of Some err \<Rightarrow> return (Some (Wrapped msg err)) | None \<Rightarrow> return None)
                  })
             })
        })
   }) d (all_or_nothing msg d d2)"
proof (rule begin_leaves, rule leaves_bind [OF leaves_exec], rule leaves_sum)
  fix r and d' :: 'a and e :: sqlerr assume "r = Inl e"
  show "leaves (do { _ \<leftarrow> sql_rollback d; return (Some (e2 e)) }) d' (all_or_nothing msg d d2)" by (rule rollback_leaves)
next
  fix r and d' :: 'a and u :: unit
  assume "case r of Inl _ \<Rightarrow> d' = d | Inr a \<Rightarrow> f d = Inr (a, d') \<and> list_all pg_text []" and "r = Inr u"
  then have d': "d' = d1" using assms(1) by simp
  show "leaves (do {
      res \<leftarrow> sql_exec env params g;
      (case res of
         Inl err \<Rightarrow> do { _ \<leftarrow> sql_rollback d; return (Some (e3 err)) }
       | Inr _ \<Rightarrow> do {
           err \<leftarrow> sql_commit env d;
           (case err of Some err \<Rightarrow> return (Some (Wrapped msg err)) | None \<Rightarrow> return None)
         }) }) d' (all_or_nothing msg d d2)"
    unfolding d'
    by (rule leaves_bind [OF leaves_exec])
      (use assms(2) in \<open>auto split: sum.split intro: rollback_leaves commit_leaves\<close>)
qed

lemma OneUp_leaves:
  assumes "migration_path run_sql ms st" and "sorted_wrt (<) (map mig_Version ms)" and "i < length ms"
  shows "leaves (applyOneUp env run_sql (ms ! i)) (migrated ms st i)
    (\<lambda>r d. d = migrated ms st i \<and> r \<noteq> None \<or> d = migrated ms st (Suc i))"
  unfolding applyOneUp_def
  by (rule leaves_post, rule transaction_leaves, rule run_up [OF assms(1,3)], rule insert_next [OF assms(2,3)])
    (auto simp: all_or_nothing_def)

lemma OneDown_leaves:
  assumes "migration_path run_sql ms st" and "sorted_wrt (<) (map mig_Version ms)" and "i < length ms"
  shows "leaves (applyOneDown env run_sql (ms ! i)) (migrated ms st (Suc i))
    (\<lambda>r d. d = migrated ms st (Suc i) \<and> r \<noteq> None \<or> d = migrated ms st i)"
  unfolding applyOneDown_def
  by (rule leaves_post, rule transaction_leaves, rule run_down [OF assms(1,3)], rule delete_last [OF assms(2,3)])
    (auto simp: all_or_nothing_def)

section \<open>Runs of several migrations\<close>

text \<open>How far a run goes.\<close>

definition up_target :: "migration list \<Rightarrow> int \<Rightarrow> nat \<Rightarrow> nat" where
  "up_target ms steps k = (if steps \<le> 0 then length ms else min (k + nat steps) (length ms))"

definition down_target :: "int \<Rightarrow> nat \<Rightarrow> nat" where
  "down_target steps k = k - nat (max 1 steps)"

lemma up_target_le: "up_target ms steps k \<le> length ms"
  by (simp add: up_target_def)

lemma up_target_stop:
  "steps > 0 \<and> int (Suc i - k) \<ge> steps \<Longrightarrow> k \<le> i \<Longrightarrow> i < length ms \<Longrightarrow> Suc i \<le> up_target ms steps k \<Longrightarrow>
     up_target ms steps k = Suc i"
  unfolding up_target_def by (elim conjE, cases "steps \<le> 0"; simp only: if_True if_False; linarith)

lemma up_target_go:
  "\<not> (steps > 0 \<and> int (Suc i - k) \<ge> steps) \<Longrightarrow> k \<le> i \<Longrightarrow> Suc i = up_target ms steps k \<longrightarrow> Suc i = length ms"
  unfolding up_target_def by (intro impI, cases "steps \<le> 0"; simp only: if_True if_False simp_thms not_less not_le; linarith)

lemma up_loop_skips:
  assumes "k \<le> length ms"
  shows "up_loop env run_sql (mig_Version ` set (take k ms)) steps n ms = up_loop env run_sql (mig_Version ` set (take k ms)) steps n (drop k ms)"
proof -
  have "up_loop env run_sql A steps n (xs @ ys) = up_loop env run_sql A steps n ys" if "mig_Version ` set xs \<subseteq> A" for A xs ys
    using that by (induction xs) auto
  from this [of "take k ms" _ "drop k ms"] show ?thesis by simp
qed

lemma up_loop_step:
  assumes "sorted_wrt (<) (map mig_Version ms)" and "k \<le> i" and "i < length ms"
  shows "up_loop env run_sql (mig_Version ` set (take k ms)) steps n (drop i ms) = do {
     err \<leftarrow> applyOneUp env run_sql (ms ! i);
     (case err of
        Some err \<Rightarrow> return (Some err)
      | None \<Rightarrow>
          if steps > 0 \<and> n + 1 \<ge> steps then return None
          else up_loop env run_sql (mig_Version ` set (take k ms)) steps (n + 1) (drop (Suc i) ms))
   }"
proof -
  have "set (take k ms) \<subseteq> set (take i ms)" using assms(2) by (rule set_take_subset_set_take)
  then have "mig_Version (ms ! i) \<notin> mig_Version ` set (take k ms)" using version_new [OF assms(1,3)] by auto
  then show ?thesis using assms(3) by (simp add: Cons_nth_drop_Suc [symmetric])
qed

lemma up_loop_runs:
  assumes "quiet_pg env" and "migration_path run_sql ms st" and "sorted_wrt (<) (map mig_Version ms)"
    and "list_all good_migration ms" and "k \<le> i" and "i \<le> up_target ms steps k" and "i = up_target ms steps k \<longrightarrow> i = length ms"
  shows "runs (up_loop env run_sql (mig_Version ` set (take k ms)) steps (int (i - k)) (drop i ms)) (migrated ms st i)
    None (migrated ms st (up_target ms steps k))"
  using assms(5-)
proof (induction "length ms - i" arbitrary: i)
  case 0
  then have "i = length ms" "up_target ms steps k = i" using up_target_le [of ms steps k] by linarith+
  then show ?case by (simp add: runs_return)
next
  case (Suc x)
  then have i: "i < length ms" by simp
  have next_i: "int (i - k) + 1 = int (Suc i - k)" using Suc.prems(1) by simp
  have le: "Suc i \<le> up_target ms steps k" using Suc.prems(2,3) i by linarith
  show ?case
  proof (cases "steps > 0 \<and> int (Suc i - k) \<ge> steps")
    case True
    then have "up_target ms steps k = Suc i" by (rule up_target_stop [OF _ Suc.prems(1) i le])
    then show ?thesis
      unfolding up_loop_step [OF assms(3) Suc.prems(1) i] next_i
      by (rule_tac runs_bind [OF OneUp_runs [OF assms(1-4) i]]) (use True in \<open>simp add: runs_return\<close>)
  next
    case False
    with Suc.hyps(2) Suc.prems(1) le
    have IH: "runs (up_loop env run_sql (mig_Version ` set (take k ms)) steps (int (Suc i - k)) (drop (Suc i) ms))
        (migrated ms st (Suc i)) None (migrated ms st (up_target ms steps k))"
      by (intro Suc.hyps(1) up_target_go) simp_all
    show ?thesis
      unfolding up_loop_step [OF assms(3) Suc.prems(1) i] next_i
      by (rule_tac runs_bind [OF OneUp_runs [OF assms(1-4) i]]) (simp only: option.case False if_False IH)
  qed
qed

lemma up_loop_leaves:
  assumes "migration_path run_sql ms st" and "sorted_wrt (<) (map mig_Version ms)"
    and "k \<le> i" and "i \<le> up_target ms steps k" and "i = up_target ms steps k \<longrightarrow> i = length ms"
  shows "leaves (up_loop env run_sql (mig_Version ` set (take k ms)) steps (int (i - k)) (drop i ms)) (migrated ms st i)
    (\<lambda>r d. \<exists>j. i \<le> j \<and> j \<le> up_target ms steps k \<and> d = migrated ms st j \<and> (r = None \<longrightarrow> j = up_target ms steps k))"
  using assms(3-)
proof (induction "length ms - i" arbitrary: i)
  case 0
  then have "i = length ms" "up_target ms steps k = i" using up_target_le [of ms steps k] by linarith+
  then show ?case by (auto intro: leaves_return)
next
  case (Suc x)
  then have i: "i < length ms" by simp
  have next_i: "int (i - k) + 1 = int (Suc i - k)" using Suc.prems(1) by simp
  have le: "Suc i \<le> up_target ms steps k" using Suc.prems(2,3) i by linarith
  show ?case
    unfolding up_loop_step [OF assms(2) Suc.prems(1) i] next_i
  proof (rule leaves_bind [OF OneUp_leaves [OF assms(1,2) i]], rule leaves_option, goal_cases)
    case (1 r d)
    then have d: "d = migrated ms st (Suc i)" by auto
    show ?case
    proof (rule leaves_if, goal_cases)
      case 1
      then have "up_target ms steps k = Suc i" by (rule up_target_stop [OF _ Suc.prems(1) i le])
      then show ?case unfolding d by (intro leaves_return exI [of _ "Suc i"]) simp
    next
      case 2
      then have "leaves (up_loop env run_sql (mig_Version ` set (take k ms)) steps (int (Suc i - k)) (drop (Suc i) ms))
          (migrated ms st (Suc i)) (\<lambda>r d. \<exists>j. Suc i \<le> j \<and> j \<le> up_target ms steps k \<and> d = migrated ms st j
             \<and> (r = None \<longrightarrow> j = up_target ms steps k))"
        using Suc.hyps(2) Suc.prems(1) le by (intro Suc.hyps(1) up_target_go) simp_all
      then show ?case unfolding d by (rule leaves_post) (metis Suc_leD)
    qed
  next
    case (2 r d e)
    then show ?case using le by (intro leaves_return) (auto intro: Suc_leD)
  qed
qed

lemma last_first:
  "j < Suc k \<Longrightarrow> Suc k \<le> length ms \<Longrightarrow> rev (drop j (take (Suc k) ms)) = ms ! k # rev (drop j (take k ms))"
  by (simp add: take_Suc_conv_app_nth)

lemma down_loop_runs:
  assumes "quiet_pg env" and "migration_path run_sql ms st" and "sorted_wrt (<) (map mig_Version ms)"
    and "\<And>m. m \<in> set ms \<Longrightarrow> vm (mig_Version m) = Some m" and "j \<le> k" and "k \<le> length ms"
  shows "runs (down_loop env run_sql vm (map mig_Version (rev (drop j (take k ms))))) (migrated ms st k) None (migrated ms st j)"
  using assms(5,6)
proof (induction k rule: dec_induct)
  case base
  show ?case by (simp add: runs_return)
next
  case (step k)
  then have k: "k < length ms" by simp
  then have vm: "vm (mig_Version (ms ! k)) = Some (ms ! k)" by (simp add: assms(4))
  show ?case
    using step unfolding last_first [OF le_imp_less_Suc [OF step(1)] step(4)]
    by (simp add: vm runs_bind [OF OneDown_runs [OF assms(1-3) k]])
qed

lemma down_loop_leaves:
  assumes "migration_path run_sql ms st" and "sorted_wrt (<) (map mig_Version ms)"
    and "\<And>m. m \<in> set ms \<Longrightarrow> vm (mig_Version m) = Some m" and "j \<le> k" and "k \<le> length ms"
  shows "leaves (down_loop env run_sql vm (map mig_Version (rev (drop j (take k ms))))) (migrated ms st k)
    (\<lambda>r d. \<exists>i. j \<le> i \<and> i \<le> k \<and> d = migrated ms st i \<and> (r = None \<longrightarrow> i = j))"
  using assms(4,5)
proof (induction k rule: dec_induct)
  case base
  show ?case by (auto intro: leaves_return)
next
  case (step k)
  then have k: "k < length ms" by simp
  then have vm: "vm (mig_Version (ms ! k)) = Some (ms ! k)" by (simp add: assms(3))
  have IH: "leaves (down_loop env run_sql vm (map mig_Version (rev (drop j (take k ms))))) (migrated ms st k)
    (\<lambda>r d. \<exists>i. j \<le> i \<and> i \<le> Suc k \<and> d = migrated ms st i \<and> (r = None \<longrightarrow> i = j))"
    by (rule leaves_post [OF step(3)]) (use step(4) in \<open>auto intro: le_SucI\<close>)
  show ?case
    unfolding last_first [OF le_imp_less_Suc [OF step(1)] step(4)] list.map down_loop.simps vm option.case
  proof (rule leaves_bind [OF OneDown_leaves [OF assms(1,2) k]], rule leaves_option, goal_cases)
    case (1 r d)
    then show ?case using IH by simp
  next
    case (2 r d e)
    then show ?case using step(1) by (intro leaves_return) (auto intro: le_SucI)
  qed
qed

text \<open>The versions the table gives.\<close>

lemma version_map:
  assumes "sorted_wrt (<) (map mig_Version ms)" and "m \<in> set ms"
  shows "fold (\<lambda>m vm. vm(mig_Version m \<mapsto> m)) ms vm (mig_Version m) = Some m"
  using assms
proof (induction ms rule: rev_induct)
  case (snoc x ms)
  then show ?case by (auto simp: sorted_wrt_append)
qed simp

lemma versions_desc:
  assumes "sorted_wrt (<) (map mig_Version ms)" and "k \<le> length ms"
  shows "take n (sort_slice (>) (map fst (map version_row (take k ms)))) = map mig_Version (rev (drop (k - n) (take k ms)))"
proof -
  have asc: "sorted_wrt (<) (map mig_Version (take k ms))" using sorted_wrt_take [OF assms(1)] by (simp add: take_map)
  have "sort_slice (>) (map mig_Version (take k ms)) = rev (map mig_Version (take k ms))"
  proof (rule insertion.srt_unique)
    show "weak_order ((>) :: int \<Rightarrow> int \<Rightarrow> bool)" by (auto simp: weak_order_def)
    show "sorted_less (>) (rev (map mig_Version (take k ms)))"
      using asc by (simp add: sorted_less_def sorted_wrt_rev strict_sorted_iff not_less)
  qed auto
  then show ?thesis
    using assms(2) by (simp add: fst_version_row comp_def take_map take_rev min_absorb2 drop_map rev_map)
qed

lemma max_version:
  assumes "sorted_wrt (<) (map mig_Version ms)" and "list_all good_migration ms" and "k \<le> length ms"
  shows "foldr max (map fst (map version_row (take k ms))) 0 = (if k = 0 then 0 else mig_Version (ms ! (k - 1)))"
proof (cases k)
  case (Suc i)
  have le: "foldr max (map mig_Version xs) v = v" if "\<forall>x \<in> set xs. mig_Version x \<le> v" for xs v
    using that by (induction xs) auto
  have i: "i < length ms" using Suc assms(3) by simp
  have "\<forall>x \<in> set (take i ms). mig_Version x \<le> mig_Version (ms ! i)"
    using sorted_wrt_nth_less [OF assms(1), of _ i] i by (force simp: in_set_conv_nth)
  moreover have "0 \<le> mig_Version (ms ! i)" using assms(2) i by (simp add: list_all_length good_migration_def)
  ultimately show ?thesis
    using i by (simp add: Suc fst_version_row comp_def take_Suc_conv_app_nth le)
qed simp

section \<open>The methods\<close>

definition no_table :: "'x mig_tables \<Rightarrow> 'x mig_tables" where
  "no_table d = d\<lparr>schema_migrations := None\<rparr>"

lemma ensure_migrated:
  "ensure_table (migrated ms st k) = Inr ((), migrated ms st k)"
  "ensure_table (no_table (migrated ms st 0)) = Inr ((), migrated ms st 0)"
  by (simp_all add: ensure_table_def migrated_def no_table_def)

lemma rows_migrated: "on_rows (\<lambda>rows. Inr (f rows, rows)) (migrated ms st k) = Inr (f (map version_row (take k ms)), migrated ms st k)"
  by (simp add: on_rows_def migrated_def)

lemma read_leaves:
  "leaves (do {
     res \<leftarrow> sql_exec env [] (on_rows (\<lambda>rows. Inr (f rows, rows)));
     (case res of
        Inl err \<Rightarrow> return (Inl (e1 err))
      | Inr v \<Rightarrow> do { err \<leftarrow> rows_err env; return (case err of Some err \<Rightarrow> Inl (e2 err) | None \<Rightarrow> Inr (g v)) })
   }) (migrated ms st k) (\<lambda>r d. d = migrated ms st k \<and> (\<forall>a. r = Inr a \<longrightarrow> a = g (f (map version_row (take k ms)))))"
  unfolding rows_err_def
  by (rule leaves_bind [OF leaves_exec])
    (auto simp: rows_migrated split: sum.split intro!: leaves_return leaves_bind [OF leaves_ask] split: option.splits)

lemma applied_versions: "set (map fst (map version_row (take k ms))) = mig_Version ` set (take k ms)"
  by (auto simp: fst_version_row)

lemma applyUp_runs:
  assumes "quiet_pg env" and "migration_path run_sql ms st" and "sorted_wrt (<) (map mig_Version ms)"
    and "list_all good_migration ms" and "k \<le> length ms"
  shows "runs (applyUp env run_sql ms steps) (migrated ms st k) None (migrated ms st (up_target ms steps k))"
proof -
  have load: "runs (loadAppliedVersions env) (migrated ms st k) (Inr (mig_Version ` set (take k ms))) (migrated ms st k)"
    unfolding loadAppliedVersions_def applied_versions [symmetric]
    by (rule runs_bind, rule runs_exec(1) [OF assms(1)], simp, rule rows_migrated, simp only: sum.case,
        rule runs_bind [OF runs_rows_err [OF assms(1)]]) (simp add: runs_return)
  have T: "k \<le> up_target ms steps k" "k = up_target ms steps k \<longrightarrow> k = length ms"
    using assms(5) by (auto simp: up_target_def)
  show ?thesis
    unfolding applyUp_def
    by (rule runs_bind [OF load])
      (simp only: sum.case up_loop_skips [OF assms(5)] up_loop_runs [OF assms(1-4) order_refl T, simplified])
qed

lemma applyUp_leaves:
  assumes "migration_path run_sql ms st" and "sorted_wrt (<) (map mig_Version ms)" and "k \<le> length ms"
  shows "leaves (applyUp env run_sql ms steps) (migrated ms st k)
    (\<lambda>r d. \<exists>j. k \<le> j \<and> j \<le> up_target ms steps k \<and> d = migrated ms st j \<and> (r = None \<longrightarrow> j = up_target ms steps k))"
proof -
  have load: "leaves (loadAppliedVersions env) (migrated ms st k)
      (\<lambda>r d. d = migrated ms st k \<and> (\<forall>a. r = Inr a \<longrightarrow> a = mig_Version ` set (take k ms)))"
    unfolding loadAppliedVersions_def applied_versions [symmetric] by (rule read_leaves)
  have T: "k \<le> up_target ms steps k" "k = up_target ms steps k \<longrightarrow> k = length ms"
    using assms(3) by (auto simp: up_target_def)
  show ?thesis
    unfolding applyUp_def
  proof (rule leaves_bind [OF load], rule leaves_sum, goal_cases)
    case (1 r d e)
    then show ?case using T(1) by (intro leaves_return) auto
  next
    case (2 r d A)
    then have "d = migrated ms st k" "A = mig_Version ` set (take k ms)" by simp_all
    then show ?case
      using up_loop_leaves [OF assms(1,2) order_refl T] by (simp add: up_loop_skips [OF assms(3)])
  qed
qed

lemma applyDown_runs:
  assumes "quiet_pg env" and "migration_path run_sql ms st" and "sorted_wrt (<) (map mig_Version ms)" and "k \<le> length ms"
  shows "runs (applyDown env run_sql ms steps) (migrated ms st k) None (migrated ms st (k - nat steps))"
proof -
  have load: "runs (loadAppliedVersionsDesc env steps) (migrated ms st k)
      (Inr (map mig_Version (rev (drop (k - nat steps) (take k ms))))) (migrated ms st k)"
    unfolding loadAppliedVersionsDesc_def versions_desc [OF assms(3,4), symmetric]
    by (rule runs_bind, rule runs_exec(1) [OF assms(1)], simp, rule rows_migrated, simp only: sum.case,
        rule runs_bind [OF runs_rows_err [OF assms(1)]]) (simp add: runs_return)
  show ?thesis
    unfolding applyDown_def
    by (rule runs_bind [OF load])
      (simp only: sum.case down_loop_runs [OF assms(1-3) version_map [OF assms(3)] diff_le_self assms(4)])
qed

lemma applyDown_leaves:
  assumes "migration_path run_sql ms st" and "sorted_wrt (<) (map mig_Version ms)" and "k \<le> length ms"
  shows "leaves (applyDown env run_sql ms steps) (migrated ms st k)
    (\<lambda>r d. \<exists>j. k - nat steps \<le> j \<and> j \<le> k \<and> d = migrated ms st j \<and> (r = None \<longrightarrow> j = k - nat steps))"
proof -
  have load: "leaves (loadAppliedVersionsDesc env steps) (migrated ms st k)
      (\<lambda>r d. d = migrated ms st k \<and> (\<forall>a. r = Inr a \<longrightarrow> a = map mig_Version (rev (drop (k - nat steps) (take k ms)))))"
    unfolding loadAppliedVersionsDesc_def versions_desc [OF assms(2,3), symmetric]
    by (rule read_leaves [where g = "\<lambda>x. x"])
  show ?thesis
    unfolding applyDown_def
  proof (rule leaves_bind [OF load], rule leaves_sum, goal_cases)
    case (1 r d e)
    then show ?case by (intro leaves_return exI [of _ k]) simp
  next
    case (2 r d vs)
    then have "d = migrated ms st k" "vs = map mig_Version (rev (drop (k - nat steps) (take k ms)))" by simp_all
    then show ?case
      by (simp only: sum.case) (rule down_loop_leaves [OF assms(1,2) version_map [OF assms(2)] diff_le_self assms(3)])
  qed
qed

definition apply_direction where
  "apply_direction env run_sql ms direction steps =
     (case direction of migrationUp \<Rightarrow> applyUp env run_sql ms steps | migrationDown \<Rightarrow> applyDown env run_sql ms steps)"

lemma migrate_runs:
  fixes d :: "'x mig_tables"
  assumes "quiet_pg env" and "loadMigrationsFromFS fs = Inr ms" and "ensure_table d = Inr ((), d1)"
    and "runs (apply_direction env run_sql ms direction steps) d1 None d2"
  shows "runs (migrate env run_sql fs True direction steps) d None d2"
proof -
  have conn: "runs (pg_ask (pg_fault env)) d None d" using assms(1) by (intro runs_ask) (simp add: quiet_pg_def)
  have lock: "runs (sql_query env [] (\<lambda>d. ())) d (Inr ()) d" for d :: "'x mig_tables"
    by (rule runs_query [OF assms(1)]) simp
  show ?thesis
    unfolding migrate_def assms(2) if_False not_True_eq_False sum.case
    by (rule runs_bind [OF conn], simp only: option.case, rule runs_bind [OF lock], simp only: sum.case,
        rule runs_bind, rule runs_exec(1) [OF assms(1)], simp, rule assms(3), simp only: sum.case,
        rule runs_bind, rule assms(4) [unfolded apply_direction_def], rule runs_bind [OF lock], rule runs_return)
qed

lemma migrate_leaves:
  assumes "loadMigrationsFromFS fs = Inr ms" and "ensure_table d = Inr ((), d1)"
    and "leaves (apply_direction env run_sql ms direction steps) d1 Q" and "\<And>e. Q (Some e) d" and "\<And>e. Q (Some e) d1"
  shows "leaves (migrate env run_sql fs True direction steps) d Q"
  unfolding migrate_def assms(1) if_False not_True_eq_False sum.case
proof (rule leaves_bind [OF leaves_ask], rule leaves_option, goal_cases)
  case (1 conn d')
  show ?case
  proof (rule leaves_bind [OF leaves_query], rule leaves_sum, goal_cases)
    case (1 r d'' e)
    then show ?case using \<open>d' = d\<close> assms(4) by (intro leaves_return) simp
  next
    case (2 r d'' u)
    then have d: "d'' = d" using \<open>d' = d\<close> by simp
    have unlock: "leaves (do { _ \<leftarrow> sql_query env [] (\<lambda>d. ()); return err }) d3 Q" if "Q err d3" for err d3
      by (rule leaves_bind [OF leaves_query]) (use that in \<open>auto intro: leaves_return\<close>)
    show ?case
      unfolding d
    proof (rule leaves_bind [OF leaves_exec], rule leaves_bind [where R = Q], rule leaves_sum, goal_cases)
      case (1 r d3 e)
      then show ?case using assms(4) by (intro leaves_return) simp
    next
      case (2 r d3 u)
      then show ?case using assms(2,3) by (simp add: apply_direction_def)
    qed (rule unlock)
  qed
next
  case (2 conn d' e)
  then show ?case using assms(4) by (intro leaves_return) simp
qed

lemma Status_runs:
  assumes "quiet_pg env" and "sorted_wrt (<) (map mig_Version ms)" and "list_all good_migration ms" and "k \<le> length ms"
  shows "runs (MigrationStatus env True) (migrated ms st k)
    (Inr (if k = 0 then 0 else mig_Version (ms ! (k - 1)), int k)) (migrated ms st k)"
proof -
  have res: "(if k = 0 then 0 else mig_Version (ms ! (k - 1)), int k)
      = (foldr max (map fst (map version_row (take k ms))) 0, int (length (map version_row (take k ms))))"
    unfolding max_version [OF assms(2-4)] using assms(4) by simp
  show ?thesis
    unfolding MigrationStatus_def res
    by (simp only: if_False not_True_eq_False, rule runs_bind, rule runs_exec(1) [OF assms(1)], simp, rule ensure_migrated(1),
        simp only: sum.case, rule runs_bind, rule runs_exec(1) [OF assms(1)], simp, rule rows_migrated) (simp add: runs_return)
qed

text \<open>An example: two migrations, each with a table, in the order in which \<open>fs.Glob\<close> lists them.\<close>

definition example_files :: "(string \<times> (error + bytes)) list" where
  "example_files =
     [(''0001_init.down.sql'', Inr ''DROP TABLE t''), (''0001_init.up.sql'', Inr ''CREATE TABLE t ''),
      (''0002_more.down.sql'', Inr ''DROP TABLE u''), (''0002_more.up.sql'', Inr ''CREATE TABLE u'')]"

definition example_migrations :: "migration list" where
  "example_migrations =
     [\<lparr>mig_Version = 1, mig_Name = ''init'', UpSQL = ''CREATE TABLE t'', DownSQL = ''DROP TABLE t''\<rparr>,
      \<lparr>mig_Version = 2, mig_Name = ''more'', UpSQL = ''CREATE TABLE u'', DownSQL = ''DROP TABLE u''\<rparr>]"

definition example_sql :: "string \<Rightarrow> string set \<Rightarrow> sqlerr + string set" where
  "example_sql body tables =
     (let name = drop (length body - 1) body in
      if take 6 body = ''CREATE'' then if name \<in> tables then Inl (PgError ''42P07'' []) else Inr (insert name tables)
      else if name \<in> tables then Inr (tables - {name}) else Inl (PgError ''42P01'' []))"

definition example_schema :: "nat \<Rightarrow> string set" where
  "example_schema k = (if k = 0 then {} else if k = 1 then {''t''} else {''t'', ''u''})"

lemma example_load: "loadMigrationsFromFS (Inr example_files) = Inr example_migrations"
  by code_simp

lemma example_length: "length example_migrations = 2"
  by (simp add: example_migrations_def)

lemma example_path: "migration_path example_sql example_migrations example_schema"
  by (auto simp: migration_path_def example_migrations_def example_sql_def example_schema_def less_Suc_eq Let_def)

text \<open>C24. \<open>loadMigrationsFromFS\<close>: when it succeeds the migrations have strictly ascending versions, each has a name and two
  non-empty texts, and together their texts are exactly the files of the directory, each once, with version, name and
  direction taken from the file name.\<close>

theorem migrations_are_the_files:
  assumes "loadMigrationsFromFS (Inr files) = Inr ms"
  shows "sorted_wrt (<) (map mig_Version ms) \<and> list_all good_migration ms
    \<and> all_entries ms = mset (map file_entry files) \<and> length files = 2 * length ms"
proof -
  have "size (all_entries ms) = 2 * length ms" if "list_all good_migration ms"
    using that by (induction ms) (simp_all add: all_entries_def entries_def entry_def good_migration_def)
  then show ?thesis using load_Inr [OF assms] by (metis size_mset length_map)
qed

theorem migrations_are_the_files_witness:
  "loadMigrationsFromFS (Inr example_files) = Inr example_migrations
    \<and> all_entries example_migrations = mset (map file_entry example_files)"
  using migrations_are_the_files [OF example_load] example_load by simp

text \<open>C23. The migrations and the table \<open>schema_migrations\<close> stay in step whatever goes wrong: a run of \<open>MigrateUp\<close> or
  \<open>MigrateDown\<close> that is cut off at any statement, or whose commit fails, leaves the schema after some number of migrations
  together with exactly the rows of these migrations; the number lies between start and target, and it is the target when
  no error is returned. The first run may also end before the table exists.\<close>

theorem migrations_in_step:
  assumes "loadMigrationsFromFS (Inr files) = Inr ms" and "migration_path run_sql ms st" and "k \<le> length ms"
  shows "leaves (MigrateUp env run_sql (Inr files) True steps) (migrated ms st k)
      (\<lambda>r d. \<exists>j. k \<le> j \<and> j \<le> up_target ms steps k \<and> d = migrated ms st j \<and> (r = None \<longrightarrow> j = up_target ms steps k))
    \<and> leaves (MigrateDown env run_sql (Inr files) True steps) (migrated ms st k)
      (\<lambda>r d. \<exists>j. down_target steps k \<le> j \<and> j \<le> k \<and> d = migrated ms st j \<and> (r = None \<longrightarrow> j = down_target steps k))
    \<and> leaves (MigrateUp env run_sql (Inr files) True steps) (no_table (migrated ms st 0))
      (\<lambda>r d. d = no_table (migrated ms st 0) \<and> r \<noteq> None
         \<or> (\<exists>j \<le> up_target ms steps 0. d = migrated ms st j \<and> (r = None \<longrightarrow> j = up_target ms steps 0)))"
proof (intro conjI)
  note ms = load_Inr [OF assms(1), THEN conjunct1]
  have T: "k \<le> up_target ms steps k" using assms(3) by (simp add: up_target_def)
  show "leaves (MigrateUp env run_sql (Inr files) True steps) (migrated ms st k)
      (\<lambda>r d. \<exists>j. k \<le> j \<and> j \<le> up_target ms steps k \<and> d = migrated ms st j \<and> (r = None \<longrightarrow> j = up_target ms steps k))"
    unfolding MigrateUp_def
    by (rule migrate_leaves [OF assms(1) ensure_migrated(1)])
      (use applyUp_leaves [OF assms(2) ms assms(3)] T in \<open>auto simp: apply_direction_def\<close>)
  have n: "down_target steps k = k - nat (if steps \<le> 0 then 1 else steps)"
    by (simp add: down_target_def max_def)
  show "leaves (MigrateDown env run_sql (Inr files) True steps) (migrated ms st k)
      (\<lambda>r d. \<exists>j. down_target steps k \<le> j \<and> j \<le> k \<and> d = migrated ms st j \<and> (r = None \<longrightarrow> j = down_target steps k))"
    unfolding MigrateDown_def n
    by (rule migrate_leaves [OF assms(1) ensure_migrated(1)])
      (use applyDown_leaves [OF assms(2) ms assms(3), of env "if steps \<le> 0 then 1 else steps"] in
        \<open>auto simp: apply_direction_def intro: diff_le_self simp del: if_split\<close>)
  show "leaves (MigrateUp env run_sql (Inr files) True steps) (no_table (migrated ms st 0))
      (\<lambda>r d. d = no_table (migrated ms st 0) \<and> r \<noteq> None
         \<or> (\<exists>j \<le> up_target ms steps 0. d = migrated ms st j \<and> (r = None \<longrightarrow> j = up_target ms steps 0)))"
    unfolding MigrateUp_def
    by (rule migrate_leaves [OF assms(1) ensure_migrated(2)],
        simp only: apply_direction_def migrationDirection.case, rule leaves_post [OF applyUp_leaves [OF assms(2) ms]]) auto
qed

theorem migrations_in_step_witness:
  "leaves (MigrateUp calm_pg example_sql (Inr example_files) True 0) (migrated example_migrations example_schema 1)
     (\<lambda>r d. \<exists>j. 1 \<le> j \<and> j \<le> up_target example_migrations 0 1 \<and> d = migrated example_migrations example_schema j
        \<and> (r = None \<longrightarrow> j = up_target example_migrations 0 1))"
  using migrations_in_step [OF example_load example_path, of 1 calm_pg 0] example_length by simp

text \<open>On a server without faults \<open>MigrateUp\<close> applies the next migrations, all of them without a positive number of
  steps, \<open>MigrateDown\<close> rolls back the last ones, at least one, and \<open>MigrationStatus\<close> reports the last version and
  the number of applied migrations.\<close>

theorem migrate_reaches_target:
  assumes "quiet_pg env" and "loadMigrationsFromFS (Inr files) = Inr ms" and "migration_path run_sql ms st" and "k \<le> length ms"
  shows "runs (MigrateUp env run_sql (Inr files) True steps) (migrated ms st k) None (migrated ms st (up_target ms steps k))
    \<and> runs (MigrateDown env run_sql (Inr files) True steps) (migrated ms st k) None (migrated ms st (down_target steps k))
    \<and> runs (MigrationStatus env True) (migrated ms st k)
        (Inr (if k = 0 then 0 else mig_Version (ms ! (k - 1)), int k)) (migrated ms st k)"
proof (intro conjI)
  from load_Inr [OF assms(2)] have ms: "sorted_wrt (<) (map mig_Version ms)" "list_all good_migration ms" by simp_all
  show "runs (MigrateUp env run_sql (Inr files) True steps) (migrated ms st k) None (migrated ms st (up_target ms steps k))"
    unfolding MigrateUp_def
    by (rule migrate_runs [OF assms(1,2) ensure_migrated(1)])
      (use applyUp_runs [OF assms(1,3) ms assms(4)] in \<open>simp add: apply_direction_def\<close>)
  have n: "down_target steps k = k - nat (if steps \<le> 0 then 1 else steps)"
    by (simp add: down_target_def max_def)
  show "runs (MigrateDown env run_sql (Inr files) True steps) (migrated ms st k) None (migrated ms st (down_target steps k))"
    unfolding MigrateDown_def n
    by (rule migrate_runs [OF assms(1,2) ensure_migrated(1)])
      (use applyDown_runs [OF assms(1,3) ms(1) assms(4)] in \<open>simp add: apply_direction_def\<close>)
  show "runs (MigrationStatus env True) (migrated ms st k)
        (Inr (if k = 0 then 0 else mig_Version (ms ! (k - 1)), int k)) (migrated ms st k)"
    by (rule Status_runs [OF assms(1) ms assms(4)])
qed

theorem migrate_reaches_target_witness:
  "runs (MigrateUp calm_pg example_sql (Inr example_files) True 0) (migrated example_migrations example_schema 0)
     None (migrated example_migrations example_schema 2)"
  using migrate_reaches_target [OF calm_pg_quiet(1) example_load example_path, of 0 0] example_length
  by (simp add: up_target_def)

end
