(* ===== verification/Batch_Processor.thy ===== *)
theory Batch_Processor
  imports Saga
begin

text \<open>
  \<open>internal/service/saga/batch_processor.go\<close>: requests are queued on three channels and handed to the orchestrator in
  batches, several at a time.

  \<^item> The three workers and their flush methods are the same program at the types \<open>string\<close>, \<open>cancelRequest\<close> and
    \<open>refundRequest\<close>; a \<open>lane\<close> is the channel, the batch buffer and the worker of one of them.
  \<^item> A worker is before its \<open>select\<close>, in \<open>processInParallel\<close> with the requests not yet given to a goroutine, those whose
    goroutine was started and has not yet called the orchestrator, and those in the orchestrator, or has returned.
    \<open>lane_step\<close> is its step relation; \<open>select\<close> may take any case that is ready, a tick may come at any time, and started
    goroutines reach the orchestrator in any order. A step is labelled with the request that is given to the orchestrator.
  \<^item> \<open>bp_step\<close> interleaves the workers with callers of the exported methods. The workers are started once; a second
    \<open>Stop\<close> would close a closed channel and panic, so there is no such step. The goroutines that process a batch
    work on the slice that was taken under the mutex, so the mutex leaves nothing else to interleave.
  \<^item> What the orchestrator does is the subject of \<open>Saga\<close>; here a request ends at an arbitrary time.
\<close>

section \<open>Lanes\<close>

record cancelRequest =
  creq_orderID :: string
  creq_reason :: string

record refundRequest =
  rreq_orderID :: string
  rreq_amountMinor :: int
  rreq_reason :: string

text \<open>\<open>Flushing pending started running limit returning\<close>: within a flush, after which the worker selects again or returns.\<close>

datatype 'r worker = NotStarted | Selecting | Flushing "'r list" "'r list" "'r list" int bool | Returned

record 'r lane =
  ch :: "'r list"
  batch :: "'r list"
  worker :: "'r worker"

record bp_config =
  batchSize :: int
  flushTimeout :: gotime
  maxParallelOps :: int
  chan_cap :: nat

definition parallel_limit :: "bp_config \<Rightarrow> int \<Rightarrow> int" where
  "parallel_limit cfg size1 =
     (let limit = (if maxParallelOps cfg \<le> 0 then 1 else maxParallelOps cfg) in
      if limit > size1 then size1 else limit)"

text \<open>\<open>flushStartBatch\<close>, \<open>flushCancelBatch\<close>, \<open>flushRefundBatch\<close> up to the loop of \<open>processInParallel\<close>.\<close>

definition flush :: "bp_config \<Rightarrow> bool \<Rightarrow> 'r lane \<Rightarrow> 'r lane" where
  "flush cfg returning l =
     (if batch l = [] then l\<lparr>worker := (if returning then Returned else Selecting)\<rparr>
      else l\<lparr>batch := [], worker := Flushing (batch l) [] [] (parallel_limit cfg (int (length (batch l)))) returning\<rparr>)"

definition receive :: "bp_config \<Rightarrow> 'r \<Rightarrow> 'r list \<Rightarrow> 'r lane \<Rightarrow> 'r lane" where
  "receive cfg r rest l =
     (let l1 = l\<lparr>ch := rest, batch := batch l @ [r]\<rparr> in
      if int (length (batch l1)) \<ge> batchSize cfg then flush cfg False l1 else l1)"

text \<open>The cases of \<open>processStartBatch\<close>, \<open>processCancelBatch\<close>, \<open>processRefundBatch\<close> and of the loop of
  \<open>processInParallel\<close>; \<open>halted\<close> when the context has ended or \<open>stopCh\<close> is closed.\<close>

inductive lane_step :: "bp_config \<Rightarrow> bool \<Rightarrow> 'r lane \<Rightarrow> 'r option \<Rightarrow> 'r lane \<Rightarrow> bool" for cfg halted where
  quit: "worker l = Selecting \<Longrightarrow> halted \<Longrightarrow> lane_step cfg halted l None (flush cfg True l)"
| recv: "worker l = Selecting \<Longrightarrow> ch l = r # rest \<Longrightarrow> lane_step cfg halted l None (receive cfg r rest l)"
| tick: "worker l = Selecting \<Longrightarrow> lane_step cfg halted l None (flush cfg False l)"
| launch: "worker l = Flushing (r # pending) started running limit returning \<Longrightarrow>
    int (length started + length running) < limit \<Longrightarrow>
    lane_step cfg halted l None (l\<lparr>worker := Flushing pending (started @ [r]) running limit returning\<rparr>)"
| call: "worker l = Flushing pending (before @ r # after) running limit returning \<Longrightarrow>
    lane_step cfg halted l (Some r) (l\<lparr>worker := Flushing pending (before @ after) (running @ [r]) limit returning\<rparr>)"
| finish: "worker l = Flushing pending started (before @ r # after) limit returning \<Longrightarrow>
    lane_step cfg halted l None (l\<lparr>worker := Flushing pending started (before @ after) limit returning\<rparr>)"
| wait: "worker l = Flushing [] [] [] limit returning \<Longrightarrow>
    lane_step cfg halted l None (l\<lparr>worker := (if returning then Returned else Selecting)\<rparr>)"

inductive_cases lane_stepE: "lane_step cfg halted l lab l'"

section \<open>The processor\<close>

record BatchProcessor =
  startLane :: "string lane"
  cancelLane :: "cancelRequest lane"
  refundLane :: "refundRequest lane"
  stopped :: bool
  ctx_done :: bool

datatype bp_event = Queued saga_call | RanSync saga_call | Ran saga_call | Silent

definition new_lane :: "'r lane" where
  "new_lane = \<lparr>ch = [], batch = [], worker = NotStarted\<rparr>"

definition NewBatchProcessor :: "bp_config \<times> BatchProcessor" where
  "NewBatchProcessor =
     (\<lparr>batchSize = 10, flushTimeout = 100000000, maxParallelOps = 8, chan_cap = 100\<rparr>,
      \<lparr>startLane = new_lane, cancelLane = new_lane, refundLane = new_lane, stopped = False, ctx_done = False\<rparr>)"

definition bp_Start :: "BatchProcessor \<Rightarrow> BatchProcessor" where
  "bp_Start s = s\<lparr>startLane := (startLane s)\<lparr>worker := Selecting\<rparr>, cancelLane := (cancelLane s)\<lparr>worker := Selecting\<rparr>,
     refundLane := (refundLane s)\<lparr>worker := Selecting\<rparr>\<rparr>"

text \<open>\<open>Stop\<close> closes the channel and returns when the three workers have.\<close>

definition close_stopCh :: "BatchProcessor \<Rightarrow> BatchProcessor" where
  "close_stopCh s = s\<lparr>stopped := True\<rparr>"

definition stop_returns :: "BatchProcessor \<Rightarrow> bool" where
  "stop_returns s \<longleftrightarrow> stopped s \<and> worker (startLane s) \<in> {NotStarted, Returned}
     \<and> worker (cancelLane s) \<in> {NotStarted, Returned} \<and> worker (refundLane s) \<in> {NotStarted, Returned}"

text \<open>The send that is taken when the channel has room, else the call at once.\<close>

definition send :: "bp_config \<Rightarrow> 'r \<Rightarrow> 'r lane \<Rightarrow> 'r lane option" where
  "send cfg r l = (if length (ch l) < chan_cap cfg then Some (l\<lparr>ch := ch l @ [r]\<rparr>) else None)"

definition StartOrder :: "bp_config \<Rightarrow> string \<Rightarrow> BatchProcessor \<Rightarrow> bp_event \<times> BatchProcessor" where
  "StartOrder cfg orderID s =
     (case send cfg orderID (startLane s) of
        Some l \<Rightarrow> (Queued (CallStart orderID), s\<lparr>startLane := l\<rparr>)
      | None \<Rightarrow> (RanSync (CallStart orderID), s))"

definition cancel_call :: "cancelRequest \<Rightarrow> saga_call" where
  "cancel_call req = CallCancel (creq_orderID req) (creq_reason req)"

definition refund_call :: "refundRequest \<Rightarrow> saga_call" where
  "refund_call req = CallRefund (rreq_orderID req) (rreq_amountMinor req) (rreq_reason req)"

definition CancelOrder :: "bp_config \<Rightarrow> string \<Rightarrow> string \<Rightarrow> BatchProcessor \<Rightarrow> bp_event \<times> BatchProcessor" where
  "CancelOrder cfg orderID reason s =
     (case send cfg \<lparr>creq_orderID = orderID, creq_reason = reason\<rparr> (cancelLane s) of
        Some l \<Rightarrow> (Queued (CallCancel orderID reason), s\<lparr>cancelLane := l\<rparr>)
      | None \<Rightarrow> (RanSync (CallCancel orderID reason), s))"

definition RefundOrder_batched ::
  "bp_config \<Rightarrow> string \<Rightarrow> int \<Rightarrow> string \<Rightarrow> BatchProcessor \<Rightarrow> bp_event \<times> BatchProcessor" where
  "RefundOrder_batched cfg orderID amountMinor reason s =
     (case send cfg \<lparr>rreq_orderID = orderID, rreq_amountMinor = amountMinor, rreq_reason = reason\<rparr> (refundLane s) of
        Some l \<Rightarrow> (Queued (CallRefund orderID amountMinor reason), s\<lparr>refundLane := l\<rparr>)
      | None \<Rightarrow> (RanSync (CallRefund orderID amountMinor reason), s))"

definition halts :: "BatchProcessor \<Rightarrow> bool" where
  "halts s \<longleftrightarrow> stopped s \<or> ctx_done s"

definition ran :: "('r \<Rightarrow> saga_call) \<Rightarrow> 'r option \<Rightarrow> bp_event" where
  "ran call lab = (case lab of Some r \<Rightarrow> Ran (call r) | None \<Rightarrow> Silent)"

inductive bp_step :: "bp_config \<Rightarrow> BatchProcessor \<Rightarrow> bp_event \<Rightarrow> BatchProcessor \<Rightarrow> bool" for cfg where
  start: "worker (startLane s) = NotStarted \<Longrightarrow> worker (cancelLane s) = NotStarted \<Longrightarrow> worker (refundLane s) = NotStarted \<Longrightarrow>
    bp_step cfg s Silent (bp_Start s)"
| stop: "\<not> stopped s \<Longrightarrow> bp_step cfg s Silent (close_stopCh s)"
| ctx: "bp_step cfg s Silent (s\<lparr>ctx_done := True\<rparr>)"
| start_order: "StartOrder cfg orderID s = (e, s') \<Longrightarrow> bp_step cfg s e s'"
| cancel_order: "CancelOrder cfg orderID reason s = (e, s') \<Longrightarrow> bp_step cfg s e s'"
| refund_order: "RefundOrder_batched cfg orderID amountMinor reason s = (e, s') \<Longrightarrow> bp_step cfg s e s'"
| start_lane: "lane_step cfg (halts s) (startLane s) lab l \<Longrightarrow> bp_step cfg s (ran CallStart lab) (s\<lparr>startLane := l\<rparr>)"
| cancel_lane: "lane_step cfg (halts s) (cancelLane s) lab l \<Longrightarrow> bp_step cfg s (ran cancel_call lab) (s\<lparr>cancelLane := l\<rparr>)"
| refund_lane: "lane_step cfg (halts s) (refundLane s) lab l \<Longrightarrow> bp_step cfg s (ran refund_call lab) (s\<lparr>refundLane := l\<rparr>)"

inductive_cases bp_stepE: "bp_step cfg s e s'"

inductive bp_runs :: "bp_config \<Rightarrow> BatchProcessor \<Rightarrow> bp_event list \<Rightarrow> BatchProcessor \<Rightarrow> bool" for cfg where
  nil: "bp_runs cfg s [] s"
| snoc: "bp_runs cfg s es s1 \<Longrightarrow> bp_step cfg s1 e s2 \<Longrightarrow> bp_runs cfg s (es @ [e]) s2"

section \<open>One lane\<close>

fun in_flush :: "'r worker \<Rightarrow> 'r list" where
  "in_flush (Flushing pending started running limit returning) = pending"
| "in_flush _ = []"

fun in_start :: "'r worker \<Rightarrow> 'r list" where
  "in_start (Flushing pending started running limit returning) = started"
| "in_start _ = []"

text \<open>The requests that have been queued and have no goroutine yet, oldest first, and those whose goroutine was started
  and has not yet called the orchestrator.\<close>

definition waiting :: "'r lane \<Rightarrow> 'r list" where
  "waiting l = in_flush (worker l) @ batch l @ ch l"

definition starting :: "'r lane \<Rightarrow> 'r list" where
  "starting l = in_start (worker l)"

text \<open>A worker has returned, or is in its last flush, only when it was halted.\<close>

fun worker_ok :: "bp_config \<Rightarrow> bool \<Rightarrow> 'r lane \<Rightarrow> 'r worker \<Rightarrow> bool" where
  "worker_ok cfg halted l (Flushing pending started running limit returning) \<longleftrightarrow> batch l = [] \<and> 1 \<le> limit
     \<and> limit \<le> max 1 (maxParallelOps cfg) \<and> int (length started + length running) \<le> limit \<and> (returning \<longrightarrow> halted)"
| "worker_ok cfg halted l NotStarted \<longleftrightarrow> batch l = []"
| "worker_ok cfg halted l Selecting \<longleftrightarrow> batch l = [] \<or> int (length (batch l)) < batchSize cfg"
| "worker_ok cfg halted l Returned \<longleftrightarrow> batch l = [] \<and> halted"

definition lane_ok :: "bp_config \<Rightarrow> bool \<Rightarrow> 'r lane \<Rightarrow> bool" where
  "lane_ok cfg halted l \<longleftrightarrow> worker_ok cfg halted l (worker l) \<and> length (ch l) \<le> chan_cap cfg"

lemma flush_waiting:
  "worker l = Selecting \<Longrightarrow> waiting (flush cfg returning l) = waiting l \<and> starting (flush cfg returning l) = starting l"
  by (simp add: waiting_def starting_def flush_def)

lemma receive_waiting:
  "worker l = Selecting \<Longrightarrow> ch l = r # rest \<Longrightarrow>
   waiting (receive cfg r rest l) = waiting l \<and> starting (receive cfg r rest l) = starting l"
  by (auto simp: receive_def Let_def flush_waiting) (auto simp: waiting_def starting_def)

text \<open>Requests leave the queue at its front and are given to the orchestrator from among the started ones.\<close>

lemma lane_moves:
  assumes "lane_step cfg halted l lab l'"
  shows "\<exists>xs. waiting l = xs @ waiting l'
    \<and> mset (starting l) + mset xs = (case lab of Some r \<Rightarrow> {#r#} | None \<Rightarrow> {#}) + mset (starting l')"
  using assms by (cases rule: lane_step.cases) (auto simp: flush_waiting receive_waiting, auto simp: waiting_def starting_def)

lemma parallel_limit_bounds:
  "0 < n \<Longrightarrow> 1 \<le> parallel_limit cfg n \<and> parallel_limit cfg n \<le> max 1 (maxParallelOps cfg)"
  by (auto simp: parallel_limit_def Let_def)

lemma flush_ok:
  "length (ch l) \<le> chan_cap cfg \<Longrightarrow> (returning \<longrightarrow> halted) \<Longrightarrow> lane_ok cfg halted (flush cfg returning l)"
  using parallel_limit_bounds [of "int (length (batch l))" cfg] by (auto simp: lane_ok_def flush_def)

lemma lane_ok_step: "lane_step cfg halted l lab l' \<Longrightarrow> lane_ok cfg halted l \<Longrightarrow> lane_ok cfg halted l'"
  by (erule lane_step.cases) (auto simp: receive_def Let_def intro!: flush_ok, auto simp: lane_ok_def)

lemma lane_ok_send: "send cfg r l = Some l' \<Longrightarrow> lane_ok cfg halted l \<Longrightarrow> lane_ok cfg halted l'"
  by (cases "worker l") (auto simp: send_def lane_ok_def split: if_splits)

lemma lane_ok_halted: "lane_ok cfg halted l \<Longrightarrow> (halted \<longrightarrow> halted') \<Longrightarrow> lane_ok cfg halted' l"
  by (cases "worker l") (auto simp: lane_ok_def)

lemma send_waiting: "send cfg r l = Some l' \<Longrightarrow> waiting l' = waiting l @ [r] \<and> starting l' = starting l"
  by (auto simp: send_def waiting_def starting_def split: if_splits)

lemma new_lane_ok: "lane_ok cfg halted new_lane" "waiting new_lane = []" "starting new_lane = []"
  by (simp_all add: lane_ok_def new_lane_def waiting_def starting_def)

text \<open>The work that is left, which every step of the worker reduces but a tick with nothing to do.\<close>

fun worker_work :: "'r worker \<Rightarrow> nat" where
  "worker_work (Flushing pending started running limit returning) =
     3 * length pending + 2 * length started + length running + 2"
| "worker_work NotStarted = 1"
| "worker_work Selecting = 1"
| "worker_work Returned = 0"

definition lane_work :: "'r lane \<Rightarrow> nat" where
  "lane_work l = 6 * length (ch l) + 5 * length (batch l) + worker_work (worker l)"

lemma flush_work:
  "worker l = Selecting \<Longrightarrow> batch l \<noteq> [] \<or> returning \<Longrightarrow> lane_work (flush cfg returning l) < lane_work l"
  by (cases "batch l") (auto simp: lane_work_def flush_def)

lemma lane_step_work: "lane_step cfg halted l lab l' \<Longrightarrow> l' \<noteq> l \<Longrightarrow> lane_work l' < lane_work l"
proof (erule lane_step.cases, goal_cases)
  case (2 l2 r rest)
  define l1 where "l1 = l2\<lparr>ch := rest, batch := batch l2 @ [r]\<rparr>"
  have "lane_work l1 < lane_work l2" using 2 by (simp add: l1_def lane_work_def)
  moreover have "lane_work (flush cfg False l1) < lane_work l1" using 2 by (intro flush_work) (simp_all add: l1_def)
  ultimately show ?case using 2 by (simp add: receive_def Let_def l1_def [symmetric])
next
  case (3 l2)
  then have "batch l2 \<noteq> []" by (auto simp: flush_def)
  then show ?case using 3 flush_work by blast
qed (simp_all add: flush_work, auto simp: lane_work_def)

text \<open>A worker that can do nothing is done: it waits for requests with nothing left, or it was halted and has returned.\<close>

definition lane_done :: "bool \<Rightarrow> 'r lane \<Rightarrow> bool" where
  "lane_done halted l \<longleftrightarrow> waiting l = ch l \<and> starting l = []
     \<and> (if halted then worker l = Returned else worker l = Selecting \<and> ch l = [])"

definition lane_settled :: "bp_config \<Rightarrow> bool \<Rightarrow> 'r lane \<Rightarrow> bool" where
  "lane_settled cfg halted l \<longleftrightarrow> (\<forall>lab l'. lane_step cfg halted l lab l' \<longrightarrow> l' = l)"

lemma worker_same: "l\<lparr>worker := w\<rparr> = l \<longleftrightarrow> worker l = w"
  by (cases l) auto

lemma flush_same: "flush cfg returning l = l \<longleftrightarrow> batch l = [] \<and> worker l = (if returning then Returned else Selecting)"
proof
  assume same: "flush cfg returning l = l"
  show "batch l = [] \<and> worker l = (if returning then Returned else Selecting)"
  proof (cases "batch l")
    case Nil
    then show ?thesis using same by (auto simp: flush_def worker_same)
  next
    case (Cons r rest)
    then have "batch (flush cfg returning l) = []" by (simp add: flush_def)
    then show ?thesis using same Cons by simp
  qed
qed (auto simp: flush_def worker_same)

lemma lane_settled_flushing:
  assumes "lane_settled cfg halted l" and "lane_ok cfg halted l"
  shows "worker l \<noteq> Flushing pending started running limit returning"
proof
  assume fl: "worker l = Flushing pending started running limit returning"
  have same: "w = worker l" if "lane_step cfg halted l lab (l\<lparr>worker := w\<rparr>)" for lab w
    using assms(1) that worker_same unfolding lane_settled_def by metis
  have running: "running = []"
    using same [OF lane_step.finish [of l pending started "[]"]] fl by (cases running) auto
  have started: "started = []"
    using same [OF lane_step.call [of l pending "[]"]] fl by (cases started) auto
  have "int (length started + length running) < limit"
    using assms(2) fl running started by (simp add: lane_ok_def)
  then have "pending = []"
    using same [OF lane_step.launch] fl by (cases pending) auto
  with running started show False using same [OF lane_step.wait] fl by (auto split: if_splits)
qed

lemma lane_settled_done:
  assumes "lane_settled cfg halted l" and "lane_ok cfg halted l" and "worker l \<noteq> NotStarted"
  shows "lane_done halted l"
proof (cases "worker l")
  case Selecting
  have "flush cfg False l = l" using assms(1) Selecting by (auto simp: lane_settled_def intro: lane_step.tick)
  then have batch: "batch l = []" by (simp add: flush_same)
  have "flush cfg True l = l" if halted
    using assms(1) Selecting that by (auto simp: lane_settled_def intro: lane_step.quit)
  then have "\<not> halted" using Selecting by (auto simp: flush_same)
  moreover have "ch l = []"
  proof (cases "ch l")
    case (Cons r rest)
    then have "receive cfg r rest l = l" using assms(1) Selecting by (auto simp: lane_settled_def intro: lane_step.recv)
    moreover have "ch (receive cfg r rest l) = rest" by (simp add: receive_def Let_def flush_def)
    ultimately show ?thesis using Cons by simp
  qed
  ultimately show ?thesis using Selecting batch by (simp add: lane_done_def waiting_def starting_def)
next
  case (Flushing pending started running limit returning)
  then show ?thesis using lane_settled_flushing [OF assms(1,2)] by blast
next
  case Returned
  then show ?thesis using assms(2) by (simp add: lane_done_def waiting_def starting_def lane_ok_def)
qed (use assms(3) in simp)

section \<open>The processor\<close>

text \<open>The calls of one kind that were queued, and those the workers began, in a sequence of events.\<close>

fun is_start :: "saga_call \<Rightarrow> bool" where
  "is_start (CallStart i) \<longleftrightarrow> True"
| "is_start _ \<longleftrightarrow> False"

fun is_cancel :: "saga_call \<Rightarrow> bool" where
  "is_cancel (CallCancel i reason) \<longleftrightarrow> True"
| "is_cancel _ \<longleftrightarrow> False"

fun is_refund :: "saga_call \<Rightarrow> bool" where
  "is_refund (CallRefund i amount reason) \<longleftrightarrow> True"
| "is_refund _ \<longleftrightarrow> False"

definition queued :: "(saga_call \<Rightarrow> bool) \<Rightarrow> bp_event list \<Rightarrow> saga_call list" where
  "queued P es = filter P (concat (map (\<lambda>e. case e of Queued c \<Rightarrow> [c] | _ \<Rightarrow> []) es))"

definition begun :: "(saga_call \<Rightarrow> bool) \<Rightarrow> bp_event list \<Rightarrow> saga_call list" where
  "begun P es = filter P (concat (map (\<lambda>e. case e of Ran c \<Rightarrow> [c] | _ \<Rightarrow> []) es))"

text \<open>The account of a lane: the queued requests are, in order, those given to the orchestrator or just started, and those
  that still wait.\<close>

definition accounted :: "('r \<Rightarrow> saga_call) \<Rightarrow> (saga_call \<Rightarrow> bool) \<Rightarrow> bp_event list \<Rightarrow> 'r lane \<Rightarrow> bool" where
  "accounted req P es l \<longleftrightarrow> (\<exists>ls. queued P es = ls @ map req (waiting l)
     \<and> mset ls = mset (begun P es) + mset (map req (starting l)))"

definition all_accounted :: "bp_event list \<Rightarrow> BatchProcessor \<Rightarrow> bool" where
  "all_accounted es s \<longleftrightarrow> accounted CallStart is_start es (startLane s)
     \<and> accounted cancel_call is_cancel es (cancelLane s) \<and> accounted refund_call is_refund es (refundLane s)"

definition bp_ok :: "bp_config \<Rightarrow> BatchProcessor \<Rightarrow> bool" where
  "bp_ok cfg s \<longleftrightarrow> lane_ok cfg (halts s) (startLane s) \<and> lane_ok cfg (halts s) (cancelLane s)
     \<and> lane_ok cfg (halts s) (refundLane s)"

lemma queued_simps [simp]:
  "queued P [] = []" "begun P [] = []"
  "queued P (es @ [Queued c]) = queued P es @ (if P c then [c] else [])"
  "queued P (es @ [RanSync c]) = queued P es" "queued P (es @ [Ran c]) = queued P es" "queued P (es @ [Silent]) = queued P es"
  "begun P (es @ [Queued c]) = begun P es" "begun P (es @ [RanSync c]) = begun P es"
  "begun P (es @ [Ran c]) = begun P es @ (if P c then [c] else [])" "begun P (es @ [Silent]) = begun P es"
  by (simp_all add: queued_def begun_def)

lemma call_kinds [simp]:
  "\<not> is_start (cancel_call q)" "is_cancel (cancel_call q)" "\<not> is_refund (cancel_call q)"
  "\<not> is_start (refund_call t)" "\<not> is_cancel (refund_call t)" "is_refund (refund_call t)"
  by (simp_all add: cancel_call_def refund_call_def)

lemma waiting_worker:
  "worker l = NotStarted \<Longrightarrow> waiting (l\<lparr>worker := Selecting\<rparr>) = waiting l \<and> starting (l\<lparr>worker := Selecting\<rparr>) = starting l"
  by (simp add: waiting_def starting_def)

lemma ok_worker: "worker l = NotStarted \<Longrightarrow> lane_ok cfg halted l \<Longrightarrow> lane_ok cfg halted (l\<lparr>worker := Selecting\<rparr>)"
  by (simp add: lane_ok_def)

lemma accounted_other:
  "queued P (es @ [e]) = queued P es \<Longrightarrow> begun P (es @ [e]) = begun P es \<Longrightarrow> waiting l' = waiting l \<Longrightarrow>
   starting l' = starting l \<Longrightarrow> accounted req P es l \<Longrightarrow> accounted req P (es @ [e]) l'"
  by (simp add: accounted_def)

lemma accounted_queued:
  "send cfg r l = Some l' \<Longrightarrow> P (req r) \<Longrightarrow> accounted req P es l \<Longrightarrow> accounted req P (es @ [Queued (req r)]) l'"
  by (auto simp: accounted_def dest!: send_waiting)

lemma accounted_step:
  assumes "lane_step cfg halted l lab l'" and "\<And>r. P (req r)" and "accounted req P es l"
  shows "accounted req P (es @ [ran req lab]) l'"
proof -
  obtain xs where xs: "waiting l = xs @ waiting l'"
    "mset (starting l) + mset xs = (case lab of Some r \<Rightarrow> {#r#} | None \<Rightarrow> {#}) + mset (starting l')"
    using lane_moves [OF assms(1)] by blast
  obtain ls where ls: "queued P es = ls @ map req (waiting l)" "mset ls = mset (begun P es) + mset (map req (starting l))"
    using assms(3) by (auto simp: accounted_def)
  have "queued P (es @ [ran req lab]) = (ls @ map req xs) @ map req (waiting l')"
    using ls(1) xs(1) by (cases lab) (simp_all add: ran_def)
  moreover have "mset (ls @ map req xs) = mset (begun P (es @ [ran req lab])) + mset (map req (starting l'))"
    using ls(2) arg_cong [OF xs(2), of "image_mset req"] assms(2) by (cases lab) (simp_all add: ran_def)
  ultimately show ?thesis unfolding accounted_def by blast
qed

lemma bp_step_ok: "bp_step cfg s e s' \<Longrightarrow> bp_ok cfg s \<Longrightarrow> bp_ok cfg s'"
  by (erule bp_step.cases)
    (auto simp: bp_ok_def bp_Start_def close_stopCh_def StartOrder_def CancelOrder_def RefundOrder_batched_def halts_def
      split: option.splits intro: ok_worker lane_ok_step lane_ok_send lane_ok_halted)

lemma bp_step_accounted: "bp_step cfg s e s' \<Longrightarrow> all_accounted es s \<Longrightarrow> all_accounted (es @ [e]) s'"
proof (erule bp_step.cases, goal_cases)
  case (4 orderID s)
  then show ?case using accounted_queued [of cfg orderID "startLane s" _ is_start CallStart es]
    by (auto simp: all_accounted_def StartOrder_def split: option.splits intro: accounted_other)
next
  case (5 orderID reason s)
  then show ?case
    using accounted_queued [of cfg "\<lparr>creq_orderID = orderID, creq_reason = reason\<rparr>" "cancelLane s" _ is_cancel cancel_call es]
    by (auto simp: all_accounted_def CancelOrder_def cancel_call_def split: option.splits intro: accounted_other)
next
  case (6 orderID amountMinor reason s)
  then show ?case
    using accounted_queued [of cfg "\<lparr>rreq_orderID = orderID, rreq_amountMinor = amountMinor, rreq_reason = reason\<rparr>"
        "refundLane s" _ is_refund refund_call es]
    by (auto simp: all_accounted_def RefundOrder_batched_def refund_call_def split: option.splits intro: accounted_other)
next
  case (7 s lab l)
  then show ?case using accounted_step [of cfg "halts s" "startLane s" lab l is_start CallStart es]
    by (auto simp: all_accounted_def intro!: accounted_other) (auto simp: ran_def split: option.split)
next
  case (8 s lab l)
  then show ?case using accounted_step [of cfg "halts s" "cancelLane s" lab l is_cancel cancel_call es]
    by (auto simp: all_accounted_def intro!: accounted_other) (auto simp: ran_def split: option.split)
next
  case (9 s lab l)
  then show ?case using accounted_step [of cfg "halts s" "refundLane s" lab l is_refund refund_call es]
    by (auto simp: all_accounted_def intro!: accounted_other) (auto simp: ran_def split: option.split)
qed (auto simp: all_accounted_def bp_Start_def close_stopCh_def waiting_worker intro: accounted_other)

lemma bp_runs_accounted:
  "bp_runs cfg s es s' \<Longrightarrow> bp_ok cfg s \<Longrightarrow> all_accounted [] s \<Longrightarrow> bp_ok cfg s' \<and> all_accounted es s'"
  by (induction rule: bp_runs.induct) (auto intro: bp_step_ok bp_step_accounted)

lemma new_processor_ok: "bp_ok (fst NewBatchProcessor) (snd NewBatchProcessor)" "all_accounted [] (snd NewBatchProcessor)"
  by (simp_all add: bp_ok_def all_accounted_def accounted_def NewBatchProcessor_def new_lane_ok)

text \<open>Steps of the workers that change something; what is left to do bounds their number.\<close>

inductive worker_step :: "bp_config \<Rightarrow> BatchProcessor \<Rightarrow> bp_event \<Rightarrow> BatchProcessor \<Rightarrow> bool" for cfg where
  starts: "lane_step cfg (halts s) (startLane s) lab l \<Longrightarrow> l \<noteq> startLane s \<Longrightarrow> worker_step cfg s (ran CallStart lab) (s\<lparr>startLane := l\<rparr>)"
| cancels: "lane_step cfg (halts s) (cancelLane s) lab l \<Longrightarrow> l \<noteq> cancelLane s \<Longrightarrow> worker_step cfg s (ran cancel_call lab) (s\<lparr>cancelLane := l\<rparr>)"
| refunds: "lane_step cfg (halts s) (refundLane s) lab l \<Longrightarrow> l \<noteq> refundLane s \<Longrightarrow> worker_step cfg s (ran refund_call lab) (s\<lparr>refundLane := l\<rparr>)"

inductive worker_steps :: "bp_config \<Rightarrow> BatchProcessor \<Rightarrow> bp_event list \<Rightarrow> BatchProcessor \<Rightarrow> bool" for cfg where
  nil: "worker_steps cfg s [] s"
| snoc: "worker_steps cfg s es s1 \<Longrightarrow> worker_step cfg s1 e s2 \<Longrightarrow> worker_steps cfg s (es @ [e]) s2"

definition bp_work :: "BatchProcessor \<Rightarrow> nat" where
  "bp_work s = lane_work (startLane s) + lane_work (cancelLane s) + lane_work (refundLane s)"

definition settled :: "bp_config \<Rightarrow> BatchProcessor \<Rightarrow> bool" where
  "settled cfg s \<longleftrightarrow> (\<forall>e s'. \<not> worker_step cfg s e s')"

definition bp_started :: "BatchProcessor \<Rightarrow> bool" where
  "bp_started s \<longleftrightarrow> worker (startLane s) \<noteq> NotStarted \<and> worker (cancelLane s) \<noteq> NotStarted \<and> worker (refundLane s) \<noteq> NotStarted"

text \<open>Without a stop every queued request was given to the orchestrator, exactly once, and the workers wait for more; after
  a stop all workers have returned, and only what is in the channels was not given to it.\<close>

definition drained :: "bp_event list \<Rightarrow> BatchProcessor \<Rightarrow> bool" where
  "drained es s \<longleftrightarrow>
     (if halts s then worker (startLane s) = Returned \<and> worker (cancelLane s) = Returned \<and> worker (refundLane s) = Returned
        \<and> mset (queued is_start es) = mset (begun is_start es) + mset (map CallStart (ch (startLane s)))
        \<and> mset (queued is_cancel es) = mset (begun is_cancel es) + mset (map cancel_call (ch (cancelLane s)))
        \<and> mset (queued is_refund es) = mset (begun is_refund es) + mset (map refund_call (ch (refundLane s)))
      else worker (startLane s) = Selecting \<and> worker (cancelLane s) = Selecting \<and> worker (refundLane s) = Selecting
        \<and> mset (queued is_start es) = mset (begun is_start es)
        \<and> mset (queued is_cancel es) = mset (begun is_cancel es)
        \<and> mset (queued is_refund es) = mset (begun is_refund es))"

lemma accounted_done:
  "accounted req P es l \<Longrightarrow> lane_done halted l \<Longrightarrow> mset (queued P es) = mset (begun P es) + mset (map req (ch l))"
  by (auto simp: accounted_def lane_done_def)

lemma worker_step_bp: "worker_step cfg s e s' \<Longrightarrow> bp_step cfg s e s'"
  by (erule worker_step.cases) (auto intro: bp_step.intros)

lemma worker_step_work: "worker_step cfg s e s' \<Longrightarrow> bp_work s' < bp_work s"
  by (erule worker_step.cases) (auto simp: bp_work_def dest: lane_step_work)

lemma worker_steps_bounded: "worker_steps cfg s es s' \<Longrightarrow> length es + bp_work s' \<le> bp_work s"
  by (induction rule: worker_steps.induct) (auto dest!: worker_step_work)

lemma worker_steps_runs: "worker_steps cfg s1 es' s' \<Longrightarrow> bp_runs cfg s es s1 \<Longrightarrow> bp_runs cfg s (es @ es') s'"
  by (induction rule: worker_steps.induct)
    (auto simp flip: append_assoc intro: bp_runs.snoc dest: worker_step_bp)

lemma settled_lanes:
  assumes "settled cfg s"
  shows "lane_settled cfg (halts s) (startLane s)" "lane_settled cfg (halts s) (cancelLane s)"
    "lane_settled cfg (halts s) (refundLane s)"
  using assms by (auto simp: settled_def lane_settled_def intro: worker_step.intros)

fun in_progress :: "'r worker \<Rightarrow> nat" where
  "in_progress (Flushing pending started running limit returning) = length started + length running"
| "in_progress _ = 0"

definition lane_bounded :: "'r lane \<Rightarrow> bool" where
  "lane_bounded l \<longleftrightarrow> in_progress (worker l) \<le> 8 \<and> length (starting l) \<le> 8 \<and> length (batch l) < 10 \<and> length (ch l) \<le> 100"

lemma lane_ok_bounded: "lane_ok (fst NewBatchProcessor) halted l \<Longrightarrow> lane_bounded l"
  by (cases "worker l") (auto simp: lane_ok_def lane_bounded_def starting_def NewBatchProcessor_def)

lemma run_bounded:
  assumes "bp_runs (fst NewBatchProcessor) (snd NewBatchProcessor) es s"
  shows "lane_bounded (startLane s) \<and> lane_bounded (cancelLane s) \<and> lane_bounded (refundLane s)"
proof -
  have "bp_ok (fst NewBatchProcessor) s" using bp_runs_accounted [OF assms new_processor_ok] by simp
  then show ?thesis by (auto simp: bp_ok_def intro: lane_ok_bounded)
qed

text \<open>C25. \<open>BatchProcessor\<close>, for any interleaving of its callers, its workers and the goroutines that process a batch: for
  each kind of request the requests that were queued are, in this order, a group that consists of those given to the
  orchestrator and of at most 8 whose goroutine was started and has not called it yet, and those that still wait (in the
  flush, the batch and the channel). So no request is invented or given to the orchestrator twice, none disappears from
  the processor, and a request is overtaken only by requests whose goroutines were started together with it. What
  still waits when the workers have returned is never processed.\<close>

theorem batch_processor_conserves:
  assumes "bp_runs (fst NewBatchProcessor) (snd NewBatchProcessor) es s"
  shows "(\<exists>ls. queued is_start es = ls @ map CallStart (waiting (startLane s))
       \<and> mset ls = mset (begun is_start es) + mset (map CallStart (starting (startLane s)))
       \<and> length (starting (startLane s)) \<le> 8)
    \<and> (\<exists>ls. queued is_cancel es = ls @ map cancel_call (waiting (cancelLane s))
       \<and> mset ls = mset (begun is_cancel es) + mset (map cancel_call (starting (cancelLane s)))
       \<and> length (starting (cancelLane s)) \<le> 8)
    \<and> (\<exists>ls. queued is_refund es = ls @ map refund_call (waiting (refundLane s))
       \<and> mset ls = mset (begun is_refund es) + mset (map refund_call (starting (refundLane s)))
       \<and> length (starting (refundLane s)) \<le> 8)"
  using bp_runs_accounted [OF assms new_processor_ok] run_bounded [OF assms]
  by (simp add: all_accounted_def accounted_def lane_bounded_def)

text \<open>The bounds of \<open>BatchProcessor\<close>: at most 8 requests of a kind are processed at a time, fewer than 10 are
  collected, and at most 100 are in a channel.\<close>

theorem batch_processor_bounds:
  assumes "bp_runs (fst NewBatchProcessor) (snd NewBatchProcessor) es s"
  shows "lane_bounded (startLane s) \<and> lane_bounded (cancelLane s) \<and> lane_bounded (refundLane s)"
  by (rule run_bounded [OF assms])

text \<open>C26. The workers of \<open>BatchProcessor\<close> get done: when no more requests come, they and their goroutines can take only
  finitely many steps that change anything, at most \<open>bp_work\<close> many. Once none is left, without \<open>Stop\<close> or an end of the
  context every queued request was given to the orchestrator exactly once and the workers wait for more; after \<open>Stop\<close> or the
  end of the context all workers have returned, and only the requests still in the channels were not given to it.\<close>

theorem batch_processor_drains:
  assumes "bp_runs (fst NewBatchProcessor) (snd NewBatchProcessor) es s" and "worker_steps (fst NewBatchProcessor) s es' s'"
  shows "length es' \<le> bp_work s \<and> (settled (fst NewBatchProcessor) s' \<and> bp_started s' \<longrightarrow> drained (es @ es') s')"
proof (intro conjI impI)
  show "length es' \<le> bp_work s" using worker_steps_bounded [OF assms(2)] by simp
  have run: "bp_ok (fst NewBatchProcessor) s' \<and> all_accounted (es @ es') s'"
    by (rule bp_runs_accounted [OF worker_steps_runs [OF assms(2,1)] new_processor_ok])
  assume "settled (fst NewBatchProcessor) s' \<and> bp_started s'"
  then have lanes: "lane_done (halts s') (startLane s')" "lane_done (halts s') (cancelLane s')" "lane_done (halts s') (refundLane s')"
    using run settled_lanes by (auto simp: bp_started_def bp_ok_def intro!: lane_settled_done)
  show "drained (es @ es') s'"
    using run lanes accounted_done [OF _ lanes(1)] accounted_done [OF _ lanes(2)] accounted_done [OF _ lanes(3)]
    by (auto simp: drained_def lane_done_def all_accounted_def split: if_splits)
qed

text \<open>A queued request that no worker will ever begin.\<close>

definition never_begins :: "bp_config \<Rightarrow> BatchProcessor \<Rightarrow> saga_call \<Rightarrow> bool" where
  "never_begins cfg s c \<longleftrightarrow> (\<forall>es' s'. bp_runs cfg s es' s' \<longrightarrow> Ran c \<notin> set es')"

definition all_returned :: "BatchProcessor \<Rightarrow> bool" where
  "all_returned s \<longleftrightarrow> worker (startLane s) = Returned \<and> worker (cancelLane s) = Returned \<and> worker (refundLane s) = Returned"

lemma returned_step: "bp_step cfg s e s' \<Longrightarrow> all_returned s \<Longrightarrow> all_returned s' \<and> e \<noteq> Ran c"
  by (erule bp_step.cases)
    (auto simp: all_returned_def bp_Start_def close_stopCh_def StartOrder_def CancelOrder_def RefundOrder_batched_def send_def
      split: option.splits if_splits elim: lane_stepE)

lemma returned_never: "all_returned s \<Longrightarrow> never_begins cfg s c"
proof -
  have "all_returned s' \<and> Ran c \<notin> set es'" if "bp_runs cfg s es' s'" and "all_returned s" for es' s'
    using that by (induction rule: bp_runs.induct) (auto dest: returned_step)
  then show "all_returned s \<Longrightarrow> never_begins cfg s c" by (auto simp: never_begins_def)
qed

text \<open>An example: one request is queued before the processor is stopped.\<close>

definition stopping :: BatchProcessor where
  "stopping = \<lparr>startLane = \<lparr>ch = [''o1''], batch = [], worker = Selecting\<rparr>, cancelLane = \<lparr>ch = [], batch = [], worker = Selecting\<rparr>,
     refundLane = \<lparr>ch = [], batch = [], worker = Selecting\<rparr>, stopped = True, ctx_done = False\<rparr>"

definition stopped_early :: BatchProcessor where
  "stopped_early = \<lparr>startLane = \<lparr>ch = [''o1''], batch = [], worker = Returned\<rparr>, cancelLane = \<lparr>ch = [], batch = [], worker = Returned\<rparr>,
     refundLane = \<lparr>ch = [], batch = [], worker = Returned\<rparr>, stopped = True, ctx_done = False\<rparr>"

lemma stopping_reached:
  "bp_runs (fst NewBatchProcessor) (snd NewBatchProcessor) ((([] @ [Silent]) @ [Queued (CallStart ''o1'')]) @ [Silent]) stopping"
proof (rule bp_runs.snoc [OF bp_runs.snoc [OF bp_runs.snoc [OF bp_runs.nil bp_step.start] bp_step.start_order]])
  show "StartOrder (fst NewBatchProcessor) ''o1'' (bp_Start (snd NewBatchProcessor))
      = (Queued (CallStart ''o1''), stopping\<lparr>stopped := False\<rparr>)"
    by (simp add: StartOrder_def send_def bp_Start_def NewBatchProcessor_def new_lane_def stopping_def)
  have "bp_step (fst NewBatchProcessor) (stopping\<lparr>stopped := False\<rparr>) Silent (close_stopCh (stopping\<lparr>stopped := False\<rparr>))"
    by (rule bp_step.stop) simp
  then show "bp_step (fst NewBatchProcessor) (stopping\<lparr>stopped := False\<rparr>) Silent stopping"
    by (simp add: close_stopCh_def stopping_def)
qed (simp_all add: NewBatchProcessor_def new_lane_def)

lemma lane_quits:
  "lane_step cfg True \<lparr>ch = c, batch = [], worker = Selecting\<rparr> None \<lparr>ch = c, batch = [], worker = Returned\<rparr>"
  using lane_step.quit [of "\<lparr>ch = c, batch = [], worker = Selecting\<rparr>" True cfg] by (simp add: flush_def)

lemma workers_quit: "worker_steps cfg stopping ((([] @ [Silent]) @ [Silent]) @ [Silent]) stopped_early"
proof -
  define s1 where "s1 = stopping\<lparr>startLane := \<lparr>ch = [''o1''], batch = [], worker = Returned\<rparr>\<rparr>"
  define s2 where "s2 = s1\<lparr>cancelLane := \<lparr>ch = [], batch = [], worker = Returned\<rparr>\<rparr>"
  have "worker_step cfg stopping (ran CallStart None) s1"
    unfolding s1_def by (rule worker_step.starts) (simp_all add: stopping_def halts_def lane_quits)
  moreover have "worker_step cfg s1 (ran cancel_call None) s2"
    unfolding s2_def by (rule worker_step.cancels) (simp_all add: s1_def stopping_def halts_def lane_quits)
  moreover have "worker_step cfg s2 (ran refund_call None) (s2\<lparr>refundLane := \<lparr>ch = [], batch = [], worker = Returned\<rparr>\<rparr>)"
    by (rule worker_step.refunds) (simp_all add: s1_def s2_def stopping_def halts_def lane_quits)
  moreover have "s2\<lparr>refundLane := \<lparr>ch = [], batch = [], worker = Returned\<rparr>\<rparr> = stopped_early"
    by (simp add: s2_def s1_def stopping_def stopped_early_def)
  ultimately show ?thesis
    using worker_steps.snoc [OF worker_steps.snoc [OF worker_steps.snoc [OF worker_steps.nil]]] by (simp add: ran_def)
qed

lemma stopped_early_settled: "settled cfg stopped_early"
  by (auto simp: settled_def stopped_early_def elim!: worker_step.cases lane_stepE)

theorem batch_processor_conserves_witness:
  "queued is_start ((([] @ [Silent]) @ [Queued (CallStart ''o1'')]) @ [Silent]) = [CallStart ''o1'']"
  using batch_processor_conserves [OF stopping_reached] by (simp add: stopping_def waiting_def starting_def begun_def)

theorem batch_processor_bounds_witness: "lane_bounded (startLane stopping)"
  using batch_processor_bounds [OF stopping_reached] by simp

theorem batch_processor_drains_witness:
  "3 \<le> bp_work stopping \<and> drained (([] @ [Silent, Queued (CallStart ''o1''), Silent]) @ [Silent, Silent, Silent]) stopped_early"
  using batch_processor_drains [OF stopping_reached workers_quit] stopped_early_settled
  by (simp add: bp_started_def stopped_early_def)

text \<open>\<open>Stop\<close> loses requests: a worker that finds \<open>stopCh\<close> closed flushes its buffer, but leaves what is in its channel,
  so there is a run in which an order was queued, \<open>Stop\<close> has returned, and the order is never given to the
  orchestrator.\<close>

theorem stop_loses_queued_request:
  "\<exists>es s. bp_runs (fst NewBatchProcessor) (snd NewBatchProcessor) es s \<and> Queued (CallStart ''o1'') \<in> set es \<and> stop_returns s
     \<and> Ran (CallStart ''o1'') \<notin> set es \<and> RanSync (CallStart ''o1'') \<notin> set es
     \<and> never_begins (fst NewBatchProcessor) s (CallStart ''o1'')"
proof (intro exI conjI)
  show "bp_runs (fst NewBatchProcessor) (snd NewBatchProcessor)
      (((([] @ [Silent]) @ [Queued (CallStart ''o1'')]) @ [Silent]) @ ((([] @ [Silent]) @ [Silent]) @ [Silent])) stopped_early"
    by (rule worker_steps_runs [OF workers_quit stopping_reached])
  show "never_begins (fst NewBatchProcessor) stopped_early (CallStart ''o1'')"
    by (rule returned_never) (simp add: all_returned_def stopped_early_def)
qed (simp_all add: stop_returns_def stopped_early_def)

end
