(* ===== verification/Health.thy ===== *)
theory Health
  imports Programs Domain
begin

text \<open>
  \<open>internal/health/health.go\<close>: the health endpoint. A \<open>Checker\<close> is a program that returns a \<open>Check\<close>; the map of
  checkers is a map with the order in which \<open>range\<close> visits it as a parameter. An HTTP answer is its status code with
  the value that is encoded as its body. \<open>UptimeSeconds\<close> is the truncated quotient; the rounding of \<open>float64\<close> in
  \<open>Seconds\<close> is left out.
\<close>

definition quot :: "int \<Rightarrow> int \<Rightarrow> int" where
  "quot a n = sgn a * (\<bar>a\<bar> div n)"

datatype Status = StatusHealthy | StatusUnhealthy | StatusDegraded

record Check =
  chk_Name :: string
  chk_Status :: Status
  chk_Message :: string
  DurationMs :: int

type_synonym 'w Checker = "('w, Check) prog"

record Response =
  rsp_Status :: Status
  Timestamp :: gotime
  Checks :: "string \<rightharpoonup> Check"
  rsp_Version :: string
  UptimeSeconds :: int

record 'w Handler =
  checkers :: "string \<rightharpoonup> 'w Checker"
  version :: string
  startTime :: gotime

definition NewHandler :: "string \<Rightarrow> gotime \<Rightarrow> 'w Handler" where
  "NewHandler version1 now = \<lparr>checkers = Map.empty, version = version1, startTime = now\<rparr>"

definition RegisterChecker :: "string \<Rightarrow> 'w Checker \<Rightarrow> 'w Handler \<Rightarrow> 'w Handler" where
  "RegisterChecker name checker h = h\<lparr>checkers := (checkers h)(name \<mapsto> checker)\<rparr>"

definition worse :: "Status \<Rightarrow> Status \<Rightarrow> Status" where
  "worse overallStatus st =
     (if st = StatusUnhealthy then StatusUnhealthy
      else if st = StatusDegraded \<and> overallStatus = StatusHealthy then StatusDegraded
      else overallStatus)"

fun check_loop ::
  "(string \<rightharpoonup> 'w Checker) \<Rightarrow> string list \<Rightarrow> (string \<rightharpoonup> Check) \<Rightarrow> Status \<Rightarrow> ('w, (string \<rightharpoonup> Check) \<times> Status) prog" where
  "check_loop cs [] checks overallStatus = return (checks, overallStatus)"
| "check_loop cs (name # names) checks overallStatus =
     (case cs name of
        None \<Rightarrow> check_loop cs names checks overallStatus
      | Some checker \<Rightarrow> do {
          check \<leftarrow> checker;
          check_loop cs names (checks(name \<mapsto> check)) (worse overallStatus (chk_Status check))
        })"

definition ServeHTTP :: "('w, gotime) prog \<Rightarrow> string list \<Rightarrow> 'w Handler \<Rightarrow> ('w, int \<times> Response) prog" where
  "ServeHTTP now order h = do {
     (checks, overallStatus) \<leftarrow> check_loop (checkers h) order Map.empty StatusHealthy;
     timestamp \<leftarrow> now;
     now2 \<leftarrow> now;
     return (if overallStatus = StatusUnhealthy then 503 else 200,
       \<lparr>rsp_Status = overallStatus, Timestamp = timestamp, Checks = checks, rsp_Version = version h,
        UptimeSeconds = quot (Sub now2 (startTime h)) 1000000000\<rparr>)
   }"

definition LivenessHandler :: "int \<times> string" where
  "LivenessHandler = (200, ''ok'')"

fun ready_loop :: "(string \<rightharpoonup> 'w Checker) \<Rightarrow> string list \<Rightarrow> ('w, int \<times> string) prog" where
  "ready_loop cs [] = return (200, ''ready'')"
| "ready_loop cs (name # names) =
     (case cs name of
        None \<Rightarrow> ready_loop cs names
      | Some checker \<Rightarrow> do {
          check \<leftarrow> checker;
          if chk_Status check = StatusUnhealthy then return (503, ''not ready'') else ready_loop cs names
        })"

definition ReadinessHandler :: "string list \<Rightarrow> 'w Handler \<Rightarrow> ('w, int \<times> string) prog" where
  "ReadinessHandler order h = ready_loop (checkers h) order"

definition SimpleChecker :: "('w, gotime) prog \<Rightarrow> string \<Rightarrow> ('w, error option) prog \<Rightarrow> 'w Checker" where
  "SimpleChecker now name checkFn = do {
     start \<leftarrow> now;
     err \<leftarrow> checkFn;
     stop \<leftarrow> now;
     return (case err of
        Some err \<Rightarrow> \<lparr>chk_Name = name, chk_Status = StatusUnhealthy, chk_Message = Error err,
            DurationMs = quot (Sub stop start) 1000000\<rparr>
      | None \<Rightarrow> \<lparr>chk_Name = name, chk_Status = StatusHealthy, chk_Message = [], DurationMs = quot (Sub stop start) 1000000\<rparr>)
   }"

section \<open>The overall status\<close>

text \<open>Checkers whose answer does not change.\<close>

definition steady :: "'w Handler \<Rightarrow> (string \<Rightarrow> Check) \<Rightarrow> bool" where
  "steady h res \<longleftrightarrow> (\<forall>name c. checkers h name = Some c \<longrightarrow> (\<forall>w. fst (run_state c w) = res name))"

definition overall :: "Status set \<Rightarrow> Status" where
  "overall S = (if StatusUnhealthy \<in> S then StatusUnhealthy else if StatusDegraded \<in> S then StatusDegraded else StatusHealthy)"

lemma worse_overall: "worse (overall S) st = overall (insert st S)"
  by (cases st) (auto simp: worse_def overall_def)

lemma check_loop_run:
  assumes "steady h res"
  shows "fst (run_state (check_loop (checkers h) names checks (overall S)) w)
    = ((\<lambda>n. if n \<in> set names \<inter> dom (checkers h) then Some (res n) else checks n),
       overall (S \<union> (\<lambda>n. chk_Status (res n)) ` (set names \<inter> dom (checkers h))))"
proof (induction names arbitrary: checks S w)
  case (Cons name names)
  show ?case
  proof (cases "checkers h name")
    case None
    then show ?thesis using Cons [of checks S w] by (auto simp: domIff fun_eq_iff)
  next
    case (Some c)
    obtain w' where c: "run_state c w = (res name, w')"
      using assms Some by (metis steady_def prod.collapse)
    have dom: "set (name # names) \<inter> dom (checkers h) = insert name (set names \<inter> dom (checkers h))" using Some by auto
    have "fst (run_state (check_loop (checkers h) (name # names) checks (overall S)) w)
        = fst (run_state (check_loop (checkers h) names (checks(name \<mapsto> res name)) (overall (insert (chk_Status (res name)) S))) w')"
      using Some c by (simp add: worse_overall)
    also have "\<dots> = ((\<lambda>n. if n \<in> set names \<inter> dom (checkers h) then Some (res n) else (checks(name \<mapsto> res name)) n),
        overall (insert (chk_Status (res name)) S \<union> (\<lambda>n. chk_Status (res n)) ` (set names \<inter> dom (checkers h))))"
      by (rule Cons)
    finally show ?thesis unfolding dom by (auto simp: fun_eq_iff)
  qed
qed simp

lemma ready_loop_run:
  assumes "steady h res"
  shows "fst (run_state (ready_loop (checkers h) names) w)
    = (if StatusUnhealthy \<in> (\<lambda>n. chk_Status (res n)) ` (set names \<inter> dom (checkers h)) then (503, ''not ready'') else (200, ''ready''))"
proof (induction names arbitrary: w)
  case (Cons name names)
  show ?case
  proof (cases "checkers h name")
    case None
    then show ?thesis using Cons [of w] by (simp add: Int_insert_left domIff)
  next
    case (Some c)
    obtain w' where c: "run_state c w = (res name, w')"
      using assms Some by (metis steady_def prod.collapse)
    have dom: "set (name # names) \<inter> dom (checkers h) = insert name (set names \<inter> dom (checkers h))" using Some by auto
    show ?thesis unfolding dom using Some c Cons [of w'] by auto
  qed
qed simp

text \<open>\<open>ServeHTTP\<close> of the health handler, for checkers whose answers do not change: it reports the answer of every
  registered checker and the worst of their statuses, whatever the order in which the map is visited; the HTTP status
  is 503 exactly when a checker is unhealthy, and then \<open>ReadinessHandler\<close> answers 503 as well, else 200.\<close>

theorem health_reports_worst:
  assumes "steady h res" and "range_order (checkers h) order" and "range_order (checkers h) order'"
  shows "case fst (run_state (ServeHTTP now order h) w) of (code, rsp) \<Rightarrow>
      Checks rsp = (\<lambda>n. if n \<in> dom (checkers h) then Some (res n) else None)
      \<and> rsp_Status rsp = overall ((\<lambda>n. chk_Status (res n)) ` dom (checkers h))
      \<and> code = (if \<exists>n \<in> dom (checkers h). chk_Status (res n) = StatusUnhealthy then 503 else 200)
      \<and> fst (run_state (ReadinessHandler order' h) w') = (code, if code = 200 then ''ready'' else ''not ready'')"
proof -
  have order: "set order = dom (checkers h)" "set order' = dom (checkers h)"
    using assms(2,3) by (simp_all add: range_order_def)
  have loop: "fst (run_state (check_loop (checkers h) order Map.empty StatusHealthy) w)
      = ((\<lambda>n. if n \<in> dom (checkers h) then Some (res n) else None), overall ((\<lambda>n. chk_Status (res n)) ` dom (checkers h)))"
    using check_loop_run [OF assms(1), of order Map.empty "{}" w] order by (simp add: overall_def)
  have "(if overall S = StatusUnhealthy then 503 else 200 :: int) = (if StatusUnhealthy \<in> S then 503 else 200)" for S
    by (simp add: overall_def)
  then show ?thesis
    using ready_loop_run [OF assms(1), of order' w'] order loop
    by (auto simp: ServeHTTP_def ReadinessHandler_def split_beta image_iff eq_commute [of StatusUnhealthy] split del: if_split) simp
qed

definition example_handler :: "unit Handler" where
  "example_handler = RegisterChecker ''storage'' (SimpleChecker (return 5) ''postgres'' (return (Some (Opaque ''down''))))
     (NewHandler ''v1'' 3)"

theorem health_reports_worst_witness:
  "fst (fst (run_state (ServeHTTP (return 9) [''storage''] example_handler) ())) = 503"
proof -
  have "steady example_handler (\<lambda>_. \<lparr>chk_Name = ''postgres'', chk_Status = StatusUnhealthy,
      chk_Message = Error (Opaque ''down''), DurationMs = 0\<rparr>)"
    by (auto simp: steady_def example_handler_def RegisterChecker_def NewHandler_def SimpleChecker_def Sub_def quot_def split: if_splits)
  moreover have "range_order (checkers example_handler) [''storage'']"
    by (simp add: range_order_def example_handler_def RegisterChecker_def NewHandler_def)
  moreover have "dom (checkers example_handler) = {''storage''}"
    by (simp add: example_handler_def RegisterChecker_def NewHandler_def)
  ultimately show ?thesis
    using health_reports_worst [of example_handler _ "[''storage'']" "[''storage'']" _ "return 9"] by (auto simp: split_beta)
qed

end
