(* ===== verification/App.thy ===== *)
theory App
  imports Health Migrator Kafka Outbox_Worker Cleanup_Worker Dlq_Replay Float64
begin

text \<open>
  Configuration and start of the service: \<open>cmd/order-service/main.go\<close>, \<open>internal/app/app.go\<close> and
  \<open>internal/app/kafka_init.go\<close>.

  \<^item> \<open>lookup\<close> is the environment. \<open>time.ParseDuration\<close> follows the algorithm of the standard library, with the
    fraction of a number multiplied in \<open>float64\<close> (theory \<open>Float64\<close>); the texts of its errors, which only reach the log,
    are shortened. Log levels and the log are left out.
  \<^item> \<open>Run\<close> is modelled up to the point where the gRPC server serves: the checks of the configuration, the choice and
    opening of the storage, the connection to Kafka with its retries, the workers that are started and the health
    checks that are registered. Opening the producer and the listener are parameters. The servers, and stopping them, are
    those of gRPC and \<open>net/http\<close>.
\<close>

section \<open>Durations\<close>

definition is_digit :: "char \<Rightarrow> bool" where
  "is_digit c \<longleftrightarrow> CHR ''0'' \<le> c \<and> c \<le> CHR ''9''"

fun leadingInt :: "string \<Rightarrow> int \<Rightarrow> (int \<times> string) option" where
  "leadingInt [] x = Some (x, [])"
| "leadingInt (c # cs) x =
     (if \<not> is_digit c then Some (x, c # cs)
      else if x > 2 ^ 63 div 10 then None
      else let y = 10 * x + (of_char c - 48) in if y > 2 ^ 63 then None else leadingInt cs y)"

fun leadingFraction :: "string \<Rightarrow> int \<Rightarrow> int \<Rightarrow> bool \<Rightarrow> int \<times> int \<times> string" where
  "leadingFraction [] x scale overflow = (x, scale, [])"
| "leadingFraction (c # cs) x scale overflow =
     (if \<not> is_digit c then (x, scale, c # cs)
      else if overflow \<or> x > max_int64 div 10 then leadingFraction cs x scale True
      else let y = 10 * x + (of_char c - 48) in
        if y > 2 ^ 63 then leadingFraction cs x scale True else leadingFraction cs y (10 * scale) False)"

definition unitMap :: "string \<rightharpoonup> int" where
  "unitMap = [''ns'' \<mapsto> 1, ''us'' \<mapsto> 1000, [CHR 0xC2, CHR 0xB5, CHR ''s''] \<mapsto> 1000, [CHR 0xCE, CHR 0xBC, CHR ''s''] \<mapsto> 1000,
     ''ms'' \<mapsto> 1000000, ''s'' \<mapsto> 1000000000, ''m'' \<mapsto> 60000000000, ''h'' \<mapsto> 3600000000000]"

definition unit_char :: "char \<Rightarrow> bool" where
  "unit_char c \<longleftrightarrow> c \<noteq> CHR ''.'' \<and> \<not> is_digit c"

text \<open>One number with its unit: its value and the rest of the text.\<close>

definition duration_item :: "string \<Rightarrow> error + int \<times> string" where
  "duration_item s =
     (if s = [] \<or> \<not> (hd s = CHR ''.'' \<or> is_digit (hd s)) then Inl (Opaque ''time: invalid duration'')
      else case leadingInt s 0 of
        None \<Rightarrow> Inl (Opaque ''time: invalid duration'')
      | Some (v, s1) \<Rightarrow>
          let pre = (length s1 \<noteq> length s);
              (f, scale, s2, post) =
                (case s1 of
                   c # cs \<Rightarrow>
                     if c = CHR ''.'' then let (f, scale, s2) = leadingFraction cs 0 1 False in (f, scale, s2, length s2 \<noteq> length cs)
                     else (0, 1, s1, False)
                 | [] \<Rightarrow> (0, 1, s1, False))
          in if \<not> pre \<and> \<not> post then Inl (Opaque ''time: invalid duration'')
             else let u = takeWhile unit_char s2; rest = dropWhile unit_char s2 in
               if u = [] then Inl (Opaque ''time: missing unit in duration'')
               else case unitMap u of
                 None \<Rightarrow> Inl (Opaque ''time: unknown unit in duration'')
               | Some unit \<Rightarrow>
                   if v > 2 ^ 63 div unit then Inl (Opaque ''time: invalid duration'')
                   else let v2 = v * unit + (if f > 0 then \<lfloor>rnd64 (rnd64 (of_int f) * rnd64 (of_int unit / of_int scale))\<rfloor> else 0) in
                     if v2 > 2 ^ 63 then Inl (Opaque ''time: invalid duration'') else Inr (v2, rest))"

lemma leadingInt_length: "leadingInt s x = Some (v, s') \<Longrightarrow> length s' \<le> length s"
  by (induction s x rule: leadingInt.induct) (auto simp: Let_def split: if_splits)

lemma leadingFraction_length: "leadingFraction s x sc b = (f, sc', s') \<Longrightarrow> length s' \<le> length s"
  by (induction s x sc b rule: leadingFraction.induct) (auto simp: Let_def split: if_splits)

lemma length_unit: "takeWhile P s \<noteq> [] \<Longrightarrow> length (dropWhile P s) < length s"
  by (cases s) (auto simp: length_dropWhile_le le_imp_less_Suc split: if_splits)

lemma duration_item_length: "duration_item s = Inr (v, rest) \<Longrightarrow> length rest < length s"
proof -
  assume item: "duration_item s = Inr (v, rest)"
  then obtain v1 s1 where 1: "leadingInt s 0 = Some (v1, s1)"
    by (auto simp: duration_item_def split: if_splits option.splits)
  define t where "t = (case s1 of c # cs \<Rightarrow> if c = CHR ''.'' then let (f, scale, s2) = leadingFraction cs 0 1 False in
      (f, scale, s2, length s2 \<noteq> length cs) else (0, 1, s1, False) | [] \<Rightarrow> (0, 1, s1, False))"
  obtain f sc s2 post where t: "t = (f, sc, s2, post)" by (cases t)
  have "length s2 \<le> length s1"
    using t leadingFraction_length by (fastforce simp: t_def split: list.splits if_splits prod.splits)
  moreover have "takeWhile unit_char s2 \<noteq> []" "rest = dropWhile unit_char s2"
    using item unfolding duration_item_def 1 option.case prod.case Let_def t_def [symmetric, unfolded Let_def] t
    by (auto split: if_splits option.splits)
  ultimately show ?thesis using leadingInt_length [OF 1] length_unit [of unit_char s2] by simp
qed

function duration_loop :: "string \<Rightarrow> int \<Rightarrow> error + int" where
  "duration_loop s d =
     (if s = [] then Inr d
      else case duration_item s of
        Inl err \<Rightarrow> Inl err
      | Inr (v, rest) \<Rightarrow>
          if d + v > 2 ^ 63 then Inl (Opaque ''time: invalid duration'') else duration_loop rest (d + v))"
  by pat_completeness auto
termination by (relation "measure (\<lambda>(s, d). length s)") (auto dest: duration_item_length)

declare duration_loop.simps [simp del]

definition ParseDuration :: "string \<Rightarrow> error + duration" where
  "ParseDuration s0 =
     (let (neg, s) = (case s0 of
          c # cs \<Rightarrow> if c = CHR ''-'' then (True, cs) else if c = CHR ''+'' then (False, cs) else (False, s0)
        | [] \<Rightarrow> (False, s0)) in
      if s = ''0'' then Inr 0
      else if s = [] then Inl (Opaque ''time: invalid duration'')
      else case duration_loop s 0 of
        Inl err \<Rightarrow> Inl err
      | Inr d \<Rightarrow> if neg then Inr (- d) else if d > max_int64 then Inl (Opaque ''time: invalid duration'') else Inr d)"

section \<open>Configuration\<close>

record Config =
  GRPCAddr :: string
  MetricsAddr :: string
  StorageDriver :: string
  PostgresDSN :: string
  PostgresAutoMigrate :: bool
  AllowMockIntegrations :: bool
  OutboxPollInterval :: duration
  OutboxBatchSize :: int
  OutboxMaxAttempts :: int
  OutboxRetryDelay :: duration
  OutboxMaxPending :: int
  IdempotencyCleanupInterval :: duration
  IdempotencyCleanupBatchSize :: int

definition StorageDriverMemory :: string where "StorageDriverMemory = ''memory''"
definition StorageDriverPostgres :: string where "StorageDriverPostgres = ''postgres''"

definition DefaultConfig :: Config where
  "DefaultConfig = \<lparr>GRPCAddr = '':50051'', MetricsAddr = '':9090'', StorageDriver = StorageDriverMemory, PostgresDSN = [],
     PostgresAutoMigrate = True, AllowMockIntegrations = False, OutboxPollInterval = 1000 * millisecond, OutboxBatchSize = 100,
     OutboxMaxAttempts = 3, OutboxRetryDelay = 50 * millisecond, OutboxMaxPending = 10000,
     IdempotencyCleanupInterval = 600000 * millisecond, IdempotencyCleanupBatchSize = 500\<rparr>"

record configWarning =
  cw_env :: string
  cw_value :: string
  cw_err :: error

definition lookupEnvTrimmed :: "(string \<Rightarrow> string option) \<Rightarrow> string \<Rightarrow> string option" where
  "lookupEnvTrimmed lookup key =
     (case lookup key of
        None \<Rightarrow> None
      | Some v \<Rightarrow> let trimmed = TrimSpace v in if trimmed = [] then None else Some trimmed)"

definition parseBool :: "string \<Rightarrow> error + bool" where
  "parseBool v =
     (let s = ToLower (TrimSpace v) in
      if s \<in> {''1'', ''true'', ''yes'', ''on''} then Inr True
      else if s \<in> {''0'', ''false'', ''no'', ''off''} then Inr False
      else Inl (Opaque ''invalid boolean value''))"

definition parseInt :: "(int \<Rightarrow> bool) \<Rightarrow> string \<Rightarrow> string \<Rightarrow> error + int" where
  "parseInt validate constraints v =
     (case Atoi (TrimSpace v) of
        None \<Rightarrow> Inl (Opaque ''strconv.Atoi: invalid syntax'')
      | Some n \<Rightarrow> if validate n then Inr n else Inl (Opaque (''invalid integer value: '' @ constraints)))"

definition parseDuration :: "(duration \<Rightarrow> bool) \<Rightarrow> string \<Rightarrow> string \<Rightarrow> error + duration" where
  "parseDuration validate constraints v =
     (case ParseDuration (TrimSpace v) of
        Inl err \<Rightarrow> Inl err
      | Inr d \<Rightarrow> if validate d then Inr d else Inl (Opaque (''invalid duration value: '' @ constraints)))"

text \<open>The step that is repeated for every variable that is parsed.\<close>

definition read_env ::
  "(string \<Rightarrow> string option) \<Rightarrow> string \<Rightarrow> (string \<Rightarrow> error + 'v) \<Rightarrow> ('v \<Rightarrow> Config \<Rightarrow> Config)
     \<Rightarrow> Config \<times> configWarning list \<Rightarrow> Config \<times> configWarning list" where
  "read_env lookup key parse put = (\<lambda>(cfg, warnings).
     case lookupEnvTrimmed lookup key of
       None \<Rightarrow> (cfg, warnings)
     | Some raw \<Rightarrow>
         (case parse raw of
            Inl err \<Rightarrow> (cfg, warnings @ [\<lparr>cw_env = key, cw_value = raw, cw_err = err\<rparr>])
          | Inr v \<Rightarrow> (put v cfg, warnings)))"

definition readConfigFromEnv :: "(string \<Rightarrow> string option) \<Rightarrow> Config \<times> configWarning list" where
  "readConfigFromEnv lookup = fold (\<lambda>step. step)
     [read_env lookup ''OMS_GRPC_ADDR'' Inr (\<lambda>v cfg. cfg\<lparr>GRPCAddr := v\<rparr>),
      read_env lookup ''OMS_METRICS_ADDR'' Inr (\<lambda>v cfg. cfg\<lparr>MetricsAddr := v\<rparr>),
      read_env lookup ''OMS_STORAGE_DRIVER'' Inr (\<lambda>v cfg. cfg\<lparr>StorageDriver := ToLower v\<rparr>),
      read_env lookup ''OMS_POSTGRES_DSN'' Inr (\<lambda>v cfg. cfg\<lparr>PostgresDSN := v\<rparr>),
      read_env lookup ''OMS_POSTGRES_AUTO_MIGRATE'' parseBool (\<lambda>v cfg. cfg\<lparr>PostgresAutoMigrate := v\<rparr>),
      read_env lookup ''OMS_ALLOW_MOCK_INTEGRATIONS'' parseBool (\<lambda>v cfg. cfg\<lparr>AllowMockIntegrations := v\<rparr>),
      read_env lookup ''OMS_OUTBOX_POLL_INTERVAL'' (parseDuration (\<lambda>d. d > 0) ''must be > 0'') (\<lambda>v cfg. cfg\<lparr>OutboxPollInterval := v\<rparr>),
      read_env lookup ''OMS_OUTBOX_BATCH_SIZE'' (parseInt (\<lambda>n. n > 0) ''must be > 0'') (\<lambda>v cfg. cfg\<lparr>OutboxBatchSize := v\<rparr>),
      read_env lookup ''OMS_OUTBOX_MAX_ATTEMPTS'' (parseInt (\<lambda>n. n > 0) ''must be > 0'') (\<lambda>v cfg. cfg\<lparr>OutboxMaxAttempts := v\<rparr>),
      read_env lookup ''OMS_OUTBOX_RETRY_DELAY'' (parseDuration (\<lambda>d. d \<ge> 0) ''must be >= 0'') (\<lambda>v cfg. cfg\<lparr>OutboxRetryDelay := v\<rparr>),
      read_env lookup ''OMS_OUTBOX_MAX_PENDING'' (parseInt (\<lambda>n. n \<ge> 0) ''must be >= 0'') (\<lambda>v cfg. cfg\<lparr>OutboxMaxPending := v\<rparr>),
      read_env lookup ''OMS_IDEMPOTENCY_CLEANUP_INTERVAL'' (parseDuration (\<lambda>d. d \<ge> 0) ''must be >= 0'')
        (\<lambda>v cfg. cfg\<lparr>IdempotencyCleanupInterval := v\<rparr>),
      read_env lookup ''OMS_IDEMPOTENCY_CLEANUP_BATCH_SIZE'' (parseInt (\<lambda>n. n > 0) ''must be > 0'')
        (\<lambda>v cfg. cfg\<lparr>IdempotencyCleanupBatchSize := v\<rparr>)]
     (DefaultConfig, [])"

section \<open>Starting\<close>

definition normalizedStorageDriver :: "string \<Rightarrow> string" where
  "normalizedStorageDriver v = (let driver = ToLower (TrimSpace v) in if driver = [] then StorageDriverMemory else driver)"

definition validateMockIntegrationsPolicy :: "Config \<Rightarrow> error option" where
  "validateMockIntegrationsPolicy cfg =
     (if normalizedStorageDriver (StorageDriver cfg) = StorageDriverPostgres \<and> \<not> AllowMockIntegrations cfg
      then Some (Opaque (''OMS_ALLOW_MOCK_INTEGRATIONS=true is required for '' @ StorageDriverPostgres
        @ '' storage driver: real inventory/payment integrations are not configured''))
      else None)"

definition parseKafkaBrokers :: "string \<Rightarrow> string list" where
  "parseKafkaBrokers raw =
     (if TrimSpace raw = [] then [] else filter (\<lambda>broker. broker \<noteq> []) (map TrimSpace (split_comma raw)))"

definition initKafkaProducer :: "(string list \<Rightarrow> error option) \<Rightarrow> string \<Rightarrow> bool \<times> error option" where
  "initKafkaProducer new_producer raw =
     (if raw = [] then (False, None)
      else case new_producer (split_comma raw) of
        Some err \<Rightarrow> (False, Some err)
      | None \<Rightarrow> (True, None))"

text \<open>\<open>retryWithDeadline\<close>: a context, a clock and a timer; the wait returns the error of the context when that ends
  first. The loop has no bound of its own, so it may not return.\<close>

record 'w retry_env =
  rt_now :: "('w, gotime) prog"
  rt_ctx_err :: "('w, error option) prog"
  rt_wait :: "duration \<Rightarrow> ('w, error option) prog"

partial_function (option) retry_loop ::
  "'w retry_env \<Rightarrow> string \<Rightarrow> gotime \<Rightarrow> duration \<Rightarrow> ('w, error option) prog \<Rightarrow> int \<Rightarrow> error option \<Rightarrow> 'w
     \<Rightarrow> (error option \<times> 'w) option" where
  "retry_loop env operation deadline retryDelay fn attempt lastErr w =
     (case run_state (rt_ctx_err env) w of
        (Some err, w1) \<Rightarrow>
          Some (Some (case lastErr of None \<Rightarrow> err | Some _ \<Rightarrow> Wrapped (operation @ '' aborted'') err), w1)
      | (None, w1) \<Rightarrow>
          (case run_state fn w1 of
             (None, w2) \<Rightarrow> Some (None, w2)
           | (Some err, w2) \<Rightarrow>
               (case run_state (rt_now env) w2 of
                  (now, w3) \<Rightarrow>
                    if now > deadline
                    then Some (Some (Wrapped (operation @ '' failed after '' @ int_string (attempt + 1) @ '' attempts'') err), w3)
                    else
                      (case run_state (rt_wait env retryDelay) w3 of
                         (Some cerr, w4) \<Rightarrow> Some (Some (Wrapped (operation @ '' aborted'') cerr), w4)
                       | (None, w4) \<Rightarrow> retry_loop env operation deadline retryDelay fn (attempt + 1) (Some err) w4))))"

definition kafkaInitTimeout :: duration where "kafkaInitTimeout = 30000 * millisecond"
definition kafkaInitRetryDelay :: duration where "kafkaInitRetryDelay = 1000 * millisecond"

definition retryWithDeadline ::
  "'w retry_env \<Rightarrow> string \<Rightarrow> duration \<Rightarrow> duration \<Rightarrow> ('w, error option) prog \<Rightarrow> 'w \<Rightarrow> (error option \<times> 'w) option" where
  "retryWithDeadline env operation timeout retryDelay fn w =
     (let timeout = (if timeout \<le> 0 then kafkaInitTimeout else timeout);
          retryDelay = (if retryDelay \<le> 0 then kafkaInitRetryDelay else retryDelay);
          (now, w1) = run_state (rt_now env) w
      in retry_loop env operation (now + timeout) retryDelay fn 0 None w1)"

definition initKafkaProducerWithRetry ::
  "'w retry_env \<Rightarrow> (string list \<Rightarrow> ('w, error option) prog) \<Rightarrow> string list \<Rightarrow> duration \<Rightarrow> duration \<Rightarrow> 'w
     \<Rightarrow> (error option \<times> 'w) option" where
  "initKafkaProducerWithRetry env new_producer bs initTimeout retryDelay w =
     map_option (map_prod (map_option (Wrapped ''initialize kafka producer'')) id)
       (retryWithDeadline env ''kafka producer initialization'' initTimeout retryDelay (new_producer bs) w)"

text \<open>\<open>initRuntimeDependencies\<close>: which storage the repositories use, with its health check and what closes it.\<close>

datatype storage_kind = memory_storage | postgres_storage

record runtimeDependencies =
  rd_storage :: storage_kind
  has_storageChecker :: bool
  has_closeFn :: bool

definition initRuntimeDependencies ::
  "'s pg_env \<Rightarrow> (string \<Rightarrow> error option) \<Rightarrow> (string \<Rightarrow> 'x \<Rightarrow> sqlerr + 'x) \<Rightarrow> (error + (string \<times> (error + bytes)) list)
     \<Rightarrow> Config \<Rightarrow> ('x, 's, error + runtimeDependencies) mig_prog" where
  "initRuntimeDependencies env sql_open run_sql migrationsFS cfg =
     (let driver = normalizedStorageDriver (StorageDriver cfg) in
      if driver = StorageDriverMemory
      then return (Inr \<lparr>rd_storage = memory_storage, has_storageChecker = False, has_closeFn = False\<rparr>)
      else if driver = StorageDriverPostgres
      then if TrimSpace (PostgresDSN cfg) = [] then return (Inl (Opaque ''OMS_POSTGRES_DSN is required for postgres storage driver''))
           else do {
             err \<leftarrow> store_Open env sql_open (PostgresDSN cfg);
             (case err of
                Some err \<Rightarrow> return (Inl (Wrapped ''init postgres store'' err))
              | None \<Rightarrow> do {
                  err \<leftarrow> (if PostgresAutoMigrate cfg then EnsureSchema env run_sql migrationsFS True else return None);
                  return (case err of
                     Some err \<Rightarrow> Inl (Wrapped ''apply postgres schema'' err)
                   | None \<Rightarrow> Inr \<lparr>rd_storage = postgres_storage, has_storageChecker = True, has_closeFn = True\<rparr>)
                })
           }
      else return (Inl (Opaque (''unsupported storage driver: '' @ driver))))"

text \<open>The check function of the outbox checker.\<close>

definition outbox_check :: "Config \<Rightarrow> ('w, error + OutboxStats) prog \<Rightarrow> ('w, error option) prog" where
  "outbox_check cfg get_stats = do {
     res \<leftarrow> get_stats;
     return (case res of
        Inl err \<Rightarrow> Some err
      | Inr stats \<Rightarrow>
          if OutboxMaxPending cfg > 0 \<and> PendingCount stats > OutboxMaxPending cfg
          then Some (Opaque (''outbox backlog '' @ int_string (PendingCount stats) @ '' exceeds threshold ''
            @ int_string (OutboxMaxPending cfg)))
          else None)
   }"

text \<open>\<open>Run\<close> until the server serves.\<close>

record running =
  run_deps :: runtimeDependencies
  run_cleanup :: "CleanupWorker option"
  run_outbox :: "OutboxWorker option"
  run_kafka :: bool
  run_checkers :: "string list"

definition start_cleanup :: "Config \<Rightarrow> CleanupWorker option" where
  "start_cleanup cfg =
     (if IdempotencyCleanupInterval cfg > 0
      then Some (NewCleanupWorker True [WithInterval (IdempotencyCleanupInterval cfg), WithBatchSize (IdempotencyCleanupBatchSize cfg)])
      else None)"

definition start_outbox :: "Config \<Rightarrow> OutboxWorker" where
  "start_outbox cfg = NewWorker True True
     [WithDLQPublisher True, WithPollInterval (OutboxPollInterval cfg), WithWorkerBatchSize (OutboxBatchSize cfg),
      WithMaxAttempts (OutboxMaxAttempts cfg), WithRetryBaseDelay (OutboxRetryDelay cfg)]"

definition Run_setup ::
  "'s pg_env \<Rightarrow> (string \<Rightarrow> error option) \<Rightarrow> (string \<Rightarrow> 'x \<Rightarrow> sqlerr + 'x) \<Rightarrow> (error + (string \<times> (error + bytes)) list)
     \<Rightarrow> ('x mig_tables, 's) pg_world retry_env \<Rightarrow> (string list \<Rightarrow> ('x, 's, error option) mig_prog) \<Rightarrow> ('x, 's, error option) mig_prog
     \<Rightarrow> string \<Rightarrow> Config \<Rightarrow> ('x mig_tables, 's) pg_world \<Rightarrow> ((error + running) \<times> ('x mig_tables, 's) pg_world) option" where
  "Run_setup env sql_open run_sql migrationsFS renv new_producer listen rawKafkaBrokers cfg w =
     (case validateMockIntegrationsPolicy cfg of
        Some err \<Rightarrow> Some (Inl err, w)
      | None \<Rightarrow>
          (case run_state (initRuntimeDependencies env sql_open run_sql migrationsFS cfg) w of
             (Inl err, w1) \<Rightarrow> Some (Inl err, w1)
           | (Inr deps, w1) \<Rightarrow>
               let bs = parseKafkaBrokers rawKafkaBrokers in
               if TrimSpace rawKafkaBrokers \<noteq> [] \<and> bs = []
               then Some (Inl (Opaque ''KAFKA_BROKERS is set but no valid broker addresses were parsed''), w1)
               else
                 (case (if bs = [] then Some (None, w1)
                        else initKafkaProducerWithRetry renv new_producer bs kafkaInitTimeout kafkaInitRetryDelay w1) of
                    None \<Rightarrow> None
                  | Some (Some err, w2) \<Rightarrow> Some (Inl err, w2)
                  | Some (None, w2) \<Rightarrow>
                      (case run_state listen w2 of
                         (Some err, w3) \<Rightarrow> Some (Inl err, w3)
                       | (None, w3) \<Rightarrow>
                           Some (Inr \<lparr>run_deps = deps, run_cleanup = start_cleanup cfg,
                             run_outbox = (if bs = [] then None else Some (start_outbox cfg)), run_kafka = (bs \<noteq> []),
                             run_checkers = (if has_storageChecker deps then [''storage''] else []) @ (if bs = [] then [] else [''outbox''])\<rparr>, w3)))))"

section \<open>What the configuration guarantees\<close>

definition valid_config :: "Config \<Rightarrow> bool" where
  "valid_config cfg \<longleftrightarrow> 0 < OutboxPollInterval cfg \<and> 0 < OutboxBatchSize cfg \<and> 0 < OutboxMaxAttempts cfg \<and> 0 \<le> OutboxRetryDelay cfg
     \<and> 0 \<le> OutboxMaxPending cfg \<and> 0 \<le> IdempotencyCleanupInterval cfg \<and> 0 < IdempotencyCleanupBatchSize cfg"

text \<open>A step keeps a property of the configuration when the values that are put have it, and warns of its own variable
  only, exactly when that cannot be parsed.\<close>

definition unreadable :: "(string \<Rightarrow> string option) \<Rightarrow> string \<Rightarrow> (string \<Rightarrow> error + 'v) \<Rightarrow> bool" where
  "unreadable lookup key parse \<longleftrightarrow> (\<exists>raw. lookupEnvTrimmed lookup key = Some raw \<and> (\<exists>err. parse raw = Inl err))"

lemma read_env_valid:
  assumes "valid_config (fst s)" and "\<And>raw v cfg. valid_config cfg \<Longrightarrow> parse raw = Inr v \<Longrightarrow> valid_config (put v cfg)"
  shows "valid_config (fst (read_env lookup key parse put s))"
  using assms by (cases s) (auto simp: read_env_def split: option.split sum.split)

lemma read_env_warns:
  "map cw_env (snd (read_env lookup key parse put s)) = map cw_env (snd s) @ (if unreadable lookup key parse then [key] else [])"
  by (cases s) (auto simp: read_env_def unreadable_def split: option.split sum.split)

lemma parse_validates:
  "parseInt validate constraints raw = Inr n \<Longrightarrow> validate n"
  "parseDuration validate constraints raw = Inr d \<Longrightarrow> validate d"
  by (auto simp: parseInt_def parseDuration_def split: option.splits sum.splits if_splits)

lemma readConfig_valid: "valid_config (fst (readConfigFromEnv lookup))"
  unfolding readConfigFromEnv_def fold_simps comp_def id_def
  by (intro read_env_valid) (auto simp: valid_config_def DefaultConfig_def dest: parse_validates)

text \<open>The variables that are parsed, with what does not parse.\<close>

definition rejects :: "(string \<Rightarrow> error + 'v) \<Rightarrow> string \<Rightarrow> bool" where
  "rejects parse raw = (case parse raw of Inl _ \<Rightarrow> True | Inr _ \<Rightarrow> False)"

definition parsed_variables :: "(string \<times> (string \<Rightarrow> bool)) list" where
  "parsed_variables =
     [(''OMS_POSTGRES_AUTO_MIGRATE'', rejects parseBool), (''OMS_ALLOW_MOCK_INTEGRATIONS'', rejects parseBool),
      (''OMS_OUTBOX_POLL_INTERVAL'', rejects (parseDuration (\<lambda>d. d > 0) [])),
      (''OMS_OUTBOX_BATCH_SIZE'', rejects (parseInt (\<lambda>n. n > 0) [])), (''OMS_OUTBOX_MAX_ATTEMPTS'', rejects (parseInt (\<lambda>n. n > 0) [])),
      (''OMS_OUTBOX_RETRY_DELAY'', rejects (parseDuration (\<lambda>d. d \<ge> 0) [])), (''OMS_OUTBOX_MAX_PENDING'', rejects (parseInt (\<lambda>n. n \<ge> 0) [])),
      (''OMS_IDEMPOTENCY_CLEANUP_INTERVAL'', rejects (parseDuration (\<lambda>d. d \<ge> 0) [])),
      (''OMS_IDEMPOTENCY_CLEANUP_BATCH_SIZE'', rejects (parseInt (\<lambda>n. n > 0) []))]"

definition rejected :: "(string \<Rightarrow> string option) \<Rightarrow> string \<times> (string \<Rightarrow> bool) \<Rightarrow> bool" where
  "rejected lookup = (\<lambda>(key, bad). case lookupEnvTrimmed lookup key of None \<Rightarrow> False | Some raw \<Rightarrow> bad raw)"

lemma unreadable_rejected:
  "unreadable lookup key Inr = False"
  "unreadable lookup key parseBool = rejected lookup (key, rejects parseBool)"
  "unreadable lookup key (parseInt P c) = rejected lookup (key, rejects (parseInt P []))"
  "unreadable lookup key (parseDuration P c) = rejected lookup (key, rejects (parseDuration P []))"
  by (auto simp: unreadable_def rejected_def rejects_def parseInt_def parseDuration_def
      split: option.splits sum.splits)

lemma readConfig_warns: "map cw_env (snd (readConfigFromEnv lookup)) = map fst (filter (rejected lookup) parsed_variables)"
  unfolding readConfigFromEnv_def fold_simps comp_def id_def read_env_warns unreadable_rejected
  by (simp add: parsed_variables_def)

text \<open>What the environment asks for: the value of a variable, trimmed, when it is set, not blank and readable, and the
  default otherwise.\<close>

definition setting :: "(string \<Rightarrow> string option) \<Rightarrow> string \<Rightarrow> (string \<Rightarrow> 'v option) \<Rightarrow> 'v \<Rightarrow> 'v" where
  "setting lookup key reads dflt =
     (case lookup key of
        None \<Rightarrow> dflt
      | Some raw \<Rightarrow> if TrimSpace raw = [] then dflt else case reads (TrimSpace raw) of None \<Rightarrow> dflt | Some v \<Rightarrow> v)"

definition bool_word :: "string \<Rightarrow> bool option" where
  "bool_word s = (if ToLower s \<in> {''1'', ''true'', ''yes'', ''on''} then Some True
     else if ToLower s \<in> {''0'', ''false'', ''no'', ''off''} then Some False else None)"

definition int_word :: "(int \<Rightarrow> bool) \<Rightarrow> string \<Rightarrow> int option" where
  "int_word valid s = (case Atoi s of Some n \<Rightarrow> if valid n then Some n else None | None \<Rightarrow> None)"

definition duration_word :: "(duration \<Rightarrow> bool) \<Rightarrow> string \<Rightarrow> duration option" where
  "duration_word valid s = (case ParseDuration s of Inr d \<Rightarrow> if valid d then Some d else None | Inl _ \<Rightarrow> None)"

definition configured :: "(string \<Rightarrow> string option) \<Rightarrow> Config" where
  "configured lookup =
     \<lparr>GRPCAddr = setting lookup ''OMS_GRPC_ADDR'' Some '':50051'',
      MetricsAddr = setting lookup ''OMS_METRICS_ADDR'' Some '':9090'',
      StorageDriver = setting lookup ''OMS_STORAGE_DRIVER'' (\<lambda>s. Some (ToLower s)) ''memory'',
      PostgresDSN = setting lookup ''OMS_POSTGRES_DSN'' Some [],
      PostgresAutoMigrate = setting lookup ''OMS_POSTGRES_AUTO_MIGRATE'' bool_word True,
      AllowMockIntegrations = setting lookup ''OMS_ALLOW_MOCK_INTEGRATIONS'' bool_word False,
      OutboxPollInterval = setting lookup ''OMS_OUTBOX_POLL_INTERVAL'' (duration_word (\<lambda>d. 0 < d)) (1000 * millisecond),
      OutboxBatchSize = setting lookup ''OMS_OUTBOX_BATCH_SIZE'' (int_word (\<lambda>n. 0 < n)) 100,
      OutboxMaxAttempts = setting lookup ''OMS_OUTBOX_MAX_ATTEMPTS'' (int_word (\<lambda>n. 0 < n)) 3,
      OutboxRetryDelay = setting lookup ''OMS_OUTBOX_RETRY_DELAY'' (duration_word (\<lambda>d. 0 \<le> d)) (50 * millisecond),
      OutboxMaxPending = setting lookup ''OMS_OUTBOX_MAX_PENDING'' (int_word (\<lambda>n. 0 \<le> n)) 10000,
      IdempotencyCleanupInterval = setting lookup ''OMS_IDEMPOTENCY_CLEANUP_INTERVAL'' (duration_word (\<lambda>d. 0 \<le> d)) (600000 * millisecond),
      IdempotencyCleanupBatchSize = setting lookup ''OMS_IDEMPOTENCY_CLEANUP_BATCH_SIZE'' (int_word (\<lambda>n. 0 < n)) 500\<rparr>"

definition parsed_value :: "(string \<Rightarrow> string option) \<Rightarrow> string \<Rightarrow> (string \<Rightarrow> error + 'v) \<Rightarrow> 'v option" where
  "parsed_value lookup key parse =
     (case lookupEnvTrimmed lookup key of None \<Rightarrow> None | Some raw \<Rightarrow> (case parse raw of Inl _ \<Rightarrow> None | Inr v \<Rightarrow> Some v))"

lemma setting_parsed:
  "(case parsed_value lookup key Inr of None \<Rightarrow> dflt | Some v \<Rightarrow> v) = setting lookup key Some dflt"
  "(case parsed_value lookup key Inr of None \<Rightarrow> dflt | Some v \<Rightarrow> ToLower v) = setting lookup key (\<lambda>s. Some (ToLower s)) dflt"
  "(case parsed_value lookup key parseBool of None \<Rightarrow> b | Some v \<Rightarrow> v) = setting lookup key bool_word b"
  "(case parsed_value lookup key (parseInt valid c) of None \<Rightarrow> n | Some v \<Rightarrow> v) = setting lookup key (int_word valid) n"
  "(case parsed_value lookup key (parseDuration valid c) of None \<Rightarrow> d | Some v \<Rightarrow> v) = setting lookup key (duration_word valid) d"
  by (auto simp: parsed_value_def setting_def lookupEnvTrimmed_def Let_def parseBool_def bool_word_def parseInt_def int_word_def
      parseDuration_def duration_word_def split: option.split sum.split)

lemma read_env_text:
  "fst (read_env lookup key Inr (\<lambda>v cfg. cfg\<lparr>StorageDriver := ToLower v\<rparr>) s)
     = (fst s)\<lparr>StorageDriver := setting lookup key (\<lambda>t. Some (ToLower t)) (StorageDriver (fst s))\<rparr>"
  "fst (read_env lookup key Inr (\<lambda>v cfg. cfg\<lparr>GRPCAddr := v\<rparr>) s) = (fst s)\<lparr>GRPCAddr := setting lookup key Some (GRPCAddr (fst s))\<rparr>"
  "fst (read_env lookup key Inr (\<lambda>v cfg. cfg\<lparr>MetricsAddr := v\<rparr>) s) = (fst s)\<lparr>MetricsAddr := setting lookup key Some (MetricsAddr (fst s))\<rparr>"
  "fst (read_env lookup key Inr (\<lambda>v cfg. cfg\<lparr>PostgresDSN := v\<rparr>) s) = (fst s)\<lparr>PostgresDSN := setting lookup key Some (PostgresDSN (fst s))\<rparr>"
  unfolding setting_parsed [symmetric]
  by (cases s; auto simp: read_env_def parsed_value_def split: option.split sum.split)+

lemma read_env_bool:
  "fst (read_env lookup key parseBool (\<lambda>v cfg. cfg\<lparr>PostgresAutoMigrate := v\<rparr>) s) = (fst s)\<lparr>PostgresAutoMigrate := setting lookup key bool_word (PostgresAutoMigrate (fst s))\<rparr>"
  "fst (read_env lookup key parseBool (\<lambda>v cfg. cfg\<lparr>AllowMockIntegrations := v\<rparr>) s) = (fst s)\<lparr>AllowMockIntegrations := setting lookup key bool_word (AllowMockIntegrations (fst s))\<rparr>"
  unfolding setting_parsed(3) [symmetric]
  by (cases s; auto simp: read_env_def parsed_value_def split: option.split sum.split)+

lemma read_env_int:
  "fst (read_env lookup key (parseInt valid c) (\<lambda>v cfg. cfg\<lparr>OutboxBatchSize := v\<rparr>) s) = (fst s)\<lparr>OutboxBatchSize := setting lookup key (int_word valid) (OutboxBatchSize (fst s))\<rparr>"
  "fst (read_env lookup key (parseInt valid c) (\<lambda>v cfg. cfg\<lparr>OutboxMaxAttempts := v\<rparr>) s) = (fst s)\<lparr>OutboxMaxAttempts := setting lookup key (int_word valid) (OutboxMaxAttempts (fst s))\<rparr>"
  "fst (read_env lookup key (parseInt valid c) (\<lambda>v cfg. cfg\<lparr>OutboxMaxPending := v\<rparr>) s) = (fst s)\<lparr>OutboxMaxPending := setting lookup key (int_word valid) (OutboxMaxPending (fst s))\<rparr>"
  "fst (read_env lookup key (parseInt valid c) (\<lambda>v cfg. cfg\<lparr>IdempotencyCleanupBatchSize := v\<rparr>) s) = (fst s)\<lparr>IdempotencyCleanupBatchSize := setting lookup key (int_word valid) (IdempotencyCleanupBatchSize (fst s))\<rparr>"
  unfolding setting_parsed(4) [symmetric, where c = c]
  by (cases s; auto simp: read_env_def parsed_value_def split: option.split sum.split)+

lemma read_env_duration:
  "fst (read_env lookup key (parseDuration valid c) (\<lambda>v cfg. cfg\<lparr>OutboxPollInterval := v\<rparr>) s) = (fst s)\<lparr>OutboxPollInterval := setting lookup key (duration_word valid) (OutboxPollInterval (fst s))\<rparr>"
  "fst (read_env lookup key (parseDuration valid c) (\<lambda>v cfg. cfg\<lparr>OutboxRetryDelay := v\<rparr>) s) = (fst s)\<lparr>OutboxRetryDelay := setting lookup key (duration_word valid) (OutboxRetryDelay (fst s))\<rparr>"
  "fst (read_env lookup key (parseDuration valid c) (\<lambda>v cfg. cfg\<lparr>IdempotencyCleanupInterval := v\<rparr>) s) = (fst s)\<lparr>IdempotencyCleanupInterval := setting lookup key (duration_word valid) (IdempotencyCleanupInterval (fst s))\<rparr>"
  unfolding setting_parsed(5) [symmetric, where c = c]
  by (cases s; auto simp: read_env_def parsed_value_def split: option.split sum.split)+

lemma readConfig_configured: "fst (readConfigFromEnv lookup) = configured lookup"
  by (simp add: readConfigFromEnv_def read_env_text read_env_bool read_env_int read_env_duration DefaultConfig_def
      configured_def StorageDriverMemory_def)

lemma outbox_as_configured:
  assumes "valid_config cfg"
  shows "start_outbox cfg = \<lparr>has_outbox_repo = True, has_publisher = True, has_dlqPublisher = True,
      pollInterval = OutboxPollInterval cfg, worker_batchSize = OutboxBatchSize cfg, maxAttempts = OutboxMaxAttempts cfg,
      retryBaseDelay = OutboxRetryDelay cfg\<rparr>"
  using assms by (simp add: start_outbox_def valid_config_def NewWorker_def WithDLQPublisher_def WithPollInterval_def
      WithWorkerBatchSize_def WithMaxAttempts_def WithRetryBaseDelay_def)

lemma cleanup_as_configured:
  assumes "valid_config cfg"
  shows "start_cleanup cfg = (if IdempotencyCleanupInterval cfg = 0 then None
      else Some \<lparr>has_repo = True, interval = IdempotencyCleanupInterval cfg, batchSize = IdempotencyCleanupBatchSize cfg\<rparr>)"
  using assms by (simp add: start_cleanup_def valid_config_def NewCleanupWorker_def WithInterval_def WithBatchSize_def)

lemma Run_setup_started:
  assumes "Run_setup env sql_open run_sql fs renv new_producer listen raw cfg w = Some (Inr r, w')"
  shows "validateMockIntegrationsPolicy cfg = None
    \<and> (\<exists>w1. run_state (initRuntimeDependencies env sql_open run_sql fs cfg) w = (Inr (run_deps r), w1))
    \<and> run_cleanup r = start_cleanup cfg
    \<and> run_outbox r = (if parseKafkaBrokers raw = [] then None else Some (start_outbox cfg))
    \<and> run_kafka r = (parseKafkaBrokers raw \<noteq> [])"
  using assms by (auto simp: Run_setup_def Let_def split: option.splits prod.splits sum.splits if_splits)

lemma init_storage:
  "run_state (initRuntimeDependencies env sql_open run_sql fs cfg) w = (Inr deps, w1) \<Longrightarrow>
     (if normalizedStorageDriver (StorageDriver cfg) = StorageDriverPostgres then rd_storage deps = postgres_storage
      else normalizedStorageDriver (StorageDriver cfg) = StorageDriverMemory \<and> rd_storage deps = memory_storage)"
  by (auto simp: initRuntimeDependencies_def Let_def StorageDriverMemory_def StorageDriverPostgres_def
      split: if_splits option.splits prod.splits)

text \<open>C27. The configuration takes effect. Whatever the environment holds, every field that \<open>readConfigFromEnv\<close> reads is the value
  of its own variable when that is set, not blank, readable and in its range, and the default otherwise; it warns exactly of
  the variables whose value does not parse or is out of range; and when \<open>Run\<close> gets as far as serving, then the outbox worker, which
  runs exactly when Kafka brokers are given, and the cleanup worker, which runs unless its interval is 0, work with
  the configured values and not with their own defaults; the PostgreSQL storage is used exactly when it is configured,
  and then only with the permission for mock integrations.\<close>

theorem configuration_takes_effect:
  assumes "fst (readConfigFromEnv lookup) = cfg"
    and "Run_setup env sql_open run_sql fs renv new_producer listen raw cfg w = Some (Inr r, w')"
  shows "cfg = configured lookup
    \<and> map cw_env (snd (readConfigFromEnv lookup)) = map fst (filter (rejected lookup) parsed_variables)
    \<and> run_outbox r = (if parseKafkaBrokers raw = [] then None
        else Some \<lparr>has_outbox_repo = True, has_publisher = True, has_dlqPublisher = True, pollInterval = OutboxPollInterval cfg,
          worker_batchSize = OutboxBatchSize cfg, maxAttempts = OutboxMaxAttempts cfg, retryBaseDelay = OutboxRetryDelay cfg\<rparr>)
    \<and> run_cleanup r = (if IdempotencyCleanupInterval cfg = 0 then None
        else Some \<lparr>has_repo = True, interval = IdempotencyCleanupInterval cfg, batchSize = IdempotencyCleanupBatchSize cfg\<rparr>)
    \<and> (rd_storage (run_deps r) = postgres_storage \<longleftrightarrow> normalizedStorageDriver (StorageDriver cfg) = StorageDriverPostgres)
    \<and> (rd_storage (run_deps r) = postgres_storage \<longrightarrow> AllowMockIntegrations cfg)"
proof -
  have valid: "valid_config cfg" using readConfig_valid [of lookup] assms(1) by simp
  note r = Run_setup_started [OF assms(2)]
  then obtain w1 where "run_state (initRuntimeDependencies env sql_open run_sql fs cfg) w = (Inr (run_deps r), w1)" by auto
  from init_storage [OF this]
  have "rd_storage (run_deps r) = postgres_storage \<longleftrightarrow> normalizedStorageDriver (StorageDriver cfg) = StorageDriverPostgres"
    by (auto split: if_splits)
  moreover have "cfg = configured lookup" using assms(1) readConfig_configured by blast
  ultimately show ?thesis
    using r unfolding readConfig_warns outbox_as_configured [OF valid] cleanup_as_configured [OF valid]
    by (intro conjI) (auto simp: readConfig_warns outbox_as_configured [OF valid] cleanup_as_configured [OF valid]
        validateMockIntegrationsPolicy_def split: if_splits)
qed

definition example_lookup :: "string \<Rightarrow> string option" where
  "example_lookup = [''OMS_IDEMPOTENCY_CLEANUP_INTERVAL'' \<mapsto> ''1m30s'', ''OMS_OUTBOX_BATCH_SIZE'' \<mapsto> ''0'']"

definition example_config :: Config where
  "example_config = DefaultConfig\<lparr>IdempotencyCleanupInterval := 90000 * millisecond\<rparr>"

lemma example_lookup_trimmed:
  "lookupEnvTrimmed example_lookup key =
     (if key = ''OMS_OUTBOX_BATCH_SIZE'' then Some ''0'' else if key = ''OMS_IDEMPOTENCY_CLEANUP_INTERVAL'' then Some ''1m30s'' else None)"
proof -
  have "TrimSpace ''0'' = ''0''" "TrimSpace ''1m30s'' = ''1m30s''" by code_simp+
  then show ?thesis by (simp add: lookupEnvTrimmed_def example_lookup_def)
qed

lemma example_values:
  "parseDuration (\<lambda>d. 0 \<le> d) ''must be >= 0'' ''1m30s'' = Inr 90000000000"
  "parseInt (\<lambda>n. 0 < n) ''must be > 0'' ''0'' = Inl (Opaque ''invalid integer value: must be > 0'')"
  by code_simp+

lemma example_read: "fst (readConfigFromEnv example_lookup) = example_config"
  unfolding readConfigFromEnv_def fold_simps comp_def id_def
  by (simp add: read_env_def example_lookup_trimmed example_values example_config_def)

definition idle_retry :: "'w retry_env" where
  "idle_retry = \<lparr>rt_now = return 0, rt_ctx_err = return None, rt_wait = (\<lambda>d. return None)\<rparr>"

lemma example_brokers: "parseKafkaBrokers ''k1:9092'' = [''k1:9092'']" "TrimSpace ''k1:9092'' = ''k1:9092''"
  by code_simp+

lemma example_setup:
  fixes w :: "(unit mig_tables, unit) pg_world"
  shows "\<exists>r. Run_setup calm_pg (\<lambda>_. None) (\<lambda>_ _. Inr ()) (Inr []) idle_retry (\<lambda>_. return None) (return None) ''k1:9092'' example_config w
    = Some (Inr r, w)"
proof -
  have driver: "normalizedStorageDriver (StorageDriver example_config) = StorageDriverMemory"
    unfolding example_config_def DefaultConfig_def by code_simp
  have "validateMockIntegrationsPolicy example_config = None"
    unfolding validateMockIntegrationsPolicy_def driver by (simp add: StorageDriverMemory_def StorageDriverPostgres_def)
  then show ?thesis
    by (simp add: Run_setup_def initRuntimeDependencies_def driver example_brokers initKafkaProducerWithRetry_def
        retryWithDeadline_def idle_retry_def retry_loop.simps Let_def)
qed

theorem configuration_takes_effect_witness:
  "\<exists>r w'. Run_setup calm_pg (\<lambda>_. None) (\<lambda>_ _. Inr ()) (Inr []) idle_retry (\<lambda>_. return None) (return None) ''k1:9092'' example_config
      \<lparr>pg_db = \<lparr>mig_schema = (), schema_migrations = None\<rparr>, pg_ext = ()\<rparr> = Some (Inr r, w')
    \<and> map_option interval (run_cleanup r) = Some (90000 * millisecond)
    \<and> map_option worker_batchSize (run_outbox r) = Some 100"
proof -
  obtain r where run: "Run_setup calm_pg (\<lambda>_. None) (\<lambda>_ _. Inr ()) (Inr []) idle_retry (\<lambda>_. return None) (return None) ''k1:9092''
      example_config \<lparr>pg_db = \<lparr>mig_schema = (), schema_migrations = None\<rparr>, pg_ext = ()\<rparr>
    = Some (Inr r, \<lparr>pg_db = \<lparr>mig_schema = (), schema_migrations = None\<rparr>, pg_ext = ()\<rparr>)"
    using example_setup by blast
  from configuration_takes_effect [OF example_read run] run show ?thesis
    by (auto simp: example_brokers example_config_def DefaultConfig_def)
qed

section \<open>The retries end\<close>

text \<open>A clock that the wait moves on by at least its duration and nothing turns back, and the number of calls of the
  operation.\<close>

definition clocked :: "'w retry_env \<Rightarrow> ('w, error option) prog \<Rightarrow> ('w \<Rightarrow> int) \<Rightarrow> ('w \<Rightarrow> nat) \<Rightarrow> bool" where
  "clocked env fn clk calls \<longleftrightarrow>
     (\<forall>w t w'. run_state (rt_now env) w = (t, w') \<longrightarrow> t = clk w' \<and> clk w \<le> clk w' \<and> calls w' = calls w)
     \<and> (\<forall>w e w'. run_state (rt_ctx_err env) w = (e, w') \<longrightarrow> clk w \<le> clk w' \<and> calls w' = calls w)
     \<and> (\<forall>w e w'. run_state fn w = (e, w') \<longrightarrow> clk w \<le> clk w' \<and> calls w' = Suc (calls w))
     \<and> (\<forall>d w w'. run_state (rt_wait env d) w = (None, w') \<longrightarrow> clk w + d \<le> clk w' \<and> calls w' = calls w)
     \<and> (\<forall>d w e w'. run_state (rt_wait env d) w = (Some e, w') \<longrightarrow> clk w \<le> clk w' \<and> calls w' = calls w)"

lemma clockedD:
  assumes "clocked env fn clk calls"
  shows "run_state (rt_now env) w = (t, w') \<Longrightarrow> t = clk w' \<and> clk w \<le> clk w' \<and> calls w' = calls w"
    and "run_state (rt_ctx_err env) w = (e, w') \<Longrightarrow> clk w \<le> clk w' \<and> calls w' = calls w"
    and "run_state fn w = (e2, w') \<Longrightarrow> clk w \<le> clk w' \<and> calls w' = Suc (calls w)"
    and "run_state (rt_wait env d) w = (None, w') \<Longrightarrow> clk w + d \<le> clk w' \<and> calls w' = calls w"
    and "run_state (rt_wait env d) w = (Some e3, w') \<Longrightarrow> clk w \<le> clk w' \<and> calls w' = calls w"
  using assms unfolding clocked_def by blast+

lemma retry_loop_ends:
  assumes "clocked env fn clk calls" and "0 < delay" and "deadline - clk w < int n * delay"
  shows "\<exists>r w'. retry_loop env op deadline delay fn k lastErr w = Some (r, w')
    \<and> calls w' \<le> calls w + Suc n \<and> (r = None \<longrightarrow> calls w < calls w' \<and> (\<exists>w1 w2. run_state fn w1 = (None, w2)))"
  using assms(3)
proof (induction n arbitrary: w k lastErr)
  case 0
  show ?case
    using clockedD [OF assms(1)] 0 by (subst retry_loop.simps) (fastforce split: prod.splits option.splits)
next
  case (Suc n)
  obtain e1 w1 where ctx: "run_state (rt_ctx_err env) w = (e1, w1)" by fastforce
  obtain e2 w2 where fn: "run_state fn w1 = (e2, w2)" by fastforce
  obtain t w3 where now: "run_state (rt_now env) w2 = (t, w3)" by fastforce
  obtain e3 w4 where wait: "run_state (rt_wait env delay) w3 = (e3, w4)" by fastforce
  note steps = clockedD(2) [OF assms(1) ctx] clockedD(3) [OF assms(1) fn] clockedD(1) [OF assms(1) now]
  show ?case
  proof (cases "e1 = None \<and> e2 \<noteq> None \<and> t \<le> deadline \<and> e3 = None")
    case True
    then obtain err where err: "e2 = Some err" by auto
    have "deadline - clk w4 < int n * delay"
      using Suc.prems steps clockedD(4) [OF assms(1), of delay w3 w4] wait True by (auto simp: distrib_right)
    from Suc.IH [OF this] obtain r w' where "retry_loop env op deadline delay fn (k + 1) (Some err) w4 = Some (r, w')"
        and "calls w' \<le> calls w4 + Suc n" and "r = None \<longrightarrow> calls w4 < calls w' \<and> (\<exists>w1 w2. run_state fn w1 = (None, w2))" by blast
    then show ?thesis
      using True steps clockedD(4) [OF assms(1)] wait err ctx fn now by (subst retry_loop.simps) auto
  next
    case False
    then consider "e1 \<noteq> None" | "e1 = None" "e2 = None" | "e1 = None" "e2 \<noteq> None" "t > deadline"
      | "e1 = None" "e2 \<noteq> None" "\<not> t > deadline" "e3 \<noteq> None" by linarith
    then show ?thesis
    proof cases
      case 4
      then show ?thesis
        using clockedD(5) [OF assms(1), of delay w3 _ w4] wait ctx fn now steps by (subst retry_loop.simps) auto
    qed (use ctx fn now steps in \<open>subst retry_loop.simps, auto\<close>)+
  qed
qed

text \<open>The values that are used.\<close>

definition init_timeout :: "duration \<Rightarrow> duration" where
  "init_timeout timeout = (if timeout \<le> 0 then kafkaInitTimeout else timeout)"

definition init_delay :: "duration \<Rightarrow> duration" where
  "init_delay retryDelay = (if retryDelay \<le> 0 then kafkaInitRetryDelay else retryDelay)"

lemma retryWithDeadline_ends:
  assumes "clocked env fn clk calls"
  shows "\<exists>r w'. retryWithDeadline env op timeout retryDelay fn w = Some (r, w')
    \<and> calls w' \<le> calls w + nat (init_timeout timeout div init_delay retryDelay) + 2
    \<and> (r = None \<longrightarrow> calls w < calls w' \<and> (\<exists>w1 w2. run_state fn w1 = (None, w2)))"
proof -
  obtain t w1 where now: "run_state (rt_now env) w = (t, w1)" by fastforce
  define T D where "T = init_timeout timeout" and "D = init_delay retryDelay"
  have D: "0 < D" and T: "0 < T"
    by (auto simp: D_def T_def init_delay_def init_timeout_def kafkaInitRetryDelay_def kafkaInitTimeout_def)
  have "T < (T div D + 1) * D" using pos_mod_bound [OF D, of T] by (simp add: distrib_right flip: minus_mod_eq_div_mult)
  then have "t + T - clk w1 < int (nat (T div D + 1)) * D"
    using clockedD(1) [OF assms now] D T by (simp add: pos_imp_zdiv_nonneg_iff)
  from retry_loop_ends [OF assms D this, of op 0 None]
  obtain r w' where "retry_loop env op (t + T) D fn 0 None w1 = Some (r, w')" "calls w' \<le> calls w1 + Suc (nat (T div D + 1))"
      "r = None \<longrightarrow> calls w1 < calls w' \<and> (\<exists>w1 w2. run_state fn w1 = (None, w2))" by blast
  moreover have "nat (T div D + 1) = nat (T div D) + 1" using D T by (simp add: nat_add_distrib pos_imp_zdiv_nonneg_iff)
  ultimately show ?thesis
    using clockedD(1) [OF assms now] by (simp add: retryWithDeadline_def now T_def D_def init_timeout_def init_delay_def)
qed

text \<open>C28. \<open>retryWithDeadline\<close> returns: with a clock that its waits move on, it calls the operation at most once more than the
  timeout divided by the delay, rounded up, and reports success only after such a call.\<close>

theorem retry_ends:
  assumes "clocked env fn clk calls"
  shows "\<exists>r w'. retryWithDeadline env op timeout retryDelay fn w = Some (r, w')
    \<and> calls w' \<le> calls w + nat (init_timeout timeout div init_delay retryDelay) + 2
    \<and> (r = None \<longrightarrow> calls w < calls w' \<and> (\<exists>w1 w2. run_state fn w1 = (None, w2)))"
  by (rule retryWithDeadline_ends [OF assms])

text \<open>A world that is a clock and a counter.\<close>

definition clock_retry :: "(int \<times> nat) retry_env" where
  "clock_retry = \<lparr>rt_now = State (\<lambda>(t, n). (t, t, n)), rt_ctx_err = return None, rt_wait = (\<lambda>d. State (\<lambda>(t, n). (None, t + d, n)))\<rparr>"

definition refused :: "(int \<times> nat, error option) prog" where
  "refused = State (\<lambda>(t, n). (Some (Opaque ''connection refused''), t, Suc n))"

lemma clock_retry_clocked: "clocked clock_retry refused fst snd"
  by (auto simp: clocked_def clock_retry_def refused_def)

theorem retry_ends_witness:
  "\<exists>r w'. retryWithDeadline clock_retry ''connect'' 0 0 refused (0, 0) = Some (r, w') \<and> snd w' \<le> 32"
  using retry_ends [OF clock_retry_clocked, of "''connect''" 0 0 "(0, 0)"]
  by (auto simp: init_timeout_def init_delay_def kafkaInitTimeout_def kafkaInitRetryDelay_def)

text \<open>The service does not start without Kafka when brokers are configured: if no producer can be created, \<open>Run\<close>
  returns an error, whatever the rest of the configuration, although a comment there says that the service goes on
  without the broker.\<close>

theorem unreachable_kafka_stops_start:
  assumes "parseKafkaBrokers raw \<noteq> []" and "clocked renv (new_producer (parseKafkaBrokers raw)) clk calls"
    and "\<And>w. fst (run_state (new_producer (parseKafkaBrokers raw)) w) \<noteq> None"
  shows "\<exists>err w'. Run_setup env sql_open run_sql fs renv new_producer listen raw cfg w = Some (Inl err, w')"
proof -
  have kafka: "\<exists>err w'. initKafkaProducerWithRetry renv new_producer (parseKafkaBrokers raw) kafkaInitTimeout kafkaInitRetryDelay w1
      = Some (Some err, w')" for w1
  proof -
    obtain r w' where run: "retryWithDeadline renv ''kafka producer initialization'' kafkaInitTimeout kafkaInitRetryDelay
        (new_producer (parseKafkaBrokers raw)) w1 = Some (r, w')"
        and succeeds: "r = None \<longrightarrow> (\<exists>w1 w2. run_state (new_producer (parseKafkaBrokers raw)) w1 = (None, w2))"
      using retryWithDeadline_ends [OF assms(2)] by blast
    then have "r \<noteq> None" using succeeds assms(3) by (metis fst_conv)
    then show ?thesis using run by (auto simp: initKafkaProducerWithRetry_def)
  qed
  obtain res w1 where init: "run_state (initRuntimeDependencies env sql_open run_sql fs cfg) w = (res, w1)" by fastforce
  obtain err w' where "initKafkaProducerWithRetry renv new_producer (parseKafkaBrokers raw) kafkaInitTimeout kafkaInitRetryDelay w1
      = Some (Some err, w')" using kafka by blast
  then show ?thesis
    using assms(1) init by (cases "validateMockIntegrationsPolicy cfg"; cases res) (simp_all add: Run_setup_def Let_def)
qed

definition pg_clock_retry :: "('d, int \<times> nat) pg_world retry_env" where
  "pg_clock_retry = \<lparr>rt_now = State (\<lambda>w. (fst (pg_ext w), w)), rt_ctx_err = return None,
     rt_wait = (\<lambda>d. State (\<lambda>w. (None, w\<lparr>pg_ext := (fst (pg_ext w) + d, snd (pg_ext w))\<rparr>)))\<rparr>"

definition pg_refused :: "string list \<Rightarrow> (('d, int \<times> nat) pg_world, error option) prog" where
  "pg_refused bs = State (\<lambda>w. (Some (Opaque ''connection refused''), w\<lparr>pg_ext := (fst (pg_ext w), Suc (snd (pg_ext w)))\<rparr>))"

definition clock_pg :: "(int \<times> nat) pg_env" where
  "clock_pg = \<lparr>pg_fault = (\<lambda>s. (None, s)), pg_commit = (\<lambda>s. (Committed, s)), pg_now = (\<lambda>s. (fst s, s)),
     pg_uuid = (\<lambda>s. (''u1'', s)), pg_collate = (<)\<rparr>"

theorem unreachable_kafka_stops_start_witness:
  "\<exists>err w'. Run_setup clock_pg (\<lambda>_. None) (\<lambda>_ _. Inr ()) (Inr []) pg_clock_retry pg_refused (return None) ''k1:9092'' DefaultConfig
     \<lparr>pg_db = \<lparr>mig_schema = (), schema_migrations = None\<rparr>, pg_ext = (0, 0)\<rparr> = Some (Inl err, w')"
  by (rule unreachable_kafka_stops_start [where clk = "\<lambda>w. fst (pg_ext w)" and calls = "\<lambda>w. snd (pg_ext w)"])
    (auto simp: example_brokers clocked_def pg_clock_retry_def pg_refused_def)

end
