(* ===== verification/App_Shutdown.thy ===== *)
theory App_Shutdown
  imports App
begin

text \<open>
  The end of \<open>Run\<close> in \<open>internal/app/app.go\<close>: what is stopped, in which order, and how long it takes.

  \<^item> The run is a list of actions with the time that each one waits. How long a part needs to stop is an argument; a
    part that needs longer than \<open>gracefulShutdownTimeout\<close> is left behind.
  \<^item> After the end of the context the metrics server is shut down by a goroutine of \<open>startMetricsServer\<close> that nobody waits
    for; it is not among the actions of that case.
\<close>

section \<open>Actions\<close>

definition gracefulShutdownTimeout :: duration where "gracefulShutdownTimeout = 5000 * millisecond"

datatype run_action =
    GracefulStop bool | ForcedStop | ServiceShutdown bool | HTTPShutdown bool
  | CancelOutbox | OutboxStopped bool | CancelCleanup | CleanupStopped bool | ProducerClosed | StorageClosed

record stop_times =
  grpc_took :: duration
  service_took :: duration
  http_took :: duration
  outbox_took :: duration
  cleanup_took :: duration

text \<open>A \<open>select\<close> between the end of a part and the timeout.\<close>

definition awaited :: "(bool \<Rightarrow> run_action) \<Rightarrow> duration \<Rightarrow> run_action \<times> duration" where
  "awaited act took = (act (took \<le> gracefulShutdownTimeout), min took gracefulShutdownTimeout)"

definition shutdownHTTP :: "bool \<Rightarrow> duration \<Rightarrow> (run_action \<times> duration) list" where
  "shutdownHTTP srv took = (if \<not> srv then [] else [awaited HTTPShutdown took])"

definition shutdownOrderService :: "bool \<Rightarrow> duration \<Rightarrow> (run_action \<times> duration) list" where
  "shutdownOrderService orderService took = (if \<not> orderService then [] else [awaited ServiceShutdown took])"

definition shutdownOutboxWorker :: "bool \<Rightarrow> duration \<Rightarrow> (run_action \<times> duration) list" where
  "shutdownOutboxWorker started took = (if \<not> started then [] else [(CancelOutbox, 0), awaited OutboxStopped took])"

definition shutdownIdempotencyCleanupWorker :: "bool \<Rightarrow> duration \<Rightarrow> (run_action \<times> duration) list" where
  "shutdownIdempotencyCleanupWorker started took = (if \<not> started then [] else [(CancelCleanup, 0), awaited CleanupStopped took])"

definition closeKafkaProducer :: "bool \<Rightarrow> (run_action \<times> duration) list" where
  "closeKafkaProducer producer = (if \<not> producer then [] else [(ProducerClosed, 0)])"

definition stop_grpc :: "duration \<Rightarrow> (run_action \<times> duration) list" where
  "stop_grpc took = awaited GracefulStop took # (if took \<le> gracefulShutdownTimeout then [] else [(ForcedStop, 0)])"

section \<open>The end of Run\<close>

text \<open>Why \<open>Run\<close> ends: its context, with the error of the context, or the server, with what \<open>Serve\<close> returned, which may be
  \<open>grpc.ErrServerStopped\<close>.\<close>

datatype run_end = ContextDone error | ServerStopped | ServeReturned "error option"

definition stop_workers :: "running \<Rightarrow> stop_times \<Rightarrow> (run_action \<times> duration) list" where
  "stop_workers r t = shutdownOutboxWorker (run_outbox r \<noteq> None) (outbox_took t)
     @ shutdownIdempotencyCleanupWorker (run_cleanup r \<noteq> None) (cleanup_took t) @ closeKafkaProducer (run_kafka r)"

definition Run_stop :: "running \<Rightarrow> stop_times \<Rightarrow> run_end \<Rightarrow> (run_action \<times> duration) list \<times> error option" where
  "Run_stop r t reason =
     (let served = shutdownOrderService True (service_took t) @ shutdownHTTP True (http_took t) @ stop_workers r t;
          storage = (if has_closeFn (run_deps r) then [(StorageClosed, 0)] else [])
      in case reason of
           ContextDone err \<Rightarrow>
             (stop_grpc (grpc_took t) @ shutdownOrderService True (service_took t) @ stop_workers r t @ storage, Some err)
         | ServerStopped \<Rightarrow> (served @ storage, None)
         | ServeReturned err \<Rightarrow> (served @ storage, err))"

section \<open>What the end guarantees\<close>

lemmas shutdown_defs = Run_stop_def stop_workers_def stop_grpc_def shutdownHTTP_def shutdownOrderService_def shutdownOutboxWorker_def
  shutdownIdempotencyCleanupWorker_def closeKafkaProducer_def awaited_def Let_def

definition once :: "bool \<Rightarrow> run_action \<Rightarrow> run_action list \<Rightarrow> bool" where
  "once b a acts \<longleftrightarrow> length (filter (\<lambda>x. x = a) acts) = (if b then 1 else 0)"

definition comes_before :: "run_action \<Rightarrow> run_action \<Rightarrow> run_action list \<Rightarrow> bool" where
  "comes_before a b acts \<longleftrightarrow> (\<forall>xs ys. acts = xs @ b # ys \<longrightarrow> a \<notin> set ys)"

text \<open>However \<open>Run\<close> ends: the workers that were started are told to stop, each once, the Kafka producer that was opened is
  closed once and not before the outbox worker, and the storage is closed last; all of it waits at most four times
  \<open>gracefulShutdownTimeout\<close>.\<close>

theorem shutdown_complete:
  fixes r t reason
  defines "acts \<equiv> map fst (fst (Run_stop r t reason))"
  assumes "0 \<le> grpc_took t" and "0 \<le> service_took t" and "0 \<le> http_took t" and "0 \<le> outbox_took t" and "0 \<le> cleanup_took t"
  shows "once (run_outbox r \<noteq> None) CancelOutbox acts \<and> once (run_cleanup r \<noteq> None) CancelCleanup acts
     \<and> once (run_kafka r) ProducerClosed acts \<and> once (has_closeFn (run_deps r)) StorageClosed acts
     \<and> once True (ServiceShutdown (service_took t \<le> gracefulShutdownTimeout)) acts
     \<and> comes_before CancelOutbox ProducerClosed acts \<and> (has_closeFn (run_deps r) \<longrightarrow> last acts = StorageClosed)
     \<and> sum_list (map snd (fst (Run_stop r t reason))) \<le> 4 * gracefulShutdownTimeout"
proof -
  have "0 < gracefulShutdownTimeout" by (simp add: gracefulShutdownTimeout_def)
  then have "sum_list (map snd (fst (Run_stop r t reason))) \<le> 4 * gracefulShutdownTimeout"
    using assms(2-) by (cases reason) (auto simp: shutdown_defs)
  moreover have "comes_before CancelOutbox ProducerClosed acts"
    unfolding acts_def comes_before_def
    by (cases reason) (auto simp: shutdown_defs Cons_eq_append_conv append_eq_Cons_conv split: if_splits)
  ultimately show ?thesis
    unfolding acts_def once_def by (cases reason) (auto simp: shutdown_defs)
qed

end
