(* ===== verification/Load_Report.thy ===== *)
theory Load_Report
  imports Grpc_Order Float64
begin

text \<open>
  The measurements of the load test, \<open>cmd/loadtest/main.go\<close>: the \<open>collector\<close>, its reports and the latency summary.

  \<^item> Latencies, rates and averages are \<open>float64\<close> numbers, and each operation on them is rounded as in theory
    \<open>Float64\<close>.
  \<^item> The methods of the collector hold its mutex, so that each is one step; \<open>fold\<close> of \<open>record_call\<close> over a list of
    measurements is what any number of workers leave that record in that order.
\<close>

section \<open>Data\<close>

record latencySummary =
  lat_Min :: rat
  lat_Max :: rat
  lat_Avg :: rat
  P50 :: rat
  P95 :: rat
  P99 :: rat

record methodReport =
  Calls :: int
  Success :: int
  Failed :: int
  mr_ErrorRate :: rat
  Codes :: "string \<rightharpoonup> int"
  LatencyMs :: latencySummary

record report =
  StartedAt :: gotime
  DurationSeconds :: rat
  TotalScenarios :: int
  SuccessScenarios :: int
  FailedScenarios :: int
  rep_ErrorRate :: rat
  RPS :: rat
  ScenarioLatencyMs :: latencySummary
  Methods :: "string \<rightharpoonup> methodReport"

record methodStats =
  st_calls :: int
  st_success :: int
  st_failed :: int
  st_codes :: "string \<rightharpoonup> int"
  st_latencies :: "rat list"

record collector =
  col_methods :: "string \<rightharpoonup> methodStats"

definition newCollector :: collector where
  "newCollector = \<lparr>col_methods = Map.empty\<rparr>"

text \<open>\<open>codes.Code.String\<close>.\<close>

fun code_string :: "rpc_code \<Rightarrow> string" where
  "code_string codes_OK = ''OK''"
| "code_string codes_Canceled = ''Canceled''"
| "code_string codes_Unknown = ''Unknown''"
| "code_string codes_InvalidArgument = ''InvalidArgument''"
| "code_string codes_DeadlineExceeded = ''DeadlineExceeded''"
| "code_string codes_NotFound = ''NotFound''"
| "code_string codes_AlreadyExists = ''AlreadyExists''"
| "code_string codes_PermissionDenied = ''PermissionDenied''"
| "code_string codes_ResourceExhausted = ''ResourceExhausted''"
| "code_string codes_FailedPrecondition = ''FailedPrecondition''"
| "code_string codes_Aborted = ''Aborted''"
| "code_string codes_OutOfRange = ''OutOfRange''"
| "code_string codes_Unimplemented = ''Unimplemented''"
| "code_string codes_Internal = ''Internal''"
| "code_string codes_Unavailable = ''Unavailable''"
| "code_string codes_DataLoss = ''DataLoss''"
| "code_string codes_Unauthenticated = ''Unauthenticated''"
| "code_string (codes_Other n) = ''Code('' @ int_string (int n) @ '')''"

section \<open>Latencies\<close>

definition ratio :: "int \<Rightarrow> int \<Rightarrow> rat" where
  "ratio failed all = (if all \<le> 0 then 0 else rnd64 (rnd64 (of_int failed) / rnd64 (of_int all)))"

text \<open>\<open>Duration.Microseconds\<close> divides towards zero.\<close>

definition Microseconds :: "duration \<Rightarrow> int" where
  "Microseconds d = (if d < 0 then - (- d div 1000) else d div 1000)"

text \<open>\<open>float64(latency.Microseconds()) / 1000.0\<close>.\<close>

definition milliseconds :: "duration \<Rightarrow> rat" where
  "milliseconds d = rnd64 (rnd64 (of_int (Microseconds d)) / 1000)"

text \<open>\<open>Duration.Seconds\<close>: the whole seconds and the rest, divided towards zero, converted and added.\<close>

definition Seconds :: "duration \<Rightarrow> rat" where
  "Seconds d =
     (let sec = (if d < 0 then - (- d div 1000000000) else d div 1000000000);
          nsec = d - sec * 1000000000
      in rnd64 (rnd64 (of_int sec) + rnd64 (rnd64 (of_int nsec) / 1000000000)))"

definition percentile :: "rat list \<Rightarrow> rat \<Rightarrow> rat" where
  "percentile srt p =
     (if srt = [] then 0
      else if length srt = 1 then srt ! 0
      else let rank = rnd64 (rnd64 (p / 100) * rnd64 (of_nat (length srt - 1)));
               lower = nat \<lfloor>rank\<rfloor>;
               upper = nat \<lceil>rank\<rceil>
           in if lower = upper then srt ! lower
              else let weight = rnd64 (rank - of_nat lower) in interpolate (srt ! lower) (srt ! upper) weight)"

definition empty_latency :: latencySummary where
  "empty_latency = \<lparr>lat_Min = 0, lat_Max = 0, lat_Avg = 0, P50 = 0, P95 = 0, P99 = 0\<rparr>"

definition buildLatencySummary :: "rat list \<Rightarrow> latencySummary" where
  "buildLatencySummary values =
     (if values = [] then empty_latency
      else let srt = sort_slice (<) values;
               total_ms = fsum srt
           in \<lparr>lat_Min = srt ! 0, lat_Max = srt ! (length srt - 1), lat_Avg = rnd64 (total_ms / rnd64 (of_nat (length srt))),
               P50 = percentile srt 50, P95 = percentile srt 95, P99 = percentile srt 99\<rparr>)"

section \<open>The collector\<close>

record measurement =
  m_method :: string
  m_latency :: duration
  m_code :: rpc_code

definition add_call :: "duration \<Rightarrow> rpc_code \<Rightarrow> methodStats \<Rightarrow> methodStats" where
  "add_call latency code s =
     s\<lparr>st_calls := st_calls s + 1,
       st_success := (if code = codes_OK then st_success s + 1 else st_success s),
       st_failed := (if code = codes_OK then st_failed s else st_failed s + 1),
       st_codes := (st_codes s)(code_string code \<mapsto> (case st_codes s (code_string code) of Some n \<Rightarrow> n | None \<Rightarrow> 0) + 1),
       st_latencies := st_latencies s @ [milliseconds latency]\<rparr>"

definition record_call :: "measurement \<Rightarrow> collector \<Rightarrow> collector" where
  "record_call m c =
     (let s = (case col_methods c (m_method m) of
           Some s \<Rightarrow> s
         | None \<Rightarrow> \<lparr>st_calls = 0, st_success = 0, st_failed = 0, st_codes = Map.empty, st_latencies = []\<rparr>)
      in c\<lparr>col_methods := (col_methods c)(m_method m \<mapsto> add_call (m_latency m) (m_code m) s)\<rparr>)"

definition method_report :: "methodStats \<Rightarrow> methodReport" where
  "method_report s = \<lparr>Calls = st_calls s, Success = st_success s, Failed = st_failed s,
     mr_ErrorRate = ratio (st_failed s) (st_calls s), Codes = st_codes s,
     LatencyMs = buildLatencySummary (st_latencies s)\<rparr>"

definition snapshot :: "string \<Rightarrow> collector \<Rightarrow> methodReport option" where
  "snapshot name c = map_option method_report (col_methods c name)"

definition buildReport :: "gotime \<Rightarrow> duration \<Rightarrow> collector \<Rightarrow> report" where
  "buildReport startedAt dur c =
     (let r0 = \<lparr>StartedAt = startedAt, DurationSeconds = Seconds dur, TotalScenarios = 0, SuccessScenarios = 0,
            FailedScenarios = 0, rep_ErrorRate = 0, RPS = 0, ScenarioLatencyMs = empty_latency, Methods = Map.empty\<rparr>;
          r1 = (case col_methods c ''scenario'' of
              None \<Rightarrow> r0
            | Some s \<Rightarrow> r0\<lparr>TotalScenarios := st_calls s, SuccessScenarios := st_success s, FailedScenarios := st_failed s,
                 rep_ErrorRate := ratio (st_failed s) (st_calls s), ScenarioLatencyMs := buildLatencySummary (st_latencies s)\<rparr>);
          r2 = (if dur > 0 then r1\<lparr>RPS := rnd64 (rnd64 (of_int (TotalScenarios r1)) / Seconds dur)\<rparr> else r1)
      in r2\<lparr>Methods := (\<lambda>name. snapshot name c)\<rparr>)"

section \<open>The latency summary\<close>

lemma sort_slice_sort: "sort_slice (<) xs = sort xs" for xs :: "'a :: linorder list"
  by (rule insertion.srt_unique) (auto simp: weak_order_def sorted_less_def not_less)

text \<open>The value at a rank between two positions of a sorted list, by linear interpolation.\<close>

definition at_rank :: "rat list \<Rightarrow> rat \<Rightarrow> rat" where
  "at_rank xs r = interpolate (xs ! nat \<lfloor>r\<rfloor>) (xs ! nat \<lceil>r\<rceil>) (r - of_int \<lfloor>r\<rfloor>)"

definition rank_of :: "rat list \<Rightarrow> rat \<Rightarrow> rat" where
  "rank_of xs p = rnd64 (rnd64 (p / 100) * rnd64 (of_nat (length xs - 1)))"

abbreviation floats :: "rat list \<Rightarrow> bool" where
  "floats xs \<equiv> \<forall>v \<in> set xs. float64 v"

lemma rank_positions:
  assumes "0 \<le> r" and "r \<le> of_nat (length xs - 1)" and "xs \<noteq> []"
  shows "nat \<lfloor>r\<rfloor> \<le> nat \<lceil>r\<rceil>" and "nat \<lceil>r\<rceil> < length xs" and "nat \<lceil>r\<rceil> \<le> Suc (nat \<lfloor>r\<rfloor>)"
proof -
  have "\<lceil>r\<rceil> \<le> int (length xs - 1)" using assms(2) by (simp add: ceiling_le_iff)
  then show "nat \<lceil>r\<rceil> < length xs" using assms(3) by (cases xs) auto
  show "nat \<lfloor>r\<rfloor> \<le> nat \<lceil>r\<rceil>" by (intro nat_mono floor_le_ceiling)
  show "nat \<lceil>r\<rceil> \<le> Suc (nat \<lfloor>r\<rfloor>)" using ceiling_diff_floor_le_1 [of r] assms(1) by linarith
qed

lemma rank_float: "float64 (rank_of xs p)"
  by (simp add: rank_of_def)

lemma rank_in_range:
  assumes "0 \<le> p" and "p \<le> 100" and "length xs \<le> 2 ^ 40"
  shows "0 \<le> rank_of xs p" and "rank_of xs p \<le> of_nat (length xs - 1)"
proof -
  have n: "float64 (of_nat (length xs - 1))" using assms(3) by (intro float64_nat) simp
  have q: "0 \<le> rnd64 (p / 100)" "rnd64 (p / 100) \<le> 1"
    using assms(1,2) float64_int [of 1] by (simp_all add: rnd64_nonneg rnd64_le)
  show "0 \<le> rank_of xs p" unfolding rank_of_def using assms(1) by (intro rnd64_nonneg mult_nonneg_nonneg) simp_all
  have "rnd64 (p / 100) * of_nat (length xs - 1) \<le> 1 * of_nat (length xs - 1)" using q by (intro mult_right_mono) simp_all
  then show "rank_of xs p \<le> of_nat (length xs - 1)"
    unfolding rank_of_def using n rnd64_le [OF _ n] by (simp add: float64_def)
qed

lemma rank_mono:
  assumes "p \<le> q"
  shows "rank_of xs p \<le> rank_of xs q"
  unfolding rank_of_def using assms by (intro rnd64_mono mult_right_mono rnd64_nonneg divide_right_mono) simp_all

lemma interpolate_same: "float64 a \<Longrightarrow> interpolate a a w = a"
  by (simp add: interpolate_def float64_def)

lemma percentile_at_rank:
  assumes "xs \<noteq> []" and "floats xs" and "0 \<le> p" and "p \<le> 100" and "length xs \<le> 2 ^ 40"
  shows "percentile xs p = at_rank xs (rank_of xs p)"
proof -
  let ?r = "rank_of xs p"
  note range = rank_in_range [OF assms(3-5)] and pos = rank_positions [OF rank_in_range [OF assms(3-5)] assms(1)]
  have elem: "float64 (xs ! nat \<lceil>?r\<rceil>)" using assms(2) pos(2) by simp
  have weight: "rnd64 (?r - of_int \<lfloor>?r\<rfloor>) = ?r - of_int \<lfloor>?r\<rfloor>"
    using fraction_float64(1) [OF rank_float range(1)] by (simp add: float64_def)
  show ?thesis
  proof (cases "length xs = 1")
    case True
    then have "nat \<lceil>?r\<rceil> = 0" "nat \<lfloor>?r\<rfloor> = 0" using pos(1,2) by linarith+
    then show ?thesis using True elem assms(1) by (simp add: percentile_def at_rank_def interpolate_same)
  next
    case False
    have lower: "of_nat (nat \<lfloor>?r\<rfloor>) = (of_int \<lfloor>?r\<rfloor> :: rat)" using range(1) by (simp add: of_nat_nat)
    show ?thesis
      using False assms(1) elem unfolding percentile_def at_rank_def Let_def rank_of_def [symmetric] lower weight
      by (auto simp: interpolate_same)
  qed
qed

lemma at_rank_between:
  assumes "sorted xs" and "floats xs" and "float64 r" and "0 \<le> r" and "r \<le> of_nat (length xs - 1)" and "xs \<noteq> []"
  shows "xs ! nat \<lfloor>r\<rfloor> \<le> at_rank xs r" and "at_rank xs r \<le> xs ! nat \<lceil>r\<rceil>"
proof -
  note pos = rank_positions [OF assms(4-6)]
  have "xs ! nat \<lfloor>r\<rfloor> \<le> xs ! nat \<lceil>r\<rceil>" using assms(1) pos by (simp add: sorted_nth_mono)
  moreover have "float64 (xs ! nat \<lfloor>r\<rfloor>)" "float64 (xs ! nat \<lceil>r\<rceil>)" using assms(2) pos(1,2) by simp_all
  moreover have "0 \<le> r - of_int \<lfloor>r\<rfloor>" by linarith
  ultimately show "xs ! nat \<lfloor>r\<rfloor> \<le> at_rank xs r" and "at_rank xs r \<le> xs ! nat \<lceil>r\<rceil>"
    unfolding at_rank_def using fraction_float64(2) [OF assms(3,4)] interpolate_between by blast+
qed

lemma at_rank_mono:
  assumes "sorted xs" and "floats xs" and "float64 r" and "float64 t" and "0 \<le> r" and "r \<le> t"
    and "t \<le> of_nat (length xs - 1)" and "xs \<noteq> []"
  shows "at_rank xs r \<le> at_rank xs t"
proof -
  have range: "0 \<le> t" "r \<le> of_nat (length xs - 1)" using assms(5-7) by linarith+
  note pos_r = rank_positions [OF assms(5) range(2) assms(8)] and pos_t = rank_positions [OF range(1) assms(7,8)]
  note between_r = at_rank_between [OF assms(1-3,5) range(2) assms(8)]
    and between_t = at_rank_between [OF assms(1,2,4) range(1) assms(7,8)]
  consider "\<lfloor>r\<rfloor> < \<lfloor>t\<rfloor>" | "\<lfloor>r\<rfloor> = \<lfloor>t\<rfloor>" "of_int \<lfloor>r\<rfloor> = r" | "\<lfloor>r\<rfloor> = \<lfloor>t\<rfloor>" "of_int \<lfloor>r\<rfloor> < r"
    using floor_mono [OF assms(6)] of_int_floor_le [of r] by linarith
  then show ?thesis
  proof cases
    case 1
    then have "nat \<lceil>r\<rceil> \<le> nat \<lfloor>t\<rfloor>" using ceiling_diff_floor_le_1 [of r] by linarith
    then have "xs ! nat \<lceil>r\<rceil> \<le> xs ! nat \<lfloor>t\<rfloor>" using assms(1) pos_t by (intro sorted_nth_mono) auto
    then show ?thesis using between_r(2) between_t(1) by linarith
  next
    case 2
    then have "\<lceil>r\<rceil> = \<lfloor>r\<rfloor>" by (metis ceiling_of_int)
    then show ?thesis using between_r(2) between_t(1) 2(1) by simp
  next
    case 3
    then have "of_int \<lfloor>t\<rfloor> < t" using assms(6) by linarith
    then have top: "\<lceil>r\<rceil> = \<lceil>t\<rceil>" using 3 by (simp add: ceiling_altdef)
    have "xs ! nat \<lfloor>t\<rfloor> \<le> xs ! nat \<lceil>t\<rceil>" using assms(1) pos_t by (simp add: sorted_nth_mono)
    then show ?thesis using assms(6) unfolding at_rank_def top 3(1) by (intro interpolate_mono) simp_all
  qed
qed

lemma percentile_mono:
  assumes "sorted xs" and "floats xs" and "xs \<noteq> []" and "length xs \<le> 2 ^ 40" and "0 \<le> p" and "p \<le> q" and "q \<le> 100"
  shows "percentile xs p \<le> percentile xs q"
proof -
  have "0 \<le> q" "p \<le> 100" using assms(5-7) by linarith+
  then show ?thesis
    using assms rank_in_range [of p xs] rank_in_range [of q xs] rank_mono [OF assms(6)]
    by (simp add: percentile_at_rank at_rank_mono rank_float)
qed

lemma percentile_within_ends:
  assumes "sorted xs" and "floats xs" and "xs \<noteq> []" and "length xs \<le> 2 ^ 40" and "0 \<le> p" and "p \<le> 100"
  shows "xs ! 0 \<le> percentile xs p" and "percentile xs p \<le> xs ! (length xs - 1)"
proof -
  note range = rank_in_range [OF assms(5,6,4)]
  note pos = rank_positions [OF range assms(3)] and between = at_rank_between [OF assms(1,2) rank_float range assms(3)]
  have "xs ! 0 \<le> xs ! nat \<lfloor>rank_of xs p\<rfloor>" "xs ! nat \<lceil>rank_of xs p\<rceil> \<le> xs ! (length xs - 1)"
    using pos assms(1,3) by (auto intro!: sorted_nth_mono)
  then show "xs ! 0 \<le> percentile xs p" and "percentile xs p \<le> xs ! (length xs - 1)"
    using between by (simp_all only: percentile_at_rank [OF assms(3,2,5,6,4)])
qed

lemma count_sorted:
  assumes "sorted xs" and "k < length xs"
  shows "xs ! k \<le> v \<Longrightarrow> Suc k \<le> length (filter (\<lambda>x. x \<le> v) xs)"
    and "v \<le> xs ! k \<Longrightarrow> length xs - k \<le> length (filter (\<lambda>x. v \<le> x) xs)"
proof -
  assume "xs ! k \<le> v"
  then have "filter (\<lambda>x. x \<le> v) (take (Suc k) xs) = take (Suc k) xs"
    using assms sorted_nth_mono [of xs _ k] by (fastforce simp: filter_id_conv in_set_conv_nth less_Suc_eq_le)
  then have "filter (\<lambda>x. x \<le> v) xs = take (Suc k) xs @ filter (\<lambda>x. x \<le> v) (drop (Suc k) xs)"
    by (metis append_take_drop_id filter_append)
  then show "Suc k \<le> length (filter (\<lambda>x. x \<le> v) xs)" using assms(2) by simp
next
  assume "v \<le> xs ! k"
  then have "v \<le> xs ! (k + i)" if "k + i < length xs" for i
    using assms(1) that by (meson le_add1 order.trans sorted_nth_mono)
  then have "filter (\<lambda>x. v \<le> x) (drop k xs) = drop k xs"
    using assms(2) by (auto simp: filter_id_conv in_set_conv_nth)
  then have "filter (\<lambda>x. v \<le> x) xs = filter (\<lambda>x. v \<le> x) (take k xs) @ drop k xs"
    by (metis append_take_drop_id filter_append)
  then show "length xs - k \<le> length (filter (\<lambda>x. v \<le> x) xs)" by simp
qed

text \<open>The rank of a whole percentage is computed with an error below a hundredth.\<close>

lemma rank_error:
  assumes "0 \<le> p" and "p \<le> 100" and "length xs \<le> 2 ^ 40"
  shows "\<bar>rank_of xs p - p / 100 * of_nat (length xs - 1)\<bar> < 1 / 100"
proof -
  define n :: rat where "n = of_nat (length xs - 1)"
  define q where "q = rnd64 (p / 100)"
  have "(of_nat (length xs - 1) :: rat) \<le> of_nat (2 ^ 40)" using assms(3) by (intro of_nat_mono) simp
  then have n: "0 \<le> n" "n \<le> 2 ^ 40" by (simp_all add: n_def)
  have fn: "rnd64 n = n" unfolding n_def using assms(3) float64_nat [of "length xs - 1"] by (simp add: float64_def)
  have q: "0 \<le> q" "q \<le> 1"
    using assms(1,2) float64_int [of 1] by (simp_all add: q_def rnd64_nonneg rnd64_le)
  have "\<bar>q - p / 100\<bar> \<le> \<bar>p / 100\<bar> / 2 ^ 53" unfolding q_def by (rule rnd64_error)
  also have "\<dots> \<le> 1 / 2 ^ 53" using assms(1,2) by (intro divide_right_mono) simp_all
  finally have "\<bar>q - p / 100\<bar> * n \<le> 1 / 2 ^ 53 * 2 ^ 40" using n by (intro mult_mono) simp_all
  also have "\<bar>q - p / 100\<bar> * n = \<bar>q * n - p / 100 * n\<bar>"
    using n(1) by (simp only: left_diff_distrib [symmetric] abs_mult abs_of_nonneg)
  finally have e1: "\<bar>q * n - p / 100 * n\<bar> \<le> 1 / 2 ^ 13" by simp
  have "q * n \<le> 1 * 2 ^ 40" using q n by (intro mult_mono) simp_all
  then have "\<bar>q * n\<bar> / 2 ^ 53 \<le> 2 ^ 40 / 2 ^ 53" using q n by (intro divide_right_mono) simp_all
  then have e2: "\<bar>rnd64 (q * n) - q * n\<bar> \<le> 1 / 2 ^ 13" using rnd64_error [of "q * n"] by simp
  have "rank_of xs p = rnd64 (q * n)" by (simp only: rank_of_def q_def fn flip: n_def)
  then have "\<bar>rank_of xs p - p / 100 * n\<bar> \<le> 1 / 2 ^ 13 + 1 / 2 ^ 13" using e1 e2 by linarith
  then show ?thesis unfolding n_def by simp
qed

text \<open>For a whole percentage the error of the rank does not reach the next position.\<close>

lemma hundredths:
  fixes p :: int and n :: nat and k :: int and r :: rat
  assumes "r < of_int p / 100 * of_nat n + 1 / 100" and "of_int k \<le> r"
  shows "of_int k \<le> of_int p / 100 * (of_nat n :: rat)"
proof -
  have "of_int k < of_int p / 100 * of_nat n + (1 / 100 :: rat)" using assms by linarith
  then have "(of_int (100 * k) :: rat) < of_int (p * int n + 1)" by simp
  then have "100 * k \<le> p * int n" unfolding of_int_less_iff by simp
  then have "(of_int (100 * k) :: rat) \<le> of_int (p * int n)" by (simp only: of_int_le_iff)
  then show ?thesis by simp
qed

text \<open>At least \<open>p\<close> percent of the other values are at most the percentile, and at least the rest are at least it.\<close>

lemma percentile_ranks:
  fixes p :: int
  assumes "sorted xs" and "floats xs" and "xs \<noteq> []" and "length xs \<le> 2 ^ 40" and "0 \<le> p" and "p \<le> 100"
  defines "v \<equiv> percentile xs (of_int p)" and "n \<equiv> length xs - 1"
  shows "of_int p / 100 * of_nat n \<le> (of_nat (length (filter (\<lambda>x. x \<le> v) xs)) :: rat)"
    and "(100 - of_int p) / 100 * of_nat n \<le> (of_nat (length (filter (\<lambda>x. v \<le> x) xs)) :: rat)"
proof -
  define r where "r = rank_of xs (of_int p)"
  have p: "0 \<le> (of_int p :: rat)" "(of_int p :: rat) \<le> 100" using assms(5,6) by simp_all
  have range: "0 \<le> r" "r \<le> of_nat (length xs - 1)" unfolding r_def by (rule rank_in_range [OF p assms(4)])+
  have fl: "float64 r" by (simp add: r_def rank_float)
  note pos = rank_positions [OF range assms(3)] and between = at_rank_between [OF assms(1,2) fl range assms(3)]
  have v: "v = at_rank xs r" unfolding v_def r_def by (rule percentile_at_rank [OF assms(3,2) p assms(4)])
  have err: "\<bar>r - of_int p / 100 * of_nat n\<bar> < 1 / 100" unfolding r_def n_def by (rule rank_error [OF p assms(4)])
  have below: "Suc (nat \<lfloor>r\<rfloor>) \<le> length (filter (\<lambda>x. x \<le> v) xs)"
    unfolding v by (rule count_sorted [OF assms(1)]) (use pos between in auto)
  have above: "length xs - nat \<lceil>r\<rceil> \<le> length (filter (\<lambda>x. v \<le> x) xs)"
    unfolding v by (rule count_sorted [OF assms(1)]) (use pos between in auto)
  have "of_int (- (\<lfloor>r\<rfloor> + 1)) \<le> of_int (- p) / 100 * (of_nat n :: rat)"
    by (rule hundredths [of "- r"]) (use err in \<open>unfold of_int_minus, linarith+\<close>)
  then have "of_int p / 100 * of_nat n \<le> (of_nat (Suc (nat \<lfloor>r\<rfloor>)) :: rat)" using range(1) by (simp add: of_nat_nat)
  then show "of_int p / 100 * of_nat n \<le> (of_nat (length (filter (\<lambda>x. x \<le> v) xs)) :: rat)"
    using below by (meson of_nat_mono order_trans)
  have "of_int (\<lceil>r\<rceil> - 1) \<le> of_int p / 100 * (of_nat n :: rat)"
    by (rule hundredths [of r]) (use err in linarith)+
  moreover have "of_nat (length xs - nat \<lceil>r\<rceil>) = of_nat n + 1 - (of_int \<lceil>r\<rceil> :: rat)"
    using pos(2) range(1) assms(3) unfolding n_def by (simp add: of_nat_diff of_nat_nat Suc_leI)
  ultimately have "(100 - of_int p) / 100 * of_nat n \<le> (of_nat (length xs - nat \<lceil>r\<rceil>) :: rat)"
    by (simp add: diff_divide_distrib left_diff_distrib)
  then show "(100 - of_int p) / 100 * of_nat n \<le> (of_nat (length (filter (\<lambda>x. v \<le> x) xs)) :: rat)"
    using above by (meson of_nat_mono order_trans)
qed

lemma sorted_ends:
  assumes "sorted xs" and "xs \<noteq> []"
  shows "xs ! 0 = Min (set xs)" and "xs ! (length xs - 1) = Max (set xs)"
proof -
  show "xs ! 0 = Min (set xs)"
    by (rule sym, rule Min_eqI) (use assms sorted_nth_mono [of xs 0] in \<open>auto simp: in_set_conv_nth\<close>)
  show "xs ! (length xs - 1) = Max (set xs)"
  proof (rule sym, rule Max_eqI)
    show "x \<le> xs ! (length xs - 1)" if "x \<in> set xs" for x
      using that sorted_nth_mono [OF assms(1), of _ "length xs - 1"] by (auto simp: in_set_conv_nth)
  qed (use assms(2) in auto)
qed

text \<open>The computed average differs from the mean by the rounding of its additions and of its division.\<close>

lemma average_bounds:
  assumes "\<forall>v \<in> set xs. 0 \<le> v" and "xs \<noteq> []" and "length xs \<le> 2 ^ 40"
  defines "m \<equiv> sum_list xs / of_nat (length xs)" and "a \<equiv> rnd64 (fsum xs / rnd64 (of_nat (length xs)))"
  shows "(1 - 1 / 2 ^ 53) ^ (length xs + 1) * m \<le> a" and "a \<le> (1 + 1 / 2 ^ 53) ^ (length xs + 1) * m"
proof -
  define lo hi :: rat where "lo = 1 - 1 / 2 ^ 53" and "hi = 1 + 1 / 2 ^ 53"
  have lh: "0 \<le> lo" "0 \<le> hi" by (simp_all add: lo_def hi_def)
  have n: "rnd64 (of_nat (length xs)) = of_nat (length xs)" using assms(3) float64_nat [of "length xs"] by (simp add: float64_def)
  define t where "t = fsum xs / of_nat (length xs)"
  have t: "lo ^ length xs * m \<le> t" "t \<le> hi ^ length xs * m"
    using fsum_bounds [OF assms(1)] by (simp_all add: t_def m_def lo_def hi_def divide_right_mono)
  have "0 \<le> m" using assms(1) by (simp add: m_def sum_list_nonneg)
  then have "0 \<le> t" using t(1) lh(1) by (meson mult_nonneg_nonneg order_trans zero_le_power)
  then have a: "t * lo \<le> a" "a \<le> t * hi" using rnd64_between [of t] by (simp_all add: a_def n t_def lo_def hi_def)
  have "lo ^ (length xs + 1) * m \<le> t * lo" using mult_left_mono [OF t(1) lh(1)] by (simp add: mult_ac)
  then show "(1 - 1 / 2 ^ 53) ^ (length xs + 1) * m \<le> a" using a(1) unfolding lo_def by (rule order_trans)
  have "t * hi \<le> hi ^ (length xs + 1) * m" using mult_left_mono [OF t(2) lh(2)] by (simp add: mult_ac)
  with a(2) show "a \<le> (1 + 1 / 2 ^ 53) ^ (length xs + 1) * m" unfolding hi_def by (rule order_trans)
qed

lemma filter_sort: "length (filter P (sort xs)) = length (filter P xs)"
  by (metis mset_filter mset_sort size_mset)

text \<open>\<open>percentile_of p v xs\<close>: of the values \<open>xs\<close>, apart from one, at least \<open>p\<close> percent are at most \<open>v\<close> and at
  least the others are at least \<open>v\<close>.\<close>

definition percentile_of :: "int \<Rightarrow> rat \<Rightarrow> rat list \<Rightarrow> bool" where
  "percentile_of p v xs \<longleftrightarrow>
     of_int p / 100 * of_nat (length xs - 1) \<le> (of_nat (length (filter (\<lambda>x. x \<le> v) xs)) :: rat)
     \<and> (100 - of_int p) / 100 * of_nat (length xs - 1) \<le> (of_nat (length (filter (\<lambda>x. v \<le> x) xs)) :: rat)"

text \<open>\<open>mean_within xs a\<close>: \<open>a\<close> is the mean of \<open>xs\<close> up to the rounding of the sum and of the quotient.\<close>

definition mean_within :: "rat list \<Rightarrow> rat \<Rightarrow> bool" where
  "mean_within xs a \<longleftrightarrow>
     (1 - 1 / 2 ^ 53) ^ (length xs + 1) * (sum_list xs / of_nat (length xs)) \<le> a
     \<and> a \<le> (1 + 1 / 2 ^ 53) ^ (length xs + 1) * (sum_list xs / of_nat (length xs))"

text \<open>C31. The summary of at most \<open>2\<^sup>4\<^sup>0\<close> measured latencies, \<open>float64\<close> numbers that are not negative, is
  consistent although every operation is rounded: the least and greatest value are exact, the average is the mean up to
  one relative error of \<open>2\<^sup>-\<^sup>5\<^sup>3\<close> for each addition and the division (it may lie above the greatest value), and the
  percentiles are in ascending order between the least and the greatest value and split the values as their names say.\<close>

theorem latency_summary_correct:
  assumes "values \<noteq> []" and "\<forall>v \<in> set values. float64 v \<and> 0 \<le> v" and "length values \<le> 2 ^ 40"
  shows "\<exists>s. buildLatencySummary values = s
     \<and> lat_Min s = Min (set values) \<and> lat_Max s = Max (set values) \<and> mean_within values (lat_Avg s)
     \<and> lat_Min s \<le> P50 s \<and> P50 s \<le> P95 s \<and> P95 s \<le> P99 s \<and> P99 s \<le> lat_Max s
     \<and> percentile_of 50 (P50 s) values \<and> percentile_of 95 (P95 s) values \<and> percentile_of 99 (P99 s) values"
proof -
  define xs where "xs = sort values"
  have xs: "sorted xs" "floats xs" "xs \<noteq> []" "length xs \<le> 2 ^ 40" "set xs = set values" "length xs = length values"
    using assms by (auto simp: xs_def simp flip: set_empty)
  have total: "sum_list xs = sum_list values" by (simp add: xs_def flip: sum_mset_sum_list)
  have ends: "xs ! 0 = Min (set values)" "xs ! (length xs - 1) = Max (set values)"
    using sorted_ends [OF xs(1,3)] by (simp_all add: xs(5))
  have avg: "mean_within values (rnd64 (fsum xs / rnd64 (of_nat (length xs))))"
    using average_bounds [of xs] assms(2) xs by (simp add: mean_within_def total)
  have p: "percentile_of p (percentile xs (of_int p)) values" if "0 \<le> p" "p \<le> 100" for p
    using percentile_ranks [OF xs(1-4) that] by (simp add: percentile_of_def xs(6)) (simp add: xs_def filter_sort)
  have s: "buildLatencySummary values = \<lparr>lat_Min = xs ! 0, lat_Max = xs ! (length xs - 1),
      lat_Avg = rnd64 (fsum xs / rnd64 (of_nat (length xs))),
      P50 = percentile xs 50, P95 = percentile xs 95, P99 = percentile xs 99\<rparr>"
    using assms(1) by (simp add: buildLatencySummary_def Let_def sort_slice_sort flip: xs_def)
  show ?thesis
    using percentile_mono [OF xs(1-4), of 50 95] percentile_mono [OF xs(1-4), of 95 99] p [of 50] p [of 95] p [of 99] avg
      percentile_within_ends [OF xs(1-4), of 50] percentile_within_ends [OF xs(1-4), of 99]
    unfolding s by (simp add: ends del: One_nat_def)
qed

theorem latency_summary_correct_witness:
  "lat_Min (buildLatencySummary [3, 1, 2]) \<le> P50 (buildLatencySummary [3, 1, 2]) \<and> float64 (1 :: rat)"
proof -
  have f: "float64 3" "float64 1" "float64 2" using float64_nat [of 3] float64_nat [of 1] float64_nat [of 2] by simp_all
  then have "\<forall>v \<in> set [3, 1, 2 :: rat]. float64 v \<and> 0 \<le> v" by simp
  from latency_summary_correct [OF _ this] f(2) show ?thesis by auto
qed

text \<open>Three calls of 100 microseconds each have an average above their maximum.\<close>

lemma average_above_maximum:
  "let s = buildLatencySummary (replicate 3 (milliseconds 100000)) in lat_Max s < lat_Avg s"
  by code_simp

text \<open>What the collector keeps are such numbers: the latency of a call, measured by the monotonic clock, is not
  negative.\<close>

lemma milliseconds_float: "0 \<le> d \<Longrightarrow> float64 (milliseconds d) \<and> 0 \<le> milliseconds d"
  by (simp add: milliseconds_def Microseconds_def rnd64_nonneg pos_imp_zdiv_nonneg_iff)

section \<open>What the collector counts\<close>

definition empty_stats :: methodStats where
  "empty_stats = \<lparr>st_calls = 0, st_success = 0, st_failed = 0, st_codes = Map.empty, st_latencies = []\<rparr>"

definition stats_of :: "measurement list \<Rightarrow> methodStats" where
  "stats_of ms = fold (\<lambda>m. add_call (m_latency m) (m_code m)) ms empty_stats"

abbreviation of_method :: "string \<Rightarrow> measurement list \<Rightarrow> measurement list" where
  "of_method name ms \<equiv> filter (\<lambda>m. m_method m = name) ms"

lemma stats_of_snoc: "stats_of (ms @ [m]) = add_call (m_latency m) (m_code m) (stats_of ms)"
  by (simp add: stats_of_def)

lemma stats_of_counts:
  shows "st_calls (stats_of ms) = int (length ms)"
    and "st_success (stats_of ms) = int (length (filter (\<lambda>m. m_code m = codes_OK) ms))"
    and "st_failed (stats_of ms) = int (length (filter (\<lambda>m. m_code m \<noteq> codes_OK) ms))"
    and "st_latencies (stats_of ms) = map (\<lambda>m. milliseconds (m_latency m)) ms"
    and "st_codes (stats_of ms) c
      = (if \<exists>m \<in> set ms. code_string (m_code m) = c then Some (int (length (filter (\<lambda>m. code_string (m_code m) = c) ms))) else None)"
proof (induction ms rule: rev_induct)
  case Nil
  { case 1 show ?case by (simp add: stats_of_def empty_stats_def) }
  { case 2 show ?case by (simp add: stats_of_def empty_stats_def) }
  { case 3 show ?case by (simp add: stats_of_def empty_stats_def) }
  { case 4 show ?case by (simp add: stats_of_def empty_stats_def) }
  { case 5 show ?case by (simp add: stats_of_def empty_stats_def) }
next
  case (snoc m ms)
  { case 1 show ?case using snoc(1) by (simp add: stats_of_snoc add_call_def) }
  { case 2 show ?case using snoc(2) by (simp add: stats_of_snoc add_call_def) }
  { case 3 show ?case using snoc(3) by (simp add: stats_of_snoc add_call_def) }
  { case 4 show ?case using snoc(4) by (simp add: stats_of_snoc add_call_def) }
  { case 5 show ?case using snoc(5) by (auto simp: stats_of_snoc add_call_def filter_empty_conv) }
qed

lemma collected:
  "col_methods (fold record_call ms newCollector) name
     = (if of_method name ms = [] then None else Some (stats_of (of_method name ms)))"
proof (induction ms rule: rev_induct)
  case Nil
  then show ?case by (simp add: newCollector_def)
next
  case (snoc m ms)
  then show ?case
    by (auto simp: record_call_def Let_def stats_of_snoc) (simp add: stats_of_def empty_stats_def)
qed

lemma method_report_perm:
  assumes "mset ms = mset ns"
  shows "method_report (stats_of ms) = method_report (stats_of ns)"
proof -
  have count: "length (filter P ms) = length (filter P ns)" for P by (metis assms mset_filter size_mset)
  have len: "length ms = length ns" and st: "set ms = set ns" using assms by (metis size_mset, metis set_mset_mset)
  have "sort (map (\<lambda>m. milliseconds (m_latency m)) ms) = sort (map (\<lambda>m. milliseconds (m_latency m)) ns)"
    by (rule properties_for_sort) (simp_all add: assms)
  then have "buildLatencySummary (st_latencies (stats_of ms)) = buildLatencySummary (st_latencies (stats_of ns))"
    using len by (auto simp: buildLatencySummary_def stats_of_counts(4) sort_slice_sort Let_def)
  moreover have "st_codes (stats_of ms) = st_codes (stats_of ns)" by (rule ext) (simp add: stats_of_counts(5) st count)
  ultimately show ?thesis by (simp add: method_report_def stats_of_counts(1-3) len count)
qed

text \<open>A report does not depend on the order in which the workers record their measurements: every interleaving of the
  same measurements gives the same report.\<close>

theorem report_any_interleaving:
  assumes "mset ms = mset ns"
  shows "buildReport startedAt dur (fold record_call ms newCollector) = buildReport startedAt dur (fold record_call ns newCollector)"
proof -
  have m: "mset (of_method name ms) = mset (of_method name ns)" for name by (metis assms mset_filter)
  then have e: "of_method name ms = [] \<longleftrightarrow> of_method name ns = []" for name by (metis mset_zero_iff)
  note r = method_report_perm [OF m, unfolded method_report_def, simplified]
  have "snapshot name (fold record_call ms newCollector) = snapshot name (fold record_call ns newCollector)" for name
    using method_report_perm [OF m, of name] e [of name] by (simp add: snapshot_def collected)
  then show ?thesis
    using e [of "''scenario''"] r [of "''scenario''"] by (simp add: buildReport_def Let_def collected)
qed

definition example_measurements :: "measurement list" where
  "example_measurements =
     [\<lparr>m_method = ''CreateOrder'', m_latency = 5000000, m_code = codes_OK\<rparr>,
      \<lparr>m_method = ''CreateOrder'', m_latency = 3000000, m_code = codes_Unavailable\<rparr>,
      \<lparr>m_method = ''scenario'', m_latency = 6000000, m_code = codes_OK\<rparr>]"

theorem report_any_interleaving_witness:
  "buildReport 0 1 (fold record_call example_measurements newCollector)
     = buildReport 0 1 (fold record_call (rev example_measurements) newCollector)"
  by (rule report_any_interleaving) simp

end
