(* ===== verification/Loadtest.thy ===== *)
theory Loadtest
  imports Load_Report App
begin

text \<open>
  The load generator, \<open>cmd/loadtest/main.go\<close>: flags, scenarios, workers and the exit status.

  \<^item> The gRPC clients are programs of the record \<open>load_client\<close>, over the state \<open>'w\<close> of whatever they reach. A call gets
    the timeout of its context and the idempotency key of its metadata. An answer without an order has \<open>None\<close>.
  \<^item> The flags have been read by the package \<open>flag\<close>; \<open>totalGiven\<close> tells whether \<open>-total\<close> was on the command line.
  \<^item> The scenarios run one after the other, in the order in which they were dispatched, each by the worker that
    takes it. Workers that overlap record the same measurements in another order, which the report does not show
    (\<open>report_any_interleaving\<close>).
  \<^item> How many jobs the timer of a run with a duration lets through is the argument \<open>sends\<close>.
  The printing of the summary is left out.
\<close>

section \<open>Configuration\<close>

datatype loadMode = modeCreate | modeCreatePay | modeCreatePayCancel

record load_config =
  lc_addr :: string
  lc_total :: int
  totalSet :: bool
  lc_duration :: duration
  concurrency :: int
  connections :: int
  lc_timeout :: duration
  lc_mode :: loadMode
  cancelRate :: int
  lc_currency :: string
  lc_sku :: string
  amountMinor :: int
  customerTag :: string
  outputPath :: string

definition defaultAmount :: int where "defaultAmount = 1000"
definition defaultQty :: int where "defaultQty = 1"

definition parseMode :: "string \<Rightarrow> error + loadMode" where
  "parseMode v =
     (if TrimSpace v = ''create'' then Inr modeCreate
      else if TrimSpace v = ''create-pay'' then Inr modeCreatePay
      else if TrimSpace v = ''create-pay-cancel'' then Inr modeCreatePayCancel
      else Inl (Opaque (''unsupported mode: '' @ v)))"

text \<open>The flags that are not parsed further, with their defaults, and the three that are.\<close>

record load_flags =
  flag_cfg :: load_config
  timeoutValue :: string
  durationValue :: string
  modeValue :: string
  totalGiven :: bool

definition default_load_flags :: load_flags where
  "default_load_flags = \<lparr>flag_cfg = \<lparr>lc_addr = ''localhost:50051'', lc_total = 400, totalSet = False, lc_duration = 0,
       concurrency = 40, connections = 20, lc_timeout = 0, lc_mode = modeCreate, cancelRate = 0, lc_currency = ''USD'',
       lc_sku = ''SKU-LOAD'', amountMinor = defaultAmount, customerTag = ''load'', outputPath = []\<rparr>,
     timeoutValue = ''5s'', durationValue = ''0s'', modeValue = ''create'', totalGiven = False\<rparr>"

definition check_config :: "load_config \<Rightarrow> error option" where
  "check_config cfg =
     (if lc_duration cfg < 0 then Some (Opaque ''duration must be >= 0'')
      else if lc_duration cfg = 0 \<and> lc_total cfg \<le> 0 then Some (Opaque ''total must be > 0 when duration is not set'')
      else if lc_duration cfg > 0 \<and> totalSet cfg \<and> lc_total cfg \<le> 0
      then Some (Opaque ''total must be > 0 when explicitly set with duration'')
      else if concurrency cfg \<le> 0 then Some (Opaque ''concurrency must be > 0'')
      else if connections cfg \<le> 0 then Some (Opaque ''connections must be > 0'')
      else if lc_timeout cfg \<le> 0 then Some (Opaque ''timeout must be > 0'')
      else if amountMinor cfg \<le> 0 then Some (Opaque ''amount-minor must be > 0'')
      else if cancelRate cfg < 0 \<or> cancelRate cfg > 100 then Some (Opaque ''cancel-rate must be between 0 and 100'')
      else if TrimSpace (lc_currency cfg) = [] then Some (Opaque ''currency is required'')
      else if TrimSpace (lc_sku cfg) = [] then Some (Opaque ''sku is required'')
      else if TrimSpace (customerTag cfg) = [] then Some (Opaque ''customer-tag is required'')
      else None)"

definition parseConfig :: "load_flags \<Rightarrow> error + load_config" where
  "parseConfig flags =
     (case ParseDuration (TrimSpace (timeoutValue flags)) of
        Inl err \<Rightarrow> Inl (Wrapped ''parse timeout'' err)
      | Inr timeout \<Rightarrow>
     (case ParseDuration (TrimSpace (durationValue flags)) of
        Inl err \<Rightarrow> Inl (Wrapped ''parse duration'' err)
      | Inr dur \<Rightarrow>
     (case parseMode (modeValue flags) of
        Inl err \<Rightarrow> Inl err
      | Inr mode \<Rightarrow>
          let cfg = (flag_cfg flags)\<lparr>lc_timeout := timeout, lc_duration := dur, lc_mode := mode,
                totalSet := totalGiven flags\<rparr>
          in case check_config cfg of Some err \<Rightarrow> Inl err | None \<Rightarrow> Inr cfg)))"

section \<open>Scenarios\<close>

record 'w load_client =
  cli_CreateOrder :: "duration \<Rightarrow> string \<Rightarrow> CreateOrderRequest \<Rightarrow> ('w, rpc_status + pb_Order option) prog"
  cli_PayOrder :: "duration \<Rightarrow> string \<Rightarrow> PayOrderRequest \<Rightarrow> ('w, rpc_status + OrderStatusResponse) prog"
  cli_CancelOrder :: "duration \<Rightarrow> string \<Rightarrow> CancelOrderRequest \<Rightarrow> ('w, rpc_status + OrderStatusResponse) prog"

record 'w load_env =
  load_now :: "('w, gotime) prog"
  Getpid :: int
  os_Create :: "string \<Rightarrow> ('w, error option) prog"
  Encode :: "report \<Rightarrow> ('w, error option) prog"

record 'w load_world =
  lw_col :: collector
  lw_outside :: 'w

definition external :: "('w, 'a) prog \<Rightarrow> ('w load_world, 'a) prog" where
  "external m = State (\<lambda>s. case run_state m (lw_outside s) of (a, w) \<Rightarrow> (a, s\<lparr>lw_outside := w\<rparr>))"

definition col_record :: "string \<Rightarrow> duration \<Rightarrow> rpc_code \<Rightarrow> ('w load_world, unit) prog" where
  "col_record method latency code =
     State (\<lambda>s. ((), s\<lparr>lw_col := record_call \<lparr>m_method = method, m_latency = latency, m_code = code\<rparr> (lw_col s)\<rparr>))"

text \<open>An error of a call has a status; an error that the load test makes itself has none.\<close>

datatype load_error = CallError rpc_status | PlainError string

definition grpcCode :: "load_error option \<Rightarrow> rpc_code" where
  "grpcCode err = (case err of None \<Rightarrow> codes_OK | Some (CallError st) \<Rightarrow> Code st | Some (PlainError _) \<Rightarrow> codes_Unknown)"

definition err_of :: "rpc_status + 'a \<Rightarrow> load_error option" where
  "err_of res = (case res of Inl st \<Rightarrow> Some (CallError st) | Inr _ \<Rightarrow> None)"

text \<open>A call with its measurement, the body that the three functions \<open>callCreateOrder\<close>, \<open>callPayOrder\<close> and
  \<open>callCancelOrder\<close> share.\<close>

definition timed_call :: "'w load_env \<Rightarrow> string \<Rightarrow> ('w, rpc_status + 'a) prog \<Rightarrow> ('w load_world, rpc_status + 'a) prog" where
  "timed_call env method call = do {
     start \<leftarrow> external (load_now env);
     res \<leftarrow> external call;
     t \<leftarrow> external (load_now env);
     col_record method (Sub t start) (grpcCode (err_of res));
     return res
   }"

definition callCreateOrder ::
  "'w load_env \<Rightarrow> 'w load_client \<Rightarrow> duration \<Rightarrow> CreateOrderRequest \<Rightarrow> string \<Rightarrow> ('w load_world, rpc_status + pb_Order option) prog" where
  "callCreateOrder env client timeout req key = timed_call env ''CreateOrder'' (cli_CreateOrder client timeout key req)"

definition callPayOrder ::
  "'w load_env \<Rightarrow> 'w load_client \<Rightarrow> duration \<Rightarrow> string \<Rightarrow> string \<Rightarrow> ('w load_world, load_error option) prog" where
  "callPayOrder env client timeout orderID key = do {
     res \<leftarrow> timed_call env ''PayOrder'' (cli_PayOrder client timeout key \<lparr>pay_OrderId = orderID\<rparr>);
     return (err_of res)
   }"

definition callCancelOrder ::
  "'w load_env \<Rightarrow> 'w load_client \<Rightarrow> duration \<Rightarrow> string \<Rightarrow> string \<Rightarrow> ('w load_world, load_error option) prog" where
  "callCancelOrder env client timeout orderID key = do {
     res \<leftarrow> timed_call env ''CancelOrder''
       (cli_CancelOrder client timeout key \<lparr>cancel_OrderId = orderID, cancel_Reason = ''load-cancel''\<rparr>);
     return (err_of res)
   }"

definition shouldCancelScenario :: "int \<Rightarrow> int \<Rightarrow> bool" where
  "shouldCancelScenario index rate \<longleftrightarrow> (if rate \<le> 0 then False else if rate \<ge> 100 then True else index mod 100 < rate)"

definition load_request :: "load_config \<Rightarrow> int \<Rightarrow> string \<Rightarrow> CreateOrderRequest" where
  "load_request cfg index runID =
     \<lparr>req_CustomerId = customerTag cfg @ ''-'' @ runID @ ''-'' @ int_string index, req_Currency = lc_currency cfg,
      req_Items = [Some \<lparr>pb_Sku = lc_sku cfg, pb_Qty = defaultQty,
         pb_Price = Some \<lparr>pb_MoneyCurrency = lc_currency cfg, pb_AmountMinor = amountMinor cfg\<rparr>\<rparr>]\<rparr>"

definition load_key :: "string \<Rightarrow> string \<Rightarrow> int \<Rightarrow> string" where
  "load_key kind runID index = ''lt-'' @ kind @ ''-'' @ runID @ ''-'' @ int_string index"

text \<open>The scenario between its first and its deferred line: the scenario code and the error.\<close>

definition scenario_body ::
  "'w load_env \<Rightarrow> 'w load_client \<Rightarrow> load_config \<Rightarrow> int \<Rightarrow> string \<Rightarrow> ('w load_world, rpc_code \<times> load_error option) prog" where
  "scenario_body env client cfg index runID = do {
     created \<leftarrow> callCreateOrder env client (lc_timeout cfg) (load_request cfg index runID) (load_key ''create'' runID index);
     (case created of
        Inl st \<Rightarrow> return (grpcCode (Some (CallError st)), Some (CallError st))
      | Inr orderResp \<Rightarrow>
          let orderID = (case orderResp of Some order \<Rightarrow> pb_Id order | None \<Rightarrow> []) in
          if orderID = [] then return (codes_Internal, Some (PlainError ''create response returned empty order id''))
          else if lc_mode cfg = modeCreate then return (codes_OK, None)
          else do {
            err \<leftarrow> callPayOrder env client (lc_timeout cfg) orderID (load_key ''pay'' runID index);
            if err \<noteq> None then return (grpcCode err, err)
            else if lc_mode cfg = modeCreatePayCancel
                \<or> (lc_mode cfg = modeCreatePay \<and> shouldCancelScenario index (cancelRate cfg))
            then do {
              err \<leftarrow> callCancelOrder env client (lc_timeout cfg) orderID (load_key ''cancel'' runID index);
              if err \<noteq> None then return (grpcCode err, err) else return (codes_OK, None)
            }
            else return (codes_OK, None)
          })
   }"

definition runScenario ::
  "'w load_env \<Rightarrow> 'w load_client \<Rightarrow> load_config \<Rightarrow> int \<Rightarrow> string \<Rightarrow> ('w load_world, load_error option) prog" where
  "runScenario env client cfg index runID = do {
     scenarioStart \<leftarrow> external (load_now env);
     (scenarioCode, err) \<leftarrow> scenario_body env client cfg index runID;
     t \<leftarrow> external (load_now env);
     col_record ''scenario'' (Sub t scenarioStart) scenarioCode;
     return err
   }"

section \<open>Jobs and workers\<close>

fun dispatch_loop :: "load_config \<Rightarrow> nat \<Rightarrow> int \<Rightarrow> int list" where
  "dispatch_loop cfg 0 i = []"
| "dispatch_loop cfg (Suc sends) i =
     (if totalSet cfg \<and> i \<ge> lc_total cfg then [] else i # dispatch_loop cfg sends (i + 1))"

definition dispatchJobs :: "load_config \<Rightarrow> nat \<Rightarrow> int list" where
  "dispatchJobs cfg sends = (if lc_duration cfg \<le> 0 then [0..lc_total cfg - 1] else dispatch_loop cfg sends 0)"

text \<open>The worker that takes a job uses its client; the result is the number of scenarios that failed.\<close>

fun run_jobs ::
  "'w load_env \<Rightarrow> (nat \<Rightarrow> 'w load_client) \<Rightarrow> load_config \<Rightarrow> string \<Rightarrow> (int \<Rightarrow> nat) \<Rightarrow> int list \<Rightarrow> ('w load_world, int) prog" where
  "run_jobs env clients cfg runID workerID [] = return 0"
| "run_jobs env clients cfg runID workerID (i # ids) = do {
     runErr \<leftarrow> runScenario env (clients (workerID i mod nat (connections cfg))) cfg i runID;
     failures \<leftarrow> run_jobs env clients cfg runID workerID ids;
     return (if runErr \<noteq> None then failures + 1 else failures)
   }"

section \<open>Output\<close>

fun split_slash :: "string \<Rightarrow> string list" where
  "split_slash [] = [[]]"
| "split_slash (c # cs) =
     (if c = CHR ''/'' then [] # split_slash cs
      else case split_slash cs of chunk # chunks \<Rightarrow> (c # chunk) # chunks | [] \<Rightarrow> [[c]])"

fun join_slash :: "string list \<Rightarrow> string" where
  "join_slash [] = []"
| "join_slash [p] = p"
| "join_slash (p # ps) = p @ ''/'' @ join_slash ps"

text \<open>\<open>filepath.Clean\<close> on Unix.\<close>

definition clean_step :: "bool \<Rightarrow> string \<Rightarrow> string list \<Rightarrow> string list" where
  "clean_step rooted e out =
     (if e = [] \<or> e = ''.'' then out
      else if e = ''..'' then
        (if out \<noteq> [] \<and> last out \<noteq> ''..'' then butlast out else if rooted then out else out @ [''..''])
      else out @ [e])"

definition filepath_Clean :: "string \<Rightarrow> string" where
  "filepath_Clean path =
     (let rooted = prefix ''/'' path;
          out = fold (clean_step rooted) (split_slash path) []
      in if rooted then ''/'' @ join_slash out else if out = [] then ''.'' else join_slash out)"

definition output_path :: "string \<Rightarrow> error + string" where
  "output_path path =
     (let cleanPath = filepath_Clean path in
      if cleanPath = ''.'' \<or> cleanPath = ''/'' then Inl (Opaque ''output path must point to a file'')
      else if cleanPath = ''..'' \<or> prefix ''../'' cleanPath
      then Inl (Opaque (''output path must be inside current directory: '' @ path))
      else Inr cleanPath)"

definition writeJSONReport :: "'w load_env \<Rightarrow> string \<Rightarrow> report \<Rightarrow> ('w, error option) prog" where
  "writeJSONReport env path result =
     (case output_path path of
        Inl err \<Rightarrow> return (Some err)
      | Inr cleanPath \<Rightarrow> do {
          err \<leftarrow> os_Create env cleanPath;
          if err \<noteq> None then return err else Encode env result
        })"

section \<open>The program\<close>

definition load_runID :: "gotime \<Rightarrow> int \<Rightarrow> string" where
  "load_runID startedAt pid = int_string (int64 (startedAt - unix_to_internal * second)) @ ''-'' @ int_string pid"

definition adjust_failures :: "int \<Rightarrow> report \<Rightarrow> report" where
  "adjust_failures failures result =
     (if FailedScenarios result = 0 \<and> failures > 0
      then result\<lparr>FailedScenarios := failures, rep_ErrorRate := ratio failures (TotalScenarios result)\<rparr>
      else result)"

text \<open>The exit status, and the report of a run that was started.\<close>

definition loadtest_main ::
  "'w load_env \<Rightarrow> (nat \<Rightarrow> error option) \<Rightarrow> (nat \<Rightarrow> 'w load_client) \<Rightarrow> (int \<Rightarrow> nat) \<Rightarrow> nat \<Rightarrow> load_flags
     \<Rightarrow> ('w load_world, int \<times> report option) prog" where
  "loadtest_main env dial clients workerID sends flags =
     (case parseConfig flags of
        Inl err \<Rightarrow> return (1, None)
      | Inr cfg \<Rightarrow>
          if list_ex (\<lambda>i. dial i \<noteq> None) [0..<nat (connections cfg)] then return (1, None)
          else do {
            startedAt \<leftarrow> external (load_now env);
            _ \<leftarrow> State (\<lambda>s. ((), s\<lparr>lw_col := newCollector\<rparr>));
            failures \<leftarrow> run_jobs env clients cfg (load_runID startedAt (Getpid env)) workerID (dispatchJobs cfg sends);
            t \<leftarrow> external (load_now env);
            col \<leftarrow> State (\<lambda>s. (lw_col s, s));
            let result = adjust_failures failures (buildReport startedAt (Sub t startedAt) col);
            err \<leftarrow> (if outputPath cfg \<noteq> [] then external (writeJSONReport env (outputPath cfg) result) else return None);
            return (if err \<noteq> None then 1 else if FailedScenarios result > 0 then 1 else 0, Some result)
          })"

end
