(* ===== verification/Loadtest_Properties.thy ===== *)
theory Loadtest_Properties
  imports Loadtest
begin

text \<open>
  What a run of the load test reports: the calls it counts are the calls its scenarios made, and the exit status tells
  whether one of them failed.
\<close>

section \<open>What a program adds to the collector\<close>

definition adds :: "('w load_world, 'a) prog \<Rightarrow> ('a \<Rightarrow> measurement list \<Rightarrow> bool) \<Rightarrow> bool" where
  "adds m Q \<longleftrightarrow> (\<forall>w. \<exists>ms. lw_col (snd (run_state m w)) = fold record_call ms (lw_col w) \<and> Q (fst (run_state m w)) ms)"

lemma adds_if: "(b \<Longrightarrow> adds m Q) \<Longrightarrow> (\<not> b \<Longrightarrow> adds n Q) \<Longrightarrow> adds (if b then m else n) Q"
  by simp

lemma adds_return: "Q a [] \<Longrightarrow> adds (return a) Q"
  by (auto simp: adds_def intro: exI [of _ "[]"])

lemma adds_bind:
  assumes "adds m R" and "\<And>a ms. R a ms \<Longrightarrow> adds (f a) (\<lambda>b ns. Q b (ms @ ns))"
  shows "adds (State_Monad.bind m f) Q"
  unfolding adds_def
proof
  fix w
  obtain ms where ms: "lw_col (snd (run_state m w)) = fold record_call ms (lw_col w)" "R (fst (run_state m w)) ms"
    using assms(1) by (auto simp: adds_def)
  then obtain ns where
    "lw_col (snd (run_state (f (fst (run_state m w))) (snd (run_state m w)))) = fold record_call ns (lw_col (snd (run_state m w)))"
    "Q (fst (run_state (f (fst (run_state m w))) (snd (run_state m w)))) (ms @ ns)"
    using assms(2) unfolding adds_def by blast
  with ms(1) show "\<exists>ks. lw_col (snd (run_state (State_Monad.bind m f) w)) = fold record_call ks (lw_col w)
      \<and> Q (fst (run_state (State_Monad.bind m f) w)) ks"
    by (intro exI [of _ "ms @ ns"]) (simp add: split_def)
qed

lemma adds_post: "adds m R \<Longrightarrow> (\<And>a ms. R a ms \<Longrightarrow> Q a ms) \<Longrightarrow> adds m Q"
  unfolding adds_def by blast

lemma adds_external: "(\<And>w. P (fst (run_state m w))) \<Longrightarrow> adds (external m) (\<lambda>a ms. P a \<and> ms = [])"
  by (auto simp: adds_def external_def split: prod.split intro!: exI [of _ "[]"]) (metis fst_conv)

lemma adds_ask: "adds (external m) (\<lambda>a ms. ms = [])"
  by (rule adds_post [OF adds_external [of "\<lambda>_. True"]]) auto

lemma adds_record: "adds (col_record method latency code) (\<lambda>_ ms. \<exists>m. ms = [m] \<and> m_method m = method \<and> m_code m = code)"
  by (auto simp: adds_def col_record_def intro!: exI [of _ "[m]" for m])

section \<open>Scenarios\<close>

text \<open>An error that a gRPC client returns never has the code of success.\<close>

definition honest_client :: "'w load_client \<Rightarrow> bool" where
  "honest_client c \<longleftrightarrow>
     (\<forall>timeout key req w st. fst (run_state (cli_CreateOrder c timeout key req) w) = Inl st \<longrightarrow> Code st \<noteq> codes_OK)
     \<and> (\<forall>timeout key req w st. fst (run_state (cli_PayOrder c timeout key req) w) = Inl st \<longrightarrow> Code st \<noteq> codes_OK)
     \<and> (\<forall>timeout key req w st. fst (run_state (cli_CancelOrder c timeout key req) w) = Inl st \<longrightarrow> Code st \<noteq> codes_OK)"

definition cancels :: "load_config \<Rightarrow> int \<Rightarrow> bool" where
  "cancels cfg i \<longleftrightarrow> lc_mode cfg = modeCreatePayCancel \<or> lc_mode cfg = modeCreatePay \<and> shouldCancelScenario i (cancelRate cfg)"

abbreviation kinds :: "measurement list \<Rightarrow> (string \<times> rpc_code) list" where
  "kinds ms \<equiv> map (\<lambda>m. (m_method m, m_code m)) ms"

text \<open>The measurements of one scenario, and whether it succeeded.\<close>

inductive scenario_trace :: "load_config \<Rightarrow> int \<Rightarrow> (string \<times> rpc_code) list \<Rightarrow> bool \<Rightarrow> bool" for cfg i where
  create_failed: "c \<noteq> codes_OK \<Longrightarrow> scenario_trace cfg i [(''CreateOrder'', c), (''scenario'', c)] False"
| no_order: "scenario_trace cfg i [(''CreateOrder'', codes_OK), (''scenario'', codes_Internal)] False"
| created: "lc_mode cfg = modeCreate \<Longrightarrow> scenario_trace cfg i [(''CreateOrder'', codes_OK), (''scenario'', codes_OK)] True"
| pay_failed: "lc_mode cfg \<noteq> modeCreate \<Longrightarrow> c \<noteq> codes_OK
    \<Longrightarrow> scenario_trace cfg i [(''CreateOrder'', codes_OK), (''PayOrder'', c), (''scenario'', c)] False"
| paid: "lc_mode cfg \<noteq> modeCreate \<Longrightarrow> \<not> cancels cfg i
    \<Longrightarrow> scenario_trace cfg i [(''CreateOrder'', codes_OK), (''PayOrder'', codes_OK), (''scenario'', codes_OK)] True"
| cancel_failed: "cancels cfg i \<Longrightarrow> c \<noteq> codes_OK
    \<Longrightarrow> scenario_trace cfg i [(''CreateOrder'', codes_OK), (''PayOrder'', codes_OK), (''CancelOrder'', c), (''scenario'', c)] False"
| canceled: "cancels cfg i
    \<Longrightarrow> scenario_trace cfg i [(''CreateOrder'', codes_OK), (''PayOrder'', codes_OK), (''CancelOrder'', codes_OK), (''scenario'', codes_OK)] True"

lemma timed_call_adds:
  assumes "\<And>w st. fst (run_state call w) = Inl st \<Longrightarrow> Code st \<noteq> codes_OK"
  shows "adds (timed_call env method call)
    (\<lambda>res ms. kinds ms = [(method, grpcCode (err_of res))] \<and> (\<forall>st. res = Inl st \<longrightarrow> Code st \<noteq> codes_OK))"
  unfolding timed_call_def
proof (rule adds_bind [OF adds_ask], goal_cases)
  case (1 start ms)
  show ?case
  proof (rule adds_bind [OF adds_external [of "\<lambda>res. \<forall>st. res = Inl st \<longrightarrow> Code st \<noteq> codes_OK"]], goal_cases)
    case 1 show ?case using assms by blast
  next
    case (2 res ns)
    show ?case
      by (rule adds_bind [OF adds_ask], rule adds_bind [OF adds_record], rule adds_return) (use 1 2 in auto)
  qed
qed

lemma pay_adds:
  assumes "honest_client client"
  shows "adds (callPayOrder env client timeout orderID key)
    (\<lambda>err ms. kinds ms = [(''PayOrder'', grpcCode err)] \<and> (err \<noteq> None \<longrightarrow> grpcCode err \<noteq> codes_OK))"
  unfolding callPayOrder_def
  by (rule adds_bind [OF timed_call_adds], use assms in \<open>simp add: honest_client_def; blast\<close>, rule adds_return)
    (auto simp: err_of_def grpcCode_def split: sum.splits)

lemma cancel_adds:
  assumes "honest_client client"
  shows "adds (callCancelOrder env client timeout orderID key)
    (\<lambda>err ms. kinds ms = [(''CancelOrder'', grpcCode err)] \<and> (err \<noteq> None \<longrightarrow> grpcCode err \<noteq> codes_OK))"
  unfolding callCancelOrder_def
  by (rule adds_bind [OF timed_call_adds], use assms in \<open>simp add: honest_client_def; blast\<close>, rule adds_return)
    (auto simp: err_of_def grpcCode_def split: sum.splits)

lemma grpcCode_None [simp]: "grpcCode None = codes_OK"
  by (simp add: grpcCode_def)

lemma scenario_body_adds:
  assumes "honest_client client"
  shows "adds (scenario_body env client cfg i runID)
    (\<lambda>(code, err) ms. scenario_trace cfg i (kinds ms @ [(''scenario'', code)]) (err = None))"
  unfolding scenario_body_def callCreateOrder_def
proof (rule adds_bind [OF timed_call_adds], goal_cases)
  case (1 w st)
  then show ?case using assms by (auto simp: honest_client_def)
next
  case (2 created ms)
  show ?case
  proof (cases created)
    case (Inl st)
    then show ?thesis
      using 2 by (auto simp: err_of_def grpcCode_def intro!: adds_return intro: create_failed)
  next
    case (Inr order)
    then have ms: "kinds ms = [(''CreateOrder'', codes_OK)]" using 2 by (simp add: err_of_def)
    show ?thesis
      unfolding Inr sum.case Let_def
    proof (intro adds_if, goal_cases)
      case 3
      show ?case
      proof (rule adds_bind [OF pay_adds [OF assms]], goal_cases)
        case (1 err ns)
        show ?case
          using 1 3 ms
          by (auto simp flip: cancels_def
              intro!: adds_if adds_return adds_bind [OF cancel_adds [OF assms]] scenario_trace.intros)
      qed
    qed (auto simp: ms intro!: adds_return scenario_trace.intros)
  qed
qed

lemma runScenario_adds:
  assumes "honest_client client"
  shows "adds (runScenario env client cfg i runID) (\<lambda>err ms. scenario_trace cfg i (kinds ms) (err = None))"
  unfolding runScenario_def
proof (rule adds_bind [OF adds_ask], rule adds_bind [OF scenario_body_adds [OF assms]], goal_cases)
  case (1 start ks res ms)
  obtain code err where res: "res = (code, err)" by (cases res)
  show ?case
    unfolding res prod.case
    by (rule adds_bind [OF adds_ask], rule adds_bind [OF adds_record], rule adds_return) (use 1 res in auto)
qed

section \<open>Runs\<close>

abbreviation calls :: "string \<Rightarrow> (string \<times> rpc_code) list \<Rightarrow> nat" where
  "calls name ks \<equiv> length (filter (\<lambda>k. fst k = name) ks)"

abbreviation oks :: "string \<Rightarrow> (string \<times> rpc_code) list \<Rightarrow> nat" where
  "oks name ks \<equiv> length (filter (\<lambda>k. k = (name, codes_OK)) ks)"

text \<open>What the measurements of a run count: every scenario and every attempt to create an order; payments only for created
  and cancellations only for paid orders; each call that fails fails its scenario, and unless a scenario failed all
  calls that were asked for were made and succeeded.\<close>

definition accounts :: "load_config \<Rightarrow> int list \<Rightarrow> (string \<times> rpc_code) list \<Rightarrow> nat \<Rightarrow> bool" where
  "accounts cfg ids ks failures \<longleftrightarrow>
     calls ''scenario'' ks = length ids \<and> calls ''CreateOrder'' ks = length ids
     \<and> oks ''scenario'' ks + failures = length ids
     \<and> calls ''PayOrder'' ks \<le> oks ''CreateOrder'' ks \<and> calls ''CancelOrder'' ks \<le> oks ''PayOrder'' ks
     \<and> calls ''CreateOrder'' ks + calls ''PayOrder'' ks + calls ''CancelOrder'' ks
         \<le> oks ''CreateOrder'' ks + oks ''PayOrder'' ks + oks ''CancelOrder'' ks + failures
     \<and> (failures = 0 \<longrightarrow> oks ''CreateOrder'' ks = length ids
          \<and> calls ''PayOrder'' ks = (if lc_mode cfg = modeCreate then 0 else length ids) \<and> oks ''PayOrder'' ks = calls ''PayOrder'' ks
          \<and> calls ''CancelOrder'' ks = length (filter (cancels cfg) ids) \<and> oks ''CancelOrder'' ks = calls ''CancelOrder'' ks)"

lemma accounts_Cons:
  assumes "scenario_trace cfg i ks ok" and "accounts cfg ids ks' failures"
  shows "accounts cfg (i # ids) (ks @ ks') (if ok then failures else Suc failures)"
  using assms by cases (auto simp: accounts_def cancels_def)

definition calls_of :: "string \<Rightarrow> report \<Rightarrow> int" where
  "calls_of name r = (case Methods r name of Some m \<Rightarrow> Calls m | None \<Rightarrow> 0)"

definition success_of :: "string \<Rightarrow> report \<Rightarrow> int" where
  "success_of name r = (case Methods r name of Some m \<Rightarrow> Success m | None \<Rightarrow> 0)"

lemma calls_kinds: "calls name (kinds ms) = length (of_method name ms)"
  and ok_kinds: "oks name (kinds ms) = length (filter (\<lambda>m. m_code m = codes_OK) (of_method name ms))"
  by (simp_all add: filter_map comp_def conj_commute)

lemma report_counts:
  fixes startedAt dur ms defines "r \<equiv> buildReport startedAt dur (fold record_call ms newCollector)"
  shows "calls_of name r = int (calls name (kinds ms))"
    and "success_of name r = int (oks name (kinds ms))"
    and "TotalScenarios r = int (calls ''scenario'' (kinds ms))"
    and "SuccessScenarios r = int (oks ''scenario'' (kinds ms))"
    and "SuccessScenarios r + FailedScenarios r = TotalScenarios r"
  using sum_length_filter_compl [of "\<lambda>m. m_code m = codes_OK" "of_method ''scenario'' ms"]
  unfolding r_def calls_kinds ok_kinds
  by (simp_all add: calls_of_def success_of_def buildReport_def snapshot_def collected method_report_def stats_of_counts Let_def
      flip: of_nat_add)
    (auto simp: filter_empty_conv)

text \<open>What the load test relies on of the order service it reaches: errors of its clients are errors.\<close>

locale order_api =
  fixes clients :: "nat \<Rightarrow> 'w load_client"
  assumes honest: "honest_client (clients k)"
begin

lemma run_jobs_adds:
  "adds (run_jobs env clients cfg runID workerID ids)
    (\<lambda>failures ms. 0 \<le> failures \<and> accounts cfg ids (kinds ms) (nat failures))"
proof (induction ids)
  case Nil
  then show ?case by (auto simp: accounts_def intro: adds_return)
next
  case (Cons i ids)
  show ?case
    unfolding run_jobs.simps
  proof (rule adds_bind [OF runScenario_adds [OF honest]], rule adds_bind [OF Cons.IH], rule adds_return, goal_cases)
    case (1 runErr ms failures ns)
    then show ?case using accounts_Cons [OF 1(1), of ids "kinds ns" "nat failures"] by (auto simp: nat_add_distrib)
  qed
qed

lemma main_run:
  assumes "run_state (loadtest_main env dial clients workerID sends flags) w = ((code, Some r), w')"
  obtains cfg startedAt dur ms failures where "parseConfig flags = Inr cfg" and "0 \<le> failures"
    and "accounts cfg (dispatchJobs cfg sends) (kinds ms) (nat failures)"
    and "r = adjust_failures failures (buildReport startedAt dur (fold record_call ms newCollector))"
    and "code = 0 \<longrightarrow> FailedScenarios r \<le> 0" and "outputPath cfg = [] \<and> FailedScenarios r \<le> 0 \<longrightarrow> code = 0"
proof -
  obtain cfg where cfg: "parseConfig flags = Inr cfg" "\<not> list_ex (\<lambda>i. dial i \<noteq> None) [0..<nat (connections cfg)]"
    using assms by (auto simp: loadtest_main_def split: sum.splits if_splits)
  define runID where "runID = load_runID (fst (run_state (external (load_now env)) w)) (Getpid env)"
  define w1 where "w1 = (snd (run_state (external (load_now env)) w))\<lparr>lw_col := newCollector\<rparr>"
  let ?jobs = "run_jobs env clients cfg runID workerID (dispatchJobs cfg sends)"
  obtain ms where ms: "lw_col (snd (run_state ?jobs w1)) = fold record_call ms newCollector"
      "0 \<le> fst (run_state ?jobs w1)" "accounts cfg (dispatchJobs cfg sends) (kinds ms) (nat (fst (run_state ?jobs w1)))"
  proof -
    have "lw_col w1 = newCollector" by (simp add: w1_def)
    then show ?thesis
      using run_jobs_adds [of env cfg runID workerID "dispatchJobs cfg sends"] that
      unfolding adds_def by metis
  qed
  obtain t w3 where t: "run_state (external (load_now env)) (snd (run_state ?jobs w1)) = (t, w3)" by (cases "run_state (external (load_now env)) (snd (run_state ?jobs w1))")
  have col: "lw_col w3 = fold record_call ms newCollector"
    using t ms(1) by (auto simp: external_def split: prod.splits)
  show thesis
    by (rule that [OF cfg(1) ms(2,3), where startedAt = "fst (run_state (external (load_now env)) w)" and dur = "Sub t (fst (run_state (external (load_now env)) w))"])
      (use assms cfg t col in \<open>auto simp: loadtest_main_def split_def Let_def w1_def [symmetric] runID_def [symmetric] split: if_splits\<close>)
qed

end

text \<open>C30. The report of a load test accounts for every scenario that was dispatched: each is counted once, as a success or
  as a failure; orders are created for each, paid only after they were created and canceled only after they were paid.
  Every call that failed, the last of its scenario as well, makes a scenario fail. The exit status is 0 exactly when no
  scenario failed (and the report could be written); then every order was created, and every payment and every
  cancellation that the mode asks for was made, and all these calls succeeded. An error that a client returns has
  another code than success.\<close>

theorem load_report_accounts:
  assumes "run_state (loadtest_main env dial clients workerID sends flags) w = ((code, Some r), w')"
    and "\<And>k. honest_client (clients k)"
  shows "\<exists>cfg ids. parseConfig flags = Inr cfg \<and> ids = dispatchJobs cfg sends
     \<and> TotalScenarios r = int (length ids) \<and> SuccessScenarios r + FailedScenarios r = int (length ids)
     \<and> calls_of ''CreateOrder'' r = int (length ids)
     \<and> calls_of ''PayOrder'' r \<le> success_of ''CreateOrder'' r \<and> calls_of ''CancelOrder'' r \<le> success_of ''PayOrder'' r
     \<and> (calls_of ''CreateOrder'' r - success_of ''CreateOrder'' r) + (calls_of ''PayOrder'' r - success_of ''PayOrder'' r)
         + (calls_of ''CancelOrder'' r - success_of ''CancelOrder'' r) \<le> FailedScenarios r
     \<and> (code = 0 \<longrightarrow> FailedScenarios r = 0 \<and> success_of ''CreateOrder'' r = int (length ids)
          \<and> calls_of ''PayOrder'' r = (if lc_mode cfg = modeCreate then 0 else int (length ids))
          \<and> success_of ''PayOrder'' r = calls_of ''PayOrder'' r
          \<and> calls_of ''CancelOrder'' r = int (length (filter (cancels cfg) ids))
          \<and> success_of ''CancelOrder'' r = calls_of ''CancelOrder'' r)
     \<and> (FailedScenarios r = 0 \<and> outputPath cfg = [] \<longrightarrow> code = 0)"
proof -
  obtain cfg startedAt dur ms failures where run: "parseConfig flags = Inr cfg" "0 \<le> failures"
      "accounts cfg (dispatchJobs cfg sends) (kinds ms) (nat failures)"
      "r = adjust_failures failures (buildReport startedAt dur (fold record_call ms newCollector))"
      "code = 0 \<longrightarrow> FailedScenarios r \<le> 0" "outputPath cfg = [] \<and> FailedScenarios r \<le> 0 \<longrightarrow> code = 0"
    by (rule order_api.main_run [OF order_api.intro [OF assms(2)] assms(1)]) blast
  note counts = report_counts [where startedAt = startedAt and dur = dur and ms = ms]
  have failed: "FailedScenarios (buildReport startedAt dur (fold record_call ms newCollector)) = failures"
    using counts(3-5) run(2,3) by (auto simp: accounts_def)
  then have r: "r = buildReport startedAt dur (fold record_call ms newCollector)"
    using run(4) by (auto simp: adjust_failures_def)
  show ?thesis
    using run(1,2,3,5,6) failed counts by (intro exI [of _ cfg] exI conjI [OF run(1)] conjI [OF refl]) (auto simp: accounts_def simp flip: r)
qed

definition example_client :: "unit load_client" where
  "example_client = \<lparr>cli_CreateOrder = (\<lambda>_ key req. return (Inr (Some \<lparr>pb_Id = key, pb_OrderCustomerId = req_CustomerId req,
       pb_Status = ORDER_STATUS_PENDING, pb_Amount = \<lparr>pb_MoneyCurrency = ''USD'', pb_AmountMinor = 1000\<rparr>, pb_OrderItems = [],
       pb_Version = 1, pb_OrderCurrency = ''USD''\<rparr>))),
     cli_PayOrder = (\<lambda>_ _ req. return (Inr \<lparr>resp_OrderId = pay_OrderId req, resp_Status = ORDER_STATUS_PENDING\<rparr>)),
     cli_CancelOrder = (\<lambda>_ _ req. return (Inr \<lparr>resp_OrderId = cancel_OrderId req, resp_Status = ORDER_STATUS_CANCELED\<rparr>))\<rparr>"

definition example_load_env :: "unit load_env" where
  "example_load_env = \<lparr>load_now = return 5, Getpid = 7, os_Create = (\<lambda>_. return None), Encode = (\<lambda>_. return None)\<rparr>"

definition example_load_flags :: load_flags where
  "example_load_flags = default_load_flags\<lparr>flag_cfg := (flag_cfg default_load_flags)\<lparr>lc_total := 3, cancelRate := 2\<rparr>,
     modeValue := ''create-pay'', totalGiven := True\<rparr>"

definition example_load :: "(unit load_world, int \<times> report option) prog" where
  "example_load = loadtest_main example_load_env (\<lambda>_. None) (\<lambda>_. example_client) (\<lambda>i. nat i) 0 example_load_flags"

definition example_load_config :: load_config where
  "example_load_config = (flag_cfg example_load_flags)\<lparr>lc_timeout := 5000 * millisecond, lc_mode := modeCreatePay, totalSet := True\<rparr>"

lemma example_load_parsed: "parseConfig example_load_flags = Inr example_load_config" "length (dispatchJobs example_load_config 0) = 3"
  by code_simp+

theorem load_report_accounts_witness:
  "\<exists>code r w'. run_state example_load \<lparr>lw_col = newCollector, lw_outside = ()\<rparr> = ((code, Some r), w')
     \<and> TotalScenarios r = 3 \<and> SuccessScenarios r + FailedScenarios r = 3 \<and> calls_of ''CreateOrder'' r = 3"
proof -
  obtain code r w' where run: "run_state example_load \<lparr>lw_col = newCollector, lw_outside = ()\<rparr> = ((code, Some r), w')"
    by (cases "run_state example_load \<lparr>lw_col = newCollector, lw_outside = ()\<rparr>")
      (auto simp: example_load_def loadtest_main_def example_load_parsed list_ex_iff split_def Let_def)
  have "honest_client example_client" by (simp add: honest_client_def example_client_def)
  then show ?thesis
    using load_report_accounts [OF run [unfolded example_load_def]] run example_load_parsed by auto
qed

text \<open>In a run with a cancel rate, of every hundred scenarios in a row exactly that many cancel their order.\<close>

theorem cancel_rate_exact:
  assumes "0 \<le> rate" and "rate \<le> 100" and "0 \<le> k"
  shows "length (filter (\<lambda>i. shouldCancelScenario i rate) [k..k + 99]) = nat rate"
proof -
  have "length (filter (\<lambda>i. shouldCancelScenario i rate) [k..k + 99]) = card {i \<in> {k..k + 99}. i mod 100 < rate}"
    using assms by (subst distinct_card [symmetric]) (auto simp: shouldCancelScenario_def intro!: arg_cong [of _ _ card])
  moreover have "bij_betw (\<lambda>i. i mod 100) {i \<in> {k..k + 99}. i mod 100 < rate} {0..<rate}"
  proof (rule bij_betw_byWitness [where f' = "\<lambda>j. k + (j - k) mod 100"])
    have "k + (i mod 100 - k) mod 100 = i" if "k \<le> i" "i \<le> k + 99" for i
    proof -
      have "(i mod 100 - k) mod 100 = (i - k) mod 100" by (simp add: mod_simps)
      then show ?thesis using that by simp
    qed
    then show "\<forall>i \<in> {i \<in> {k..k + 99}. i mod 100 < rate}. k + (i mod 100 - k) mod 100 = i" by simp
    have inverse: "(k + (j - k) mod 100) mod 100 = j" if "0 \<le> j" "j < rate" for j
      using that assms(2) by (simp add: mod_simps)
    then show "\<forall>j \<in> {0..<rate}. (k + (j - k) mod 100) mod 100 = j" by simp
    show "(\<lambda>j. k + (j - k) mod 100) ` {0..<rate} \<subseteq> {i \<in> {k..k + 99}. i mod 100 < rate}"
      using inverse by auto
  qed auto
  ultimately show ?thesis by (simp add: bij_betw_same_card)
qed

theorem cancel_rate_exact_witness:
  "length (filter (\<lambda>i. shouldCancelScenario i 30) [250..250 + 99]) = nat 30"
  using cancel_rate_exact [of 30 250] by simp

section \<open>The path of the report\<close>

lemma split_join: "out \<noteq> [] \<Longrightarrow> (\<And>e. e \<in> set out \<Longrightarrow> CHR ''/'' \<notin> set e) \<Longrightarrow> split_slash (join_slash out) = out"
proof (induction out rule: join_slash.induct)
  case (2 p)
  then have "CHR ''/'' \<notin> set p" by simp
  then show ?case by (induction p) auto
next
  case (3 p q ps)
  then have "split_slash (join_slash (q # ps)) = q # ps" and "CHR ''/'' \<notin> set p" by auto
  then have "split_slash (p @ CHR ''/'' # join_slash (q # ps)) = p # q # ps" by (induction p) auto
  then show ?case by simp
qed simp

lemma split_no_slash: "e \<in> set (split_slash s) \<Longrightarrow> CHR ''/'' \<notin> set e"
  by (induction s arbitrary: e) (auto split: if_splits list.splits)

definition climbs_first :: "bool \<Rightarrow> string list \<Rightarrow> bool" where
  "climbs_first rooted out \<longleftrightarrow> (\<forall>e \<in> set out. e \<noteq> [] \<and> CHR ''/'' \<notin> set e) \<and> (''..'' \<in> set out \<longrightarrow> \<not> rooted \<and> hd out = ''..'')"

lemma clean_step_climbs:
  assumes "climbs_first rooted out" and "CHR ''/'' \<notin> set e"
  shows "climbs_first rooted (clean_step rooted e out)"
proof -
  have "hd (butlast out) = hd out" if "x \<in> set (butlast out)" for x using that by (cases out) (auto split: if_splits)
  moreover have "''..'' \<in> set out" if "out \<noteq> []" "last out = ''..''" using that by (metis last_in_set)
  ultimately show ?thesis
    using assms by (cases "out = []") (auto simp: climbs_first_def clean_step_def dest: in_set_butlastD)
qed

lemma clean_climbs: "climbs_first rooted (fold (clean_step rooted) es out)"
  if "climbs_first rooted out" and "\<And>e. e \<in> set es \<Longrightarrow> CHR ''/'' \<notin> set e"
  using that by (induction es arbitrary: out) (simp_all add: clean_step_climbs)

lemma join_prefix: "join_slash (e # es) = (if es = [] then e else e @ ''/'' @ join_slash es)"
  by (cases es) auto

text \<open>A path that \<open>writeJSONReport\<close> accepts climbs nowhere: the file it creates has no element \<open>..\<close> in its path, and the
  path is relative to the current directory exactly if the one that was given is.\<close>

theorem output_path_climbs_nowhere:
  assumes "output_path path = Inr p"
  shows "''..'' \<notin> set (split_slash p) \<and> (prefix ''/'' p \<longleftrightarrow> prefix ''/'' path)"
proof -
  define rooted out where "rooted = prefix ''/'' path" and "out = fold (clean_step rooted) (split_slash path) []"
  have ok: "climbs_first rooted out"
    unfolding out_def by (rule clean_climbs) (auto simp: climbs_first_def split_no_slash)
  have p: "p = (if rooted then ''/'' @ join_slash out else if out = [] then ''.'' else join_slash out)"
      "p \<noteq> ''.''" "p \<noteq> ''/''" "p \<noteq> ''..''" "\<not> prefix ''../'' p"
    using assms by (auto simp: output_path_def filepath_Clean_def Let_def rooted_def out_def split: if_splits)
  then obtain e es where out: "out = e # es" by (cases out) (auto split: if_splits)
  have split: "split_slash (join_slash out) = out" using ok out by (intro split_join) (auto simp: climbs_first_def)
  show ?thesis
  proof (cases rooted)
    case True
    then show ?thesis using p(1) split ok by (auto simp: climbs_first_def rooted_def)
  next
    case False
    then have "e \<noteq> ''..''" using p out by (auto simp: join_prefix split: if_splits)
    moreover have "e \<noteq> []" "CHR ''/'' \<notin> set e" using ok out by (auto simp: climbs_first_def)
    ultimately have "''..'' \<notin> set out" and "\<not> prefix ''/'' (join_slash out)"
      using ok out by (auto simp: climbs_first_def join_prefix prefix_def Cons_eq_append_conv neq_Nil_conv)
    then show ?thesis using False p(1) split out by (simp add: rooted_def)
  qed
qed

theorem output_path_climbs_nowhere_witness:
  "output_path ''reports/../out//load.json'' = Inr ''out/load.json'' \<and> ''..'' \<notin> set (split_slash ''out/load.json'')"
  using output_path_climbs_nowhere [of "''reports/../out//load.json''" "''out/load.json''"] by code_simp

lemma absolute_path_accepted: "output_path ''/etc/load.json'' = Inr ''/etc/load.json''"
  by code_simp

end
