(* ===== verification/Load_Composition.thy ===== *)
theory Load_Composition
  imports Loadtest_Properties Order_Service_Properties
begin

text \<open>
  The load test against the order service: its clients reach the handlers of \<open>Grpc_Order\<close> over the memory repositories.
  The metadata that a client attaches arrives as the incoming metadata of the call. The idempotency keys of a run
  differ from each other, so that no scenario is answered with the order of another.
\<close>

section \<open>Keys\<close>

definition digits_value :: "string \<Rightarrow> nat" where
  "digits_value s = foldl (\<lambda>n c. n * 10 + (of_char c - 48)) 0 s"

lemma digits_value: "digits_value (digits n) = n"
proof (induction n rule: digits.induct)
  case (1 n)
  have c: "of_char (char_of (48 + k) :: char) = 48 + k" if "k < 10" for k :: nat
    using that by (simp add: of_char_of)
  show ?case
  proof (cases "n < 10")
    case True
    then show ?thesis using c [of n] by (simp add: digits.simps [of n] digits_value_def)
  next
    case False
    then show ?thesis using 1 c [of "n mod 10"] by (simp add: digits.simps [of n] digits_value_def)
  qed
qed

lemma int_string_inj: "0 \<le> i \<Longrightarrow> 0 \<le> j \<Longrightarrow> int_string i = int_string j \<longleftrightarrow> i = j"
  by (auto simp: int_string_def) (metis digits_value eq_nat_nat_iff)

lemma load_key_inj: "0 \<le> i \<Longrightarrow> 0 \<le> j \<Longrightarrow> load_key kind runID i = load_key kind runID j \<longleftrightarrow> i = j"
  by (simp add: load_key_def int_string_inj)

lemma TrimSpace_ends:
  assumes "s \<noteq> []" and "\<And>p. p \<in> set space_runes \<Longrightarrow> hd p \<noteq> hd s \<and> last p \<noteq> last s"
  shows "TrimSpace s = s"
proof -
  have ne: "p \<noteq> []" if "p \<in> set space_runes" for p using hex_no_space [OF that] by blast
  have "\<not> prefix p s" if "p \<in> set space_runes" for p
    using assms(2) [OF that] ne [OF that] by (cases p) (auto simp: prefix_def)
  then have "strip space_runes s = s" by (intro strip_fixed)
  moreover have "\<not> prefix (rev p) (rev s)" if "p \<in> set space_runes" for p
    using assms(2) [OF that] ne [OF that] by (auto simp: suffix_to_prefix [symmetric] suffix_def)
  then have "strip (map rev space_runes) (rev s) = rev s" by (intro strip_fixed) auto
  ultimately show ?thesis by (simp add: TrimSpace_def)
qed

lemma load_key_trimmed: "TrimSpace (load_key kind runID i) = load_key kind runID i" if "0 \<le> i"
proof (rule TrimSpace_ends)
  fix p assume p: "p \<in> set space_runes"
  have "dec_digit (last (digits (nat i)))" using digits_shape [of "nat i"] by (simp add: list_all_iff)
  moreover have "last (load_key kind runID i) = last (digits (nat i))"
    using that digits_shape [of "nat i"] by (simp add: load_key_def int_string_def)
  moreover have "\<not> dec_digit (last p)" "hd p \<noteq> CHR ''l''" using p by (auto simp: space_runes_def in_range_def)
  ultimately show "hd p \<noteq> hd (load_key kind runID i) \<and> last p \<noteq> last (load_key kind runID i)"
    by (auto simp: load_key_def)
qed (simp add: load_key_def)

section \<open>The service as a client sees it\<close>

definition call_with :: "string \<Rightarrow> call_ctx" where
  "call_with key = \<lparr>md_incoming = Some [key], md_outgoing = None\<rparr>"

definition service_client ::
  "'w order_service \<Rightarrow> (CreateOrderRequest, pb_Order) codec \<Rightarrow> (PayOrderRequest, OrderStatusResponse) codec
     \<Rightarrow> (CancelOrderRequest, OrderStatusResponse) codec \<Rightarrow> 'w load_client" where
  "service_client s cd cd_pay cd_cancel =
     \<lparr>cli_CreateOrder = (\<lambda>_ key req. do { res \<leftarrow> CreateOrder s cd (call_with key) (Some req); return (map_sum id Some res) }),
      cli_PayOrder = (\<lambda>_ key req. PayOrder s cd_pay (call_with key) (Some req)),
      cli_CancelOrder = (\<lambda>_ key req. CancelOrder s cd_cancel (call_with key) (Some req))\<rparr>"

lemma proper_code: "proper m \<Longrightarrow> fst (run_state m w) = Inl st \<Longrightarrow> Code st \<noteq> codes_OK"
  using proper_run [of m w st "snd (run_state m w)"] by (simp add: proper_status_def prod_eq_iff)

lemma service_client_honest: "honest_client (service_client s cd cd_pay cd_cancel)"
proof -
  have c: "proper (CreateOrder s cd ctx (Some req))" for ctx req
    by (simp add: CreateOrder_def proper_withIdempotency proper_handlers)
  have p: "proper (PayOrder s cd_pay ctx (Some req))" for ctx req
    by (simp add: PayOrder_def proper_withIdempotency proper_handlers order_id_required_def)
  have x: "proper (CancelOrder s cd_cancel ctx (Some req))" for ctx req
    by (simp add: CancelOrder_def proper_withIdempotency proper_handlers order_id_required_def)
  have "res = Inl st" if "map_sum id Some res = Inl st" for res :: "rpc_status + pb_Order" and st
    using that by (cases res) auto
  then show ?thesis
    using proper_code [OF c] proper_code [OF p] proper_code [OF x]
    unfolding honest_client_def service_client_def by (auto simp: split_def; blast)
qed

interpretation service: order_api "\<lambda>_. service_client s cd cd_pay cd_cancel"
  by unfold_locales (rule service_client_honest)

section \<open>One order\<close>

text \<open>What a new order leaves: the identifiers that the service hands out next are not in use, and its clock has started.\<close>

definition fresh_ids :: "(nat \<Rightarrow> string) \<Rightarrow> svc_world \<Rightarrow> bool" where
  "fresh_ids newid w \<longleftrightarrow> (\<forall>k \<ge> g_uuids w. g_orders w (newid k) = None) \<and> 0 < g_clock w"

definition one_order_more :: "CreateOrderRequest \<Rightarrow> svc_world \<Rightarrow> svc_world \<Rightarrow> string \<Rightarrow> bool" where
  "one_order_more req w w' i \<longleftrightarrow> g_orders w i = None
     \<and> (\<exists>order. g_orders w' = (g_orders w)(i \<mapsto> order) \<and> CustomerID order = req_CustomerId req \<and> Status order = OrderStatusPending)"

lemma cached:
  assumes "trimmed k"
  shows "\<exists>e I t. run_state (cacheIdempotencySuccess (NewOrderService newid ord waited b) cd k resp) w = (e, w\<lparr>g_idem := I, g_clock := t\<rparr>)
    \<and> (\<forall>k'. k' \<noteq> k \<longrightarrow> I k' = g_idem w k') \<and> g_clock w \<le> t"
proof (cases "protojson_Marshal cd resp")
  case (Inl e)
  then show ?thesis
    by (intro exI [of _ "Some e"] exI [of _ "g_idem w"] exI [of _ "g_clock w"]) (simp add: cacheIdempotencySuccess_def)
next
  case (Inr data)
  then show ?thesis
    using assms
    by (cases "g_idem w k")
      (auto simp: cacheIdempotencySuccess_def NewOrderService_def with_idem_def idem_MarkDone_def idem_markStatus_def trimmed_def
        Let_def fun_upd_def intro!: exI)
qed

lemma CreateOrder_stores:
  assumes "hashes cd req" and "readIdempotencyKey ctx = Inr k" and "g_idem w k = None" and "acceptable req"
    and "fresh_ids newid w" and "inj newid"
  shows "\<exists>pb w'. run_state (CreateOrder (NewOrderService newid ord waited b) cd ctx (Some req)) w = (Inr pb, w')
    \<and> one_order_more req w w' (pb_Id pb) \<and> pb_Id pb \<in> range newid \<and> fresh_ids newid w'
    \<and> (\<forall>k'. k' \<noteq> k \<longrightarrow> g_idem w' k' = g_idem w k')"
proof -
  let ?s = "NewOrderService newid ord waited b"
  obtain h where h: "buildIdempotencyRequestHash cd grpcMethodCreateOrder req = Inr h" "trimmed h"
    using hashes_hash [OF assms(1)] .
  have k: "trimmed k" by (rule readIdempotencyKey_trimmed [OF assms(2)])
  obtain rec where rec: "idem_CreateProcessing (g_clock w + 1) k h (g_clock w + idempotencyTTL) (g_idem w) =
      ((rec, None), (g_idem w)(k \<mapsto> rec))"
    using create_new [of k h "g_idem w" "g_clock w + 1"] k h(2) assms(3) by (auto simp: trimmed_def)
  define w1 where "w1 = w\<lparr>g_idem := (g_idem w)(k \<mapsto> rec), g_clock := 2 + g_clock w\<rparr>"
  let ?o = "built_order newid w1 req"
  let ?w2 = "stored_order ?o (w1\<lparr>g_clock := g_clock w1 + 1, g_uuids := Suc (g_uuids w1 + length (req_Items req))\<rparr>)"
  have new: "g_orders w1 (ID ?o) = None" "\<not> IsZero (g_clock w1)"
    using assms(5) by (simp_all add: fresh_ids_def w1_def built_order_def IsZero_def)
  note created = createOrder_accepts [OF assms(4) new, of ord waited b]
  have more: "g_orders ?w2 = (g_orders w)(ID ?o \<mapsto> ?o)" "g_idem ?w2 = (g_idem w)(k \<mapsto> rec)"
      "g_uuids ?w2 = Suc (g_uuids w + length (req_Items req))" "g_clock ?w2 = g_clock w + 3"
      "ID ?o = newid (g_uuids w + length (req_Items req))" "CustomerID ?o = req_CustomerId req" "Status ?o = OrderStatusPending"
    by (simp_all add: stored_order_def w1_def built_order_def)
  obtain e I t where cache: "run_state (cacheIdempotencySuccess ?s cd k (toProtoOrder ?o)) ?w2 = (e, ?w2\<lparr>g_idem := I, g_clock := t\<rparr>)"
      "\<forall>k'. k' \<noteq> k \<longrightarrow> I k' = g_idem ?w2 k'" "g_clock ?w2 \<le> t"
    using cached [OF k, of newid ord waited b cd "toProtoOrder ?o" ?w2] by blast
  have "has_idemRepo ?s" and "run_state (repo_CreateProcessing ?s k h (g_clock w + idempotencyTTL)) (w\<lparr>g_clock := g_clock w + 1\<rparr>) = ((rec, None), w1)"
    using rec by (simp_all add: NewOrderService_def with_idem_def w1_def)
  then have "run_state (CreateOrder ?s cd ctx (Some req)) w = (Inr (toProtoOrder ?o), ?w2\<lparr>g_idem := I, g_clock := t\<rparr>)"
    using assms(2) h(1) created cache(1) by (simp add: CreateOrder_def withIdempotency_def g_now_def)
  moreover have "fresh_ids newid (?w2\<lparr>g_idem := I, g_clock := t\<rparr>)"
    using assms(5,6) cache(3) more(3-5) by (auto simp: fresh_ids_def more(1) inj_eq)
  moreover have "pb_Id (toProtoOrder ?o) = ID ?o" by (simp add: toProtoOrder_def)
  moreover have "one_order_more req w (?w2\<lparr>g_idem := I, g_clock := t\<rparr>) (ID ?o)"
    using new(1) more(6,7) by (auto simp: one_order_more_def more(1)) (simp add: w1_def)
  ultimately show ?thesis using cache(2) more(2,5) by auto
qed

section \<open>A run\<close>

text \<open>What a run of scenarios leaves: the old orders, and as many new ones, all pending.\<close>

definition orders_more :: "nat \<Rightarrow> svc_world \<Rightarrow> svc_world \<Rightarrow> bool" where
  "orders_more n w w' \<longleftrightarrow> g_orders w \<subseteq>\<^sub>m g_orders w' \<and> card (dom (g_orders w') - dom (g_orders w)) = n
     \<and> finite (dom (g_orders w') - dom (g_orders w))
     \<and> (\<forall>i order. g_orders w' i = Some order \<and> g_orders w i = None \<longrightarrow> Status order = OrderStatusPending)"

lemma orders_more_Suc:
  assumes "one_order_more req w w1 i" and "orders_more n w1 w2"
  shows "orders_more (Suc n) w w2"
proof -
  obtain order where w1: "g_orders w1 = (g_orders w)(i \<mapsto> order)" "g_orders w i = None" "Status order = OrderStatusPending"
    using assms(1) by (auto simp: one_order_more_def)
  have sub: "g_orders w1 \<subseteq>\<^sub>m g_orders w2" using assms(2) by (simp add: orders_more_def)
  then have at_i: "g_orders w2 i = Some order" using w1(1) by (metis domI fun_upd_same map_le_def)
  have "g_orders w \<subseteq>\<^sub>m g_orders w1" using w1(1,2) by (auto simp: map_le_def)
  then have le: "g_orders w \<subseteq>\<^sub>m g_orders w2" using sub by (rule map_le_trans)
  have new: "dom (g_orders w2) - dom (g_orders w) = insert i (dom (g_orders w2) - dom (g_orders w1))"
    using w1(1,2) at_i by auto
  show ?thesis
    unfolding orders_more_def new using le assms(2) w1 at_i
    by (auto simp: orders_more_def split: if_splits) (metis option.distinct(1) option.inject)
qed

lemma load_request_acceptable:
  assumes "check_config cfg = None" and "in_int64 (amountMinor cfg)"
  shows "acceptable (load_request cfg i runID)"
proof -
  have "lc_currency cfg \<noteq> []" "0 < amountMinor cfg"
    using assms(1) by (auto simp: check_config_def split: if_splits)
  then show ?thesis
    using assms(2)
    by (simp add: acceptable_def acceptable_item_def requested_total_def load_request_def defaultQty_def)
qed

lemma scenario_stores:
  fixes newid ord waited b cd cd_pay cd_cancel
  defines "client \<equiv> service_client (NewOrderService newid ord waited b) cd cd_pay cd_cancel"
  assumes "load_now env = g_now" and "lc_mode cfg = modeCreate" and "check_config cfg = None" and "in_int64 (amountMinor cfg)"
    and "\<And>req. hashes cd req" and "inj newid" and "[] \<notin> range newid" and "0 \<le> i"
    and "g_idem (lw_outside s) (load_key ''create'' runID i) = None" and "fresh_ids newid (lw_outside s)"
  shows "\<exists>s' req j. run_state (runScenario env client cfg i runID) s = (None, s')
    \<and> one_order_more req (lw_outside s) (lw_outside s') j \<and> fresh_ids newid (lw_outside s')
    \<and> (\<forall>k. k \<noteq> load_key ''create'' runID i \<longrightarrow> g_idem (lw_outside s') k = g_idem (lw_outside s) k)"
proof -
  let ?key = "load_key ''create'' runID i" and ?req = "load_request cfg i runID"
  define w where "w = (lw_outside s)\<lparr>g_clock := 2 + g_clock (lw_outside s)\<rparr>"
  have key: "readIdempotencyKey (call_with ?key) = Inr ?key"
    using load_key_trimmed [OF assms(9)] by (simp add: readIdempotencyKey_def header_value_def call_with_def) (simp add: load_key_def)
  obtain pb w' where run: "run_state (CreateOrder (NewOrderService newid ord waited b) cd (call_with ?key) (Some ?req)) w = (Inr pb, w')"
      "one_order_more ?req w w' (pb_Id pb)" "pb_Id pb \<in> range newid" "fresh_ids newid w'" "\<forall>k. k \<noteq> ?key \<longrightarrow> g_idem w' k = g_idem w k"
    using CreateOrder_stores [OF assms(6) [of ?req] key, of w newid ord waited b] load_request_acceptable [OF assms(4,5)] assms(7,10,11)
    by (auto simp: w_def fresh_ids_def)
  have "pb_Id pb \<noteq> []" using run(3) assms(8) by metis
  then have "\<exists>c. run_state (runScenario env client cfg i runID) s = (None, s\<lparr>lw_outside := w'\<lparr>g_clock := 2 + g_clock w'\<rparr>, lw_col := c\<rparr>)"
    using run(1) assms(2,3)
    by (auto simp: runScenario_def scenario_body_def callCreateOrder_def timed_call_def client_def service_client_def external_def
        g_now_def col_record_def Let_def split_def simp flip: w_def)
  then obtain c where c: "run_state (runScenario env client cfg i runID) s = (None, s\<lparr>lw_outside := w'\<lparr>g_clock := 2 + g_clock w'\<rparr>, lw_col := c\<rparr>)"
    by blast
  have "one_order_more ?req (lw_outside s) (w'\<lparr>g_clock := 2 + g_clock w'\<rparr>) (pb_Id pb)"
    using run(2) by (simp add: one_order_more_def w_def)
  moreover have "fresh_ids newid (w'\<lparr>g_clock := 2 + g_clock w'\<rparr>)" using run(4) by (simp add: fresh_ids_def)
  ultimately show ?thesis using c run(5) by (fastforce simp: w_def)
qed

lemma run_jobs_stores:
  fixes newid ord waited b cd cd_pay cd_cancel
  defines "client \<equiv> service_client (NewOrderService newid ord waited b) cd cd_pay cd_cancel"
  assumes "load_now env = g_now" and "lc_mode cfg = modeCreate" and "check_config cfg = None" and "in_int64 (amountMinor cfg)"
    and "\<And>req. hashes cd req" and "inj newid" and "[] \<notin> range newid"
  shows "distinct ids \<Longrightarrow> (\<forall>i \<in> set ids. 0 \<le> i \<and> g_idem (lw_outside s) (load_key ''create'' runID i) = None)
    \<Longrightarrow> fresh_ids newid (lw_outside s)
    \<Longrightarrow> \<exists>s'. run_state (run_jobs env (\<lambda>_. client) cfg runID workerID ids) s = (0, s')
      \<and> orders_more (length ids) (lw_outside s) (lw_outside s')"
proof (induction ids arbitrary: s)
  case Nil
  then show ?case by (auto simp: orders_more_def)
next
  case (Cons i ids)
  obtain s1 req j where s1: "run_state (runScenario env client cfg i runID) s = (None, s1)"
      "one_order_more req (lw_outside s) (lw_outside s1) j" "fresh_ids newid (lw_outside s1)"
      "\<forall>k. k \<noteq> load_key ''create'' runID i \<longrightarrow> g_idem (lw_outside s1) k = g_idem (lw_outside s) k"
    using scenario_stores [OF assms(2-8), of i s runID ord waited b cd_pay cd_cancel] Cons.prems by (auto simp: client_def)
  have "0 \<le> k \<and> g_idem (lw_outside s1) (load_key ''create'' runID k) = None" if "k \<in> set ids" for k
    using that Cons.prems(1,2) s1(4) load_key_inj [of k i "''create''" runID] by auto
  then obtain s2 where "run_state (run_jobs env (\<lambda>_. client) cfg runID workerID ids) s1 = (0, s2)"
      "orders_more (length ids) (lw_outside s1) (lw_outside s2)"
    using Cons.IH [of s1] Cons.prems(1) s1(3) by auto
  then show ?case using s1(1,2) orders_more_Suc by auto
qed

lemma parsed_config: "parseConfig flags = Inr cfg \<Longrightarrow> check_config cfg = None"
  by (auto simp: parseConfig_def Let_def split: sum.splits option.splits)

lemma dispatch_loop_range: "i \<in> set (dispatch_loop cfg n k) \<Longrightarrow> k \<le> i"
  by (induction n arbitrary: k) (fastforce split: if_splits)+

lemma dispatch_loop_distinct: "distinct (dispatch_loop cfg n k)"
  by (induction n arbitrary: k) (auto dest: dispatch_loop_range)

lemma dispatched: "distinct (dispatchJobs cfg sends)" "i \<in> set (dispatchJobs cfg sends) \<Longrightarrow> 0 \<le> i"
  by (auto simp: dispatchJobs_def dispatch_loop_distinct dest: dispatch_loop_range split: if_splits)

text \<open>C29. A load test that only creates orders, run against the order service, succeeds: it exits with status 0, reports every
  scenario as a success, and leaves exactly one new pending order for each, beside the orders that were there. The
  service needs identifiers that are new, and an idempotency store without keys of an earlier load test.\<close>

theorem load_test_creates_orders:
  fixes newid ord waited b cd cd_pay cd_cancel
  assumes "parseConfig flags = Inr cfg" and "lc_mode cfg = modeCreate" and "outputPath cfg = []" and "in_int64 (amountMinor cfg)"
    and "load_now env = g_now" and "\<And>k. dial k = None"
    and "\<And>req. hashes cd req" and "inj newid" and "[] \<notin> range newid" and "fresh_ids newid (lw_outside s)"
    and "\<And>k. prefix ''lt-'' k \<Longrightarrow> g_idem (lw_outside s) k = None"
  shows "\<exists>r s'. run_state (loadtest_main env dial (\<lambda>_. service_client (NewOrderService newid ord waited b) cd cd_pay cd_cancel)
       workerID sends flags) s = ((0, Some r), s')
    \<and> SuccessScenarios r = int (length (dispatchJobs cfg sends)) \<and> FailedScenarios r = 0
    \<and> orders_more (length (dispatchJobs cfg sends)) (lw_outside s) (lw_outside s')"
proof -
  let ?client = "service_client (NewOrderService newid ord waited b) cd cd_pay cd_cancel" and ?ids = "dispatchJobs cfg sends"
  define w where "w = (lw_outside s)\<lparr>g_clock := g_clock (lw_outside s) + 1\<rparr>"
  define runID where "runID = load_runID (g_clock (lw_outside s)) (Getpid env)"
  let ?jobs = "run_jobs env (\<lambda>_. ?client) cfg runID workerID ?ids" and ?s = "\<lparr>lw_col = newCollector, lw_outside = w\<rparr>"
  have "fresh_ids newid w" "\<And>i. g_idem w (load_key ''create'' runID i) = None"
    using assms(10,11) by (simp_all add: w_def fresh_ids_def load_key_def)
  then obtain s2 where jobs: "run_state ?jobs ?s = (0, s2)" "orders_more (length ?ids) w (lw_outside s2)"
    using run_jobs_stores [OF assms(5,2) parsed_config [OF assms(1)] assms(4,7,8,9), of ?ids ?s runID ord waited b cd_pay cd_cancel workerID]
      dispatched(1) [of cfg sends] dispatched(2) [of _ cfg sends] by auto
  obtain ms where ms: "lw_col s2 = fold record_call ms newCollector" "accounts cfg ?ids (kinds ms) 0"
    using service.run_jobs_adds [of env "NewOrderService newid ord waited b" cd cd_pay cd_cancel cfg runID workerID ?ids] jobs(1)
    unfolding adds_def by (metis fst_conv snd_conv load_world.select_convs(1) nat_zero_as_int nat_0)
  note counts = report_counts [where startedAt = "g_clock (lw_outside s)" and ms = ms]
  have ok: "SuccessScenarios (buildReport (g_clock (lw_outside s)) dur (lw_col s2)) = int (length ?ids)"
      "FailedScenarios (buildReport (g_clock (lw_outside s)) dur (lw_col s2)) = 0" for dur
    using counts(3-5) [of dur] ms(2) by (auto simp: accounts_def ms(1))
  have start: "run_state (external (load_now env)) s = (g_clock (lw_outside s), s\<lparr>lw_outside := w\<rparr>)"
    by (simp add: assms(5) external_def g_now_def w_def)
  have reset: "s\<lparr>lw_outside := w, lw_col := newCollector\<rparr> = ?s" by (cases s) simp
  have stop: "run_state (external (load_now env)) s2
      = (g_clock (lw_outside s2), s2\<lparr>lw_outside := (lw_outside s2)\<lparr>g_clock := g_clock (lw_outside s2) + 1\<rparr>\<rparr>)"
    by (simp add: assms(5) external_def g_now_def)
  have "run_state (loadtest_main env dial (\<lambda>_. ?client) workerID sends flags) s
      = ((0, Some (buildReport (g_clock (lw_outside s)) (Sub (g_clock (lw_outside s2)) (g_clock (lw_outside s))) (lw_col s2))),
         s2\<lparr>lw_outside := (lw_outside s2)\<lparr>g_clock := g_clock (lw_outside s2) + 1\<rparr>\<rparr>)"
    using jobs(1) start stop ok assms(1,3,6)
    by (simp add: loadtest_main_def Let_def adjust_failures_def reset runID_def list_ex_iff)
  then show ?thesis
    using ok jobs(2) by (auto simp: orders_more_def w_def)
qed

definition service_load_env :: "svc_world load_env" where
  "service_load_env = \<lparr>load_now = g_now, Getpid = 7, os_Create = (\<lambda>_. return None), Encode = (\<lambda>_. return None)\<rparr>"

definition accepted :: OrderStatusResponse where
  "accepted = \<lparr>resp_OrderId = ''id-1'', resp_Status = ORDER_STATUS_PENDING\<rparr>"

definition create_codec :: "(CreateOrderRequest, pb_Order) codec" where
  "create_codec = shop_codec (toProtoOrder (built_order (\<lambda>n. ''id-'' @ int_string (int n)) shop_world shop_request))"

definition three_orders :: load_flags where
  "three_orders = default_load_flags\<lparr>flag_cfg := (flag_cfg default_load_flags)\<lparr>lc_total := 3\<rparr>, totalGiven := True\<rparr>"

definition three_orders_config :: load_config where
  "three_orders_config = (flag_cfg three_orders)\<lparr>lc_timeout := 5000 * millisecond, totalSet := True\<rparr>"

lemma three_orders_facts:
  "parseConfig three_orders = Inr three_orders_config" "lc_mode three_orders_config = modeCreate" "outputPath three_orders_config = []"
  "in_int64 (amountMinor three_orders_config)" "length (dispatchJobs three_orders_config 0) = 3"
  by code_simp+

theorem load_test_creates_orders_witness:
  "\<exists>r s'. run_state (loadtest_main service_load_env (\<lambda>_. None) (\<lambda>_. service_client shop create_codec (shop_codec accepted)
       (shop_codec accepted)) nat 0 three_orders) \<lparr>lw_col = newCollector, lw_outside = shop_world\<rparr> = ((0, Some r), s')
    \<and> SuccessScenarios r = 3 \<and> FailedScenarios r = 0 \<and> card (dom (g_orders (lw_outside s'))) = 3"
proof -
  let ?id = "\<lambda>n. ''id-'' @ int_string (int n)"
  have "inj ?id" by (auto intro!: injI simp: int_string_inj)
  moreover have "fresh_ids ?id shop_world" by (simp add: fresh_ids_def) (simp add: shop_world_def time_Unix_def unix_to_internal_def int64_def)
  moreover have "dom (g_orders shop_world) = {}" by auto
  ultimately show ?thesis
    using load_test_creates_orders [OF three_orders_facts(1-4), of service_load_env "\<lambda>_. None" create_codec ?id
        "\<lparr>lw_col = newCollector, lw_outside = shop_world\<rparr>" "\<lambda>_. []" None True "shop_codec accepted" "shop_codec accepted" nat 0]
    by (auto simp: service_load_env_def three_orders_facts(5) create_codec_def shop_hashes orders_more_def)
qed

end
