(* ===== verification/Spec2Isabelle.thy ===== *)
theory Spec2Isabelle
  imports Cleanup_Worker Saga_Properties Outbox_Worker Order_Service_Properties Courier_Ratings Resilience Courier_Schedule
    Kafka_Properties Dead_Letters Replay_Properties Pg_Orders_Refinement Pg_Idempotency Pg_Timeline Pg_Courier_Reads Migrator_Properties Batch_Processor
    App_Shutdown Load_Composition
begin

text \<open>
  Verification of the order management system, a Go service that takes orders over gRPC, runs a saga over inventory and
  payment for each, records what happened in a timeline and an outbox, and publishes it to Kafka; a courier directory; and
  the tools around them. Paths below are relative to \<open>src/\<close>.

  \<^bold>\<open>How the program hangs together.\<close> A request reaches \<open>internal/service/grpc\<close>. Mutating order requests pass the
  idempotency layer, which stores the answer of every key. \<open>PayOrder\<close>, \<open>CancelOrder\<close> and \<open>RefundOrder\<close> start calls of the
  orchestrator in \<open>internal/service/saga\<close>, which changes the status of an order under optimistic locking, calls the inventory
  and payment services, compensates, and writes timeline and outbox. The outbox worker publishes the outbox through
  \<open>internal/messaging/kafka\<close> and sends to the dead letter topic what it cannot publish; consumers do the same with messages they
  cannot handle; \<open>cmd/dlq-reprocess\<close> publishes dead letters again. All of it stores its state through the ports of
  \<open>internal/domain\<close>, which \<open>internal/storage/memory\<close> and \<open>internal/storage/postgres\<close> implement. \<open>internal/app\<close> wires the parts.

  \<^bold>\<open>How code is modelled.\<close>
  \<^item> Structs are records, enumerations are datatypes, maps are partial functions; a loop over a map takes the order of the
    visit as an argument that lists the keys (\<open>range_order\<close>), and results are shown for every order. Machine integers are
    \<open>int\<close> with \<open>int64\<close> and \<open>int32\<close> written where the code can wrap (the version of an order, which grows by one with each
    save, is unbounded). A \<open>float64\<close> is the rational it stands for, and every operation on it is rounded (\<open>Float64\<close>). Strings are lists of bytes. A time is the number of
    nanoseconds since the zero time of Go, so that \<open>IsZero\<close> is \<open>0\<close>.
  \<^item> Methods of a memory repository hold its mutex and are functions from state to result and state. Code that calls
    other components is a program of the state monad (\<open>Programs\<close>) over a world, with the components it calls as operations of
    a record; such a record stands for exactly the Go interface the code is written against.
  \<^item> Errors are values: \<open>error\<close> with its sentinels and wrapped errors, \<open>rpc_status\<close> for gRPC, \<open>sqlerr\<close> for SQL.
  \<^item> What is outside the repository is an argument with named hypotheses: sarama, the protobuf and JSON codecs of the
    idempotency layer, SHA-256, clocks, UUIDs, the collation of PostgreSQL. Concurrency is made explicit where a claim depends on it:
    as interference between the steps of a saga, as step relations (\<open>Resilience\<close>, \<open>Batch_Processor\<close>), as statements that
    interleave (\<open>zone_capacity_race\<close>), or as the order of measurements (\<open>report_any_interleaving\<close>).

  \<^bold>\<open>Shared theories.\<close> \<open>Prelude\<close> (Go integers, times, maps, \<open>sort.Slice\<close> with the locale \<open>slice_sort\<close>, \<open>strings.TrimSpace\<close>),
  \<open>Float64\<close> (rounding to 53 bits, to nearest even: monotone, with its relative error, interpolation and sums; the exponent is
  unbounded), \<open>Programs\<close> (the state monad and a Hoare logic with the collection \<open>hoare\<close>), \<open>Json\<close> (the parts of \<open>encoding/json\<close> that the messages
  use; decoding what was encoded gives it back), \<open>Sql\<close> (tables as lists of rows, statements, transactions, faults of the
  server; \<open>runs\<close> describes a server without faults and \<open>leaves\<close> what can remain with any faults).

  \<^bold>\<open>Orders.\<close>
  \<^item> \<open>Domain\<close> (\<open>internal/domain\<close>): entities, errors, validation.
  \<^item> \<open>Order_Repository\<close>, \<open>Timeline_Repository\<close>, \<open>Outbox_Repository\<close>, \<open>Idempotency_Repository\<close> (\<open>internal/storage/memory\<close>): every operation
    keeps its repository well-formed, and the contracts \<open>order_store\<close>, \<open>timeline_store\<close> and \<open>expiring_store\<close> are interpreted on them. Of
    concurrent writers exactly one saves; \<open>PullPending\<close> claims exactly the oldest claimable messages, in their order, and never one with a
    running lease, whatever calls come between two pulls.
  \<^item> \<open>Saga\<close> (\<open>orchestrator.go\<close>, \<open>saga_metrics.go\<close>, \<open>events.go\<close>), \<open>Saga_World\<close> (the orchestrator as \<open>internal/app\<close> wires it, with the mock
    services), \<open>Saga_Safety\<close> (the contract \<open>saga_backend\<close>: under arbitrary interference orders only advance), \<open>Saga_Spec\<close> (the
    specification \<open>saga_outcome\<close> and the refinement), \<open>Saga_Properties\<close> (the ledger: amounts charged and refunds confirmed match the status
    for any answers of the services, and the interleavings that break it).
  \<^item> \<open>Grpc_Order\<close> (\<open>order_service.go\<close>), \<open>Grpc_Properties\<close> (the contract \<open>idem_backend\<close>: a known key is answered from the store),
    \<open>Order_Service_Properties\<close> (\<open>CreateOrder\<close> equals its specification; retries are replayed; what was created is read back).
  \<^item> \<open>Outbox_Worker\<close> (\<open>worker.go\<close>, contract \<open>outbox_backend\<close>: exactly the pulled messages are settled, as sent or with a dead letter), \<open>Cleanup_Worker\<close>
    (\<open>cleanup_worker.go\<close>: a run ends and leaves nothing expired).
  \<^item> \<open>Resilience\<close> (\<open>retry.go\<close>: retries, and the circuit breaker with calls that overlap), \<open>Batch_Processor\<close> (\<open>batch_processor.go\<close>: channels,
    workers, batches and their goroutines as a step relation; every queued request waits, has its goroutine started or was given
    to the orchestrator once, and without \<open>Stop\<close> all are).

  \<^bold>\<open>Messages.\<close> \<open>Kafka\<close> and \<open>Kafka_Properties\<close> (\<open>internal/messaging/kafka\<close>: every message of a claim has a lawful fate), \<open>Dlq_Replay\<close>,
  \<open>Replay_Properties\<close> and \<open>Dead_Letters\<close> (\<open>cmd/dlq-reprocess\<close>: the scan of the topic, and that a dead letter comes back as the message
  it was).

  \<^bold>\<open>Couriers.\<close> \<open>Courier_Domain\<close> and \<open>Zone_Ids\<close> (\<open>courier.go\<close>, \<open>moscow_zones.go\<close>), \<open>Courier_Repository\<close> (memory), \<open>Courier_Invariants\<close> (the contract
  \<open>courier_directory\<close>), \<open>Courier_Properties\<close> and \<open>Courier_Ratings\<close> (capacity of zones, overlap of slots, rating summaries against a
  reference), \<open>Grpc_Courier\<close> (\<open>courier_service.go\<close>), \<open>Courier_Service\<close> (the contract \<open>courier_port\<close> and the invariant of the service),
  \<open>Courier_Registration\<close> and \<open>Courier_Schedule\<close> (requests from end to end).

  \<^bold>\<open>PostgreSQL.\<close> \<open>Pg_Orders\<close>, \<open>Pg_Timeline\<close>, \<open>Pg_Outbox\<close>, \<open>Pg_Idempotency\<close> and \<open>Pg_Couriers\<close> model the repositories statement by statement on
  the tables of the migrations. \<open>Pg_Orders_Refinement\<close> and the refinement theorems of the next three show that they answer as the memory
  repositories do, with times cut to the microsecond, so that what holds of those holds of these; the calls on which the
  repositories differ (a \<open>Save\<close> with other items, an \<open>Enqueue\<close> of a stored identifier) are excluded and shown to differ; with faults the writes of
  orders are all or nothing. \<open>Pg_Couriers_Properties\<close> shows the invariant of the courier tables under any writes, one after another, and faults,
  and that the capacity of a zone is not safe against overlapping transactions; \<open>Pg_Courier_Reads\<close> the rating summary and what
  canceled slots block.
  \<open>Migrator\<close> and \<open>Migrator_Properties\<close> (\<open>migrator.go\<close>, \<open>store.go\<close>, \<open>cmd/migrate\<close>): schema and version table stay in step whatever fails.

  \<^bold>\<open>The process and its tools.\<close> \<open>App\<close> (\<open>cmd/order-service\<close>, \<open>internal/app\<close>: configuration, choice of the storage, start with retries),
  \<open>App_Shutdown\<close> (the end of \<open>Run\<close>), \<open>Health\<close> (\<open>internal/health\<close>), \<open>Load_Report\<close>, \<open>Loadtest\<close> and \<open>Loadtest_Properties\<close> (\<open>cmd/loadtest\<close>: the
  report accounts for every call, percentiles mean what they say), \<open>Load_Composition\<close> (the load test against the order service, which
  fulfils its contract \<open>order_api\<close>).

  \<^bold>\<open>Bounds and termination.\<close> Recursion is structural or has a measure. Loops that need not end are \<open>partial_function (option)\<close>: the
  batches of the cleanup worker and \<open>retryWithDeadline\<close>; \<open>worker_DeleteExpired_total\<close> and \<open>retry_ends\<close> show that they do. The scanner of
  JSON values gets twice the length of the input and two as fuel (\<open>enough\<close>), at most two steps go to each byte, and \<open>Json\<close>
  shows that the values that are written are read back with it. Endless loops (the \<open>Run\<close> of the workers, \<open>ConsumeClaim\<close>) are driven by the finite list of
  events their \<open>select\<close> receives, and results hold for every such list. Retry counters are the constants of the source.

  \<^bold>\<open>Not modelled.\<close>
  \<^item> Logging, the registration of metrics with Prometheus and the text of the console output: no state of the program depends on
    them.
  \<^item> The gRPC and HTTP servers, the sarama connections with the goroutines of \<open>Consumer.Start\<close> and \<open>Stop\<close>, the settings of the
    connection pool and \<open>Close\<close> of \<open>database/sql\<close>: calls of libraries without logic of their own.
  \<^item> Infinities and subnormal numbers of \<open>float64\<close>, which the numbers of the program do not reach.
  \<^item> Overlapping scenarios of the load test: its workers run their scenarios one after another; the report does not depend on
    the order of the measurements (\<open>report_any_interleaving\<close>).
  \<^item> The panic of \<open>make\<close> for a capacity that is too large (\<open>PullPending\<close> of the memory outbox with a huge limit).
  \<^item> Generated protobuf code, and \<open>internal/version\<close>, whose strings the linker sets.
\<close>

end
